(* ===== verification/Prelude.thy ===== *)
theory Prelude
  imports Main "HOL-Library.AList" "HOL-Library.Multiset"
begin

text \<open>
  The generic part of the library: the lemma collections the component theories
  extend, decimal printing and the identifiers built from it, the insertion-ordered
  \<open>Map\<close> of JavaScript as an association list, \<open>findIndex\<close> and \<open>splice\<close>, and
  sorting by a comparison function, whose contract is the locale \<open>comparator\<close>.
\<close>

named_theorems op_defs \<open>the definitions of the operations of the runtime\<close>
named_theorems frame_simps \<open>the fields an operation leaves alone\<close>
named_theorems inv_intros \<open>one rule per operation: it keeps an invariant\<close>

section \<open>Decimal numerals\<close>

definition digit_char :: "nat \<Rightarrow> char" where
  "digit_char d = char_of (48 + d)"

definition is_digit :: "char \<Rightarrow> bool" where
  "is_digit c \<longleftrightarrow> 48 \<le> (of_char c :: nat) \<and> (of_char c :: nat) \<le> 57"

definition digit_value :: "char \<Rightarrow> nat" where
  "digit_value c = of_char c - 48"

text \<open>\<open>String(n)\<close> for a non-negative integer.\<close>

fun show_nat :: "nat \<Rightarrow> string" where
  "show_nat n = (if n < 10 then [digit_char n] else show_nat (n div 10) @ [digit_char (n mod 10)])"

declare show_nat.simps [simp del]

definition read_nat :: "string \<Rightarrow> nat" where
  "read_nat ds = foldl (\<lambda>acc c. 10 * acc + digit_value c) 0 ds"

lemma digit_char_digit [simp]: "d < 10 \<Longrightarrow> is_digit (digit_char d)"
  by (simp add: is_digit_def digit_char_def)

lemma digit_value_char [simp]: "d < 10 \<Longrightarrow> digit_value (digit_char d) = d"
  by (simp add: digit_value_def digit_char_def)

lemma show_nat_digits: "\<forall>c \<in> set (show_nat n). is_digit c"
proof (induction n rule: show_nat.induct)
  case (1 n)
  show ?case
  proof (cases "n < 10")
    case True
    then show ?thesis by (subst show_nat.simps) simp
  next
    case False
    with "1.IH" show ?thesis by (subst show_nat.simps) auto
  qed
qed

lemma show_nat_nonempty [simp]: "show_nat n \<noteq> []"
  by (subst show_nat.simps) simp

lemma read_nat_snoc: "read_nat (ds @ [c]) = 10 * read_nat ds + digit_value c"
  by (simp add: read_nat_def)

lemma read_show_nat [simp]: "read_nat (show_nat n) = n"
proof (induction n rule: show_nat.induct)
  case (1 n)
  show ?case
  proof (cases "n < 10")
    case True
    then show ?thesis by (subst show_nat.simps) (simp add: read_nat_def)
  next
    case False
    with "1.IH" show ?thesis by (subst show_nat.simps) (simp add: read_nat_snoc)
  qed
qed

lemma show_nat_inject [simp]: "show_nat m = show_nat n \<longleftrightarrow> m = n"
  by (metis read_show_nat)

lemma not_digit_show_nat: "\<not> is_digit c \<Longrightarrow> c \<notin> set (show_nat n)"
  using show_nat_digits by blast

section \<open>Identifiers: a prefix, a hyphen and a serial number\<close>

definition mk_id :: "string \<Rightarrow> nat \<Rightarrow> string" where
  "mk_id prefix n = prefix @ ''-'' @ show_nat n"

lemma hyphen_not_digit: "CHR ''-'' \<notin> set (show_nat n)"
  by (rule not_digit_show_nat) (simp add: is_digit_def)

lemma split_at_inject:
  "xs @ c # p = ys @ c # q \<Longrightarrow> c \<notin> set xs \<Longrightarrow> c \<notin> set ys \<Longrightarrow> xs = ys \<and> p = q"
proof (induction xs arbitrary: ys)
  case Nil
  then show ?case by (cases ys) auto
next
  case (Cons x xs)
  then show ?case by (cases ys) auto
qed

lemma append_hyphen_inject:
  assumes "p @ CHR ''-'' # xs = q @ CHR ''-'' # ys"
    and "CHR ''-'' \<notin> set xs" and "CHR ''-'' \<notin> set ys"
  shows "p = q \<and> xs = ys"
proof -
  from assms(1) have "rev (p @ CHR ''-'' # xs) = rev (q @ CHR ''-'' # ys)"
    by simp
  then have "rev xs @ CHR ''-'' # rev p = rev ys @ CHR ''-'' # rev q"
    by simp
  then have "rev xs = rev ys \<and> rev p = rev q"
    by (rule split_at_inject) (use assms(2,3) in simp_all)
  then show ?thesis by simp
qed

lemma mk_id_inject [simp]: "mk_id p m = mk_id q n \<longleftrightarrow> p = q \<and> m = n"
proof
  assume "mk_id p m = mk_id q n"
  then show "p = q \<and> m = n"
    using append_hyphen_inject[of p "show_nat m" q "show_nat n"]
    by (simp add: mk_id_def hyphen_not_digit)
qed simp

text \<open>
  An identifier was issued before the counter reached \<open>n\<close>. Every freshness argument of
  the development is that \<open>mk_id p n\<close> itself is not of this form.
\<close>

definition issued :: "nat \<Rightarrow> string \<Rightarrow> bool" where
  "issued n i \<longleftrightarrow> (\<exists>p k. k < n \<and> i = mk_id p k)"

lemma not_issued_self [simp]: "\<not> issued n (mk_id p n)"
  by (simp add: issued_def)

lemma issued_mk_id [simp]: "issued n (mk_id p k) \<longleftrightarrow> k < n"
  by (auto simp: issued_def)

lemma issued_mono: "issued m i \<Longrightarrow> m \<le> n \<Longrightarrow> issued n i"
  by (auto simp: issued_def)

section \<open>The insertion-ordered Map\<close>

text \<open>
  \<open>Map.set\<close> overwrites in place or appends, \<open>Map.delete\<close> keeps the order of the other
  entries, \<open>Map.values\<close> iterates in that order: the association lists of the library.
\<close>

abbreviation map_get :: "('k \<times> 'v) list \<Rightarrow> 'k \<Rightarrow> 'v option" where
  "map_get m k \<equiv> map_of m k"

abbreviation map_set :: "'k \<Rightarrow> 'v \<Rightarrow> ('k \<times> 'v) list \<Rightarrow> ('k \<times> 'v) list" where
  "map_set k v m \<equiv> AList.update k v m"

abbreviation map_delete :: "'k \<Rightarrow> ('k \<times> 'v) list \<Rightarrow> ('k \<times> 'v) list" where
  "map_delete k m \<equiv> AList.delete k m"

abbreviation map_values :: "('k \<times> 'v) list \<Rightarrow> 'v list" where
  "map_values m \<equiv> map snd m"

text \<open>The entries a \<open>for (const [k, v] of m) if (P) m.delete(k)\<close> loop leaves.\<close>

abbreviation map_remove_where :: "('k \<Rightarrow> 'v \<Rightarrow> bool) \<Rightarrow> ('k \<times> 'v) list \<Rightarrow> ('k \<times> 'v) list" where
  "map_remove_where P m \<equiv> filter (\<lambda>(k, v). \<not> P k v) m"

text \<open>A \<open>Map\<close> holds every key once, and is the state of every store of the runtime.\<close>

abbreviation wf_map :: "('k \<times> 'v) list \<Rightarrow> bool" where
  "wf_map m \<equiv> distinct (map fst m)"

lemma map_get_set [simp]: "map_get (map_set k v m) k' = (if k' = k then Some v else map_get m k')"
  by (simp add: update_conv')

lemma map_get_delete [simp]: "map_get (map_delete k m) k' = (if k' = k then None else map_get m k')"
  by (simp add: delete_conv')

lemma wf_map_set [simp, intro]: "wf_map m \<Longrightarrow> wf_map (map_set k v m)"
  by (simp add: distinct_update)

lemma wf_map_delete [simp, intro]: "wf_map m \<Longrightarrow> wf_map (map_delete k m)"
  by (simp add: distinct_delete)

lemma wf_map_filter [simp, intro]: "wf_map m \<Longrightarrow> wf_map (filter P m)"
  by (induction m) (auto simp: image_iff)

lemma wf_map_entry: "wf_map m \<Longrightarrow> (k, v) \<in> set m \<longleftrightarrow> map_get m k = Some v"
  by simp

lemma map_get_filter:
  "wf_map m \<Longrightarrow>
     map_get (filter P m) k = (case map_get m k of None \<Rightarrow> None
                                | Some v \<Rightarrow> if P (k, v) then Some v else None)"
proof (induction m)
  case Nil
  show ?case by simp
next
  case (Cons e m)
  obtain k' v' where e: "e = (k', v')" by (cases e)
  with Cons.prems have "map_get m k' = None" by (simp add: map_of_eq_None_iff)
  with e Cons show ?case by (auto split: option.splits)
qed

lemma in_map_values_set:
  "x \<in> set (map_values (map_set k v m)) \<Longrightarrow> x = v \<or> x \<in> set (map_values m)"
  by (induction m) (auto split: if_splits)

lemma in_map_values: "wf_map m \<Longrightarrow> x \<in> set (map_values m) \<longleftrightarrow> (\<exists>k. map_get m k = Some x)"
  by force

text \<open>
  The interface a client of a \<open>Map\<close> relies on, and what follows from it: a lookup after
  a write sees that write or the old entry, and a write leaves every other key alone.
\<close>

locale keyed_store =
  fixes get :: "'m \<Rightarrow> 'k \<Rightarrow> 'v option"
    and put :: "'k \<Rightarrow> 'v \<Rightarrow> 'm \<Rightarrow> 'm"
    and del :: "'k \<Rightarrow> 'm \<Rightarrow> 'm"
    and wf :: "'m \<Rightarrow> bool"
  assumes get_put: "get (put k v m) k' = (if k' = k then Some v else get m k')"
    and get_del: "get (del k m) k' = (if k' = k then None else get m k')"
    and wf_put: "wf m \<Longrightarrow> wf (put k v m)"
    and wf_del: "wf m \<Longrightarrow> wf (del k m)"
begin

lemma put_same: "get (put k v m) k = Some v"
  by (simp add: get_put)

lemma put_other: "k' \<noteq> k \<Longrightarrow> get (put k v m) k' = get m k'"
  by (simp add: get_put)

lemma del_put: "get m k = None \<Longrightarrow> get (del k (put k v m)) = get m"
  by (rule ext) (simp add: get_put get_del)

lemma fold_put_other: "k' \<notin> fst ` set kvs \<Longrightarrow> get (fold (\<lambda>(k, v). put k v) kvs m) k' = get m k'"
  by (induction kvs arbitrary: m) (auto simp: get_put split: prod.splits)

lemma wf_fold_put: "wf m \<Longrightarrow> wf (fold (\<lambda>(k, v). put k v) kvs m)"
  by (induction kvs arbitrary: m) (auto simp: wf_put split: prod.splits)

end

interpretation js_map: keyed_store map_of AList.update AList.delete wf_map
  by unfold_locales auto

section \<open>Array helpers\<close>

text \<open>\<open>findIndex\<close>, with \<open>None\<close> for the source's -1.\<close>

fun find_index :: "('a \<Rightarrow> bool) \<Rightarrow> 'a list \<Rightarrow> nat option" where
  "find_index P [] = None"
| "find_index P (x # xs) = (if P x then Some 0 else map_option Suc (find_index P xs))"

text \<open>\<open>splice(index, 1)\<close>: what is left of the array.\<close>

definition splice_out :: "nat \<Rightarrow> 'a list \<Rightarrow> 'a list" where
  "splice_out i xs = take i xs @ drop (Suc i) xs"

lemma find_index_Some:
  "find_index P xs = Some i \<Longrightarrow> i < length xs \<and> P (xs ! i) \<and> (\<forall>j < i. \<not> P (xs ! j))"
proof (induction xs arbitrary: i)
  case Nil
  then show ?case by simp
next
  case (Cons x xs)
  then show ?case
    by (cases "P x") (auto simp: nth_Cons less_Suc_eq_0_disj split: nat.splits)
qed

lemma find_index_None: "find_index P xs = None \<longleftrightarrow> (\<forall>x \<in> set xs. \<not> P x)"
  by (induction xs) auto

lemma mset_splice_out:
  "i < length xs \<Longrightarrow> mset xs = add_mset (xs ! i) (mset (splice_out i xs))"
  unfolding splice_out_def by (metis id_take_nth_drop mset.simps(2) mset_append union_mset_add_mset_right)

lemma set_splice_out: "set (splice_out i xs) \<subseteq> set xs"
  unfolding splice_out_def by (auto dest: in_set_takeD in_set_dropD)

lemma set_list_update_cases: "y \<in> set (xs[i := v]) \<Longrightarrow> y = v \<or> y \<in> set xs"
  using set_update_subset_insert by fastforce

section \<open>Sorting by a comparison function\<close>

text \<open>
  \<open>Array.prototype.sort(cmp)\<close> is stable. For a comparison function that is a total
  preorder there is exactly one stable result, computed here by insertion: an element
  goes before the first one it is not greater than.
\<close>

fun insert_by :: "('a \<Rightarrow> 'a \<Rightarrow> int) \<Rightarrow> 'a \<Rightarrow> 'a list \<Rightarrow> 'a list" where
  "insert_by cmp x [] = [x]"
| "insert_by cmp x (y # ys) = (if cmp x y \<le> 0 then x # y # ys else y # insert_by cmp x ys)"

definition sort_by :: "('a \<Rightarrow> 'a \<Rightarrow> int) \<Rightarrow> 'a list \<Rightarrow> 'a list" where
  "sort_by cmp xs = foldr (insert_by cmp) xs []"

lemma mset_insert_by [simp]: "mset (insert_by cmp x ys) = add_mset x (mset ys)"
  by (induction ys) auto

lemma mset_sort_by [simp]: "mset (sort_by cmp xs) = mset xs"
  by (induction xs) (auto simp: sort_by_def)

lemma set_sort_by [simp]: "set (sort_by cmp xs) = set xs"
  by (metis mset_sort_by set_mset_mset)

lemma length_sort_by [simp]: "length (sort_by cmp xs) = length xs"
  by (metis mset_sort_by size_mset)

lemma sort_by_Nil [simp]: "sort_by cmp [] = []"
  by (simp add: sort_by_def)

lemma sort_by_singleton [simp]: "sort_by cmp [x] = [x]"
  by (simp add: sort_by_def)

lemma insert_by_map: "(\<And>y. y \<in> set ys \<Longrightarrow> c (g x) (g y) = d x y) \<Longrightarrow> insert_by c (g x) (map g ys) = map g (insert_by d x ys)"
  by (induction ys) auto

lemma sort_by_map: "(\<And>x y. c (g x) (g y) = d x y) \<Longrightarrow> sort_by c (map g xs) = map g (sort_by d xs)"
  by (induction xs) (simp_all add: sort_by_def insert_by_map)

text \<open>The contract of a comparison function, and what sorting by it guarantees.\<close>

locale comparator =
  fixes cmp :: "'a \<Rightarrow> 'a \<Rightarrow> int"
  assumes flip: "cmp x y < 0 \<longleftrightarrow> 0 < cmp y x"
    and le_trans: "cmp x y \<le> 0 \<Longrightarrow> cmp y z \<le> 0 \<Longrightarrow> cmp x z \<le> 0"
begin

lemma refl_zero: "cmp x x = 0"
  using flip[of x x] by linarith

lemma total: "cmp x y \<le> 0 \<or> cmp y x \<le> 0"
  using flip[of y x] by linarith

lemma eq_sym: "cmp x y = 0 \<Longrightarrow> cmp y x = 0"
  using flip[of x y] flip[of y x] by linarith

lemma sorted_insert_by:
  "sorted_wrt (\<lambda>x y. cmp x y \<le> 0) ys \<Longrightarrow> sorted_wrt (\<lambda>x y. cmp x y \<le> 0) (insert_by cmp x ys)"
proof (induction ys)
  case Nil
  show ?case by simp
next
  case (Cons y ys)
  have sub: "set (insert_by cmp x ys) = insert x (set ys)"
    by (metis mset_insert_by set_mset_add_mset_insert set_mset_mset)
  show ?case
    using Cons total[of x y] le_trans[of x y] by (auto simp: sub)
qed

lemma sorted_sort_by: "sorted_wrt (\<lambda>x y. cmp x y \<le> 0) (sort_by cmp xs)"
  by (induction xs) (auto simp: sort_by_def sorted_insert_by)

lemma insert_by_equal_first:
  "cmp x z = 0 \<Longrightarrow> filter (\<lambda>y. cmp y z = 0) (insert_by cmp x ys) = x # filter (\<lambda>y. cmp y z = 0) ys"
proof (induction ys)
  case Nil
  then show ?case by simp
next
  case (Cons y ys)
  have "cmp x y \<le> 0" if "cmp y z = 0"
    using le_trans[of x z y] Cons.prems eq_sym[OF that] by simp
  with Cons show ?case by auto
qed

lemma insert_by_other:
  "cmp x z \<noteq> 0 \<Longrightarrow> filter (\<lambda>y. cmp y z = 0) (insert_by cmp x ys) = filter (\<lambda>y. cmp y z = 0) ys"
  by (induction ys) auto

lemma stable_sort_by: "filter (\<lambda>y. cmp y z = 0) (sort_by cmp xs) = filter (\<lambda>y. cmp y z = 0) xs"
  by (induction xs) (auto simp: sort_by_def insert_by_equal_first insert_by_other)

end

text \<open>Two keys compared in turn, as the source's comparison functions do.\<close>

definition compare_then :: "('a \<Rightarrow> 'a \<Rightarrow> int) \<Rightarrow> ('a \<Rightarrow> 'a \<Rightarrow> int) \<Rightarrow> 'a \<Rightarrow> 'a \<Rightarrow> int" where
  "compare_then c d x y = (let b = c x y in if b \<noteq> 0 then b else d x y)"

lemma comparator_difference: "comparator (\<lambda>x y. f x - f y :: int)"
  by unfold_locales auto

lemma comparator_vimage: "comparator c \<Longrightarrow> comparator (\<lambda>x y. c (f x) (f y))"
  unfolding comparator_def by blast

lemma comparator_flip: "comparator c \<Longrightarrow> comparator (\<lambda>x y. c y x)"
  unfolding comparator_def by blast

lemma comparator_then:
  assumes "comparator c" and "comparator d"
  shows "comparator (compare_then c d)"
proof
  have c: "c x y < 0 \<longleftrightarrow> 0 < c y x" for x y
    by (rule comparator.flip[OF assms(1)])
  have d: "d x y < 0 \<longleftrightarrow> 0 < d y x" for x y
    by (rule comparator.flip[OF assms(2)])
  show "compare_then c d x y < 0 \<longleftrightarrow> 0 < compare_then c d y x" for x y
    using c[of x y] c[of y x] d[of x y] by (auto simp: compare_then_def Let_def)
  fix x y z
  assume xy: "compare_then c d x y \<le> 0" and yz: "compare_then c d y z \<le> 0"
  have le: "c x y \<le> 0" "c y z \<le> 0"
    using xy yz by (auto simp: compare_then_def Let_def split: if_splits)
  have "c x z \<le> 0"
    by (rule comparator.le_trans[OF assms(1) le])
  moreover have "d x z \<le> 0" if "c x z = 0"
  proof -
    have "c z x \<le> 0" using c[of z x] c[of x z] that by linarith
    then have "c y x \<le> 0" "c z y \<le> 0"
      using comparator.le_trans[OF assms(1)] le by blast+
    then have "c x y = 0" "c y z = 0"
      using c[of x y] c[of y x] c[of y z] c[of z y] le by linarith+
    then show ?thesis
      using xy yz comparator.le_trans[OF assms(2)] by (auto simp: compare_then_def)
  qed
  ultimately show "compare_then c d x z \<le> 0"
    by (auto simp: compare_then_def Let_def)
qed

lemmas comparator_intros =
  comparator_then comparator_difference comparator_vimage comparator_flip

end
