(* ===== verification/Values.thy ===== *)
theory Values
  imports Prelude Complex_Main
begin

text \<open>
  JavaScript values as the runtime stores and compares them: the data values a run can
  carry, the key \<open>valueKey\<close> under which \<open>runtime/in-memory.ts\<close> compares them, JSON
  containment, and the serialisation of thrown values into stored errors
  (\<open>runtime/errors.ts\<close>, \<open>common/src/error.ts\<close>).
\<close>

section \<open>Values and the host\<close>

text \<open>
  Numbers are IEEE doubles: the finite ones are rationals, negative zero is apart because
  \<open>Object.is\<close> tells it from zero. An object is the list of its own entries in
  enumeration order; a \<open>Date\<close> has no own entries. Functions, symbols, big integers and
  class instances are not data of a run.
\<close>

datatype jsnum = NaN | PosInfinity | NegInfinity | NegZero | Fin rat

datatype jsval =
    JUndefined
  | JNull
  | JBool bool
  | JNum jsnum
  | JStr string
  | JArr "jsval list"
  | JObj "(string \<times> jsval) list"
  | JDate int

text \<open>
  The host's numeric services: \<open>Number(text)\<close>, and the rounding of an exact result to
  the nearest double.
\<close>

record numerics =
  stringToNumber :: "string \<Rightarrow> jsnum"
  roundDouble :: "rat \<Rightarrow> jsnum"

text \<open>
  What the code takes from its host: the successive readings of \<open>Date.now()\<close> (which may
  jump in either direction), the collation \<open>localeCompare\<close>, and the printing of finite
  numbers and dates.
\<close>

record host =
  clock :: "nat \<Rightarrow> int"
  localeCompare :: "string \<Rightarrow> string \<Rightarrow> int"
  numToString :: "rat \<Rightarrow> string"
  dateToString :: "int \<Rightarrow> string"
  toISOString :: "int \<Rightarrow> string"
  nums :: numerics

fun join :: "string \<Rightarrow> string list \<Rightarrow> string" where
  "join sep [] = []"
| "join sep [x] = x"
| "join sep (x # y # ys) = x @ sep @ join sep (y # ys)"

text \<open>\<open>String(value)\<close>.\<close>

fun number_string :: "host \<Rightarrow> jsnum \<Rightarrow> string" where
  "number_string h NaN = ''NaN''"
| "number_string h PosInfinity = ''Infinity''"
| "number_string h NegInfinity = ''-Infinity''"
| "number_string h NegZero = ''0''"
| "number_string h (Fin r) = numToString h r"

fun js_String :: "host \<Rightarrow> jsval \<Rightarrow> string" where
  "js_String h JUndefined = ''undefined''"
| "js_String h JNull = ''null''"
| "js_String h (JBool b) = (if b then ''true'' else ''false'')"
| "js_String h (JNum n) = number_string h n"
| "js_String h (JStr s) = s"
| "js_String h (JArr xs) =
     join '','' (map (\<lambda>x. if x = JUndefined \<or> x = JNull then [] else js_String h x) xs)"
| "js_String h (JObj kvs) = ''[object Object]''"
| "js_String h (JDate t) = dateToString h t"

text \<open>\<open>Number.isInteger\<close> and \<open>Number.isFinite\<close>.\<close>

definition rat_integral :: "rat \<Rightarrow> bool" where
  "rat_integral r \<longleftrightarrow> snd (quotient_of r) = 1"

fun isInteger :: "jsnum \<Rightarrow> bool" where
  "isInteger (Fin r) = rat_integral r"
| "isInteger NegZero = True"
| "isInteger _ = False"

fun isFinite :: "jsnum \<Rightarrow> bool" where
  "isFinite (Fin r) = True"
| "isFinite NegZero = True"
| "isFinite _ = False"

text \<open>The value of a finite number; the infinities and NaN are guarded before it is read.\<close>

fun num_value :: "jsnum \<Rightarrow> rat" where
  "num_value (Fin r) = r"
| "num_value _ = 0"

section \<open>Canonical keys of values\<close>

text \<open>
  The own keys of an object enumerate array indices first, ascending, then the other keys
  in insertion order; \<open>Object.fromEntries\<close> inserts one entry after the other.
\<close>

definition is_array_index :: "string \<Rightarrow> bool" where
  "is_array_index k \<longleftrightarrow> k \<noteq> [] \<and> list_all is_digit k \<and> k = show_nat (read_nat k) \<and> read_nat k < 2 ^ 32 - 1"

definition own_key_order :: "(string \<times> 'v) list \<Rightarrow> (string \<times> 'v) list" where
  "own_key_order kvs =
     sort_by (\<lambda>x y. int (read_nat (fst x)) - int (read_nat (fst y)))
       (filter (\<lambda>(k, v). is_array_index k) kvs)
     @ filter (\<lambda>(k, v). \<not> is_array_index k) kvs"

definition fromEntries :: "(string \<times> 'v) list \<Rightarrow> (string \<times> 'v) list" where
  "fromEntries kvs = own_key_order (fold (\<lambda>(k, v) m. map_set k v m) kvs [])"

lemma size_entry_less: "(k, v) \<in> set kvs \<Longrightarrow> size v < Suc (size_list (size_prod (\<lambda>_. 0) size) kvs)"
  by (induction kvs) auto

function stableJsonValue :: "(string \<Rightarrow> string \<Rightarrow> int) \<Rightarrow> jsval \<Rightarrow> jsval" where
  "stableJsonValue lc (JArr xs) = JArr (map (stableJsonValue lc) xs)"
| "stableJsonValue lc (JObj kvs) =
     JObj (fromEntries (map (\<lambda>(k, v). (k, stableJsonValue lc v))
       (sort_by (\<lambda>x y. lc (fst x) (fst y)) kvs)))"
| "stableJsonValue lc (JDate t) = JObj []"
| "stableJsonValue lc JUndefined = JUndefined"
| "stableJsonValue lc JNull = JNull"
| "stableJsonValue lc (JBool b) = JBool b"
| "stableJsonValue lc (JNum n) = JNum n"
| "stableJsonValue lc (JStr s) = JStr s"
  by pat_completeness auto
termination
  by (relation "measure (\<lambda>(lc, v). size v)")
     (auto dest: size_entry_less simp: less_Suc_eq_le size_list_estimation')

text \<open>\<open>JSON.stringify\<close>: \<open>None\<close> is \<open>undefined\<close>, which objects drop and arrays print as null.\<close>

definition hex_digit :: "nat \<Rightarrow> char" where
  "hex_digit d = (if d < 10 then char_of (48 + d) else char_of (87 + d))"

definition escape_char :: "char \<Rightarrow> string" where
  "escape_char c =
     (let n = (of_char c :: nat) in
      if n = 34 then [char_of (92::nat), char_of (34::nat)]
      else if n = 92 then [char_of (92::nat), char_of (92::nat)]
      else if n = 8 then char_of (92::nat) # ''b''
      else if n = 9 then char_of (92::nat) # ''t''
      else if n = 10 then char_of (92::nat) # ''n''
      else if n = 12 then char_of (92::nat) # ''f''
      else if n = 13 then char_of (92::nat) # ''r''
      else if n < 32 then char_of (92::nat) # ''u00'' @ [hex_digit (n div 16), hex_digit (n mod 16)]
      else [c])"

definition json_quote :: "string \<Rightarrow> string" where
  "json_quote s = [char_of (34::nat)] @ concat (map escape_char s) @ [char_of (34::nat)]"

function json_stringify :: "host \<Rightarrow> jsval \<Rightarrow> string option" where
  "json_stringify h JUndefined = None"
| "json_stringify h JNull = Some ''null''"
| "json_stringify h (JBool b) = Some (if b then ''true'' else ''false'')"
| "json_stringify h (JNum n) = Some (if isFinite n then number_string h n else ''null'')"
| "json_stringify h (JStr s) = Some (json_quote s)"
| "json_stringify h (JArr xs) =
     Some (''['' @ join '',''
       (map (\<lambda>x. case json_stringify h x of None \<Rightarrow> ''null'' | Some s \<Rightarrow> s) xs) @ '']'')"
| "json_stringify h (JObj kvs) =
     Some (''{'' @ join '',''
       (concat (map (\<lambda>(k, v). case json_stringify h v of None \<Rightarrow> []
                               | Some s \<Rightarrow> [json_quote k @ '':'' @ s]) kvs)) @ ''}'')"
| "json_stringify h (JDate t) = Some (json_quote (toISOString h t))"
  by pat_completeness auto
termination
  by (relation "measure (\<lambda>(h, v). size v)")
     (auto dest: size_entry_less simp: less_Suc_eq_le size_list_estimation')

definition valueKey :: "host \<Rightarrow> jsval \<Rightarrow> string option" where
  "valueKey h v = json_stringify h (stableJsonValue (localeCompare h) v)"

definition sameValue :: "host \<Rightarrow> jsval \<Rightarrow> jsval \<Rightarrow> bool" where
  "sameValue h l r \<longleftrightarrow> valueKey h l = valueKey h r"

text \<open>An absent value and \<open>undefined\<close> are the same: \<open>None\<close>.\<close>

definition sameOptionalValue :: "host \<Rightarrow> jsval option \<Rightarrow> jsval option \<Rightarrow> bool" where
  "sameOptionalValue h l r =
     (case (l, r) of
        (None, None) \<Rightarrow> True
      | (Some a, Some b) \<Rightarrow> sameValue h a b
      | _ \<Rightarrow> False)"

section \<open>Containment\<close>

fun is_record :: "jsval \<Rightarrow> bool" where
  "is_record (JObj kvs) = True"
| "is_record (JDate t) = True"
| "is_record _ = False"

fun js_prop :: "jsval \<Rightarrow> string \<Rightarrow> jsval" where
  "js_prop (JObj kvs) k = (case map_get kvs k of None \<Rightarrow> JUndefined | Some v \<Rightarrow> v)"
| "js_prop _ k = JUndefined"

function jsonContains :: "jsval \<Rightarrow> jsval \<Rightarrow> bool" where
  "jsonContains target JUndefined = True"
| "jsonContains target (JArr es) =
     (case target of
        JArr ts \<Rightarrow> list_all (\<lambda>e. list_ex (\<lambda>t. jsonContains t e) ts) es
      | _ \<Rightarrow> False)"
| "jsonContains target (JObj kvs) =
     (is_record target \<and> list_all (\<lambda>(k, v). jsonContains (js_prop target k) v) kvs)"
| "jsonContains target (JDate t) = is_record target"
| "jsonContains target JNull = (target = JNull)"
| "jsonContains target (JBool b) = (target = JBool b)"
| "jsonContains target (JNum n) = (target = JNum n)"
| "jsonContains target (JStr s) = (target = JStr s)"
  by pat_completeness auto
termination
  by (relation "measure (\<lambda>(target, e). size e)")
     (auto dest: size_entry_less simp: less_Suc_eq_le size_list_estimation')

section \<open>Thrown values and stored errors\<close>

text \<open>
  What a \<open>throw\<close> carries: an \<open>Error\<close> with its name, message, stack and cause (\<open>Plain JUndefined\<close>
  when it has none), or any other value.
\<close>

datatype thrown =
    Err string string "string option" thrown
  | Plain jsval

definition new_Error :: "string \<Rightarrow> thrown" where
  "new_Error message = Err ''Error'' message None (Plain JUndefined)"

text \<open>\<open>serializeError\<close>: the options are the depth, \<open>omitUndefinedStack\<close> and the fallback.\<close>

fun serializeError :: "host \<Rightarrow> bool \<Rightarrow> (jsval \<Rightarrow> jsval) option \<Rightarrow> int \<Rightarrow> thrown \<Rightarrow> jsval" where
  "serializeError h omitUndefinedStack fallback depth (Err n m st c) =
     JObj ([(''name'', JStr n), (''message'', JStr m)]
       @ (case st of
            None \<Rightarrow> if omitUndefinedStack then [] else [(''stack'', JUndefined)]
          | Some s \<Rightarrow> [(''stack'', JStr s)])
       @ (if c = Plain JUndefined \<or> depth \<le> 0 then []
          else [(''cause'', serializeError h omitUndefinedStack fallback (depth - 1) c)]))"
| "serializeError h omitUndefinedStack fallback depth (Plain v) =
     (case fallback of
        Some f \<Rightarrow> f v
      | None \<Rightarrow> JObj [(''message'', JStr (js_String h v))])"

fun is_string :: "jsval \<Rightarrow> bool" where
  "is_string (JStr s) = True"
| "is_string _ = False"

function isStoredError :: "jsval \<Rightarrow> bool" where
  "isStoredError (JObj kvs) =
     ((case map_get kvs ''message'' of Some (JStr m) \<Rightarrow> True | _ \<Rightarrow> False)
      \<and> (js_prop (JObj kvs) ''name'' = JUndefined \<or> is_string (js_prop (JObj kvs) ''name''))
      \<and> (js_prop (JObj kvs) ''stack'' = JUndefined \<or> is_string (js_prop (JObj kvs) ''stack''))
      \<and> (case map_get kvs ''cause'' of
            None \<Rightarrow> True
          | Some c \<Rightarrow> c = JUndefined \<or> isStoredError c))"
| "isStoredError JUndefined = False"
| "isStoredError JNull = False"
| "isStoredError (JBool b) = False"
| "isStoredError (JNum n) = False"
| "isStoredError (JStr s) = False"
| "isStoredError (JArr xs) = False"
| "isStoredError (JDate t) = False"
  by pat_completeness auto
termination
  by (relation "measure size") (auto dest!: map_of_SomeD size_entry_less)

definition MAX_STORED_ERROR_CAUSE_DEPTH :: int where
  "MAX_STORED_ERROR_CAUSE_DEPTH = 5"

definition stored_error_fallback :: "host \<Rightarrow> jsval \<Rightarrow> jsval" where
  "stored_error_fallback h v =
     (if isStoredError v then v else JObj [(''message'', JStr (js_String h v))])"

definition toStoredError :: "host \<Rightarrow> thrown \<Rightarrow> jsval" where
  "toStoredError h e =
     serializeError h True (Some (stored_error_fallback h)) MAX_STORED_ERROR_CAUSE_DEPTH e"

text \<open>The source writes an em dash in this message; strings here hold 8-bit characters.\<close>

definition COMMAND_LEASE_EXPIRED_ERROR :: jsval where
  "COMMAND_LEASE_EXPIRED_ERROR =
     JObj [(''name'', JStr ''Error''),
           (''message'', JStr ''Workflow command lease expired without release - the worker likely crashed mid-delivery'')]"

section \<open>Facts\<close>

lemma stored_error_fallback_ok: "isStoredError (stored_error_fallback h v)"
  by (simp add: stored_error_fallback_def)

lemma serialize_stored_error:
  "isStoredError (serializeError h True (Some (stored_error_fallback h)) d e)"
proof (induction e arbitrary: d)
  case (Err n m st c)
  then show ?case by (auto split: option.splits)
next
  case (Plain v)
  show ?case by (simp add: stored_error_fallback_ok)
qed

text \<open>How many causes a stored error carries below itself.\<close>

fun cause_depth :: "thrown \<Rightarrow> nat" where
  "cause_depth (Err n m st c) = (if c = Plain JUndefined then 0 else Suc (cause_depth c))"
| "cause_depth (Plain v) = 0"

text \<open>Two lists sorted by a strict order with the same elements are equal.\<close>

lemma sorted_wrt_strict_unique:
  assumes "\<And>x y. P x y \<Longrightarrow> \<not> P y x"
    and "sorted_wrt P xs" and "sorted_wrt P ys" and "mset xs = mset ys"
  shows "xs = ys"
  using assms(2-4)
proof (induction xs arbitrary: ys)
  case Nil
  then show ?case by simp
next
  case (Cons x xs)
  then obtain y ys' where ys: "ys = y # ys'"
    by (cases ys) auto
  have "x = y"
  proof (rule ccontr)
    assume "x \<noteq> y"
    with Cons.prems(3) ys have "x \<in> set ys'" and "y \<in> set xs"
      by (metis insert_noteq_member set_mset_mset mset.simps(2))+
    with Cons.prems(1,2) ys have "P x y" and "P y x" by auto
    with assms(1) show False by blast
  qed
  with Cons ys show ?case by auto
qed

lemma sorted_entries_strict:
  fixes zs :: "('k \<times> 'v) list" and lc :: "'k \<Rightarrow> 'k \<Rightarrow> int"
  assumes "\<And>a b. a \<in> fst ` set zs \<Longrightarrow> b \<in> fst ` set zs \<Longrightarrow> lc a b = 0 \<Longrightarrow> a = b"
    and "sorted_wrt (\<lambda>x y. lc (fst x) (fst y) \<le> 0) zs" and "distinct (map fst zs)"
  shows "sorted_wrt (\<lambda>x y. lc (fst x) (fst y) < 0) zs"
  using assms
proof (induction zs)
  case (Cons w ws)
  have "lc (fst w) (fst z) < 0" if "z \<in> set ws" for z
  proof -
    from that Cons.prems(2,3) have "lc (fst w) (fst z) \<le> 0" and "fst w \<noteq> fst z" by force+
    moreover have "lc (fst w) (fst z) \<noteq> 0" using Cons.prems(1)[of "fst w" "fst z"] that calculation(2) by auto
    ultimately show ?thesis by simp
  qed
  moreover have "sorted_wrt (\<lambda>x y. lc (fst x) (fst y) < 0) ws"
  proof (rule Cons.IH)
    show "a = b" if "a \<in> fst ` set ws" "b \<in> fst ` set ws" "lc a b = 0" for a b
      by (rule Cons.prems(1)[OF _ _ that(3)]) (use that(1,2) in simp_all)
  qed (use Cons.prems(2,3) in simp_all)
  ultimately show ?case by simp
qed simp

text \<open>
  Sorting by a comparison that tells the keys apart that occur is canonical.
\<close>

lemma sort_entries_canonical:
  fixes kvs kvs' :: "('k \<times> 'v) list" and lc :: "'k \<Rightarrow> 'k \<Rightarrow> int"
  assumes lc: "comparator lc" "\<And>a b. a \<in> fst ` set kvs \<Longrightarrow> b \<in> fst ` set kvs \<Longrightarrow> lc a b = 0 \<Longrightarrow> a = b"
    and dist: "distinct (map fst kvs)"
    and same: "mset kvs = mset kvs'"
  shows "sort_by (\<lambda>x y. lc (fst x) (fst y)) kvs = sort_by (\<lambda>x y. lc (fst x) (fst y)) kvs'"
    (is "sort_by ?c kvs = sort_by ?c kvs'")
proof (rule sorted_wrt_strict_unique)
  have cmp: "comparator ?c"
    by (rule comparator_vimage[OF lc(1)])
  have strict: "sorted_wrt (\<lambda>x y. ?c x y < 0) (sort_by ?c zs)"
    if "distinct (map fst zs)" "set zs = set kvs" for zs :: "('k \<times> 'v) list"
  proof (rule sorted_entries_strict[OF lc(2) comparator.sorted_sort_by[OF cmp]])
    have "mset (map fst (sort_by ?c zs)) = mset (map fst zs)"
      by (simp only: mset_map mset_sort_by)
    with that(1) show "distinct (map fst (sort_by ?c zs))"
      using mset_eq_imp_distinct_iff by blast
  qed (use that(2) in simp_all)
  have dist': "distinct (map fst kvs')"
    using dist same by (metis mset_eq_imp_distinct_iff mset_map)
  have set': "set kvs' = set kvs" using mset_eq_setD[OF same] by simp
  show "\<not> ?c y x < 0" if "?c x y < 0" for x y
    using that comparator.flip[OF cmp, of x y] by linarith
  show "sorted_wrt (\<lambda>x y. ?c x y < 0) (sort_by ?c kvs)"
    by (rule strict[OF dist refl])
  show "sorted_wrt (\<lambda>x y. ?c x y < 0) (sort_by ?c kvs')"
    by (rule strict[OF dist' set'])
  show "mset (sort_by ?c kvs) = mset (sort_by ?c kvs')"
    by (simp add: same)
qed

end
