(* ===== verification/Status.thy ===== *)
theory Status
  imports Values
begin

text \<open>
  The state machines of runs, nodes and attempts: \<open>runtime/status.ts\<close> and
  \<open>runtime/transitions.ts\<close>. What the stores rely on is the locale \<open>status_machine\<close>;
  the three machines of the source are its interpretations.
\<close>

section \<open>Statuses\<close>

text \<open>The constructors come in the order in which the transition tables list them.\<close>

datatype RuntimeRunStatus =
  RQueued | RRunning | RWaiting | RCancelling | RCompleted | RFailed | RCancelled

datatype RuntimeNodeStatus =
  NPending | NRunning | NWaiting | NCancelling | NCompleted | NFailed | NCancelled

datatype RuntimeAttemptStatus =
  AStarted | ACompleted | AFailed | ATimedOut | ACancelled

instantiation RuntimeRunStatus :: enum
begin

definition
  "enum_class.enum = [RQueued, RRunning, RWaiting, RCancelling, RCompleted, RFailed, RCancelled]"

definition
  "enum_class.enum_all P \<longleftrightarrow>
     P RQueued \<and> P RRunning \<and> P RWaiting \<and> P RCancelling \<and> P RCompleted \<and> P RFailed \<and> P RCancelled"

definition
  "enum_class.enum_ex P \<longleftrightarrow>
     P RQueued \<or> P RRunning \<or> P RWaiting \<or> P RCancelling \<or> P RCompleted \<or> P RFailed \<or> P RCancelled"

instance
proof
  show univ: "UNIV = set (enum_class.enum :: RuntimeRunStatus list)"
    by (auto simp: enum_RuntimeRunStatus_def intro: RuntimeRunStatus.exhaust)
  show "distinct (enum_class.enum :: RuntimeRunStatus list)"
    by (simp add: enum_RuntimeRunStatus_def)
  show "enum_class.enum_all P \<longleftrightarrow> Ball UNIV P" for P :: "RuntimeRunStatus \<Rightarrow> bool"
    by (simp only: univ) (simp add: enum_all_RuntimeRunStatus_def enum_RuntimeRunStatus_def)
  show "enum_class.enum_ex P \<longleftrightarrow> Bex UNIV P" for P :: "RuntimeRunStatus \<Rightarrow> bool"
    by (simp only: univ) (simp add: enum_ex_RuntimeRunStatus_def enum_RuntimeRunStatus_def)
qed

end

instantiation RuntimeNodeStatus :: enum
begin

definition
  "enum_class.enum = [NPending, NRunning, NWaiting, NCancelling, NCompleted, NFailed, NCancelled]"

definition
  "enum_class.enum_all P \<longleftrightarrow>
     P NPending \<and> P NRunning \<and> P NWaiting \<and> P NCancelling \<and> P NCompleted \<and> P NFailed \<and> P NCancelled"

definition
  "enum_class.enum_ex P \<longleftrightarrow>
     P NPending \<or> P NRunning \<or> P NWaiting \<or> P NCancelling \<or> P NCompleted \<or> P NFailed \<or> P NCancelled"

instance
proof
  show univ: "UNIV = set (enum_class.enum :: RuntimeNodeStatus list)"
    by (auto simp: enum_RuntimeNodeStatus_def intro: RuntimeNodeStatus.exhaust)
  show "distinct (enum_class.enum :: RuntimeNodeStatus list)"
    by (simp add: enum_RuntimeNodeStatus_def)
  show "enum_class.enum_all P \<longleftrightarrow> Ball UNIV P" for P :: "RuntimeNodeStatus \<Rightarrow> bool"
    by (simp only: univ) (simp add: enum_all_RuntimeNodeStatus_def enum_RuntimeNodeStatus_def)
  show "enum_class.enum_ex P \<longleftrightarrow> Bex UNIV P" for P :: "RuntimeNodeStatus \<Rightarrow> bool"
    by (simp only: univ) (simp add: enum_ex_RuntimeNodeStatus_def enum_RuntimeNodeStatus_def)
qed

end

instantiation RuntimeAttemptStatus :: enum
begin

definition
  "enum_class.enum = [AStarted, ACompleted, AFailed, ATimedOut, ACancelled]"

definition
  "enum_class.enum_all P \<longleftrightarrow> P AStarted \<and> P ACompleted \<and> P AFailed \<and> P ATimedOut \<and> P ACancelled"

definition
  "enum_class.enum_ex P \<longleftrightarrow> P AStarted \<or> P ACompleted \<or> P AFailed \<or> P ATimedOut \<or> P ACancelled"

instance
proof
  show univ: "UNIV = set (enum_class.enum :: RuntimeAttemptStatus list)"
    by (auto simp: enum_RuntimeAttemptStatus_def intro: RuntimeAttemptStatus.exhaust)
  show "distinct (enum_class.enum :: RuntimeAttemptStatus list)"
    by (simp add: enum_RuntimeAttemptStatus_def)
  show "enum_class.enum_all P \<longleftrightarrow> Ball UNIV P" for P :: "RuntimeAttemptStatus \<Rightarrow> bool"
    by (simp only: univ) (simp add: enum_all_RuntimeAttemptStatus_def enum_RuntimeAttemptStatus_def)
  show "enum_class.enum_ex P \<longleftrightarrow> Bex UNIV P" for P :: "RuntimeAttemptStatus \<Rightarrow> bool"
    by (simp only: univ) (simp add: enum_ex_RuntimeAttemptStatus_def enum_RuntimeAttemptStatus_def)
qed

end

definition isTerminalRunStatus :: "RuntimeRunStatus \<Rightarrow> bool" where
  "isTerminalRunStatus status \<longleftrightarrow> status = RCompleted \<or> status = RFailed \<or> status = RCancelled"

definition isTerminalNodeStatus :: "RuntimeNodeStatus \<Rightarrow> bool" where
  "isTerminalNodeStatus status \<longleftrightarrow> status = NCompleted \<or> status = NFailed \<or> status = NCancelled"

section \<open>Transition tables\<close>

type_synonym 's TransitionMap = "'s \<Rightarrow> 's list"

fun RUN_TRANSITIONS :: "RuntimeRunStatus TransitionMap" where
  "RUN_TRANSITIONS RQueued = [RRunning, RCancelling, RCancelled, RFailed, RCompleted]"
| "RUN_TRANSITIONS RRunning = [RWaiting, RCancelling, RCancelled, RFailed, RCompleted]"
| "RUN_TRANSITIONS RWaiting = [RRunning, RCancelling, RCancelled, RFailed, RCompleted]"
| "RUN_TRANSITIONS RCancelling = [RCancelled, RFailed, RCompleted]"
| "RUN_TRANSITIONS RCompleted = []"
| "RUN_TRANSITIONS RFailed = []"
| "RUN_TRANSITIONS RCancelled = []"

fun NODE_TRANSITIONS :: "RuntimeNodeStatus TransitionMap" where
  "NODE_TRANSITIONS NPending = [NRunning, NWaiting, NCancelling, NCancelled, NFailed, NCompleted]"
| "NODE_TRANSITIONS NRunning = [NWaiting, NCancelling, NCancelled, NFailed, NCompleted]"
| "NODE_TRANSITIONS NWaiting = [NRunning, NCancelling, NCancelled, NFailed, NCompleted]"
| "NODE_TRANSITIONS NCancelling = [NCancelled, NFailed, NCompleted]"
| "NODE_TRANSITIONS NCompleted = []"
| "NODE_TRANSITIONS NFailed = []"
| "NODE_TRANSITIONS NCancelled = []"

fun ATTEMPT_TRANSITIONS :: "RuntimeAttemptStatus TransitionMap" where
  "ATTEMPT_TRANSITIONS AStarted = [ACompleted, AFailed, ATimedOut, ACancelled]"
| "ATTEMPT_TRANSITIONS ACompleted = []"
| "ATTEMPT_TRANSITIONS AFailed = []"
| "ATTEMPT_TRANSITIONS ATimedOut = []"
| "ATTEMPT_TRANSITIONS ACancelled = []"

definition canTransition :: "'s TransitionMap \<Rightarrow> 's \<Rightarrow> 's \<Rightarrow> bool" where
  "canTransition transitions from to \<longleftrightarrow> to \<in> set (transitions from)"

text \<open>\<open>Object.keys(transitions)\<close> lists the statuses in the order of the table.\<close>

definition transitionSources :: "('s::enum) TransitionMap \<Rightarrow> 's \<Rightarrow> 's list" where
  "transitionSources transitions to = filter (\<lambda>from. to \<in> set (transitions from)) enum_class.enum"

section \<open>The contract of a status machine\<close>

locale status_machine =
  fixes transitions :: "('s::enum) TransitionMap"
    and terminal :: "'s \<Rightarrow> bool"
  assumes terminal_iff: "terminal x \<longleftrightarrow> transitions x = []"
    and irreflexive: "\<not> canTransition transitions x x"
begin

lemma sources_iff: "from \<in> set (transitionSources transitions to) \<longleftrightarrow> canTransition transitions from to"
  by (simp add: transitionSources_def canTransition_def enum_UNIV)

lemma sources_not_terminal: "from \<in> set (transitionSources transitions to) \<Longrightarrow> \<not> terminal from"
  by (auto simp: sources_iff canTransition_def terminal_iff)

lemma terminal_stuck: "terminal x \<Longrightarrow> \<not> canTransition transitions x y"
  by (simp add: canTransition_def terminal_iff)

lemma terminal_final: "(canTransition transitions)\<^sup>*\<^sup>* x y \<Longrightarrow> terminal x \<Longrightarrow> y = x"
  by (induction rule: converse_rtranclp_induct) (auto dest: terminal_stuck)

lemma step_or_stay: "canTransition transitions x y \<or> y = x \<Longrightarrow> terminal x \<Longrightarrow> y = x"
  using terminal_stuck by blast

end

definition isTerminalAttemptStatus :: "RuntimeAttemptStatus \<Rightarrow> bool" where
  "isTerminalAttemptStatus status \<longleftrightarrow> status \<noteq> AStarted"

interpretation run_machine: status_machine RUN_TRANSITIONS isTerminalRunStatus
proof
  show "isTerminalRunStatus x \<longleftrightarrow> RUN_TRANSITIONS x = []" for x
    by (cases x) (simp_all add: isTerminalRunStatus_def)
  show "\<not> canTransition RUN_TRANSITIONS x x" for x
    by (cases x) (simp_all add: canTransition_def)
qed

interpretation node_machine: status_machine NODE_TRANSITIONS isTerminalNodeStatus
proof
  show "isTerminalNodeStatus x \<longleftrightarrow> NODE_TRANSITIONS x = []" for x
    by (cases x) (simp_all add: isTerminalNodeStatus_def)
  show "\<not> canTransition NODE_TRANSITIONS x x" for x
    by (cases x) (simp_all add: canTransition_def)
qed

interpretation attempt_machine: status_machine ATTEMPT_TRANSITIONS isTerminalAttemptStatus
proof
  show "isTerminalAttemptStatus x \<longleftrightarrow> ATTEMPT_TRANSITIONS x = []" for x
    by (cases x) (simp_all add: isTerminalAttemptStatus_def)
  show "\<not> canTransition ATTEMPT_TRANSITIONS x x" for x
    by (cases x) (simp_all add: canTransition_def)
qed

text \<open>
  The stores move a row to a terminal status whenever it is not terminal yet: the tables
  allow that from every live status.
\<close>

lemma run_live_to_terminal:
  "\<not> isTerminalRunStatus x \<Longrightarrow> isTerminalRunStatus y \<Longrightarrow> canTransition RUN_TRANSITIONS x y"
  by (cases x; cases y) (simp_all add: isTerminalRunStatus_def canTransition_def)

lemma node_live_to_terminal:
  "\<not> isTerminalNodeStatus x \<Longrightarrow> isTerminalNodeStatus y \<Longrightarrow> canTransition NODE_TRANSITIONS x y"
  by (cases x; cases y) (simp_all add: isTerminalNodeStatus_def canTransition_def)

lemma run_live_to_cancelling:
  "\<not> isTerminalRunStatus x \<Longrightarrow> x \<noteq> RCancelling \<Longrightarrow> canTransition RUN_TRANSITIONS x RCancelling"
  by (cases x) (simp_all add: isTerminalRunStatus_def canTransition_def)

lemma terminal_run_simps [simp]:
  "isTerminalRunStatus RCompleted" "isTerminalRunStatus RFailed" "isTerminalRunStatus RCancelled"
  "\<not> isTerminalRunStatus RQueued" "\<not> isTerminalRunStatus RRunning"
  "\<not> isTerminalRunStatus RWaiting" "\<not> isTerminalRunStatus RCancelling"
  by (simp_all add: isTerminalRunStatus_def)

lemma terminal_node_simps [simp]:
  "isTerminalNodeStatus NCompleted" "isTerminalNodeStatus NFailed" "isTerminalNodeStatus NCancelled"
  "\<not> isTerminalNodeStatus NPending" "\<not> isTerminalNodeStatus NRunning"
  "\<not> isTerminalNodeStatus NWaiting" "\<not> isTerminalNodeStatus NCancelling"
  by (simp_all add: isTerminalNodeStatus_def)

end
