(* ===== verification/ChildKey.thy ===== *)
theory ChildKey
  imports Values
begin

text \<open>
  The keys of a node's children (\<open>runtime/child-key.ts\<close>) and duration strings
  (\<open>runtime/duration.ts\<close>), with what they rely on of the host's numeric conversions.
\<close>

section \<open>Child keys\<close>

definition SELF_CHILD_KEY :: string where
  "SELF_CHILD_KEY = ''$self''"

datatype ParsedChildKey =
    ParsedSelf
  | ParsedCase string
  | ParsedMember string
  | ParsedItem nat

definition caseChildKey :: "string \<Rightarrow> string" where
  "caseChildKey caseKey = ''case:'' @ caseKey"

definition memberChildKey :: "string \<Rightarrow> string" where
  "memberChildKey memberKey = ''member:'' @ memberKey"

definition itemChildKey :: "nat \<Rightarrow> string" where
  "itemChildKey itemIndex = ''item:'' @ show_nat itemIndex"

definition starts_with :: "string \<Rightarrow> string \<Rightarrow> bool" where
  "starts_with p s \<longleftrightarrow> take (length p) s = p"

text \<open>The documented behaviour the properties rely on: integers below 2 to the 53 are exact.\<close>

definition reads_decimals :: "numerics \<Rightarrow> bool" where
  "reads_decimals nu \<longleftrightarrow> (\<forall>n < 2 ^ 53. stringToNumber nu (show_nat n) = Fin (of_nat n))"

definition exact_integers :: "numerics \<Rightarrow> bool" where
  "exact_integers nu \<longleftrightarrow> (\<forall>z :: int. \<bar>z\<bar> \<le> 2 ^ 53 \<longrightarrow> roundDouble nu (of_int z) = Fin (of_int z))"

definition parseChildKey :: "numerics \<Rightarrow> string \<Rightarrow> ParsedChildKey option" where
  "parseChildKey nu childKey =
     (if childKey = SELF_CHILD_KEY then Some ParsedSelf
      else if starts_with ''case:'' childKey then Some (ParsedCase (drop (length ''case:'') childKey))
      else if starts_with ''member:'' childKey then Some (ParsedMember (drop (length ''member:'') childKey))
      else if starts_with ''item:'' childKey then
        (let itemIndex = stringToNumber nu (drop (length ''item:'') childKey) in
         if \<not> isInteger itemIndex \<or> num_value itemIndex < 0 then None
         else Some (ParsedItem (nat \<lfloor>num_value itemIndex\<rfloor>)))
      else None)"

definition childKeyMemberKey :: "numerics \<Rightarrow> string \<Rightarrow> string option" where
  "childKeyMemberKey nu childKey =
     (case parseChildKey nu childKey of Some (ParsedMember k) \<Rightarrow> Some k | _ \<Rightarrow> None)"

definition childKeyCaseKey :: "numerics \<Rightarrow> string \<Rightarrow> string option" where
  "childKeyCaseKey nu childKey =
     (case parseChildKey nu childKey of Some (ParsedCase k) \<Rightarrow> Some k | _ \<Rightarrow> None)"

lemma rat_integral_of_int [simp]: "rat_integral (of_int z)"
  by (simp add: rat_integral_def quotient_of_int)

lemma rat_integral_of_nat [simp]: "rat_integral (of_nat n)"
  using rat_integral_of_int[of "int n"] by simp

lemma parse_self: "parseChildKey nu SELF_CHILD_KEY = Some ParsedSelf"
  by (simp add: parseChildKey_def)

lemma parse_case: "parseChildKey nu (caseChildKey k) = Some (ParsedCase k)"
  by (simp add: parseChildKey_def caseChildKey_def SELF_CHILD_KEY_def starts_with_def)

lemma parse_member: "parseChildKey nu (memberChildKey k) = Some (ParsedMember k)"
  by (simp add: parseChildKey_def memberChildKey_def SELF_CHILD_KEY_def starts_with_def)

lemma parse_item:
  "reads_decimals nu \<Longrightarrow> n < 2 ^ 53 \<Longrightarrow> parseChildKey nu (itemChildKey n) = Some (ParsedItem n)"
  by (simp add: parseChildKey_def itemChildKey_def SELF_CHILD_KEY_def starts_with_def reads_decimals_def)

section \<open>Durations\<close>

text \<open>
  The pattern \<open>^(\d+(?:\.\d+)?)(ms|s|m|h|d)$\<close>, split at the end of the digits: the exact
  decimal value, the rest is the unit.
\<close>

definition duration_number :: "string \<Rightarrow> (rat \<times> string) option" where
  "duration_number s =
     (let whole = takeWhile is_digit s; rest = dropWhile is_digit s in
      if whole = [] then None
      else case rest of
        [] \<Rightarrow> Some (of_nat (read_nat whole), rest)
      | c # cs \<Rightarrow>
          (let frac = takeWhile is_digit cs in
           if c = CHR ''.'' \<and> frac \<noteq> []
           then Some (of_nat (read_nat whole) + of_nat (read_nat frac) / 10 ^ length frac,
                      dropWhile is_digit cs)
           else Some (of_nat (read_nat whole), rest)))"

fun times_double :: "numerics \<Rightarrow> jsnum \<Rightarrow> rat \<Rightarrow> jsnum" where
  "times_double nu (Fin r) k = roundDouble nu (r * k)"
| "times_double nu n k = n"

definition parseDurationMs :: "numerics \<Rightarrow> string option \<Rightarrow> jsnum option" where
  "parseDurationMs nu duration =
     (case duration of
        None \<Rightarrow> None
      | Some s \<Rightarrow>
          if s = [] then None
          else case duration_number s of
            None \<Rightarrow> None
          | Some (exact, unit) \<Rightarrow>
              (if unit \<notin> {''ms'', ''s'', ''m'', ''h'', ''d''} then None
               else let v = roundDouble nu exact in
                 if \<not> isFinite v then None
                 else if unit = ''ms'' then Some v
                 else if unit = ''s'' then Some (times_double nu v 1000)
                 else if unit = ''m'' then Some (times_double nu v 60000)
                 else if unit = ''h'' then Some (times_double nu v 3600000)
                 else Some (times_double nu v 86400000)))"

definition duration_unit_ms :: "string \<Rightarrow> nat" where
  "duration_unit_ms u =
     (if u = ''ms'' then 1 else if u = ''s'' then 1000 else if u = ''m'' then 60000
      else if u = ''h'' then 3600000 else 86400000)"

lemma digits_prefix:
  assumes "\<forall>x \<in> set ds. is_digit x" and "\<not> is_digit c"
  shows "takeWhile is_digit (ds @ c # cs) = ds" and "dropWhile is_digit (ds @ c # cs) = c # cs"
  using assms by (induction ds) auto

lemmas show_nat_prefix = digits_prefix[OF show_nat_digits]

lemma duration_number_show:
  assumes "u \<in> {''ms'', ''s'', ''m'', ''h'', ''d''}"
  shows "duration_number (show_nat n @ u) = Some (of_nat n, u)"
proof -
  have "u \<noteq> [] \<and> \<not> is_digit (hd u) \<and> hd u \<noteq> CHR ''.''"
    using assms by (elim insertE emptyE) (simp_all add: is_digit_def)
  then obtain c cs where u: "u = c # cs" and c: "\<not> is_digit c" "c \<noteq> CHR ''.''"
    by (cases u) simp_all
  show ?thesis
    using c(2) by (simp add: duration_number_def Let_def u show_nat_prefix[OF c(1)])
qed

end
