(* ===== verification/State.thy ===== *)
theory State
  imports Status ChildKey
begin

text \<open>
  The rows the runtime keeps (\<open>runtime/state.ts\<close>), the inputs of its operations
  (\<open>runtime/store.ts\<close>, \<open>types/index.ts\<close>), the commands of its queues
  (\<open>runtime/commands.ts\<close>, \<open>runtime/executors.ts\<close>) and the mutable state that
  \<open>createInMemoryWorkflowRuntime\<close> of \<open>runtime/in-memory.ts\<close> closes over, with its
  clock, its identifier counter and its wake hub.
\<close>

section \<open>Rows\<close>

datatype RunKind = WorkflowRun | TaskRun

datatype RunUniqueScope = ActiveScope | AllScope

datatype RunUniqueBehavior = RejectRun | JoinRun

record ResolvedRunUnique =
  uq_key :: "jsval list"
  uq_scope :: RunUniqueScope
  uq_behavior :: RunUniqueBehavior

datatype WorkflowNodeKind =
  ActivityNode | TaskNode | WorkflowNode | BranchNode | ParallelNode | MapTaskNode | MapWorkflowNode

datatype NodeChildKind = ActivityChild | TaskChild | WorkflowChild

record StoredRun =
  run_id :: string
  run_kind :: RunKind
  run_name :: string
  run_workflowName :: string
  run_taskName :: "string option"
  run_status :: RuntimeRunStatus
  run_input :: jsval
  run_output :: "jsval option"
  run_error :: "jsval option"
  run_parentRunId :: "string option"
  run_parentNodeName :: "string option"
  run_rootRunId :: string
  run_tags :: "(string \<times> string) list"
  run_idempotencyKey :: "jsval list option"
  run_unique :: "ResolvedRunUnique option"
  run_version :: nat
  run_createdAt :: int
  run_updatedAt :: int

record StoredNode =
  node_runId :: string
  node_name :: string
  node_kind :: WorkflowNodeKind
  node_status :: RuntimeNodeStatus
  node_input :: "jsval option"
  node_output :: "jsval option"
  node_error :: "jsval option"
  node_selectedCase :: "string option"
  node_version :: nat
  node_createdAt :: int
  node_updatedAt :: int

record StoredNodeChild =
  child_runId :: string
  child_nodeName :: string
  child_childKey :: string
  child_kind :: NodeChildKind
  child_status :: RuntimeNodeStatus
  child_ordinal :: nat
  child_itemKey :: "string option"
  child_item :: "jsval option"
  child_input :: "jsval option"
  child_output :: "jsval option"
  child_error :: "jsval option"
  child_childRunId :: "string option"
  child_currentAttemptId :: "string option"
  child_attemptCount :: nat
  child_version :: nat
  child_createdAt :: int
  child_updatedAt :: int

record StoredAttempt =
  attempt_id :: string
  attempt_runId :: string
  attempt_nodeName :: string
  attempt_childKey :: string
  attempt_status :: RuntimeAttemptStatus
  attempt_workerId :: "string option"
  attempt_leaseToken :: "string option"
  attempt_attemptNumber :: nat
  attempt_input :: jsval
  attempt_idempotencyKey :: "jsval list option"
  attempt_output :: "jsval option"
  attempt_error :: "jsval option"
  attempt_dispatchedAt :: int
  attempt_heartbeatAt :: "int option"
  attempt_completedAt :: "int option"

record RunSnapshot =
  snap_run :: StoredRun
  snap_nodes :: "StoredNode list"
  snap_children :: "StoredNodeChild list"
  snap_attempts :: "StoredAttempt list"

section \<open>Inputs of the store operations\<close>

text \<open>The lease with the expiry that \<open>InMemoryRunLease\<close> adds to \<open>RunLease\<close>.\<close>

record RunLease =
  lease_runId :: string
  lease_leaseToken :: string
  lease_version :: nat
  lease_expiresAt :: int

record CreateRunInput =
  cr_kind :: "RunKind option"
  cr_name :: "string option"
  cr_workflowName :: string
  cr_taskName :: "string option"
  cr_input :: jsval
  cr_parentRunId :: "string option"
  cr_parentNodeName :: "string option"
  cr_rootRunId :: "string option"
  cr_tags :: "(string \<times> string) list option"
  cr_idempotencyKey :: "jsval list option"
  cr_unique :: "ResolvedRunUnique option"

record EnsureNodeChildInput =
  ec_childKey :: string
  ec_kind :: NodeChildKind
  ec_ordinal :: "nat option"
  ec_itemKey :: "string option"
  ec_item :: "jsval option"

record EnsureChildRunParams =
  ecr_runId :: string
  ecr_nodeName :: string
  ecr_childKey :: string
  ecr_childKind :: RunKind
  ecr_childName :: string
  ecr_input :: jsval
  ecr_rootRunId :: string
  ecr_tags :: "(string \<times> string) list option"
  ecr_idempotencyKey :: "jsval list option"

text \<open>The parameters shared by \<open>EnsureChildAttemptParams\<close> and \<open>CreateAttemptInput\<close>.\<close>

record CreateAttemptInput =
  ca_runId :: string
  ca_nodeName :: string
  ca_childKey :: string
  ca_input :: jsval
  ca_idempotencyKey :: "jsval list option"

text \<open>
  \<open>parentRunId\<close> of a filter is absent, \<open>null\<close> (root runs only) or an identifier: \<open>None\<close>,
  \<open>Some None\<close> or \<open>Some (Some p)\<close>. A single status is a list of one.
\<close>

record ListRunsFilter =
  fl_kind :: "RunKind option"
  fl_name :: "string option"
  fl_status :: "RuntimeRunStatus list option"
  fl_createdBefore :: "int option"
  fl_parentRunId :: "string option option"
  fl_rootRunId :: "string option"
  fl_tags :: "(string \<times> string) list option"
  fl_input :: "jsval option"
  fl_limit :: "jsnum option"
  fl_cursor :: "string option"

section \<open>Commands and queues\<close>

record ContinueRunCommand =
  cont_runId :: string
  cont_workflowName :: string

datatype AttemptCommand =
    ActivityAttempt
      (cmd_workflowName: string) (cmd_activityName: string) (cmd_runId: string)
      (cmd_nodeName: string) (cmd_childKey: string) (cmd_attemptId: string)
      (cmd_leaseToken: "string option") (cmd_input: jsval) (cmd_idempotencyKey: "jsval list option")
  | TaskAttempt
      (cmd_workflowName: string) (cmd_taskName: string) (cmd_runId: string)
      (cmd_nodeName: string) (cmd_childKey: string) (cmd_attemptId: string)
      (cmd_leaseToken: "string option") (cmd_input: jsval) (cmd_idempotencyKey: "jsval list option")
      (cmd_timeout: "string option")

record 'c QueueItem =
  qi_id :: string
  qi_payload :: 'c
  qi_runAt :: "int option"
  qi_deliveryCount :: nat
  qi_lastError :: "jsval option"
  qi_deadAt :: "int option"
  qi_reapedAt :: "int option"
  qi_createdAt :: int

record 'c ClaimedQueueItem =
  ci_item :: "'c QueueItem"
  ci_leaseToken :: string
  ci_leaseExpiresAt :: int

text \<open>\<open>ClaimedCommand\<close> and \<open>ClaimedAttempt\<close>: what a claim hands to the worker.\<close>

record 'c Claim =
  claim_id :: string
  claim_command :: 'c
  claim_leaseToken :: string

record RunCoordinationWorkerClaim =
  rcw_workerId :: string
  rcw_workflowNames :: "string list"
  rcw_leaseMs :: int

record ExecutionWorkerClaim =
  ew_workerId :: string
  ew_workflowNames :: "string list"
  ew_activityNames :: "string list option"
  ew_taskNames :: "string list"
  ew_leaseMs :: int

text \<open>A release is plain, counts an error, or says that nothing can execute the command.\<close>

record CommandReleaseOptions =
  ro_error :: "thrown option"
  ro_unroutable :: bool

datatype WorkflowCommandWakeKind = WakeContinue | WakeActivity | WakeTask

text \<open>The next run date is \<open>None\<close> when it is an invalid \<open>Date\<close>.\<close>

record StoredWorkflowSchedule =
  sched_id :: string
  sched_name :: string
  sched_runnableKind :: RunKind
  sched_runnableName :: string
  sched_input :: jsval
  sched_tags :: "(string \<times> string) list"
  sched_cron :: "string option"
  sched_everyMs :: "jsnum option"
  sched_enabled :: bool
  sched_nextRunAt :: "int option"
  sched_lastSlotAt :: "int option"
  sched_createdAt :: int
  sched_updatedAt :: int

section \<open>The state of the runtime\<close>

text \<open>
  The variables \<open>createInMemoryWorkflowRuntime\<close> closes over, in the order of the source.
  \<open>ticks\<close> counts the readings of the clock; a wake listener is a number, and \<open>fired\<close> is the
  log of the listeners called, the observable effect of a wake. Map keys made by
  \<open>valueKey\<close> are \<open>string option\<close> because \<open>JSON.stringify\<close> can return \<open>undefined\<close>.
\<close>

record runtime =
  rt_host :: host
  ticks :: nat
  nextId :: nat
  lastTimestamp :: int
  maxDeliveries :: int
  runs :: "(string \<times> StoredRun) list"
  nodes :: "(string \<times> StoredNode) list"
  attempts :: "(string \<times> StoredAttempt) list"
  children :: "(string \<times> StoredNodeChild) list"
  runIdempotencyKeys :: "(string option \<times> string) list"
  activeUniqueRunKeys :: "(string option \<times> string) list"
  allUniqueRunKeys :: "(string option \<times> string) list"
  runLeases :: "(string \<times> RunLease) list"
  continueRunCommands :: "ContinueRunCommand QueueItem list"
  attemptCommands :: "AttemptCommand QueueItem list"
  claimedContinueRunCommands :: "(string \<times> ContinueRunCommand ClaimedQueueItem) list"
  claimedAttemptCommands :: "(string \<times> AttemptCommand ClaimedQueueItem) list"
  schedules :: "(string \<times> StoredWorkflowSchedule) list"
  commandWakeListeners :: "(WorkflowCommandWakeKind \<times> nat list) list"
  cancellationWakeListeners :: "(string \<times> nat list) list"
  runEventWakeListeners :: "(string \<times> nat list) list"
  fired :: "nat list"

definition DEFAULT_MAX_DELIVERIES :: int where
  "DEFAULT_MAX_DELIVERIES = 20"

definition createInMemoryWorkflowRuntime :: "host \<Rightarrow> int option \<Rightarrow> runtime" where
  "createInMemoryWorkflowRuntime h opt_maxDeliveries =
     \<lparr>rt_host = h, ticks = 0, nextId = 1, lastTimestamp = 0,
      maxDeliveries = (case opt_maxDeliveries of None \<Rightarrow> DEFAULT_MAX_DELIVERIES | Some n \<Rightarrow> n),
      runs = [], nodes = [], attempts = [], children = [],
      runIdempotencyKeys = [], activeUniqueRunKeys = [], allUniqueRunKeys = [], runLeases = [],
      continueRunCommands = [], attemptCommands = [],
      claimedContinueRunCommands = [], claimedAttemptCommands = [], schedules = [],
      commandWakeListeners = [], cancellationWakeListeners = [], runEventWakeListeners = [],
      fired = []\<rparr>"

section \<open>Clock, identifiers, keys\<close>

definition Date_now :: "runtime \<Rightarrow> int \<times> runtime" where
  "Date_now s = (clock (rt_host s) (ticks s), s\<lparr>ticks := Suc (ticks s)\<rparr>)"

definition now :: "runtime \<Rightarrow> int \<times> runtime" where
  "now s =
     (let (current, s1) = Date_now s; t = max current (lastTimestamp s1 + 1)
      in (t, s1\<lparr>lastTimestamp := t\<rparr>))"

definition fresh_id :: "string \<Rightarrow> runtime \<Rightarrow> string \<times> runtime" where
  "fresh_id prefix s = (mk_id prefix (nextId s), s\<lparr>nextId := Suc (nextId s)\<rparr>)"

definition nodeKey :: "string \<Rightarrow> string \<Rightarrow> string" where
  "nodeKey runId nodeName = runId @ '':'' @ nodeName"

definition childKey :: "string \<Rightarrow> string \<Rightarrow> string \<Rightarrow> string" where
  "childKey runId nodeName key = runId @ '':'' @ nodeName @ '':'' @ key"

definition childRef :: "string \<Rightarrow> string \<Rightarrow> string \<Rightarrow> string" where
  "childRef runId nodeName key = runId @ ''.'' @ nodeName @ ''.'' @ key"

section \<open>The wake hub\<close>

text \<open>A \<open>Set\<close> of listeners: adding one it has changes nothing.\<close>

definition set_add :: "'a \<Rightarrow> 'a list \<Rightarrow> 'a list" where
  "set_add x xs = (if x \<in> set xs then xs else xs @ [x])"

definition subscribeWake :: "('k \<times> nat list) list \<Rightarrow> 'k \<Rightarrow> nat \<Rightarrow> ('k \<times> nat list) list" where
  "subscribeWake listeners key listener =
     map_set key (set_add listener (case map_get listeners key of None \<Rightarrow> [] | Some ls \<Rightarrow> ls)) listeners"

text \<open>
  The function that \<open>subscribeWake\<close> returns. It removes the listener from the set it was
  added to, which is the set stored under the key while the hub has not been disposed.
\<close>

definition unsubscribeWake :: "('k \<times> nat list) list \<Rightarrow> 'k \<Rightarrow> nat \<Rightarrow> ('k \<times> nat list) list" where
  "unsubscribeWake listeners key listener =
     (case map_get listeners key of
        None \<Rightarrow> listeners
      | Some ls \<Rightarrow>
          (let ls' = removeAll listener ls in
           if ls' = [] then map_delete key listeners else map_set key ls' listeners))"

definition fireWake :: "nat list option \<Rightarrow> runtime \<Rightarrow> runtime" where
  "fireWake listeners s =
     (case listeners of None \<Rightarrow> s | Some ls \<Rightarrow> s\<lparr>fired := fired s @ ls\<rparr>)"

definition fireRunEventWake :: "string \<Rightarrow> runtime \<Rightarrow> runtime" where
  "fireRunEventWake rootRunId s = fireWake (map_get (runEventWakeListeners s) rootRunId) s"

definition runRootId :: "runtime \<Rightarrow> string \<Rightarrow> string" where
  "runRootId s runId = (case map_get (runs s) runId of None \<Rightarrow> runId | Some r \<Rightarrow> run_rootRunId r)"

definition emitRunStatusEvent :: "StoredRun \<Rightarrow> runtime \<Rightarrow> runtime" where
  "emitRunStatusEvent run s = fireRunEventWake (run_rootRunId run) s"

definition emitNodeStatusEvent :: "StoredNode \<Rightarrow> StoredNode \<Rightarrow> runtime \<Rightarrow> runtime" where
  "emitNodeStatusEvent before after s =
     (if node_status before = node_status after then s
      else fireRunEventWake (runRootId s (node_runId after)) s)"

definition emitChildStatusEvent :: "StoredNodeChild \<Rightarrow> StoredNodeChild \<Rightarrow> runtime \<Rightarrow> runtime" where
  "emitChildStatusEvent before after s =
     (if child_status before = child_status after then s
      else fireRunEventWake (runRootId s (child_runId after)) s)"

definition emitAttemptStatusEvent :: "StoredAttempt option \<Rightarrow> StoredAttempt \<Rightarrow> runtime \<Rightarrow> runtime" where
  "emitAttemptStatusEvent before after s =
     (if map_option attempt_status before = Some (attempt_status after) then s
      else fireRunEventWake (runRootId s (attempt_runId after)) s)"

definition onCommand :: "WorkflowCommandWakeKind \<Rightarrow> nat \<Rightarrow> runtime \<Rightarrow> runtime" where
  "onCommand kind listener s =
     s\<lparr>commandWakeListeners := subscribeWake (commandWakeListeners s) kind listener\<rparr>"

definition onCancellation :: "string \<Rightarrow> nat \<Rightarrow> runtime \<Rightarrow> runtime" where
  "onCancellation runId listener s =
     s\<lparr>cancellationWakeListeners := subscribeWake (cancellationWakeListeners s) runId listener\<rparr>"

definition onRunEvent :: "string \<Rightarrow> nat \<Rightarrow> runtime \<Rightarrow> runtime" where
  "onRunEvent rootRunId listener s =
     s\<lparr>runEventWakeListeners := subscribeWake (runEventWakeListeners s) rootRunId listener\<rparr>"

definition dispose_wakeEvents :: "runtime \<Rightarrow> runtime" where
  "dispose_wakeEvents s =
     s\<lparr>commandWakeListeners := [], cancellationWakeListeners := [], runEventWakeListeners := []\<rparr>"

section \<open>Results\<close>

text \<open>
  What an operation can throw: an \<open>Error\<close> (or another value), the conflict of a \<open>unique\<close>
  constraint, the stale lease of a fenced store, an error of a user callback, or what ends the
  execution of an attempt from outside (the run, node and attempt, the limit in milliseconds). A
  throw does not undo the writes before it, so the state is returned on both branches.
\<close>

datatype wf_error =
    Thrown thrown
  | WorkflowRunConflictError string RuntimeRunStatus "jsval list" RunUniqueScope
  | StaleRunLeaseError
  | WorkflowUserCallbackError thrown
  | WorkflowAttemptTimeoutError string string string jsnum
  | WorkflowAttemptCancellationObservedError string string string
  | WorkflowAttemptShutdownError string string string

type_synonym 'a res = "wf_error + 'a"
type_synonym 'a op = "runtime \<Rightarrow> 'a res \<times> runtime"

abbreviation throw :: "string \<Rightarrow> runtime \<Rightarrow> 'a res \<times> runtime" where
  "throw message s \<equiv> (Inl (Thrown (new_Error message)), s)"

abbreviation ret :: "'a \<Rightarrow> 'a op" where
  "ret x \<equiv> \<lambda>s. (Inr x, s)"

section \<open>Shared facts\<close>

lemma now_eq:
  "now s = (max (clock (rt_host s) (ticks s)) (lastTimestamp s + 1),
            s\<lparr>ticks := Suc (ticks s),
              lastTimestamp := max (clock (rt_host s) (ticks s)) (lastTimestamp s + 1)\<rparr>)"
  by (simp add: now_def Date_now_def Let_def)

lemma set_set_add [simp]: "set (set_add x xs) = insert x (set xs)"
  by (auto simp: set_add_def)

lemma distinct_set_add [simp]: "distinct xs \<Longrightarrow> distinct (set_add x xs)"
  by (simp add: set_add_def)

text \<open>
  Every wake only extends the log of fired listeners; unfolding a wake rewrites it into
  that one update, so the proofs about rows never see it again.
\<close>

lemma fireWake_eq:
  "fireWake ls s = s\<lparr>fired := fired s @ (case ls of None \<Rightarrow> [] | Some l \<Rightarrow> l)\<rparr>"
  by (simp add: fireWake_def split: option.splits)

lemma if_fired: "(if b then s else s\<lparr>fired := fired s @ l\<rparr>) = s\<lparr>fired := fired s @ (if b then [] else l)\<rparr>"
  by simp

lemmas wake_defs =
  fireWake_eq fireRunEventWake_def emitRunStatusEvent_def emitNodeStatusEvent_def
  emitChildStatusEvent_def emitAttemptStatusEvent_def if_fired

end
