(* ===== verification/Runs.thy ===== *)
theory Runs
  imports State
begin

text \<open>
  Runs of the in-memory store (\<open>runtime/in-memory.ts\<close>): creation with idempotency keys
  and unique constraints, the status operations, run leases, listing and paging.
\<close>

section \<open>Creating runs\<close>

text \<open>A string that JavaScript takes as a true condition: present and not empty.\<close>

definition truthy :: "string option \<Rightarrow> string option" where
  "truthy x = (case x of Some v \<Rightarrow> if v = [] then None else Some v | None \<Rightarrow> None)"

definition runIdempotencyKey :: "host \<Rightarrow> jsval list \<Rightarrow> string option" where
  "runIdempotencyKey h key = valueKey h (JArr key)"

definition runnableName :: "CreateRunInput \<Rightarrow> string" where
  "runnableName input =
     (case cr_name input of Some n \<Rightarrow> n
      | None \<Rightarrow> (case cr_taskName input of Some n \<Rightarrow> n | None \<Rightarrow> cr_workflowName input))"

definition run_kind_of :: "CreateRunInput \<Rightarrow> RunKind" where
  "run_kind_of input = (case cr_kind input of None \<Rightarrow> WorkflowRun | Some k \<Rightarrow> k)"

definition runMatchesCreateInput :: "host \<Rightarrow> StoredRun \<Rightarrow> CreateRunInput \<Rightarrow> bool" where
  "runMatchesCreateInput h run input \<longleftrightarrow>
     run_kind run = run_kind_of input \<and>
     run_name run = runnableName input \<and>
     run_workflowName run = cr_workflowName input \<and>
     run_taskName run = cr_taskName input \<and>
     run_parentRunId run = cr_parentRunId input \<and>
     run_parentNodeName run = cr_parentNodeName input \<and>
     run_rootRunId run = (case cr_rootRunId input of None \<Rightarrow> run_id run | Some r \<Rightarrow> r) \<and>
     sameValue h (run_input run) (cr_input input)"

definition uniqueKeys :: "RunUniqueScope \<Rightarrow> runtime \<Rightarrow> (string option \<times> string) list" where
  "uniqueKeys scope s =
     (case scope of AllScope \<Rightarrow> allUniqueRunKeys s | ActiveScope \<Rightarrow> activeUniqueRunKeys s)"

definition uniqueKey :: "host \<Rightarrow> ResolvedRunUnique \<Rightarrow> string option" where
  "uniqueKey h u = valueKey h (JArr (uq_key u))"

text \<open>The stored run that holds the unique key of the input, if there is one.\<close>

definition conflictingRun :: "ResolvedRunUnique \<Rightarrow> runtime \<Rightarrow> StoredRun option" where
  "conflictingRun u s =
     (case map_get (uniqueKeys (uq_scope u) s) (uniqueKey (rt_host s) u) of
        None \<Rightarrow> None
      | Some conflictingRunId \<Rightarrow> map_get (runs s) conflictingRunId)"

definition newRun :: "CreateRunInput \<Rightarrow> string \<Rightarrow> int \<Rightarrow> StoredRun" where
  "newRun input runId date =
     \<lparr>run_id = runId, run_kind = run_kind_of input, run_name = runnableName input,
      run_workflowName = cr_workflowName input, run_taskName = cr_taskName input,
      run_status = RQueued, run_input = cr_input input, run_output = None, run_error = None,
      run_parentRunId = cr_parentRunId input, run_parentNodeName = cr_parentNodeName input,
      run_rootRunId = (case cr_rootRunId input of None \<Rightarrow> runId | Some r \<Rightarrow> r),
      run_tags = (case cr_tags input of None \<Rightarrow> [] | Some t \<Rightarrow> t),
      run_idempotencyKey = cr_idempotencyKey input, run_unique = cr_unique input,
      run_version = 1, run_createdAt = date, run_updatedAt = date\<rparr>"

text \<open>The writes that enter a new run under its keys.\<close>

definition registerRun :: "CreateRunInput \<Rightarrow> StoredRun \<Rightarrow> runtime \<Rightarrow> runtime" where
  "registerRun input run s =
     (let s1 = s\<lparr>runs := map_set (run_id run) run (runs s)\<rparr>;
          s2 = (case cr_idempotencyKey input of
                  None \<Rightarrow> s1
                | Some k \<Rightarrow> s1\<lparr>runIdempotencyKeys :=
                    map_set (runIdempotencyKey (rt_host s) k) (run_id run) (runIdempotencyKeys s1)\<rparr>)
      in case cr_unique input of
           None \<Rightarrow> s2
         | Some u \<Rightarrow>
             (case uq_scope u of
                AllScope \<Rightarrow> s2\<lparr>allUniqueRunKeys :=
                  map_set (uniqueKey (rt_host s) u) (run_id run) (allUniqueRunKeys s2)\<rparr>
              | ActiveScope \<Rightarrow> s2\<lparr>activeUniqueRunKeys :=
                  map_set (uniqueKey (rt_host s) u) (run_id run) (activeUniqueRunKeys s2)\<rparr>))"

definition createRunWithState :: "CreateRunInput \<Rightarrow> (StoredRun \<times> bool) op" where
  "createRunWithState input s =
     (case (case cr_idempotencyKey input of
              None \<Rightarrow> None
            | Some k \<Rightarrow> truthy (map_get (runIdempotencyKeys s) (runIdempotencyKey (rt_host s) k))) of
        Some existingRunId \<Rightarrow>
          (case map_get (runs s) existingRunId of
             Some existing \<Rightarrow>
               if runMatchesCreateInput (rt_host s) existing input
               then (Inr (existing, False), s)
               else throw (''Conflicting idempotent run ['' @ cr_workflowName input @ '']'') s
           | None \<Rightarrow> throw (''Conflicting idempotent run ['' @ cr_workflowName input @ '']'') s)
      | None \<Rightarrow>
          (case (case cr_unique input of None \<Rightarrow> None
                 | Some u \<Rightarrow> map_option (\<lambda>c. (u, c)) (conflictingRun u s)) of
             Some (u, conflicting) \<Rightarrow>
               (case uq_behavior u of
                  JoinRun \<Rightarrow> (Inr (conflicting, False), s)
                | RejectRun \<Rightarrow>
                    (Inl (WorkflowRunConflictError (run_id conflicting) (run_status conflicting)
                            (uq_key u) (uq_scope u)), s))
           | None \<Rightarrow>
               (let (date, s1) = now s;
                    (runId, s2) = fresh_id ''run'' s1;
                    run = newRun input runId date
                in (Inr (run, True), emitRunStatusEvent run (registerRun input run s2)))))"

definition createRun :: "CreateRunInput \<Rightarrow> StoredRun op" where
  "createRun input s =
     (case createRunWithState input s of
        (Inl e, s') \<Rightarrow> (Inl e, s')
      | (Inr (run, created), s') \<Rightarrow> (Inr run, s'))"

section \<open>Status operations\<close>

definition releaseActiveUniqueKey :: "StoredRun \<Rightarrow> runtime \<Rightarrow> runtime" where
  "releaseActiveUniqueKey run s =
     (case run_unique run of
        None \<Rightarrow> s
      | Some u \<Rightarrow>
          if uq_scope u \<noteq> ActiveScope then s
          else (let key = uniqueKey (rt_host s) u in
                if map_get (activeUniqueRunKeys s) key = Some (run_id run)
                then s\<lparr>activeUniqueRunKeys := map_delete key (activeUniqueRunKeys s)\<rparr>
                else s))"

definition markRunRunning :: "string \<Rightarrow> runtime \<Rightarrow> StoredRun option \<times> runtime" where
  "markRunRunning runId s =
     (case map_get (runs s) runId of
        None \<Rightarrow> (None, s)
      | Some run \<Rightarrow>
          if \<not> canTransition RUN_TRANSITIONS (run_status run) RRunning then (Some run, s)
          else (let (t, s1) = now s;
                    updated = run\<lparr>run_status := RRunning, run_version := run_version run + 1,
                                  run_updatedAt := t\<rparr>
                in (Some updated,
                    emitRunStatusEvent updated (s1\<lparr>runs := map_set runId updated (runs s1)\<rparr>))))"

definition markRunWaiting :: "string \<Rightarrow> runtime \<Rightarrow> StoredRun option \<times> runtime" where
  "markRunWaiting runId s =
     (case map_get (runs s) runId of
        None \<Rightarrow> (None, s)
      | Some run \<Rightarrow>
          if \<not> canTransition RUN_TRANSITIONS (run_status run) RWaiting then (Some run, s)
          else (let (t, s1) = now s;
                    updated = run\<lparr>run_status := RWaiting, run_version := run_version run + 1,
                                  run_updatedAt := t\<rparr>
                in (Some updated,
                    emitRunStatusEvent updated (s1\<lparr>runs := map_set runId updated (runs s1)\<rparr>))))"

definition completeRun :: "string \<Rightarrow> jsval \<Rightarrow> runtime \<Rightarrow> StoredRun option \<times> runtime" where
  "completeRun runId output s =
     (case map_get (runs s) runId of
        None \<Rightarrow> (None, s)
      | Some run \<Rightarrow>
          if isTerminalRunStatus (run_status run) then (Some run, s)
          else (let (t, s1) = now s;
                    updated = run\<lparr>run_status := RCompleted, run_output := Some output,
                                  run_version := run_version run + 1, run_updatedAt := t\<rparr>
                in (Some updated,
                    emitRunStatusEvent updated (releaseActiveUniqueKey updated
                      (s1\<lparr>runs := map_set runId updated (runs s1)\<rparr>)))))"

definition failRun :: "string \<Rightarrow> thrown \<Rightarrow> runtime \<Rightarrow> StoredRun option \<times> runtime" where
  "failRun runId error s =
     (case map_get (runs s) runId of
        None \<Rightarrow> (None, s)
      | Some run \<Rightarrow>
          if isTerminalRunStatus (run_status run) then (Some run, s)
          else (let (t, s1) = now s;
                    updated = run\<lparr>run_status := RFailed,
                                  run_error := Some (toStoredError (rt_host s) error),
                                  run_version := run_version run + 1, run_updatedAt := t\<rparr>
                in (Some updated,
                    emitRunStatusEvent updated (releaseActiveUniqueKey updated
                      (s1\<lparr>runs := map_set runId updated (runs s1)\<rparr>)))))"

definition requestRunCancellation :: "string \<Rightarrow> runtime \<Rightarrow> StoredRun option \<times> runtime" where
  "requestRunCancellation runId s =
     (case map_get (runs s) runId of
        None \<Rightarrow> (None, s)
      | Some run \<Rightarrow>
          if isTerminalRunStatus (run_status run) \<or> run_status run = RCancelling then (Some run, s)
          else (let (t, s1) = now s;
                    updated = run\<lparr>run_status := RCancelling, run_version := run_version run + 1,
                                  run_updatedAt := t\<rparr>;
                    s2 = emitRunStatusEvent updated (s1\<lparr>runs := map_set runId updated (runs s1)\<rparr>)
                in (Some updated, fireWake (map_get (cancellationWakeListeners s2) runId) s2)))"

definition cancelRun :: "string \<Rightarrow> runtime \<Rightarrow> StoredRun option \<times> runtime" where
  "cancelRun runId s =
     (case map_get (runs s) runId of
        None \<Rightarrow> (None, s)
      | Some run \<Rightarrow>
          if isTerminalRunStatus (run_status run) then (Some run, s)
          else (let (t, s1) = now s;
                    updated = run\<lparr>run_status := RCancelled, run_version := run_version run + 1,
                                  run_updatedAt := t\<rparr>
                in (Some updated,
                    emitRunStatusEvent updated (releaseActiveUniqueKey updated
                      (s1\<lparr>runs := map_set runId updated (runs s1)\<rparr>)))))"

section \<open>Run leases\<close>

definition acquireRunLease :: "string \<Rightarrow> int \<Rightarrow> runtime \<Rightarrow> RunLease option \<times> runtime" where
  "acquireRunLease runId leaseMs s =
     (let (date, s1) = now s in
      if (case map_get (runLeases s1) runId of
            Some existingLease \<Rightarrow> lease_expiresAt existingLease > date | None \<Rightarrow> False)
      then (None, s1)
      else case map_get (runs s1) runId of
        None \<Rightarrow> (None, s1)
      | Some run \<Rightarrow>
          (let (token, s2) = fresh_id ''run-lease'' s1;
               lease = \<lparr>lease_runId = runId, lease_leaseToken = token,
                        lease_version = run_version run, lease_expiresAt = date + leaseMs\<rparr>
           in (Some lease, s2\<lparr>runLeases := map_set runId lease (runLeases s2)\<rparr>)))"

definition renewRunLease :: "RunLease \<Rightarrow> int \<Rightarrow> runtime \<Rightarrow> RunLease option \<times> runtime" where
  "renewRunLease lease leaseMs s =
     (case map_get (runLeases s) (lease_runId lease) of
        None \<Rightarrow> (None, s)
      | Some existingLease \<Rightarrow>
          if lease_leaseToken existingLease \<noteq> lease_leaseToken lease then (None, s)
          else (let (t, s1) = now s;
                    renewedLease = existingLease\<lparr>lease_expiresAt := t + leaseMs\<rparr>
                in (Some renewedLease,
                    s1\<lparr>runLeases := map_set (lease_runId lease) renewedLease (runLeases s1)\<rparr>)))"

definition releaseRunLease :: "RunLease \<Rightarrow> runtime \<Rightarrow> runtime" where
  "releaseRunLease lease s =
     (if map_option lease_leaseToken (map_get (runLeases s) (lease_runId lease))
           = Some (lease_leaseToken lease)
      then s\<lparr>runLeases := map_delete (lease_runId lease) (runLeases s)\<rparr>
      else s)"

section \<open>Listing\<close>

definition compareRunsNewest :: "host \<Rightarrow> StoredRun \<Rightarrow> StoredRun \<Rightarrow> int" where
  "compareRunsNewest h =
     compare_then (\<lambda>left right. run_createdAt right - run_createdAt left)
       (\<lambda>left right. localeCompare h (run_id right) (run_id left))"

definition compareRunsOldest :: "host \<Rightarrow> StoredRun \<Rightarrow> StoredRun \<Rightarrow> int" where
  "compareRunsOldest h =
     compare_then (\<lambda>left right. run_createdAt left - run_createdAt right)
       (\<lambda>left right. localeCompare h (run_id left) (run_id right))"

definition runMatchesFilter :: "StoredRun \<Rightarrow> ListRunsFilter \<Rightarrow> bool" where
  "runMatchesFilter run flt \<longleftrightarrow>
     (case fl_kind flt of None \<Rightarrow> True | Some k \<Rightarrow> run_kind run = k) \<and>
     (case fl_name flt of None \<Rightarrow> True | Some n \<Rightarrow> run_name run = n) \<and>
     (case fl_status flt of None \<Rightarrow> True | Some sts \<Rightarrow> run_status run \<in> set sts) \<and>
     (case fl_createdBefore flt of None \<Rightarrow> True | Some d \<Rightarrow> run_createdAt run < d) \<and>
     (case fl_parentRunId flt of None \<Rightarrow> True
      | Some None \<Rightarrow> run_parentRunId run = None
      | Some (Some p) \<Rightarrow> run_parentRunId run = Some p) \<and>
     (case fl_rootRunId flt of None \<Rightarrow> True | Some r \<Rightarrow> run_rootRunId run = r) \<and>
     (case fl_tags flt of None \<Rightarrow> True
      | Some ts \<Rightarrow> list_all (\<lambda>(key, value). map_get (run_tags run) key = Some value) ts) \<and>
     (case fl_input flt of None \<Rightarrow> True | Some v \<Rightarrow> jsonContains (run_input run) v)"

text \<open>\<open>Number.parseInt(text, 10)\<close>: leading white space, a sign, the longest run of digits.\<close>

definition is_js_space :: "char \<Rightarrow> bool" where
  "is_js_space c \<longleftrightarrow> (of_char c :: nat) \<in> {9, 10, 11, 12, 13, 32, 160}"

definition js_parseInt :: "numerics \<Rightarrow> string \<Rightarrow> jsnum" where
  "js_parseInt nu text =
     (let t = dropWhile is_js_space text;
          neg = (case t of [] \<Rightarrow> False | c # _ \<Rightarrow> c = CHR ''-'');
          u = (case t of [] \<Rightarrow> [] | c # cs \<Rightarrow> if c = CHR ''-'' \<or> c = CHR ''+'' then cs else t);
          ds = takeWhile is_digit u
      in if ds = [] then NaN
         else roundDouble nu (of_int (if neg then - int (read_nat ds) else int (read_nat ds))))"

text \<open>\<open>slice(start, end)\<close> with \<open>None\<close> for an infinite end.\<close>

definition js_slice :: "nat \<Rightarrow> int option \<Rightarrow> 'a list \<Rightarrow> 'a list" where
  "js_slice a e xs = (case e of None \<Rightarrow> drop a xs | Some b \<Rightarrow> take (nat b - a) (drop a xs))"

record ListRunsResult =
  lr_runs :: "StoredRun list"
  lr_nextCursor :: "string option"

definition filteredRuns :: "ListRunsFilter \<Rightarrow> runtime \<Rightarrow> StoredRun list" where
  "filteredRuns flt s =
     sort_by (compareRunsNewest (rt_host s))
       (List.filter (\<lambda>run. runMatchesFilter run flt) (map_values (runs s)))"

definition listRuns :: "ListRunsFilter \<Rightarrow> ListRunsResult op" where
  "listRuns flt s =
     (let nu = nums (rt_host s);
          offset = (case truthy (fl_cursor flt) of None \<Rightarrow> Fin 0 | Some c \<Rightarrow> js_parseInt nu c)
      in if (case fl_limit flt of None \<Rightarrow> False
             | Some limit \<Rightarrow> \<not> isFinite limit \<or> num_value limit < 1)
         then (Inr \<lparr>lr_runs = [], lr_nextCursor = None\<rparr>, s)
         else if \<not> isInteger offset \<or> num_value offset < 0
         then throw (''Invalid run list cursor ['' @ (case fl_cursor flt of None \<Rightarrow> ''undefined'' | Some c \<Rightarrow> c) @ '']'') s
         else (let filtered = filteredRuns flt s;
                   start = nat \<lfloor>num_value offset\<rfloor>;
                   stop = (case fl_limit flt of None \<Rightarrow> None
                           | Some limit \<Rightarrow>
                               (case roundDouble nu (num_value offset + num_value limit) of
                                  Fin r \<Rightarrow> Some \<lfloor>r\<rfloor> | _ \<Rightarrow> None));
                   page = js_slice start stop filtered;
                   nextOffset = start + length page
               in (Inr \<lparr>lr_runs = page,
                        lr_nextCursor = (if nextOffset < length filtered
                                         then Some (show_nat nextOffset) else None)\<rparr>, s)))"

text \<open>A summary is the run without its input and output, with the node counts.\<close>

record RunSummary =
  rs_run :: StoredRun
  rs_nodesTotal :: nat
  rs_nodesCompleted :: nat

definition runSummary :: "runtime \<Rightarrow> StoredRun \<Rightarrow> RunSummary" where
  "runSummary s run =
     (let runNodes = filter (\<lambda>node. node_runId node = run_id run) (map_values (nodes s))
      in \<lparr>rs_run = run\<lparr>run_input := JUndefined, run_output := None\<rparr>,
          rs_nodesTotal = length runNodes,
          rs_nodesCompleted = length (filter (\<lambda>node. node_status node = NCompleted) runNodes)\<rparr>)"

record ListRunSummariesResult =
  ls_runs :: "RunSummary list"
  ls_nextCursor :: "string option"

definition listRunSummaries :: "ListRunsFilter \<Rightarrow> ListRunSummariesResult op" where
  "listRunSummaries flt s =
     (case listRuns flt s of
        (Inl e, s') \<Rightarrow> (Inl e, s')
      | (Inr result, s') \<Rightarrow>
          (Inr \<lparr>ls_runs = map (runSummary s') (lr_runs result), ls_nextCursor = lr_nextCursor result\<rparr>, s'))"

text \<open>\<open>loadRuns\<close>: the known runs, in first-occurrence order of the identifiers.\<close>

definition js_set_of :: "'a list \<Rightarrow> 'a list" where
  "js_set_of xs = fold set_add xs []"

definition loadRuns :: "string list \<Rightarrow> runtime \<Rightarrow> StoredRun list" where
  "loadRuns runIds s =
     concat (map (\<lambda>runId. case map_get (runs s) runId of None \<Rightarrow> [] | Some run \<Rightarrow> [run]) (js_set_of runIds))"

definition loadRunSnapshot :: "string \<Rightarrow> runtime \<Rightarrow> RunSnapshot option" where
  "loadRunSnapshot runId s =
     (case map_get (runs s) runId of
        None \<Rightarrow> None
      | Some run \<Rightarrow>
          Some \<lparr>snap_run = run,
                snap_nodes = filter (\<lambda>node. node_runId node = runId) (map_values (nodes s)),
                snap_children = filter (\<lambda>child. child_runId child = runId) (map_values (children s)),
                snap_attempts = filter (\<lambda>attempt. attempt_runId attempt = runId) (map_values (attempts s))\<rparr>)"

text \<open>The unit of every status operation, for the component proofs.\<close>

lemmas run_status_defs =
  markRunRunning_def markRunWaiting_def completeRun_def failRun_def
  requestRunCancellation_def cancelRun_def

declare run_status_defs [op_defs]
declare createRun_def [op_defs] acquireRunLease_def [op_defs] renewRunLease_def [op_defs]
  releaseRunLease_def [op_defs]

end
