(* ===== verification/Nodes.thy ===== *)
theory Nodes
  imports Runs
begin

text \<open>
  Nodes, their children and the attempts of a child in the in-memory store
  (\<open>runtime/in-memory.ts\<close>): creation, input and case selection, the status operations,
  child runs, attempts with their fencing, and the snapshots readers load.
\<close>

section \<open>Nodes\<close>

text \<open>\<open>nodeNamePattern\<close> of \<open>contract/index.ts\<close>: the names \<open>assertNodeName\<close> lets a workflow declare.\<close>

definition name_start_char :: "char \<Rightarrow> bool" where
  "name_start_char c \<longleftrightarrow>
     (let n = (of_char c :: nat)
      in (97 \<le> n \<and> n \<le> 122) \<or> (65 \<le> n \<and> n \<le> 90) \<or> n = 95 \<or> n = 36)"

definition nodeNamePattern :: "string \<Rightarrow> bool" where
  "nodeNamePattern name =
     (case name of [] \<Rightarrow> False
      | c # cs \<Rightarrow> name_start_char c \<and> list_all (\<lambda>d. name_start_char d \<or> is_digit d) cs)"

definition missing_node :: "string \<Rightarrow> string \<Rightarrow> string" where
  "missing_node runId nodeName = ''Missing node ['' @ runId @ ''.'' @ nodeName @ '']''"

definition createNode :: "string \<Rightarrow> string \<Rightarrow> WorkflowNodeKind \<Rightarrow> runtime \<Rightarrow> StoredNode \<times> runtime" where
  "createNode runId name kind s =
     (let key = nodeKey runId name in
      case map_get (nodes s) key of
        Some existing \<Rightarrow> (existing, s)
      | None \<Rightarrow>
          (let (date, s1) = now s;
               node = \<lparr>node_runId = runId, node_name = name, node_kind = kind,
                       node_status = NPending, node_input = None, node_output = None,
                       node_error = None, node_selectedCase = None, node_version = 1,
                       node_createdAt = date, node_updatedAt = date\<rparr>
           in (node, s1\<lparr>nodes := map_set key node (nodes s1)\<rparr>)))"

definition setNodeInput :: "string \<Rightarrow> string \<Rightarrow> jsval \<Rightarrow> StoredNode op" where
  "setNodeInput runId nodeName input s =
     (let key = nodeKey runId nodeName in
      case map_get (nodes s) key of
        None \<Rightarrow> throw (missing_node runId nodeName) s
      | Some node \<Rightarrow>
          if isTerminalNodeStatus (node_status node) then (Inr node, s)
          else (let (t, s1) = now s;
                    updated = node\<lparr>node_input := Some input, node_version := node_version node + 1,
                                   node_updatedAt := t\<rparr>
                in (Inr updated, s1\<lparr>nodes := map_set key updated (nodes s1)\<rparr>)))"

definition selectNodeCase :: "string \<Rightarrow> string \<Rightarrow> string \<Rightarrow> StoredNode option op" where
  "selectNodeCase runId nodeName caseKey s =
     (let key = nodeKey runId nodeName in
      case map_get (nodes s) key of
        None \<Rightarrow> (Inr None, s)
      | Some node \<Rightarrow>
          if isTerminalNodeStatus (node_status node) then (Inr (Some node), s)
          else if node_selectedCase node = Some caseKey then (Inr (Some node), s)
          else if node_selectedCase node \<noteq> None
          then throw (''Conflicting selected case for ['' @ runId @ ''.'' @ nodeName @ '']'') s
          else (let (t, s1) = now s;
                    updated = node\<lparr>node_selectedCase := Some caseKey,
                                   node_version := node_version node + 1, node_updatedAt := t\<rparr>
                in (Inr (Some updated), s1\<lparr>nodes := map_set key updated (nodes s1)\<rparr>)))"

definition completeNode :: "string \<Rightarrow> string \<Rightarrow> jsval \<Rightarrow> runtime \<Rightarrow> StoredNode option \<times> runtime" where
  "completeNode runId nodeName output s =
     (let key = nodeKey runId nodeName in
      case map_get (nodes s) key of
        None \<Rightarrow> (None, s)
      | Some node \<Rightarrow>
          if isTerminalNodeStatus (node_status node) then (Some node, s)
          else (let (t, s1) = now s;
                    updated = node\<lparr>node_status := NCompleted, node_output := Some output,
                                   node_version := node_version node + 1, node_updatedAt := t\<rparr>
                in (Some updated,
                    emitNodeStatusEvent node updated (s1\<lparr>nodes := map_set key updated (nodes s1)\<rparr>))))"

definition failNode :: "string \<Rightarrow> string \<Rightarrow> thrown \<Rightarrow> runtime \<Rightarrow> StoredNode option \<times> runtime" where
  "failNode runId nodeName error s =
     (let key = nodeKey runId nodeName in
      case map_get (nodes s) key of
        None \<Rightarrow> (None, s)
      | Some node \<Rightarrow>
          if isTerminalNodeStatus (node_status node) then (Some node, s)
          else (let (t, s1) = now s;
                    updated = node\<lparr>node_status := NFailed,
                                   node_error := Some (toStoredError (rt_host s) error),
                                   node_version := node_version node + 1, node_updatedAt := t\<rparr>
                in (Some updated,
                    emitNodeStatusEvent node updated (s1\<lparr>nodes := map_set key updated (nodes s1)\<rparr>))))"

definition cancelNode :: "string \<Rightarrow> string \<Rightarrow> runtime \<Rightarrow> StoredNode option \<times> runtime" where
  "cancelNode runId nodeName s =
     (let key = nodeKey runId nodeName in
      case map_get (nodes s) key of
        None \<Rightarrow> (None, s)
      | Some node \<Rightarrow>
          if isTerminalNodeStatus (node_status node) then (Some node, s)
          else (let (t, s1) = now s;
                    updated = node\<lparr>node_status := NCancelled,
                                   node_version := node_version node + 1, node_updatedAt := t\<rparr>
                in (Some updated,
                    emitNodeStatusEvent node updated (s1\<lparr>nodes := map_set key updated (nodes s1)\<rparr>))))"

definition waitNode :: "string \<Rightarrow> string \<Rightarrow> runtime \<Rightarrow> StoredNode option \<times> runtime" where
  "waitNode runId nodeName s =
     (let key = nodeKey runId nodeName in
      case map_get (nodes s) key of
        None \<Rightarrow> (None, s)
      | Some node \<Rightarrow>
          if isTerminalNodeStatus (node_status node) then (Some node, s)
          else if node_status node = NWaiting then (Some node, s)
          else (let (t, s1) = now s;
                    updated = node\<lparr>node_status := NWaiting,
                                   node_version := node_version node + 1, node_updatedAt := t\<rparr>
                in (Some updated,
                    emitNodeStatusEvent node updated (s1\<lparr>nodes := map_set key updated (nodes s1)\<rparr>))))"

section \<open>Cancelling what is left of a run\<close>

definition cancel_node_step :: "string \<Rightarrow> StoredNode \<Rightarrow> StoredNode list \<times> runtime \<Rightarrow> StoredNode list \<times> runtime" where
  "cancel_node_step runId node acc =
     (let (updated, s) = acc in
      if node_runId node \<noteq> runId \<or> isTerminalNodeStatus (node_status node) then (updated, s)
      else (let (t, s1) = now s;
                cancelled = node\<lparr>node_status := NCancelled, node_version := node_version node + 1,
                                 node_updatedAt := t\<rparr>
            in (updated @ [cancelled],
                emitNodeStatusEvent node cancelled
                  (s1\<lparr>nodes := map_set (nodeKey (node_runId node) (node_name node)) cancelled (nodes s1)\<rparr>))))"

definition cancel_child_step :: "string \<Rightarrow> StoredNodeChild \<Rightarrow> runtime \<Rightarrow> runtime" where
  "cancel_child_step runId child s =
     (if child_runId child \<noteq> runId \<or> isTerminalNodeStatus (child_status child) then s
      else (let (t, s1) = now s;
                cancelled = child\<lparr>child_status := NCancelled, child_version := child_version child + 1,
                                  child_updatedAt := t\<rparr>
            in emitChildStatusEvent child cancelled
                 (s1\<lparr>children := map_set (childKey (child_runId child) (child_nodeName child) (child_childKey child))
                        cancelled (children s1)\<rparr>)))"

definition cancelNonTerminalRunNodes :: "string \<Rightarrow> runtime \<Rightarrow> StoredNode list \<times> runtime" where
  "cancelNonTerminalRunNodes runId s =
     (let (updated, s1) = fold (cancel_node_step runId) (map_values (nodes s)) ([], s)
      in (updated, fold (cancel_child_step runId) (map_values (children s1)) s1))"

section \<open>Children\<close>

definition compareChildren :: "host \<Rightarrow> StoredNodeChild \<Rightarrow> StoredNodeChild \<Rightarrow> int" where
  "compareChildren h =
     compare_then (\<lambda>left right. int (child_ordinal left) - int (child_ordinal right))
       (\<lambda>left right. localeCompare h (child_childKey left) (child_childKey right))"

definition sortedChildren :: "host \<Rightarrow> StoredNodeChild list \<Rightarrow> StoredNodeChild list" where
  "sortedChildren h rows = sort_by (compareChildren h) rows"

definition nodeChildren :: "string \<Rightarrow> string \<Rightarrow> runtime \<Rightarrow> StoredNodeChild list" where
  "nodeChildren runId nodeName s =
     filter (\<lambda>child. child_runId child = runId \<and> child_nodeName child = nodeName) (map_values (children s))"

definition childMatchesInput :: "string \<Rightarrow> string \<Rightarrow> runtime \<Rightarrow> EnsureNodeChildInput \<Rightarrow> bool" where
  "childMatchesInput runId nodeName s input =
     (case map_get (children s) (childKey runId nodeName (ec_childKey input)) of
        None \<Rightarrow> False
      | Some child \<Rightarrow>
          child_kind child = ec_kind input \<and>
          child_ordinal child = (case ec_ordinal input of None \<Rightarrow> 0 | Some n \<Rightarrow> n) \<and>
          child_itemKey child = ec_itemKey input \<and>
          sameOptionalValue (rt_host s) (child_item child) (ec_item input))"

definition newChild :: "string \<Rightarrow> string \<Rightarrow> int \<Rightarrow> EnsureNodeChildInput \<Rightarrow> StoredNodeChild" where
  "newChild runId nodeName date input =
     \<lparr>child_runId = runId, child_nodeName = nodeName, child_childKey = ec_childKey input,
      child_kind = ec_kind input, child_status = NPending,
      child_ordinal = (case ec_ordinal input of None \<Rightarrow> 0 | Some n \<Rightarrow> n),
      child_itemKey = ec_itemKey input, child_item = ec_item input,
      child_input = None, child_output = None, child_error = None, child_childRunId = None,
      child_currentAttemptId = None, child_attemptCount = 0, child_version = 1,
      child_createdAt = date, child_updatedAt = date\<rparr>"

definition ensureNodeChildren ::
  "string \<Rightarrow> string \<Rightarrow> EnsureNodeChildInput list \<Rightarrow> (StoredNodeChild list \<times> bool) op" where
  "ensureNodeChildren runId nodeName inputs s =
     (case map_get (nodes s) (nodeKey runId nodeName) of
        None \<Rightarrow> throw (missing_node runId nodeName) s
      | Some node \<Rightarrow>
          (let existing = nodeChildren runId nodeName s in
           if existing \<noteq> [] then
             (if length existing = length inputs \<and> list_all (childMatchesInput runId nodeName s) inputs
              then (Inr (sortedChildren (rt_host s) existing, False), s)
              else throw (''Conflicting node children ['' @ runId @ ''.'' @ nodeName @ '']'') s)
           else
             (let (date, s1) = now s;
                  created = map (newChild runId nodeName date) inputs
              in (Inr (sortedChildren (rt_host s) created, True),
                  s1\<lparr>children := fold (\<lambda>child m. map_set (childKey runId nodeName (child_childKey child)) child m)
                         created (children s1)\<rparr>))))"

definition completeNodeChild ::
  "string \<Rightarrow> string \<Rightarrow> string \<Rightarrow> jsval \<Rightarrow> runtime \<Rightarrow> StoredNodeChild option \<times> runtime" where
  "completeNodeChild runId nodeName key output s =
     (let mapKey = childKey runId nodeName key in
      case map_get (children s) mapKey of
        None \<Rightarrow> (None, s)
      | Some child \<Rightarrow>
          if isTerminalNodeStatus (child_status child) then (Some child, s)
          else (let (t, s1) = now s;
                    updated = child\<lparr>child_status := NCompleted, child_output := Some output,
                                    child_version := child_version child + 1, child_updatedAt := t\<rparr>
                in (Some updated,
                    emitChildStatusEvent child updated
                      (s1\<lparr>children := map_set mapKey updated (children s1)\<rparr>))))"

definition failNodeChild ::
  "string \<Rightarrow> string \<Rightarrow> string \<Rightarrow> thrown \<Rightarrow> runtime \<Rightarrow> StoredNodeChild option \<times> runtime" where
  "failNodeChild runId nodeName key error s =
     (let mapKey = childKey runId nodeName key in
      case map_get (children s) mapKey of
        None \<Rightarrow> (None, s)
      | Some child \<Rightarrow>
          if isTerminalNodeStatus (child_status child) then (Some child, s)
          else (let (t, s1) = now s;
                    updated = child\<lparr>child_status := NFailed,
                                    child_error := Some (toStoredError (rt_host s) error),
                                    child_version := child_version child + 1, child_updatedAt := t\<rparr>
                in (Some updated,
                    emitChildStatusEvent child updated
                      (s1\<lparr>children := map_set mapKey updated (children s1)\<rparr>))))"

definition missing_child :: "string \<Rightarrow> string \<Rightarrow> string \<Rightarrow> string" where
  "missing_child runId nodeName key = ''Missing node child ['' @ childRef runId nodeName key @ '']''"

definition childRunInput :: "EnsureChildRunParams \<Rightarrow> CreateRunInput" where
  "childRunInput p =
     \<lparr>cr_kind = Some (ecr_childKind p), cr_name = Some (ecr_childName p),
      cr_workflowName = ecr_childName p,
      cr_taskName = (if ecr_childKind p = TaskRun then Some (ecr_childName p) else None),
      cr_input = ecr_input p, cr_parentRunId = Some (ecr_runId p),
      cr_parentNodeName = Some (ecr_nodeName p), cr_rootRunId = Some (ecr_rootRunId p),
      cr_tags = ecr_tags p, cr_idempotencyKey = ecr_idempotencyKey p, cr_unique = None\<rparr>"

record EnsureChildRunResult =
  ecres_child :: StoredNodeChild
  ecres_childRun :: StoredRun
  ecres_created :: bool

definition ensureChildRun :: "EnsureChildRunParams \<Rightarrow> EnsureChildRunResult op" where
  "ensureChildRun p s =
     (let key = childKey (ecr_runId p) (ecr_nodeName p) (ecr_childKey p);
          ref = childRef (ecr_runId p) (ecr_nodeName p) (ecr_childKey p) in
      case map_get (children s) key of
        None \<Rightarrow> throw (missing_child (ecr_runId p) (ecr_nodeName p) (ecr_childKey p)) s
      | Some child \<Rightarrow>
          (case child_childRunId child of
             Some childRunId \<Rightarrow>
               (case map_get (runs s) childRunId of
                  None \<Rightarrow> throw (''Missing child run ['' @ childRunId @ '']'') s
                | Some childRun \<Rightarrow>
                    if run_kind childRun \<noteq> ecr_childKind p \<or> run_name childRun \<noteq> ecr_childName p
                       \<or> \<not> sameValue (rt_host s) (run_input childRun) (ecr_input p)
                       \<or> \<not> sameOptionalValue (rt_host s) (map_option JArr (run_idempotencyKey childRun))
                             (map_option JArr (ecr_idempotencyKey p))
                    then throw (''Conflicting child run ['' @ ref @ '']'') s
                    else (Inr \<lparr>ecres_child = child, ecres_childRun = childRun, ecres_created = False\<rparr>, s))
           | None \<Rightarrow>
               if isTerminalNodeStatus (child_status child)
               then throw (''Terminal node child ['' @ ref @ ''] cannot start child run'') s
               else (case createRunWithState (childRunInput p) s of
                       (Inl e, s1) \<Rightarrow> (Inl e, s1)
                     | (Inr (childRun, created), s1) \<Rightarrow>
                         (let (t, s2) = now s1;
                              linked = child\<lparr>child_childRunId := Some (run_id childRun),
                                             child_status := NRunning,
                                             child_version := child_version child + 1,
                                             child_updatedAt := t\<rparr>
                          in (Inr \<lparr>ecres_child = linked, ecres_childRun = childRun, ecres_created = True\<rparr>,
                              emitChildStatusEvent child linked
                                (s2\<lparr>children := map_set key linked (children s2)\<rparr>))))))"

section \<open>Attempts\<close>

text \<open>The node mirrors that some child is executing.\<close>

definition mirrorNodeRunning :: "string \<Rightarrow> string \<Rightarrow> runtime \<Rightarrow> runtime" where
  "mirrorNodeRunning runId nodeName s =
     (let key = nodeKey runId nodeName in
      case map_get (nodes s) key of
        None \<Rightarrow> s
      | Some node \<Rightarrow>
          if node_status node = NRunning \<or> canTransition NODE_TRANSITIONS (node_status node) NRunning
          then (let (t, s1) = now s;
                    updatedNode = node\<lparr>node_status := NRunning, node_version := node_version node + 1,
                                       node_updatedAt := t\<rparr>
                in emitNodeStatusEvent node updatedNode
                     (s1\<lparr>nodes := map_set key updatedNode (nodes s1)\<rparr>))
          else s)"

text \<open>The writes of \<open>createChildAttempt\<close> before the node: the attempt, then its child.\<close>

definition insertChildAttempt ::
  "StoredNodeChild \<Rightarrow> jsval \<Rightarrow> jsval list option \<Rightarrow> runtime \<Rightarrow> StoredAttempt \<times> runtime" where
  "insertChildAttempt child input idempotencyKey s =
     (let (attemptId, s1) = fresh_id ''attempt'' s;
          (leaseToken, s2) = fresh_id ''attempt-lease'' s1;
          (dispatchedAt, s3) = now s2;
          attempt = \<lparr>attempt_id = attemptId, attempt_runId = child_runId child,
                     attempt_nodeName = child_nodeName child, attempt_childKey = child_childKey child,
                     attempt_status = AStarted, attempt_workerId = None,
                     attempt_leaseToken = Some leaseToken,
                     attempt_attemptNumber = child_attemptCount child + 1,
                     attempt_input = input, attempt_idempotencyKey = idempotencyKey,
                     attempt_output = None, attempt_error = None,
                     attempt_dispatchedAt = dispatchedAt, attempt_heartbeatAt = None,
                     attempt_completedAt = None\<rparr>;
          s4 = emitAttemptStatusEvent None attempt
                 (s3\<lparr>attempts := map_set attemptId attempt (attempts s3)\<rparr>);
          (t, s5) = now s4;
          updatedChild = child\<lparr>child_status := NRunning, child_currentAttemptId := Some attemptId,
                               child_attemptCount := child_attemptCount child + 1,
                               child_version := child_version child + 1, child_updatedAt := t\<rparr>;
          s6 = emitChildStatusEvent child updatedChild
                 (s5\<lparr>children := map_set (childKey (child_runId child) (child_nodeName child) (child_childKey child))
                        updatedChild (children s5)\<rparr>)
      in (attempt, s6))"

definition createChildAttempt ::
  "StoredNodeChild \<Rightarrow> jsval \<Rightarrow> jsval list option \<Rightarrow> runtime \<Rightarrow> StoredAttempt \<times> runtime" where
  "createChildAttempt child input idempotencyKey s =
     (let (attempt, s1) = insertChildAttempt child input idempotencyKey s
      in (attempt, mirrorNodeRunning (child_runId child) (child_nodeName child) s1))"

definition createAttempt :: "CreateAttemptInput \<Rightarrow> StoredAttempt op" where
  "createAttempt i s =
     (case map_get (children s) (childKey (ca_runId i) (ca_nodeName i) (ca_childKey i)) of
        None \<Rightarrow> throw (missing_child (ca_runId i) (ca_nodeName i) (ca_childKey i)) s
      | Some child \<Rightarrow>
          if isTerminalNodeStatus (child_status child)
          then throw (''Terminal node child ['' @ childRef (ca_runId i) (ca_nodeName i) (ca_childKey i)
                        @ ''] cannot create attempt'') s
          else (case createChildAttempt child (ca_input i) (ca_idempotencyKey i) s of
                  (attempt, s') \<Rightarrow> (Inr attempt, s')))"

definition childAttempts :: "StoredNodeChild \<Rightarrow> runtime \<Rightarrow> StoredAttempt list" where
  "childAttempts child s =
     filter (\<lambda>attempt. attempt_runId attempt = child_runId child
                     \<and> attempt_nodeName attempt = child_nodeName child
                     \<and> attempt_childKey attempt = child_childKey child) (map_values (attempts s))"

definition compareAttemptNumberDesc :: "StoredAttempt \<Rightarrow> StoredAttempt \<Rightarrow> int" where
  "compareAttemptNumberDesc left right =
     int (attempt_attemptNumber right) - int (attempt_attemptNumber left)"

definition currentAttempt :: "StoredNodeChild \<Rightarrow> runtime \<Rightarrow> StoredAttempt option" where
  "currentAttempt child s =
     (case (case child_currentAttemptId child of None \<Rightarrow> None | Some a \<Rightarrow> map_get (attempts s) a) of
        Some attempt \<Rightarrow> Some attempt
      | None \<Rightarrow>
          (case sort_by compareAttemptNumberDesc (childAttempts child s) of
             [] \<Rightarrow> None | a # _ \<Rightarrow> Some a))"

definition ensureChildAttempt :: "CreateAttemptInput \<Rightarrow> (StoredAttempt \<times> bool) op" where
  "ensureChildAttempt i s =
     (case map_get (children s) (childKey (ca_runId i) (ca_nodeName i) (ca_childKey i)) of
        None \<Rightarrow> throw (missing_child (ca_runId i) (ca_nodeName i) (ca_childKey i)) s
      | Some child \<Rightarrow>
          if child_attemptCount child > 0 then
            (case currentAttempt child s of
               None \<Rightarrow> throw (''Missing node child attempt ['' @ childRef (ca_runId i) (ca_nodeName i) (ca_childKey i)
                                @ '']'') s
             | Some current \<Rightarrow> (Inr (current, False), s))
          else if isTerminalNodeStatus (child_status child)
          then throw (''Terminal node child ['' @ childRef (ca_runId i) (ca_nodeName i) (ca_childKey i)
                        @ ''] cannot create attempt'') s
          else (case createChildAttempt child (ca_input i) (ca_idempotencyKey i) s of
                  (attempt, s') \<Rightarrow> (Inr (attempt, True), s')))"

definition fencedCurrentAttempt ::
  "string \<Rightarrow> string option \<Rightarrow> runtime \<Rightarrow> (StoredAttempt \<times> StoredNodeChild) option" where
  "fencedCurrentAttempt attemptId leaseToken s =
     (case map_get (attempts s) attemptId of
        None \<Rightarrow> None
      | Some attempt \<Rightarrow>
          if attempt_leaseToken attempt \<noteq> leaseToken then None
          else if attempt_status attempt \<noteq> AStarted then None
          else (case map_get (children s) (childKey (attempt_runId attempt) (attempt_nodeName attempt)
                                             (attempt_childKey attempt)) of
                  None \<Rightarrow> None
                | Some child \<Rightarrow>
                    if isTerminalNodeStatus (child_status child)
                       \<or> child_currentAttemptId child \<noteq> Some attemptId
                    then None else Some (attempt, child)))"

definition completeCurrentAttempt ::
  "string \<Rightarrow> string option \<Rightarrow> jsval \<Rightarrow> runtime \<Rightarrow> StoredAttempt option \<times> runtime" where
  "completeCurrentAttempt attemptId leaseToken output s =
     (case fencedCurrentAttempt attemptId leaseToken s of
        None \<Rightarrow> (None, s)
      | Some (attempt, child) \<Rightarrow>
          (let (t, s1) = now s;
               updated = attempt\<lparr>attempt_status := ACompleted, attempt_output := Some output,
                                 attempt_completedAt := Some t\<rparr>;
               s2 = emitAttemptStatusEvent (Some attempt) updated
                      (s1\<lparr>attempts := map_set attemptId updated (attempts s1)\<rparr>);
               (t', s3) = now s2;
               completedChild = child\<lparr>child_status := NCompleted, child_output := Some output,
                                      child_version := child_version child + 1, child_updatedAt := t'\<rparr>
           in (Some updated,
               emitChildStatusEvent child completedChild
                 (s3\<lparr>children := map_set (childKey (child_runId child) (child_nodeName child) (child_childKey child))
                        completedChild (children s3)\<rparr>))))"

definition failCurrentAttempt ::
  "string \<Rightarrow> string option \<Rightarrow> thrown \<Rightarrow> runtime \<Rightarrow> StoredAttempt option \<times> runtime" where
  "failCurrentAttempt attemptId leaseToken error s =
     (case fencedCurrentAttempt attemptId leaseToken s of
        None \<Rightarrow> (None, s)
      | Some (attempt, child) \<Rightarrow>
          (let (t, s1) = now s;
               updated = attempt\<lparr>attempt_status := AFailed,
                                 attempt_error := Some (toStoredError (rt_host s) error),
                                 attempt_completedAt := Some t\<rparr>
           in (Some updated,
               emitAttemptStatusEvent (Some attempt) updated
                 (s1\<lparr>attempts := map_set attemptId updated (attempts s1)\<rparr>))))"

definition timeoutCurrentAttempt ::
  "string \<Rightarrow> string option \<Rightarrow> thrown \<Rightarrow> runtime \<Rightarrow> StoredAttempt option \<times> runtime" where
  "timeoutCurrentAttempt attemptId leaseToken error s =
     (case fencedCurrentAttempt attemptId leaseToken s of
        None \<Rightarrow> (None, s)
      | Some (attempt, child) \<Rightarrow>
          (let (t, s1) = now s;
               updated = attempt\<lparr>attempt_status := ATimedOut,
                                 attempt_error := Some (toStoredError (rt_host s) error),
                                 attempt_completedAt := Some t\<rparr>
           in (Some updated,
               emitAttemptStatusEvent (Some attempt) updated
                 (s1\<lparr>attempts := map_set attemptId updated (attempts s1)\<rparr>))))"

section \<open>Snapshots\<close>

definition loadNodeChildren :: "string \<Rightarrow> string \<Rightarrow> runtime \<Rightarrow> StoredNodeChild list \<times> StoredAttempt list" where
  "loadNodeChildren runId nodeName s =
     (sortedChildren (rt_host s) (nodeChildren runId nodeName s),
      filter (\<lambda>attempt. attempt_runId attempt = runId \<and> attempt_nodeName attempt = nodeName)
        (map_values (attempts s)))"

definition compareAttempts :: "host \<Rightarrow> StoredAttempt \<Rightarrow> StoredAttempt \<Rightarrow> int" where
  "compareAttempts h =
     compare_then (\<lambda>left right. attempt_dispatchedAt left - attempt_dispatchedAt right)
       (\<lambda>left right. localeCompare h (attempt_id left) (attempt_id right))"

record NodeSnapshot =
  ns_node :: StoredNode
  ns_children :: "StoredNodeChild list"
  ns_attempts :: "StoredAttempt list"

definition loadNodeSnapshot :: "string \<Rightarrow> string \<Rightarrow> runtime \<Rightarrow> NodeSnapshot option" where
  "loadNodeSnapshot runId nodeName s =
     (case map_get (nodes s) (nodeKey runId nodeName) of
        None \<Rightarrow> None
      | Some node \<Rightarrow>
          Some \<lparr>ns_node = node,
                ns_children = sortedChildren (rt_host s) (nodeChildren runId nodeName s),
                ns_attempts = sort_by (compareAttempts (rt_host s))
                  (filter (\<lambda>attempt. attempt_runId attempt = runId \<and> attempt_nodeName attempt = nodeName)
                     (map_values (attempts s)))\<rparr>)"

text \<open>The summaries drop the payload fields of a row.\<close>

definition nodeSummary :: "StoredNode \<Rightarrow> StoredNode" where
  "nodeSummary node = node\<lparr>node_input := None, node_output := None\<rparr>"

definition childSummary :: "StoredNodeChild \<Rightarrow> StoredNodeChild" where
  "childSummary child = child\<lparr>child_item := None, child_input := None, child_output := None\<rparr>"

definition attemptSummary :: "StoredAttempt \<Rightarrow> StoredAttempt" where
  "attemptSummary attempt = attempt\<lparr>attempt_input := JUndefined, attempt_output := None\<rparr>"

record RunDetail =
  rd_run :: RunSummary
  rd_nodes :: "StoredNode list"
  rd_children :: "StoredNodeChild list"
  rd_attempts :: "StoredAttempt list"
  rd_childRuns :: "RunSummary list"

definition compareDetailChildren :: "host \<Rightarrow> StoredNodeChild \<Rightarrow> StoredNodeChild \<Rightarrow> int" where
  "compareDetailChildren h =
     compare_then (\<lambda>left right. localeCompare h (child_nodeName left) (child_nodeName right))
       (compareChildren h)"

definition loadRunDetail :: "string \<Rightarrow> runtime \<Rightarrow> RunDetail option" where
  "loadRunDetail runId s =
     (case map_get (runs s) runId of
        None \<Rightarrow> None
      | Some run \<Rightarrow>
          (let detailChildren = sort_by (compareDetailChildren (rt_host s))
                 (filter (\<lambda>child. child_runId child = runId) (map_values (children s)));
               childRunIds = concat (map (\<lambda>child. case child_childRunId child of
                                             None \<Rightarrow> [] | Some r \<Rightarrow> [r]) detailChildren)
           in Some \<lparr>rd_run = runSummary s run,
                    rd_nodes = map nodeSummary
                      (filter (\<lambda>node. node_runId node = runId) (map_values (nodes s))),
                    rd_children = map childSummary detailChildren,
                    rd_attempts = map attemptSummary (sort_by (compareAttempts (rt_host s))
                      (filter (\<lambda>attempt. attempt_runId attempt = runId) (map_values (attempts s)))),
                    rd_childRuns = map (runSummary s) (sort_by (compareRunsOldest (rt_host s))
                      (filter (\<lambda>childRun. run_id childRun \<in> set childRunIds) (map_values (runs s))))\<rparr>))"

record RunFamilyEntry =
  rf_run :: RunSummary
  rf_origin :: "(string \<times> string) option"

definition runOrigins :: "runtime \<Rightarrow> (string \<times> (string \<times> string)) list" where
  "runOrigins s =
     fold (\<lambda>child m. case child_childRunId child of
                        None \<Rightarrow> m
                      | Some r \<Rightarrow> if map_get m r = None
                                 then map_set r (child_nodeName child, child_childKey child) m else m)
       (map_values (children s)) []"

definition listRunFamily :: "string \<Rightarrow> runtime \<Rightarrow> RunFamilyEntry list" where
  "listRunFamily runId s =
     (case map_get (runs s) runId of
        None \<Rightarrow> []
      | Some run \<Rightarrow>
          map (\<lambda>familyRun. \<lparr>rf_run = runSummary s familyRun,
                              rf_origin = map_get (runOrigins s) (run_id familyRun)\<rparr>)
            (sort_by (compareRunsOldest (rt_host s))
               (filter (\<lambda>familyRun. run_rootRunId familyRun = run_rootRunId run) (map_values (runs s)))))"

interpretation attempt_number_order: comparator compareAttemptNumberDesc
  by unfold_locales (auto simp: compareAttemptNumberDesc_def)

lemmas node_status_defs =
  createNode_def setNodeInput_def selectNodeCase_def completeNode_def failNode_def cancelNode_def
  waitNode_def

lemmas child_status_defs = completeNodeChild_def failNodeChild_def

lemmas attempt_status_defs =
  completeCurrentAttempt_def failCurrentAttempt_def timeoutCurrentAttempt_def

end
