(* ===== verification/Queues.thy ===== *)
theory Queues
  imports Nodes
begin

text \<open>
  The command queues of \<open>runtime/in-memory.ts\<close>: claiming with leases, release with
  backoff, dead-lettering of commands that keep failing, the takeover of expired leases,
  and the two executors (\<open>runCoordinationExecutor\<close>, \<open>attemptExecutor\<close>) over them.
\<close>

section \<open>Constants and items\<close>

definition RELEASE_BACKOFF_MS :: int where
  "RELEASE_BACKOFF_MS = 50"

definition UNROUTABLE_BACKOFF_MS :: int where
  "UNROUTABLE_BACKOFF_MS = 1000"

definition MAX_ERROR_BACKOFF_MS :: int where
  "MAX_ERROR_BACKOFF_MS = 300000"

definition DEFAULT_LEASE_MS :: int where
  "DEFAULT_LEASE_MS = 30000"

definition queueItem :: "string \<Rightarrow> 'c \<Rightarrow> int option \<Rightarrow> runtime \<Rightarrow> 'c QueueItem \<times> runtime" where
  "queueItem itemId payload runAt s =
     (let (t, s1) = now s
      in (\<lparr>qi_id = itemId, qi_payload = payload, qi_runAt = runAt, qi_deliveryCount = 0,
           qi_lastError = None, qi_deadAt = None, qi_reapedAt = None, qi_createdAt = t\<rparr>, s1))"

text \<open>The condition \<open>runAt === undefined || runAt <= new Date()\<close>, which reads the clock last.\<close>

definition isDue :: "int option \<Rightarrow> runtime \<Rightarrow> bool \<times> runtime" where
  "isDue runAt s =
     (case runAt of
        None \<Rightarrow> (True, s)
      | Some due \<Rightarrow> (let (t, s1) = Date_now s in (due \<le> t, s1)))"

definition wakeCommand :: "WorkflowCommandWakeKind \<Rightarrow> int option \<Rightarrow> runtime \<Rightarrow> runtime" where
  "wakeCommand kind runAt s =
     (let (due, s1) = isDue runAt s
      in if due then fireWake (map_get (commandWakeListeners s1) kind) s1 else s1)"

section \<open>Claiming\<close>

text \<open>
  \<open>claimQueued\<close>: the first live item that matches or, given a comparison, the least of
  them (the first of equals); the item and the queue without it.
\<close>

definition live :: "('c QueueItem \<Rightarrow> bool) \<Rightarrow> 'c QueueItem \<Rightarrow> bool" where
  "live matches item \<longleftrightarrow> qi_deadAt item = None \<and> matches item"

definition best_index ::
  "('c QueueItem \<Rightarrow> bool) \<Rightarrow> ('c QueueItem \<Rightarrow> 'c QueueItem \<Rightarrow> int) \<Rightarrow> 'c QueueItem list \<Rightarrow> nat \<Rightarrow> nat" where
  "best_index P cmp queue first =
     foldl (\<lambda>index candidate.
              if P (queue ! candidate) \<and> cmp (queue ! candidate) (queue ! index) < 0
              then candidate else index)
       first [Suc first..<length queue]"

definition claimQueued ::
  "'c QueueItem list \<Rightarrow> ('c QueueItem \<Rightarrow> bool) \<Rightarrow> ('c QueueItem \<Rightarrow> 'c QueueItem \<Rightarrow> int) option
    \<Rightarrow> 'c QueueItem option \<times> 'c QueueItem list" where
  "claimQueued queue matches compare =
     (case find_index (live matches) queue of
        None \<Rightarrow> (None, queue)
      | Some first \<Rightarrow>
          (let index = (case compare of None \<Rightarrow> first
                        | Some cmp \<Rightarrow> best_index (live matches) cmp queue first)
           in (Some (queue ! index), splice_out index queue)))"

definition compareAttemptCommands :: "host \<Rightarrow> 'c QueueItem \<Rightarrow> 'c QueueItem \<Rightarrow> int" where
  "compareAttemptCommands h =
     compare_then
       (\<lambda>left right. (case qi_runAt left of None \<Rightarrow> qi_createdAt left | Some t \<Rightarrow> t)
                  - (case qi_runAt right of None \<Rightarrow> qi_createdAt right | Some t \<Rightarrow> t))
       (compare_then (\<lambda>left right. qi_createdAt left - qi_createdAt right)
          (\<lambda>left right. localeCompare h (qi_id left) (qi_id right)))"

definition matchesClaim :: "'c ClaimedQueueItem option \<Rightarrow> 'c Claim \<Rightarrow> bool" where
  "matchesClaim stored claim \<longleftrightarrow> map_option ci_leaseToken stored = Some (claim_leaseToken claim)"

section \<open>Failed deliveries\<close>

text \<open>\<open>{ ...item, ...countFailedDelivery(item, error) }\<close>.\<close>

definition countFailedDelivery ::
  "'c QueueItem \<Rightarrow> jsval \<Rightarrow> runtime \<Rightarrow> 'c QueueItem \<times> runtime" where
  "countFailedDelivery item error s =
     (let deliveryCount = qi_deliveryCount item + 1;
          counted = item\<lparr>qi_deliveryCount := deliveryCount, qi_lastError := Some error\<rparr>
      in if int deliveryCount \<ge> maxDeliveries s
         then (let (t, s1) = now s in (counted\<lparr>qi_deadAt := Some t\<rparr>, s1))
         else (counted, s))"

definition releaseQueueItem ::
  "'c QueueItem \<Rightarrow> CommandReleaseOptions \<Rightarrow> runtime \<Rightarrow> 'c QueueItem \<times> runtime" where
  "releaseQueueItem item options s =
     (if (ro_error options = None \<or> ro_error options = Some (Plain JUndefined)) \<and> \<not> ro_unroutable options
      then (let (t, s1) = Date_now s in (item\<lparr>qi_runAt := Some (t + RELEASE_BACKOFF_MS)\<rparr>, s1))
      else (let backoffBaseMs = (if ro_unroutable options then UNROUTABLE_BACKOFF_MS else RELEASE_BACKOFF_MS);
                noError = new_Error ''No implementation can execute this workflow command'';
                error = (case ro_error options of
                           Some e \<Rightarrow> if e = Plain JNull \<or> e = Plain JUndefined then noError else e
                         | None \<Rightarrow> noError);
                (counted, s1) = countFailedDelivery item (toStoredError (rt_host s) error) s;
                (t, s2) = Date_now s1
            in (counted\<lparr>qi_runAt := Some (t + min (2 ^ qi_deliveryCount counted * backoffBaseMs)
                                                  MAX_ERROR_BACKOFF_MS)\<rparr>, s2)))"

text \<open>The takeover of expired leases: every expired claim the worker may redeliver.\<close>

definition reclaim_step ::
  "('c \<Rightarrow> bool) \<Rightarrow> int \<Rightarrow> string \<times> 'c ClaimedQueueItem
    \<Rightarrow> (string \<times> 'c ClaimedQueueItem) list \<times> 'c QueueItem list \<times> runtime
    \<Rightarrow> (string \<times> 'c ClaimedQueueItem) list \<times> 'c QueueItem list \<times> runtime" where
  "reclaim_step eligible date entry acc =
     (let (key, item) = entry; (claimed, queue, s) = acc in
      if ci_leaseExpiresAt item > date \<or> \<not> eligible (qi_payload (ci_item item))
      then (claimed, queue, s)
      else (let (counted, s1) = countFailedDelivery (ci_item item)
                  (case qi_lastError (ci_item item) of Some e \<Rightarrow> e | None \<Rightarrow> COMMAND_LEASE_EXPIRED_ERROR) s
            in (map_delete key claimed, queue @ [counted], s1)))"

definition reclaimExpiredLeases ::
  "(string \<times> 'c ClaimedQueueItem) list \<Rightarrow> 'c QueueItem list \<Rightarrow> ('c \<Rightarrow> bool) \<Rightarrow> runtime
    \<Rightarrow> (string \<times> 'c ClaimedQueueItem) list \<times> 'c QueueItem list \<times> runtime" where
  "reclaimExpiredLeases claimed queue eligible s =
     (let (date, s1) = now s
      in fold (reclaim_step eligible date) claimed (claimed, queue, s1))"

section \<open>The run coordination executor\<close>

definition earliestRunAt :: "int option \<Rightarrow> int option \<Rightarrow> int option" where
  "earliestRunAt left right =
     (case (left, right) of (Some l, Some r) \<Rightarrow> Some (if l \<le> r then l else r) | _ \<Rightarrow> None)"

definition enqueueContinue :: "ContinueRunCommand \<Rightarrow> int option \<Rightarrow> runtime \<Rightarrow> runtime" where
  "enqueueContinue command runAt s =
     (case find_index (\<lambda>item. qi_deadAt item = None \<and> cont_runId (qi_payload item) = cont_runId command)
             (continueRunCommands s) of
        None \<Rightarrow>
          (let (itemId, s1) = fresh_id ''continue'' s;
               (item, s2) = queueItem itemId command runAt s1
           in wakeCommand WakeContinue runAt
                (s2\<lparr>continueRunCommands := continueRunCommands s2 @ [item]\<rparr>))
      | Some existingIndex \<Rightarrow>
          (let existing = continueRunCommands s ! existingIndex;
               updated = existing\<lparr>qi_payload := command, qi_runAt := earliestRunAt (qi_runAt existing) runAt\<rparr>
           in wakeCommand WakeContinue runAt
                (s\<lparr>continueRunCommands := (continueRunCommands s)[existingIndex := updated]\<rparr>)))"

definition enqueue :: "ContinueRunCommand \<Rightarrow> runtime \<Rightarrow> runtime" where
  "enqueue command s = enqueueContinue command None s"

definition enqueueDelayed :: "ContinueRunCommand \<Rightarrow> int \<Rightarrow> runtime \<Rightarrow> runtime" where
  "enqueueDelayed command runAt s = enqueueContinue command (Some runAt) s"

definition due_at :: "int \<Rightarrow> 'c QueueItem \<Rightarrow> bool" where
  "due_at date item = (case qi_runAt item of None \<Rightarrow> True | Some t \<Rightarrow> t \<le> date)"

definition claimContinue ::
  "RunCoordinationWorkerClaim \<Rightarrow> runtime \<Rightarrow> ContinueRunCommand Claim option \<times> runtime" where
  "claimContinue worker s =
     (let eligible = (\<lambda>command. cont_workflowName command \<in> set (rcw_workflowNames worker));
          (claimed, queue, s1) = reclaimExpiredLeases (claimedContinueRunCommands s)
             (continueRunCommands s) eligible s;
          (date, s2) = now (s1\<lparr>claimedContinueRunCommands := claimed, continueRunCommands := queue\<rparr>)
      in case claimQueued (continueRunCommands s2)
               (\<lambda>queued. eligible (qi_payload queued) \<and> due_at date queued) None of
           (None, _) \<Rightarrow> (None, s2)
         | (Some item, rest) \<Rightarrow>
             (let (token, s3) = fresh_id ''continue-lease'' (s2\<lparr>continueRunCommands := rest\<rparr>);
                  claim = \<lparr>claim_id = qi_id item, claim_command = qi_payload item, claim_leaseToken = token\<rparr>
              in (Some claim,
                  s3\<lparr>claimedContinueRunCommands := map_set (claim_id claim)
                       \<lparr>ci_item = item, ci_leaseToken = token, ci_leaseExpiresAt = date + rcw_leaseMs worker\<rparr>
                       (claimedContinueRunCommands s3)\<rparr>)))"

definition ackContinue :: "ContinueRunCommand Claim \<Rightarrow> unit op" where
  "ackContinue command s =
     (if \<not> matchesClaim (map_get (claimedContinueRunCommands s) (claim_id command)) command
      then throw ''Stale workflow command ack'' s
      else (Inr (), s\<lparr>claimedContinueRunCommands :=
                        map_delete (claim_id command) (claimedContinueRunCommands s)\<rparr>))"

definition releaseContinue ::
  "ContinueRunCommand Claim \<Rightarrow> CommandReleaseOptions \<Rightarrow> runtime \<Rightarrow> runtime" where
  "releaseContinue command options s =
     (case map_get (claimedContinueRunCommands s) (claim_id command) of
        None \<Rightarrow> s
      | Some claimed \<Rightarrow>
          if \<not> matchesClaim (Some claimed) command then s
          else (let s1 = s\<lparr>claimedContinueRunCommands :=
                            map_delete (claim_id command) (claimedContinueRunCommands s)\<rparr>;
                    (item, s2) = releaseQueueItem (ci_item claimed) options s1
                in s2\<lparr>continueRunCommands := continueRunCommands s2 @ [item]\<rparr>))"

section \<open>The attempt executor\<close>

definition attemptCommandExists :: "string \<Rightarrow> runtime \<Rightarrow> bool" where
  "attemptCommandExists attemptId s \<longleftrightarrow>
     list_ex (\<lambda>item. cmd_attemptId (qi_payload item) = attemptId) (attemptCommands s) \<or>
     list_ex (\<lambda>item. cmd_attemptId (qi_payload (ci_item item)) = attemptId)
       (map_values (claimedAttemptCommands s))"

text \<open>\<open>dispatchActivity\<close> and \<open>dispatchTask\<close> differ in the prefix of the identifier and the wake kind.\<close>

definition dispatchAttempt ::
  "string \<Rightarrow> WorkflowCommandWakeKind \<Rightarrow> AttemptCommand \<Rightarrow> int option \<Rightarrow> runtime \<Rightarrow> runtime" where
  "dispatchAttempt prefix kind command runAt s =
     (if attemptCommandExists (cmd_attemptId command) s then s
      else (let (itemId, s1) = fresh_id prefix s;
                (item, s2) = queueItem itemId command runAt s1
            in wakeCommand kind runAt (s2\<lparr>attemptCommands := attemptCommands s2 @ [item]\<rparr>)))"

definition dispatchActivity :: "AttemptCommand \<Rightarrow> int option \<Rightarrow> runtime \<Rightarrow> runtime" where
  "dispatchActivity = dispatchAttempt ''activity-command'' WakeActivity"

definition dispatchTask :: "AttemptCommand \<Rightarrow> int option \<Rightarrow> runtime \<Rightarrow> runtime" where
  "dispatchTask = dispatchAttempt ''task-command'' WakeTask"

definition attemptEligible :: "ExecutionWorkerClaim \<Rightarrow> AttemptCommand \<Rightarrow> bool" where
  "attemptEligible worker command =
     (case command of
        TaskAttempt _ taskName _ _ _ _ _ _ _ _ \<Rightarrow> taskName \<in> set (ew_taskNames worker)
      | ActivityAttempt workflowName activityName _ _ _ _ _ _ _ \<Rightarrow>
          workflowName \<in> set (ew_workflowNames worker) \<and>
          (case ew_activityNames worker of None \<Rightarrow> True | Some names \<Rightarrow> activityName \<in> set names))"

definition claimAttempt ::
  "ExecutionWorkerClaim \<Rightarrow> runtime \<Rightarrow> AttemptCommand Claim option \<times> runtime" where
  "claimAttempt worker s =
     (let (claimed, queue, s1) = reclaimExpiredLeases (claimedAttemptCommands s)
             (attemptCommands s) (attemptEligible worker) s;
          (date, s2) = now (s1\<lparr>claimedAttemptCommands := claimed, attemptCommands := queue\<rparr>)
      in case claimQueued (attemptCommands s2)
               (\<lambda>queued. due_at date queued \<and> attemptEligible worker (qi_payload queued))
               (Some (compareAttemptCommands (rt_host s2))) of
           (None, _) \<Rightarrow> (None, s2)
         | (Some item, rest) \<Rightarrow>
             (let (token, s3) = fresh_id ''attempt-claim-lease'' (s2\<lparr>attemptCommands := rest\<rparr>);
                  (t, s4) = now s3;
                  claim = \<lparr>claim_id = qi_id item, claim_command = qi_payload item, claim_leaseToken = token\<rparr>
              in (Some claim,
                  s4\<lparr>claimedAttemptCommands := map_set (claim_id claim)
                       \<lparr>ci_item = item, ci_leaseToken = token, ci_leaseExpiresAt = t + ew_leaseMs worker\<rparr>
                       (claimedAttemptCommands s4)\<rparr>)))"

definition heartbeat :: "AttemptCommand Claim \<Rightarrow> int option \<Rightarrow> RuntimeRunStatus op" where
  "heartbeat attempt leaseMs s =
     (case map_get (claimedAttemptCommands s) (claim_id attempt) of
        None \<Rightarrow> throw ''Workflow attempt heartbeat lease lost'' s
      | Some claimed \<Rightarrow>
          if \<not> matchesClaim (Some claimed) attempt
          then throw ''Workflow attempt heartbeat lease lost'' s
          else (let (t, s1) = now s;
                    s2 = s1\<lparr>claimedAttemptCommands := map_set (claim_id attempt)
                           (claimed\<lparr>ci_leaseExpiresAt := t + (case leaseMs of None \<Rightarrow> DEFAULT_LEASE_MS | Some l \<Rightarrow> l)\<rparr>)
                           (claimedAttemptCommands s1)\<rparr>
                in (Inr (case map_get (runs s2) (cmd_runId (claim_command attempt)) of
                           None \<Rightarrow> RQueued | Some run \<Rightarrow> run_status run), s2)))"

definition ackAttempt :: "AttemptCommand Claim \<Rightarrow> unit op" where
  "ackAttempt attempt s =
     (if \<not> matchesClaim (map_get (claimedAttemptCommands s) (claim_id attempt)) attempt
      then throw ''Stale workflow command ack'' s
      else (Inr (), s\<lparr>claimedAttemptCommands := map_delete (claim_id attempt) (claimedAttemptCommands s)\<rparr>))"

definition releaseAttempt ::
  "AttemptCommand Claim \<Rightarrow> CommandReleaseOptions \<Rightarrow> runtime \<Rightarrow> runtime" where
  "releaseAttempt attempt options s =
     (case map_get (claimedAttemptCommands s) (claim_id attempt) of
        None \<Rightarrow> s
      | Some claimed \<Rightarrow>
          if \<not> matchesClaim (Some claimed) attempt then s
          else (let s1 = s\<lparr>claimedAttemptCommands := map_delete (claim_id attempt) (claimedAttemptCommands s)\<rparr>;
                    (item, s2) = releaseQueueItem (ci_item claimed) options s1
                in s2\<lparr>attemptCommands := attemptCommands s2 @ [item]\<rparr>))"

definition deleteUnclaimed :: "string \<Rightarrow> runtime \<Rightarrow> nat \<times> runtime" where
  "deleteUnclaimed runId s =
     (length (filter (\<lambda>item. cmd_runId (qi_payload item) = runId) (attemptCommands s)),
      s\<lparr>attemptCommands := filter (\<lambda>item. cmd_runId (qi_payload item) \<noteq> runId) (attemptCommands s)\<rparr>)"

section \<open>Dead commands\<close>

datatype command_payload = ContinuePayload ContinueRunCommand | AttemptPayload AttemptCommand

datatype dead_kind = DeadContinue | DeadActivity | DeadTask

record DeadWorkflowCommand =
  dc_id :: string
  dc_kind :: dead_kind
  dc_runId :: string
  dc_workflowName :: string
  dc_taskName :: "string option"
  dc_activityName :: "string option"
  dc_nodeName :: "string option"
  dc_attemptId :: "string option"
  dc_payload :: command_payload
  dc_deliveryCount :: nat
  dc_lastError :: "jsval option"
  dc_deadAt :: int
  dc_createdAt :: int

definition mapDeadContinue :: "ContinueRunCommand QueueItem \<Rightarrow> DeadWorkflowCommand option" where
  "mapDeadContinue item =
     (case qi_deadAt item of
        None \<Rightarrow> None
      | Some deadAt \<Rightarrow>
          Some \<lparr>dc_id = qi_id item, dc_kind = DeadContinue, dc_runId = cont_runId (qi_payload item),
                dc_workflowName = cont_workflowName (qi_payload item), dc_taskName = None,
                dc_activityName = None, dc_nodeName = None, dc_attemptId = None,
                dc_payload = ContinuePayload (qi_payload item), dc_deliveryCount = qi_deliveryCount item,
                dc_lastError = qi_lastError item, dc_deadAt = deadAt, dc_createdAt = qi_createdAt item\<rparr>)"

definition mapDeadAttempt :: "AttemptCommand QueueItem \<Rightarrow> DeadWorkflowCommand option" where
  "mapDeadAttempt item =
     (case qi_deadAt item of
        None \<Rightarrow> None
      | Some deadAt \<Rightarrow>
          (let c = qi_payload item in
           Some \<lparr>dc_id = qi_id item,
                 dc_kind = (case c of ActivityAttempt _ _ _ _ _ _ _ _ _ \<Rightarrow> DeadActivity
                            | TaskAttempt _ _ _ _ _ _ _ _ _ _ \<Rightarrow> DeadTask),
                 dc_runId = cmd_runId c, dc_workflowName = cmd_workflowName c,
                 dc_taskName = (case c of TaskAttempt _ n _ _ _ _ _ _ _ _ \<Rightarrow> Some n
                                | ActivityAttempt _ _ _ _ _ _ _ _ _ \<Rightarrow> None),
                 dc_activityName = (case c of ActivityAttempt _ n _ _ _ _ _ _ _ \<Rightarrow> Some n
                                    | TaskAttempt _ _ _ _ _ _ _ _ _ _ \<Rightarrow> None),
                 dc_nodeName = Some (cmd_nodeName c), dc_attemptId = Some (cmd_attemptId c),
                 dc_payload = AttemptPayload c, dc_deliveryCount = qi_deliveryCount item,
                 dc_lastError = qi_lastError item, dc_deadAt = deadAt, dc_createdAt = qi_createdAt item\<rparr>))"

definition compareDeadNewest :: "host \<Rightarrow> DeadWorkflowCommand \<Rightarrow> DeadWorkflowCommand \<Rightarrow> int" where
  "compareDeadNewest h =
     compare_then (\<lambda>left right. dc_deadAt right - dc_deadAt left)
       (compare_then (\<lambda>left right. dc_createdAt right - dc_createdAt left)
          (\<lambda>left right. localeCompare h (dc_id left) (dc_id right)))"

definition listDeadCommands :: "string option \<Rightarrow> runtime \<Rightarrow> DeadWorkflowCommand list" where
  "listDeadCommands runId s =
     sort_by (compareDeadNewest (rt_host s))
       (filter (\<lambda>command. case runId of None \<Rightarrow> True | Some r \<Rightarrow> dc_runId command = r)
          (List.map_filter mapDeadContinue (continueRunCommands s)
           @ List.map_filter mapDeadAttempt (attemptCommands s)))"

definition compareDeadOldest :: "DeadWorkflowCommand \<Rightarrow> DeadWorkflowCommand \<Rightarrow> int" where
  "compareDeadOldest left right = dc_deadAt left - dc_deadAt right"

text \<open>\<open>slice(0, limit)\<close>: a negative limit counts from the end.\<close>

definition js_prefix :: "int option \<Rightarrow> 'a list \<Rightarrow> 'a list" where
  "js_prefix limit xs =
     (case limit of None \<Rightarrow> xs
      | Some l \<Rightarrow> take (nat (if l < 0 then int (length xs) + l else l)) xs)"

definition unreaped :: "'c QueueItem \<Rightarrow> bool" where
  "unreaped item \<longleftrightarrow> qi_deadAt item \<noteq> None \<and> qi_reapedAt item = None"

definition listUnreapedDeadCommands :: "int option \<Rightarrow> runtime \<Rightarrow> DeadWorkflowCommand list" where
  "listUnreapedDeadCommands limit s =
     js_prefix limit
       (sort_by compareDeadOldest
          (List.map_filter mapDeadContinue (filter unreaped (continueRunCommands s))
           @ List.map_filter mapDeadAttempt (filter unreaped (attemptCommands s))))"

definition mark_reaped :: "string \<Rightarrow> 'c QueueItem list \<Rightarrow> runtime \<Rightarrow> ('c QueueItem list \<times> runtime) option" where
  "mark_reaped commandId queue s =
     (case find_index (\<lambda>item. qi_id item = commandId \<and> unreaped item) queue of
        None \<Rightarrow> None
      | Some index \<Rightarrow>
          (let (t, s1) = now s in Some (queue[index := (queue ! index)\<lparr>qi_reapedAt := Some t\<rparr>], s1)))"

definition markDeadCommandReaped :: "string \<Rightarrow> runtime \<Rightarrow> runtime" where
  "markDeadCommandReaped commandId s =
     (case mark_reaped commandId (continueRunCommands s) s of
        Some (queue, s1) \<Rightarrow> s1\<lparr>continueRunCommands := queue\<rparr>
      | None \<Rightarrow>
          (case mark_reaped commandId (attemptCommands s) s of
             Some (queue, s1) \<Rightarrow> s1\<lparr>attemptCommands := queue\<rparr>
           | None \<Rightarrow> s))"

definition requeueDead :: "'c QueueItem list \<Rightarrow> string \<Rightarrow> 'c QueueItem list option" where
  "requeueDead queue commandId =
     (case find_index (\<lambda>item. qi_id item = commandId \<and> qi_deadAt item \<noteq> None) queue of
        None \<Rightarrow> None
      | Some index \<Rightarrow>
          (let item = queue ! index in
           Some (queue[index := \<lparr>qi_id = qi_id item, qi_payload = qi_payload item, qi_runAt = None,
                                 qi_deliveryCount = 0, qi_lastError = None, qi_deadAt = None,
                                 qi_reapedAt = None, qi_createdAt = qi_createdAt item\<rparr>])))"

definition requeueDeadCommand :: "string \<Rightarrow> runtime \<Rightarrow> runtime" where
  "requeueDeadCommand commandId s =
     (case requeueDead (continueRunCommands s) commandId of
        Some queue \<Rightarrow> s\<lparr>continueRunCommands := queue\<rparr>
      | None \<Rightarrow>
          (case requeueDead (attemptCommands s) commandId of
             Some queue \<Rightarrow> s\<lparr>attemptCommands := queue\<rparr>
           | None \<Rightarrow> s))"

interpretation dead_order: comparator compareDeadOldest
  by unfold_locales (auto simp: compareDeadOldest_def)

end
