(* ===== verification/Deletion.thy ===== *)
theory Deletion
  imports Queues
begin

text \<open>
  Retention in \<open>runtime/in-memory.ts\<close>: the closure loops that collect the descendants of
  root runs, the cascade that removes a family from every map and queue, the sweep of old
  dead commands, \<open>pruneTerminalRuns\<close> and \<open>deleteRun\<close>.
\<close>

section \<open>Collecting a family\<close>

text \<open>
  Both closure loops have one shape: pass over the runs in order, adding a run when one
  of its predecessors (its parent; for \<open>collectRunDescendantIds\<close> also its root) is in
  the set, until a pass adds nothing.
\<close>

definition closure_pass :: "(StoredRun \<Rightarrow> string list) \<Rightarrow> StoredRun list \<Rightarrow> string list \<Rightarrow> string list" where
  "closure_pass preds rs ids =
     fold (\<lambda>run acc. if list_ex (\<lambda>p. p \<in> set acc) (preds run) then set_add (run_id run) acc else acc) rs ids"

text \<open>The invariants of one pass: it only adds identifiers of runs, in order, without duplicates.\<close>

lemma closure_pass_mono: "set ids \<subseteq> set (closure_pass preds rs ids)"
  unfolding closure_pass_def by (induction rs arbitrary: ids) (auto simp: subset_iff)

lemma closure_pass_subset: "set (closure_pass preds rs ids) \<subseteq> set ids \<union> run_id ` set rs"
  unfolding closure_pass_def
proof (induction rs arbitrary: ids)
  case Nil
  show ?case by simp
next
  case (Cons r rs)
  show ?case
    using Cons[of "if list_ex (\<lambda>p. p \<in> set ids) (preds r) then set_add (run_id r) ids else ids"]
    by (auto split: if_splits)
qed

lemma closure_pass_distinct: "distinct ids \<Longrightarrow> distinct (closure_pass preds rs ids)"
  unfolding closure_pass_def by (induction rs arbitrary: ids) auto

lemma closure_pass_length: "length ids \<le> length (closure_pass preds rs ids)"
  unfolding closure_pass_def
proof (induction rs arbitrary: ids)
  case Nil
  show ?case by simp
next
  case (Cons r rs)
  have "length ids \<le> length (if list_ex (\<lambda>p. p \<in> set ids) (preds r) then set_add (run_id r) ids else ids)"
    by (simp add: set_add_def)
  also have "\<dots> \<le> length (fold (\<lambda>run acc. if list_ex (\<lambda>p. p \<in> set acc) (preds run)
      then set_add (run_id run) acc else acc) rs
      (if list_ex (\<lambda>p. p \<in> set ids) (preds r) then set_add (run_id r) ids else ids))"
    by (rule Cons)
  finally show ?case by simp
qed

lemma closure_pass_same_length:
  "length (closure_pass preds rs ids) = length ids \<Longrightarrow> closure_pass preds rs ids = ids"
  unfolding closure_pass_def
proof (induction rs arbitrary: ids)
  case Nil
  show ?case by simp
next
  case (Cons r rs)
  let ?ids = "if list_ex (\<lambda>p. p \<in> set ids) (preds r) then set_add (run_id r) ids else ids"
  have "length ids \<le> length ?ids" by (simp add: set_add_def)
  moreover have "length ?ids \<le> length (closure_pass preds rs ?ids)"
    by (rule closure_pass_length)
  ultimately have "length ?ids = length ids"
    using Cons.prems by (simp add: closure_pass_def)
  then have "?ids = ids" by (auto simp: set_add_def split: if_splits)
  with Cons show ?case by simp
qed

lemma closure_pass_grows:
  assumes "length (closure_pass preds rs ids) \<noteq> length ids"
  shows "\<exists>i \<in> set (closure_pass preds rs ids). i \<notin> set ids"
  using assms unfolding closure_pass_def
proof (induction rs arbitrary: ids)
  case Nil
  then show ?case by simp
next
  case (Cons r rs)
  show ?case
  proof (cases "list_ex (\<lambda>p. p \<in> set ids) (preds r) \<and> run_id r \<notin> set ids")
    case True
    have "set (set_add (run_id r) ids) \<subseteq> set (closure_pass preds rs (set_add (run_id r) ids))"
      by (rule closure_pass_mono)
    with True show ?thesis by (auto simp: closure_pass_def)
  next
    case False
    then have "(if list_ex (\<lambda>p. p \<in> set ids) (preds r) then set_add (run_id r) ids else ids) = ids"
      by (simp add: set_add_def)
    with Cons show ?thesis by simp
  qed
qed

function closure_loop :: "(StoredRun \<Rightarrow> string list) \<Rightarrow> StoredRun list \<Rightarrow> string list \<Rightarrow> string list" where
  "closure_loop preds rs ids =
     (let ids' = closure_pass preds rs ids
      in if length ids' = length ids then ids' else closure_loop preds rs ids')"
  by pat_completeness auto
termination
proof (relation "measure (\<lambda>(preds, rs, ids). card (run_id ` set rs - set ids))")
  fix preds :: "StoredRun \<Rightarrow> string list" and rs ids ids'
  assume ids': "ids' = closure_pass preds rs ids" and "length ids' \<noteq> length ids"
  then obtain i where i: "i \<in> set ids'" "i \<notin> set ids"
    using closure_pass_grows[of preds rs ids] by auto
  with ids' have "i \<in> run_id ` set rs - set ids"
    using closure_pass_subset[of preds rs ids] by blast
  moreover have "run_id ` set rs - set ids' \<subseteq> run_id ` set rs - set ids"
    using closure_pass_mono[of ids preds rs] ids' by blast
  ultimately have "run_id ` set rs - set ids' \<subset> run_id ` set rs - set ids"
    using i by blast
  then show "((preds, rs, ids'), (preds, rs, ids))
      \<in> measure (\<lambda>(preds, rs, ids). card (run_id ` set rs - set ids))"
    by (simp add: psubset_card_mono)
qed simp

declare closure_loop.simps [simp del]

definition treePreds :: "StoredRun \<Rightarrow> string list" where
  "treePreds run = (case truthy (run_parentRunId run) of None \<Rightarrow> [] | Some p \<Rightarrow> [p])"

definition collectRunTreeIds :: "string list \<Rightarrow> runtime \<Rightarrow> string list" where
  "collectRunTreeIds rootIds s = closure_loop treePreds (map_values (runs s)) (js_set_of rootIds)"

definition descendantPreds :: "StoredRun \<Rightarrow> string list" where
  "descendantPreds run =
     (case run_parentRunId run of None \<Rightarrow> [] | Some p \<Rightarrow> [p]) @ [run_rootRunId run]"

definition collectRunDescendantIds :: "string \<Rightarrow> runtime \<Rightarrow> string list" where
  "collectRunDescendantIds rootId s = closure_loop descendantPreds (map_values (runs s)) [rootId]"

section \<open>Deleting a family\<close>

definition deleteQueueItemsForRunIds ::
  "('c \<Rightarrow> string) \<Rightarrow> 'c QueueItem list \<Rightarrow> string list \<Rightarrow> 'c QueueItem list" where
  "deleteQueueItemsForRunIds runId queue runIds =
     filter (\<lambda>item. runId (qi_payload item) \<notin> set runIds) queue"

definition deleteClaimedCommandsForRunIds ::
  "('c \<Rightarrow> string) \<Rightarrow> (string \<times> 'c ClaimedQueueItem) list \<Rightarrow> string list
    \<Rightarrow> (string \<times> 'c ClaimedQueueItem) list" where
  "deleteClaimedCommandsForRunIds runId queue runIds =
     map_remove_where (\<lambda>commandId item. runId (qi_payload (ci_item item)) \<in> set runIds) queue"

definition deleteRunTrees :: "string list \<Rightarrow> runtime \<Rightarrow> runtime" where
  "deleteRunTrees treeIds s =
     (if treeIds = [] then s
      else s\<lparr>runs := map_remove_where (\<lambda>runId _. runId \<in> set treeIds) (runs s),
             runLeases := map_remove_where (\<lambda>runId _. runId \<in> set treeIds) (runLeases s),
             runIdempotencyKeys := map_remove_where (\<lambda>_ runId. runId \<in> set treeIds) (runIdempotencyKeys s),
             activeUniqueRunKeys := map_remove_where (\<lambda>_ runId. runId \<in> set treeIds) (activeUniqueRunKeys s),
             allUniqueRunKeys := map_remove_where (\<lambda>_ runId. runId \<in> set treeIds) (allUniqueRunKeys s),
             nodes := map_remove_where (\<lambda>_ node. node_runId node \<in> set treeIds) (nodes s),
             attempts := map_remove_where (\<lambda>_ attempt. attempt_runId attempt \<in> set treeIds) (attempts s),
             children := map_remove_where
               (\<lambda>_ child. child_runId child \<in> set treeIds
                          \<or> (case child_childRunId child of None \<Rightarrow> False | Some r \<Rightarrow> r \<in> set treeIds))
               (children s),
             continueRunCommands := deleteQueueItemsForRunIds cont_runId (continueRunCommands s) treeIds,
             attemptCommands := deleteQueueItemsForRunIds cmd_runId (attemptCommands s) treeIds,
             claimedContinueRunCommands :=
               deleteClaimedCommandsForRunIds cont_runId (claimedContinueRunCommands s) treeIds,
             claimedAttemptCommands :=
               deleteClaimedCommandsForRunIds cmd_runId (claimedAttemptCommands s) treeIds\<rparr>)"

definition sweepDeadQueueItems :: "'c QueueItem list \<Rightarrow> int \<Rightarrow> 'c QueueItem list" where
  "sweepDeadQueueItems queue deadBefore =
     filter (\<lambda>item. case qi_deadAt item of None \<Rightarrow> True | Some t \<Rightarrow> \<not> t < deadBefore) queue"

definition sweepDeadCommands :: "int \<Rightarrow> runtime \<Rightarrow> runtime" where
  "sweepDeadCommands deadBefore s =
     s\<lparr>continueRunCommands := sweepDeadQueueItems (continueRunCommands s) deadBefore,
       attemptCommands := sweepDeadQueueItems (attemptCommands s) deadBefore\<rparr>"

section \<open>The store operations\<close>

definition DEFAULT_PRUNE_BATCH_SIZE :: int where
  "DEFAULT_PRUNE_BATCH_SIZE = 100"

definition DEFAULT_PRUNE_STATUSES :: "RuntimeRunStatus list" where
  "DEFAULT_PRUNE_STATUSES = [RCompleted, RCancelled, RFailed]"

definition normalizePruneBatchSize :: "jsnum option \<Rightarrow> int" where
  "normalizePruneBatchSize batchSize =
     (case batchSize of
        None \<Rightarrow> DEFAULT_PRUNE_BATCH_SIZE
      | Some n \<Rightarrow> if \<not> isInteger n \<or> num_value n < 1 then 0 else \<lfloor>num_value n\<rfloor>)"

definition normalizePruneStatuses :: "RuntimeRunStatus list option \<Rightarrow> RuntimeRunStatus list" where
  "normalizePruneStatuses statuses =
     js_set_of (filter (\<lambda>status. status \<in> set DEFAULT_PRUNE_STATUSES)
       (case statuses of None \<Rightarrow> DEFAULT_PRUNE_STATUSES | Some sts \<Rightarrow> sts))"

definition compareRunsUpdated :: "host \<Rightarrow> StoredRun \<Rightarrow> StoredRun \<Rightarrow> int" where
  "compareRunsUpdated h =
     compare_then (\<lambda>left right. run_updatedAt left - run_updatedAt right)
       (\<lambda>left right. localeCompare h (run_id left) (run_id right))"

definition prunableRoots :: "int \<Rightarrow> RuntimeRunStatus list \<Rightarrow> int \<Rightarrow> runtime \<Rightarrow> StoredRun list" where
  "prunableRoots olderThan statuses batchSize s =
     take (nat batchSize)
       (sort_by (compareRunsUpdated (rt_host s))
          (filter (\<lambda>run. run_parentRunId run = None \<and> run_status run \<in> set statuses
                       \<and> run_updatedAt run < olderThan) (map_values (runs s))))"

definition pruneTerminalRuns ::
  "int \<Rightarrow> RuntimeRunStatus list option \<Rightarrow> jsnum option \<Rightarrow> runtime \<Rightarrow> nat \<times> runtime" where
  "pruneTerminalRuns olderThan opt_statuses opt_batchSize s =
     (let batchSize = normalizePruneBatchSize opt_batchSize;
          statuses = normalizePruneStatuses opt_statuses
      in if batchSize < 1 \<or> statuses = [] then (0, sweepDeadCommands olderThan s)
         else (let roots = prunableRoots olderThan statuses batchSize s;
                   treeIds = collectRunTreeIds (map run_id roots) s
               in (length roots, sweepDeadCommands olderThan (deleteRunTrees treeIds s))))"

definition deleteRun :: "string \<Rightarrow> bool op" where
  "deleteRun runId s =
     (case map_get (runs s) runId of
        None \<Rightarrow> (Inr False, s)
      | Some run \<Rightarrow>
          if run_parentRunId run \<noteq> None then throw (''Run ['' @ runId @ ''] is not a root run'') s
          else (let familyRunIds = collectRunDescendantIds runId s in
                if list_ex (\<lambda>familyRunId. case map_get (runs s) familyRunId of
                                             None \<Rightarrow> True
                                           | Some familyRun \<Rightarrow> \<not> isTerminalRunStatus (run_status familyRun))
                     familyRunIds
                then throw (''Run ['' @ runId @ ''] has non-terminal runs'') s
                else (Inr True, deleteRunTrees familyRunIds s)))"

section \<open>The closure is exactly reachability\<close>

definition pred_edges :: "(StoredRun \<Rightarrow> string list) \<Rightarrow> StoredRun list \<Rightarrow> (string \<times> string) set" where
  "pred_edges preds rs = {(p, run_id r) | p r. r \<in> set rs \<and> p \<in> set (preds r)}"

lemma closure_pass_sound:
  "set (closure_pass preds rs ids) \<subseteq> (pred_edges preds rs)\<^sup>* `` set ids"
proof -
  have "set rs \<subseteq> set all \<Longrightarrow> set (closure_pass preds rs ids) \<subseteq> (pred_edges preds all)\<^sup>* `` set ids" for all
    unfolding closure_pass_def
  proof (induction rs arbitrary: ids)
    case Nil
    show ?case by auto
  next
    case (Cons r rs)
    let ?ids = "if list_ex (\<lambda>p. p \<in> set ids) (preds r) then set_add (run_id r) ids else ids"
    have edge: "(p, run_id r) \<in> (pred_edges preds all)\<^sup>*" if "p \<in> set (preds r)" for p
      using that Cons.prems by (auto simp: pred_edges_def)
    have "set ?ids \<subseteq> (pred_edges preds all)\<^sup>* `` set ids"
      using edge by (auto simp: list_ex_iff)
    then have "(pred_edges preds all)\<^sup>* `` set ?ids \<subseteq> (pred_edges preds all)\<^sup>* `` set ids"
      by (meson Image_closed_trancl Image_mono ImageE rtrancl_trans subset_iff ImageI order_refl)
    with Cons.IH[of ?ids] Cons.prems show ?case by fastforce
  qed
  from this[of rs] show ?thesis by simp
qed

lemma closure_pass_fixpoint:
  assumes "closure_pass preds rs ids = ids" and "r \<in> set rs" and "p \<in> set (preds r)" and "p \<in> set ids"
  shows "run_id r \<in> set ids"
proof -
  have "r \<in> set rs \<Longrightarrow> p \<in> set acc \<Longrightarrow> run_id r \<in> set (closure_pass preds rs acc)" for acc
    unfolding closure_pass_def
  proof (induction rs arbitrary: acc)
    case Nil
    then show ?case by simp
  next
    case (Cons x rs)
    let ?acc = "if list_ex (\<lambda>p. p \<in> set acc) (preds x) then set_add (run_id x) acc else acc"
    show ?case
    proof (cases "x = r")
      case True
      with Cons.prems assms(3) have "run_id r \<in> set ?acc" by (auto simp: list_ex_iff)
      then have "run_id r \<in> set (closure_pass preds rs ?acc)"
        using closure_pass_mono by blast
      then show ?thesis by (simp add: closure_pass_def)
    next
      case False
      with Cons show ?thesis by auto
    qed
  qed
  with assms show ?thesis by metis
qed

lemma closure_loop_reaches:
  "set (closure_loop preds rs ids) = (pred_edges preds rs)\<^sup>* `` set ids"
proof (induction preds rs ids rule: closure_loop.induct)
  case (1 preds rs ids)
  let ?ids = "closure_pass preds rs ids"
  show ?case
  proof (cases "length ?ids = length ids")
    case True
    then have fixed: "?ids = ids" by (rule closure_pass_same_length)
    have "j \<in> set ids" if "(i, j) \<in> (pred_edges preds rs)\<^sup>*" "i \<in> set ids" for i j
      using that
      by (induction rule: rtrancl_induct)
         (auto simp: pred_edges_def intro: closure_pass_fixpoint[OF fixed])
    with True fixed show ?thesis by (subst closure_loop.simps) (auto simp: Let_def)
  next
    case False
    then have "set (closure_loop preds rs ids) = (pred_edges preds rs)\<^sup>* `` set ?ids"
      using "1.IH"[OF refl] by (subst closure_loop.simps) (simp add: Let_def)
    also have "\<dots> = (pred_edges preds rs)\<^sup>* `` set ids"
    proof (rule subset_antisym)
      show "(pred_edges preds rs)\<^sup>* `` set ?ids \<subseteq> (pred_edges preds rs)\<^sup>* `` set ids"
        using closure_pass_sound[of preds rs ids] by (meson ImageE ImageI rtrancl_trans subset_iff)
      show "(pred_edges preds rs)\<^sup>* `` set ids \<subseteq> (pred_edges preds rs)\<^sup>* `` set ?ids"
        using closure_pass_mono[of ids preds rs] by (rule Image_mono[OF order_refl])
    qed
    finally show ?thesis .
  qed
qed

lemma set_js_set_of [simp]: "set (js_set_of xs) = set xs"
proof -
  have "set (fold set_add xs acc) = set xs \<union> set acc" for acc
    by (induction xs arbitrary: acc) auto
  then show ?thesis by (simp add: js_set_of_def)
qed

lemma distinct_js_set_of [simp]: "distinct (js_set_of xs)"
proof -
  have "distinct acc \<Longrightarrow> distinct (fold set_add xs acc)" for acc
    by (induction xs arbitrary: acc) auto
  then show ?thesis by (simp add: js_set_of_def)
qed

end
