(* ===== verification/Frames.thy ===== *)
theory Frames
  imports Deletion
begin

text \<open>
  What an operation leaves alone. The state is split into three views - the rows of the
  runs with their indexes, the rows of nodes, children and attempts, and the command
  queues - and every operation is shown to keep the views of the other components
  and to move the clock and the identifier counter only forward.
\<close>

definition run_view where
  "run_view s = (rt_host s, runs s, runIdempotencyKeys s, activeUniqueRunKeys s, allUniqueRunKeys s)"

definition node_view where
  "node_view s = (nodes s, children s, attempts s)"

definition queue_view where
  "queue_view s = (continueRunCommands s, attemptCommands s, claimedContinueRunCommands s,
                   claimedAttemptCommands s)"

definition later :: "runtime \<Rightarrow> runtime \<Rightarrow> bool" where
  "later s s' \<longleftrightarrow> nextId s \<le> nextId s' \<and> lastTimestamp s \<le> lastTimestamp s'
     \<and> rt_host s' = rt_host s \<and> maxDeliveries s' = maxDeliveries s"

lemma later_refl [simp, intro]: "later s s"
  by (simp add: later_def)

lemma later_trans [trans]: "later s t \<Longrightarrow> later t u \<Longrightarrow> later s u"
  by (auto simp: later_def)

lemma le_max_succ [simp]: "(t::int) \<le> max c (t + 1)"
  by simp

lemmas view_defs = run_view_def node_view_def queue_view_def later_def

lemmas effect_simps = wake_defs now_eq Date_now_def fresh_id_def Let_def
  releaseActiveUniqueKey_def

text \<open>
  The primitive effects, as rewriting rules: what reads a field through a clock reading,
  an identifier, a wake or an update of another field reads the field itself.
\<close>

lemma now_fields [simp]:
  "rt_host (snd (now s)) = rt_host s" "nextId (snd (now s)) = nextId s"
  "maxDeliveries (snd (now s)) = maxDeliveries s" "runs (snd (now s)) = runs s"
  "nodes (snd (now s)) = nodes s" "attempts (snd (now s)) = attempts s"
  "children (snd (now s)) = children s" "runIdempotencyKeys (snd (now s)) = runIdempotencyKeys s"
  "activeUniqueRunKeys (snd (now s)) = activeUniqueRunKeys s"
  "allUniqueRunKeys (snd (now s)) = allUniqueRunKeys s" "runLeases (snd (now s)) = runLeases s"
  "continueRunCommands (snd (now s)) = continueRunCommands s"
  "attemptCommands (snd (now s)) = attemptCommands s"
  "claimedContinueRunCommands (snd (now s)) = claimedContinueRunCommands s"
  "claimedAttemptCommands (snd (now s)) = claimedAttemptCommands s"
  "schedules (snd (now s)) = schedules s"
  "lastTimestamp (snd (now s)) = fst (now s)"
  by (simp_all add: now_eq)

lemma fresh_id_fields [simp]:
  "rt_host (snd (fresh_id p s)) = rt_host s" "nextId (snd (fresh_id p s)) = Suc (nextId s)"
  "maxDeliveries (snd (fresh_id p s)) = maxDeliveries s" "runs (snd (fresh_id p s)) = runs s"
  "nodes (snd (fresh_id p s)) = nodes s" "attempts (snd (fresh_id p s)) = attempts s"
  "children (snd (fresh_id p s)) = children s"
  "runIdempotencyKeys (snd (fresh_id p s)) = runIdempotencyKeys s"
  "activeUniqueRunKeys (snd (fresh_id p s)) = activeUniqueRunKeys s"
  "allUniqueRunKeys (snd (fresh_id p s)) = allUniqueRunKeys s"
  "runLeases (snd (fresh_id p s)) = runLeases s"
  "continueRunCommands (snd (fresh_id p s)) = continueRunCommands s"
  "attemptCommands (snd (fresh_id p s)) = attemptCommands s"
  "claimedContinueRunCommands (snd (fresh_id p s)) = claimedContinueRunCommands s"
  "claimedAttemptCommands (snd (fresh_id p s)) = claimedAttemptCommands s"
  "schedules (snd (fresh_id p s)) = schedules s"
  "lastTimestamp (snd (fresh_id p s)) = lastTimestamp s"
  "fst (fresh_id p s) = mk_id p (nextId s)"
  by (simp_all add: fresh_id_def)

lemma now_advances [simp]: "lastTimestamp s < fst (now s)"
  by (simp add: now_eq)

definition quiet :: "(runtime \<Rightarrow> runtime) \<Rightarrow> bool" where
  "quiet f \<longleftrightarrow> (\<forall>s. \<exists>l. f s = s\<lparr>fired := l\<rparr>)"

lemma quiet_if: "quiet f \<Longrightarrow> quiet (\<lambda>s. if b s then s else f s)"
proof -
  assume f: "quiet f"
  have "\<exists>l. s = s\<lparr>fired := l\<rparr>" for s :: runtime
    by (rule exI[of _ "fired s"]) simp
  with f show "quiet (\<lambda>s. if b s then s else f s)" by (simp add: quiet_def)
qed

lemma quiet_fireWake: "quiet (\<lambda>s. fireWake (ls s) s)"
  by (auto simp: quiet_def wake_defs)

lemma quiet_emits [simp]:
  "quiet (fireWake ls)" "quiet (emitRunStatusEvent r)" "quiet (emitNodeStatusEvent n n')"
  "quiet (emitChildStatusEvent c c')" "quiet (emitAttemptStatusEvent a a')"
  unfolding emitRunStatusEvent_def[abs_def] emitNodeStatusEvent_def[abs_def] emitChildStatusEvent_def[abs_def]
    emitAttemptStatusEvent_def[abs_def] fireRunEventWake_def
  by (intro quiet_if quiet_fireWake)+

lemma quiet_fields:
  assumes "quiet f"
  shows "rt_host (f s) = rt_host s" "nextId (f s) = nextId s" "maxDeliveries (f s) = maxDeliveries s"
    "runs (f s) = runs s" "nodes (f s) = nodes s" "attempts (f s) = attempts s"
    "children (f s) = children s" "runIdempotencyKeys (f s) = runIdempotencyKeys s"
    "activeUniqueRunKeys (f s) = activeUniqueRunKeys s" "allUniqueRunKeys (f s) = allUniqueRunKeys s"
    "runLeases (f s) = runLeases s" "continueRunCommands (f s) = continueRunCommands s"
    "attemptCommands (f s) = attemptCommands s"
    "claimedContinueRunCommands (f s) = claimedContinueRunCommands s"
    "claimedAttemptCommands (f s) = claimedAttemptCommands s" "schedules (f s) = schedules s"
    "lastTimestamp (f s) = lastTimestamp s"
proof -
  obtain l where "f s = s\<lparr>fired := l\<rparr>" using assms by (auto simp: quiet_def)
  then show "rt_host (f s) = rt_host s" "nextId (f s) = nextId s" "maxDeliveries (f s) = maxDeliveries s"
    "runs (f s) = runs s" "nodes (f s) = nodes s" "attempts (f s) = attempts s"
    "children (f s) = children s" "runIdempotencyKeys (f s) = runIdempotencyKeys s"
    "activeUniqueRunKeys (f s) = activeUniqueRunKeys s" "allUniqueRunKeys (f s) = allUniqueRunKeys s"
    "runLeases (f s) = runLeases s" "continueRunCommands (f s) = continueRunCommands s"
    "attemptCommands (f s) = attemptCommands s"
    "claimedContinueRunCommands (f s) = claimedContinueRunCommands s"
    "claimedAttemptCommands (f s) = claimedAttemptCommands s" "schedules (f s) = schedules s"
    "lastTimestamp (f s) = lastTimestamp s"
    by simp_all
qed

lemmas emit_fields [simp] =
  quiet_fields[OF quiet_emits(1)] quiet_fields[OF quiet_emits(2)] quiet_fields[OF quiet_emits(3)]
  quiet_fields[OF quiet_emits(4)] quiet_fields[OF quiet_emits(5)]

lemma later_now: "later s t \<Longrightarrow> later s (snd (now t))"
  using now_advances[of t] by (auto simp: later_def simp del: now_advances)

lemma later_fresh: "later s t \<Longrightarrow> later s (snd (fresh_id p t))"
  by (auto simp: later_def)

lemma later_quiet: "quiet f \<Longrightarrow> later s t \<Longrightarrow> later s (f t)"
  by (simp add: later_def quiet_fields)

lemma later_update [simp]:
  "later s (t\<lparr>runs := x1\<rparr>) = later s t" "later s (t\<lparr>nodes := x2\<rparr>) = later s t"
  "later s (t\<lparr>attempts := x3\<rparr>) = later s t" "later s (t\<lparr>children := x4\<rparr>) = later s t"
  "later s (t\<lparr>continueRunCommands := x5\<rparr>) = later s t"
  "later s (t\<lparr>attemptCommands := x6\<rparr>) = later s t"
  "later s (t\<lparr>claimedContinueRunCommands := x7\<rparr>) = later s t"
  "later s (t\<lparr>claimedAttemptCommands := x8\<rparr>) = later s t"
  "later s (t\<lparr>schedules := x9\<rparr>) = later s t"
  by (simp_all add: later_def)

lemma view_now [simp]:
  "run_view (snd (now s)) = run_view s" "node_view (snd (now s)) = node_view s"
  "queue_view (snd (now s)) = queue_view s"
  by (simp_all add: view_defs)

lemma view_fresh_id [simp]:
  "run_view (snd (fresh_id p s)) = run_view s" "node_view (snd (fresh_id p s)) = node_view s"
  "queue_view (snd (fresh_id p s)) = queue_view s"
  by (simp_all add: view_defs)

lemma view_quiet:
  "quiet f \<Longrightarrow> run_view (f s) = run_view s" "quiet f \<Longrightarrow> node_view (f s) = node_view s"
  "quiet f \<Longrightarrow> queue_view (f s) = queue_view s"
  by (simp_all add: view_defs quiet_fields)

lemma view_update [simp]:
  "node_view (s\<lparr>runs := x1\<rparr>) = node_view s" "queue_view (s\<lparr>runs := x1\<rparr>) = queue_view s"
  "run_view (s\<lparr>nodes := x2\<rparr>) = run_view s" "queue_view (s\<lparr>nodes := x2\<rparr>) = queue_view s"
  "run_view (s\<lparr>children := x3\<rparr>) = run_view s" "queue_view (s\<lparr>children := x3\<rparr>) = queue_view s"
  "run_view (s\<lparr>attempts := x4\<rparr>) = run_view s" "queue_view (s\<lparr>attempts := x4\<rparr>) = queue_view s"
  "run_view (s\<lparr>continueRunCommands := x5\<rparr>) = run_view s"
  "node_view (s\<lparr>continueRunCommands := x5\<rparr>) = node_view s"
  "run_view (s\<lparr>attemptCommands := x6\<rparr>) = run_view s"
  "node_view (s\<lparr>attemptCommands := x6\<rparr>) = node_view s"
  "run_view (s\<lparr>claimedContinueRunCommands := x7\<rparr>) = run_view s"
  "node_view (s\<lparr>claimedContinueRunCommands := x7\<rparr>) = node_view s"
  "run_view (s\<lparr>claimedAttemptCommands := x8\<rparr>) = run_view s"
  "node_view (s\<lparr>claimedAttemptCommands := x8\<rparr>) = node_view s"
  by (simp_all add: view_defs)

lemmas prim_simps = Let_def case_prod_beta later_now later_fresh later_quiet view_quiet

text \<open>Operations on runs\<close>

lemma run_status_frames [frame_simps]:
  "node_view (snd (markRunRunning i s)) = node_view s"
  "node_view (snd (markRunWaiting i s)) = node_view s"
  "node_view (snd (completeRun i out s)) = node_view s"
  "node_view (snd (failRun i err s)) = node_view s"
  "node_view (snd (requestRunCancellation i s)) = node_view s"
  "node_view (snd (cancelRun i s)) = node_view s"
  "queue_view (snd (markRunRunning i s)) = queue_view s"
  "queue_view (snd (markRunWaiting i s)) = queue_view s"
  "queue_view (snd (completeRun i out s)) = queue_view s"
  "queue_view (snd (failRun i err s)) = queue_view s"
  "queue_view (snd (requestRunCancellation i s)) = queue_view s"
  "queue_view (snd (cancelRun i s)) = queue_view s"
  by (simp_all add: run_status_defs view_defs effect_simps split: option.split)

lemma run_status_later [frame_simps]:
  "later s (snd (markRunRunning i s))"
  "later s (snd (markRunWaiting i s))"
  "later s (snd (completeRun i out s))"
  "later s (snd (failRun i err s))"
  "later s (snd (requestRunCancellation i s))"
  "later s (snd (cancelRun i s))"
  by (simp_all add: run_status_defs view_defs effect_simps split: option.split)


lemma registerRun_frames:
  "node_view (registerRun i r s) = node_view s"
  "queue_view (registerRun i r s) = queue_view s"
  "later s t \<Longrightarrow> later s (registerRun i r t)"
  by (simp_all add: registerRun_def Let_def view_defs split: option.split RunUniqueScope.split)

lemma createRunWithState_frames [frame_simps]:
  "node_view (snd (createRunWithState i s)) = node_view s"
  "queue_view (snd (createRunWithState i s)) = queue_view s"
  "later s (snd (createRunWithState i s))"
  unfolding createRunWithState_def
  by (simp_all add: prim_simps registerRun_frames split: option.split RunUniqueBehavior.split)

lemma snd_createRun: "snd (createRun i s) = snd (createRunWithState i s)"
  by (simp add: createRun_def split: prod.split sum.split)

lemma run_lease_frames [frame_simps]:
  "run_view (snd (acquireRunLease i ms s)) = run_view s"
  "node_view (snd (acquireRunLease i ms s)) = node_view s"
  "queue_view (snd (acquireRunLease i ms s)) = queue_view s"
  "later s (snd (acquireRunLease i ms s))"
  "run_view (snd (renewRunLease l ms s)) = run_view s"
  "node_view (snd (renewRunLease l ms s)) = node_view s"
  "queue_view (snd (renewRunLease l ms s)) = queue_view s"
  "later s (snd (renewRunLease l ms s))"
  "run_view (releaseRunLease l s) = run_view s"
  "node_view (releaseRunLease l s) = node_view s"
  "queue_view (releaseRunLease l s) = queue_view s"
  "later s (releaseRunLease l s)"
  by (simp_all add: acquireRunLease_def renewRunLease_def releaseRunLease_def view_defs effect_simps
        split: option.split)

text \<open>Operations on nodes, children and attempts\<close>

lemma node_run_frames [frame_simps]:
  "run_view (snd (createNode i n k s)) = run_view s"
  "run_view (snd (setNodeInput i n v s)) = run_view s"
  "run_view (snd (selectNodeCase i n c s)) = run_view s"
  "run_view (snd (completeNode i n v s)) = run_view s"
  "run_view (snd (failNode i n e s)) = run_view s"
  "run_view (snd (cancelNode i n s)) = run_view s"
  "run_view (snd (waitNode i n s)) = run_view s"
  "run_view (snd (completeNodeChild i n c v s)) = run_view s"
  "run_view (snd (failNodeChild i n c e s)) = run_view s"
  by (simp_all add: node_status_defs child_status_defs view_defs effect_simps split: option.split)

lemma node_queue_frames [frame_simps]:
  "queue_view (snd (createNode i n k s)) = queue_view s"
  "queue_view (snd (setNodeInput i n v s)) = queue_view s"
  "queue_view (snd (selectNodeCase i n c s)) = queue_view s"
  "queue_view (snd (completeNode i n v s)) = queue_view s"
  "queue_view (snd (failNode i n e s)) = queue_view s"
  "queue_view (snd (cancelNode i n s)) = queue_view s"
  "queue_view (snd (waitNode i n s)) = queue_view s"
  "queue_view (snd (completeNodeChild i n c v s)) = queue_view s"
  "queue_view (snd (failNodeChild i n c e s)) = queue_view s"
  by (simp_all add: node_status_defs child_status_defs view_defs effect_simps split: option.split)

lemma node_later [frame_simps]:
  "later s (snd (createNode i n k s))"
  "later s (snd (setNodeInput i n v s))"
  "later s (snd (selectNodeCase i n c s))"
  "later s (snd (completeNode i n v s))"
  "later s (snd (failNode i n e s))"
  "later s (snd (cancelNode i n s))"
  "later s (snd (waitNode i n s))"
  "later s (snd (completeNodeChild i n c v s))"
  "later s (snd (failNodeChild i n c e s))"
  by (simp_all add: node_status_defs child_status_defs view_defs effect_simps split: option.split)

lemma ensureNodeChildren_frames [frame_simps]:
  "run_view (snd (ensureNodeChildren i n cs s)) = run_view s"
  "queue_view (snd (ensureNodeChildren i n cs s)) = queue_view s"
  "later s (snd (ensureNodeChildren i n cs s))"
  by (simp_all add: ensureNodeChildren_def view_defs effect_simps split: option.split)

lemma cancel_node_step_frames:
  "run_view (snd (cancel_node_step i n acc)) = run_view (snd acc)"
  "queue_view (snd (cancel_node_step i n acc)) = queue_view (snd acc)"
  "later (snd acc) (snd (cancel_node_step i n acc))"
  by (cases acc; simp add: cancel_node_step_def view_defs effect_simps)+

lemma cancel_child_step_frames:
  "run_view (cancel_child_step i c s) = run_view s"
  "queue_view (cancel_child_step i c s) = queue_view s"
  "later s (cancel_child_step i c s)"
  by (simp_all add: cancel_child_step_def view_defs effect_simps)

lemma fold_frames:
  assumes "\<And>x s. run_view (g (f x s)) = run_view (g s)"
    and "\<And>x s. queue_view (g (f x s)) = queue_view (g s)"
    and "\<And>x s. later (g s) (g (f x s))"
  shows "run_view (g (fold f xs s)) = run_view (g s)"
    and "queue_view (g (fold f xs s)) = queue_view (g s)"
    and "later (g s) (g (fold f xs s))"
proof -
  show "run_view (g (fold f xs s)) = run_view (g s)" "queue_view (g (fold f xs s)) = queue_view (g s)"
    using assms(1,2) by (induction xs arbitrary: s) auto
  show "later (g s) (g (fold f xs s))"
  proof (induction xs arbitrary: s)
    case (Cons x xs)
    show ?case using later_trans[OF assms(3) Cons.IH] by simp
  qed simp
qed

lemma cancelNonTerminalRunNodes_frames [frame_simps]:
  "run_view (snd (cancelNonTerminalRunNodes i s)) = run_view s"
  "queue_view (snd (cancelNonTerminalRunNodes i s)) = queue_view s"
  "later s (snd (cancelNonTerminalRunNodes i s))"
proof -
  note nodes_part = fold_frames[where f = "cancel_node_step i" and g = snd, OF cancel_node_step_frames]
  note children_part = fold_frames[where f = "cancel_child_step i" and g = "\<lambda>s. s", OF cancel_child_step_frames]
  show "run_view (snd (cancelNonTerminalRunNodes i s)) = run_view s"
    "queue_view (snd (cancelNonTerminalRunNodes i s)) = queue_view s"
    using nodes_part(1,2)[of "map_values (nodes s)" "([], s)"]
    by (simp_all add: cancelNonTerminalRunNodes_def Let_def case_prod_beta children_part(1,2))
  show "later s (snd (cancelNonTerminalRunNodes i s))"
    using nodes_part(3)[of "([], s)" "map_values (nodes s)"]
    by (auto simp: cancelNonTerminalRunNodes_def Let_def case_prod_beta intro: later_trans children_part(3))
qed

lemma mirrorNodeRunning_frames:
  "run_view (mirrorNodeRunning i n s) = run_view s"
  "queue_view (mirrorNodeRunning i n s) = queue_view s"
  "later s (mirrorNodeRunning i n s)"
  "children (mirrorNodeRunning i n s) = children s"
  "attempts (mirrorNodeRunning i n s) = attempts s"
  by (simp_all add: mirrorNodeRunning_def view_defs effect_simps split: option.split)

lemma insertChildAttempt_frames:
  "run_view (snd (insertChildAttempt c v k s)) = run_view s"
  "queue_view (snd (insertChildAttempt c v k s)) = queue_view s"
  "later s (snd (insertChildAttempt c v k s))"
  by (simp_all add: insertChildAttempt_def prim_simps)

lemma createChildAttempt_frames [frame_simps]:
  "run_view (snd (createChildAttempt c v k s)) = run_view s"
  "queue_view (snd (createChildAttempt c v k s)) = queue_view s"
  "later s (snd (createChildAttempt c v k s))"
  by (simp_all add: createChildAttempt_def Let_def case_prod_beta mirrorNodeRunning_frames
        insertChildAttempt_frames later_trans[OF insertChildAttempt_frames(3) mirrorNodeRunning_frames(3)])

lemma attempt_frames [frame_simps]:
  "run_view (snd (createAttempt i s)) = run_view s"
  "queue_view (snd (createAttempt i s)) = queue_view s"
  "later s (snd (createAttempt i s))"
  "run_view (snd (ensureChildAttempt i s)) = run_view s"
  "queue_view (snd (ensureChildAttempt i s)) = queue_view s"
  "later s (snd (ensureChildAttempt i s))"
  by (simp_all add: createAttempt_def ensureChildAttempt_def case_prod_beta frame_simps split: option.split)

lemma current_attempt_frames [frame_simps]:
  "run_view (snd (completeCurrentAttempt a l v s)) = run_view s"
  "queue_view (snd (completeCurrentAttempt a l v s)) = queue_view s"
  "later s (snd (completeCurrentAttempt a l v s))"
  "run_view (snd (failCurrentAttempt a l e s)) = run_view s"
  "queue_view (snd (failCurrentAttempt a l e s)) = queue_view s"
  "later s (snd (failCurrentAttempt a l e s))"
  "run_view (snd (timeoutCurrentAttempt a l e s)) = run_view s"
  "queue_view (snd (timeoutCurrentAttempt a l e s)) = queue_view s"
  "later s (snd (timeoutCurrentAttempt a l e s))"
  by (simp_all add: attempt_status_defs prim_simps split: option.split)

lemma ensureChildRun_frames [frame_simps]:
  "run_view (snd (ensureChildRun p s)) =
     (case map_get (children s) (childKey (ecr_runId p) (ecr_nodeName p) (ecr_childKey p)) of
        Some child \<Rightarrow> if child_childRunId child = None \<and> \<not> isTerminalNodeStatus (child_status child)
                       then run_view (snd (createRunWithState (childRunInput p) s)) else run_view s
      | None \<Rightarrow> run_view s)"
  "queue_view (snd (ensureChildRun p s)) = queue_view s"
  "later s (snd (ensureChildRun p s))"
proof -
  note created = createRunWithState_frames(2)[of "childRunInput p" s] createRunWithState_frames(3)[of s "childRunInput p"]
  show "run_view (snd (ensureChildRun p s)) =
     (case map_get (children s) (childKey (ecr_runId p) (ecr_nodeName p) (ecr_childKey p)) of
        Some child \<Rightarrow> if child_childRunId child = None \<and> \<not> isTerminalNodeStatus (child_status child)
                       then run_view (snd (createRunWithState (childRunInput p) s)) else run_view s
      | None \<Rightarrow> run_view s)"
    by (simp add: ensureChildRun_def view_defs effect_simps split: option.split sum.split prod.split)
  show "queue_view (snd (ensureChildRun p s)) = queue_view s" "later s (snd (ensureChildRun p s))"
    using created
    by (cases "createRunWithState (childRunInput p) s";
        auto simp: ensureChildRun_def view_defs effect_simps split: option.split sum.split)+
qed

text \<open>Operations on the queues\<close>

text \<open>An operation that touches none of the three views.\<close>

definition calm :: "runtime \<Rightarrow> runtime \<Rightarrow> bool" where
  "calm s s' \<longleftrightarrow> run_view s' = run_view s \<and> node_view s' = node_view s \<and> queue_view s' = queue_view s
     \<and> runLeases s' = runLeases s \<and> schedules s' = schedules s \<and> later s s'"

lemma calm_refl [simp, intro]: "calm s s"
  by (simp add: calm_def)

lemma calm_trans: "calm s t \<Longrightarrow> calm t u \<Longrightarrow> calm s u"
  by (auto simp: calm_def intro: later_trans)

lemma calm_prims:
  "calm s (snd (now s))" "calm s (snd (fresh_id p s))" "calm s (snd (Date_now s))"
  "quiet f \<Longrightarrow> calm s (f s)"
  by (auto simp: calm_def view_defs now_eq fresh_id_def Date_now_def quiet_fields)

lemma calm_queueItem: "calm s (snd (queueItem i p r s))"
  by (simp add: queueItem_def prim_simps calm_prims)

lemma calm_isDue: "calm s (snd (isDue r s))"
  by (simp add: isDue_def prim_simps calm_prims split: option.split)

lemma calm_wakeCommand: "calm s (wakeCommand k r s)"
  using calm_isDue[of s r] calm_trans[OF calm_isDue[of s r] calm_prims(4)[OF quiet_emits(1)]]
  by (simp add: wakeCommand_def prim_simps)

lemma calm_countFailedDelivery: "calm s (snd (countFailedDelivery item e s))"
  by (simp add: countFailedDelivery_def prim_simps calm_prims)

lemma calm_releaseQueueItem: "calm s (snd (releaseQueueItem item options s))"
  by (simp add: releaseQueueItem_def prim_simps calm_prims(3)
        calm_trans[OF calm_countFailedDelivery calm_prims(3)])

lemma calm_reclaim: "calm s (snd (snd (reclaimExpiredLeases claimed queue el s)))"
proof -
  have step: "calm (snd (snd acc)) (snd (snd (reclaim_step el date entry acc)))"
    for date and entry :: "string \<times> 'a ClaimedQueueItem" and acc
    by (cases acc; cases entry) (simp add: reclaim_step_def prim_simps calm_countFailedDelivery)
  have "calm (snd (snd acc)) (snd (snd (fold (reclaim_step el date) entries acc)))" for date entries acc
  proof (induction entries arbitrary: acc)
    case (Cons e es)
    show ?case using calm_trans[OF step Cons.IH] by simp
  qed simp
  from this[of "(claimed, queue, snd (now s))" "fst (now s)" claimed]
  have "calm (snd (now s)) (snd (snd (reclaimExpiredLeases claimed queue el s)))"
    by (simp add: reclaimExpiredLeases_def prim_simps)
  then show ?thesis by (rule calm_trans[OF calm_prims(1)])
qed

lemma calm_views:
  assumes "calm s s'"
  shows "run_view s' = run_view s" "node_view s' = node_view s" "later r s \<Longrightarrow> later r s'"
    "queue_view s' = queue_view s"
  using assms by (auto simp: calm_def intro: later_trans)

lemmas calm_simps =
  calm_views[OF calm_queueItem] calm_views[OF calm_wakeCommand] calm_views[OF calm_countFailedDelivery]
  calm_views[OF calm_releaseQueueItem] calm_views[OF calm_reclaim] calm_views[OF calm_prims(3)]

lemma enqueueContinue_frames [frame_simps]:
  "run_view (enqueueContinue c r s) = run_view s"
  "node_view (enqueueContinue c r s) = node_view s"
  "later s (enqueueContinue c r s)"
  by (simp_all add: enqueueContinue_def prim_simps calm_simps split: option.split)

lemma executor_run_frames [frame_simps]:
  "run_view (snd (claimContinue w s)) = run_view s"
  "run_view (snd (ackContinue cl s)) = run_view s"
  "run_view (releaseContinue cl ro s) = run_view s"
  "run_view (dispatchAttempt p k c r s) = run_view s"
  "run_view (snd (claimAttempt ew s)) = run_view s"
  "run_view (snd (heartbeat acl ms s)) = run_view s"
  "run_view (snd (ackAttempt acl s)) = run_view s"
  "run_view (releaseAttempt acl ro s) = run_view s"
  "run_view (snd (deleteUnclaimed i s)) = run_view s"
  "run_view (markDeadCommandReaped i s) = run_view s"
  "run_view (requeueDeadCommand i s) = run_view s"
  by (simp_all add: claimContinue_def ackContinue_def releaseContinue_def dispatchAttempt_def
        claimAttempt_def heartbeat_def ackAttempt_def releaseAttempt_def deleteUnclaimed_def
        markDeadCommandReaped_def mark_reaped_def requeueDeadCommand_def prim_simps calm_simps
        split: option.split)

lemma executor_node_frames [frame_simps]:
  "node_view (snd (claimContinue w s)) = node_view s"
  "node_view (snd (ackContinue cl s)) = node_view s"
  "node_view (releaseContinue cl ro s) = node_view s"
  "node_view (dispatchAttempt p k c r s) = node_view s"
  "node_view (snd (claimAttempt ew s)) = node_view s"
  "node_view (snd (heartbeat acl ms s)) = node_view s"
  "node_view (snd (ackAttempt acl s)) = node_view s"
  "node_view (releaseAttempt acl ro s) = node_view s"
  "node_view (snd (deleteUnclaimed i s)) = node_view s"
  "node_view (markDeadCommandReaped i s) = node_view s"
  "node_view (requeueDeadCommand i s) = node_view s"
  by (simp_all add: claimContinue_def ackContinue_def releaseContinue_def dispatchAttempt_def
        claimAttempt_def heartbeat_def ackAttempt_def releaseAttempt_def deleteUnclaimed_def
        markDeadCommandReaped_def mark_reaped_def requeueDeadCommand_def prim_simps calm_simps
        split: option.split)

lemma executor_later [frame_simps]:
  "later s (snd (claimContinue w s))"
  "later s (snd (ackContinue cl s))"
  "later s (releaseContinue cl ro s)"
  "later s (dispatchAttempt p k c r s)"
  "later s (snd (claimAttempt ew s))"
  "later s (snd (heartbeat acl ms s))"
  "later s (snd (ackAttempt acl s))"
  "later s (releaseAttempt acl ro s)"
  "later s (snd (deleteUnclaimed i s))"
  "later s (markDeadCommandReaped i s)"
  "later s (requeueDeadCommand i s)"
  by (simp_all add: claimContinue_def ackContinue_def releaseContinue_def dispatchAttempt_def
        claimAttempt_def heartbeat_def ackAttempt_def releaseAttempt_def deleteUnclaimed_def
        markDeadCommandReaped_def mark_reaped_def requeueDeadCommand_def prim_simps calm_simps
        split: option.split)

text \<open>Operations of the deletion component\<close>

lemma deletion_later [frame_simps]:
  "later s (deleteRunTrees ids s)"
  "later s (snd (deleteRun i s))"
  "later s (snd (pruneTerminalRuns older sts n s))"
  by (simp_all add: deleteRun_def pruneTerminalRuns_def sweepDeadCommands_def deleteRunTrees_def
        Let_def later_def split: option.split)

end
