(* ===== verification/Steps.thy ===== *)
theory Steps
  imports Frames
begin

text \<open>
  The runtime as a state machine. A step is one operation of the store or of an executor,
  with any arguments: every operation of the in-memory runtime is synchronous up to its
  result, so the interleavings of any number of clients, coordinators and workers are
  the sequences of these steps. What the callers guarantee is a premise of the step: a
  node is created for a run that was issued, under a name \<open>assertNodeName\<close> accepted, and
  the children of a node have distinct keys (the keys of an object, the indexes of an array).
\<close>

declare map_of_eq_Some_iff [simp del] Some_eq_map_of_iff [simp del]

section \<open>The step relation\<close>

definition known_run :: "runtime \<Rightarrow> string \<Rightarrow> bool" where
  "known_run s runId \<longleftrightarrow> (\<exists>k < nextId s. runId = mk_id ''run'' k)"

text \<open>A run that clients and schedules start has no parent and is its own root.\<close>

definition root_input :: "CreateRunInput \<Rightarrow> bool" where
  "root_input input \<longleftrightarrow> cr_parentRunId input = None \<and> cr_parentNodeName input = None \<and> cr_rootRunId input = None"

inductive work_step :: "runtime \<Rightarrow> runtime \<Rightarrow> bool" where
  clock_now: "work_step s (snd (now s))"
| clock_read: "work_step s (snd (Date_now s))"
| subscribe_command: "work_step s (onCommand kind listener s)"
| subscribe_cancellation: "work_step s (onCancellation runId listener s)"
| subscribe_run_event: "work_step s (onRunEvent runId listener s)"
| dispose: "work_step s (dispose_wakeEvents s)"
| create_run: "root_input input \<Longrightarrow> work_step s (snd (createRunWithState input s))"
| mark_running: "work_step s (snd (markRunRunning runId s))"
| mark_waiting: "work_step s (snd (markRunWaiting runId s))"
| complete_run: "work_step s (snd (completeRun runId output s))"
| fail_run: "work_step s (snd (failRun runId error s))"
| request_cancellation: "work_step s (snd (requestRunCancellation runId s))"
| cancel_run: "work_step s (snd (cancelRun runId s))"
| acquire_lease: "work_step s (snd (acquireRunLease runId leaseMs s))"
| renew_lease: "work_step s (snd (renewRunLease lease leaseMs s))"
| release_lease: "work_step s (releaseRunLease lease s)"
| create_node: "known_run s runId \<Longrightarrow> nodeNamePattern nodeName \<Longrightarrow> work_step s (snd (createNode runId nodeName kind' s))"
| set_node_input: "work_step s (snd (setNodeInput runId nodeName v s))"
| select_case: "work_step s (snd (selectNodeCase runId nodeName caseKey s))"
| complete_node: "work_step s (snd (completeNode runId nodeName v s))"
| fail_node: "work_step s (snd (failNode runId nodeName error s))"
| cancel_node: "work_step s (snd (cancelNode runId nodeName s))"
| wait_node: "work_step s (snd (waitNode runId nodeName s))"
| cancel_nodes: "work_step s (snd (cancelNonTerminalRunNodes runId s))"
| ensure_children: "known_run s runId \<Longrightarrow> distinct (map ec_childKey inputs) \<Longrightarrow> work_step s (snd (ensureNodeChildren runId nodeName inputs s))"
| complete_child: "work_step s (snd (completeNodeChild runId nodeName key v s))"
| fail_child: "work_step s (snd (failNodeChild runId nodeName key error s))"
| ensure_child_run: "known_run s (ecr_runId p) \<Longrightarrow> work_step s (snd (ensureChildRun p s))"
| create_attempt: "work_step s (snd (createAttempt ca s))"
| ensure_attempt: "work_step s (snd (ensureChildAttempt ca s))"
| complete_attempt: "work_step s (snd (completeCurrentAttempt attemptId token v s))"
| fail_attempt: "work_step s (snd (failCurrentAttempt attemptId token error s))"
| timeout_attempt: "work_step s (snd (timeoutCurrentAttempt attemptId token error s))"
| enqueue_continue: "work_step s (enqueueContinue command runAt s)"
| claim_continue: "work_step s (snd (claimContinue worker s))"
| ack_continue: "work_step s (snd (ackContinue claim s))"
| release_continue: "work_step s (releaseContinue claim options s)"
| dispatch_activity: "work_step s (dispatchActivity attempt runAt s)"
| dispatch_task: "work_step s (dispatchTask attempt runAt s)"
| claim_attempt: "work_step s (snd (claimAttempt executor s))"
| heartbeat: "work_step s (snd (heartbeat aclaim ms s))"
| ack_attempt: "work_step s (snd (ackAttempt aclaim s))"
| release_attempt: "work_step s (releaseAttempt aclaim options s)"
| delete_unclaimed: "work_step s (snd (deleteUnclaimed runId s))"
| mark_reaped: "work_step s (markDeadCommandReaped commandId s)"
| requeue_dead: "work_step s (requeueDeadCommand commandId s)"
| write_schedules: "work_step s (s\<lparr>schedules := m\<rparr>)"

inductive delete_step :: "runtime \<Rightarrow> runtime \<Rightarrow> bool" where
  delete_run: "delete_step s (snd (deleteRun runId s))"
| prune: "delete_step s (snd (pruneTerminalRuns older statuses batch s))"

definition step :: "runtime \<Rightarrow> runtime \<Rightarrow> bool" where
  "step s s' \<longleftrightarrow> work_step s s' \<or> delete_step s s'"

definition reachable :: "runtime \<Rightarrow> bool" where
  "reachable s \<longleftrightarrow> (\<exists>h n. step\<^sup>*\<^sup>* (createInMemoryWorkflowRuntime h n) s)"

lemma reachable_step: "reachable s \<Longrightarrow> step s s' \<Longrightarrow> reachable s'"
  unfolding reachable_def by (meson rtranclp.rtrancl_into_rtrancl)

lemma reachable_steps: "step\<^sup>*\<^sup>* s s' \<Longrightarrow> reachable s \<Longrightarrow> reachable s'"
  by (induction rule: rtranclp_induct) (auto intro: reachable_step)

lemma reachable_work: "reachable s \<Longrightarrow> work_step s s' \<Longrightarrow> reachable s'"
  by (auto simp: step_def intro: reachable_step)

text \<open>The contract of an invariant: it holds of a new runtime and every step keeps it.\<close>

locale runtime_invariant =
  fixes I :: "runtime \<Rightarrow> bool"
  assumes init: "I (createInMemoryWorkflowRuntime h n)"
    and work: "I s \<Longrightarrow> work_step s s' \<Longrightarrow> I s'"
    and delete: "I s \<Longrightarrow> delete_step s s' \<Longrightarrow> I s'"
begin

lemma steps: "step\<^sup>*\<^sup>* s s' \<Longrightarrow> I s \<Longrightarrow> I s'"
  by (induction rule: rtranclp_induct) (auto simp: step_def intro: work delete)

lemma holds: "reachable s \<Longrightarrow> I s"
  unfolding reachable_def using steps init by blast

end

lemma runtime_invariant_conj:
  assumes "runtime_invariant I"
    and "\<And>h n. J (createInMemoryWorkflowRuntime h n)"
    and "\<And>s s'. I s \<Longrightarrow> J s \<Longrightarrow> work_step s s' \<Longrightarrow> J s'"
    and "\<And>s s'. I s \<Longrightarrow> J s \<Longrightarrow> delete_step s s' \<Longrightarrow> J s'"
  shows "runtime_invariant (\<lambda>s. I s \<and> J s)"
  using assms unfolding runtime_invariant_def by blast

section \<open>Every step moves the clock and the counter forward\<close>

lemma subscribe_frames [frame_simps]:
  "calm s (onCommand k l s)" "calm s (onCancellation r l s)" "calm s (onRunEvent r l s)"
  "calm s (dispose_wakeEvents s)"
  by (simp_all add: calm_def view_defs onCommand_def onCancellation_def onRunEvent_def
        dispose_wakeEvents_def)

lemma schedules_frames [simp]:
  "run_view (s\<lparr>schedules := m\<rparr>) = run_view s" "node_view (s\<lparr>schedules := m\<rparr>) = node_view s"
  "queue_view (s\<lparr>schedules := m\<rparr>) = queue_view s"
  by (simp_all add: view_defs)

lemmas calm_steps =
  calm_views[OF subscribe_frames(1)] calm_views[OF subscribe_frames(2)]
  calm_views[OF subscribe_frames(3)] calm_views[OF subscribe_frames(4)] calm_views[OF calm_prims(3)]

lemma work_step_later: "work_step s s' \<Longrightarrow> later s s'"
  by (induction rule: work_step.induct)
     (simp_all add: frame_simps later_now dispatchActivity_def dispatchTask_def calm_steps)

lemma delete_step_later: "delete_step s s' \<Longrightarrow> later s s'"
  by (induction rule: delete_step.induct) (simp_all add: frame_simps)

lemma step_later: "step s s' \<Longrightarrow> later s s'"
  by (auto simp: step_def work_step_later delete_step_later)

lemma steps_later: "step\<^sup>*\<^sup>* s s' \<Longrightarrow> later s s'"
  by (induction rule: rtranclp_induct) (auto intro: step_later later_trans)

lemma known_run_later: "known_run s i \<Longrightarrow> later s s' \<Longrightarrow> known_run s' i"
  by (auto simp: known_run_def later_def)

section \<open>Tables whose rows are stored under fresh identifiers\<close>

text \<open>
  The contract of a table of rows that a step may insert under the next identifier,
  change along \<open>evolves\<close>, or delete: a key never comes back with another row, so what a
  row may become in any number of steps is the closure of what it may become in one.
\<close>

locale row_table =
  fixes rows :: "runtime \<Rightarrow> (string \<times> 'r) list"
    and evolves :: "'r \<Rightarrow> 'r \<Rightarrow> bool"
    and prefix :: string
  assumes row_step: "reachable s \<Longrightarrow> step s s' \<Longrightarrow> map_get (rows s') k = Some r' \<Longrightarrow>
      (\<exists>n. map_get (rows s) k = None \<and> k = mk_id prefix n \<and> nextId s \<le> n)
      \<or> (\<exists>r. map_get (rows s) k = Some r \<and> evolves r r')"
    and row_issued: "reachable s \<Longrightarrow> map_get (rows s) k = Some r \<Longrightarrow> issued (nextId s) k"
begin

lemma gone_stays: "step\<^sup>*\<^sup>* s s' \<Longrightarrow> reachable s \<Longrightarrow> issued (nextId s) k \<Longrightarrow> map_get (rows s) k = None \<Longrightarrow>
    map_get (rows s') k = None"
proof (induction rule: rtranclp_induct)
  case (step t u)
  have "nextId s \<le> nextId t" using steps_later[OF step.hyps(1)] by (simp add: later_def)
  with step.prems(2) have "issued (nextId t) k" by (rule issued_mono)
  with row_step[OF reachable_steps[OF step.hyps(1) step.prems(1)] step.hyps(2)] step.IH[OF step.prems]
  show ?case by (cases "map_get (rows u) k") (fastforce simp: issued_def)+
qed

lemma row_steps:
  assumes "step\<^sup>*\<^sup>* s s'" and "reachable s" and r: "map_get (rows s) k = Some r" and "map_get (rows s') k = Some r'"
  shows "evolves\<^sup>*\<^sup>* r r'"
  using assms(1,4)
proof (induction arbitrary: r' rule: rtranclp_induct)
  case base
  with r show ?case by simp
next
  case (step t u)
  have t: "reachable t" using reachable_steps[OF step.hyps(1) assms(2)] .
  have "issued (nextId t) k"
    using row_issued[OF assms(2) r] steps_later[OF step.hyps(1)] by (auto simp: later_def intro: issued_mono)
  with row_step[OF t step.hyps(2) step.prems] obtain q where "map_get (rows t) k = Some q" "evolves q r'"
    by (fastforce simp: issued_def)
  with step.IH show ?case by (meson rtranclp.rtrancl_into_rtrancl)
qed

end

end
