(* ===== verification/RunSafety.thy ===== *)
theory RunSafety
  imports Steps
begin

text \<open>
  What the store guarantees about runs, for every interleaving of operations: rows are
  stored under their own issued identifier with monotone timestamps, status changes
  follow the transition table, and the idempotency and uniqueness indexes are exact.
\<close>

section \<open>The invariant of the run rows\<close>

text \<open>A run was issued before another: the order in which the family tree grows.\<close>

definition run_before :: "string \<Rightarrow> string \<Rightarrow> bool" where
  "run_before i j \<longleftrightarrow> (\<exists>m n. i = mk_id ''run'' m \<and> j = mk_id ''run'' n \<and> m < n)"

definition run_row_ok :: "runtime \<Rightarrow> string \<Rightarrow> StoredRun \<Rightarrow> bool" where
  "run_row_ok s k r \<longleftrightarrow> run_id r = k \<and> known_run s k \<and> 1 \<le> run_version r
     \<and> run_createdAt r \<le> run_updatedAt r \<and> run_updatedAt r \<le> lastTimestamp s
     \<and> (\<forall>p. run_parentRunId r = Some p \<longrightarrow> run_before p k)"

text \<open>
  An index of runs by key: it maps keys to stored runs, and every stored run that claims
  a key is the one the index has for it.
\<close>

definition index_ok :: "(string \<times> StoredRun) list \<Rightarrow> ('k \<times> string) list \<Rightarrow> (StoredRun \<Rightarrow> 'k option) \<Rightarrow> bool" where
  "index_ok rs index key \<longleftrightarrow> wf_map index
     \<and> (\<forall>k r. map_get rs (run_id r) = Some r \<longrightarrow> key r = Some k \<longrightarrow> map_get index k = Some (run_id r))"

definition idempotency_of :: "host \<Rightarrow> StoredRun \<Rightarrow> string option option" where
  "idempotency_of h r = map_option (runIdempotencyKey h) (run_idempotencyKey r)"

definition unique_of :: "host \<Rightarrow> RunUniqueScope \<Rightarrow> StoredRun \<Rightarrow> string option option" where
  "unique_of h scope r =
     (case run_unique r of
        Some u \<Rightarrow> if uq_scope u = scope \<and> (scope = ActiveScope \<longrightarrow> \<not> isTerminalRunStatus (run_status r))
                  then Some (uniqueKey h u) else None
      | None \<Rightarrow> None)"

definition run_inv :: "runtime \<Rightarrow> bool" where
  "run_inv s \<longleftrightarrow> wf_map (runs s)
     \<and> (\<forall>k r. map_get (runs s) k = Some r \<longrightarrow> run_row_ok s k r)
     \<and> (\<forall>k i. map_get (runIdempotencyKeys s) k = Some i \<longrightarrow> map_get (runs s) i \<noteq> None)
     \<and> index_ok (runs s) (runIdempotencyKeys s) (idempotency_of (rt_host s))
     \<and> index_ok (runs s) (activeUniqueRunKeys s) (unique_of (rt_host s) ActiveScope)
     \<and> index_ok (runs s) (allUniqueRunKeys s) (unique_of (rt_host s) AllScope)"

lemma run_row_ok_later: "run_row_ok s k r \<Longrightarrow> later s s' \<Longrightarrow> run_row_ok s' k r"
  by (auto simp: run_row_ok_def known_run_later later_def known_run_def)

lemma run_inv_frame: "run_inv s \<Longrightarrow> run_view s' = run_view s \<Longrightarrow> later s s' \<Longrightarrow> run_inv s'"
  by (auto simp: run_inv_def run_view_def intro: run_row_ok_later)

lemma run_inv_row: "run_inv s \<Longrightarrow> map_get (runs s) k = Some r \<Longrightarrow> run_row_ok s k r"
  by (simp add: run_inv_def)

lemma not_known_next [simp]: "\<not> known_run s (mk_id p (nextId s))"
  by (simp add: known_run_def)

section \<open>Writing a run row\<close>

text \<open>
  A row may only change along the transition table, one version at a time, keeping
  everything but its status, its result, its version and its update time.
\<close>

definition run_identity :: "StoredRun \<Rightarrow> StoredRun" where
  "run_identity r = r\<lparr>run_status := RQueued, run_output := None, run_error := None,
                     run_version := 0, run_updatedAt := 0\<rparr>"

definition run_evolves :: "StoredRun \<Rightarrow> StoredRun \<Rightarrow> bool" where
  "run_evolves r r' \<longleftrightarrow> r' = r \<or>
     (canTransition RUN_TRANSITIONS (run_status r) (run_status r') \<and> run_version r' = run_version r + 1
      \<and> run_updatedAt r < run_updatedAt r' \<and> run_identity r' = run_identity r)"

lemma run_identity_keys:
  assumes "run_identity r' = run_identity r"
  shows "run_id r' = run_id r" "run_unique r' = run_unique r" "run_idempotencyKey r' = run_idempotencyKey r"
    "run_createdAt r' = run_createdAt r" "run_parentRunId r' = run_parentRunId r"
    "run_rootRunId r' = run_rootRunId r" "run_kind r' = run_kind r" "run_workflowName r' = run_workflowName r"
    "run_parentNodeName r' = run_parentNodeName r" "run_input r' = run_input r" "run_name r' = run_name r"
  using assms by (cases r; cases r'; simp add: run_identity_def)+

text \<open>
  All six status operations are this one write: an updated row that evolves from the
  stored one, with the active unique key released when the new status is terminal.
\<close>

definition writes_run :: "string \<Rightarrow> StoredRun \<Rightarrow> StoredRun \<Rightarrow> runtime \<Rightarrow> runtime \<Rightarrow> bool" where
  "writes_run i r r' s s' \<longleftrightarrow> map_get (runs s) i = Some r \<and> runs s' = map_set i r' (runs s)
     \<and> canTransition RUN_TRANSITIONS (run_status r) (run_status r') \<and> run_version r' = run_version r + 1
     \<and> run_updatedAt r' = lastTimestamp s' \<and> lastTimestamp s < lastTimestamp s'
     \<and> run_identity r' = run_identity r
     \<and> rt_host s' = rt_host s \<and> runIdempotencyKeys s' = runIdempotencyKeys s
     \<and> allUniqueRunKeys s' = allUniqueRunKeys s
     \<and> activeUniqueRunKeys s' =
         (if isTerminalRunStatus (run_status r')
          then activeUniqueRunKeys (releaseActiveUniqueKey r' s) else activeUniqueRunKeys s)"

lemma release_fields [simp]:
  "runs (releaseActiveUniqueKey r s) = runs s" "rt_host (releaseActiveUniqueKey r s) = rt_host s"
  "runIdempotencyKeys (releaseActiveUniqueKey r s) = runIdempotencyKeys s"
  "allUniqueRunKeys (releaseActiveUniqueKey r s) = allUniqueRunKeys s"
  "lastTimestamp (releaseActiveUniqueKey r s) = lastTimestamp s"
  by (simp_all add: releaseActiveUniqueKey_def Let_def split: option.split)

lemma release_active_cong:
  "rt_host t = rt_host s \<Longrightarrow> activeUniqueRunKeys t = activeUniqueRunKeys s \<Longrightarrow>
     activeUniqueRunKeys (releaseActiveUniqueKey r t) = activeUniqueRunKeys (releaseActiveUniqueKey r s)"
  by (simp add: releaseActiveUniqueKey_def Let_def split: option.split)

lemmas write_simps = writes_run_def prim_simps run_live_to_terminal run_live_to_cancelling
  run_identity_def

text \<open>The six operations, each: the state is unchanged or one such write happened.\<close>

lemma markRunRunning_writes:
  "map_get (runs s) i = Some r \<Longrightarrow> canTransition RUN_TRANSITIONS (run_status r) RRunning \<Longrightarrow>
     writes_run i r (r\<lparr>run_status := RRunning, run_version := run_version r + 1, run_updatedAt := fst (now s)\<rparr>) s (snd (markRunRunning i s))"
  by (simp add: markRunRunning_def write_simps)

lemma markRunWaiting_writes:
  "map_get (runs s) i = Some r \<Longrightarrow> canTransition RUN_TRANSITIONS (run_status r) RWaiting \<Longrightarrow>
     writes_run i r (r\<lparr>run_status := RWaiting, run_version := run_version r + 1, run_updatedAt := fst (now s)\<rparr>) s (snd (markRunWaiting i s))"
  by (simp add: markRunWaiting_def write_simps)

lemma completeRun_writes:
  "map_get (runs s) i = Some r \<Longrightarrow> \<not> isTerminalRunStatus (run_status r) \<Longrightarrow>
     writes_run i r (r\<lparr>run_status := RCompleted, run_output := Some v, run_version := run_version r + 1, run_updatedAt := fst (now s)\<rparr>) s (snd (completeRun i v s))"
  by (simp add: completeRun_def write_simps) (rule release_active_cong; simp)

lemma failRun_writes:
  "map_get (runs s) i = Some r \<Longrightarrow> \<not> isTerminalRunStatus (run_status r) \<Longrightarrow>
     writes_run i r (r\<lparr>run_status := RFailed, run_error := Some (toStoredError (rt_host s) e), run_version := run_version r + 1, run_updatedAt := fst (now s)\<rparr>)
       s (snd (failRun i e s))"
  by (simp add: failRun_def write_simps) (rule release_active_cong; simp)

lemma requestRunCancellation_writes:
  "map_get (runs s) i = Some r \<Longrightarrow> \<not> isTerminalRunStatus (run_status r) \<Longrightarrow> run_status r \<noteq> RCancelling \<Longrightarrow>
     writes_run i r (r\<lparr>run_status := RCancelling, run_version := run_version r + 1, run_updatedAt := fst (now s)\<rparr>) s (snd (requestRunCancellation i s))"
  by (simp add: requestRunCancellation_def write_simps)

lemma cancelRun_writes:
  "map_get (runs s) i = Some r \<Longrightarrow> \<not> isTerminalRunStatus (run_status r) \<Longrightarrow>
     writes_run i r (r\<lparr>run_status := RCancelled, run_version := run_version r + 1, run_updatedAt := fst (now s)\<rparr>) s (snd (cancelRun i s))"
  by (simp add: cancelRun_def write_simps) (rule release_active_cong; simp)

lemma run_status_quiet:
  "(\<And>r. map_get (runs s) i = Some r \<Longrightarrow> \<not> canTransition RUN_TRANSITIONS (run_status r) RRunning)
     \<Longrightarrow> snd (markRunRunning i s) = s"
  "(\<And>r. map_get (runs s) i = Some r \<Longrightarrow> \<not> canTransition RUN_TRANSITIONS (run_status r) RWaiting)
     \<Longrightarrow> snd (markRunWaiting i s) = s"
  "(\<And>r. map_get (runs s) i = Some r \<Longrightarrow> isTerminalRunStatus (run_status r)) \<Longrightarrow> snd (completeRun i v s) = s"
  "(\<And>r. map_get (runs s) i = Some r \<Longrightarrow> isTerminalRunStatus (run_status r)) \<Longrightarrow> snd (failRun i e s) = s"
  "(\<And>r. map_get (runs s) i = Some r \<Longrightarrow> isTerminalRunStatus (run_status r) \<or> run_status r = RCancelling)
     \<Longrightarrow> snd (requestRunCancellation i s) = s"
  "(\<And>r. map_get (runs s) i = Some r \<Longrightarrow> isTerminalRunStatus (run_status r)) \<Longrightarrow> snd (cancelRun i s) = s"
  unfolding run_status_defs by (cases "map_get (runs s) i"; simp)+

inductive run_status_step :: "runtime \<Rightarrow> runtime \<Rightarrow> bool" where
  unchanged: "run_status_step s s"
| written: "writes_run i r r' s s' \<Longrightarrow> run_status_step s s'"

lemma run_status_steps:
  "run_status_step s (snd (markRunRunning i s))"
  "run_status_step s (snd (markRunWaiting i s))"
  "run_status_step s (snd (completeRun i v s))"
  "run_status_step s (snd (failRun i e s))"
  "run_status_step s (snd (requestRunCancellation i s))"
  "run_status_step s (snd (cancelRun i s))"
  using run_status_quiet[of s i] run_status_step.unchanged
    run_status_step.written[OF markRunRunning_writes] run_status_step.written[OF markRunWaiting_writes]
    run_status_step.written[OF completeRun_writes] run_status_step.written[OF failRun_writes]
    run_status_step.written[OF requestRunCancellation_writes] run_status_step.written[OF cancelRun_writes]
  by metis+

text \<open>Such a write keeps the invariant and moves one row along the table.\<close>

lemma index_ok_write:
  assumes "index_ok rs index key" and "map_get rs i = Some r" and "run_id r = i" and "run_id r' = i"
    and "key r' = key r"
  shows "index_ok (map_set i r' rs) index key"
  using assms by (auto simp: index_ok_def split: if_splits)

lemma unique_of_evolved:
  assumes "run_identity r' = run_identity r" and "\<not> isTerminalRunStatus (run_status r)"
  shows "unique_of h AllScope r' = unique_of h AllScope r"
    and "\<not> isTerminalRunStatus (run_status r') \<Longrightarrow> unique_of h ActiveScope r' = unique_of h ActiveScope r"
  using assms run_identity_keys[OF assms(1)] by (auto simp: unique_of_def split: option.split)

lemma index_ok_release:
  assumes index: "index_ok (runs s) (activeUniqueRunKeys s) (unique_of (rt_host s) ActiveScope)"
    and r: "map_get (runs s) i = Some r" "run_id r = i" "\<not> isTerminalRunStatus (run_status r)"
    and r': "run_id r' = i" "run_unique r' = run_unique r" "isTerminalRunStatus (run_status r')"
  shows "index_ok (map_set i r' (runs s)) (activeUniqueRunKeys (releaseActiveUniqueKey r' s))
           (unique_of (rt_host s) ActiveScope)"
proof -
  have none: "unique_of (rt_host s) ActiveScope r' = None"
    using r' by (simp add: unique_of_def split: option.split)
  have kept: "map_get (activeUniqueRunKeys (releaseActiveUniqueKey r' s)) k = Some (run_id q)"
    if "map_get (runs s) (run_id q) = Some q" "unique_of (rt_host s) ActiveScope q = Some k" "run_id q \<noteq> i"
    for q k
  proof -
    have "map_get (activeUniqueRunKeys s) k = Some (run_id q)"
      using index that by (simp add: index_ok_def)
    then show ?thesis
      using that(3) r'(1) by (auto simp: releaseActiveUniqueKey_def Let_def split: option.split)
  qed
  have "wf_map (activeUniqueRunKeys (releaseActiveUniqueKey r' s))"
    using index by (auto simp: releaseActiveUniqueKey_def Let_def index_ok_def split: option.split)
  with none kept r'(1) show ?thesis by (auto simp: index_ok_def split: if_splits)
qed

lemma run_inv_write:
  assumes inv: "run_inv s" and w: "writes_run i r r' s s'" and later: "later s s'"
  shows "run_inv s'"
proof -
  from w have r: "map_get (runs s) i = Some r" and live: "\<not> isTerminalRunStatus (run_status r)"
    by (auto simp: writes_run_def dest: run_machine.terminal_stuck)
  from inv r have row: "run_row_ok s i r" by (simp add: run_inv_def)
  note same = run_identity_keys[of r' r]
  have row': "run_row_ok s' i r'"
    using row w later same by (auto simp: run_row_ok_def writes_run_def known_run_later)
  have rows: "run_row_ok s' k q" if "map_get (runs s') k = Some q" for k q
    using that w row' inv later
    by (auto simp: writes_run_def run_inv_def intro: run_row_ok_later split: if_splits)
  have id: "run_id r = i" "run_id r' = i" using row row' by (simp_all add: run_row_ok_def)
  from w have ident: "run_identity r' = run_identity r" by (simp add: writes_run_def)
  have idem: "idempotency_of h r' = idempotency_of h r" for h
    using same[OF ident] by (simp add: idempotency_of_def)
  have "index_ok (runs s') (runIdempotencyKeys s') (idempotency_of (rt_host s'))"
    "index_ok (runs s') (allUniqueRunKeys s') (unique_of (rt_host s') AllScope)"
    using inv w index_ok_write[where key = "idempotency_of (rt_host s)", OF _ r id] idem
      index_ok_write[where key = "unique_of (rt_host s) AllScope", OF _ r id] unique_of_evolved(1)[OF ident live]
    by (simp_all add: run_inv_def writes_run_def)
  moreover have "index_ok (runs s') (activeUniqueRunKeys s') (unique_of (rt_host s') ActiveScope)"
    using inv w unique_of_evolved(2)[OF ident live]
      index_ok_write[where key = "unique_of (rt_host s) ActiveScope", OF _ r id]
      index_ok_release[OF _ r id(1) live id(2) same(2)[OF ident]]
    by (auto simp: run_inv_def writes_run_def)
  ultimately show ?thesis
    using rows inv w by (simp add: run_inv_def writes_run_def)
qed

section \<open>Creating a run\<close>

definition created_run :: "CreateRunInput \<Rightarrow> runtime \<Rightarrow> StoredRun" where
  "created_run input s = newRun input (mk_id ''run'' (nextId s)) (fst (now s))"

definition may_create :: "CreateRunInput \<Rightarrow> runtime \<Rightarrow> bool" where
  "may_create input s \<longleftrightarrow>
     (\<forall>k. cr_idempotencyKey input = Some k \<longrightarrow>
        truthy (map_get (runIdempotencyKeys s) (runIdempotencyKey (rt_host s) k)) = None)
     \<and> (\<forall>u. cr_unique input = Some u \<longrightarrow> conflictingRun u s = None)"

definition after_create :: "CreateRunInput \<Rightarrow> runtime \<Rightarrow> runtime" where
  "after_create input s =
     registerRun input (created_run input s) (snd (fresh_id ''run'' (snd (now s))))"

lemma createRunWithState_new:
  assumes "may_create input s"
  shows "createRunWithState input s =
    (Inr (created_run input s, True), emitRunStatusEvent (created_run input s) (after_create input s))"
proof -
  have a: "(case cr_idempotencyKey input of None \<Rightarrow> None
            | Some k \<Rightarrow> truthy (map_get (runIdempotencyKeys s) (runIdempotencyKey (rt_host s) k))) = None"
    using assms by (simp add: may_create_def split: option.split)
  have b: "(case cr_unique input of None \<Rightarrow> None
            | Some u \<Rightarrow> map_option (\<lambda>c. (u, c)) (conflictingRun u s)) = None"
    using assms by (simp add: may_create_def split: option.split)
  show ?thesis
    unfolding createRunWithState_def a b
    by (simp add: prim_simps created_run_def after_create_def)
qed

lemma createRunWithState_old: "\<not> may_create input s \<Longrightarrow> snd (createRunWithState input s) = s"
  by (auto simp: may_create_def createRunWithState_def split: option.splits RunUniqueBehavior.splits)

lemma newRun_fields [simp]:
  "run_id (newRun input i d) = i" "run_unique (newRun input i d) = cr_unique input"
  "run_idempotencyKey (newRun input i d) = cr_idempotencyKey input" "run_version (newRun input i d) = 1"
  "run_status (newRun input i d) = RQueued" "run_createdAt (newRun input i d) = d"
  "run_updatedAt (newRun input i d) = d" "run_parentRunId (newRun input i d) = cr_parentRunId input"
  "run_kind (newRun input i d) = run_kind_of input" "run_input (newRun input i d) = cr_input input"
  by (simp_all add: newRun_def)

lemma created_run_id [simp]: "run_id (created_run input s) = mk_id ''run'' (nextId s)"
  by (simp add: created_run_def)

lemma registerRun_fields [simp]:
  "runs (registerRun input r s) = map_set (run_id r) r (runs s)"
  "rt_host (registerRun input r s) = rt_host s"
  "nextId (registerRun input r s) = nextId s"
  "lastTimestamp (registerRun input r s) = lastTimestamp s"
  "runIdempotencyKeys (registerRun input r s) =
     (case cr_idempotencyKey input of None \<Rightarrow> runIdempotencyKeys s
      | Some k \<Rightarrow> map_set (runIdempotencyKey (rt_host s) k) (run_id r) (runIdempotencyKeys s))"
  "activeUniqueRunKeys (registerRun input r s) =
     (case cr_unique input of
        Some u \<Rightarrow> if uq_scope u = ActiveScope then map_set (uniqueKey (rt_host s) u) (run_id r) (activeUniqueRunKeys s)
                  else activeUniqueRunKeys s
      | None \<Rightarrow> activeUniqueRunKeys s)"
  "allUniqueRunKeys (registerRun input r s) =
     (case cr_unique input of
        Some u \<Rightarrow> if uq_scope u = AllScope then map_set (uniqueKey (rt_host s) u) (run_id r) (allUniqueRunKeys s)
                  else allUniqueRunKeys s
      | None \<Rightarrow> allUniqueRunKeys s)"
  by (simp_all add: registerRun_def Let_def split: option.split RunUniqueScope.split)

text \<open>A new run enters an index: the key is free, so no stored run loses its entry.\<close>

lemma index_ok_insert:
  assumes index: "index_ok rs index key"
    and free: "\<And>k i. key r = Some k \<Longrightarrow> map_get index k = Some i \<Longrightarrow> map_get rs i = None"
    and index': "index' = (case key r of None \<Rightarrow> index | Some k \<Rightarrow> map_set k (run_id r) index)"
  shows "index_ok (map_set (run_id r) r rs) index' key"
proof -
  have "map_get index' k = Some (run_id q)"
    if q: "map_get (map_set (run_id r) r rs) (run_id q) = Some q" and k: "key q = Some k" for q k
  proof (cases "q = r")
    case True
    with k index' show ?thesis by simp
  next
    case False
    have "run_id q \<noteq> run_id r" using q False by (auto split: if_splits)
    with q have old: "map_get rs (run_id q) = Some q" by simp
    with index k have "map_get index k = Some (run_id q)" by (simp add: index_ok_def)
    moreover from this old free[of k "run_id q"] have "key r \<noteq> Some k" by auto
    ultimately show ?thesis using index' by (cases "key r") auto
  qed
  moreover have "wf_map index'"
    using index index' by (cases "key r") (simp_all add: index_ok_def)
  ultimately show ?thesis unfolding index_ok_def by blast
qed

lemma truthy_known: "known_run s i \<Longrightarrow> truthy (Some i) = Some i"
  by (auto simp: truthy_def known_run_def mk_id_def)

lemma run_inv_create:
  assumes inv: "run_inv s" and may: "may_create input s"
    and parent: "\<And>p. cr_parentRunId input = Some p \<Longrightarrow> known_run s p"
  shows "run_inv (after_create input s)"
proof -
  let ?r = "created_run input s" and ?s' = "after_create input s"
  have later: "later s ?s'"
    by (simp add: after_create_def registerRun_frames(3) later_now later_fresh)
  have fresh: "map_get (runs s) (run_id ?r) = None"
    using run_inv_row[OF inv, of "run_id ?r"]
    by (cases "map_get (runs s) (run_id ?r)") (auto simp: run_row_ok_def)
  have ids: "\<And>k q. map_get (runs s) k = Some q \<Longrightarrow> run_id q = k"
    using inv by (simp add: run_inv_def run_row_ok_def)
  have key_free: "map_get (runs s) i = None"
    if "map_get (uniqueKeys (uq_scope u) s) (uniqueKey (rt_host s) u) = Some i" "cr_unique input = Some u" for u i
    using may that by (auto simp: may_create_def conflictingRun_def)
  have active_free: "map_get (runs s) i = None"
    if "cr_unique input = Some u" "uq_scope u = ActiveScope"
      "map_get (activeUniqueRunKeys s) (uniqueKey (rt_host s) u) = Some i" for u i
    using key_free[of u i] that by (simp add: uniqueKeys_def)
  have all_free: "map_get (runs s) i = None"
    if "cr_unique input = Some u" "uq_scope u = AllScope"
      "map_get (allUniqueRunKeys s) (uniqueKey (rt_host s) u) = Some i" for u i
    using key_free[of u i] that by (simp add: uniqueKeys_def)
  have idem_free: "map_get (runs s) i = None"
    if "map_get (runIdempotencyKeys s) (runIdempotencyKey (rt_host s) k) = Some i" "cr_idempotencyKey input = Some k" for k i
  proof (rule ccontr)
    assume "map_get (runs s) i \<noteq> None"
    then have "known_run s i" using inv by (auto simp: run_inv_def run_row_ok_def)
    with may that show False by (simp add: may_create_def truthy_known)
  qed
  have rows: "run_row_ok ?s' k q" if "map_get (runs ?s') k = Some q" for k q
  proof (cases "q = ?r")
    case True
    with that ids[of k ?r] fresh have "k = run_id ?r" by (auto simp: after_create_def split: if_splits)
    with True show ?thesis
      using parent by (auto simp: run_row_ok_def known_run_def after_create_def created_run_def run_before_def)
  next
    case False
    with that have "map_get (runs s) k = Some q" by (auto simp: after_create_def split: if_splits)
    with inv later show ?thesis by (auto simp: run_inv_def intro: run_row_ok_later)
  qed
  have keys: "idempotency_of (rt_host s) ?r = map_option (runIdempotencyKey (rt_host s)) (cr_idempotencyKey input)"
    "unique_of (rt_host s) scope ?r = (case cr_unique input of None \<Rightarrow> None
       | Some u \<Rightarrow> if uq_scope u = scope then Some (uniqueKey (rt_host s) u) else None)" for scope
    by (simp_all add: idempotency_of_def unique_of_def created_run_def split: option.split)
  have runs': "runs ?s' = map_set (run_id ?r) ?r (runs s)" by (simp add: after_create_def)
  have "index_ok (runs ?s') (runIdempotencyKeys ?s') (idempotency_of (rt_host s))"
    unfolding runs'
  proof (rule index_ok_insert)
    show "index_ok (runs s) (runIdempotencyKeys s) (idempotency_of (rt_host s))"
      using inv by (simp add: run_inv_def)
  qed (use idem_free in \<open>auto simp: keys after_create_def split: option.split\<close>)
  moreover have "index_ok (runs ?s') (activeUniqueRunKeys ?s') (unique_of (rt_host s) ActiveScope)"
    unfolding runs'
  proof (rule index_ok_insert)
    show "index_ok (runs s) (activeUniqueRunKeys s) (unique_of (rt_host s) ActiveScope)"
      using inv by (simp add: run_inv_def)
  qed (use active_free in \<open>auto simp: keys after_create_def split: option.splits if_splits\<close>)
  moreover have "index_ok (runs ?s') (allUniqueRunKeys ?s') (unique_of (rt_host s) AllScope)"
    unfolding runs'
  proof (rule index_ok_insert)
    show "index_ok (runs s) (allUniqueRunKeys s) (unique_of (rt_host s) AllScope)"
      using inv by (simp add: run_inv_def)
  qed (use all_free in \<open>auto simp: keys after_create_def split: option.splits if_splits\<close>)
  moreover have "map_get (runs ?s') i \<noteq> None" if "map_get (runIdempotencyKeys ?s') k = Some i" for k i
    using that inv by (auto simp: run_inv_def after_create_def split: option.splits if_splits)
  ultimately show ?thesis
    using rows inv by (simp add: run_inv_def after_create_def)
qed

section \<open>Deleting runs\<close>

lemma index_ok_delete:
  assumes "index_ok rs index key" and "wf_map rs"
  shows "index_ok (map_remove_where (\<lambda>i _. i \<in> T) rs) (map_remove_where (\<lambda>_ i. i \<in> T) index) key"
  using assms by (auto simp: index_ok_def map_get_filter split: option.splits if_splits)

lemma deleteRunTrees_runs:
  "runs (deleteRunTrees ids s) = map_remove_where (\<lambda>i _. i \<in> set ids) (runs s)"
  by (simp add: deleteRunTrees_def)

lemma run_inv_delete: "run_inv s \<Longrightarrow> run_inv (deleteRunTrees ids s)"
proof -
  assume inv: "run_inv s"
  let ?s' = "deleteRunTrees ids s"
  have wf: "wf_map (runs s)" "wf_map (runIdempotencyKeys s)"
    using inv by (simp_all add: run_inv_def index_ok_def)
  have later: "later s ?s'" by (simp add: frame_simps)
  have rows: "run_row_ok ?s' k r" if "map_get (runs ?s') k = Some r" for k r
    using that inv later wf
    by (auto simp: deleteRunTrees_runs map_get_filter run_inv_def intro: run_row_ok_later
          split: option.splits if_splits)
  have idem: "map_get (runs ?s') i \<noteq> None" if "map_get (runIdempotencyKeys ?s') k = Some i" for k i
    using that inv wf
    by (auto simp: deleteRunTrees_def map_get_filter run_inv_def split: option.splits if_splits)
  show "run_inv ?s'"
  proof (cases "ids = []")
    case True
    with inv show ?thesis by (simp add: deleteRunTrees_def)
  next
    case False
    have "wf_map (runs ?s')" using wf by (simp add: deleteRunTrees_runs)
    moreover have "index_ok (runs ?s') (runIdempotencyKeys ?s') (idempotency_of (rt_host ?s'))"
      "index_ok (runs ?s') (activeUniqueRunKeys ?s') (unique_of (rt_host ?s') ActiveScope)"
      "index_ok (runs ?s') (allUniqueRunKeys ?s') (unique_of (rt_host ?s') AllScope)"
      using inv False by (simp_all add: run_inv_def deleteRunTrees_def index_ok_delete)
    ultimately show ?thesis
      using rows idem unfolding run_inv_def by blast
  qed
qed

lemma sweep_frames:
  "run_view (sweepDeadCommands t s) = run_view s" "node_view (sweepDeadCommands t s) = node_view s"
  "later s (sweepDeadCommands t s)"
  by (simp_all add: sweepDeadCommands_def view_defs)

text \<open>Every deletion is the deletion of a set of trees, then a sweep of old dead commands.\<close>

lemma delete_step_cases:
  assumes "delete_step s s'"
  obtains "s' = s" | ids where "s' = deleteRunTrees ids s" | t ids where "s' = sweepDeadCommands t (deleteRunTrees ids s)"
    | t where "s' = sweepDeadCommands t s"
  using assms
  by (cases rule: delete_step.cases)
     (auto simp: deleteRun_def pruneTerminalRuns_def Let_def split: option.splits if_splits)

section \<open>The invariant holds of every reachable state\<close>

lemma run_inv_status: "run_status_step s s' \<Longrightarrow> run_inv s \<Longrightarrow> later s s' \<Longrightarrow> run_inv s'"
  by (cases rule: run_status_step.cases) (auto intro: run_inv_write)

lemma run_inv_createRun:
  assumes "run_inv s" and "\<And>p. cr_parentRunId input = Some p \<Longrightarrow> known_run s p"
  shows "run_inv (snd (createRunWithState input s))"
proof (cases "may_create input s")
  case True
  have "run_inv (after_create input s)" using assms(1) True assms(2) by (rule run_inv_create)
  then show ?thesis
    by (rule run_inv_frame)
       (simp_all add: createRunWithState_new[OF True] view_quiet later_quiet)
next
  case False
  with assms show ?thesis by (simp add: createRunWithState_old)
qed

lemma run_inv_root: "run_inv s \<Longrightarrow> root_input input \<Longrightarrow> run_inv (snd (createRunWithState input s))"
  by (rule run_inv_createRun) (simp_all add: root_input_def)

lemma run_inv_ensureChildRun:
  assumes inv: "run_inv s" and "known_run s (ecr_runId p)"
  shows "run_inv (snd (ensureChildRun p s))"
proof -
  have created: "run_inv (snd (createRunWithState (childRunInput p) s))"
    by (rule run_inv_createRun[OF inv]) (use assms(2) in \<open>simp add: childRunInput_def split: if_splits\<close>)
  show ?thesis
    unfolding ensureChildRun_def Let_def
    using inv created
    by (auto split: option.split sum.split prod.split simp: case_prod_beta
          intro!: run_inv_frame[OF created] simp: view_quiet later_quiet later_now)
qed

interpretation run_invariant: runtime_invariant run_inv
proof
  show "run_inv (createInMemoryWorkflowRuntime h n)" for h n
    by (simp add: run_inv_def createInMemoryWorkflowRuntime_def index_ok_def)
next
  fix s s'
  assume inv: "run_inv s" and "work_step s s'"
  from this(2) show "run_inv s'"
    by (cases rule: work_step.cases)
       (simp_all add: inv run_inv_root run_inv_ensureChildRun run_inv_status[OF run_status_steps(1)]
          run_inv_status[OF run_status_steps(2)] run_inv_status[OF run_status_steps(3)]
          run_inv_status[OF run_status_steps(4)] run_inv_status[OF run_status_steps(5)]
          run_inv_status[OF run_status_steps(6)] frame_simps run_inv_frame[OF inv] later_now
          dispatchActivity_def dispatchTask_def calm_steps)
next
  fix s s'
  assume inv: "run_inv s" and "delete_step s s'"
  from this(2) show "run_inv s'"
    by (cases rule: delete_step_cases)
       (auto intro: inv run_inv_delete run_inv_frame[OF inv] run_inv_frame[OF run_inv_delete[OF inv]]
          simp: sweep_frames)
qed

section \<open>Rows evolve along the table\<close>

text \<open>What a step may do to the table of runs.\<close>

definition runs_advance :: "runtime \<Rightarrow> runtime \<Rightarrow> bool" where
  "runs_advance s s' \<longleftrightarrow> (\<forall>k r'. map_get (runs s') k = Some r' \<longrightarrow>
     (map_get (runs s) k = None \<and> k = mk_id ''run'' (nextId s) \<and> run_status r' = RQueued \<and> run_version r' = 1)
     \<or> (\<exists>r. map_get (runs s) k = Some r \<and> run_evolves r r'))"

lemma runs_advance_same: "runs s' = runs s \<Longrightarrow> runs_advance s s'"
  by (simp add: runs_advance_def run_evolves_def)

lemma runs_advance_cong: "runs_advance s t \<Longrightarrow> runs s' = runs t \<Longrightarrow> runs_advance s s'"
  by (simp add: runs_advance_def)

lemma runs_advance_view: "run_view s' = run_view s \<Longrightarrow> runs_advance s s'"
  by (rule runs_advance_same) (simp add: run_view_def)

lemma runs_advance_status: "run_inv s \<Longrightarrow> run_status_step s s' \<Longrightarrow> runs_advance s s'"
proof (erule run_status_step.cases)
  fix i r r' t t'
  assume "run_inv s" and s: "s = t" "s' = t'" and w: "writes_run i r r' t t'"
  then have "run_updatedAt r \<le> lastTimestamp s"
    using run_inv_row[of s i r] by (simp add: writes_run_def run_row_ok_def)
  with w s have "run_evolves r r'" by (simp add: writes_run_def run_evolves_def)
  with w s show ?thesis by (auto simp: writes_run_def runs_advance_def run_evolves_def)
qed (simp add: runs_advance_same)

lemma run_inv_fresh: "run_inv s \<Longrightarrow> map_get (runs s) (mk_id ''run'' (nextId s)) = None"
  using run_inv_row[of s "mk_id ''run'' (nextId s)"]
  by (cases "map_get (runs s) (mk_id ''run'' (nextId s))") (auto simp: run_row_ok_def)

lemma runs_advance_createRun: "run_inv s \<Longrightarrow> runs_advance s (snd (createRunWithState input s))"
  by (cases "may_create input s")
     (auto simp: createRunWithState_new createRunWithState_old runs_advance_same runs_advance_def
        run_evolves_def after_create_def created_run_def run_inv_fresh)

lemma runs_ensureChildRun:
  "runs (snd (ensureChildRun p s)) = runs s
   \<or> runs (snd (ensureChildRun p s)) = runs (snd (createRunWithState (childRunInput p) s))"
  by (auto simp: ensureChildRun_def Let_def case_prod_beta split: option.split sum.split prod.split)

lemma runs_advance_ensureChildRun: "run_inv s \<Longrightarrow> runs_advance s (snd (ensureChildRun p s))"
  using runs_ensureChildRun[of p s] runs_advance_same runs_advance_cong[OF runs_advance_createRun] by metis

lemma work_step_runs: "work_step s s' \<Longrightarrow> run_inv s \<Longrightarrow> runs_advance s s'"
  by (induction rule: work_step.induct)
     (simp_all add: runs_advance_createRun runs_advance_ensureChildRun
        runs_advance_status[OF _ run_status_steps(1)] runs_advance_status[OF _ run_status_steps(2)]
        runs_advance_status[OF _ run_status_steps(3)] runs_advance_status[OF _ run_status_steps(4)]
        runs_advance_status[OF _ run_status_steps(5)] runs_advance_status[OF _ run_status_steps(6)]
        frame_simps runs_advance_view dispatchActivity_def dispatchTask_def calm_steps)

lemma runs_advance_delete: "run_inv s \<Longrightarrow> runs_advance s (deleteRunTrees ids s)"
  by (auto simp: runs_advance_def deleteRunTrees_runs map_get_filter run_inv_def run_evolves_def
        split: option.splits if_splits)

lemma sweep_runs [simp]: "runs (sweepDeadCommands t s) = runs s"
  by (simp add: sweepDeadCommands_def)

lemma delete_step_runs: "delete_step s s' \<Longrightarrow> run_inv s \<Longrightarrow> runs_advance s s'"
  by (erule delete_step_cases)
     (auto simp: runs_advance_same runs_advance_delete intro: runs_advance_cong[OF runs_advance_delete])

lemma step_runs: "step s s' \<Longrightarrow> reachable s \<Longrightarrow> runs_advance s s'"
  using run_invariant.holds by (auto simp: step_def work_step_runs delete_step_runs)

interpretation run_table: row_table runs run_evolves "''run''"
proof
  show "(\<exists>n. map_get (runs s) k = None \<and> k = mk_id ''run'' n \<and> nextId s \<le> n)
      \<or> (\<exists>r. map_get (runs s) k = Some r \<and> run_evolves r r')"
    if "reachable s" "step s s'" "map_get (runs s') k = Some r'" for s s' k r'
    using step_runs[OF that(2,1)] that(3) by (auto simp: runs_advance_def)
  show "issued (nextId s) k" if "reachable s" "map_get (runs s) k = Some r" for s k r
    using run_inv_row[OF run_invariant.holds[OF that(1)] that(2)]
    by (auto simp: run_row_ok_def known_run_def)
qed

lemma run_evolves_closure:
  assumes "run_evolves\<^sup>*\<^sup>* r r'"
  shows "(canTransition RUN_TRANSITIONS)\<^sup>*\<^sup>* (run_status r) (run_status r')" and "run_version r \<le> run_version r'"
    and "run_identity r' = run_identity r" and "isTerminalRunStatus (run_status r) \<Longrightarrow> r' = r"
  using assms
proof (induction rule: rtranclp_induct)
  case (step q u)
  { case 1 from step show ?case by (auto simp: run_evolves_def intro: rtranclp.rtrancl_into_rtrancl) }
  { case 2 from step show ?case by (auto simp: run_evolves_def) }
  { case 3 from step show ?case by (auto simp: run_evolves_def) }
  { case 4 from step 4 show ?case by (auto simp: run_evolves_def dest: run_machine.terminal_stuck) }
qed simp_all

section \<open>The unique indexes are exact\<close>

text \<open>
  An entry of a unique index names a stored run that holds the key: the slot of a run is
  free again as soon as the run is terminal (active scope) or deleted.
\<close>

definition scope_exact :: "RunUniqueScope \<Rightarrow> runtime \<Rightarrow> bool" where
  "scope_exact scope s \<longleftrightarrow> (\<forall>k i. map_get (uniqueKeys scope s) k = Some i \<longrightarrow>
     (\<exists>r. map_get (runs s) i = Some r \<and> unique_of (rt_host s) scope r = Some k))"

definition unique_exact :: "runtime \<Rightarrow> bool" where
  "unique_exact s \<longleftrightarrow> (\<forall>scope. scope_exact scope s)"

lemma uniqueKeys_simps [simp]:
  "uniqueKeys ActiveScope s = activeUniqueRunKeys s" "uniqueKeys AllScope s = allUniqueRunKeys s"
  by (simp_all add: uniqueKeys_def)

lemma unique_exactD:
  "unique_exact s \<Longrightarrow> map_get (uniqueKeys scope s) k = Some i \<Longrightarrow>
     \<exists>r. map_get (runs s) i = Some r \<and> unique_of (rt_host s) scope r = Some k"
  by (simp add: unique_exact_def scope_exact_def)

lemmas active_exactD = unique_exactD[of _ ActiveScope, simplified uniqueKeys_simps]
lemmas all_exactD = unique_exactD[of _ AllScope, simplified uniqueKeys_simps]

lemma unique_exact_frame: "unique_exact s \<Longrightarrow> run_view s' = run_view s \<Longrightarrow> unique_exact s'"
  by (auto simp: unique_exact_def scope_exact_def uniqueKeys_def run_view_def split: RunUniqueScope.splits)

lemma unique_exact_write:
  assumes inv: "run_inv s" and exact: "unique_exact s" and w: "writes_run i r r' s s'"
  shows "unique_exact s'"
proof -
  from w have r: "map_get (runs s) i = Some r" and live: "\<not> isTerminalRunStatus (run_status r)"
    and ident: "run_identity r' = run_identity r"
    by (auto simp: writes_run_def dest: run_machine.terminal_stuck)
  have id: "run_id r' = i" using run_inv_row[OF inv r] run_identity_keys(1)[OF ident] by (simp add: run_row_ok_def)
  have "scope_exact AllScope s'"
    using all_exactD[OF exact] w unique_of_evolved(1)[OF ident live] r
    by (fastforce simp: scope_exact_def writes_run_def)
  moreover have "scope_exact ActiveScope s'"
    unfolding scope_exact_def
  proof (intro allI impI)
    fix k j
    assume entry: "map_get (uniqueKeys ActiveScope s') k = Some j"
    then have old: "map_get (activeUniqueRunKeys s) k = Some j"
      using w by (auto simp: writes_run_def releaseActiveUniqueKey_def Let_def split: if_splits option.splits)
    then obtain q where q: "map_get (runs s) j = Some q" "unique_of (rt_host s) ActiveScope q = Some k"
      using active_exactD[OF exact] by blast
    have "\<not> isTerminalRunStatus (run_status r')" if "j = i"
    proof
      assume "isTerminalRunStatus (run_status r')"
      with entry w have "map_get (activeUniqueRunKeys (releaseActiveUniqueKey r' s)) k = Some j"
        by (simp add: writes_run_def)
      with q that r id old run_identity_keys(2)[OF ident] show False
        by (auto simp: unique_of_def releaseActiveUniqueKey_def Let_def split: option.splits if_splits)
    qed
    with q w r unique_of_evolved(2)[OF ident live] show "\<exists>r. map_get (runs s') j = Some r \<and> unique_of (rt_host s') ActiveScope r = Some k"
      by (auto simp: writes_run_def)
  qed
  ultimately show ?thesis by (metis unique_exact_def RunUniqueScope.exhaust)
qed

lemma after_create_unique:
  "uniqueKeys scope (after_create input s) =
     (case cr_unique input of
        None \<Rightarrow> uniqueKeys scope s
      | Some u \<Rightarrow> if uq_scope u = scope
                 then map_set (uniqueKey (rt_host s) u) (run_id (created_run input s)) (uniqueKeys scope s)
                 else uniqueKeys scope s)"
  by (cases scope) (simp_all add: after_create_def split: option.split)

lemma unique_exact_create:
  assumes inv: "run_inv s" and exact: "unique_exact s"
  shows "unique_exact (snd (createRunWithState input s))"
proof (cases "may_create input s")
  case True
  let ?r = "created_run input s"
  have fresh: "map_get (runs s) (run_id ?r) = None" using run_inv_fresh[OF inv] by simp
  have "unique_exact (after_create input s)"
    unfolding unique_exact_def scope_exact_def
  proof (intro allI impI)
    fix scope k i
    assume entry: "map_get (uniqueKeys scope (after_create input s)) k = Some i"
    have "(\<exists>u. cr_unique input = Some u \<and> uq_scope u = scope \<and> k = uniqueKey (rt_host s) u \<and> i = run_id ?r)
        \<or> map_get (uniqueKeys scope s) k = Some i"
      using entry unfolding after_create_unique by (cases "cr_unique input") (simp_all split: if_splits)
    then consider u where "cr_unique input = Some u" "uq_scope u = scope" "k = uniqueKey (rt_host s) u" "i = run_id ?r"
      | "map_get (uniqueKeys scope s) k = Some i"
      by blast
    then show "\<exists>r. map_get (runs (after_create input s)) i = Some r
        \<and> unique_of (rt_host (after_create input s)) scope r = Some k"
    proof cases
      case 1
      then show ?thesis by (simp add: after_create_def unique_of_def created_run_def)
    next
      case 2
      with unique_exactD[OF exact] obtain q where "map_get (runs s) i = Some q" "unique_of (rt_host s) scope q = Some k"
        by blast
      with fresh show ?thesis by (auto simp: after_create_def)
    qed
  qed
  then show ?thesis
    by (rule unique_exact_frame) (simp add: createRunWithState_new[OF True] view_quiet)
next
  case False
  with exact show ?thesis by (simp add: createRunWithState_old)
qed

lemma unique_exact_ensureChildRun:
  assumes "run_inv s" and "unique_exact s"
  shows "unique_exact (snd (ensureChildRun p s))"
  unfolding ensureChildRun_def Let_def
  using assms unique_exact_create[OF assms, of "childRunInput p"]
  by (auto split: option.split sum.split prod.split simp: case_prod_beta view_quiet
        intro!: unique_exact_frame[OF unique_exact_create[OF assms, of "childRunInput p"]])

lemma unique_exact_delete:
  assumes inv: "run_inv s" and exact: "unique_exact s"
  shows "unique_exact (deleteRunTrees ids s)"
proof (cases "ids = []")
  case False
  have wf: "wf_map (runs s)" "wf_map (activeUniqueRunKeys s)" "wf_map (allUniqueRunKeys s)"
    using inv by (simp_all add: run_inv_def index_ok_def)
  have "scope_exact scope (deleteRunTrees ids s)" for scope
    using active_exactD[OF exact] all_exactD[OF exact] wf False
    by (cases scope)
       (fastforce simp: scope_exact_def deleteRunTrees_def map_get_filter split: option.splits if_splits)+
  then show ?thesis by (simp add: unique_exact_def)
qed (use exact in \<open>simp add: deleteRunTrees_def\<close>)

lemma unique_exact_status: "run_status_step s s' \<Longrightarrow> run_inv s \<Longrightarrow> unique_exact s \<Longrightarrow> unique_exact s'"
  by (cases rule: run_status_step.cases) (auto intro: unique_exact_write)

interpretation unique_invariant: runtime_invariant "\<lambda>s. run_inv s \<and> unique_exact s"
proof (rule runtime_invariant_conj[OF run_invariant.runtime_invariant_axioms])
  show "unique_exact (createInMemoryWorkflowRuntime h n)" for h n
    by (auto simp: unique_exact_def scope_exact_def createInMemoryWorkflowRuntime_def uniqueKeys_def
          split: RunUniqueScope.splits)
next
  fix s s'
  assume inv: "run_inv s" "unique_exact s" and "work_step s s'"
  from this(3) show "unique_exact s'"
    by (cases rule: work_step.cases)
       (simp_all add: inv unique_exact_create unique_exact_ensureChildRun unique_exact_status[OF run_status_steps(1)]
          unique_exact_status[OF run_status_steps(2)] unique_exact_status[OF run_status_steps(3)]
          unique_exact_status[OF run_status_steps(4)] unique_exact_status[OF run_status_steps(5)]
          unique_exact_status[OF run_status_steps(6)] frame_simps unique_exact_frame[OF inv(2)]
          dispatchActivity_def dispatchTask_def calm_steps)
next
  fix s s'
  assume inv: "run_inv s" "unique_exact s" and "delete_step s s'"
  from this(3) show "unique_exact s'"
    by (cases rule: delete_step_cases)
       (auto intro: inv unique_exact_delete unique_exact_frame[OF inv(2)] unique_exact_frame[OF unique_exact_delete[OF inv]]
          simp: sweep_frames)
qed

text \<open>Looking a stored run up under its keys.\<close>

lemma index_okD:
  "index_ok rs index key \<Longrightarrow> map_get rs i = Some r \<Longrightarrow> run_id r = i \<Longrightarrow> key r = Some k \<Longrightarrow> map_get index k = Some i"
  by (auto simp: index_ok_def)

lemma run_inv_unique:
  assumes "run_inv s" and "map_get (runs s) i = Some r" and "unique_of (rt_host s) scope r = Some key"
  shows "map_get (uniqueKeys scope s) key = Some i"
proof -
  have "run_id r = i" using run_inv_row[OF assms(1,2)] by (simp add: run_row_ok_def)
  with assms show ?thesis
    using index_okD[of "runs s" "uniqueKeys scope s" "unique_of (rt_host s) scope" i r key]
    by (cases scope) (simp_all add: run_inv_def)
qed

lemma run_inv_idempotency:
  assumes "run_inv s" and "map_get (runs s) i = Some r" and "run_idempotencyKey r = Some key"
  shows "truthy (map_get (runIdempotencyKeys s) (runIdempotencyKey (rt_host s) key)) = Some i"
proof -
  have "run_id r = i" "known_run s i" using run_inv_row[OF assms(1,2)] by (simp_all add: run_row_ok_def)
  with assms show ?thesis
    using index_okD[of "runs s" "runIdempotencyKeys s" "idempotency_of (rt_host s)" i r]
    by (simp add: run_inv_def idempotency_of_def truthy_known)
qed

end
