(* ===== verification/Samples.thy ===== *)
theory Samples
  imports Steps
begin

text \<open>
  A concrete host and a few concrete runtimes. The witnesses of the properties evaluate
  the operations on them.
\<close>

section \<open>A host\<close>

text \<open>A clock that stands still at first and then jumps back, collation by length and then code points, decimal numerals.\<close>

fun sample_clock :: "nat \<Rightarrow> int" where
  "sample_clock n = (if n < 4 then 1000 else 500 + int n)"

definition rank :: "string \<Rightarrow> nat" where
  "rank t = foldl (\<lambda>r c. 257 * r + of_char c + 1) 0 t"

definition rank_compare :: "string \<Rightarrow> string \<Rightarrow> int" where
  "rank_compare x y = int (rank x) - int (rank y)"

text \<open>The fractional part of a number is never printed on the samples.\<close>

definition decimal_numerics :: numerics where
  "decimal_numerics =
     \<lparr>stringToNumber = (\<lambda>t. if t = [] then Fin 0
                            else if list_all is_digit t then Fin (of_nat (read_nat t)) else NaN),
      roundDouble = Fin\<rparr>"

definition sample_host :: host where
  "sample_host =
     \<lparr>clock = sample_clock, localeCompare = rank_compare,
      numToString = (\<lambda>r. show_nat (nat \<lfloor>r\<rfloor>)), dateToString = (\<lambda>t. show_nat (nat t)),
      toISOString = (\<lambda>t. show_nat (nat t)), nums = decimal_numerics\<rparr>"

interpretation rank_order: comparator rank_compare
  by unfold_locales (auto simp: rank_compare_def)

lemma rank_snoc: "rank (t @ [c]) = 257 * rank t + of_char c + 1"
  by (simp add: rank_def)

lemma rank_digits:
  assumes "257 * p + of_char c = 257 * q + (of_char d :: nat)"
  shows "c = d \<and> p = q"
proof -
  have "(257 * p + of_char c) div 257 = p" "(257 * q + of_char d) div 257 = q"
    using nat_of_char_less_256[of c] nat_of_char_less_256[of d] by (simp_all add: div_less less_trans[of _ 256])
  with assms have "p = q" by metis
  with assms show ?thesis by simp
qed

lemma rank_inject: "rank x = rank y \<Longrightarrow> x = y"
proof (induction x arbitrary: y rule: rev_induct)
  case Nil
  then show ?case by (cases y rule: rev_cases) (simp_all add: rank_def)
next
  case (snoc c x)
  show ?case
  proof (cases y rule: rev_cases)
    case Nil
    with snoc.prems show ?thesis by (simp add: rank_def)
  next
    case (snoc z d)
    with snoc.prems have "257 * rank x + of_char c = 257 * rank z + of_char d" by (simp add: rank_snoc)
    from rank_digits[OF this] snoc.IH[of z] snoc show ?thesis by simp
  qed
qed

lemma rank_compare_eq: "rank_compare x y = 0 \<Longrightarrow> x = y"
  by (auto simp: rank_compare_def dest: rank_inject)

lemma decimal_reads: "reads_decimals decimal_numerics"
  using show_nat_digits by (auto simp: reads_decimals_def decimal_numerics_def list_all_iff)

lemma decimal_exact: "exact_integers decimal_numerics"
  by (simp add: exact_integers_def decimal_numerics_def)

section \<open>Runtimes\<close>

definition root_workflow :: "jsval list option \<Rightarrow> ResolvedRunUnique option \<Rightarrow> CreateRunInput" where
  "root_workflow idempotency unique =
     \<lparr>cr_kind = None, cr_name = None, cr_workflowName = ''order'', cr_taskName = None,
      cr_input = JObj [(''id'', JNum (Fin 7))], cr_parentRunId = None, cr_parentNodeName = None,
      cr_rootRunId = None, cr_tags = None, cr_idempotencyKey = idempotency, cr_unique = unique\<rparr>"

definition sample_key :: "jsval list" where
  "sample_key = [JStr ''order'', JStr ''7'']"

definition active_once :: ResolvedRunUnique where
  "active_once = \<lparr>uq_key = sample_key, uq_scope = ActiveScope, uq_behavior = RejectRun\<rparr>"

definition empty_runtime :: runtime where
  "empty_runtime = createInMemoryWorkflowRuntime sample_host (Some 3)"

text \<open>One run, its node with one child, the first attempt of that child dispatched.\<close>

definition one_run :: runtime where
  "one_run = snd (createRunWithState (root_workflow (Some sample_key) (Some active_once)) empty_runtime)"

definition one_node :: runtime where
  "one_node = snd (createNode ''run-1'' ''charge'' ActivityNode one_run)"

definition self_child :: EnsureNodeChildInput where
  "self_child = \<lparr>ec_childKey = SELF_CHILD_KEY, ec_kind = ActivityChild, ec_ordinal = None, ec_itemKey = None, ec_item = None\<rparr>"

definition one_child :: runtime where
  "one_child = snd (ensureNodeChildren ''run-1'' ''charge'' [self_child] one_node)"

definition self_attempt :: CreateAttemptInput where
  "self_attempt = \<lparr>ca_runId = ''run-1'', ca_nodeName = ''charge'', ca_childKey = SELF_CHILD_KEY,
     ca_input = JNull, ca_idempotencyKey = None\<rparr>"

definition one_attempt :: runtime where
  "one_attempt = snd (createAttempt self_attempt one_child)"

definition charge_command :: AttemptCommand where
  "charge_command = ActivityAttempt ''order'' ''charge'' ''run-1'' ''charge'' SELF_CHILD_KEY ''attempt-2''
     (Some ''attempt-lease-3'') JNull None"

definition one_command :: runtime where
  "one_command = dispatchActivity charge_command None one_attempt"

definition sample_worker :: ExecutionWorkerClaim where
  "sample_worker = \<lparr>ew_workerId = ''w'', ew_workflowNames = [''order''], ew_activityNames = None, ew_taskNames = [], ew_leaseMs = 5\<rparr>"

definition one_claim :: runtime where
  "one_claim = snd (claimAttempt sample_worker one_command)"

lemma reachable_empty: "reachable empty_runtime"
  unfolding reachable_def empty_runtime_def by blast

lemma root_workflow_root: "root_input (root_workflow i u)"
  by (simp add: root_input_def root_workflow_def)

lemma show_digit: "n < 10 \<Longrightarrow> show_nat n = [digit_char n]"
  by (subst show_nat.simps) simp

lemma digit_chars:
  "digit_char 1 = CHR ''1''" "digit_char 2 = CHR ''2''" "digit_char 3 = CHR ''3''" "digit_char 4 = CHR ''4''"
  "digit_char 5 = CHR ''5''" "digit_char 6 = CHR ''6''" "digit_char 7 = CHR ''7''" "digit_char 8 = CHR ''8''"
  by (simp_all add: digit_char_def char_of_def bit_Suc_0_iff)

lemmas sample_ids = mk_id_def show_digit digit_chars digit_chars(1)[simplified] numeral_2_eq_2[symmetric]

lemma run_1: "''run-1'' = mk_id ''run'' 1"
  by (simp add: sample_ids)

lemma reachable_one_run: "reachable one_run"
  unfolding one_run_def using reachable_work[OF reachable_empty create_run[OF root_workflow_root]] .

lemmas sample_defs =
  one_attempt_def one_child_def one_node_def one_run_def empty_runtime_def self_attempt_def self_child_def
  root_workflow_def active_once_def one_command_def charge_command_def one_claim_def sample_worker_def

lemma sample_host_fields [simp]:
  "clock sample_host = sample_clock" "localeCompare sample_host = rank_compare" "nums sample_host = decimal_numerics"
  by (simp_all add: sample_host_def)

text \<open>The equations by which a sample computes; keys made by \<open>valueKey\<close> stay symbolic.\<close>

lemmas sample_eval =
  createInMemoryWorkflowRuntime_def now_eq fresh_id_def wake_defs runRootId_def
  createRunWithState_def conflictingRun_def uniqueKeys_def newRun_def registerRun_def truthy_def run_kind_of_def
  runnableName_def createNode_def ensureNodeChildren_def nodeChildren_def newChild_def sortedChildren_def
  createAttempt_def createChildAttempt_def insertChildAttempt_def mirrorNodeRunning_def canTransition_def
  nodeKey_def childKey_def SELF_CHILD_KEY_def sample_ids Let_def
  dispatchActivity_def dispatchAttempt_def attemptCommandExists_def queueItem_def wakeCommand_def isDue_def Date_now_def
  claimAttempt_def reclaimExpiredLeases_def claimQueued_def best_index_def live_def due_at_def attemptEligible_def
  compareAttemptCommands_def compare_then_def splice_out_def

lemma nextId_samples:
  "nextId one_run = 2" "nextId one_node = 2" "nextId one_child = 2" "nextId one_attempt = 4"
  "nextId one_command = 5" "nextId one_claim = 6"
  by (simp_all add: sample_defs sample_eval)

lemma known_run_1: "1 < nextId s \<Longrightarrow> known_run s ''run-1''"
  unfolding known_run_def run_1 by blast

lemma charge_name: "nodeNamePattern ''charge''"
  by (simp add: nodeNamePattern_def name_start_char_def)

lemma reachable_one_node: "reachable one_node"
  unfolding one_node_def
  by (rule reachable_work[OF reachable_one_run create_node]) (simp_all add: known_run_1 nextId_samples charge_name)

lemma reachable_one_child: "reachable one_child"
  unfolding one_child_def
  by (rule reachable_work[OF reachable_one_node ensure_children]) (simp_all add: known_run_1 nextId_samples)

lemma reachable_one_attempt: "reachable one_attempt"
  unfolding one_attempt_def by (rule reachable_work[OF reachable_one_child create_attempt])

lemma reachable_one_command: "reachable one_command"
  unfolding one_command_def by (rule reachable_work[OF reachable_one_attempt dispatch_activity])

lemma reachable_one_claim: "reachable one_claim"
  unfolding one_claim_def by (rule reachable_work[OF reachable_one_command claim_attempt])

end
