(* ===== verification/RunProperties.thy ===== *)
theory RunProperties
  imports RunSafety Samples
begin

text \<open>
  The guarantees of the run table, over every reachable runtime and every sequence of
  operations: legal status changes, final statuses, unique constraints and idempotency keys.
\<close>

section \<open>Status changes\<close>

lemma run_identity_task:
  "run_identity r' = run_identity r \<Longrightarrow> run_taskName r' = run_taskName r"
  by (cases r; cases r') (simp add: run_identity_def)

text \<open>
  C1: whatever operation runs, a stored run stays as it is or moves along the transition
  table, its version grows by exactly one, its update time grows, and every other
  field (identity, input, parent, root, tags, keys, creation time) is kept.
\<close>

theorem run_step_is_legal:
  assumes "reachable s" and "step s s'"
    and "map_get (runs s) k = Some r" and "map_get (runs s') k = Some r'"
  shows "r' = r \<or> canTransition RUN_TRANSITIONS (run_status r) (run_status r')
    \<and> run_version r' = run_version r + 1 \<and> run_updatedAt r < run_updatedAt r'
    \<and> r' = r\<lparr>run_status := run_status r', run_output := run_output r', run_error := run_error r',
           run_version := run_version r', run_updatedAt := run_updatedAt r'\<rparr>"
proof -
  have "run_evolves r r'"
    using step_runs[OF assms(2,1)] assms(3,4) unfolding runs_advance_def by (metis option.distinct(1) option.inject)
  moreover have "run_identity r' = run_identity r \<Longrightarrow>
    r' = r\<lparr>run_status := run_status r', run_output := run_output r', run_error := run_error r',
           run_version := run_version r', run_updatedAt := run_updatedAt r'\<rparr>"
    by (cases r; cases r') (simp add: run_identity_def)
  ultimately show ?thesis by (auto simp: run_evolves_def)
qed

theorem run_step_is_legal_witness:
  "\<exists>r r'. map_get (runs one_run) ''run-1'' = Some r
     \<and> map_get (runs (snd (markRunRunning ''run-1'' one_run))) ''run-1'' = Some r'
     \<and> run_status r = RQueued \<and> run_status r' = RRunning \<and> run_version r' = 2 \<and> run_updatedAt r < run_updatedAt r'"
proof -
  obtain r where r: "map_get (runs one_run) ''run-1'' = Some r" "run_status r = RQueued" "run_version r = 1"
    by (simp add: sample_defs sample_eval)
  obtain r' where r': "map_get (runs (snd (markRunRunning ''run-1'' one_run))) ''run-1'' = Some r'" "run_status r' = RRunning"
    by (simp add: sample_defs sample_eval markRunRunning_def)
  have "step one_run (snd (markRunRunning ''run-1'' one_run))"
    by (simp add: step_def mark_running)
  from run_step_is_legal[OF reachable_one_run this r(1) r'(1)] r r' show ?thesis by auto
qed

text \<open>
  C2: a run that reached a terminal status is never changed again by any sequence of
  operations; it can only be deleted, and then its identifier never names a run again.
\<close>

theorem terminal_run_is_final:
  assumes "reachable s" and "step\<^sup>*\<^sup>* s s'"
    and "map_get (runs s) k = Some r" and "isTerminalRunStatus (run_status r)"
  shows "map_get (runs s') k = Some r
    \<or> map_get (runs s') k = None \<and> (\<forall>t. step\<^sup>*\<^sup>* s' t \<longrightarrow> map_get (runs t) k = None)"
proof (cases "map_get (runs s') k")
  case None
  have "issued (nextId s') k"
    using run_table.row_issued[OF assms(1,3)] steps_later[OF assms(2)] by (auto simp: later_def intro: issued_mono)
  with None run_table.gone_stays[OF _ reachable_steps[OF assms(2,1)]] show ?thesis by blast
next
  case (Some r')
  with run_evolves_closure(4)[OF run_table.row_steps[OF assms(2,1,3) Some] assms(4)] show ?thesis by simp
qed

definition finished_run :: runtime where
  "finished_run = snd (completeRun ''run-1'' JNull one_run)"

lemma reachable_finished_run: "reachable finished_run"
  unfolding finished_run_def by (rule reachable_work[OF reachable_one_run complete_run])

theorem terminal_run_is_final_witness:
  "run_status (the (map_get (runs finished_run) ''run-1'')) = RCompleted
   \<and> map_get (runs (snd (failRun ''run-1'' (Plain JNull) finished_run))) ''run-1''
       = map_get (runs finished_run) ''run-1''"
proof -
  obtain r where r: "map_get (runs finished_run) ''run-1'' = Some r" "run_status r = RCompleted"
    by (simp add: sample_defs sample_eval finished_run_def completeRun_def releaseActiveUniqueKey_def)
  have "step\<^sup>*\<^sup>* finished_run (snd (failRun ''run-1'' (Plain JNull) finished_run))"
    by (simp add: step_def fail_run r_into_rtranclp)
  from terminal_run_is_final[OF reachable_finished_run this r(1)] r show ?thesis
    by (auto simp: failRun_def)
qed

section \<open>Unique constraints and idempotency keys\<close>

text \<open>
  C3: two stored runs never hold the same unique key: among runs that are not terminal
  for the active scope, among all stored runs for the all scope.
\<close>

theorem unique_key_has_one_run:
  assumes "reachable s"
    and "map_get (runs s) i = Some r" and "unique_of (rt_host s) scope r = Some key"
    and "map_get (runs s) j = Some q" and "unique_of (rt_host s) scope q = Some key"
  shows "i = j \<and> r = q"
proof -
  have "map_get (uniqueKeys scope s) key = Some i" "map_get (uniqueKeys scope s) key = Some j"
    using run_inv_unique[OF run_invariant.holds[OF assms(1)]] assms(2-5) by blast+
  with assms(2,4) show ?thesis by simp
qed

theorem unique_key_has_one_run_witness:
  "\<exists>r. map_get (runs one_run) ''run-1'' = Some r
     \<and> unique_of (rt_host one_run) ActiveScope r = Some (uniqueKey (rt_host one_run) active_once)
     \<and> (\<forall>j q. map_get (runs one_run) j = Some q \<longrightarrow>
          unique_of (rt_host one_run) ActiveScope q = Some (uniqueKey (rt_host one_run) active_once) \<longrightarrow> j = ''run-1'')"
proof -
  obtain r where r: "map_get (runs one_run) ''run-1'' = Some r"
    "unique_of (rt_host one_run) ActiveScope r = Some (uniqueKey (rt_host one_run) active_once)"
    by (simp add: sample_defs sample_eval unique_of_def)
  with unique_key_has_one_run[OF reachable_one_run r] show ?thesis by blast
qed

lemma create_run_again:
  assumes "reachable s" and "root_input input" and "cr_idempotencyKey input = Some key"
    and "createRunWithState input s = (Inr (r, True), s')"
    and "step\<^sup>*\<^sup>* s' t" and "map_get (runs t) (run_id r) = Some r'"
  shows "createRunWithState input t = (Inr (r', False), t)"
proof -
  have may: "may_create input s"
    using assms(4) by (auto simp: may_create_def createRunWithState_def split: option.splits if_splits RunUniqueBehavior.splits)
  have r: "r = created_run input s" and s': "s' = emitRunStatusEvent r (after_create input s)"
    using assms(4) by (auto simp: createRunWithState_new[OF may])
  have "reachable s'" using reachable_work[OF assms(1) create_run[OF assms(2)]] assms(4) by (metis snd_conv)
  moreover have "map_get (runs s') (run_id r) = Some r" by (simp add: s' r after_create_def)
  ultimately have same: "run_identity r' = run_identity r" and inv: "run_inv t"
    using run_evolves_closure(3)[OF run_table.row_steps[OF assms(5) _ _ assms(6)]]
      run_invariant.holds[OF reachable_steps[OF assms(5)]] by blast+
  have "run_idempotencyKey r' = Some key"
    using run_identity_keys(3)[OF same] assms(3) by (simp add: r created_run_def)
  note found = run_inv_idempotency[OF inv assms(6) this]
  have "runMatchesCreateInput (rt_host t) r' input"
    using assms(2) run_identity_keys[OF same] run_identity_task[OF same]
    by (simp add: runMatchesCreateInput_def r created_run_def newRun_def root_input_def sameValue_def)
  with found assms(3,6) show ?thesis by (simp add: createRunWithState_def)
qed

text \<open>
  C4: creation is idempotent. Once a call with an idempotency key created a run, the same
  call at any later moment at which the run is still stored returns that run as it
  then is, creates nothing and changes nothing.
\<close>

theorem create_run_is_idempotent:
  assumes "reachable s" and "root_input input" and "cr_idempotencyKey input = Some key"
    and "createRunWithState input s = (Inr (r, True), s')"
    and "step\<^sup>*\<^sup>* s' t" and "map_get (runs t) (run_id r) = Some r'"
  shows "createRunWithState input t = (Inr (r', False), t)"
  using assms by (rule create_run_again)

theorem create_run_is_idempotent_witness:
  "\<exists>r r'. createRunWithState (root_workflow (Some sample_key) (Some active_once)) empty_runtime = (Inr (r, True), one_run)
     \<and> run_status r' = RCompleted
     \<and> createRunWithState (root_workflow (Some sample_key) (Some active_once)) finished_run = (Inr (r', False), finished_run)"
proof -
  let ?i = "root_workflow (Some sample_key) (Some active_once)"
  obtain r where r: "createRunWithState ?i empty_runtime = (Inr (r, True), one_run)" "run_id r = ''run-1''"
    by (simp add: sample_defs sample_eval)
  obtain r' where r': "map_get (runs finished_run) ''run-1'' = Some r'" "run_status r' = RCompleted"
    by (simp add: sample_defs sample_eval finished_run_def completeRun_def releaseActiveUniqueKey_def)
  have "step\<^sup>*\<^sup>* one_run finished_run"
    unfolding finished_run_def by (simp add: step_def complete_run r_into_rtranclp)
  moreover have "cr_idempotencyKey ?i = Some sample_key" by (simp add: root_workflow_def)
  ultimately show ?thesis
    using create_run_is_idempotent[OF reachable_empty root_workflow_root _ r(1)] r r' by metis
qed

text \<open>
  A call whose idempotency key names a stored run that was started with another
  runnable, parent or input fails with the conflict error and changes nothing.
\<close>

theorem create_run_idempotency_conflict:
  assumes "reachable s" and "map_get (runs s) i = Some r" and "run_idempotencyKey r = Some key"
    and "cr_idempotencyKey input = Some key" and "\<not> runMatchesCreateInput (rt_host s) r input"
  shows "createRunWithState input s = throw (''Conflicting idempotent run ['' @ cr_workflowName input @ '']'') s"
  using run_inv_idempotency[OF run_invariant.holds[OF assms(1)] assms(2,3)] assms(2,4,5)
  by (simp add: createRunWithState_def)

theorem create_run_idempotency_conflict_witness:
  "createRunWithState ((root_workflow (Some sample_key) None)\<lparr>cr_workflowName := ''refund''\<rparr>) one_run
     = throw ''Conflicting idempotent run [refund]'' one_run"
proof -
  obtain r where r: "map_get (runs one_run) ''run-1'' = Some r" "run_idempotencyKey r = Some sample_key"
    "run_workflowName r = ''order''"
    by (simp add: sample_defs sample_eval)
  with create_run_idempotency_conflict[OF reachable_one_run r(1,2),
      of "(root_workflow (Some sample_key) None)\<lparr>cr_workflowName := ''refund''\<rparr>"]
  show ?thesis by (simp add: root_workflow_def runMatchesCreateInput_def)
qed

text \<open>
  A call with a unique constraint and no idempotency key creates a run exactly when no
  stored run holds the key in that scope; otherwise it joins the holder or reports it, by
  the behaviour the constraint asks for, and changes nothing.
\<close>

theorem create_run_unique:
  assumes "reachable s" and "cr_idempotencyKey input = None" and "cr_unique input = Some u"
  shows "fst (createRunWithState input s) =
    (case find (\<lambda>r. unique_of (rt_host s) (uq_scope u) r = Some (uniqueKey (rt_host s) u)) (map_values (runs s)) of
       None \<Rightarrow> Inr (created_run input s, True)
     | Some r \<Rightarrow> (case uq_behavior u of
                   JoinRun \<Rightarrow> Inr (r, False)
                 | RejectRun \<Rightarrow> Inl (WorkflowRunConflictError (run_id r) (run_status r) (uq_key u) (uq_scope u))))"
proof -
  let ?P = "\<lambda>r. unique_of (rt_host s) (uq_scope u) r = Some (uniqueKey (rt_host s) u)"
  have inv: "run_inv s" "unique_exact s" using unique_invariant.holds[OF assms(1)] by simp_all
  have wf: "wf_map (runs s)" using inv(1) by (simp add: run_inv_def)
  show ?thesis
  proof (cases "find ?P (map_values (runs s))")
    case None
    then have free: "\<not> ?P r" if "map_get (runs s) i = Some r" for i r
      using map_of_SomeD[OF that] by (auto simp: find_None_iff)
    have "conflictingRun u s = None"
    proof (cases "map_get (uniqueKeys (uq_scope u) s) (uniqueKey (rt_host s) u)")
      case (Some i)
      from unique_exactD[OF inv(2) Some] obtain q where "map_get (runs s) i = Some q" "?P q" by (elim exE conjE)
      with free[of i q] show ?thesis by simp
    qed (simp add: conflictingRun_def)
    with assms have "may_create input s" by (simp add: may_create_def)
    with None show ?thesis by (simp add: createRunWithState_new)
  next
    case (Some r)
    then obtain n where n: "n < length (map_values (runs s))" "?P r" "r = map_values (runs s) ! n"
      unfolding find_Some_iff by metis
    then have "r \<in> set (map_values (runs s))" by (metis nth_mem)
    with n(2) obtain i where i: "map_get (runs s) i = Some r" "?P r"
      unfolding in_map_values[OF wf] by (elim exE)
    have "conflictingRun u s = Some r"
      using run_inv_unique[OF inv(1) i] i by (simp add: conflictingRun_def)
    with Some assms show ?thesis by (simp add: createRunWithState_def split: RunUniqueBehavior.split)
  qed
qed

theorem create_run_unique_witness:
  "fst (createRunWithState (root_workflow None (Some active_once)) one_run)
     = Inl (WorkflowRunConflictError ''run-1'' RQueued sample_key ActiveScope)
   \<and> (\<exists>r. fst (createRunWithState (root_workflow None (Some active_once)) finished_run) = Inr (r, True))"
proof -
  have "cr_idempotencyKey (root_workflow None (Some active_once)) = None"
    "cr_unique (root_workflow None (Some active_once)) = Some active_once"
    by (simp_all add: root_workflow_def)
  note inst = create_run_unique[OF _ this]
  have "fst (createRunWithState (root_workflow None (Some active_once)) one_run)
      = Inl (WorkflowRunConflictError ''run-1'' RQueued sample_key ActiveScope)"
    unfolding inst[OF reachable_one_run] by (simp add: sample_defs sample_eval unique_of_def)
  moreover have "\<exists>r. fst (createRunWithState (root_workflow None (Some active_once)) finished_run) = Inr (r, True)"
    unfolding inst[OF reachable_finished_run]
    by (simp add: sample_defs sample_eval finished_run_def completeRun_def releaseActiveUniqueKey_def unique_of_def)
  ultimately show ?thesis by blast
qed

end
