(* ===== verification/NodeSafety.thy ===== *)
theory NodeSafety
  imports RunSafety
begin

text \<open>
  What the store guarantees about nodes, children and attempts. Every operation is a
  sequence of writes of single rows, each along the transition tables; the invariant
  says that rows are stored under their own keys, that the family tree of runs grows
  only downwards, and that the current attempt of a child exists and is its latest.
\<close>

section \<open>Keys\<close>

text \<open>An issued run identifier and a declared node name contain no colon: the keys do not collide.\<close>

lemma known_run_no_colon: "known_run s i \<Longrightarrow> CHR '':'' \<notin> set i"
  by (auto simp: known_run_def mk_id_def not_digit_show_nat is_digit_def)

lemma node_name_no_colon: "nodeNamePattern n \<Longrightarrow> CHR '':'' \<notin> set n"
  by (cases n) (auto simp: nodeNamePattern_def name_start_char_def is_digit_def list_all_iff)

lemma nodeKey_inject:
  assumes "nodeKey i n = nodeKey j m" and "CHR '':'' \<notin> set i" and "CHR '':'' \<notin> set j"
  shows "i = j \<and> n = m"
  using split_at_inject[of i "CHR '':''" n j m] assms by (simp add: nodeKey_def)

lemma childKey_inject:
  assumes "childKey i n k = childKey j m l"
    and "CHR '':'' \<notin> set i" "CHR '':'' \<notin> set j" "CHR '':'' \<notin> set n" "CHR '':'' \<notin> set m"
  shows "i = j \<and> n = m \<and> k = l"
proof -
  have "i @ CHR '':'' # (n @ CHR '':'' # k) = j @ CHR '':'' # (m @ CHR '':'' # l)"
    using assms(1) by (simp add: childKey_def)
  from split_at_inject[OF this assms(2,3)] have ij: "i = j" and rest: "n @ CHR '':'' # k = m @ CHR '':'' # l"
    by blast+
  from split_at_inject[OF rest assms(4,5)] ij show ?thesis by blast
qed

section \<open>The invariant\<close>

definition node_row_ok :: "runtime \<Rightarrow> string \<Rightarrow> StoredNode \<Rightarrow> bool" where
  "node_row_ok s k n \<longleftrightarrow> k = nodeKey (node_runId n) (node_name n) \<and> known_run s (node_runId n)
     \<and> nodeNamePattern (node_name n) \<and> node_status n \<noteq> NCancelling \<and> 1 \<le> node_version n"

definition attempt_of :: "StoredAttempt \<Rightarrow> StoredNodeChild \<Rightarrow> bool" where
  "attempt_of a c \<longleftrightarrow> attempt_runId a = child_runId c \<and> attempt_nodeName a = child_nodeName c
     \<and> attempt_childKey a = child_childKey c"

definition current_ok :: "(string \<times> StoredAttempt) list \<Rightarrow> StoredNodeChild \<Rightarrow> bool" where
  "current_ok atts c \<longleftrightarrow>
     (case child_currentAttemptId c of
        None \<Rightarrow> child_attemptCount c = 0
      | Some a \<Rightarrow> \<exists>att. map_get atts a = Some att \<and> attempt_of att c
                      \<and> attempt_attemptNumber att = child_attemptCount c)"

definition child_row_ok :: "runtime \<Rightarrow> string \<Rightarrow> StoredNodeChild \<Rightarrow> bool" where
  "child_row_ok s k c \<longleftrightarrow> k = childKey (child_runId c) (child_nodeName c) (child_childKey c)
     \<and> known_run s (child_runId c) \<and> nodeNamePattern (child_nodeName c) \<and> child_status c \<noteq> NCancelling
     \<and> 1 \<le> child_version c
     \<and> (\<forall>i. child_childRunId c = Some i \<longrightarrow> run_before (child_runId c) i \<and> known_run s i)
     \<and> current_ok (attempts s) c"

definition attempt_row_ok :: "runtime \<Rightarrow> string \<Rightarrow> StoredAttempt \<Rightarrow> bool" where
  "attempt_row_ok s k a \<longleftrightarrow> attempt_id a = k \<and> known_run s (attempt_runId a)
     \<and> nodeNamePattern (attempt_nodeName a) \<and> attempt_status a \<noteq> ACancelled
     \<and> (\<exists>n. k = mk_id ''attempt'' n \<and> Suc n < nextId s
              \<and> attempt_leaseToken a = Some (mk_id ''attempt-lease'' (Suc n)))"

definition node_inv :: "runtime \<Rightarrow> bool" where
  "node_inv s \<longleftrightarrow> wf_map (nodes s) \<and> wf_map (children s) \<and> wf_map (attempts s)
     \<and> (\<forall>k n. map_get (nodes s) k = Some n \<longrightarrow> node_row_ok s k n)
     \<and> (\<forall>k c. map_get (children s) k = Some c \<longrightarrow> child_row_ok s k c)
     \<and> (\<forall>k a. map_get (attempts s) k = Some a \<longrightarrow> attempt_row_ok s k a)"

lemma node_inv_rows:
  assumes "node_inv s"
  shows "map_get (nodes s) k = Some n \<Longrightarrow> node_row_ok s k n"
    and "map_get (children s) k = Some c \<Longrightarrow> child_row_ok s k c"
    and "map_get (attempts s) k = Some a \<Longrightarrow> attempt_row_ok s k a"
  using assms by (simp_all add: node_inv_def)

lemma row_ok_later:
  assumes "later s s'"
  shows "node_row_ok s k n \<Longrightarrow> node_row_ok s' k n"
    and "attempt_row_ok s k a \<Longrightarrow> attempt_row_ok s' k a"
    and "child_row_ok s k c \<Longrightarrow> current_ok (attempts s') c \<Longrightarrow> child_row_ok s' k c"
  using assms known_run_later[OF _ assms]
  by (auto simp: node_row_ok_def attempt_row_ok_def child_row_ok_def) (auto simp: later_def)

lemma child_row_ok_current: "child_row_ok s k c \<Longrightarrow> current_ok (attempts s) c"
  by (simp add: child_row_ok_def)

lemma child_row_ok_keep: "later s s' \<Longrightarrow> attempts s' = attempts s \<Longrightarrow> child_row_ok s k c \<Longrightarrow> child_row_ok s' k c"
  by (rule row_ok_later(3)) (auto simp: child_row_ok_def)

section \<open>Single writes\<close>

definition node_evolves :: "StoredNode \<Rightarrow> StoredNode \<Rightarrow> bool" where
  "node_evolves n n' \<longleftrightarrow> \<not> isTerminalNodeStatus (node_status n)
     \<and> (node_status n' = node_status n \<or> canTransition NODE_TRANSITIONS (node_status n) (node_status n'))
     \<and> node_version n' = node_version n + 1 \<and> node_runId n' = node_runId n \<and> node_name n' = node_name n
     \<and> node_kind n' = node_kind n \<and> node_createdAt n' = node_createdAt n"

definition child_evolves :: "StoredNodeChild \<Rightarrow> StoredNodeChild \<Rightarrow> bool" where
  "child_evolves c c' \<longleftrightarrow> \<not> isTerminalNodeStatus (child_status c)
     \<and> (child_status c' = child_status c \<or> canTransition NODE_TRANSITIONS (child_status c) (child_status c'))
     \<and> child_version c' = child_version c + 1 \<and> child_attemptCount c \<le> child_attemptCount c'
     \<and> child_runId c' = child_runId c \<and> child_nodeName c' = child_nodeName c
     \<and> child_childKey c' = child_childKey c \<and> child_kind c' = child_kind c
     \<and> child_ordinal c' = child_ordinal c \<and> child_itemKey c' = child_itemKey c \<and> child_item c' = child_item c
     \<and> child_createdAt c' = child_createdAt c
     \<and> (child_childRunId c' = child_childRunId c \<or> child_childRunId c = None)"

definition attempt_identity :: "StoredAttempt \<Rightarrow> StoredAttempt" where
  "attempt_identity a = a\<lparr>attempt_status := AStarted, attempt_output := None, attempt_error := None,
                         attempt_completedAt := None\<rparr>"

definition attempt_evolves :: "StoredAttempt \<Rightarrow> StoredAttempt \<Rightarrow> bool" where
  "attempt_evolves a a' \<longleftrightarrow> canTransition ATTEMPT_TRANSITIONS (attempt_status a) (attempt_status a')
     \<and> attempt_status a' \<noteq> ACancelled \<and> attempt_identity a' = attempt_identity a"

lemma attempt_identity_fields:
  assumes "attempt_identity a' = attempt_identity a"
  shows "attempt_id a' = attempt_id a" "attempt_runId a' = attempt_runId a" "attempt_nodeName a' = attempt_nodeName a"
    "attempt_childKey a' = attempt_childKey a" "attempt_leaseToken a' = attempt_leaseToken a"
    "attempt_attemptNumber a' = attempt_attemptNumber a" "attempt_input a' = attempt_input a"
  using assms by (cases a; cases a'; simp add: attempt_identity_def)+

inductive row_write :: "runtime \<Rightarrow> runtime \<Rightarrow> bool" where
  calm_write: "node_view s' = node_view s \<Longrightarrow> later s s' \<Longrightarrow> row_write s s'"
| node_write: "map_get (nodes s) k = Some n \<Longrightarrow> node_evolves n n' \<Longrightarrow> node_status n' \<noteq> NCancelling \<Longrightarrow>
    node_view s' = (map_set k n' (nodes s), children s, attempts s) \<Longrightarrow> later s s' \<Longrightarrow> row_write s s'"
| node_insert: "map_get (nodes s) k = None \<Longrightarrow> node_row_ok s k n' \<Longrightarrow> node_status n' = NPending \<Longrightarrow>
    node_version n' = 1 \<Longrightarrow> node_view s' = (map_set k n' (nodes s), children s, attempts s) \<Longrightarrow>
    later s s' \<Longrightarrow> row_write s s'"
| child_write: "map_get (children s) k = Some c \<Longrightarrow> child_evolves c c' \<Longrightarrow> child_row_ok s' k c' \<Longrightarrow>
    node_view s' = (nodes s, map_set k c' (children s), attempts s) \<Longrightarrow> later s s' \<Longrightarrow> row_write s s'"
| child_insert: "map_get (children s) k = None \<Longrightarrow> child_row_ok s' k c' \<Longrightarrow> child_status c' = NPending \<Longrightarrow>
    child_version c' = 1 \<Longrightarrow> node_view s' = (nodes s, map_set k c' (children s), attempts s) \<Longrightarrow>
    later s s' \<Longrightarrow> row_write s s'"
| attempt_write: "map_get (attempts s) k = Some a \<Longrightarrow> attempt_evolves a a' \<Longrightarrow>
    node_view s' = (nodes s, children s, map_set k a' (attempts s)) \<Longrightarrow> later s s' \<Longrightarrow> row_write s s'"
| attempt_insert: "k = mk_id ''attempt'' m \<Longrightarrow> nextId s \<le> m \<Longrightarrow> attempt_row_ok s' k a' \<Longrightarrow>
    attempt_status a' = AStarted \<Longrightarrow> node_view s' = (nodes s, children s, map_set k a' (attempts s)) \<Longrightarrow>
    later s s' \<Longrightarrow> row_write s s'"

lemma row_write_later: "row_write s s' \<Longrightarrow> later s s'"
  by (induction rule: row_write.induct) simp_all

lemma current_ok_attempt:
  "current_ok atts c \<Longrightarrow> map_get atts k = Some a \<Longrightarrow> attempt_identity a' = attempt_identity a \<Longrightarrow>
     current_ok (map_set k a' atts) c"
  using attempt_identity_fields[of a' a]
  by (auto simp: current_ok_def attempt_of_def split: option.splits)

lemma current_ok_fresh: "current_ok atts c \<Longrightarrow> map_get atts k = None \<Longrightarrow> current_ok (map_set k a' atts) c"
  by (fastforce simp: current_ok_def split: option.splits)

lemma node_inv_fresh_attempt:
  assumes "node_inv s" and "nextId s \<le> m"
  shows "map_get (attempts s) (mk_id ''attempt'' m) = None"
  using node_inv_rows(3)[OF assms(1), of "mk_id ''attempt'' m"] assms(2)
  by (cases "map_get (attempts s) (mk_id ''attempt'' m)") (auto simp: attempt_row_ok_def)

lemma node_inv_write:
  assumes "row_write s s'" and inv: "node_inv s"
  shows "node_inv s'"
  using assms(1)
proof (cases rule: row_write.cases)
  case calm_write
  then show ?thesis
    using inv row_ok_later(1,2)[OF calm_write(2)] child_row_ok_keep[OF calm_write(2)]
    by (auto simp: node_inv_def node_view_def)
next
  case (node_write k n n')
  then have "node_row_ok s k n" using node_inv_rows(1)[OF inv] by blast
  then have "node_row_ok s' k n'"
    using node_write(2,3) known_run_later[OF _ node_write(5)] by (auto simp: node_row_ok_def node_evolves_def)
  with node_write show ?thesis
    using inv row_ok_later(1,2)[OF node_write(5)] child_row_ok_keep[OF node_write(5)]
    by (auto simp: node_inv_def node_view_def split: if_splits)
next
  case (node_insert k n')
  then show ?thesis
    using inv row_ok_later(1,2)[OF node_insert(6)] child_row_ok_keep[OF node_insert(6)]
    by (auto simp: node_inv_def node_view_def split: if_splits)
next
  case (child_write k c c')
  then show ?thesis
    using inv row_ok_later(1,2)[OF child_write(5)] child_row_ok_keep[OF child_write(5)]
    by (auto simp: node_inv_def node_view_def split: if_splits)
next
  case (child_insert k c')
  then show ?thesis
    using inv row_ok_later(1,2)[OF child_insert(6)] child_row_ok_keep[OF child_insert(6)]
    by (auto simp: node_inv_def node_view_def split: if_splits)
next
  case (attempt_write k a a')
  then have "attempt_row_ok s' k a" using node_inv_rows(3)[OF inv] row_ok_later(2) by blast
  then have "attempt_row_ok s' k a'"
    using attempt_write(2) attempt_identity_fields[of a' a]
    by (auto simp: attempt_row_ok_def attempt_evolves_def)
  moreover have "child_row_ok s' j c" if "child_row_ok s j c" for j c
    using row_ok_later(3)[OF attempt_write(4) that] current_ok_attempt[OF child_row_ok_current[OF that] attempt_write(1)]
      attempt_write(2,3) by (simp add: node_view_def attempt_evolves_def)
  ultimately show ?thesis
    using inv row_ok_later(1,2)[OF attempt_write(4)] attempt_write
    by (auto simp: node_inv_def node_view_def split: if_splits)
next
  case (attempt_insert k m a')
  have "child_row_ok s' j c" if "child_row_ok s j c" for j c
    using row_ok_later(3)[OF attempt_insert(6) that] attempt_insert(1,5)
      current_ok_fresh[OF child_row_ok_current[OF that] node_inv_fresh_attempt[OF inv attempt_insert(2)]]
    by (simp add: node_view_def)
  with attempt_insert show ?thesis
    using inv row_ok_later(1,2)[OF attempt_insert(6)]
    by (auto simp: node_inv_def node_view_def split: if_splits)
qed

section \<open>Operations as sequences of writes\<close>

abbreviation row_writes :: "runtime \<Rightarrow> runtime \<Rightarrow> bool" where
  "row_writes \<equiv> row_write\<^sup>*\<^sup>*"

lemma node_inv_writes: "row_writes s s' \<Longrightarrow> node_inv s \<Longrightarrow> node_inv s'"
  by (induction rule: rtranclp_induct) (auto intro: node_inv_write)

lemma row_writes_calm: "node_view s' = node_view s \<Longrightarrow> later s s' \<Longrightarrow> row_writes s s'"
  by (blast intro: row_write.calm_write)

lemma node_live_transitions:
  "\<not> isTerminalNodeStatus x \<Longrightarrow> x \<noteq> NCancelling \<Longrightarrow> y = NWaiting \<or> y = NRunning \<Longrightarrow>
     x = y \<or> canTransition NODE_TRANSITIONS x y"
  by (cases x) (auto simp: canTransition_def isTerminalNodeStatus_def)

lemma node_live_cancelled:
  "\<not> isTerminalNodeStatus x \<Longrightarrow> isTerminalNodeStatus y \<Longrightarrow> x = y \<or> canTransition NODE_TRANSITIONS x y"
  by (simp add: node_live_to_terminal)

text \<open>A write of the row stored at a key by a row that evolves from it.\<close>

lemma node_write_rule:
  assumes "map_get (nodes s) k = Some n" and "node_evolves n n'" and "node_status n' \<noteq> NCancelling"
    and "nodes s' = map_set k n' (nodes s)" "children s' = children s" "attempts s' = attempts s" "later s s'"
  shows "row_writes s s'"
  by (rule r_into_rtranclp, rule row_write.node_write[OF assms(1-3)]) (simp_all add: assms node_view_def)

lemma createNode_writes:
  assumes "known_run s i" and "nodeNamePattern n"
  shows "row_writes s (snd (createNode i n k s))"
proof (cases "map_get (nodes s) (nodeKey i n)")
  case None
  then show ?thesis
    by (intro r_into_rtranclp row_write.node_insert[of _ "nodeKey i n"])
       (use assms in \<open>auto simp: createNode_def prim_simps node_row_ok_def node_view_def\<close>)
qed (simp add: createNode_def)

lemma node_op_writes:
  assumes "node_inv s" and "snd (op s) = s \<or> (\<exists>r r'. map_get (nodes s) k = Some r \<and>
      map_get (nodes (snd (op s))) k = Some r' \<and> (node_status r \<noteq> NCancelling \<longrightarrow> node_evolves r r' \<and> node_status r' \<noteq> NCancelling) \<and>
      nodes (snd (op s)) = map_set k r' (nodes s) \<and> children (snd (op s)) = children s
      \<and> attempts (snd (op s)) = attempts s)"
    and "later s (snd (op s))"
  shows "row_writes s (snd (op s))"
  using assms node_inv_rows(1)[OF assms(1), of k] by (auto simp: node_row_ok_def intro: node_write_rule)

lemmas node_move_simps = prim_simps node_evolves_def node_live_to_terminal frame_simps

lemma setNodeInput_writes: "node_inv s \<Longrightarrow> row_writes s (snd (setNodeInput i n v s))"
  by (rule node_op_writes[where k = "nodeKey i n"])
     (auto simp: setNodeInput_def node_move_simps split: option.split)

lemma selectNodeCase_writes: "node_inv s \<Longrightarrow> row_writes s (snd (selectNodeCase i n c s))"
  by (rule node_op_writes[where k = "nodeKey i n"])
     (auto simp: selectNodeCase_def node_move_simps split: option.split)

lemma completeNode_writes: "node_inv s \<Longrightarrow> row_writes s (snd (completeNode i n v s))"
  by (rule node_op_writes[where k = "nodeKey i n"])
     (auto simp: completeNode_def node_move_simps split: option.split)

lemma failNode_writes: "node_inv s \<Longrightarrow> row_writes s (snd (failNode i n e s))"
  by (rule node_op_writes[where k = "nodeKey i n"])
     (auto simp: failNode_def node_move_simps split: option.split)

lemma cancelNode_writes: "node_inv s \<Longrightarrow> row_writes s (snd (cancelNode i n s))"
  by (rule node_op_writes[where k = "nodeKey i n"])
     (auto simp: cancelNode_def node_move_simps split: option.split)

lemma waitNode_writes: "node_inv s \<Longrightarrow> row_writes s (snd (waitNode i n s))"
  by (rule node_op_writes[where k = "nodeKey i n"])
     (use node_live_transitions[of _ NWaiting] in \<open>auto simp: waitNode_def node_move_simps split: option.split\<close>)

lemma node_can_live: "canTransition NODE_TRANSITIONS x y \<Longrightarrow> \<not> isTerminalNodeStatus x"
  using node_machine.terminal_stuck by blast

lemma mirrorNodeRunning_writes:
  assumes inv: "node_inv s"
  shows "row_writes s (mirrorNodeRunning i n s)"
proof -
  have "row_writes s (snd ((), mirrorNodeRunning i n s))"
    by (rule node_op_writes[where k = "nodeKey i n" and op = "\<lambda>s. ((), mirrorNodeRunning i n s)", OF inv])
       (auto simp: mirrorNodeRunning_def node_move_simps split: option.split dest: node_can_live)
  then show ?thesis by simp
qed

section \<open>Children and attempts\<close>

lemma child_row_ok_move:
  assumes "child_row_ok s k c" and "child_evolves c c'" and "child_status c' \<noteq> NCancelling"
    and "child_childRunId c' = child_childRunId c" "child_currentAttemptId c' = child_currentAttemptId c"
      "child_attemptCount c' = child_attemptCount c"
  shows "child_row_ok s k c'"
proof -
  have "current_ok (attempts s) c'"
    using child_row_ok_current[OF assms(1)] assms(2,5,6)
    by (cases "child_currentAttemptId c") (auto simp: current_ok_def attempt_of_def child_evolves_def)
  with assms show ?thesis by (simp add: child_row_ok_def child_evolves_def)
qed

lemma child_op_writes:
  assumes inv: "node_inv s" and "snd (op s) = s \<or> (\<exists>c c'. map_get (children s) k = Some c \<and>
      map_get (children (snd (op s))) k = Some c' \<and>
      (child_status c \<noteq> NCancelling \<longrightarrow> child_evolves c c' \<and> child_status c' \<noteq> NCancelling) \<and>
      child_childRunId c' = child_childRunId c \<and> child_currentAttemptId c' = child_currentAttemptId c \<and>
      child_attemptCount c' = child_attemptCount c \<and>
      children (snd (op s)) = map_set k c' (children s) \<and> nodes (snd (op s)) = nodes s
      \<and> attempts (snd (op s)) = attempts s)"
    and later: "later s (snd (op s))"
  shows "row_writes s (snd (op s))"
proof -
  have "row_write s (snd (op s))"
    if "map_get (children s) k = Some c"
      "child_status c \<noteq> NCancelling \<longrightarrow> child_evolves c c' \<and> child_status c' \<noteq> NCancelling"
      "child_childRunId c' = child_childRunId c" "child_currentAttemptId c' = child_currentAttemptId c"
      "child_attemptCount c' = child_attemptCount c" "children (snd (op s)) = map_set k c' (children s)"
      "nodes (snd (op s)) = nodes s" "attempts (snd (op s)) = attempts s" for c c'
  proof (rule row_write.child_write)
    have row: "child_row_ok s k c" using node_inv_rows(2)[OF inv that(1)] .
    show "child_evolves c c'" using row that(2) by (simp add: child_row_ok_def)
    with row that child_row_ok_keep[OF later _ row] show "child_row_ok (snd (op s)) k c'"
      by (intro child_row_ok_move[of _ _ c c']) (simp_all add: child_row_ok_def)
  qed (use that later in \<open>simp_all add: node_view_def\<close>)
  with assms(2) show ?thesis by auto
qed

lemmas child_move_simps = prim_simps child_evolves_def node_live_to_terminal frame_simps

lemma completeNodeChild_writes: "node_inv s \<Longrightarrow> row_writes s (snd (completeNodeChild i n c v s))"
  by (rule child_op_writes[where k = "childKey i n c"])
     (auto simp: completeNodeChild_def child_move_simps split: option.split)

lemma failNodeChild_writes: "node_inv s \<Longrightarrow> row_writes s (snd (failNodeChild i n c e s))"
  by (rule child_op_writes[where k = "childKey i n c"])
     (auto simp: failNodeChild_def child_move_simps split: option.split)

text \<open>
  Cancelling what is left of a run: the loop runs over the rows read at its start, and no
  row is written before its turn.
\<close>

lemma cancel_node_step_writes:
  assumes inv: "node_inv s" and row: "map_get (nodes s) k = Some n"
  shows "row_writes s (snd (cancel_node_step i n (acc, s)))"
    and "k' \<noteq> k \<Longrightarrow> map_get (nodes (snd (cancel_node_step i n (acc, s)))) k' = map_get (nodes s) k'"
    and "children (snd (cancel_node_step i n (acc, s))) = children s"
proof -
  have k: "nodeKey (node_runId n) (node_name n) = k"
    using node_inv_rows(1)[OF inv row] by (simp add: node_row_ok_def)
  show "row_writes s (snd (cancel_node_step i n (acc, s)))"
    using node_op_writes[where k = k and op = "\<lambda>s. cancel_node_step i n (acc, s)" and s = s, OF inv] row k
    by (auto simp: cancel_node_step_def node_move_simps)
  show "k' \<noteq> k \<Longrightarrow> map_get (nodes (snd (cancel_node_step i n (acc, s)))) k' = map_get (nodes s) k'"
    "children (snd (cancel_node_step i n (acc, s))) = children s"
    using k by (auto simp: cancel_node_step_def prim_simps)
qed

lemma cancel_child_step_writes:
  assumes inv: "node_inv s" and row: "map_get (children s) k = Some c"
  shows "row_writes s (cancel_child_step i c s)"
    and "k' \<noteq> k \<Longrightarrow> map_get (children (cancel_child_step i c s)) k' = map_get (children s) k'"
proof -
  have k: "childKey (child_runId c) (child_nodeName c) (child_childKey c) = k"
    using node_inv_rows(2)[OF inv row] by (simp add: child_row_ok_def)
  show "row_writes s (cancel_child_step i c s)"
    using child_op_writes[where k = k and op = "\<lambda>s. ((), cancel_child_step i c s)" and s = s, OF inv] row k
    by (auto simp: cancel_child_step_def child_move_simps)
  show "k' \<noteq> k \<Longrightarrow> map_get (children (cancel_child_step i c s)) k' = map_get (children s) k'"
    using k by (auto simp: cancel_child_step_def prim_simps)
qed

lemma cancel_nodes_loop:
  "node_inv s \<Longrightarrow> wf_map es \<Longrightarrow> (\<And>k n. (k, n) \<in> set es \<Longrightarrow> map_get (nodes s) k = Some n) \<Longrightarrow>
     row_writes s (snd (fold (cancel_node_step i) (map_values es) (acc, s)))"
proof (induction es arbitrary: s acc)
  case (Cons e es)
  obtain k n where e: "e = (k, n)" by (cases e)
  obtain acc' s' where s': "cancel_node_step i n (acc, s) = (acc', s')" by (cases "cancel_node_step i n (acc, s)")
  have row: "map_get (nodes s) k = Some n" using Cons.prems(3) e by simp
  note w = cancel_node_step_writes[OF Cons.prems(1) row, where i = i and acc = acc, unfolded s' snd_conv]
  have "row_writes s' (snd (fold (cancel_node_step i) (map_values es) (acc', s')))"
  proof (rule Cons.IH)
    show "node_inv s'" using node_inv_writes[OF w(1) Cons.prems(1)] .
    show "map_get (nodes s') k' = Some n'" if "(k', n') \<in> set es" for k' n'
      using w(2)[of k'] that Cons.prems(2) Cons.prems(3)[of k' n'] e by (force simp: image_iff)
  qed (use Cons.prems(2) in simp)
  with w(1) e s' show ?case by simp
qed simp

lemma cancel_children_loop:
  "node_inv s \<Longrightarrow> wf_map es \<Longrightarrow> (\<And>k c. (k, c) \<in> set es \<Longrightarrow> map_get (children s) k = Some c) \<Longrightarrow>
     row_writes s (fold (cancel_child_step i) (map_values es) s)"
proof (induction es arbitrary: s)
  case (Cons e es)
  obtain k c where e: "e = (k, c)" by (cases e)
  have row: "map_get (children s) k = Some c" using Cons.prems(3) e by simp
  note w = cancel_child_step_writes[OF Cons.prems(1) row, where i = i]
  have "row_writes (cancel_child_step i c s) (fold (cancel_child_step i) (map_values es) (cancel_child_step i c s))"
  proof (rule Cons.IH)
    show "node_inv (cancel_child_step i c s)" using node_inv_writes[OF w(1) Cons.prems(1)] .
    show "map_get (children (cancel_child_step i c s)) k' = Some c'" if "(k', c') \<in> set es" for k' c'
      using w(2)[of k'] that Cons.prems(2) Cons.prems(3)[of k' c'] e by (force simp: image_iff)
  qed (use Cons.prems(2) in simp)
  with w(1) e show ?case by simp
qed simp

lemma cancelNonTerminalRunNodes_writes:
  assumes inv: "node_inv s"
  shows "row_writes s (snd (cancelNonTerminalRunNodes i s))"
proof -
  obtain acc s' where s': "fold (cancel_node_step i) (map_values (nodes s)) ([], s) = (acc, s')"
    by (cases "fold (cancel_node_step i) (map_values (nodes s)) ([], s)")
  have entries: "map_get m k = Some v" if "wf_map m" "(k, v) \<in> set m" for m :: "(string \<times> 'v) list" and k v
    using that by simp
  have first: "row_writes s s'"
    using cancel_nodes_loop[OF inv, of "nodes s" i "[]"] inv s' by (simp add: node_inv_def)
  then have inv': "node_inv s'" using inv by (rule node_inv_writes)
  have "row_writes s' (fold (cancel_child_step i) (map_values (children s')) s')"
    using cancel_children_loop[OF inv', of "children s'" i] inv' by (simp add: node_inv_def)
  with first s' show ?thesis by (simp add: cancelNonTerminalRunNodes_def)
qed

text \<open>Settling the current attempt\<close>

lemma attempt_write_rule:
  assumes "map_get (attempts s) k = Some a" and "attempt_evolves a a'"
    and "node_view s' = (nodes s, children s, map_set k a' (attempts s))" and "later s s'"
  shows "row_writes s s'"
  by (rule r_into_rtranclp) (rule row_write.attempt_write[OF assms])

lemma attempt_then_child_rule:
  assumes inv: "node_inv s" and a: "map_get (attempts s) k = Some a" "attempt_evolves a a'"
    and c: "map_get (children s) j = Some c" "child_evolves c c'" "child_status c' \<noteq> NCancelling"
      "child_childRunId c' = child_childRunId c" "child_currentAttemptId c' = child_currentAttemptId c"
      "child_attemptCount c' = child_attemptCount c"
    and view: "node_view s' = (nodes s, map_set j c' (children s), map_set k a' (attempts s))" and later: "later s s'"
  shows "row_writes s s'"
proof -
  let ?mid = "s\<lparr>attempts := map_set k a' (attempts s)\<rparr>"
  have mid: "row_writes s ?mid" using a by (rule attempt_write_rule) (simp_all add: node_view_def)
  then have "node_inv ?mid" using inv by (rule node_inv_writes)
  then have row: "child_row_ok ?mid j c" by (rule node_inv_rows(2)) (simp add: c(1))
  have "row_write ?mid s'"
  proof (rule row_write.child_write)
    show "later ?mid s'" using later by (simp add: later_def)
    moreover have "attempts s' = attempts ?mid" using view by (simp add: node_view_def)
    ultimately have "child_row_ok s' j c" using row by (rule child_row_ok_keep)
    then show "child_row_ok s' j c'" using c(2-6) by (rule child_row_ok_move)
  qed (use c view in \<open>simp_all add: node_view_def\<close>)
  with mid show ?thesis by (rule rtranclp.rtrancl_into_rtrancl)
qed

lemma fenced_facts:
  assumes "fencedCurrentAttempt a l s = Some (att, c)"
  shows "map_get (attempts s) a = Some att" "attempt_leaseToken att = l" "attempt_status att = AStarted"
    "map_get (children s) (childKey (attempt_runId att) (attempt_nodeName att) (attempt_childKey att)) = Some c"
    "\<not> isTerminalNodeStatus (child_status c)" "child_currentAttemptId c = Some a"
  using assms by (auto simp: fencedCurrentAttempt_def split: option.splits if_splits)

lemma fenced_child_key:
  assumes "node_inv s" and "fencedCurrentAttempt a l s = Some (att, c)"
  shows "map_get (children s) (childKey (child_runId c) (child_nodeName c) (child_childKey c)) = Some c"
  using fenced_facts(4)[OF assms(2)] node_inv_rows(2)[OF assms(1) fenced_facts(4)[OF assms(2)]]
  by (simp add: child_row_ok_def)

lemma attempt_started_moves: "y \<noteq> AStarted \<Longrightarrow> canTransition ATTEMPT_TRANSITIONS AStarted y"
  by (cases y) (simp_all add: canTransition_def)

lemma completeCurrentAttempt_writes:
  assumes inv: "node_inv s"
  shows "row_writes s (snd (completeCurrentAttempt a l v s))"
proof (cases "fencedCurrentAttempt a l s")
  case (Some p)
  then obtain att c where fenced: "fencedCurrentAttempt a l s = Some (att, c)" by (cases p) auto
  note facts = fenced_facts[OF fenced] fenced_child_key[OF inv fenced]
  have view: "node_view (snd (completeCurrentAttempt a l v s)) =
    (nodes s,
     map_set (childKey (child_runId c) (child_nodeName c) (child_childKey c))
       (c\<lparr>child_status := NCompleted, child_output := Some v, child_version := child_version c + 1,
          child_updatedAt := fst (now (emitAttemptStatusEvent (Some att)
            (att\<lparr>attempt_status := ACompleted, attempt_output := Some v, attempt_completedAt := Some (fst (now s))\<rparr>)
            ((snd (now s))\<lparr>attempts := map_set a
               (att\<lparr>attempt_status := ACompleted, attempt_output := Some v, attempt_completedAt := Some (fst (now s))\<rparr>)
               (attempts s)\<rparr>)))\<rparr>) (children s),
     map_set a (att\<lparr>attempt_status := ACompleted, attempt_output := Some v, attempt_completedAt := Some (fst (now s))\<rparr>)
       (attempts s))"
    by (simp add: completeCurrentAttempt_def fenced prim_simps node_view_def)
  show ?thesis
    by (rule attempt_then_child_rule[OF inv facts(1) _ facts(7) _ _ _ _ _ view])
       (use facts in \<open>simp_all add: attempt_evolves_def attempt_identity_def attempt_started_moves child_evolves_def
          node_live_to_terminal frame_simps\<close>)
qed (simp add: completeCurrentAttempt_def)

lemma failCurrentAttempt_writes: "row_writes s (snd (failCurrentAttempt a l e s))"
proof (cases "fencedCurrentAttempt a l s")
  case (Some p)
  then obtain att c where fenced: "fencedCurrentAttempt a l s = Some (att, c)" by (cases p) auto
  show ?thesis
    by (rule attempt_write_rule[OF fenced_facts(1)[OF fenced],
          of "att\<lparr>attempt_status := AFailed, attempt_error := Some (toStoredError (rt_host s) e),
                 attempt_completedAt := Some (fst (now s))\<rparr>"])
       (use fenced_facts[OF fenced] in \<open>simp_all add: failCurrentAttempt_def fenced prim_simps node_view_def
          attempt_evolves_def attempt_identity_def attempt_started_moves\<close>)
qed (simp add: failCurrentAttempt_def)

lemma timeoutCurrentAttempt_writes: "row_writes s (snd (timeoutCurrentAttempt a l e s))"
proof (cases "fencedCurrentAttempt a l s")
  case (Some p)
  then obtain att c where fenced: "fencedCurrentAttempt a l s = Some (att, c)" by (cases p) auto
  show ?thesis
    by (rule attempt_write_rule[OF fenced_facts(1)[OF fenced],
          of "att\<lparr>attempt_status := ATimedOut, attempt_error := Some (toStoredError (rt_host s) e),
                 attempt_completedAt := Some (fst (now s))\<rparr>"])
       (use fenced_facts[OF fenced] in \<open>simp_all add: timeoutCurrentAttempt_def fenced prim_simps node_view_def
          attempt_evolves_def attempt_identity_def attempt_started_moves\<close>)
qed (simp add: timeoutCurrentAttempt_def)

text \<open>Starting an attempt\<close>

lemma attempt_start_rule:
  assumes inv: "node_inv s" and m: "nextId s \<le> m" "Suc m < nextId s'"
    and c: "map_get (children s) j = Some c" "child_evolves c c'" "child_status c' \<noteq> NCancelling"
      "child_childRunId c' = child_childRunId c"
    and cur: "child_currentAttemptId c' = Some (mk_id ''attempt'' m)" "child_attemptCount c' = child_attemptCount c + 1"
    and a: "attempt_id a = mk_id ''attempt'' m" "attempt_of a c" "attempt_attemptNumber a = child_attemptCount c + 1"
      "attempt_status a = AStarted" "attempt_leaseToken a = Some (mk_id ''attempt-lease'' (Suc m))"
    and view: "node_view s' = (nodes s, map_set j c' (children s), map_set (mk_id ''attempt'' m) a (attempts s))"
    and later: "later s s'"
  shows "row_writes s s'"
proof -
  let ?mid = "s\<lparr>attempts := map_set (mk_id ''attempt'' m) a (attempts s), nextId := nextId s'\<rparr>"
  have row: "child_row_ok s j c" using node_inv_rows(2)[OF inv c(1)] .
  have later_mid: "later s ?mid" "later ?mid s'" using later by (simp_all add: later_def)
  have "row_write s ?mid"
  proof (rule row_write.attempt_insert[OF refl m(1)])
    show "attempt_row_ok ?mid (mk_id ''attempt'' m) a"
      using a m(2) row known_run_later[OF _ later_mid(1)]
      by (auto simp: attempt_row_ok_def child_row_ok_def attempt_of_def)
  qed (use a later_mid in \<open>simp_all add: node_view_def\<close>)
  moreover have "row_write ?mid s'"
  proof (rule row_write.child_write)
    have "current_ok (attempts s') c'"
      using view a cur c(2) by (simp add: current_ok_def node_view_def attempt_of_def child_evolves_def)
    with row c(2-4) known_run_later[OF _ later] show "child_row_ok s' j c'"
      by (auto simp: child_row_ok_def child_evolves_def)
  qed (use c view later_mid in \<open>simp_all add: node_view_def\<close>)
  ultimately show ?thesis by auto
qed

lemma insertChildAttempt_writes:
  assumes inv: "node_inv s" and c: "map_get (children s) j = Some c" and live: "\<not> isTerminalNodeStatus (child_status c)"
  shows "row_writes s (snd (insertChildAttempt c v k s))"
proof -
  have row: "child_row_ok s j c" using node_inv_rows(2)[OF inv c] .
  then have j: "childKey (child_runId c) (child_nodeName c) (child_childKey c) = j"
    and st: "child_status c \<noteq> NCancelling" by (simp_all add: child_row_ok_def)
  let ?s' = "snd (insertChildAttempt c v k s)"
  obtain a where a: "attempts ?s' = map_set (mk_id ''attempt'' (nextId s)) a (attempts s)"
    "map_get (attempts ?s') (mk_id ''attempt'' (nextId s)) = Some a"
    by (simp add: insertChildAttempt_def prim_simps)
  obtain c' where c': "children ?s' = map_set j c' (children s)" "map_get (children ?s') j = Some c'"
    using j by (simp add: insertChildAttempt_def prim_simps)
  show ?thesis
  proof (rule attempt_start_rule[OF inv _ _ c, where m = "nextId s" and a = a and c' = c'])
    show "Suc (nextId s) < nextId ?s'" by (simp add: insertChildAttempt_def prim_simps)
    show "node_view ?s' = (nodes s, map_set j c' (children s), map_set (mk_id ''attempt'' (nextId s)) a (attempts s))"
      using a(1) c'(1) by (simp add: node_view_def) (simp add: insertChildAttempt_def prim_simps)
    show "child_evolves c c'" "child_status c' \<noteq> NCancelling" "child_childRunId c' = child_childRunId c"
      "child_currentAttemptId c' = Some (mk_id ''attempt'' (nextId s))" "child_attemptCount c' = child_attemptCount c + 1"
      using c'(2) j live st node_live_transitions[of "child_status c" NRunning]
      by (auto simp: insertChildAttempt_def prim_simps child_evolves_def)
    show "attempt_id a = mk_id ''attempt'' (nextId s)" "attempt_of a c"
      "attempt_attemptNumber a = child_attemptCount c + 1" "attempt_status a = AStarted"
      "attempt_leaseToken a = Some (mk_id ''attempt-lease'' (Suc (nextId s)))"
      using a(2) by (auto simp: insertChildAttempt_def prim_simps attempt_of_def)
  qed (simp_all add: insertChildAttempt_frames)
qed

lemma createChildAttempt_writes:
  assumes inv: "node_inv s" and c: "map_get (children s) j = Some c" and live: "\<not> isTerminalNodeStatus (child_status c)"
  shows "row_writes s (snd (createChildAttempt c v k s))"
proof -
  note w = insertChildAttempt_writes[OF assms, of v k]
  have "row_writes (snd (insertChildAttempt c v k s)) (snd (createChildAttempt c v k s))"
    using mirrorNodeRunning_writes[OF node_inv_writes[OF w inv]]
    by (simp add: createChildAttempt_def Let_def case_prod_beta)
  with w show ?thesis by (rule rtranclp_trans)
qed

lemma createAttempt_writes: "node_inv s \<Longrightarrow> row_writes s (snd (createAttempt i s))"
  by (simp add: createAttempt_def case_prod_beta createChildAttempt_writes split: option.split)

lemma ensureChildAttempt_writes: "node_inv s \<Longrightarrow> row_writes s (snd (ensureChildAttempt i s))"
  by (simp add: ensureChildAttempt_def case_prod_beta createChildAttempt_writes split: option.split)

text \<open>Creating the children of a node\<close>

lemma insert_children_loop:
  assumes "known_run s i" and "nodeNamePattern n" and "distinct (map child_childKey cs)"
    and "\<And>c. c \<in> set cs \<Longrightarrow> child_runId c = i \<and> child_nodeName c = n \<and> child_status c = NPending
           \<and> child_version c = 1 \<and> child_childRunId c = None \<and> child_currentAttemptId c = None
           \<and> child_attemptCount c = 0"
    and "\<And>c. c \<in> set cs \<Longrightarrow> map_get (children s) (childKey i n (child_childKey c)) = None"
  shows "row_writes s (s\<lparr>children := fold (\<lambda>c m. map_set (childKey i n (child_childKey c)) c m) cs (children s)\<rparr>)"
  using assms
proof (induction cs arbitrary: s)
  case (Cons c cs)
  let ?k = "childKey i n (child_childKey c)"
  let ?mid = "s\<lparr>children := map_set ?k c (children s)\<rparr>"
  have "row_write s ?mid"
  proof (rule row_write.child_insert)
    show "child_row_ok ?mid ?k c"
      using Cons.prems(1,2) Cons.prems(4)[of c]
      by (simp add: child_row_ok_def current_ok_def known_run_def)
  qed (use Cons.prems(4)[of c] Cons.prems(5)[of c] in \<open>simp_all add: node_view_def\<close>)
  moreover have "row_writes ?mid (?mid\<lparr>children := fold (\<lambda>c m. map_set (childKey i n (child_childKey c)) c m) cs (children ?mid)\<rparr>)"
  proof (rule Cons.IH)
    show "known_run ?mid i" using Cons.prems(1) by (simp add: known_run_def)
    show "map_get (children ?mid) (childKey i n (child_childKey d)) = None" if "d \<in> set cs" for d
      using that Cons.prems(3) Cons.prems(5)[of d] by (auto simp: childKey_def image_iff)
    show "nodeNamePattern n" "distinct (map child_childKey cs)" using Cons.prems(2,3) by simp_all
    show "child_runId d = i \<and> child_nodeName d = n \<and> child_status d = NPending
           \<and> child_version d = 1 \<and> child_childRunId d = None \<and> child_currentAttemptId d = None
           \<and> child_attemptCount d = 0" if "d \<in> set cs" for d
      using Cons.prems(4)[of d] that by simp
  qed
  ultimately show ?case by (simp add: converse_rtranclp_into_rtranclp)
qed simp

lemma ensureNodeChildren_writes:
  assumes inv: "node_inv s" and i: "known_run s i" and dist: "distinct (map ec_childKey inputs)"
  shows "row_writes s (snd (ensureNodeChildren i n inputs s))"
proof -
  let ?created = "map (newChild i n (fst (now s))) inputs"
  have "row_writes s (snd (ensureNodeChildren i n inputs s))"
    if node: "map_get (nodes s) (nodeKey i n) = Some node" and none: "nodeChildren i n s = []" for node
  proof -
    have pattern: "nodeNamePattern n"
    proof -
      have row: "node_row_ok s (nodeKey i n) node" using node_inv_rows(1)[OF inv node] .
      then have "i = node_runId node \<and> n = node_name node"
        by (intro nodeKey_inject) (use known_run_no_colon i in \<open>auto simp: node_row_ok_def\<close>)
      with row show ?thesis by (simp add: node_row_ok_def)
    qed
    have free: "map_get (children (snd (now s))) (childKey i n key) = None" for key
    proof (rule ccontr)
      assume "map_get (children (snd (now s))) (childKey i n key) \<noteq> None"
      then obtain c where c: "map_get (children s) (childKey i n key) = Some c" by auto
      have row: "child_row_ok s (childKey i n key) c" using node_inv_rows(2)[OF inv c] .
      then have "i = child_runId c \<and> n = child_nodeName c \<and> key = child_childKey c"
        by (intro childKey_inject)
           (use known_run_no_colon node_name_no_colon i pattern in \<open>auto simp: child_row_ok_def\<close>)
      moreover have "c \<in> set (map_values (children s))" using map_of_SomeD[OF c] by force
      ultimately show False using none by (auto simp: nodeChildren_def filter_empty_conv)
    qed
    have "row_writes (snd (now s)) ((snd (now s))\<lparr>children :=
        fold (\<lambda>c m. map_set (childKey i n (child_childKey c)) c m) ?created (children (snd (now s)))\<rparr>)"
    proof (rule insert_children_loop)
      show "known_run (snd (now s)) i" using i by (simp add: known_run_def)
      show "distinct (map child_childKey ?created)" using dist by (simp add: newChild_def comp_def)
    qed (use pattern free in \<open>auto simp: newChild_def\<close>)
    with row_writes_calm[of "snd (now s)" s] show ?thesis
      using node none by (simp add: ensureNodeChildren_def prim_simps converse_rtranclp_into_rtranclp)
  qed
  moreover have "snd (ensureNodeChildren i n inputs s) = s"
    if "map_get (nodes s) (nodeKey i n) = None \<or> nodeChildren i n s \<noteq> []"
    using that by (auto simp: ensureNodeChildren_def Let_def split: option.split)
  ultimately show ?thesis by (cases "map_get (nodes s) (nodeKey i n)") fastforce+
qed

text \<open>Linking a child run: the run is new, or one that an earlier call created for this parent.\<close>

lemma createRunWithState_run:
  assumes inv: "run_inv s" and "cr_unique input = None" and parent: "\<And>p. cr_parentRunId input = Some p \<Longrightarrow> known_run s p"
    and res: "createRunWithState input s = (Inr (r, created), s')"
  shows "map_get (runs s') (run_id r) = Some r" and "run_parentRunId r = cr_parentRunId input"
proof -
  have "map_get (runs s') (run_id r) = Some r \<and> run_parentRunId r = cr_parentRunId input"
  proof (cases "may_create input s")
    case True
    with res have "r = created_run input s" "s' = emitRunStatusEvent (created_run input s) (after_create input s)"
      by (auto simp: createRunWithState_new)
    then show ?thesis by (simp add: after_create_def created_run_def)
  next
    case False
    with assms(2) obtain k i where "cr_idempotencyKey input = Some k"
      "truthy (map_get (runIdempotencyKeys s) (runIdempotencyKey (rt_host s) k)) = Some i"
      by (auto simp: may_create_def)
    with res obtain q where q: "map_get (runs s) i = Some q" "runMatchesCreateInput (rt_host s) q input" "r = q" "s' = s"
      by (auto simp: createRunWithState_def split: option.splits if_splits)
    with run_inv_row[OF inv q(1)] show ?thesis by (simp add: runMatchesCreateInput_def run_row_ok_def)
  qed
  then show "map_get (runs s') (run_id r) = Some r" "run_parentRunId r = cr_parentRunId input" by simp_all
qed

lemma ensureChildRun_writes:
  assumes rinv: "run_inv s" and inv: "node_inv s" and i: "known_run s (ecr_runId p)"
  shows "row_writes s (snd (ensureChildRun p s))"
proof -
  let ?k = "childKey (ecr_runId p) (ecr_nodeName p) (ecr_childKey p)"
  have "row_writes s (snd (ensureChildRun p s))"
    if c: "map_get (children s) ?k = Some c" and link: "child_childRunId c = None"
      "\<not> isTerminalNodeStatus (child_status c)" and res: "createRunWithState (childRunInput p) s = (Inr (r, b), s1)" for c r b s1
  proof -
    let ?s' = "snd (ensureChildRun p s)"
    have row: "child_row_ok s ?k c" using node_inv_rows(2)[OF inv c] .
    have views: "node_view s1 = node_view s" "later s s1"
      using createRunWithState_frames(1)[of "childRunInput p" s] createRunWithState_frames(3)[of s "childRunInput p"] res
      by simp_all
    have parent: "run_before (ecr_runId p) (run_id r)" "known_run s1 (run_id r)"
    proof -
      have known: "\<And>q. cr_parentRunId (childRunInput p) = Some q \<Longrightarrow> known_run s q"
        using i by (auto simp: childRunInput_def)
      have "run_inv s1" using run_inv_createRun[OF rinv known] res by (metis snd_conv)
      moreover have "map_get (runs s1) (run_id r) = Some r" "run_parentRunId r = Some (ecr_runId p)"
        using createRunWithState_run[OF rinv _ known res] by (simp_all add: childRunInput_def)
      ultimately show "run_before (ecr_runId p) (run_id r)" "known_run s1 (run_id r)"
        using run_inv_row[of s1 "run_id r" r] by (auto simp: run_row_ok_def)
    qed
    have owner: "child_runId c = ecr_runId p"
    proof -
      have "ecr_runId p @ CHR '':'' # (ecr_nodeName p @ CHR '':'' # ecr_childKey p) =
            child_runId c @ CHR '':'' # (child_nodeName c @ CHR '':'' # child_childKey c)"
        using row by (simp add: child_row_ok_def childKey_def)
      moreover have "CHR '':'' \<notin> set (child_runId c)"
        using row known_run_no_colon by (auto simp: child_row_ok_def)
      ultimately show ?thesis using split_at_inject known_run_no_colon[OF i] by metis
    qed
    define c' where "c' = c\<lparr>child_childRunId := Some (run_id r), child_status := NRunning,
      child_version := child_version c + 1, child_updatedAt := fst (now s1)\<rparr>"
    have s': "children ?s' = map_set ?k c' (children s)" "nodes ?s' = nodes s" "attempts ?s' = attempts s" "later s1 ?s'"
      using views c link res by (auto simp: ensureChildRun_def prim_simps c'_def node_view_def)
    have later: "later s ?s'" by (simp add: frame_simps)
    have "row_write s ?s'"
    proof (rule row_write.child_write[OF c])
      show "child_evolves c c'"
        using link row node_live_transitions[of "child_status c" NRunning]
        by (auto simp: child_evolves_def c'_def child_row_ok_def)
      have "known_run ?s' (run_id r)" using parent(2) s'(4) by (rule known_run_later)
      with child_row_ok_keep[OF later s'(3) row] parent(1) owner show "child_row_ok ?s' ?k c'"
        by (auto simp: child_row_ok_def c'_def current_ok_def attempt_of_def split: option.splits)
    qed (use s' later in \<open>simp_all add: node_view_def\<close>)
    then show ?thesis by auto
  qed
  moreover have "node_view (snd (ensureChildRun p s)) = node_view s"
    if other: "\<And>c r b s1. \<not> (map_get (children s) ?k = Some c \<and> child_childRunId c = None
        \<and> \<not> isTerminalNodeStatus (child_status c) \<and> createRunWithState (childRunInput p) s = (Inr (r, b), s1))"
  proof (cases "\<exists>c. map_get (children s) ?k = Some c \<and> child_childRunId c = None \<and> \<not> isTerminalNodeStatus (child_status c)")
    case True
    with other obtain e s1 where "createRunWithState (childRunInput p) s = (Inl e, s1)"
      by (metis obj_sumE surj_pair)
    with True createRunWithState_frames(1)[of "childRunInput p" s] show ?thesis
      by (auto simp: ensureChildRun_def Let_def)
  next
    case False
    then show ?thesis by (auto simp: ensureChildRun_def Let_def split: option.split)
  qed
  moreover have "later s (snd (ensureChildRun p s))" by (simp add: frame_simps)
  ultimately show ?thesis by (metis row_writes_calm)
qed

section \<open>The invariant holds of every reachable state\<close>

lemma work_step_writes: "work_step s s' \<Longrightarrow> run_inv s \<Longrightarrow> node_inv s \<Longrightarrow> row_writes s s'"
  by (induction rule: work_step.induct)
     (simp_all add: createNode_writes setNodeInput_writes selectNodeCase_writes completeNode_writes failNode_writes
        cancelNode_writes waitNode_writes cancelNonTerminalRunNodes_writes ensureNodeChildren_writes
        completeNodeChild_writes failNodeChild_writes ensureChildRun_writes createAttempt_writes
        ensureChildAttempt_writes completeCurrentAttempt_writes failCurrentAttempt_writes
        timeoutCurrentAttempt_writes row_writes_calm frame_simps later_now dispatchActivity_def
        dispatchTask_def calm_steps)

lemma deleteRunTrees_rows:
  "nodes (deleteRunTrees ids s) = map_remove_where (\<lambda>_ n. node_runId n \<in> set ids) (nodes s)"
  "attempts (deleteRunTrees ids s) = map_remove_where (\<lambda>_ a. attempt_runId a \<in> set ids) (attempts s)"
  "children (deleteRunTrees ids s) = map_remove_where (\<lambda>_ c. child_runId c \<in> set ids
     \<or> (case child_childRunId c of None \<Rightarrow> False | Some r \<Rightarrow> r \<in> set ids)) (children s)"
  by (simp_all add: deleteRunTrees_def case_prod_beta split: option.split)

lemma node_inv_delete:
  assumes inv: "node_inv s"
  shows "node_inv (deleteRunTrees ids s)"
proof (cases "ids = []")
  case False
  let ?s' = "deleteRunTrees ids s"
  have wf: "wf_map (nodes s)" "wf_map (children s)" "wf_map (attempts s)" using inv by (simp_all add: node_inv_def)
  have later: "later s ?s'" by (simp add: frame_simps)
  have "node_row_ok ?s' k n" if "map_get (nodes ?s') k = Some n" for k n
    using that wf row_ok_later(1)[OF later] node_inv_rows(1)[OF inv]
    by (auto simp: deleteRunTrees_rows map_get_filter split: option.splits if_splits)
  moreover have "attempt_row_ok ?s' k a" if "map_get (attempts ?s') k = Some a" for k a
    using that wf row_ok_later(2)[OF later] node_inv_rows(3)[OF inv]
    by (auto simp: deleteRunTrees_rows map_get_filter split: option.splits if_splits)
  moreover have "child_row_ok ?s' k c" if "map_get (children ?s') k = Some c" for k c
  proof -
    have c: "map_get (children s) k = Some c" "child_runId c \<notin> set ids"
      using that wf False by (auto simp: deleteRunTrees_rows map_get_filter split: option.splits if_splits)
    then have row: "child_row_ok s k c" using node_inv_rows(2)[OF inv] by simp
    have "current_ok (attempts ?s') c"
      using child_row_ok_current[OF row] c(2) wf
      by (auto simp: current_ok_def deleteRunTrees_rows map_get_filter attempt_of_def split: option.splits)
    with row show ?thesis by (rule row_ok_later(3)[OF later])
  qed
  moreover have "wf_map (nodes ?s')" "wf_map (children ?s')" "wf_map (attempts ?s')"
    using wf by (simp_all add: deleteRunTrees_rows)
  ultimately show ?thesis unfolding node_inv_def by blast
qed (use inv in \<open>simp add: deleteRunTrees_def\<close>)

lemma node_inv_calm: "node_view s' = node_view s \<Longrightarrow> later s s' \<Longrightarrow> node_inv s \<Longrightarrow> node_inv s'"
  by (rule node_inv_write) (auto intro: row_write.calm_write)

interpretation node_invariant: runtime_invariant "\<lambda>s. run_inv s \<and> node_inv s"
proof (rule runtime_invariant_conj[OF run_invariant.runtime_invariant_axioms])
  show "node_inv (createInMemoryWorkflowRuntime h n)" for h n
    by (simp add: node_inv_def createInMemoryWorkflowRuntime_def)
  show "node_inv s'" if "run_inv s" "node_inv s" "work_step s s'" for s s'
    using node_inv_writes[OF work_step_writes[OF that(3,1,2)] that(2)] .
  show "node_inv s'" if "run_inv s" "node_inv s" "delete_step s s'" for s s'
    using that(3) node_inv_delete[OF that(2)] that(2)
    by (cases rule: delete_step_cases) (auto intro: node_inv_calm simp: sweep_frames)
qed

section \<open>How rows evolve\<close>

lemma row_write_rows:
  assumes "row_write s s'"
  shows "map_get (nodes s) k = Some n \<Longrightarrow> \<exists>n'. map_get (nodes s') k = Some n' \<and> (n' = n \<or> node_evolves n n')"
    and "map_get (children s) k = Some c \<Longrightarrow> \<exists>c'. map_get (children s') k = Some c' \<and> (c' = c \<or> child_evolves c c')"
  using assms by (cases rule: row_write.cases; auto simp: node_view_def)+

lemma row_write_attempts:
  assumes "row_write s s'" and inv: "node_inv s"
  shows "map_get (attempts s) k = Some a \<Longrightarrow> \<exists>a'. map_get (attempts s') k = Some a' \<and> (a' = a \<or> attempt_evolves a a')"
    and "map_get (attempts s) k = None \<Longrightarrow> map_get (attempts s') k = Some a' \<Longrightarrow>
      \<exists>m. k = mk_id ''attempt'' m \<and> nextId s \<le> m"
  using assms(1) node_inv_fresh_attempt[OF inv]
  by (cases rule: row_write.cases; auto simp: node_view_def split: if_splits)+

lemma row_writes_nodes:
  "row_writes s s' \<Longrightarrow> map_get (nodes s) k = Some n \<Longrightarrow> \<exists>n'. map_get (nodes s') k = Some n' \<and> node_evolves\<^sup>*\<^sup>* n n'"
proof (induction rule: rtranclp_induct)
  case (step t u)
  then show ?case by (metis row_write_rows(1) rtranclp.rtrancl_into_rtrancl)
qed auto

lemma row_writes_children:
  "row_writes s s' \<Longrightarrow> map_get (children s) k = Some c \<Longrightarrow>
     \<exists>c'. map_get (children s') k = Some c' \<and> child_evolves\<^sup>*\<^sup>* c c'"
proof (induction rule: rtranclp_induct)
  case (step t u)
  then show ?case by (metis row_write_rows(2) rtranclp.rtrancl_into_rtrancl)
qed auto

lemma row_writes_attempts:
  assumes "row_writes s s'" and inv: "node_inv s"
  shows "map_get (attempts s) k = Some a \<Longrightarrow> \<exists>a'. map_get (attempts s') k = Some a' \<and> attempt_evolves\<^sup>*\<^sup>* a a'"
    and "map_get (attempts s) k = None \<Longrightarrow> map_get (attempts s') k = Some a' \<Longrightarrow>
      \<exists>m. k = mk_id ''attempt'' m \<and> nextId s \<le> m"
  using assms(1)
proof (induction arbitrary: a' rule: rtranclp_induct)
  case (step t u)
  have inv': "node_inv t" using node_inv_writes[OF step.hyps(1) inv] .
  note w = row_write_attempts[OF step.hyps(2) inv']
  have later: "nextId s \<le> nextId t"
    using step.hyps(1) by (induction rule: rtranclp_induct) (auto dest!: row_write_later simp: later_def)
  { case 1 with step.IH(1) w(1) show ?case by (metis rtranclp.rtrancl_into_rtrancl) }
  { case 2
    show ?case
    proof (cases "map_get (attempts t) k")
      case None
      with w(2)[of k a'] 2(2) later show ?thesis by (auto dest: order_trans)
    next
      case (Some a)
      with step.IH(2)[of a] 2(1) show ?thesis by simp
    qed }
qed auto

lemma node_evolves_closure:
  assumes "node_evolves\<^sup>*\<^sup>* n n'"
  shows "(canTransition NODE_TRANSITIONS)\<^sup>*\<^sup>* (node_status n) (node_status n')" and "node_version n \<le> node_version n'"
    and "isTerminalNodeStatus (node_status n) \<Longrightarrow> n' = n"
  using assms
proof (induction rule: rtranclp_induct)
  case (step q u)
  { case 1 from step show ?case by (auto simp: node_evolves_def intro: rtranclp.rtrancl_into_rtrancl) }
  { case 2 from step show ?case by (auto simp: node_evolves_def) }
  { case 3 from step 3 show ?case by (auto simp: node_evolves_def) }
qed simp_all

lemma child_evolves_closure:
  assumes "child_evolves\<^sup>*\<^sup>* c c'"
  shows "(canTransition NODE_TRANSITIONS)\<^sup>*\<^sup>* (child_status c) (child_status c')"
    and "child_version c \<le> child_version c'" and "child_attemptCount c \<le> child_attemptCount c'"
    and "isTerminalNodeStatus (child_status c) \<Longrightarrow> c' = c"
    and "child_childRunId c = Some i \<Longrightarrow> child_childRunId c' = Some i"
  using assms
proof (induction rule: rtranclp_induct)
  case (step q u)
  { case 1 from step show ?case by (auto simp: child_evolves_def intro: rtranclp.rtrancl_into_rtrancl) }
  { case 2 from step show ?case by (auto simp: child_evolves_def) }
  { case 3 from step show ?case by (auto simp: child_evolves_def) }
  { case 4 from step 4 show ?case by (auto simp: child_evolves_def) }
  { case 5 from step 5 show ?case by (auto simp: child_evolves_def) }
qed simp_all

lemma attempt_evolves_closure:
  "attempt_evolves\<^sup>*\<^sup>* a a' \<Longrightarrow> a' = a \<or> attempt_status a = AStarted \<and> attempt_evolves a a'"
proof (induction rule: rtranclp_induct)
  case (step q u)
  have "attempt_status q = AStarted" using step(2)
    by (cases "attempt_status q") (simp_all add: attempt_evolves_def canTransition_def)
  then show ?case using step
    by (auto simp: attempt_evolves_def canTransition_def)
qed simp

interpretation attempt_table: row_table attempts "attempt_evolves\<^sup>*\<^sup>*" "''attempt''"
proof
  fix s s' k a'
  assume reach: "reachable s" and "step s s'" and a': "map_get (attempts s') k = Some a'"
  have inv: "run_inv s" "node_inv s" using node_invariant.holds[OF reach] by simp_all
  from \<open>step s s'\<close> consider "work_step s s'" | "delete_step s s'" by (auto simp: step_def)
  then show "(\<exists>n. map_get (attempts s) k = None \<and> k = mk_id ''attempt'' n \<and> nextId s \<le> n)
      \<or> (\<exists>a. map_get (attempts s) k = Some a \<and> attempt_evolves\<^sup>*\<^sup>* a a')"
  proof cases
    case 1
    note w = row_writes_attempts[OF work_step_writes[OF 1 inv] inv(2), of k]
    show ?thesis using w a' by (cases "map_get (attempts s) k") auto
  next
    case 2
    then show ?thesis using a' inv(2)
      by (cases rule: delete_step_cases)
         (auto simp: node_inv_def deleteRunTrees_rows map_get_filter sweepDeadCommands_def
            split: option.splits if_splits)
  qed
next
  show "issued (nextId s) k" if "reachable s" "map_get (attempts s) k = Some a" for s k a
    using node_inv_rows(3)[of s k a] node_invariant.holds[OF that(1)] that(2)
    by (auto simp: attempt_row_ok_def)
qed

lemma work_steps_inv: "work_step\<^sup>*\<^sup>* s s' \<Longrightarrow> run_inv s \<and> node_inv s \<Longrightarrow> run_inv s' \<and> node_inv s'"
  by (induction rule: rtranclp_induct) (simp, metis node_invariant.work)

lemma work_steps_writes: "work_step\<^sup>*\<^sup>* s s' \<Longrightarrow> run_inv s \<and> node_inv s \<Longrightarrow> row_writes s s'"
proof (induction rule: rtranclp_induct)
  case (step t u)
  with work_steps_inv[OF step.hyps(1)] work_step_writes[OF step.hyps(2)] show ?case by auto
qed simp

end
