(* ===== verification/NodeProperties.thy ===== *)
theory NodeProperties
  imports NodeSafety RunProperties
begin

text \<open>
  The guarantees of the node, child and attempt tables: rows are well formed and
  linked, statuses follow the tables, an attempt is settled at most once, a
  superseded attempt is fenced off, and the ensure operations are idempotent.
\<close>

section \<open>Well-formed rows\<close>

text \<open>
  C7: every stored child is stored under its own key, belongs to a run that was issued,
  links only to a run issued after that run (so families of runs are acyclic), and its
  current attempt is stored, belongs to it, carries its own lease token and is the
  latest one: its number is the attempt count of the child.
\<close>

theorem child_rows_are_linked:
  assumes "reachable s" and "map_get (children s) k = Some c"
  shows "k = childKey (child_runId c) (child_nodeName c) (child_childKey c)
    \<and> known_run s (child_runId c)
    \<and> (\<forall>i. child_childRunId c = Some i \<longrightarrow> run_before (child_runId c) i)
    \<and> (case child_currentAttemptId c of
         None \<Rightarrow> child_attemptCount c = 0
       | Some a \<Rightarrow> \<exists>att. map_get (attempts s) a = Some att \<and> attempt_id att = a \<and> attempt_of att c
                       \<and> attempt_attemptNumber att = child_attemptCount c \<and> attempt_leaseToken att \<noteq> None)"
proof -
  have inv: "node_inv s" using node_invariant.holds[OF assms(1)] by simp
  note row = node_inv_rows(2)[OF inv assms(2)]
  show ?thesis
  proof (cases "child_currentAttemptId c")
    case None
    with row show ?thesis by (simp add: child_row_ok_def current_ok_def)
  next
    case (Some a)
    with row obtain att where att: "map_get (attempts s) a = Some att" "attempt_of att c"
        "attempt_attemptNumber att = child_attemptCount c"
      by (auto simp: child_row_ok_def current_ok_def)
    with node_inv_rows(3)[OF inv att(1)] row Some show ?thesis
      by (auto simp: child_row_ok_def attempt_row_ok_def)
  qed
qed

lemma one_attempt_child:
  obtains c where "map_get (children one_attempt) ''run-1:charge:$self'' = Some c"
    "child_currentAttemptId c = Some ''attempt-2''" "child_attemptCount c = 1" "child_status c = NRunning"
    "child_runId c = ''run-1''"
  by (simp add: sample_defs sample_eval)

theorem child_rows_are_linked_witness:
  "\<exists>c att. map_get (children one_attempt) ''run-1:charge:$self'' = Some c
     \<and> map_get (attempts one_attempt) ''attempt-2'' = Some att \<and> attempt_of att c \<and> attempt_attemptNumber att = 1"
proof -
  obtain c where c: "map_get (children one_attempt) ''run-1:charge:$self'' = Some c"
    "child_currentAttemptId c = Some ''attempt-2''" "child_attemptCount c = 1"
    by (rule one_attempt_child)
  from child_rows_are_linked[OF reachable_one_attempt c(1)] c show ?thesis by auto
qed

section \<open>Status changes\<close>

text \<open>
  C8: while nothing is deleted, a stored node stays stored and only moves along the
  transition table with a growing version; once its status is terminal it is frozen. The
  same holds of children, whose attempt count never drops and whose link to a child
  run is never changed.
\<close>

theorem node_and_child_rows_advance:
  assumes "reachable s" and "work_step\<^sup>*\<^sup>* s s'"
  shows "(\<forall>k n. map_get (nodes s) k = Some n \<longrightarrow>
      (\<exists>n'. map_get (nodes s') k = Some n'
         \<and> (canTransition NODE_TRANSITIONS)\<^sup>*\<^sup>* (node_status n) (node_status n') \<and> node_version n \<le> node_version n'
         \<and> (isTerminalNodeStatus (node_status n) \<longrightarrow> n' = n)))
    \<and> (\<forall>k c. map_get (children s) k = Some c \<longrightarrow>
      (\<exists>c'. map_get (children s') k = Some c'
         \<and> (canTransition NODE_TRANSITIONS)\<^sup>*\<^sup>* (child_status c) (child_status c') \<and> child_version c \<le> child_version c'
         \<and> child_attemptCount c \<le> child_attemptCount c'
         \<and> (child_childRunId c \<noteq> None \<longrightarrow> child_childRunId c' = child_childRunId c)
         \<and> (isTerminalNodeStatus (child_status c) \<longrightarrow> c' = c)))"
    (is "?nodes \<and> ?children")
proof
  note writes = work_steps_writes[OF assms(2) node_invariant.holds[OF assms(1)]]
  show ?nodes using row_writes_nodes[OF writes] node_evolves_closure by blast
  show ?children using row_writes_children[OF writes] child_evolves_closure by (metis not_Some_eq)
qed

theorem node_and_child_rows_advance_witness:
  "\<exists>c c'. map_get (children one_attempt) ''run-1:charge:$self'' = Some c
     \<and> map_get (children (snd (completeCurrentAttempt ''attempt-2'' (Some ''attempt-lease-3'') JNull one_attempt)))
         ''run-1:charge:$self'' = Some c'
     \<and> (canTransition NODE_TRANSITIONS)\<^sup>*\<^sup>* (child_status c) (child_status c') \<and> child_attemptCount c \<le> child_attemptCount c'"
proof -
  obtain c where c: "map_get (children one_attempt) ''run-1:charge:$self'' = Some c"
    by (rule one_attempt_child)
  have "work_step\<^sup>*\<^sup>* one_attempt (snd (completeCurrentAttempt ''attempt-2'' (Some ''attempt-lease-3'') JNull one_attempt))"
    by (simp add: complete_attempt r_into_rtranclp)
  from node_and_child_rows_advance[OF reachable_one_attempt this] c show ?thesis by blast
qed

section \<open>Settling attempts\<close>

lemma createChildAttempt_count:
  assumes "childKey (child_runId c) (child_nodeName c) (child_childKey c) = k"
  shows "\<exists>c'. map_get (children (snd (createChildAttempt c v i s))) k = Some c' \<and> child_attemptCount c' = child_attemptCount c + 1"
proof -
  have "children (mirrorNodeRunning r n s) = children s" for r n s
    by (simp add: mirrorNodeRunning_def Let_def case_prod_beta split: option.split)
  with assms show ?thesis
    by (simp add: createChildAttempt_def insertChildAttempt_def prim_simps)
qed

lemma ensureChildAttempt_counts:
  assumes inv: "node_inv s" and res: "ensureChildAttempt i s = (Inr (a, created), s')"
  shows "\<exists>c'. map_get (children s') (childKey (ca_runId i) (ca_nodeName i) (ca_childKey i)) = Some c' \<and> 0 < child_attemptCount c'"
proof -
  let ?k = "childKey (ca_runId i) (ca_nodeName i) (ca_childKey i)"
  obtain c where c: "map_get (children s) ?k = Some c" using res by (auto simp: ensureChildAttempt_def split: option.splits)
  have "childKey (child_runId c) (child_nodeName c) (child_childKey c) = ?k"
    using node_inv_rows(2)[OF inv c] by (simp add: child_row_ok_def)
  from createChildAttempt_count[OF this] c res show ?thesis
    by (fastforce simp: ensureChildAttempt_def case_prod_beta split: option.splits if_splits)
qed

lemma settled_is_fenced:
  assumes "reachable s" and "map_get (attempts s) a = Some att" and "attempt_status att \<noteq> AStarted" and "step\<^sup>*\<^sup>* s t"
  shows "fencedCurrentAttempt a l t = None"
proof (cases "map_get (attempts t) a")
  case (Some att')
  have "attempt_evolves\<^sup>*\<^sup>* att att'"
    using attempt_table.row_steps[OF assms(4,1,2) Some] by (simp add: rtranclp_idemp)
  with attempt_evolves_closure assms(3) have "att' = att" by blast
  with Some assms(3) show ?thesis by (simp add: fencedCurrentAttempt_def)
qed (simp add: fencedCurrentAttempt_def)

lemma unfenced_attempt:
  "fencedCurrentAttempt a l s = None \<Longrightarrow> completeCurrentAttempt a l v s = (None, s)"
  "fencedCurrentAttempt a l s = None \<Longrightarrow> failCurrentAttempt a l e s = (None, s)"
  "fencedCurrentAttempt a l s = None \<Longrightarrow> timeoutCurrentAttempt a l e s = (None, s)"
  by (simp_all add: attempt_status_defs)

lemma fenced_completes:
  assumes "fencedCurrentAttempt a l s \<noteq> None"
  shows "\<exists>x. fst (completeCurrentAttempt a l v s) = Some x"
proof -
  obtain att c where "fencedCurrentAttempt a l s = Some (att, c)" using assms by auto
  then show ?thesis by (simp add: completeCurrentAttempt_def Let_def case_prod_beta)
qed

lemma settled_attempts:
  "fst (completeCurrentAttempt a l v s) = Some x \<Longrightarrow>
     \<exists>att. map_get (attempts (snd (completeCurrentAttempt a l v s))) a = Some att \<and> attempt_status att \<noteq> AStarted"
  "fst (failCurrentAttempt a l e s) = Some x \<Longrightarrow>
     \<exists>att. map_get (attempts (snd (failCurrentAttempt a l e s))) a = Some att \<and> attempt_status att \<noteq> AStarted"
  "fst (timeoutCurrentAttempt a l e s) = Some x \<Longrightarrow>
     \<exists>att. map_get (attempts (snd (timeoutCurrentAttempt a l e s))) a = Some att \<and> attempt_status att \<noteq> AStarted"
  by (auto simp: attempt_status_defs prim_simps split: option.splits)

text \<open>
  C5: an attempt is settled at most once. After a completion, failure or timeout of an
  attempt was accepted, no sequence of operations makes the store accept another
  settlement of it, with whatever lease token: it reports nothing and changes nothing.
\<close>

theorem attempt_settles_once:
  assumes "reachable s"
    and "fst (completeCurrentAttempt a l v s) = Some x \<and> s' = snd (completeCurrentAttempt a l v s)
       \<or> fst (failCurrentAttempt a l e s) = Some x \<and> s' = snd (failCurrentAttempt a l e s)
       \<or> fst (timeoutCurrentAttempt a l e s) = Some x \<and> s' = snd (timeoutCurrentAttempt a l e s)"
    and "step\<^sup>*\<^sup>* s' t"
  shows "completeCurrentAttempt a l' v' t = (None, t)
    \<and> failCurrentAttempt a l' e' t = (None, t) \<and> timeoutCurrentAttempt a l' e' t = (None, t)"
proof -
  obtain att where "map_get (attempts s') a = Some att" "attempt_status att \<noteq> AStarted"
    using assms(2) settled_attempts by blast
  moreover have "work_step s s'"
    using assms(2) complete_attempt fail_attempt timeout_attempt by blast
  ultimately have "fencedCurrentAttempt a l' t = None"
    using settled_is_fenced[OF reachable_work[OF assms(1)]] assms(3) by blast
  then show ?thesis by (simp add: unfenced_attempt)
qed

definition settled_attempt :: "StoredAttempt option \<times> runtime" where
  "settled_attempt = completeCurrentAttempt ''attempt-2'' (Some ''attempt-lease-3'') JNull one_attempt"

theorem attempt_settles_once_witness:
  "fst settled_attempt \<noteq> None
   \<and> failCurrentAttempt ''attempt-2'' (Some ''attempt-lease-3'') (Plain JNull) (snd settled_attempt)
       = (None, snd settled_attempt)"
proof -
  have "fencedCurrentAttempt ''attempt-2'' (Some ''attempt-lease-3'') one_attempt \<noteq> None"
    by (simp add: sample_defs sample_eval fencedCurrentAttempt_def)
  from fenced_completes[OF this, of JNull] obtain x where x: "fst settled_attempt = Some x"
    unfolding settled_attempt_def by (elim exE)
  note settled = attempt_settles_once[OF reachable_one_attempt
      disjI1[OF conjI[OF x[unfolded settled_attempt_def] refl]] rtranclp.rtrancl_refl, folded settled_attempt_def]
  have "failCurrentAttempt ''attempt-2'' (Some ''attempt-lease-3'') (Plain JNull) (snd settled_attempt) = (None, snd settled_attempt)"
    by (rule settled[THEN conjunct2, THEN conjunct1])
  with x show ?thesis by simp
qed

section \<open>Current attempts\<close>

abbreviation current_attempt :: "runtime \<Rightarrow> string \<Rightarrow> string option" where
  "current_attempt s k \<equiv> Option.bind (map_get (children s) k) child_currentAttemptId"

text \<open>A step keeps the current attempt of a child, drops it, or replaces it by one never issued before.\<close>

definition currents_advance :: "runtime \<Rightarrow> runtime \<Rightarrow> bool" where
  "currents_advance s s' \<longleftrightarrow> (\<forall>k a. current_attempt s' k = Some a \<longrightarrow>
     current_attempt s k = Some a \<or> (\<exists>n. nextId s \<le> n \<and> a = mk_id ''attempt'' n))"

lemma currents_view: "node_view s' = node_view s \<Longrightarrow> currents_advance s s'"
  by (simp add: currents_advance_def view_defs)

lemma currents_nodes: "children s' = children s \<Longrightarrow> currents_advance s s'"
  by (simp add: currents_advance_def)

lemma currents_write:
  assumes "children s' = map_set k c' (children s)"
    and "child_currentAttemptId c' = current_attempt s k \<or> (\<exists>n. nextId s \<le> n \<and> child_currentAttemptId c' = Some (mk_id ''attempt'' n))"
  shows "currents_advance s s'"
  using assms by (auto simp: currents_advance_def)

lemma child_ops_currents:
  "currents_advance s (snd (completeNodeChild r n k v s))" "currents_advance s (snd (failNodeChild r n k e s))"
  "currents_advance s (snd (ensureChildRun p s))"
proof -
  show "currents_advance s (snd (completeNodeChild r n k v s))" "currents_advance s (snd (failNodeChild r n k e s))"
    by (auto simp: completeNodeChild_def failNodeChild_def currents_advance_def effect_simps split: option.splits if_splits)
  obtain x t where t: "createRunWithState (childRunInput p) s = (x, t)" by (cases "createRunWithState (childRunInput p) s")
  have "children t = children s" using createRunWithState_frames(1)[of "childRunInput p" s] t by (simp add: view_defs)
  with t show "currents_advance s (snd (ensureChildRun p s))"
    by (auto simp: ensureChildRun_def currents_advance_def effect_simps split: option.splits if_splits sum.splits)
qed

lemma attempt_ops_currents:
  assumes "node_inv s"
  shows "currents_advance s (snd (createAttempt i s))" "currents_advance s (snd (ensureChildAttempt i s))"
    "currents_advance s (snd (completeCurrentAttempt a l v s))" "currents_advance s (snd (failCurrentAttempt a l e s))"
    "currents_advance s (snd (timeoutCurrentAttempt a l e s))"
proof -
  have "children (mirrorNodeRunning r n t) = children t" for r n t
    by (auto simp: mirrorNodeRunning_def effect_simps split: option.split)
  then have new: "currents_advance s (snd (createChildAttempt c v key s))" for c v key
    by (intro currents_write) (auto simp: createChildAttempt_def insertChildAttempt_def case_prod_beta effect_simps)
  then show "currents_advance s (snd (createAttempt i s))" "currents_advance s (snd (ensureChildAttempt i s))"
    by (auto simp: createAttempt_def ensureChildAttempt_def currents_nodes case_prod_beta split: option.splits)
  have key: "map_get (children s) (childKey (child_runId c) (child_nodeName c) (child_childKey c)) = Some c"
    if "fencedCurrentAttempt a l s = Some (att, c)" for att c
    using that node_inv_rows(2)[OF assms] by (fastforce simp: fencedCurrentAttempt_def child_row_ok_def split: option.splits if_splits)
  show "currents_advance s (snd (completeCurrentAttempt a l v s))" "currents_advance s (snd (failCurrentAttempt a l e s))"
    "currents_advance s (snd (timeoutCurrentAttempt a l e s))"
    using key by (auto simp: attempt_status_defs currents_advance_def effect_simps split: option.splits if_splits)
qed

lemma ensureNodeChildren_currents: "currents_advance s (snd (ensureNodeChildren r n inputs s))"
proof -
  have none: "Option.bind (map_get (fold (\<lambda>child m. map_set (childKey r n (child_childKey child)) child m) cs m) k) child_currentAttemptId = Some a
      \<Longrightarrow> \<forall>c \<in> set cs. child_currentAttemptId c = None \<Longrightarrow> Option.bind (map_get m k) child_currentAttemptId = Some a" for cs m k a
  proof (induction cs arbitrary: m)
    case (Cons c cs)
    from Cons.IH[of "map_set (childKey r n (child_childKey c)) c m"] Cons.prems
    have "Option.bind (map_get (map_set (childKey r n (child_childKey c)) c m) k) child_currentAttemptId = Some a" by simp
    with Cons.prems(2) show ?case by (auto split: if_splits)
  qed simp
  have fresh: "\<forall>c \<in> set (map (newChild r n d) inputs). child_currentAttemptId c = None" for d by (simp add: newChild_def)
  show ?thesis
    by (auto simp: ensureNodeChildren_def currents_advance_def effect_simps split: option.splits dest!: none[OF _ fresh])
qed

lemma cancelNodes_currents:
  assumes "node_inv s"
  shows "currents_advance s (snd (cancelNonTerminalRunNodes r s))"
proof -
  have nodes: "children (snd (fold (cancel_node_step r) ns acc)) = children (snd acc)" for ns acc
    by (induction ns arbitrary: acc) (auto simp: cancel_node_step_def case_prod_beta effect_simps)
  have "current_attempt (fold (cancel_child_step r) cs t) k = current_attempt t k"
    if "\<forall>c \<in> set cs. current_attempt t (childKey (child_runId c) (child_nodeName c) (child_childKey c)) = child_currentAttemptId c" for cs t k
    using that
  proof (induction cs arbitrary: t)
    case (Cons c cs)
    have same: "current_attempt (cancel_child_step r c t) j = current_attempt t j" for j
      using Cons.prems by (auto simp: cancel_child_step_def effect_simps)
    with Cons show ?case by simp
  qed simp
  moreover have "\<forall>c \<in> set (map_values (children s)). current_attempt s (childKey (child_runId c) (child_nodeName c) (child_childKey c)) = child_currentAttemptId c"
  proof
    fix c assume "c \<in> set (map_values (children s))"
    then obtain k where k: "map_get (children s) k = Some c" using assms in_map_values[of "children s" c] unfolding node_inv_def by blast
    with node_inv_rows(2)[OF assms k] show "current_attempt s (childKey (child_runId c) (child_nodeName c) (child_childKey c)) = child_currentAttemptId c"
      by (simp add: child_row_ok_def)
  qed
  ultimately show ?thesis using nodes[of "map_values (nodes s)" "([], s)"]
    by (simp add: cancelNonTerminalRunNodes_def currents_advance_def case_prod_beta)
qed

lemma node_ops_children:
  "children (snd (createNode r n kd s)) = children s" "children (snd (setNodeInput r n v s)) = children s"
  "children (snd (selectNodeCase r n c s)) = children s" "children (snd (completeNode r n v s)) = children s"
  "children (snd (failNode r n e s)) = children s" "children (snd (cancelNode r n s)) = children s"
  "children (snd (waitNode r n s)) = children s"
  by (auto simp: createNode_def node_status_defs effect_simps split: option.split)

lemma work_step_currents: "work_step s s' \<Longrightarrow> node_inv s \<Longrightarrow> currents_advance s s'"
  by (induction rule: work_step.induct)
     (simp_all add: child_ops_currents attempt_ops_currents ensureNodeChildren_currents cancelNodes_currents currents_nodes node_ops_children
        currents_view frame_simps dispatchActivity_def dispatchTask_def calm_steps)

lemma delete_step_currents: "delete_step s s' \<Longrightarrow> node_inv s \<Longrightarrow> currents_advance s s'"
  by (erule delete_step_cases)
     (auto simp: currents_advance_def node_inv_def deleteRunTrees_rows map_get_filter sweepDeadCommands_def split: option.splits if_splits)

text \<open>An attempt that was issued and is not the current one of its child never becomes it.\<close>

definition superseded :: "string \<Rightarrow> runtime \<Rightarrow> bool" where
  "superseded a s \<longleftrightarrow> (\<forall>k. current_attempt s k \<noteq> Some a) \<and> issued (nextId s) a"

lemma superseded_steps: "step\<^sup>*\<^sup>* s t \<Longrightarrow> reachable s \<Longrightarrow> superseded a s \<Longrightarrow> superseded a t"
proof (induction rule: rtranclp_induct)
  case (step t u)
  have inv: "node_inv t" using node_invariant.holds[OF reachable_steps[OF step.hyps(1) step.prems(1)]] by simp
  have "currents_advance t u" using step.hyps(2) work_step_currents delete_step_currents inv by (auto simp: step_def)
  moreover have "issued (nextId u) a"
    using step.IH[OF step.prems] step_later[OF step.hyps(2)] by (auto simp: superseded_def later_def intro: issued_mono)
  ultimately show ?case using step.IH[OF step.prems] by (fastforce simp: superseded_def currents_advance_def issued_def)
qed

lemma superseded_is_fenced: "superseded a s \<Longrightarrow> fencedCurrentAttempt a l s = None"
proof (cases "map_get (attempts s) a")
  case (Some att)
  assume "superseded a s"
  then have "current_attempt s (childKey (attempt_runId att) (attempt_nodeName att) (attempt_childKey att)) \<noteq> Some a"
    by (simp add: superseded_def)
  with Some show ?thesis by (auto simp: fencedCurrentAttempt_def split: option.split)
qed (simp add: fencedCurrentAttempt_def)

lemma createAttempt_supersedes:
  assumes inv: "node_inv s" and inv': "node_inv s'"
    and c: "map_get (children s) (childKey (ca_runId i) (ca_nodeName i) (ca_childKey i)) = Some c"
    and old: "child_currentAttemptId c = Some old" and new: "createAttempt i s = (Inr new, s')"
  shows "superseded old s'"
proof -
  let ?k = "childKey (ca_runId i) (ca_nodeName i) (ca_childKey i)"
  have key: "childKey (child_runId c) (child_nodeName c) (child_childKey c) = ?k"
    using node_inv_rows(2)[OF inv c] by (simp add: child_row_ok_def)
  obtain att where att: "map_get (attempts s) old = Some att" "attempt_of att c"
      "attempt_attemptNumber att = child_attemptCount c"
    using child_row_ok_current[OF node_inv_rows(2)[OF inv c]] old by (auto simp: current_ok_def)
  obtain c1 where c1: "map_get (children s') ?k = Some c1" "child_attemptCount c1 = child_attemptCount c + 1"
    using createChildAttempt_count[OF key, of "ca_input i" "ca_idempotencyKey i" s] c new
    by (auto simp: createAttempt_def case_prod_beta split: if_splits)
  obtain att' where att': "map_get (attempts s') old = Some att'" "attempt_identity att' = attempt_identity att"
    using row_writes_attempts(1)[OF createAttempt_writes[of s i, OF inv] inv att(1)] new by (auto dest: attempt_evolves_closure simp: attempt_evolves_def)
  have "current_attempt s' k \<noteq> Some old" for k
  proof
    assume "current_attempt s' k = Some old"
    then obtain d where d: "map_get (children s') k = Some d" "child_currentAttemptId d = Some old" by (auto simp: bind_eq_Some_conv)
    have row: "child_row_ok s' k d" using node_inv_rows(2)[OF inv' d(1)] by simp
    have "attempt_of att' d" "attempt_attemptNumber att' = child_attemptCount d"
      using child_row_ok_current[OF row] d(2) att'(1) by (auto simp: current_ok_def)
    moreover from this have "k = ?k"
      using attempt_identity_fields[OF att'(2)] att(2) key row by (simp add: attempt_of_def child_row_ok_def)
    ultimately show False using d(1) c1 att(3) attempt_identity_fields(6)[OF att'(2)] by simp
  qed
  moreover have "issued (nextId s') old" using node_inv_rows(3)[OF inv' att'(1)] by (auto simp: attempt_row_ok_def)
  ultimately show ?thesis by (simp add: superseded_def)
qed

text \<open>
  C6: a retry fences its predecessor off. Once a new attempt of a child was created, the
  attempt that was current before it can never be completed, failed or timed out, whatever
  steps follow: also when runs are deleted in between.
\<close>

theorem superseded_attempt_is_fenced:
  assumes "reachable s"
    and c: "map_get (children s) (childKey (ca_runId i) (ca_nodeName i) (ca_childKey i)) = Some c"
    and old: "child_currentAttemptId c = Some old"
    and new: "createAttempt i s = (Inr new, s')"
    and steps: "step\<^sup>*\<^sup>* s' t"
  shows "completeCurrentAttempt old l v t = (None, t) \<and> failCurrentAttempt old l e t = (None, t)
    \<and> timeoutCurrentAttempt old l e t = (None, t)"
proof -
  have reach: "reachable s'" using reachable_work[OF assms(1) create_attempt[of s i]] new by simp
  have "superseded old s'" using createAttempt_supersedes[OF _ _ c old new] node_invariant.holds[OF assms(1)] node_invariant.holds[OF reach] by simp
  then show ?thesis using superseded_steps[OF steps reach] superseded_is_fenced by (simp add: unfenced_attempt)
qed

definition two_attempts :: runtime where
  "two_attempts = snd (createAttempt self_attempt one_attempt)"

theorem superseded_attempt_is_fenced_witness:
  "\<exists>new. createAttempt self_attempt one_attempt = (Inr new, two_attempts) \<and> attempt_attemptNumber new = 2
     \<and> fst (completeCurrentAttempt ''attempt-2'' (Some ''attempt-lease-3'') JNull two_attempts) = None"
proof -
  obtain c where c: "map_get (children one_attempt) ''run-1:charge:$self'' = Some c" "child_currentAttemptId c = Some ''attempt-2''"
    by (rule one_attempt_child)
  obtain new where new: "createAttempt self_attempt one_attempt = (Inr new, two_attempts)" "attempt_attemptNumber new = 2"
    by (simp add: two_attempts_def sample_defs sample_eval)
  have "childKey (ca_runId self_attempt) (ca_nodeName self_attempt) (ca_childKey self_attempt) = ''run-1:charge:$self''"
    by (simp add: self_attempt_def childKey_def SELF_CHILD_KEY_def)
  with superseded_attempt_is_fenced[OF reachable_one_attempt _ _ new(1) rtranclp.rtrancl_refl] c new show ?thesis by auto
qed

section \<open>Idempotent ensure operations\<close>

text \<open>
  Once a child has an attempt, ensuring one again at any later moment returns the
  current attempt of the child and changes nothing: a re-entered node never
  dispatches its child a second time.
\<close>

theorem ensure_attempt_is_idempotent:
  assumes "reachable s" and "ensureChildAttempt i s = (Inr (a, created), s')" and "work_step\<^sup>*\<^sup>* s' t"
  shows "\<exists>c a'. map_get (children t) (childKey (ca_runId i) (ca_nodeName i) (ca_childKey i)) = Some c
    \<and> child_currentAttemptId c = Some (attempt_id a') \<and> attempt_attemptNumber a' = child_attemptCount c
    \<and> ensureChildAttempt i t = (Inr (a', False), t)"
proof -
  let ?k = "childKey (ca_runId i) (ca_nodeName i) (ca_childKey i)"
  have inv: "run_inv s \<and> node_inv s" and inv': "run_inv s' \<and> node_inv s'"
    using node_invariant.holds[OF assms(1)] node_invariant.holds[OF reachable_work[OF assms(1) ensure_attempt[of s i]]] assms(2)
    by simp_all
  have invt: "node_inv t" using work_steps_inv[OF assms(3) inv'] by simp
  obtain c1 where c1: "map_get (children s') ?k = Some c1" "0 < child_attemptCount c1"
    using ensureChildAttempt_counts[OF conjunct2[OF inv] assms(2)] by blast
  obtain c2 where c2: "map_get (children t) ?k = Some c2" "0 < child_attemptCount c2"
    using row_writes_children[OF work_steps_writes[OF assms(3) inv'] c1(1)] child_evolves_closure(3) c1(2)
    by (metis less_le_trans)
  obtain a' where a': "child_currentAttemptId c2 = Some a'"
    using child_row_ok_current[OF node_inv_rows(2)[OF invt c2(1)]] c2(2) by (auto simp: current_ok_def split: option.splits)
  obtain att where att: "map_get (attempts t) a' = Some att" "attempt_attemptNumber att = child_attemptCount c2"
    using child_row_ok_current[OF node_inv_rows(2)[OF invt c2(1)]] a' by (auto simp: current_ok_def)
  have "attempt_id att = a'" using node_inv_rows(3)[OF invt att(1)] by (simp add: attempt_row_ok_def)
  with c2 a' att show ?thesis by (auto simp: ensureChildAttempt_def currentAttempt_def)
qed

theorem ensure_attempt_is_idempotent_witness:
  "\<exists>a' c. ensureChildAttempt self_attempt two_attempts = (Inr (a', False), two_attempts)
     \<and> map_get (children two_attempts) ''run-1:charge:$self'' = Some c \<and> child_currentAttemptId c = Some (attempt_id a')"
proof -
  obtain a where a: "ensureChildAttempt self_attempt one_attempt = (Inr (a, False), one_attempt)"
    by (simp add: sample_defs sample_eval ensureChildAttempt_def currentAttempt_def)
  have "work_step\<^sup>*\<^sup>* one_attempt two_attempts"
    unfolding two_attempts_def by (simp add: create_attempt r_into_rtranclp)
  moreover have "childKey (ca_runId self_attempt) (ca_nodeName self_attempt) (ca_childKey self_attempt) = ''run-1:charge:$self''"
    by (simp add: self_attempt_def childKey_def SELF_CHILD_KEY_def)
  ultimately show ?thesis
    using ensure_attempt_is_idempotent[OF reachable_one_attempt a, of two_attempts] by auto
qed

lemma map_set_fresh: "map_get m k = None \<Longrightarrow> map_set k v m = m @ [(k, v)]"
  by (induction m) (auto split: if_splits)

lemma fold_map_set_fresh:
  "distinct (map f xs) \<Longrightarrow> \<forall>x \<in> set xs. map_get m (f x) = None \<Longrightarrow>
     fold (\<lambda>x m. map_set (f x) x m) xs m = m @ map (\<lambda>x. (f x, x)) xs"
proof (induction xs arbitrary: m)
  case (Cons x xs)
  have "\<forall>y \<in> set xs. map_get (map_set (f x) x m) (f y) = None"
  proof
    fix y
    assume y: "y \<in> set xs"
    then have "f y \<noteq> f x" using Cons.prems(1) by (auto simp: image_iff)
    with y Cons.prems(2) show "map_get (map_set (f x) x m) (f y) = None" by simp
  qed
  with Cons.IH[of "map_set (f x) x m"] Cons.prems show ?case by (simp add: map_set_fresh)
qed simp

lemma no_children_key_free:
  assumes inv: "node_inv s" and known: "known_run s r" and node: "map_get (nodes s) (nodeKey r n) = Some node"
    and none: "nodeChildren r n s = []"
  shows "map_get (children s) (childKey r n key) = None"
proof (rule ccontr)
  assume "map_get (children s) (childKey r n key) \<noteq> None"
  then obtain c where c: "map_get (children s) (childKey r n key) = Some c" by blast
  have row: "child_row_ok s (childKey r n key) c" by (rule node_inv_rows(2)[OF inv c])
  have nrow: "node_row_ok s (nodeKey r n) node" by (rule node_inv_rows(1)[OF inv node])
  have "n = node_name node"
    using nodeKey_inject[of r n "node_runId node" "node_name node"] nrow known_run_no_colon[OF known]
      known_run_no_colon[of s "node_runId node"] by (auto simp: node_row_ok_def)
  then have name: "CHR '':'' \<notin> set n" using nrow node_name_no_colon by (simp add: node_row_ok_def)
  have "child_runId c = r \<and> child_nodeName c = n"
    using childKey_inject[of r n key "child_runId c" "child_nodeName c" "child_childKey c"] row name
      known_run_no_colon[OF known] known_run_no_colon[of s "child_runId c"] node_name_no_colon[of "child_nodeName c"]
    by (auto simp: child_row_ok_def)
  moreover have "c \<in> set (map_values (children s))" using map_of_SomeD[OF c] by force
  ultimately show False using none by (auto simp: nodeChildren_def filter_empty_conv)
qed

lemma ensure_children_created:
  assumes inv: "node_inv s" and known: "known_run s r" and dist: "distinct (map ec_childKey inputs)"
    and res: "ensureNodeChildren r n inputs s = (Inr (cs, True), s')"
  obtains d where "children s' = children s @ map (\<lambda>i. (childKey r n (ec_childKey i), newChild r n d i)) inputs"
    and "cs = sortedChildren (rt_host s) (map (newChild r n d) inputs)" and "nodeChildren r n s = []"
    and "nodes s' = nodes s" and "rt_host s' = rt_host s"
proof -
  let ?d = "fst (now s)" and ?f = "\<lambda>c. childKey r n (child_childKey c)"
  obtain node where node: "map_get (nodes s) (nodeKey r n) = Some node" and none: "nodeChildren r n s = []"
    and s': "s' = snd (now s)\<lparr>children := fold (\<lambda>c m. map_set (?f c) c m) (map (newChild r n ?d) inputs) (children s)\<rparr>"
    and cs: "cs = sortedChildren (rt_host s) (map (newChild r n ?d) inputs)"
    using res by (auto simp: ensureNodeChildren_def Let_def case_prod_beta split: option.splits if_splits)
  have "map ?f (map (newChild r n ?d) inputs) = map (\<lambda>i. childKey r n (ec_childKey i)) inputs"
    by (simp add: newChild_def)
  moreover have "distinct (map (\<lambda>i. childKey r n (ec_childKey i)) inputs)"
    using dist by (auto simp: distinct_map inj_on_def childKey_def)
  ultimately have d: "distinct (map ?f (map (newChild r n ?d) inputs))" by metis
  have "children s' = children s @ map (\<lambda>c. (?f c, c)) (map (newChild r n ?d) inputs)"
    using fold_map_set_fresh[OF d, of "children s"] no_children_key_free[OF inv known node none] s' by simp
  then have "children s' = children s @ map (\<lambda>i. (childKey r n (ec_childKey i), newChild r n ?d i)) inputs"
    by (simp add: newChild_def)
  with cs none s' show ?thesis by (intro that[of ?d]) simp_all
qed

text \<open>
  Creating the children of a node is idempotent: asking again for the same children
  returns the stored ones, in the order of their ordinals, and creates nothing.
\<close>

theorem ensure_children_is_idempotent:
  assumes "reachable s" and "known_run s r" and "distinct (map ec_childKey inputs)" and "inputs \<noteq> []"
    and "ensureNodeChildren r n inputs s = (Inr (cs, created), s')"
  shows "ensureNodeChildren r n inputs s' = (Inr (cs, False), s')"
proof (cases created)
  case False
  with assms(5) show ?thesis
    by (auto simp: ensureNodeChildren_def Let_def case_prod_beta split: option.splits if_splits)
next
  case True
  have inv: "node_inv s" using node_invariant.holds[OF assms(1)] by simp
  obtain d where d: "children s' = children s @ map (\<lambda>i. (childKey r n (ec_childKey i), newChild r n d i)) inputs"
      "cs = sortedChildren (rt_host s) (map (newChild r n d) inputs)" "nodeChildren r n s = []"
      "nodes s' = nodes s" "rt_host s' = rt_host s"
    using ensure_children_created[OF inv assms(2,3), of n cs s'] assms(5) True by auto
  obtain node where node: "map_get (nodes s) (nodeKey r n) = Some node"
    using assms(5) by (auto simp: ensureNodeChildren_def split: option.splits)
  have rows: "nodeChildren r n s' = map (newChild r n d) inputs"
    using d(3) by (simp add: nodeChildren_def d(1) filter_map o_def newChild_def)
  have "map_get (children s') (childKey r n (ec_childKey i)) = Some (newChild r n d i)" if "i \<in> set inputs" for i
  proof -
    have "map_get (map (\<lambda>i. (childKey r n (ec_childKey i), newChild r n d i)) inputs) (childKey r n (ec_childKey i))
        = Some (newChild r n d i)"
      by (rule map_of_is_SomeI) (use that assms(3) in \<open>auto simp: distinct_map inj_on_def childKey_def o_def\<close>)
    then show ?thesis using no_children_key_free[OF inv assms(2) node d(3)] by (simp add: d(1) map_add_def)
  qed
  then have "list_all (childMatchesInput r n s') inputs"
    by (auto simp: list_all_iff childMatchesInput_def newChild_def sameOptionalValue_def sameValue_def split: option.split)
  with rows node d assms(4) show ?thesis by (simp add: ensureNodeChildren_def Let_def)
qed

theorem ensure_children_is_idempotent_witness:
  "\<exists>cs. ensureNodeChildren ''run-1'' ''charge'' [self_child] one_node = (Inr (cs, True), one_child) \<and> length cs = 1
     \<and> ensureNodeChildren ''run-1'' ''charge'' [self_child] one_child = (Inr (cs, False), one_child)"
proof -
  obtain cs where cs: "ensureNodeChildren ''run-1'' ''charge'' [self_child] one_node = (Inr (cs, True), one_child)" "length cs = 1"
    by (simp add: sample_defs sample_eval)
  have "known_run one_node ''run-1''" by (simp add: known_run_1 nextId_samples)
  from ensure_children_is_idempotent[OF reachable_one_node this _ _ cs(1)] cs show ?thesis by simp
qed

section \<open>Cancelling what is left of a run\<close>

lemma cancel_node_step_done:
  assumes "node_inv s" and "map_get (nodes s) k = Some n"
  shows "\<exists>n'. map_get (nodes (snd (cancel_node_step i n (acc, s)))) k = Some n' \<and> (node_runId n' = i \<longrightarrow> isTerminalNodeStatus (node_status n'))"
  using assms node_inv_rows(1)[OF assms] by (auto simp: cancel_node_step_def prim_simps node_row_ok_def)

lemma cancel_child_step_done:
  assumes "node_inv s" and "map_get (children s) k = Some c"
  shows "\<exists>c'. map_get (children (cancel_child_step i c s)) k = Some c' \<and> (child_runId c' = i \<longrightarrow> isTerminalNodeStatus (child_status c'))"
  using assms node_inv_rows(2)[OF assms] by (auto simp: cancel_child_step_def prim_simps child_row_ok_def)

lemma cancel_nodes_done:
  "node_inv s \<Longrightarrow> wf_map es \<Longrightarrow> (\<And>k n. (k, n) \<in> set es \<Longrightarrow> map_get (nodes s) k = Some n) \<Longrightarrow>
     map_get (nodes (snd (fold (cancel_node_step i) (map_values es) (acc, s)))) k = Some n \<Longrightarrow>
     (node_runId n = i \<longrightarrow> isTerminalNodeStatus (node_status n)) \<or> k \<notin> fst ` set es \<and> map_get (nodes s) k = Some n"
proof (induction es arbitrary: s acc)
  case (Cons e es)
  obtain k0 n0 where e: "e = (k0, n0)" by (cases e)
  obtain acc' s' where s': "cancel_node_step i n0 (acc, s) = (acc', s')" by (cases "cancel_node_step i n0 (acc, s)")
  have row: "map_get (nodes s) k0 = Some n0" using Cons.prems(3) e by simp
  note w = cancel_node_step_writes[OF Cons.prems(1) row, where i = i and acc = acc, unfolded s' snd_conv]
  have "(node_runId n = i \<longrightarrow> isTerminalNodeStatus (node_status n)) \<or> k \<notin> fst ` set es \<and> map_get (nodes s') k = Some n"
  proof (rule Cons.IH)
    show "node_inv s'" using node_inv_writes[OF w(1) Cons.prems(1)] .
    show "map_get (nodes s') k' = Some n'" if "(k', n') \<in> set es" for k' n'
      using w(2)[of k'] that Cons.prems(2) Cons.prems(3)[of k' n'] e by (force simp: image_iff)
    show "map_get (nodes (snd (fold (cancel_node_step i) (map_values es) (acc', s')))) k = Some n"
      using Cons.prems(4) e s' by simp
  qed (use Cons.prems(2) in simp)
  with cancel_node_step_done[OF Cons.prems(1) row, of i acc] w(2)[of k] e s' show ?case
    by (cases "k = k0") auto
qed simp

lemma cancel_children_done:
  "node_inv s \<Longrightarrow> wf_map es \<Longrightarrow> (\<And>k c. (k, c) \<in> set es \<Longrightarrow> map_get (children s) k = Some c) \<Longrightarrow>
     map_get (children (fold (cancel_child_step i) (map_values es) s)) k = Some c \<Longrightarrow>
     (child_runId c = i \<longrightarrow> isTerminalNodeStatus (child_status c)) \<or> k \<notin> fst ` set es \<and> map_get (children s) k = Some c"
proof (induction es arbitrary: s)
  case (Cons e es)
  obtain k0 c0 where e: "e = (k0, c0)" by (cases e)
  have row: "map_get (children s) k0 = Some c0" using Cons.prems(3) e by simp
  note w = cancel_child_step_writes[OF Cons.prems(1) row, where i = i]
  let ?s' = "cancel_child_step i c0 s"
  have "(child_runId c = i \<longrightarrow> isTerminalNodeStatus (child_status c)) \<or> k \<notin> fst ` set es \<and> map_get (children ?s') k = Some c"
  proof (rule Cons.IH)
    show "node_inv ?s'" using node_inv_writes[OF w(1) Cons.prems(1)] .
    show "map_get (children ?s') k' = Some c'" if "(k', c') \<in> set es" for k' c'
      using w(2)[of k'] that Cons.prems(2) Cons.prems(3)[of k' c'] e by (force simp: image_iff)
    show "map_get (children (fold (cancel_child_step i) (map_values es) ?s')) k = Some c"
      using Cons.prems(4) e by simp
  qed (use Cons.prems(2) in simp)
  with cancel_child_step_done[OF Cons.prems(1) row, of i] w(2)[of k] e show ?case
    by (cases "k = k0") auto
qed simp

lemma cancel_child_step_nodes [simp]: "nodes (cancel_child_step i c s) = nodes s"
  by (simp add: cancel_child_step_def prim_simps)

lemma cancel_children_nodes [simp]: "nodes (fold (cancel_child_step i) cs s) = nodes s"
  by (induction cs arbitrary: s) simp_all

text \<open>
  Cancelling what is left of a run leaves no node and no child of that run in a status
  that is not terminal.
\<close>

theorem cancel_leaves_nothing_live:
  assumes "reachable s"
  shows "(\<forall>k n. map_get (nodes (snd (cancelNonTerminalRunNodes i s))) k = Some n \<longrightarrow> node_runId n = i \<longrightarrow>
            isTerminalNodeStatus (node_status n))
       \<and> (\<forall>k c. map_get (children (snd (cancelNonTerminalRunNodes i s))) k = Some c \<longrightarrow> child_runId c = i \<longrightarrow>
            isTerminalNodeStatus (child_status c))"
proof -
  have inv: "node_inv s" using node_invariant.holds[OF assms] by simp
  obtain acc s' where s': "fold (cancel_node_step i) (map_values (nodes s)) ([], s) = (acc, s')"
    by (cases "fold (cancel_node_step i) (map_values (nodes s)) ([], s)")
  have wf: "wf_map (nodes s)" "\<And>k n. (k, n) \<in> set (nodes s) \<Longrightarrow> map_get (nodes s) k = Some n"
    using inv by (simp_all add: node_inv_def)
  have inv': "node_inv s'"
    using node_inv_writes[OF cancel_nodes_loop[OF inv wf, of i "[]"] inv] s' by simp
  have wf': "wf_map (children s')" "\<And>k c. (k, c) \<in> set (children s') \<Longrightarrow> map_get (children s') k = Some c"
    using inv' by (simp_all add: node_inv_def)
  let ?t = "fold (cancel_child_step i) (map_values (children s')) s'"
  have "node_runId n = i \<longrightarrow> isTerminalNodeStatus (node_status n)" if "map_get (nodes ?t) k = Some n" for k n
    using cancel_nodes_done[OF inv wf, of i "[]" k n] that s' map_of_SomeD[of "nodes s" k n] by force
  moreover have "child_runId c = i \<longrightarrow> isTerminalNodeStatus (child_status c)" if "map_get (children ?t) k = Some c" for k c
    using cancel_children_done[OF inv' wf' that] map_of_SomeD[of "children s'" k c] by force
  ultimately show ?thesis using s' by (simp add: cancelNonTerminalRunNodes_def)
qed

theorem cancel_leaves_nothing_live_witness:
  "\<exists>c. map_get (children (snd (cancelNonTerminalRunNodes ''run-1'' one_attempt))) ''run-1:charge:$self'' = Some c
     \<and> isTerminalNodeStatus (child_status c)"
proof -
  obtain c where c: "map_get (children one_attempt) ''run-1:charge:$self'' = Some c"
    by (rule one_attempt_child)
  have "work_step\<^sup>*\<^sup>* one_attempt (snd (cancelNonTerminalRunNodes ''run-1'' one_attempt))"
    by (simp add: cancel_nodes r_into_rtranclp)
  then have "row_writes one_attempt (snd (cancelNonTerminalRunNodes ''run-1'' one_attempt))"
    using work_steps_writes node_invariant.holds[OF reachable_one_attempt] by blast
  from row_writes_children[OF this c] obtain c' where
    c': "map_get (children (snd (cancelNonTerminalRunNodes ''run-1'' one_attempt))) ''run-1:charge:$self'' = Some c'"
    "child_evolves\<^sup>*\<^sup>* c c'" by blast
  have "child_runId c' = ''run-1''"
    using c'(2) c by (induction rule: rtranclp_induct) (auto simp: child_evolves_def sample_defs sample_eval)
  with cancel_leaves_nothing_live[OF reachable_one_attempt] c'(1) show ?thesis by blast
qed

end
