(* ===== verification/QueueSafety.thy ===== *)
theory QueueSafety
  imports RunSafety
begin

text \<open>
  What the two command queues guarantee. A lane is a queue with its table of claimed
  commands; the contract of the executors over a lane is the locale \<open>delivery_queue\<close>,
  interpreted for both of them.
\<close>

section \<open>Claiming takes the best live command\<close>

abbreviation better :: "('a \<Rightarrow> bool) \<Rightarrow> ('a \<Rightarrow> 'a \<Rightarrow> int) \<Rightarrow> 'a list \<Rightarrow> nat \<Rightarrow> nat \<Rightarrow> nat" where
  "better P cmp queue \<equiv> \<lambda>index candidate.
     if P (queue ! candidate) \<and> cmp (queue ! candidate) (queue ! index) < 0 then candidate else index"

lemma better_live: "P (queue ! i) \<Longrightarrow> P (queue ! foldl (better P cmp queue) i js)"
  by (induction js arbitrary: i) simp_all

lemma better_in: "foldl (better P cmp queue) i js \<in> insert i (set js)"
proof (induction js arbitrary: i)
  case (Cons j js)
  from Cons[of j] Cons[of i] show ?case by auto
qed simp

lemma better_least:
  assumes "comparator cmp"
  shows "cmp (queue ! foldl (better P cmp queue) i js) (queue ! i) \<le> 0
    \<and> (\<forall>j \<in> set js. P (queue ! j) \<longrightarrow> cmp (queue ! foldl (better P cmp queue) i js) (queue ! j) \<le> 0)"
proof (induction js arbitrary: i)
  case Nil
  show ?case using comparator.refl_zero[OF assms] by simp
next
  case (Cons j js)
  let ?i = "better P cmp queue i j"
  have i: "cmp (queue ! ?i) (queue ! i) \<le> 0"
    using comparator.refl_zero[OF assms] by simp
  have j: "P (queue ! j) \<Longrightarrow> cmp (queue ! ?i) (queue ! j) \<le> 0"
    using comparator.refl_zero[OF assms, of "queue ! j"] comparator.flip[OF assms, of "queue ! j" "queue ! i"]
    by auto
  define k where "k = foldl (better P cmp queue) ?i js"
  have k: "cmp (queue ! k) (queue ! ?i) \<le> 0" "\<forall>l \<in> set js. P (queue ! l) \<longrightarrow> cmp (queue ! k) (queue ! l) \<le> 0"
    using Cons[of ?i] by (simp_all add: k_def)
  have "cmp (queue ! k) (queue ! i) \<le> 0" "P (queue ! j) \<Longrightarrow> cmp (queue ! k) (queue ! j) \<le> 0"
    using comparator.le_trans[OF assms k(1)] i j by blast+
  with k(2) show ?case by (simp add: k_def)
qed

lemma claimQueued_None:
  "claimQueued queue P cmp = (None, rest) \<Longrightarrow> rest = queue \<and> (\<forall>x \<in> set queue. \<not> live P x)"
  by (auto simp: claimQueued_def Let_def find_index_None split: option.splits)

lemma claimQueued_Some:
  assumes "claimQueued queue P cmp = (Some item, rest)"
  shows "item \<in> set queue" and "live P item" and "mset queue = add_mset item (mset rest)"
    and "\<And>c x. cmp = Some c \<Longrightarrow> comparator c \<Longrightarrow> x \<in> set queue \<Longrightarrow> live P x \<Longrightarrow> c item x \<le> 0"
    and "cmp = None \<Longrightarrow> \<exists>xs ys. queue = xs @ item # ys \<and> rest = xs @ ys \<and> (\<forall>x \<in> set xs. \<not> live P x)"
proof -
  obtain first where first: "find_index (live P) queue = Some first"
    using assms by (auto simp: claimQueued_def Let_def split: option.splits)
  note f = find_index_Some[OF first]
  define i where "i = (case cmp of None \<Rightarrow> first | Some c \<Rightarrow> best_index (live P) c queue first)"
  have item: "item = queue ! i" "rest = splice_out i queue"
    using assms first by (auto simp: claimQueued_def Let_def i_def)
  have best: "best_index (live P) c queue first = foldl (better (live P) c queue) first [Suc first..<length queue]" for c
    by (simp add: best_index_def)
  have "i < length queue \<and> live P (queue ! i)"
  proof (cases cmp)
    case (Some c)
    have "foldl (better (live P) c queue) first [Suc first..<length queue] < length queue"
      using better_in[where P = "live P" and queue = queue and i = first and js = "[Suc first..<length queue]" and cmp = c] f
      by auto
    with Some f show ?thesis by (simp add: i_def best better_live)
  qed (simp add: i_def f)
  then have i: "i < length queue" "live P (queue ! i)" by simp_all
  show "item \<in> set queue" "live P item" "mset queue = add_mset item (mset rest)"
    using i item mset_splice_out[of i queue] by auto
  show "c item x \<le> 0" if c: "cmp = Some c" "comparator c" and x: "x \<in> set queue" "live P x" for c x
  proof -
    obtain j where j: "j < length queue" "queue ! j = x" using x(1) by (metis in_set_conv_nth)
    with f x(2) have "first \<le> j" by (meson not_le)
    then have "j = first \<or> j \<in> set [Suc first..<length queue]" using j by auto
    with better_least[OF c(2), where P = "live P" and queue = queue and i = first and js = "[Suc first..<length queue]"] x j item c(1)
    show ?thesis by (auto simp: i_def best)
  qed
  show "\<exists>xs ys. queue = xs @ item # ys \<and> rest = xs @ ys \<and> (\<forall>x \<in> set xs. \<not> live P x)" if "cmp = None"
  proof (intro exI conjI)
    show "queue = take i queue @ item # drop (Suc i) queue" using i item by (simp add: id_take_nth_drop)
    show "rest = take i queue @ drop (Suc i) queue" using item by (simp add: splice_out_def)
    show "\<forall>x \<in> set (take i queue). \<not> live P x"
      using f that by (auto simp: i_def in_set_conv_nth)
  qed
qed

section \<open>The invariant of a lane\<close>

text \<open>
  A command is live with deliveries to spare, or dead after its last one with the error
  that killed it; only a dead command is ever marked reaped.
\<close>

definition item_ok :: "int \<Rightarrow> nat \<Rightarrow> 'c QueueItem \<Rightarrow> bool" where
  "item_ok maxD n item \<longleftrightarrow> issued n (qi_id item)
     \<and> (qi_deadAt item = None \<longrightarrow>
          (qi_deliveryCount item = 0 \<or> int (qi_deliveryCount item) < maxD) \<and> qi_reapedAt item = None)
     \<and> (qi_deadAt item \<noteq> None \<longrightarrow>
          0 < qi_deliveryCount item \<and> maxD \<le> int (qi_deliveryCount item) \<and> qi_lastError item \<noteq> None)"

definition lane_ids :: "'c QueueItem list \<Rightarrow> (string \<times> 'c ClaimedQueueItem) list \<Rightarrow> string multiset" where
  "lane_ids queue claimed = mset (map qi_id queue) + mset (map fst claimed)"

definition claim_ok :: "int \<Rightarrow> nat \<Rightarrow> string \<Rightarrow> 'c ClaimedQueueItem \<Rightarrow> bool" where
  "claim_ok maxD n k c \<longleftrightarrow> k = qi_id (ci_item c) \<and> item_ok maxD n (ci_item c)
     \<and> qi_deadAt (ci_item c) = None \<and> issued n (ci_leaseToken c)"

definition lane_ok :: "int \<Rightarrow> nat \<Rightarrow> 'c QueueItem list \<Rightarrow> (string \<times> 'c ClaimedQueueItem) list \<Rightarrow> bool" where
  "lane_ok maxD n queue claimed \<longleftrightarrow> (\<forall>item. item \<in> set queue \<longrightarrow> item_ok maxD n item)
     \<and> (\<forall>k c. (k, c) \<in> set claimed \<longrightarrow> claim_ok maxD n k c)
     \<and> distinct (map qi_id queue @ map fst claimed)"

lemma claim_ok_mono: "claim_ok maxD n k c \<Longrightarrow> n \<le> n' \<Longrightarrow> claim_ok maxD n' k c"
  by (auto simp: claim_ok_def item_ok_def intro: issued_mono)

lemma lane_items: "lane_ok maxD n queue claimed \<Longrightarrow> item \<in> set queue \<Longrightarrow> item_ok maxD n item"
  by (simp add: lane_ok_def)

lemma lane_claims: "lane_ok maxD n queue claimed \<Longrightarrow> (k, c) \<in> set claimed \<Longrightarrow> claim_ok maxD n k c"
  by (simp add: lane_ok_def)

lemma ok_issued: "item_ok maxD n item \<Longrightarrow> issued n (qi_id item)" "claim_ok maxD n k c \<Longrightarrow> issued n k"
  by (simp_all add: item_ok_def claim_ok_def)

lemma item_ok_mono: "item_ok maxD n item \<Longrightarrow> n \<le> n' \<Longrightarrow> item_ok maxD n' item"
  by (auto simp: item_ok_def intro: issued_mono)

lemma lane_ok_mono: "lane_ok maxD n queue claimed \<Longrightarrow> n \<le> n' \<Longrightarrow> lane_ok maxD n' queue claimed"
  unfolding lane_ok_def by (blast intro: item_ok_mono claim_ok_mono)

lemma distinct_count: "distinct xs \<longleftrightarrow> (\<forall>i. count (mset xs) i \<le> 1)"
proof (induction xs)
  case (Cons x xs)
  show ?case
  proof
    assume "distinct (x # xs)"
    with Cons show "\<forall>i. count (mset (x # xs)) i \<le> 1" by (simp add: not_in_iff)
  next
    assume le: "\<forall>i. count (mset (x # xs)) i \<le> 1"
    then have "count (mset xs) x = 0" by (metis One_nat_def add_is_1 count_add_mset le_Suc_eq le_zero_eq mset.simps(2) not_less_eq_eq plus_1_eq_Suc)
    moreover have "\<forall>i. count (mset xs) i \<le> 1" using le by (metis count_add_mset le_SucI le_trans mset.simps(2) order_refl)
    ultimately show "distinct (x # xs)" using Cons by simp
  qed
qed simp

lemma lane_distinct: "distinct (map qi_id queue @ map fst claimed) \<longleftrightarrow> (\<forall>i. count (lane_ids queue claimed) i \<le> 1)"
  by (simp only: distinct_count lane_ids_def mset_append)

text \<open>Moves within a lane\<close>

lemma lane_append_fresh:
  assumes "lane_ok maxD n queue claimed" and "n \<le> m" "m < n'" and "item_ok maxD n' item" "qi_id item = mk_id p m"
  shows "lane_ok maxD n' (queue @ [item]) claimed"
proof -
  have old: "lane_ok maxD n' queue claimed" using assms(1) by (rule lane_ok_mono) (use assms(2,3) in simp)
  have "issued n i" if "i \<in> set (map qi_id queue @ map fst claimed)" for i
    using lane_items[OF assms(1)] lane_claims[OF assms(1)] that by auto (meson ok_issued)+
  from this[of "mk_id p m"] assms(2) have "mk_id p m \<notin> set (map qi_id queue @ map fst claimed)" by auto
  with old assms(4,5) show ?thesis unfolding lane_ok_def by (simp add: disjoint_iff)
qed

lemma in_set_map_set: "(a, b) \<in> set (map_set k v m) \<Longrightarrow> (a, b) = (k, v) \<or> (a, b) \<in> set m"
  by (induction m) (auto split: if_splits)

lemma lane_replace:
  assumes "lane_ok maxD n queue claimed" and "i < length queue" and "qi_id item = qi_id (queue ! i)" "item_ok maxD n item"
  shows "lane_ok maxD n (queue[i := item]) claimed"
proof -
  have "map qi_id (queue[i := item]) = map qi_id queue"
    using assms(2,3) by (simp add: list_eq_iff_nth_eq nth_list_update)
  with assms set_list_update_cases[of _ queue i item] show ?thesis unfolding lane_ok_def by metis
qed

lemma lane_filter:
  assumes "lane_ok maxD n queue claimed"
  shows "lane_ok maxD n (filter P queue) (filter Q claimed)"
  using assms by (auto simp: lane_ok_def distinct_map_filter)

lemma mset_delete: "wf_map m \<Longrightarrow> map_get m k = Some v \<Longrightarrow> mset (map fst m) = add_mset k (mset (map fst (map_delete k m)))"
proof (induction m)
  case (Cons e m)
  then show ?case
  proof (cases "fst e = k")
    case True
    then have "map_delete k m = m" using Cons.prems(1) by (intro delete_id) auto
    with True show ?thesis by (cases e) simp
  next
    case False
    with Cons show ?thesis by (cases e) (simp add: add_mset_commute)
  qed
qed simp

lemma mset_insert: "map_get m k = None \<Longrightarrow> mset (map fst (map_set k v m)) = add_mset k (mset (map fst m))"
  by (induction m) (auto split: if_splits)

lemma claimed_entry:
  assumes "lane_ok maxD n queue claimed" and "map_get claimed k = Some c"
  shows "k = qi_id (ci_item c)" "item_ok maxD n (ci_item c)" "qi_deadAt (ci_item c) = None" "issued n (ci_leaseToken c)"
  using lane_claims[OF assms(1) map_of_SomeD[OF assms(2)]] by (simp_all add: claim_ok_def)

lemma lane_wf: "lane_ok maxD n queue claimed \<Longrightarrow> wf_map claimed"
  by (simp add: lane_ok_def)

lemma lane_give_back:
  assumes ok: "lane_ok maxD n queue claimed" and c: "map_get claimed k = Some c"
    and item: "qi_id item = k" "item_ok maxD n item"
  shows "lane_ok maxD n (queue @ [item]) (map_delete k claimed)"
    and "lane_ids (queue @ [item]) (map_delete k claimed) = lane_ids queue claimed"
proof -
  show ids: "lane_ids (queue @ [item]) (map_delete k claimed) = lane_ids queue claimed"
    using mset_delete[OF lane_wf[OF ok] c] item(1) by (simp add: lane_ids_def)
  have sub: "set (map_delete k claimed) \<subseteq> set claimed" by (auto simp: AList.delete_eq)
  show "lane_ok maxD n (queue @ [item]) (map_delete k claimed)"
    using ok item(2) sub ids unfolding lane_ok_def lane_distinct
    by (metis append_eq_append_conv2 empty_iff empty_set rotate1.simps set_ConsD set_rotate1 subset_iff Un_iff set_append)
qed

lemma lane_ack:
  assumes ok: "lane_ok maxD n queue claimed" and c: "map_get claimed k = Some c"
  shows "lane_ok maxD n queue (map_delete k claimed)"
    and "lane_ids queue claimed = add_mset k (lane_ids queue (map_delete k claimed))"
proof -
  show "lane_ids queue claimed = add_mset k (lane_ids queue (map_delete k claimed))"
    using mset_delete[OF lane_wf[OF ok] c] by (simp add: lane_ids_def)
  show "lane_ok maxD n queue (map_delete k claimed)"
    using lane_filter[OF ok, of "\<lambda>_. True" "\<lambda>(k', v). k \<noteq> k'"] by (simp add: AList.delete_eq)
qed

lemma lane_take:
  assumes ok: "lane_ok maxD n queue claimed" and q: "mset queue = add_mset item (mset rest)"
    and live: "qi_deadAt item = None" and n: "n \<le> n'" and c: "ci_item c = item" "issued n' (ci_leaseToken c)"
  shows "lane_ok maxD n' rest (map_set (qi_id item) c claimed)"
    and "lane_ids rest (map_set (qi_id item) c claimed) = lane_ids queue claimed"
    and "map_get claimed (qi_id item) = None"
proof -
  have item: "item \<in> set queue" using q by (metis set_mset_mset union_single_eq_member)
  show free: "map_get claimed (qi_id item) = None"
    using ok item unfolding lane_ok_def map_of_eq_None_iff by (auto simp: disjoint_iff)
  have sub: "set rest \<subseteq> set queue" using q by (metis set_mset_add_mset_insert set_mset_mset subset_insertI)
  show ids: "lane_ids rest (map_set (qi_id item) c claimed) = lane_ids queue claimed"
    using mset_insert[OF free] q by (simp add: lane_ids_def)
  have dist: "distinct (map qi_id rest @ map fst (map_set (qi_id item) c claimed))"
    using ok ids unfolding lane_ok_def lane_distinct by simp
  have "set (map_set (qi_id item) c claimed) \<subseteq> insert (qi_id item, c) (set claimed)"
    using in_set_map_set[of _ _ "qi_id item" c claimed] by auto
  moreover have "lane_ok maxD n' queue claimed" using ok n by (rule lane_ok_mono)
  ultimately show "lane_ok maxD n' rest (map_set (qi_id item) c claimed)"
    using dist sub item live c unfolding lane_ok_def claim_ok_def by blast
qed

text \<open>What the commands of a lane carry, whether queued or claimed.\<close>

definition lane_tags :: "('c QueueItem \<Rightarrow> 't) \<Rightarrow> 'c QueueItem list \<Rightarrow> (string \<times> 'c ClaimedQueueItem) list \<Rightarrow> 't multiset" where
  "lane_tags f queue claimed = image_mset f (mset queue) + image_mset (\<lambda>(k, c). f (ci_item c)) (mset claimed)"

lemma mset_delete_pair: "wf_map m \<Longrightarrow> map_get m k = Some v \<Longrightarrow> mset m = add_mset (k, v) (mset (map_delete k m))"
proof (induction m)
  case (Cons e m)
  show ?case
  proof (cases "fst e = k")
    case True
    then have "map_delete k m = m" using Cons.prems(1) by (intro delete_id) auto
    with True Cons.prems show ?thesis by (cases e) simp
  next
    case False
    with Cons show ?thesis by (cases e) (simp add: add_mset_commute)
  qed
qed simp

lemma mset_insert_pair: "map_get m k = None \<Longrightarrow> mset (map_set k v m) = add_mset (k, v) (mset m)"
  by (induction m) (auto split: if_splits)

lemma lane_tags_give_back:
  "wf_map claimed \<Longrightarrow> map_get claimed k = Some c \<Longrightarrow> f item = f (ci_item c) \<Longrightarrow>
     lane_tags f (queue @ [item]) (map_delete k claimed) = lane_tags f queue claimed"
  using mset_delete_pair[of claimed k c] by (simp add: lane_tags_def)

lemma lane_tags_ack:
  "wf_map claimed \<Longrightarrow> map_get claimed k = Some c \<Longrightarrow>
     lane_tags f queue claimed = add_mset (f (ci_item c)) (lane_tags f queue (map_delete k claimed))"
  using mset_delete_pair[of claimed k c] by (simp add: lane_tags_def)

lemma lane_tags_take:
  "mset queue = add_mset item (mset rest) \<Longrightarrow> map_get claimed k = None \<Longrightarrow> ci_item c = item \<Longrightarrow>
     lane_tags f rest (map_set k c claimed) = lane_tags f queue claimed"
  using mset_insert_pair[of claimed k c] by (simp add: lane_tags_def)

section \<open>The operations on a lane\<close>

lemma item_ok_update [simp]:
  "item_ok maxD n (item\<lparr>qi_runAt := r\<rparr>) = item_ok maxD n item"
  "item_ok maxD n (item\<lparr>qi_payload := p\<rparr>) = item_ok maxD n item"
  by (simp_all add: item_ok_def)

lemma countFailedDelivery_ok:
  assumes "countFailedDelivery item e s = (item', s')" and "item_ok (maxDeliveries s) n item" "qi_deadAt item = None"
  shows "item_ok (maxDeliveries s) n item'" "qi_id item' = qi_id item" "qi_payload item' = qi_payload item"
    "qi_deliveryCount item' = qi_deliveryCount item + 1" "nextId s' = nextId s" "maxDeliveries s' = maxDeliveries s"
    "int (qi_deliveryCount item') < maxDeliveries s \<longleftrightarrow> qi_deadAt item' = None"
  using assms by (auto simp: countFailedDelivery_def item_ok_def prim_simps Let_def now_eq split: if_splits)

lemma releaseQueueItem_ok:
  assumes "releaseQueueItem item options s = (item', s')" and "item_ok (maxDeliveries s) n item" "qi_deadAt item = None"
  shows "item_ok (maxDeliveries s) n item'" "qi_id item' = qi_id item" "qi_payload item' = qi_payload item"
    "nextId s' = nextId s" "maxDeliveries s' = maxDeliveries s"
proof -
  let ?error = "toStoredError (rt_host s) (case ro_error options of
      Some e \<Rightarrow> if e = Plain JNull \<or> e = Plain JUndefined then new_Error ''No implementation can execute this workflow command'' else e
    | None \<Rightarrow> new_Error ''No implementation can execute this workflow command'')"
  obtain i1 s1 where c: "countFailedDelivery item ?error s = (i1, s1)" by fastforce
  note k = countFailedDelivery_ok[OF c assms(2,3)]
  have "(\<exists>r. item' = item\<lparr>qi_runAt := r\<rparr>) \<and> nextId s' = nextId s \<and> maxDeliveries s' = maxDeliveries s
      \<or> (\<exists>r. item' = i1\<lparr>qi_runAt := r\<rparr>) \<and> nextId s' = nextId s1 \<and> maxDeliveries s' = maxDeliveries s1"
  proof (cases "(ro_error options = None \<or> ro_error options = Some (Plain JUndefined)) \<and> \<not> ro_unroutable options")
    case True
    with assms(1) show ?thesis by (auto simp: releaseQueueItem_def Let_def Date_now_def)
  next
    case False
    with assms(1) c show ?thesis unfolding releaseQueueItem_def if_not_P[OF False] Let_def
      by (auto simp: Date_now_def)
  qed
  with k assms(2) show "item_ok (maxDeliveries s) n item'" "qi_id item' = qi_id item" "qi_payload item' = qi_payload item"
    "nextId s' = nextId s" "maxDeliveries s' = maxDeliveries s"
    by auto
qed

text \<open>A property of commands that deliveries do not change.\<close>

definition command_tag :: "('c QueueItem \<Rightarrow> 't) \<Rightarrow> bool" where
  "command_tag f \<longleftrightarrow> (\<forall>i j. qi_id i = qi_id j \<longrightarrow> qi_payload i = qi_payload j \<longrightarrow> f i = f j)"

lemma command_tags: "command_tag qi_id" "command_tag (\<lambda>item. g (qi_payload item))"
  by (auto simp: command_tag_def)

lemma lane_ids_tags: "lane_ok maxD n queue claimed \<Longrightarrow> lane_ids queue claimed = lane_tags qi_id queue claimed"
proof -
  assume "lane_ok maxD n queue claimed"
  then have "\<forall>(k, c) \<in> set claimed. k = qi_id (ci_item c)" by (auto simp: lane_ok_def claim_ok_def)
  then have "map fst claimed = map (\<lambda>(k, c). qi_id (ci_item c)) claimed" by auto
  from arg_cong[OF this, of mset] show ?thesis by (simp only: lane_ids_def lane_tags_def mset_map)
qed

lemma reclaim_step_lane:
  assumes ok: "lane_ok (maxDeliveries s) (nextId s) queue claimed" and c: "map_get claimed k = Some c"
    and res: "reclaim_step el date (k, c) (claimed, queue, s) = (claimed', queue', s')"
  shows "lane_ok (maxDeliveries s') (nextId s') queue' claimed'"
    and "command_tag f \<Longrightarrow> lane_tags f queue' claimed' = lane_tags f queue claimed"
    and "j \<noteq> k \<Longrightarrow> map_get claimed' j = map_get claimed j"
    and "map_get claimed' k = (if ci_leaseExpiresAt c > date \<or> \<not> el (qi_payload (ci_item c)) then Some c else None)"
proof -
  have "lane_ok (maxDeliveries s') (nextId s') queue' claimed'
    \<and> (command_tag f \<longrightarrow> lane_tags f queue' claimed' = lane_tags f queue claimed)
    \<and> (j \<noteq> k \<longrightarrow> map_get claimed' j = map_get claimed j)
    \<and> map_get claimed' k = (if ci_leaseExpiresAt c > date \<or> \<not> el (qi_payload (ci_item c)) then Some c else None)"
  proof (cases "ci_leaseExpiresAt c > date \<or> \<not> el (qi_payload (ci_item c))")
    case True
    with res ok c show ?thesis by (auto simp: reclaim_step_def)
  next
    case False
    obtain item s1 where item: "countFailedDelivery (ci_item c)
      (case qi_lastError (ci_item c) of Some e \<Rightarrow> e | None \<Rightarrow> COMMAND_LEASE_EXPIRED_ERROR) s = (item, s1)" by fastforce
    note entry = claimed_entry[OF ok c]
    note counted = countFailedDelivery_ok[OF item entry(2,3)]
    have r: "claimed' = map_delete k claimed" "queue' = queue @ [item]" "s' = s1"
      using res False item by (auto simp: reclaim_step_def)
    have "lane_ok (maxDeliveries s) (nextId s) queue' claimed'"
      unfolding r by (rule lane_give_back(1)[OF ok c]) (use entry counted in simp_all)
    moreover have "command_tag f \<longrightarrow> lane_tags f queue' claimed' = lane_tags f queue claimed"
    proof
      assume "command_tag f"
      then have "f item = f (ci_item c)" using counted(2,3) unfolding command_tag_def by blast
      then show "lane_tags f queue' claimed' = lane_tags f queue claimed"
        unfolding r by (rule lane_tags_give_back[OF lane_wf[OF ok] c])
    qed
    moreover have "(j \<noteq> k \<longrightarrow> map_get claimed' j = map_get claimed j) \<and> map_get claimed' k = None"
      unfolding r(1) by simp
    moreover have "maxDeliveries s' = maxDeliveries s" "nextId s' = nextId s" using counted(5,6) r(3) by simp_all
    ultimately show ?thesis using False by presburger
  qed
  then show "lane_ok (maxDeliveries s') (nextId s') queue' claimed'"
    "command_tag f \<Longrightarrow> lane_tags f queue' claimed' = lane_tags f queue claimed"
    "j \<noteq> k \<Longrightarrow> map_get claimed' j = map_get claimed j"
    "map_get claimed' k = (if ci_leaseExpiresAt c > date \<or> \<not> el (qi_payload (ci_item c)) then Some c else None)"
    by blast+
qed

lemma reclaim_loop:
  assumes "lane_ok (maxDeliveries s) (nextId s) queue claimed" and "wf_map es"
    and "\<And>k c. (k, c) \<in> set es \<Longrightarrow> map_get claimed k = Some c"
    and "fold (reclaim_step el date) es (claimed, queue, s) = (claimed', queue', s')"
  shows "lane_ok (maxDeliveries s') (nextId s') queue' claimed'
    \<and> (command_tag f \<longrightarrow> lane_tags f queue' claimed' = lane_tags f queue claimed)
    \<and> (\<forall>k. map_get claimed' k = (case map_get claimed k of None \<Rightarrow> None
        | Some c \<Rightarrow> if (k, c) \<in> set es \<and> \<not> (ci_leaseExpiresAt c > date \<or> \<not> el (qi_payload (ci_item c)))
                    then None else Some c))"
  using assms
proof (induction es arbitrary: claimed queue s)
  case Nil
  then show ?case by (simp split: option.split)
next
  case (Cons e es)
  obtain k c where e: "e = (k, c)" by (cases e)
  obtain cl q t where mid: "reclaim_step el date (k, c) (claimed, queue, s) = (cl, q, t)" by (metis prod_cases3)
  have c: "map_get claimed k = Some c" using Cons.prems(3) e by simp
  note m = reclaim_step_lane[OF Cons.prems(1) c mid]
  have fresh: "(k, d) \<notin> set es" for d using Cons.prems(2) e by (force simp: image_iff)
  have ih: "lane_ok (maxDeliveries s') (nextId s') queue' claimed'
    \<and> (command_tag f \<longrightarrow> lane_tags f queue' claimed' = lane_tags f q cl)
    \<and> (\<forall>k. map_get claimed' k = (case map_get cl k of None \<Rightarrow> None
        | Some c \<Rightarrow> if (k, c) \<in> set es \<and> \<not> (ci_leaseExpiresAt c > date \<or> \<not> el (qi_payload (ci_item c)))
                    then None else Some c))"
  proof (rule Cons.IH[OF m(1)])
    show "map_get cl j = Some d" if "(j, d) \<in> set es" for j d
      using m(3)[of j] fresh that Cons.prems(3)[of j d] by (cases "j = k") auto
  qed (use Cons.prems e mid in simp_all)
  have "map_get claimed' j = (case map_get claimed j of None \<Rightarrow> None
        | Some c \<Rightarrow> if (j, c) \<in> set (e # es) \<and> \<not> (ci_leaseExpiresAt c > date \<or> \<not> el (qi_payload (ci_item c)))
                    then None else Some c)" for j
  proof (cases "j = k")
    case True
    with ih m(4) c e fresh show ?thesis by (auto split: option.split)
  next
    case False
    with ih m(3)[OF False] e show ?thesis by (simp cong: option.case_cong if_cong)
  qed
  with ih m(2)[of f] show ?case by simp
qed

lemma reclaim_lane:
  assumes ok: "lane_ok (maxDeliveries s) (nextId s) queue claimed"
    and res: "reclaimExpiredLeases claimed queue el s = (claimed', queue', s')"
  shows "lane_ok (maxDeliveries s') (nextId s') queue' claimed'"
    and "command_tag f \<Longrightarrow> lane_tags f queue' claimed' = lane_tags f queue claimed"
    and "map_get claimed' k = (case map_get claimed k of None \<Rightarrow> None
        | Some c \<Rightarrow> if ci_leaseExpiresAt c > fst (now s) \<or> \<not> el (qi_payload (ci_item c)) then Some c else None)"
proof -
  have r: "fold (reclaim_step el (fst (now s))) claimed (claimed, queue, snd (now s)) = (claimed', queue', s')"
    using res by (simp add: reclaimExpiredLeases_def case_prod_beta)
  have entries: "map_get claimed k = Some c" if "(k, c) \<in> set claimed" for k c
    using that lane_wf[OF ok] by (simp add: map_of_eq_Some_iff)
  have ok': "lane_ok (maxDeliveries (snd (now s))) (nextId (snd (now s))) queue claimed" using ok by simp
  note loop = reclaim_loop[OF ok' lane_wf[OF ok] entries r]
  from loop show "lane_ok (maxDeliveries s') (nextId s') queue' claimed'"
    "command_tag f \<Longrightarrow> lane_tags f queue' claimed' = lane_tags f queue claimed" by blast+
  show "map_get claimed' k = (case map_get claimed k of None \<Rightarrow> None
        | Some c \<Rightarrow> if ci_leaseExpiresAt c > fst (now s) \<or> \<not> el (qi_payload (ci_item c)) then Some c else None)"
  proof (cases "map_get claimed k")
    case (Some c)
    with loop[where f = qi_id] map_of_SomeD[OF Some] show ?thesis by simp
  qed (use loop[where f = qi_id] in simp)
qed

section \<open>The contract of an executor\<close>

text \<open>
  What a worker relies on. \<open>commands\<close> are the identifiers of the commands the executor holds,
  \<open>token\<close> the lease token under which one of them is claimed. A claim hands out a
  command under a token that nobody had before; an acknowledgement takes the command out and a
  release gives it back, both only for the holder of the token.
\<close>

locale delivery_queue =
  fixes ok :: "runtime \<Rightarrow> bool"
    and commands :: "runtime \<Rightarrow> string multiset"
    and token :: "runtime \<Rightarrow> string \<Rightarrow> string option"
    and claim :: "'w \<Rightarrow> runtime \<Rightarrow> 'c Claim option \<times> runtime"
    and ack :: "'c Claim \<Rightarrow> unit op"
    and release :: "'c Claim \<Rightarrow> CommandReleaseOptions \<Rightarrow> runtime \<Rightarrow> runtime"
  assumes claim_keeps: "ok s \<Longrightarrow> ok (snd (claim w s)) \<and> commands (snd (claim w s)) = commands s"
    and claim_gives: "ok s \<Longrightarrow> fst (claim w s) = Some c \<Longrightarrow>
        token (snd (claim w s)) (claim_id c) = Some (claim_leaseToken c) \<and> \<not> issued (nextId s) (claim_leaseToken c)"
    and token_issued: "ok s \<Longrightarrow> token s i = Some l \<Longrightarrow> issued (nextId s) l \<and> i \<in># commands s"
    and ack_held: "ok s \<Longrightarrow> token s (claim_id c) = Some (claim_leaseToken c) \<Longrightarrow>
        fst (ack c s) = Inr () \<and> ok (snd (ack c s)) \<and> token (snd (ack c s)) (claim_id c) = None
        \<and> commands s = add_mset (claim_id c) (commands (snd (ack c s)))"
    and ack_stale: "token s (claim_id c) \<noteq> Some (claim_leaseToken c) \<Longrightarrow> (\<exists>e. ack c s = (Inl e, s))"
    and release_held: "ok s \<Longrightarrow> token s (claim_id c) = Some (claim_leaseToken c) \<Longrightarrow>
        ok (release c ro s) \<and> commands (release c ro s) = commands s \<and> token (release c ro s) (claim_id c) = None"
    and release_stale: "token s (claim_id c) \<noteq> Some (claim_leaseToken c) \<Longrightarrow> release c ro s = s"
begin

lemma claim_then_ack: "ok s \<Longrightarrow> claim w s = (Some c, s') \<Longrightarrow> \<exists>s''. ack c s' = (Inr (), s'')"
  using claim_keeps[of s w] claim_gives[of s w c] ack_held[of s' c] by (metis fst_conv prod.collapse snd_conv)

lemma ack_once: "ok s \<Longrightarrow> ack c s = (Inr (), s') \<Longrightarrow> \<exists>e. ack c s' = (Inl e, s')"
  using ack_stale[of s c] ack_held[of s c] ack_stale[of s' c] by (metis Inl_Inr_False fst_conv option.distinct(1) snd_conv)

lemma ack_after_release: "ok s \<Longrightarrow> \<exists>e s'. ack c (release c ro s) = (Inl e, s')"
  using ack_stale release_held release_stale by (metis option.distinct(1))

lemma release_keeps: "ok s \<Longrightarrow> ok (release c ro s) \<and> commands (release c ro s) = commands s"
  using release_held release_stale by metis

lemma ack_removes: "ok s \<Longrightarrow> ack c s = (Inr (), s') \<Longrightarrow>
    ok s' \<and> token s (claim_id c) = Some (claim_leaseToken c) \<and> commands s = add_mset (claim_id c) (commands s')"
  using ack_stale[of s c] ack_held[of s c] by (metis Inl_Inr_False fst_conv snd_conv)

text \<open>Two claims never hand out the same token, so an old holder cannot settle the new delivery.\<close>

lemma reclaim_fences: "ok s \<Longrightarrow> token s (claim_id old) = Some (claim_leaseToken old) \<Longrightarrow>
    fst (claim w s) = Some c \<Longrightarrow> claim_id c = claim_id old \<Longrightarrow>
    \<exists>e. ack old (snd (claim w s)) = (Inl e, snd (claim w s))"
  using claim_gives[of s w c] token_issued[of s "claim_id old" "claim_leaseToken old"] ack_stale
  by (metis option.inject)

end

section \<open>The two executors\<close>

definition continue_ok :: "runtime \<Rightarrow> bool" where
  "continue_ok s \<longleftrightarrow> lane_ok (maxDeliveries s) (nextId s) (continueRunCommands s) (claimedContinueRunCommands s)"

definition attempt_ok :: "runtime \<Rightarrow> bool" where
  "attempt_ok s \<longleftrightarrow> lane_ok (maxDeliveries s) (nextId s) (attemptCommands s) (claimedAttemptCommands s)"

abbreviation continue_ids :: "runtime \<Rightarrow> string multiset" where
  "continue_ids s \<equiv> lane_ids (continueRunCommands s) (claimedContinueRunCommands s)"

abbreviation attempt_cmd_ids :: "runtime \<Rightarrow> string multiset" where
  "attempt_cmd_ids s \<equiv> lane_ids (attemptCommands s) (claimedAttemptCommands s)"

abbreviation continue_token :: "runtime \<Rightarrow> string \<Rightarrow> string option" where
  "continue_token s i \<equiv> map_option ci_leaseToken (map_get (claimedContinueRunCommands s) i)"

abbreviation attempt_token :: "runtime \<Rightarrow> string \<Rightarrow> string option" where
  "attempt_token s i \<equiv> map_option ci_leaseToken (map_get (claimedAttemptCommands s) i)"

text \<open>A claim, from the reclaimed lane on: either nothing is due or one live command moves.\<close>

lemma claimContinue_cases:
  assumes ok: "continue_ok s"
  obtains (none) cl q s1 where "reclaimExpiredLeases (claimedContinueRunCommands s) (continueRunCommands s)
        (\<lambda>command. cont_workflowName command \<in> set (rcw_workflowNames w)) s = (cl, q, s1)"
      "fst (claimContinue w s) = None" "continueRunCommands (snd (claimContinue w s)) = q"
      "claimedContinueRunCommands (snd (claimContinue w s)) = cl"
      "nextId (snd (claimContinue w s)) = nextId s1" "maxDeliveries (snd (claimContinue w s)) = maxDeliveries s1"
  | (some) cl q s1 item rest ci where "reclaimExpiredLeases (claimedContinueRunCommands s) (continueRunCommands s)
        (\<lambda>command. cont_workflowName command \<in> set (rcw_workflowNames w)) s = (cl, q, s1)"
      "mset q = add_mset item (mset rest)" "qi_deadAt item = None" "cont_workflowName (qi_payload item) \<in> set (rcw_workflowNames w)"
      "fst (claimContinue w s) = Some \<lparr>claim_id = qi_id item, claim_command = qi_payload item,
          claim_leaseToken = mk_id ''continue-lease'' (nextId s1)\<rparr>"
      "ci_item ci = item" "ci_leaseToken ci = mk_id ''continue-lease'' (nextId s1)"
      "continueRunCommands (snd (claimContinue w s)) = rest"
      "claimedContinueRunCommands (snd (claimContinue w s)) = map_set (qi_id item) ci cl"
      "nextId (snd (claimContinue w s)) = Suc (nextId s1)" "maxDeliveries (snd (claimContinue w s)) = maxDeliveries s1"
proof -
  let ?el = "\<lambda>command. cont_workflowName command \<in> set (rcw_workflowNames w)"
  obtain cl q s1 where rec: "reclaimExpiredLeases (claimedContinueRunCommands s) (continueRunCommands s) ?el s = (cl, q, s1)"
    by (metis prod_cases3)
  define s2 where "s2 = snd (now (s1\<lparr>claimedContinueRunCommands := cl, continueRunCommands := q\<rparr>))"
  define date where "date = fst (now (s1\<lparr>claimedContinueRunCommands := cl, continueRunCommands := q\<rparr>))"
  have s2: "continueRunCommands s2 = q" "claimedContinueRunCommands s2 = cl" "nextId s2 = nextId s1" "maxDeliveries s2 = maxDeliveries s1"
    by (simp_all add: s2_def)
  obtain found rest where fd: "claimQueued q (\<lambda>queued. ?el (qi_payload queued) \<and> due_at date queued) None = (found, rest)"
    by fastforce
  have res: "claimContinue w s = (case found of None \<Rightarrow> (None, s2)
     | Some item \<Rightarrow>
        (Some \<lparr>claim_id = qi_id item, claim_command = qi_payload item, claim_leaseToken = mk_id ''continue-lease'' (nextId s2)\<rparr>,
         (snd (fresh_id ''continue-lease'' (s2\<lparr>continueRunCommands := rest\<rparr>)))\<lparr>claimedContinueRunCommands :=
            map_set (qi_id item) \<lparr>ci_item = item, ci_leaseToken = mk_id ''continue-lease'' (nextId s2),
              ci_leaseExpiresAt = date + rcw_leaseMs w\<rparr> cl\<rparr>))"
    unfolding claimContinue_def Let_def rec using fd
    by (simp add: case_prod_beta s2_def[symmetric] date_def[symmetric] s2 split: option.split)
  show ?thesis
  proof (cases found)
    case None
    with claimQueued_None fd have "rest = q" by blast
    with None res s2 rec show ?thesis by (intro none[of cl q s1]) simp_all
  next
    case (Some item)
    note it = claimQueued_Some(2,3)[OF fd[unfolded Some]]
    show ?thesis
      by (rule some[OF rec it(2)]) (use it(1) res Some s2 in \<open>simp_all add: live_def\<close>)
  qed
qed

lemma claimAttempt_cases:
  assumes ok: "attempt_ok s"
  obtains (none) cl q s1 where "reclaimExpiredLeases (claimedAttemptCommands s) (attemptCommands s)
        (attemptEligible w) s = (cl, q, s1)"
      "fst (claimAttempt w s) = None" "attemptCommands (snd (claimAttempt w s)) = q"
      "claimedAttemptCommands (snd (claimAttempt w s)) = cl"
      "nextId (snd (claimAttempt w s)) = nextId s1" "maxDeliveries (snd (claimAttempt w s)) = maxDeliveries s1"
  | (some) cl q s1 item rest ci where "reclaimExpiredLeases (claimedAttemptCommands s) (attemptCommands s)
        (attemptEligible w) s = (cl, q, s1)"
      "mset q = add_mset item (mset rest)" "qi_deadAt item = None" "attemptEligible w (qi_payload item)"
      "fst (claimAttempt w s) = Some \<lparr>claim_id = qi_id item, claim_command = qi_payload item,
          claim_leaseToken = mk_id ''attempt-claim-lease'' (nextId s1)\<rparr>"
      "ci_item ci = item" "ci_leaseToken ci = mk_id ''attempt-claim-lease'' (nextId s1)"
      "attemptCommands (snd (claimAttempt w s)) = rest"
      "claimedAttemptCommands (snd (claimAttempt w s)) = map_set (qi_id item) ci cl"
      "nextId (snd (claimAttempt w s)) = Suc (nextId s1)" "maxDeliveries (snd (claimAttempt w s)) = maxDeliveries s1"
proof -
  let ?el = "attemptEligible w"
  obtain cl q s1 where rec: "reclaimExpiredLeases (claimedAttemptCommands s) (attemptCommands s) ?el s = (cl, q, s1)"
    by (metis prod_cases3)
  define s2 where "s2 = snd (now (s1\<lparr>claimedAttemptCommands := cl, attemptCommands := q\<rparr>))"
  define date where "date = fst (now (s1\<lparr>claimedAttemptCommands := cl, attemptCommands := q\<rparr>))"
  have s2: "attemptCommands s2 = q" "claimedAttemptCommands s2 = cl" "nextId s2 = nextId s1" "maxDeliveries s2 = maxDeliveries s1"
    "rt_host s2 = rt_host s1"
    by (simp_all add: s2_def)
  obtain found rest where fd: "claimQueued q (\<lambda>queued. due_at date queued \<and> ?el (qi_payload queued)) (Some (compareAttemptCommands (rt_host s1))) = (found, rest)"
    by fastforce
  have res: "claimAttempt w s = (case found of None \<Rightarrow> (None, s2)
     | Some item \<Rightarrow>
        (Some \<lparr>claim_id = qi_id item, claim_command = qi_payload item, claim_leaseToken = mk_id ''attempt-claim-lease'' (nextId s2)\<rparr>,
         (snd (now (snd (fresh_id ''attempt-claim-lease'' (s2\<lparr>attemptCommands := rest\<rparr>)))))\<lparr>claimedAttemptCommands :=
            map_set (qi_id item) \<lparr>ci_item = item, ci_leaseToken = mk_id ''attempt-claim-lease'' (nextId s2),
              ci_leaseExpiresAt = fst (now (snd (fresh_id ''attempt-claim-lease'' (s2\<lparr>attemptCommands := rest\<rparr>)))) + ew_leaseMs w\<rparr> cl\<rparr>))"
    unfolding claimAttempt_def Let_def rec using fd
    by (simp add: case_prod_beta s2_def[symmetric] date_def[symmetric] s2 split: option.split)
  show ?thesis
  proof (cases found)
    case None
    with claimQueued_None fd have "rest = q" by blast
    with None res s2 rec show ?thesis by (intro none[of cl q s1]) simp_all
  next
    case (Some item)
    note it = claimQueued_Some(2,3)[OF fd[unfolded Some]]
    show ?thesis
      by (rule some[OF rec it(2)]) (use it(1) res Some s2 in \<open>simp_all add: live_def\<close>)
  qed
qed

lemma lane_claim:
  assumes ok: "lane_ok (maxDeliveries s) (nextId s) queue claimed"
    and rec: "reclaimExpiredLeases claimed queue el s = (cl, q, s1)"
    and q: "mset q = add_mset item (mset rest)" "qi_deadAt item = None"
    and ci: "ci_item ci = item" "ci_leaseToken ci = mk_id p (nextId s1)"
  shows "lane_ok (maxDeliveries s1) (Suc (nextId s1)) rest (map_set (qi_id item) ci cl)"
    and "command_tag f \<Longrightarrow> lane_tags f rest (map_set (qi_id item) ci cl) = lane_tags f queue claimed"
proof -
  note r = reclaim_lane[OF ok rec]
  show "lane_ok (maxDeliveries s1) (Suc (nextId s1)) rest (map_set (qi_id item) ci cl)"
    by (rule lane_take(1)[OF r(1) q]) (use ci in simp_all)
  have "map_get cl (qi_id item) = None"
    by (rule lane_take(3)[OF r(1) q, of "Suc (nextId s1)" ci]) (use ci in simp_all)
  then show "command_tag f \<Longrightarrow> lane_tags f rest (map_set (qi_id item) ci cl) = lane_tags f queue claimed"
    using lane_tags_take[OF q(1) _ ci(1), of cl "qi_id item" f] r(2) by simp
qed

lemma reclaim_counter: "reclaimExpiredLeases claimed queue el s = (cl, q, s1) \<Longrightarrow> nextId s \<le> nextId s1"
  using calm_reclaim[of s claimed queue el] by (simp add: calm_def later_def)

lemma claimContinue_lane:
  assumes ok: "continue_ok s"
  shows "continue_ok (snd (claimContinue w s))"
    and "command_tag f \<Longrightarrow> lane_tags f (continueRunCommands (snd (claimContinue w s)))
       (claimedContinueRunCommands (snd (claimContinue w s))) = lane_tags f (continueRunCommands s) (claimedContinueRunCommands s)"
    and "fst (claimContinue w s) = Some c \<Longrightarrow> continue_token (snd (claimContinue w s)) (claim_id c) = Some (claim_leaseToken c)
       \<and> \<not> issued (nextId s) (claim_leaseToken c)"
proof -
  note lane = ok[unfolded continue_ok_def]
  show "continue_ok (snd (claimContinue w s))"
    using ok
  proof (cases rule: claimContinue_cases[where w = w])
    case none
    then show ?thesis using reclaim_lane(1)[OF lane none(1)] by (simp add: continue_ok_def)
  next
    case some
    then show ?thesis using lane_claim(1)[OF lane some(1,2,3,6,7)] by (simp add: continue_ok_def)
  qed
  show "command_tag f \<Longrightarrow> lane_tags f (continueRunCommands (snd (claimContinue w s)))
       (claimedContinueRunCommands (snd (claimContinue w s))) = lane_tags f (continueRunCommands s) (claimedContinueRunCommands s)"
    using ok by (cases rule: claimContinue_cases[where w = w])
      (auto simp: reclaim_lane(2)[OF lane] lane_claim(2)[OF lane])
  show "fst (claimContinue w s) = Some c \<Longrightarrow> continue_token (snd (claimContinue w s)) (claim_id c) = Some (claim_leaseToken c)
       \<and> \<not> issued (nextId s) (claim_leaseToken c)"
    using ok by (cases rule: claimContinue_cases[where w = w]) (auto dest: reclaim_counter)
qed

lemma claimAttempt_lane:
  assumes ok: "attempt_ok s"
  shows "attempt_ok (snd (claimAttempt w s))"
    and "command_tag f \<Longrightarrow> lane_tags f (attemptCommands (snd (claimAttempt w s)))
       (claimedAttemptCommands (snd (claimAttempt w s))) = lane_tags f (attemptCommands s) (claimedAttemptCommands s)"
    and "fst (claimAttempt w s) = Some c \<Longrightarrow> attempt_token (snd (claimAttempt w s)) (claim_id c) = Some (claim_leaseToken c)
       \<and> \<not> issued (nextId s) (claim_leaseToken c)"
proof -
  note lane = ok[unfolded attempt_ok_def]
  show "attempt_ok (snd (claimAttempt w s))"
    using ok
  proof (cases rule: claimAttempt_cases[where w = w])
    case none
    then show ?thesis using reclaim_lane(1)[OF lane none(1)] by (simp add: attempt_ok_def)
  next
    case some
    then show ?thesis using lane_claim(1)[OF lane some(1,2,3,6,7)] by (simp add: attempt_ok_def)
  qed
  show "command_tag f \<Longrightarrow> lane_tags f (attemptCommands (snd (claimAttempt w s)))
       (claimedAttemptCommands (snd (claimAttempt w s))) = lane_tags f (attemptCommands s) (claimedAttemptCommands s)"
    using ok by (cases rule: claimAttempt_cases[where w = w])
      (auto simp: reclaim_lane(2)[OF lane] lane_claim(2)[OF lane])
  show "fst (claimAttempt w s) = Some c \<Longrightarrow> attempt_token (snd (claimAttempt w s)) (claim_id c) = Some (claim_leaseToken c)
       \<and> \<not> issued (nextId s) (claim_leaseToken c)"
    using ok by (cases rule: claimAttempt_cases[where w = w]) (auto dest: reclaim_counter)
qed

lemma token_held:
  assumes "lane_ok maxD n queue claimed" and "map_option ci_leaseToken (map_get claimed i) = Some l"
  shows "issued n l \<and> i \<in># lane_ids queue claimed"
proof -
  obtain c where c: "map_get claimed i = Some c" "ci_leaseToken c = l" using assms(2) by auto
  then have "i \<in> set (map fst claimed)" using map_of_SomeD[OF c(1)] by force
  with claimed_entry(4)[OF assms(1) c(1)] c(2) show ?thesis by (simp add: lane_ids_def)
qed

lemma ackContinue_held:
  assumes ok: "continue_ok s" and tok: "continue_token s (claim_id c) = Some (claim_leaseToken c)"
  shows "fst (ackContinue c s) = Inr ()" "continue_ok (snd (ackContinue c s))"
    "continue_token (snd (ackContinue c s)) (claim_id c) = None"
    "continue_ids s = add_mset (claim_id c) (continue_ids (snd (ackContinue c s)))"
proof -
  obtain e where e: "map_get (claimedContinueRunCommands s) (claim_id c) = Some e" using tok by auto
  note lane = lane_ack[OF ok[unfolded continue_ok_def] e]
  show "fst (ackContinue c s) = Inr ()" "continue_ok (snd (ackContinue c s))"
    "continue_token (snd (ackContinue c s)) (claim_id c) = None"
    "continue_ids s = add_mset (claim_id c) (continue_ids (snd (ackContinue c s)))"
    using lane tok by (simp_all add: ackContinue_def matchesClaim_def continue_ok_def)
qed

lemma ackAttempt_held:
  assumes ok: "attempt_ok s" and tok: "attempt_token s (claim_id c) = Some (claim_leaseToken c)"
  shows "fst (ackAttempt c s) = Inr ()" "attempt_ok (snd (ackAttempt c s))"
    "attempt_token (snd (ackAttempt c s)) (claim_id c) = None"
    "attempt_cmd_ids s = add_mset (claim_id c) (attempt_cmd_ids (snd (ackAttempt c s)))"
proof -
  obtain e where e: "map_get (claimedAttemptCommands s) (claim_id c) = Some e" using tok by auto
  note lane = lane_ack[OF ok[unfolded attempt_ok_def] e]
  show "fst (ackAttempt c s) = Inr ()" "attempt_ok (snd (ackAttempt c s))"
    "attempt_token (snd (ackAttempt c s)) (claim_id c) = None"
    "attempt_cmd_ids s = add_mset (claim_id c) (attempt_cmd_ids (snd (ackAttempt c s)))"
    using lane tok by (simp_all add: ackAttempt_def matchesClaim_def attempt_ok_def)
qed

text \<open>A release by the holder puts the counted command back at the end of its queue.\<close>

lemma releaseContinue_held:
  assumes ok: "continue_ok s" and tok: "continue_token s (claim_id c) = Some (claim_leaseToken c)"
  shows "continue_ok (releaseContinue c ro s) \<and> continue_token (releaseContinue c ro s) (claim_id c) = None
    \<and> (command_tag f \<longrightarrow> lane_tags f (continueRunCommands (releaseContinue c ro s)) (claimedContinueRunCommands (releaseContinue c ro s))
          = lane_tags f (continueRunCommands s) (claimedContinueRunCommands s))"
proof -
  note lane = ok[unfolded continue_ok_def]
  obtain e where e: "map_get (claimedContinueRunCommands s) (claim_id c) = Some e" using tok by auto
  define s1 where "s1 = s\<lparr>claimedContinueRunCommands := map_delete (claim_id c) (claimedContinueRunCommands s)\<rparr>"
  obtain item s2 where item: "releaseQueueItem (ci_item e) ro s1 = (item, s2)" by fastforce
  note entry = claimed_entry[OF lane e]
  have m: "maxDeliveries s1 = maxDeliveries s" "nextId s1 = nextId s" by (simp_all add: s1_def)
  note rel = releaseQueueItem_ok[OF item, unfolded m, OF entry(2,3)]
  have view: "queue_view s2 = queue_view s1" using calm_releaseQueueItem[of s1 "ci_item e" ro] item by (simp add: calm_def)
  have res: "releaseContinue c ro s = s2\<lparr>continueRunCommands := continueRunCommands s2 @ [item]\<rparr>"
    using e tok item by (simp add: releaseContinue_def matchesClaim_def s1_def)
  have s2: "continueRunCommands s2 = continueRunCommands s"
    "claimedContinueRunCommands s2 = map_delete (claim_id c) (claimedContinueRunCommands s)"
    using view by (simp_all add: queue_view_def s1_def)
  have "continue_ok (releaseContinue c ro s)"
    unfolding continue_ok_def res using lane_give_back(1)[OF lane e, of item] rel entry s2 by simp
  moreover have "f item = f (ci_item e)" if "command_tag f"
    using that rel(2,3) unfolding command_tag_def by blast
  ultimately show ?thesis
    using lane_tags_give_back[OF lane_wf[OF lane] e, of f item "continueRunCommands s"] by (simp add: res s2)
qed

lemma releaseAttempt_held:
  assumes ok: "attempt_ok s" and tok: "attempt_token s (claim_id c) = Some (claim_leaseToken c)"
  shows "attempt_ok (releaseAttempt c ro s) \<and> attempt_token (releaseAttempt c ro s) (claim_id c) = None
    \<and> (command_tag f \<longrightarrow> lane_tags f (attemptCommands (releaseAttempt c ro s)) (claimedAttemptCommands (releaseAttempt c ro s))
          = lane_tags f (attemptCommands s) (claimedAttemptCommands s))"
proof -
  note lane = ok[unfolded attempt_ok_def]
  obtain e where e: "map_get (claimedAttemptCommands s) (claim_id c) = Some e" using tok by auto
  define s1 where "s1 = s\<lparr>claimedAttemptCommands := map_delete (claim_id c) (claimedAttemptCommands s)\<rparr>"
  obtain item s2 where item: "releaseQueueItem (ci_item e) ro s1 = (item, s2)" by fastforce
  note entry = claimed_entry[OF lane e]
  have m: "maxDeliveries s1 = maxDeliveries s" "nextId s1 = nextId s" by (simp_all add: s1_def)
  note rel = releaseQueueItem_ok[OF item, unfolded m, OF entry(2,3)]
  have view: "queue_view s2 = queue_view s1" using calm_releaseQueueItem[of s1 "ci_item e" ro] item by (simp add: calm_def)
  have res: "releaseAttempt c ro s = s2\<lparr>attemptCommands := attemptCommands s2 @ [item]\<rparr>"
    using e tok item by (simp add: releaseAttempt_def matchesClaim_def s1_def)
  have s2: "attemptCommands s2 = attemptCommands s"
    "claimedAttemptCommands s2 = map_delete (claim_id c) (claimedAttemptCommands s)"
    using view by (simp_all add: queue_view_def s1_def)
  have "attempt_ok (releaseAttempt c ro s)"
    unfolding attempt_ok_def res using lane_give_back(1)[OF lane e, of item] rel entry s2 by simp
  moreover have "f item = f (ci_item e)" if "command_tag f"
    using that rel(2,3) unfolding command_tag_def by blast
  ultimately show ?thesis
    using lane_tags_give_back[OF lane_wf[OF lane] e, of f item "attemptCommands s"] by (simp add: res s2)
qed

lemma stale_settlement:
  "continue_token s (claim_id c) \<noteq> Some (claim_leaseToken c) \<Longrightarrow> \<exists>e. ackContinue c s = (Inl e, s)"
  "continue_token s (claim_id c) \<noteq> Some (claim_leaseToken c) \<Longrightarrow> releaseContinue c ro s = s"
  "attempt_token s (claim_id d) \<noteq> Some (claim_leaseToken d) \<Longrightarrow> \<exists>e. ackAttempt d s = (Inl e, s)"
  "attempt_token s (claim_id d) \<noteq> Some (claim_leaseToken d) \<Longrightarrow> releaseAttempt d ro s = s"
  by (auto simp: ackContinue_def releaseContinue_def ackAttempt_def releaseAttempt_def matchesClaim_def split: option.splits)

interpretation continue_queue: delivery_queue continue_ok continue_ids continue_token claimContinue ackContinue releaseContinue
proof
  show "continue_ok (snd (claimContinue w s)) \<and> continue_ids (snd (claimContinue w s)) = continue_ids s" if "continue_ok s" for s w
    using claimContinue_lane(1)[OF that, where w = w] claimContinue_lane(2)[OF that, where w = w and f = qi_id] that lane_ids_tags command_tags(1)
    unfolding continue_ok_def by metis
  show "continue_ok (releaseContinue c ro s) \<and> continue_ids (releaseContinue c ro s) = continue_ids s \<and>
      continue_token (releaseContinue c ro s) (claim_id c) = None"
    if "continue_ok s" "continue_token s (claim_id c) = Some (claim_leaseToken c)" for s c ro
    using releaseContinue_held[OF that, where f = qi_id and ro = ro] that(1) lane_ids_tags command_tags(1)
    unfolding continue_ok_def by metis
  show "issued (nextId s) l \<and> i \<in># continue_ids s" if "continue_ok s" "continue_token s i = Some l" for s i l
    using token_held[OF that[unfolded continue_ok_def]] .
  show "continue_token (snd (claimContinue w s)) (claim_id c) = Some (claim_leaseToken c) \<and> \<not> issued (nextId s) (claim_leaseToken c)"
    if "continue_ok s" "fst (claimContinue w s) = Some c" for s w c
    using claimContinue_lane(3)[OF that] .
  show "fst (ackContinue c s) = Inr () \<and> continue_ok (snd (ackContinue c s)) \<and> continue_token (snd (ackContinue c s)) (claim_id c) = None \<and>
      continue_ids s = add_mset (claim_id c) (continue_ids (snd (ackContinue c s)))"
    if "continue_ok s" "continue_token s (claim_id c) = Some (claim_leaseToken c)" for s c
    using ackContinue_held[OF that] by (intro conjI)
  show "\<exists>e. ackContinue c s = (Inl e, s)" if "continue_token s (claim_id c) \<noteq> Some (claim_leaseToken c)" for s c
    using stale_settlement(1)[OF that] .
  show "releaseContinue c ro s = s" if "continue_token s (claim_id c) \<noteq> Some (claim_leaseToken c)" for s c ro
    using stale_settlement(2)[OF that] .
qed

interpretation attempt_queue: delivery_queue attempt_ok attempt_cmd_ids attempt_token claimAttempt ackAttempt releaseAttempt
proof
  show "attempt_ok (snd (claimAttempt w s)) \<and> attempt_cmd_ids (snd (claimAttempt w s)) = attempt_cmd_ids s" if "attempt_ok s" for s w
    using claimAttempt_lane(1)[OF that, where w = w] claimAttempt_lane(2)[OF that, where w = w and f = qi_id] that lane_ids_tags command_tags(1)
    unfolding attempt_ok_def by metis
  show "attempt_ok (releaseAttempt c ro s) \<and> attempt_cmd_ids (releaseAttempt c ro s) = attempt_cmd_ids s \<and>
      attempt_token (releaseAttempt c ro s) (claim_id c) = None"
    if "attempt_ok s" "attempt_token s (claim_id c) = Some (claim_leaseToken c)" for s c ro
    using releaseAttempt_held[OF that, where f = qi_id and ro = ro] that(1) lane_ids_tags command_tags(1)
    unfolding attempt_ok_def by metis
  show "issued (nextId s) l \<and> i \<in># attempt_cmd_ids s" if "attempt_ok s" "attempt_token s i = Some l" for s i l
    using token_held[OF that[unfolded attempt_ok_def]] .
  show "attempt_token (snd (claimAttempt w s)) (claim_id c) = Some (claim_leaseToken c) \<and> \<not> issued (nextId s) (claim_leaseToken c)"
    if "attempt_ok s" "fst (claimAttempt w s) = Some c" for s w c
    using claimAttempt_lane(3)[OF that] .
  show "fst (ackAttempt c s) = Inr () \<and> attempt_ok (snd (ackAttempt c s)) \<and> attempt_token (snd (ackAttempt c s)) (claim_id c) = None \<and>
      attempt_cmd_ids s = add_mset (claim_id c) (attempt_cmd_ids (snd (ackAttempt c s)))"
    if "attempt_ok s" "attempt_token s (claim_id c) = Some (claim_leaseToken c)" for s c
    using ackAttempt_held[OF that] by (intro conjI)
  show "\<exists>e. ackAttempt c s = (Inl e, s)" if "attempt_token s (claim_id c) \<noteq> Some (claim_leaseToken c)" for s c
    using stale_settlement(3)[OF that] .
  show "releaseAttempt c ro s = s" if "attempt_token s (claim_id c) \<noteq> Some (claim_leaseToken c)" for s c ro
    using stale_settlement(4)[OF that] .
qed

section \<open>The invariant of both lanes\<close>

abbreviation attempt_tag :: "AttemptCommand QueueItem \<Rightarrow> string" where
  "attempt_tag item \<equiv> cmd_attemptId (qi_payload item)"

definition single_dispatch :: "runtime \<Rightarrow> bool" where
  "single_dispatch s \<longleftrightarrow> (\<forall>a. count (lane_tags attempt_tag (attemptCommands s) (claimedAttemptCommands s)) a \<le> 1)"

definition queue_inv :: "runtime \<Rightarrow> bool" where
  "queue_inv s \<longleftrightarrow> continue_ok s \<and> attempt_ok s \<and> single_dispatch s"

lemma queue_inv_frame:
  assumes "queue_inv s" and "queue_view s' = queue_view s" and "later s s'"
  shows "queue_inv s'"
  using assms
  by (auto simp: queue_inv_def continue_ok_def attempt_ok_def single_dispatch_def queue_view_def later_def
        intro: lane_ok_mono)

lemma new_item_ok: "k < n \<Longrightarrow> item_ok maxD n \<lparr>qi_id = mk_id p k, qi_payload = c, qi_runAt = r, qi_deliveryCount = 0,
    qi_lastError = None, qi_deadAt = None, qi_reapedAt = None, qi_createdAt = t\<rparr>"
  by (simp add: item_ok_def)

lemma lane_same_update:
  assumes "lane_ok maxD n queue claimed" and "i < length queue"
  shows "lane_ok maxD n (queue[i := (queue ! i)\<lparr>qi_payload := p, qi_runAt := r\<rparr>]) claimed"
  by (rule lane_replace[OF assms]) (use lane_items[OF assms(1)] assms(2) in simp_all)

lemma queue_inv_lanes:
  assumes "queue_inv s" and "later s s'"
    and "lane_ok (maxDeliveries s) (nextId s') (continueRunCommands s') (claimedContinueRunCommands s')"
    and "attemptCommands s' = attemptCommands s" "claimedAttemptCommands s' = claimedAttemptCommands s"
  shows "queue_inv s'"
  using assms lane_ok_mono[of "maxDeliveries s" "nextId s" "attemptCommands s" "claimedAttemptCommands s" "nextId s'"]
  by (simp add: queue_inv_def continue_ok_def attempt_ok_def single_dispatch_def later_def)

lemma enqueueContinue_inv: "queue_inv s \<Longrightarrow> queue_inv (enqueueContinue c r s)"
proof -
  assume inv: "queue_inv s"
  then have lane: "lane_ok (maxDeliveries s) (nextId s) (continueRunCommands s) (claimedContinueRunCommands s)"
    by (simp add: queue_inv_def continue_ok_def)
  have later: "later s (enqueueContinue c r s)" by (simp add: frame_simps)
  show ?thesis
  proof (cases "find_index (\<lambda>item. qi_deadAt item = None \<and> cont_runId (qi_payload item) = cont_runId c) (continueRunCommands s)")
    case None
    let ?t = "(snd (queueItem (mk_id ''continue'' (nextId s)) c r (snd (fresh_id ''continue'' s))))"
    let ?item = "fst (queueItem (mk_id ''continue'' (nextId s)) c r (snd (fresh_id ''continue'' s)))"
    have t: "queue_view ?t = queue_view s" "nextId ?t = Suc (nextId s)" "maxDeliveries ?t = maxDeliveries s"
      by (simp_all add: queueItem_def prim_simps view_defs)
    have item: "item_ok (maxDeliveries s) (Suc (nextId s)) ?item" "qi_id ?item = mk_id ''continue'' (nextId s)"
      by (simp_all add: queueItem_def prim_simps new_item_ok)
    have "queue_inv (?t\<lparr>continueRunCommands := continueRunCommands ?t @ [?item]\<rparr>)"
    proof (rule queue_inv_lanes[OF inv])
      show "later s (?t\<lparr>continueRunCommands := continueRunCommands ?t @ [?item]\<rparr>)"
        by (simp add: queueItem_def prim_simps)
      show "lane_ok (maxDeliveries s) (nextId (?t\<lparr>continueRunCommands := continueRunCommands ?t @ [?item]\<rparr>))
          (continueRunCommands (?t\<lparr>continueRunCommands := continueRunCommands ?t @ [?item]\<rparr>))
          (claimedContinueRunCommands (?t\<lparr>continueRunCommands := continueRunCommands ?t @ [?item]\<rparr>))"
        using lane_append_fresh[OF lane, of "nextId s" "Suc (nextId s)" ?item] item t
        by (simp add: queue_view_def)
    qed (use t in \<open>simp_all add: queue_view_def\<close>)
    then show ?thesis
      using None by (auto simp: enqueueContinue_def prim_simps calm_simps intro: queue_inv_frame)
  next
    case (Some i)
    note f = find_index_Some[OF Some]
    let ?u = "s\<lparr>continueRunCommands := (continueRunCommands s)[i := (continueRunCommands s ! i)
        \<lparr>qi_payload := c, qi_runAt := earliestRunAt (qi_runAt (continueRunCommands s ! i)) r\<rparr>]\<rparr>"
    have "queue_inv ?u"
      by (rule queue_inv_lanes[OF inv]) (use lane_same_update[OF lane, of i] f in simp_all)
    then show ?thesis
      using Some by (auto simp: enqueueContinue_def prim_simps calm_simps intro: queue_inv_frame)
  qed
qed

lemma attempt_exists_tag:
  "attemptCommandExists a s \<longleftrightarrow> a \<in># lane_tags attempt_tag (attemptCommands s) (claimedAttemptCommands s)"
  by (auto simp: attemptCommandExists_def lane_tags_def list_ex_iff case_prod_beta image_iff)

lemma queue_inv_attempts:
  assumes "queue_inv s" and "later s s'"
    and "lane_ok (maxDeliveries s) (nextId s') (attemptCommands s') (claimedAttemptCommands s')" "single_dispatch s'"
    and "continueRunCommands s' = continueRunCommands s" "claimedContinueRunCommands s' = claimedContinueRunCommands s"
  shows "queue_inv s'"
  using assms lane_ok_mono[of "maxDeliveries s" "nextId s" "continueRunCommands s" "claimedContinueRunCommands s" "nextId s'"]
  by (simp add: queue_inv_def continue_ok_def attempt_ok_def later_def)

lemma dispatchAttempt_inv:
  assumes inv: "queue_inv s"
  shows "queue_inv (dispatchAttempt p k c r s)"
proof (cases "attemptCommandExists (cmd_attemptId c) s")
  case False
  have lane: "lane_ok (maxDeliveries s) (nextId s) (attemptCommands s) (claimedAttemptCommands s)"
    using inv by (simp add: queue_inv_def attempt_ok_def)
  let ?t = "(snd (queueItem (mk_id p (nextId s)) c r (snd (fresh_id p s))))"
  let ?item = "fst (queueItem (mk_id p (nextId s)) c r (snd (fresh_id p s)))"
  let ?u = "?t\<lparr>attemptCommands := attemptCommands ?t @ [?item]\<rparr>"
  have t: "queue_view ?t = queue_view s" "nextId ?t = Suc (nextId s)" "maxDeliveries ?t = maxDeliveries s"
    by (simp_all add: queueItem_def prim_simps view_defs)
  have item: "item_ok (maxDeliveries s) (Suc (nextId s)) ?item" "qi_id ?item = mk_id p (nextId s)" "attempt_tag ?item = cmd_attemptId c"
    by (simp_all add: queueItem_def prim_simps new_item_ok)
  have "queue_inv ?u"
  proof (rule queue_inv_attempts[OF inv])
    show "later s ?u" by (simp add: queueItem_def prim_simps)
    show "lane_ok (maxDeliveries s) (nextId ?u) (attemptCommands ?u) (claimedAttemptCommands ?u)"
      using lane_append_fresh[OF lane, of "nextId s" "Suc (nextId s)" ?item] item t by (simp add: queue_view_def)
    have "count (lane_tags attempt_tag (attemptCommands s) (claimedAttemptCommands s)) (cmd_attemptId c) = 0"
      using False by (simp add: attempt_exists_tag not_in_iff)
    then show "single_dispatch ?u"
      using inv item(3) t by (simp add: queue_inv_def single_dispatch_def lane_tags_def queue_view_def)
  qed (use t in \<open>simp_all add: queue_view_def\<close>)
  with False show ?thesis
    by (auto simp: dispatchAttempt_def prim_simps calm_simps intro: queue_inv_frame)
qed (use inv in \<open>simp add: dispatchAttempt_def\<close>)

lemma attempts_from_tags:
  assumes inv: "queue_inv s" and "later s s'" and ok: "attempt_ok s'"
    and "lane_tags attempt_tag (attemptCommands s') (claimedAttemptCommands s')
       \<subseteq># lane_tags attempt_tag (attemptCommands s) (claimedAttemptCommands s)"
    and "continueRunCommands s' = continueRunCommands s" "claimedContinueRunCommands s' = claimedContinueRunCommands s"
  shows "queue_inv s'"
proof (rule queue_inv_attempts[OF assms(1,2)])
  show "lane_ok (maxDeliveries s) (nextId s') (attemptCommands s') (claimedAttemptCommands s')"
    using ok assms(2) by (simp add: attempt_ok_def later_def)
  show "single_dispatch s'"
    using inv mset_subset_eq_count[OF assms(4)] by (auto simp: single_dispatch_def queue_inv_def intro: order_trans)
qed (use assms in simp_all)

lemma calm_queues:
  assumes "calm s s'"
  shows "continueRunCommands s' = continueRunCommands s" "claimedContinueRunCommands s' = claimedContinueRunCommands s"
    "attemptCommands s' = attemptCommands s" "claimedAttemptCommands s' = claimedAttemptCommands s"
  using assms by (simp_all add: calm_def queue_view_def)

lemmas calm_queue_fields =
  calm_queues[OF calm_reclaim] calm_queues[OF calm_releaseQueueItem]

lemma executor_attempt_frames [simp]:
  "continueRunCommands (snd (claimAttempt w s)) = continueRunCommands s"
  "claimedContinueRunCommands (snd (claimAttempt w s)) = claimedContinueRunCommands s"
  "continueRunCommands (releaseAttempt c ro s) = continueRunCommands s"
  "claimedContinueRunCommands (releaseAttempt c ro s) = claimedContinueRunCommands s"
  "attemptCommands (snd (claimContinue w' s)) = attemptCommands s"
  "claimedAttemptCommands (snd (claimContinue w' s)) = claimedAttemptCommands s"
  "attemptCommands (releaseContinue c' ro s) = attemptCommands s"
  "claimedAttemptCommands (releaseContinue c' ro s) = claimedAttemptCommands s"
  by (simp_all add: claimAttempt_def releaseAttempt_def claimContinue_def releaseContinue_def prim_simps
        calm_queue_fields split: option.split)

lemma claimContinue_inv: "queue_inv s \<Longrightarrow> queue_inv (snd (claimContinue w s))"
  by (rule queue_inv_lanes)
     (use claimContinue_lane(1)[of s w] executor_later(1)[of s w] in
       \<open>simp_all add: frame_simps queue_inv_def continue_ok_def later_def\<close>)

lemma ackContinue_inv: "queue_inv s \<Longrightarrow> queue_inv (snd (ackContinue c s))"
proof (cases "continue_token s (claim_id c) = Some (claim_leaseToken c)")
  case True
  assume inv: "queue_inv s"
  then have "continue_ok (snd (ackContinue c s))" using ackContinue_held(2)[OF _ True] by (simp add: queue_inv_def)
  then show ?thesis
    by (intro queue_inv_lanes[OF inv]) (simp_all add: frame_simps continue_ok_def ackContinue_def split: if_splits)
next
  case False
  assume "queue_inv s"
  with stale_settlement(1)[OF False] show ?thesis by auto
qed

lemma releaseContinue_inv: "queue_inv s \<Longrightarrow> queue_inv (releaseContinue c ro s)"
proof (cases "continue_token s (claim_id c) = Some (claim_leaseToken c)")
  case True
  assume inv: "queue_inv s"
  then have "continue_ok (releaseContinue c ro s)"
    using releaseContinue_held[OF _ True, where f = qi_id] by (simp add: queue_inv_def)
  then show ?thesis
    using executor_later(3)[of s c ro]
    by (intro queue_inv_lanes[OF inv]) (simp_all add: frame_simps continue_ok_def later_def)
next
  case False
  assume "queue_inv s"
  with stale_settlement(2)[OF False] show ?thesis by simp
qed

lemma claimAttempt_inv: "queue_inv s \<Longrightarrow> queue_inv (snd (claimAttempt w s))"
  by (rule attempts_from_tags)
     (use claimAttempt_lane(1)[of s w] claimAttempt_lane(2)[of s attempt_tag w] command_tags(2)[of cmd_attemptId] in
       \<open>simp_all add: frame_simps queue_inv_def\<close>)

lemma ackAttempt_inv: "queue_inv s \<Longrightarrow> queue_inv (snd (ackAttempt c s))"
proof (cases "attempt_token s (claim_id c) = Some (claim_leaseToken c)")
  case True
  assume inv: "queue_inv s"
  then have ok: "attempt_ok s" by (simp add: queue_inv_def)
  obtain e where e: "map_get (claimedAttemptCommands s) (claim_id c) = Some e" using True by auto
  show ?thesis
  proof (rule attempts_from_tags[OF inv])
    show "attempt_ok (snd (ackAttempt c s))" using ackAttempt_held(2)[OF ok True] .
    show "lane_tags attempt_tag (attemptCommands (snd (ackAttempt c s))) (claimedAttemptCommands (snd (ackAttempt c s)))
        \<subseteq># lane_tags attempt_tag (attemptCommands s) (claimedAttemptCommands s)"
      using lane_tags_ack[OF lane_wf[OF ok[unfolded attempt_ok_def]] e, of attempt_tag "attemptCommands s"] True
      by (simp add: ackAttempt_def matchesClaim_def)
  qed (simp_all add: frame_simps ackAttempt_def)
next
  case False
  assume "queue_inv s"
  with stale_settlement(3)[OF False] show ?thesis by auto
qed

lemma releaseAttempt_inv: "queue_inv s \<Longrightarrow> queue_inv (releaseAttempt c ro s)"
proof (cases "attempt_token s (claim_id c) = Some (claim_leaseToken c)")
  case True
  assume inv: "queue_inv s"
  then have ok: "attempt_ok s" by (simp add: queue_inv_def)
  show ?thesis
    by (rule attempts_from_tags[OF inv])
       (use releaseAttempt_held[OF ok True, where f = attempt_tag and ro = ro] command_tags(2)[of cmd_attemptId] in
         \<open>simp_all add: frame_simps\<close>)
next
  case False
  assume "queue_inv s"
  with stale_settlement(4)[OF False] show ?thesis by simp
qed

lemma lane_touch:
  assumes ok: "lane_ok maxD n queue claimed" and c: "map_get claimed k = Some c"
  shows "lane_ok maxD n queue (map_set k (c\<lparr>ci_leaseExpiresAt := t\<rparr>) claimed)"
    and "lane_tags f queue (map_set k (c\<lparr>ci_leaseExpiresAt := t\<rparr>) claimed) = lane_tags f queue claimed"
proof -
  have keys: "map fst (map_set k v m) = map fst m" if "map_get m k = Some w" for v w and m :: "(string \<times> 'z) list"
    using that by (induction m) (auto split: if_splits)
  have "claim_ok maxD n k (c\<lparr>ci_leaseExpiresAt := t\<rparr>)"
    using lane_claims[OF ok map_of_SomeD[OF c]] by (simp add: claim_ok_def)
  with ok in_set_map_set[of _ _ k "c\<lparr>ci_leaseExpiresAt := t\<rparr>" claimed]
  show "lane_ok maxD n queue (map_set k (c\<lparr>ci_leaseExpiresAt := t\<rparr>) claimed)"
    unfolding lane_ok_def keys[OF c] by blast
  have "map (\<lambda>(k, c). f (ci_item c)) (map_set k (c\<lparr>ci_leaseExpiresAt := t\<rparr>) claimed) = map (\<lambda>(k, c). f (ci_item c)) claimed"
    using c by (induction claimed) (auto split: if_splits)
  then show "lane_tags f queue (map_set k (c\<lparr>ci_leaseExpiresAt := t\<rparr>) claimed) = lane_tags f queue claimed"
    unfolding lane_tags_def by (metis mset_map)
qed

lemma heartbeat_inv: "queue_inv s \<Longrightarrow> queue_inv (snd (heartbeat c ms s))"
proof -
  assume inv: "queue_inv s"
  then have lane: "lane_ok (maxDeliveries s) (nextId s) (attemptCommands s) (claimedAttemptCommands s)"
    by (simp add: queue_inv_def attempt_ok_def)
  show ?thesis
  proof (cases "map_get (claimedAttemptCommands s) (claim_id c)")
    case (Some e)
    show ?thesis
      by (rule attempts_from_tags[OF inv])
         (use lane_touch(1)[OF lane Some] lane_touch(2)[OF lane Some, of attempt_tag] lane Some in
           \<open>auto simp: frame_simps heartbeat_def prim_simps attempt_ok_def split: option.split\<close>)
  qed (use inv in \<open>simp add: heartbeat_def\<close>)
qed

lemma lane_tags_filter: "lane_tags f (filter P queue) (filter Q claimed) \<subseteq># lane_tags f queue claimed"
  by (simp add: lane_tags_def mset_filter image_mset_subseteq_mono subset_mset.add_mono)

lemma filter_inv:
  assumes inv: "queue_inv s" and "later s s'"
    and "continueRunCommands s' = filter Pa (continueRunCommands s)"
    and "claimedContinueRunCommands s' = filter Pb (claimedContinueRunCommands s)"
    and "attemptCommands s' = filter Pc (attemptCommands s)"
    and "claimedAttemptCommands s' = filter Pd (claimedAttemptCommands s)"
  shows "queue_inv s'"
proof -
  have later: "maxDeliveries s' = maxDeliveries s" "nextId s \<le> nextId s'" using assms(2) by (simp_all add: later_def)
  have "continue_ok s'"
    using inv assms(3,4) later by (auto simp: queue_inv_def continue_ok_def intro: lane_ok_mono lane_filter)
  moreover have "attempt_ok s'"
    using inv assms(5,6) later by (auto simp: queue_inv_def attempt_ok_def intro: lane_ok_mono lane_filter)
  moreover have "single_dispatch s'"
    using inv mset_subset_eq_count[OF lane_tags_filter[of attempt_tag Pc "attemptCommands s" Pd "claimedAttemptCommands s"]]
      assms(5,6) by (auto simp: queue_inv_def single_dispatch_def intro: order_trans)
  ultimately show ?thesis by (simp add: queue_inv_def)
qed

lemma deleteUnclaimed_inv: "queue_inv s \<Longrightarrow> queue_inv (snd (deleteUnclaimed i s))"
  by (rule filter_inv[where Pa = "\<lambda>_. True" and Pb = "\<lambda>_. True" and Pd = "\<lambda>_. True"])
     (simp_all add: frame_simps deleteUnclaimed_def)

lemma deleteRunTrees_inv: "queue_inv s \<Longrightarrow> queue_inv (deleteRunTrees ids s)"
  by (rule filter_inv[OF _ deletion_later(1), where Pa = "\<lambda>item. cont_runId (qi_payload item) \<notin> set ids"
        and Pb = "\<lambda>(k, c). cont_runId (qi_payload (ci_item c)) \<notin> set ids"
        and Pc = "\<lambda>item. cmd_runId (qi_payload item) \<notin> set ids"
        and Pd = "\<lambda>(k, c). cmd_runId (qi_payload (ci_item c)) \<notin> set ids"])
     (simp_all add: deleteRunTrees_def deleteQueueItemsForRunIds_def
        deleteClaimedCommandsForRunIds_def case_prod_beta)

lemma sweepDeadCommands_inv: "queue_inv s \<Longrightarrow> queue_inv (sweepDeadCommands t s)"
  by (rule filter_inv[of s, where Pb = "\<lambda>_. True" and Pd = "\<lambda>_. True"
        and Pa = "\<lambda>item. case qi_deadAt item of None \<Rightarrow> True | Some u \<Rightarrow> \<not> u < t"
        and Pc = "\<lambda>item. case qi_deadAt item of None \<Rightarrow> True | Some u \<Rightarrow> \<not> u < t"])
     (simp_all add: sweep_frames, simp_all add: sweepDeadCommands_def sweepDeadQueueItems_def)

lemma lane_tags_replace:
  "i < length queue \<Longrightarrow> f item = f (queue ! i) \<Longrightarrow> lane_tags f (queue[i := item]) claimed = lane_tags f queue claimed"
proof -
  assume "i < length queue" "f item = f (queue ! i)"
  then have "map f (queue[i := item]) = map f queue" by (simp add: list_eq_iff_nth_eq nth_list_update)
  then show ?thesis unfolding lane_tags_def by (metis mset_map)
qed

lemma replace_continue_inv:
  assumes inv: "queue_inv s" and "later s t" "queue_view t = queue_view s" and i: "i < length (continueRunCommands s)"
    and item: "qi_id item = qi_id (continueRunCommands s ! i)" "item_ok (maxDeliveries s) (nextId s) item"
  shows "queue_inv (t\<lparr>continueRunCommands := (continueRunCommands s)[i := item]\<rparr>)"
proof -
  have lane: "lane_ok (maxDeliveries s) (nextId s) (continueRunCommands s) (claimedContinueRunCommands s)"
    using inv by (simp add: queue_inv_def continue_ok_def)
  show ?thesis
    by (rule queue_inv_lanes[OF inv])
       (use lane_ok_mono[OF lane_replace[OF lane i item], of "nextId t"] assms(2,3) in
         \<open>simp_all add: queue_view_def later_def\<close>)
qed

lemma replace_attempt_inv:
  assumes inv: "queue_inv s" and "later s t" "queue_view t = queue_view s" and i: "i < length (attemptCommands s)"
    and item: "qi_id item = qi_id (attemptCommands s ! i)" "item_ok (maxDeliveries s) (nextId s) item"
      "attempt_tag item = attempt_tag (attemptCommands s ! i)"
  shows "queue_inv (t\<lparr>attemptCommands := (attemptCommands s)[i := item]\<rparr>)"
proof -
  have lane: "lane_ok (maxDeliveries s) (nextId s) (attemptCommands s) (claimedAttemptCommands s)"
    using inv by (simp add: queue_inv_def attempt_ok_def)
  show ?thesis
    by (rule attempts_from_tags[OF inv])
       (use lane_ok_mono[OF lane_replace[OF lane i item(1,2)], of "nextId t"] assms(2,3)
          lane_tags_replace[where f = attempt_tag, OF i item(3)] in
         \<open>simp_all add: queue_view_def later_def attempt_ok_def\<close>)
qed

lemma lanes_items_ok:
  assumes "queue_inv s"
  shows "i < length (continueRunCommands s) \<Longrightarrow> item_ok (maxDeliveries s) (nextId s) (continueRunCommands s ! i)"
    and "j < length (attemptCommands s) \<Longrightarrow> item_ok (maxDeliveries s) (nextId s) (attemptCommands s ! j)"
  using assms by (auto simp: queue_inv_def continue_ok_def attempt_ok_def intro: lane_items)

lemma markDeadCommandReaped_inv: "queue_inv s \<Longrightarrow> queue_inv (markDeadCommandReaped i s)"
  using lanes_items_ok[of s]
  by (auto simp: markDeadCommandReaped_def mark_reaped_def prim_simps unreaped_def item_ok_def
        dest!: find_index_Some split: option.splits intro!: replace_continue_inv replace_attempt_inv)

lemma requeueDeadCommand_inv: "queue_inv s \<Longrightarrow> queue_inv (requeueDeadCommand i s)"
  using lanes_items_ok[of s] replace_continue_inv[of s s] replace_attempt_inv[of s s]
  by (auto simp: requeueDeadCommand_def requeueDead_def Let_def item_ok_def
        dest!: find_index_Some split: option.splits)

interpretation queue_invariant: runtime_invariant queue_inv
proof
  show "queue_inv (createInMemoryWorkflowRuntime h n)" for h n
    by (simp add: queue_inv_def continue_ok_def attempt_ok_def single_dispatch_def lane_ok_def lane_tags_def
          createInMemoryWorkflowRuntime_def)
next
  fix s s'
  assume inv: "queue_inv s" and "work_step s s'"
  from this(2) show "queue_inv s'"
    by (cases rule: work_step.cases)
       (simp_all add: inv enqueueContinue_inv claimContinue_inv ackContinue_inv releaseContinue_inv
          dispatchActivity_def dispatchTask_def dispatchAttempt_inv claimAttempt_inv heartbeat_inv ackAttempt_inv
          releaseAttempt_inv deleteUnclaimed_inv markDeadCommandReaped_inv requeueDeadCommand_inv
          queue_inv_frame[OF inv] frame_simps later_now calm_steps)
next
  fix s s'
  assume inv: "queue_inv s" and "delete_step s s'"
  from this(2) show "queue_inv s'"
    by (cases rule: delete_step_cases) (simp_all add: inv deleteRunTrees_inv sweepDeadCommands_inv)
qed

end
