(* ===== verification/QueueProperties.thy ===== *)
theory QueueProperties
  imports QueueSafety Samples
begin

text \<open>
  The guarantees of the command queues: claims are exclusive while their lease lasts,
  commands are neither lost nor duplicated, a settlement is accepted once and from the
  current holder only, failing commands are dead-lettered, due commands are delivered.
\<close>

section \<open>Claiming\<close>

text \<open>
  \<open>claimQueued\<close> with a comparison takes out the least live item that matches and leaves
  every other item in the queue; it returns nothing exactly when no live item matches.
\<close>

theorem claimQueued_takes_least:
  assumes "comparator cmp"
  shows "case claimQueued queue matches (Some cmp) of
      (None, rest) \<Rightarrow> rest = queue \<and> (\<forall>x. x \<in> set queue \<longrightarrow> \<not> live matches x)
    | (Some item, rest) \<Rightarrow> live matches item \<and> mset queue = add_mset item (mset rest)
        \<and> (\<forall>x. x \<in> set queue \<longrightarrow> live matches x \<longrightarrow> cmp item x \<le> 0)"
proof -
  obtain found rest where res: "claimQueued queue matches (Some cmp) = (found, rest)" by fastforce
  show ?thesis
  proof (cases found)
    case None
    with res claimQueued_None[of queue matches "Some cmp" rest] show ?thesis by simp
  next
    case (Some item)
    note found = claimQueued_Some[OF res[unfolded Some]]
    show ?thesis unfolding res Some using found(2,3) found(4)[OF refl assms] by simp
  qed
qed

lemma compareAttemptCommands_order: "comparator (localeCompare h) \<Longrightarrow> comparator (compareAttemptCommands h)"
  unfolding compareAttemptCommands_def
  by (intro comparator_then comparator_difference) (rule comparator_vimage)

definition queued :: "string \<Rightarrow> int \<Rightarrow> nat QueueItem" where
  "queued i t = \<lparr>qi_id = i, qi_payload = 0, qi_runAt = None, qi_deliveryCount = 0, qi_lastError = None,
     qi_deadAt = None, qi_reapedAt = None, qi_createdAt = t\<rparr>"

theorem claimQueued_takes_least_witness:
  "comparator (compareAttemptCommands sample_host :: nat QueueItem \<Rightarrow> nat QueueItem \<Rightarrow> int)
   \<and> claimQueued [queued ''a'' 9, queued ''b'' 4] (\<lambda>_. True) (Some (compareAttemptCommands sample_host))
       = (Some (queued ''b'' 4), [queued ''a'' 9])"
proof -
  have cmp: "comparator (compareAttemptCommands sample_host :: nat QueueItem \<Rightarrow> nat QueueItem \<Rightarrow> int)"
    by (rule compareAttemptCommands_order) (simp add: rank_order.comparator_axioms)
  have "claimQueued [queued ''a'' 9, queued ''b'' 4] (\<lambda>_. True) (Some (compareAttemptCommands sample_host))
      = (Some (queued ''b'' 4), [queued ''a'' 9])"
    using claimQueued_takes_least[OF cmp, of "[queued ''a'' 9, queued ''b'' 4]" "\<lambda>_. True"]
    by (simp add: claimQueued_def best_index_def live_def queued_def compareAttemptCommands_def compare_then_def splice_out_def
          upt_rec)
  with cmp show ?thesis by simp
qed

text \<open>
  C9: a claimed attempt command is one the worker can execute. The claim loses no command
  and makes none up; its holder can acknowledge it, which takes out exactly this
  command, and a second acknowledgement is refused without effect.
\<close>

theorem claimed_attempt_is_settled_once:
  assumes "reachable s" and "claimAttempt w s = (Some c, s')"
  shows "attemptEligible w (claim_command c) \<and> attempt_cmd_ids s' = attempt_cmd_ids s
    \<and> (\<exists>t e. ackAttempt c s' = (Inr (), t) \<and> attempt_cmd_ids s = add_mset (claim_id c) (attempt_cmd_ids t)
             \<and> ackAttempt c t = (Inl e, t))"
proof -
  have ok: "attempt_ok s" using queue_invariant.holds[OF assms(1)] by (simp add: queue_inv_def)
  have eligible: "attemptEligible w (claim_command c)"
    using ok by (cases rule: claimAttempt_cases[where w = w]) (use assms(2) in auto)
  have ok': "attempt_ok s'" and kept: "attempt_cmd_ids s' = attempt_cmd_ids s"
    using attempt_queue.claim_keeps[OF ok, of w] assms(2) by simp_all
  obtain t where ack: "ackAttempt c s' = (Inr (), t)"
    using attempt_queue.claim_then_ack[OF ok assms(2)] by blast
  note removed = attempt_queue.ack_removes[OF ok' ack]
  obtain e where "ackAttempt c t = (Inl e, t)" using attempt_queue.ack_once[OF ok' ack] by blast
  with eligible kept ack removed show ?thesis by auto
qed

definition sample_claim :: "AttemptCommand Claim" where
  "sample_claim = \<lparr>claim_id = ''activity-command-4'', claim_command = charge_command, claim_leaseToken = ''attempt-claim-lease-5''\<rparr>"

lemma sample_claim_result: "claimAttempt sample_worker one_command = (Some sample_claim, one_claim)"
  by (simp add: sample_claim_def sample_defs sample_eval)

theorem claimed_attempt_is_settled_once_witness:
  "claimAttempt sample_worker one_command = (Some sample_claim, one_claim)
   \<and> (\<exists>t e. ackAttempt sample_claim one_claim = (Inr (), t) \<and> ackAttempt sample_claim t = (Inl e, t))"
  using claimed_attempt_is_settled_once[OF reachable_one_command sample_claim_result] sample_claim_result by blast

text \<open>
  A claim is exclusive while its lease lasts: no claim of any worker takes over a
  command whose lease has not expired, and the holder keeps its lease token.
\<close>

theorem live_claim_is_exclusive:
  assumes "reachable s" and "map_get (claimedAttemptCommands s) i = Some held"
    and "fst (now s) < ci_leaseExpiresAt held"
  shows "map_get (claimedAttemptCommands (snd (claimAttempt w s))) i = Some held
    \<and> (\<forall>c. fst (claimAttempt w s) = Some c \<longrightarrow> claim_id c \<noteq> i)"
proof -
  have ok: "attempt_ok s" using queue_invariant.holds[OF assms(1)] by (simp add: queue_inv_def)
  note lane = ok[unfolded attempt_ok_def]
  from ok show ?thesis
  proof (cases rule: claimAttempt_cases[where w = w])
    case (none cl q s1)
    have "map_get cl i = Some held" using reclaim_lane(3)[OF lane none(1), of i] assms(2,3) by simp
    with none show ?thesis by simp
  next
    case (some cl q s1 item rest ci)
    have held: "map_get cl i = Some held" using reclaim_lane(3)[OF lane some(1), of i] assms(2,3) by simp
    have "map_get cl (qi_id item) = None"
      by (rule lane_take(3)[OF reclaim_lane(1)[OF lane some(1)] some(2,3), of "Suc (nextId s1)" ci]) (use some in simp_all)
    with held have "qi_id item \<noteq> i" by auto
    with some held show ?thesis by auto
  qed
qed

theorem live_claim_is_exclusive_witness:
  "\<exists>held. map_get (claimedAttemptCommands one_claim) ''activity-command-4'' = Some held
     \<and> map_get (claimedAttemptCommands (snd (claimAttempt sample_worker one_claim))) ''activity-command-4'' = Some held"
proof -
  obtain held where held: "map_get (claimedAttemptCommands one_claim) ''activity-command-4'' = Some held"
    "fst (now one_claim) < ci_leaseExpiresAt held"
    by (simp add: sample_defs sample_eval)
  with live_claim_is_exclusive[OF reachable_one_claim held] show ?thesis by blast
qed

section \<open>Lost leases\<close>

text \<open>
  Once a command was handed out again, its previous holder is fenced off: its
  acknowledgement and its heartbeat are refused, its release is ignored, and none of them
  changes the state.
\<close>

theorem redelivery_fences_old_holder:
  assumes "reachable s" and "attempt_token s (claim_id old) = Some (claim_leaseToken old)"
    and "claimAttempt w s = (Some c, s')" and "claim_id c = claim_id old"
  shows "ackAttempt old s' = throw ''Stale workflow command ack'' s' \<and> releaseAttempt old ro s' = s'
    \<and> heartbeat old ms s' = throw ''Workflow attempt heartbeat lease lost'' s'"
proof -
  have ok: "attempt_ok s" using queue_invariant.holds[OF assms(1)] by (simp add: queue_inv_def)
  have "attempt_token s' (claim_id old) = Some (claim_leaseToken c)" "\<not> issued (nextId s) (claim_leaseToken c)"
    using attempt_queue.claim_gives[OF ok, of w c] assms(3,4) by simp_all
  moreover have "issued (nextId s) (claim_leaseToken old)"
    using attempt_queue.token_issued[OF ok assms(2)] by simp
  ultimately have stale: "attempt_token s' (claim_id old) \<noteq> Some (claim_leaseToken old)" by auto
  have "heartbeat old ms s' = throw ''Workflow attempt heartbeat lease lost'' s'"
    using stale by (auto simp: heartbeat_def matchesClaim_def split: option.split)
  moreover have "ackAttempt old s' = throw ''Stale workflow command ack'' s'"
    using stale by (auto simp: ackAttempt_def matchesClaim_def)
  ultimately show ?thesis using attempt_queue.release_stale[OF stale] by simp
qed

text \<open>The lease of the first claim runs out while the clock is read six times.\<close>

definition tick :: "runtime \<Rightarrow> runtime" where
  "tick s = snd (now s)"

definition late_runtime :: runtime where
  "late_runtime = tick (tick (tick (tick (tick (tick one_claim)))))"

lemma reachable_late: "reachable late_runtime"
  unfolding late_runtime_def tick_def by (intro reachable_work[OF _ clock_now] reachable_one_claim)

theorem redelivery_fences_old_holder_witness:
  "\<exists>c s'. claimAttempt sample_worker late_runtime = (Some c, s') \<and> claim_id c = claim_id sample_claim
     \<and> claim_leaseToken c = ''attempt-claim-lease-6''
     \<and> ackAttempt sample_claim s' = throw ''Stale workflow command ack'' s'"
proof -
  have late: "attempt_token late_runtime (claim_id sample_claim) = Some (claim_leaseToken sample_claim)"
    by (simp add: late_runtime_def tick_def sample_claim_def sample_defs sample_eval)
  obtain c s' where c: "claimAttempt sample_worker late_runtime = (Some c, s')" "claim_id c = claim_id sample_claim"
      "claim_leaseToken c = ''attempt-claim-lease-6''"
    by (simp add: late_runtime_def tick_def sample_claim_def sample_defs sample_eval reclaim_step_def countFailedDelivery_def)
  from redelivery_fences_old_holder[OF reachable_late late c(1,2)] c show ?thesis by blast
qed

section \<open>Failing and waiting commands\<close>

text \<open>
  C10: deliveries are bounded. A command that is not dead has at least one delivery left
  (or was never counted), a dead one has used them all and carries the error of its
  last delivery; dead commands are never held by a worker.
\<close>

theorem deliveries_are_bounded:
  assumes "reachable s"
  shows "(\<forall>item. item \<in> set (attemptCommands s) \<longrightarrow>
       (case qi_deadAt item of
          None \<Rightarrow> qi_deliveryCount item = 0 \<or> int (qi_deliveryCount item) < maxDeliveries s
        | Some t \<Rightarrow> maxDeliveries s \<le> int (qi_deliveryCount item) \<and> qi_lastError item \<noteq> None))
    \<and> (\<forall>k held. map_get (claimedAttemptCommands s) k = Some held \<longrightarrow>
         k = qi_id (ci_item held) \<and> qi_deadAt (ci_item held) = None
         \<and> (qi_deliveryCount (ci_item held) = 0 \<or> int (qi_deliveryCount (ci_item held)) < maxDeliveries s))"
proof -
  have lane: "lane_ok (maxDeliveries s) (nextId s) (attemptCommands s) (claimedAttemptCommands s)"
    using queue_invariant.holds[OF assms] by (simp add: queue_inv_def attempt_ok_def)
  show ?thesis
    using lane_items[OF lane] lane_claims[OF lane map_of_SomeD]
    by (auto simp: item_ok_def claim_ok_def split: option.split)
qed

theorem deliveries_are_bounded_witness:
  "\<exists>held. map_get (claimedAttemptCommands one_claim) ''activity-command-4'' = Some held
     \<and> (qi_deliveryCount (ci_item held) = 0 \<or> int (qi_deliveryCount (ci_item held)) < 3)"
proof -
  obtain held where held: "map_get (claimedAttemptCommands one_claim) ''activity-command-4'' = Some held"
    by (simp add: sample_defs sample_eval)
  have "maxDeliveries one_claim = 3" by (simp add: sample_defs sample_eval)
  with conjunct2[OF deliveries_are_bounded[OF reachable_one_claim], rule_format, OF held] held show ?thesis by simp
qed

text \<open>
  A release without error or reason returns the command after the short backoff and
  counts nothing; a failing or unroutable release counts one delivery, stores the error,
  is delayed by an exponential backoff of at most five minutes, and kills the command
  exactly when it has used up its deliveries.
\<close>

theorem release_backoff:
  "let (item', s') = releaseQueueItem item ro s;
       base = (if ro_unroutable ro then 1000 else 50)
   in qi_id item' = qi_id item \<and> qi_payload item' = qi_payload item
      \<and> (if (ro_error ro = None \<or> ro_error ro = Some (Plain JUndefined)) \<and> \<not> ro_unroutable ro
         then qi_deliveryCount item' = qi_deliveryCount item \<and> qi_deadAt item' = qi_deadAt item
              \<and> qi_runAt item' = Some (clock (rt_host s) (ticks s) + 50)
         else qi_deliveryCount item' = qi_deliveryCount item + 1 \<and> qi_lastError item' \<noteq> None
              \<and> (qi_deadAt item = None \<longrightarrow>
                   (qi_deadAt item' \<noteq> None \<longleftrightarrow> maxDeliveries s \<le> int (qi_deliveryCount item + 1)))
              \<and> (\<exists>t. qi_runAt item' = Some (t + min (2 ^ (qi_deliveryCount item + 1) * base) 300000)))"
  by (auto simp: releaseQueueItem_def countFailedDelivery_def Date_now_def now_eq Let_def
        RELEASE_BACKOFF_MS_def UNROUTABLE_BACKOFF_MS_def MAX_ERROR_BACKOFF_MS_def)

theorem release_backoff_witness:
  "qi_runAt (fst (releaseQueueItem (queued ''a'' 9) \<lparr>ro_error = None, ro_unroutable = True\<rparr> empty_runtime)) = Some 3000
   \<and> qi_deliveryCount (fst (releaseQueueItem (queued ''a'' 9) \<lparr>ro_error = None, ro_unroutable = True\<rparr> empty_runtime)) = 1"
  using release_backoff[of "queued ''a'' 9" "\<lparr>ro_error = None, ro_unroutable = True\<rparr>" empty_runtime]
  by (simp add: releaseQueueItem_def countFailedDelivery_def Let_def case_prod_beta queued_def sample_defs sample_eval
        UNROUTABLE_BACKOFF_MS_def MAX_ERROR_BACKOFF_MS_def)

lemma reclaim_step_appends:
  "\<exists>xs. fst (snd (reclaim_step el d e acc)) = fst (snd acc) @ xs"
  by (cases acc; cases e) (simp add: reclaim_step_def Let_def case_prod_beta)

lemma reclaim_appends:
  assumes "reclaimExpiredLeases claimed queue el s = (cl, q, s1)"
  shows "\<exists>xs. q = queue @ xs"
proof -
  have "\<exists>xs. fst (snd (fold (reclaim_step el d) es acc)) = fst (snd acc) @ xs" for d es acc
  proof (induction es arbitrary: acc)
    case (Cons e es)
    from Cons[of "reclaim_step el d e acc"] reclaim_step_appends[of el d e acc] show ?case by auto
  qed simp
  from this[of "fst (now s)" claimed "(claimed, queue, snd (now s))"] assms show ?thesis
    by (simp add: reclaimExpiredLeases_def case_prod_beta)
qed

text \<open>
  C11: a due command is delivered: when some queued command is live, due and executable
  by the worker, a claim hands one out.
\<close>

theorem due_command_is_delivered:
  assumes "item \<in> set (attemptCommands s)" and "qi_deadAt item = None" and "due_at (lastTimestamp s) item"
    and "attemptEligible w (qi_payload item)"
  shows "\<exists>c. fst (claimAttempt w s) = Some c \<and> attemptEligible w (claim_command c)"
proof -
  obtain cl q s1 where rec: "reclaimExpiredLeases (claimedAttemptCommands s) (attemptCommands s) (attemptEligible w) s = (cl, q, s1)"
    by (metis prod_cases3)
  let ?s2 = "s1\<lparr>claimedAttemptCommands := cl, attemptCommands := q\<rparr>"
  have "lastTimestamp s \<le> lastTimestamp s1"
    using calm_reclaim[of s "claimedAttemptCommands s" "attemptCommands s" "attemptEligible w"] rec by (simp add: calm_def later_def)
  then have "lastTimestamp s \<le> fst (now ?s2)" using now_advances[of ?s2] by simp
  with assms(3) have due: "due_at (fst (now ?s2)) item" by (auto simp: due_at_def split: option.splits)
  let ?P = "\<lambda>queued. due_at (fst (now ?s2)) queued \<and> attemptEligible w (qi_payload queued)"
  let ?cmp = "Some (compareAttemptCommands (rt_host ?s2))"
  have "item \<in> set q" using reclaim_appends[OF rec] assms(1) by auto
  with due assms(2,4) have "\<not> (\<forall>x \<in> set q. \<not> live ?P x)" by (auto simp: live_def)
  moreover obtain res rest where res: "claimQueued q ?P ?cmp = (res, rest)" by fastforce
  ultimately have "res \<noteq> None"
  proof (intro notI)
    assume some: "\<not> (\<forall>x \<in> set q. \<not> live ?P x)" and "res = None"
    with res have "claimQueued q ?P ?cmp = (None, rest)" by simp
    from claimQueued_None[OF this] some show False by (elim conjE notE)
  qed
  then obtain found where found: "claimQueued q ?P ?cmp = (Some found, rest)" using res by blast
  have "attemptEligible w (qi_payload found)" using claimQueued_Some(2)[OF found] by (simp add: live_def)
  with found show ?thesis by (simp add: claimAttempt_def rec Let_def case_prod_beta)
qed

theorem due_command_is_delivered_witness:
  "\<exists>c. fst (claimAttempt sample_worker one_command) = Some c"
proof -
  obtain item where "item \<in> set (attemptCommands one_command)" "qi_deadAt item = None"
    "due_at (lastTimestamp one_command) item" "attemptEligible sample_worker (qi_payload item)"
    by (simp add: sample_defs sample_eval)
  from due_command_is_delivered[OF this] show ?thesis by blast
qed

text \<open>
  C12: an attempt has at most one command among the queued and the claimed ones, however
  often it is dispatched, claimed, released or requeued.
\<close>

theorem attempt_is_dispatched_once:
  assumes "reachable s"
  shows "size (filter_mset (\<lambda>item. cmd_attemptId (qi_payload item) = a)
           (mset (attemptCommands s) + mset (map ci_item (map_values (claimedAttemptCommands s))))) \<le> 1"
proof -
  have "single_dispatch s" using queue_invariant.holds[OF assms] by (simp add: queue_inv_def)
  then have "count (lane_tags attempt_tag (attemptCommands s) (claimedAttemptCommands s)) a \<le> 1"
    by (simp add: single_dispatch_def)
  moreover have "lane_tags attempt_tag (attemptCommands s) (claimedAttemptCommands s)
      = image_mset attempt_tag (mset (attemptCommands s) + mset (map ci_item (map_values (claimedAttemptCommands s))))"
    by (simp add: lane_tags_def image_mset.compositionality o_def case_prod_unfold)
  ultimately show ?thesis by (simp add: count_conv_size_mset filter_mset_image_mset)
qed

theorem attempt_is_dispatched_once_witness:
  "dispatchActivity charge_command None one_claim = one_claim
   \<and> size (filter_mset (\<lambda>item. cmd_attemptId (qi_payload item) = ''attempt-2'')
        (mset (attemptCommands one_claim) + mset (map ci_item (map_values (claimedAttemptCommands one_claim))))) \<le> 1"
proof -
  have "dispatchActivity charge_command None one_claim = one_claim"
    by (simp add: sample_defs sample_eval)
  with attempt_is_dispatched_once[OF reachable_one_claim] show ?thesis by blast
qed

end
