(* ===== verification/Leases.thy ===== *)
theory Leases
  imports RunSafety Samples
begin

text \<open>
  Run leases (\<open>acquireRunLease\<close>, \<open>renewRunLease\<close>, \<open>releaseRunLease\<close> of \<open>runtime/in-memory.ts\<close>):
  which coordinator may advance a run. Tokens are never issued twice, so a lease that
  was lost is lost for good.
\<close>

section \<open>What every other operation does to the leases: nothing\<close>

named_theorems lease_frames

lemma run_status_leases [lease_frames]:
  "runLeases (snd (markRunRunning i s)) = runLeases s" "runLeases (snd (markRunWaiting i s)) = runLeases s"
  "runLeases (snd (completeRun i out s)) = runLeases s" "runLeases (snd (failRun i err s)) = runLeases s"
  "runLeases (snd (requestRunCancellation i s)) = runLeases s" "runLeases (snd (cancelRun i s)) = runLeases s"
  by (simp_all add: run_status_defs effect_simps split: option.split)

lemma createRun_leases [lease_frames]: "runLeases (snd (createRunWithState input s)) = runLeases s"
  unfolding createRunWithState_def
  by (simp add: prim_simps registerRun_def split: option.split RunUniqueBehavior.split RunUniqueScope.split)

lemma node_leases [lease_frames]:
  "runLeases (snd (createNode i n k s)) = runLeases s" "runLeases (snd (setNodeInput i n v s)) = runLeases s"
  "runLeases (snd (selectNodeCase i n c s)) = runLeases s" "runLeases (snd (completeNode i n v s)) = runLeases s"
  "runLeases (snd (failNode i n e s)) = runLeases s" "runLeases (snd (cancelNode i n s)) = runLeases s"
  "runLeases (snd (waitNode i n s)) = runLeases s" "runLeases (snd (completeNodeChild i n c v s)) = runLeases s"
  "runLeases (snd (failNodeChild i n c e s)) = runLeases s"
  by (simp_all add: node_status_defs child_status_defs effect_simps split: option.split)

lemma fold_leases: "(\<And>x s. runLeases (g (f x s)) = runLeases (g s)) \<Longrightarrow> runLeases (g (fold f xs s)) = runLeases (g s)"
  by (induction xs arbitrary: s) auto

lemma cancel_steps_leases:
  "runLeases (snd (cancel_node_step i n acc)) = runLeases (snd acc)" "runLeases (cancel_child_step i c s) = runLeases s"
  by (cases acc; simp add: cancel_node_step_def effect_simps) (simp add: cancel_child_step_def effect_simps)

lemma cancel_leases [lease_frames]: "runLeases (snd (cancelNonTerminalRunNodes i s)) = runLeases s"
  using fold_leases[where f = "cancel_node_step i" and g = snd and xs = "map_values (nodes s)" and s = "([], s)"]
  by (simp add: cancelNonTerminalRunNodes_def Let_def case_prod_beta cancel_steps_leases
        fold_leases[where f = "cancel_child_step i" and g = "\<lambda>s. s"])

lemma child_leases [lease_frames]:
  "runLeases (snd (ensureNodeChildren i n cs s)) = runLeases s"
  "runLeases (mirrorNodeRunning i n s) = runLeases s" "runLeases (snd (insertChildAttempt c v k s)) = runLeases s"
  by (simp_all add: ensureNodeChildren_def mirrorNodeRunning_def insertChildAttempt_def prim_simps split: option.split)

lemma attempt_leases [lease_frames]:
  "runLeases (snd (createAttempt ca s)) = runLeases s" "runLeases (snd (ensureChildAttempt ca s)) = runLeases s"
  "runLeases (snd (completeCurrentAttempt a l v s)) = runLeases s" "runLeases (snd (failCurrentAttempt a l e s)) = runLeases s"
  "runLeases (snd (timeoutCurrentAttempt a l e s)) = runLeases s"
  by (simp_all add: createAttempt_def ensureChildAttempt_def createChildAttempt_def attempt_status_defs lease_frames prim_simps
        split: option.split)

lemma ensureChildRun_leases [lease_frames]: "runLeases (snd (ensureChildRun p s)) = runLeases s"
  using createRun_leases[of "childRunInput p" s]
  by (auto simp: ensureChildRun_def effect_simps case_prod_beta split: option.split sum.split prod.split)

lemma calm_leases: "calm s s' \<Longrightarrow> runLeases s' = runLeases s"
  by (simp add: calm_def)

lemmas calm_lease_frames =
  calm_leases[OF calm_queueItem] calm_leases[OF calm_wakeCommand] calm_leases[OF calm_countFailedDelivery]
  calm_leases[OF calm_releaseQueueItem] calm_leases[OF calm_reclaim] calm_leases[OF calm_prims(3)]
  calm_leases[OF subscribe_frames(1)] calm_leases[OF subscribe_frames(2)] calm_leases[OF subscribe_frames(3)]
  calm_leases[OF subscribe_frames(4)]

lemma executor_leases [lease_frames]:
  "runLeases (enqueueContinue c r s) = runLeases s" "runLeases (snd (claimContinue w s)) = runLeases s"
  "runLeases (snd (ackContinue cl s)) = runLeases s" "runLeases (releaseContinue cl ro s) = runLeases s"
  "runLeases (dispatchAttempt p k ac r s) = runLeases s" "runLeases (snd (claimAttempt ew s)) = runLeases s"
  "runLeases (snd (heartbeat acl ms s)) = runLeases s" "runLeases (snd (ackAttempt acl s)) = runLeases s"
  "runLeases (releaseAttempt acl ro s) = runLeases s" "runLeases (snd (deleteUnclaimed i s)) = runLeases s"
  "runLeases (markDeadCommandReaped i s) = runLeases s" "runLeases (requeueDeadCommand i s) = runLeases s"
  by (simp_all add: enqueueContinue_def claimContinue_def ackContinue_def releaseContinue_def dispatchAttempt_def
        claimAttempt_def heartbeat_def ackAttempt_def releaseAttempt_def deleteUnclaimed_def
        markDeadCommandReaped_def mark_reaped_def requeueDeadCommand_def prim_simps calm_lease_frames
        split: option.split)

section \<open>Tokens\<close>

abbreviation lease_token :: "runtime \<Rightarrow> string \<Rightarrow> string option" where
  "lease_token s i \<equiv> map_option lease_leaseToken (map_get (runLeases s) i)"

text \<open>A step keeps the token of a run, drops it, or replaces it by one never issued before.\<close>

definition tokens_advance :: "runtime \<Rightarrow> runtime \<Rightarrow> bool" where
  "tokens_advance s s' \<longleftrightarrow> (\<forall>i l. lease_token s' i = Some l \<longrightarrow>
     lease_token s i = Some l \<or> (\<exists>n. nextId s \<le> n \<and> n < nextId s' \<and> l = mk_id ''run-lease'' n))"

lemma tokens_advance_same: "runLeases s' = runLeases s \<Longrightarrow> tokens_advance s s'"
  by (simp add: tokens_advance_def)

lemma lease_op_tokens:
  "tokens_advance s (snd (acquireRunLease i ms s))" "tokens_advance s (snd (renewRunLease l ms s))"
  "tokens_advance s (releaseRunLease l s)"
  by (auto simp: acquireRunLease_def renewRunLease_def releaseRunLease_def tokens_advance_def effect_simps
        split: option.splits if_splits)

lemma work_step_tokens: "work_step s s' \<Longrightarrow> tokens_advance s s'"
  by (induction rule: work_step.induct)
     (simp_all add: lease_op_tokens tokens_advance_same lease_frames calm_lease_frames dispatchActivity_def dispatchTask_def)

lemma delete_tokens: "tokens_advance s (deleteRunTrees ids s)"
proof -
  have "map_get (filter (\<lambda>(k, v). k \<notin> set ids) m) i = (if i \<in> set ids then None else map_get m i)"
    for m :: "(string \<times> RunLease) list" and i
    by (induction m) auto
  then show ?thesis by (auto simp: tokens_advance_def deleteRunTrees_def split: if_splits)
qed

lemma delete_step_tokens: "delete_step s s' \<Longrightarrow> tokens_advance s s'"
  by (erule delete_step_cases)
     (use delete_tokens in \<open>auto simp: tokens_advance_same sweepDeadCommands_def, auto simp: tokens_advance_def\<close>)

lemma step_tokens: "step s s' \<Longrightarrow> tokens_advance s s'"
  by (auto simp: step_def work_step_tokens delete_step_tokens)

lemma tokens_advance_steps:
  assumes "step\<^sup>*\<^sup>* s t" and "lease_token t i = Some l"
  shows "lease_token s i = Some l \<or> (\<exists>n. nextId s \<le> n \<and> n < nextId t \<and> l = mk_id ''run-lease'' n)"
  using assms
proof (induction rule: rtranclp_induct)
  case (step t u)
  have later: "nextId s \<le> nextId t" "nextId t \<le> nextId u"
    using steps_later[OF step.hyps(1)] step_later[OF step.hyps(2)] by (simp_all add: later_def)
  from step_tokens[OF step.hyps(2)] step.prems
  consider "lease_token t i = Some l" | n where "nextId t \<le> n" "n < nextId u" "l = mk_id ''run-lease'' n"
    unfolding tokens_advance_def by blast
  then show ?case
  proof cases
    case 1
    with step.IH later show ?thesis by (meson less_le_trans)
  next
    case 2
    moreover have "nextId s \<le> n" using 2(1) later(1) by simp
    ultimately show ?thesis by blast
  qed
qed simp

lemma initial_leases: "runLeases (createInMemoryWorkflowRuntime h n) = []"
  by (simp add: createInMemoryWorkflowRuntime_def)

lemma lease_token_issued:
  assumes "reachable s" and "lease_token s i = Some l"
  shows "issued (nextId s) l"
proof -
  obtain h m where "step\<^sup>*\<^sup>* (createInMemoryWorkflowRuntime h m) s" using assms(1) by (auto simp: reachable_def)
  from tokens_advance_steps[OF this assms(2)] show ?thesis by (auto simp: initial_leases)
qed

section \<open>Properties\<close>

text \<open>
  A run lease is exclusive while it lasts: as long as a stored lease has not expired,
  acquiring the run fails and leaves the lease in place.
\<close>

theorem run_lease_is_exclusive:
  assumes "map_get (runLeases s) i = Some l" and "fst (now s) < lease_expiresAt l"
  shows "fst (acquireRunLease i ms s) = None \<and> runLeases (snd (acquireRunLease i ms s)) = runLeases s"
  using assms by (simp add: acquireRunLease_def prim_simps)

definition leased_run :: "RunLease option \<times> runtime" where
  "leased_run = acquireRunLease ''run-1'' 10 one_run"

lemma leased_run_eval:
  obtains l where "fst leased_run = Some l" "map_get (runLeases (snd leased_run)) ''run-1'' = Some l"
    "lease_leaseToken l = ''run-lease-2''" "fst (now (snd leased_run)) < lease_expiresAt l" "lease_runId l = ''run-1''"
  by (simp add: leased_run_def acquireRunLease_def sample_defs sample_eval)

theorem run_lease_is_exclusive_witness:
  "fst leased_run \<noteq> None \<and> fst (acquireRunLease ''run-1'' 10 (snd leased_run)) = None"
proof -
  obtain l where l: "fst leased_run = Some l" "map_get (runLeases (snd leased_run)) ''run-1'' = Some l"
    "fst (now (snd leased_run)) < lease_expiresAt l"
    by (rule leased_run_eval)
  from run_lease_is_exclusive[OF l(2,3)] l(1) show ?thesis by simp
qed

lemma lost_lease:
  assumes "reachable s" and "map_get (runLeases s) i = Some old" and "lease_runId old = i"
    and "acquireRunLease i ms s = (Some new, s')" and "step\<^sup>*\<^sup>* s' t"
  shows "map_option lease_leaseToken (map_get (runLeases t) (lease_runId old)) \<noteq> Some (lease_leaseToken old)"
proof
  have issued: "issued (nextId s) (lease_leaseToken old)"
    using lease_token_issued[OF assms(1), of i] assms(2) by simp
  have tok: "lease_token s' i = Some (mk_id ''run-lease'' (nextId s))" and nxt: "nextId s' = Suc (nextId s)"
    using assms(4) by (auto simp: acquireRunLease_def prim_simps split: option.splits if_splits)
  assume "map_option lease_leaseToken (map_get (runLeases t) (lease_runId old)) = Some (lease_leaseToken old)"
  then have "lease_token t i = Some (lease_leaseToken old)" using assms(3) by simp
  from tokens_advance_steps[OF assms(5) this] tok nxt obtain n
    where "nextId s \<le> n" "lease_leaseToken old = mk_id ''run-lease'' n" by force
  with issued show False by simp
qed

text \<open>
  C13: a lost lease is lost for good. When a run is leased again, the previous holder can
  never renew its lease, and its release never touches the lease of the new holder,
  whatever happens in between.
\<close>

theorem lost_lease_stays_lost:
  assumes "reachable s" and "map_get (runLeases s) i = Some old" and "lease_runId old = i"
    and "acquireRunLease i ms s = (Some new, s')" and "step\<^sup>*\<^sup>* s' t"
  shows "renewRunLease old ms' t = (None, t) \<and> releaseRunLease old t = t"
  using lost_lease[OF assms] by (auto simp: renewRunLease_def releaseRunLease_def split: option.split)

definition expired_lease :: runtime where
  "expired_lease = snd (now (snd (acquireRunLease ''run-1'' 0 one_run)))"

theorem lost_lease_stays_lost_witness:
  "\<exists>old new s'. map_get (runLeases expired_lease) ''run-1'' = Some old
     \<and> acquireRunLease ''run-1'' 10 expired_lease = (Some new, s') \<and> renewRunLease old 10 s' = (None, s')"
proof -
  obtain old where old: "map_get (runLeases expired_lease) ''run-1'' = Some old" "lease_runId old = ''run-1''"
    by (simp add: expired_lease_def acquireRunLease_def sample_defs sample_eval)
  obtain new s' where new: "acquireRunLease ''run-1'' 10 expired_lease = (Some new, s')"
    by (simp add: expired_lease_def acquireRunLease_def sample_defs sample_eval)
  have "reachable expired_lease"
    unfolding expired_lease_def
    by (rule reachable_work[OF reachable_work[OF reachable_one_run acquire_lease] clock_now])
  from lost_lease_stays_lost[OF this old new rtranclp.rtrancl_refl] old new show ?thesis by blast
qed

end
