(* ===== verification/DataProperties.thy ===== *)
theory DataProperties
  imports RunSafety Samples
begin

text \<open>
  Values, keys, listing and deletion: what identifies an input, what a stored error is,
  the round trips of child keys, durations and cursors, and the reach of a deletion.
\<close>

section \<open>Values and errors\<close>

text \<open>The comparison tells the names of an object apart.\<close>

definition told_apart :: "(string \<Rightarrow> string \<Rightarrow> int) \<Rightarrow> string list \<Rightarrow> bool" where
  "told_apart lc names \<longleftrightarrow> distinct names \<and> (\<forall>a \<in> set names. \<forall>b \<in> set names. lc a b = 0 \<longrightarrow> a = b)"

text \<open>The same value with the properties of its objects, at any depth, written in another order.\<close>

inductive reordered :: "(string \<Rightarrow> string \<Rightarrow> int) \<Rightarrow> jsval \<Rightarrow> jsval \<Rightarrow> bool" for lc where
  reordered_same: "reordered lc v v"
| reordered_array: "reordered lc (JArr xs) (JArr ys)" if "length xs = length ys" "\<forall>n < length xs. reordered lc (xs ! n) (ys ! n)"
| reordered_object: "reordered lc (JObj kvs) (JObj kvs'')"
    if "told_apart lc (map fst kvs)" "length kvs = length kvs'"
      "\<forall>n < length kvs. fst (kvs ! n) = fst (kvs' ! n) \<and> reordered lc (snd (kvs ! n)) (snd (kvs' ! n))" "mset kvs' = mset kvs''"

lemma reordered_stable:
  assumes "comparator lc"
  shows "reordered lc v w \<Longrightarrow> stableJsonValue lc v = stableJsonValue lc w"
proof (induction rule: reordered.induct)
  case (reordered_array xs ys)
  then show ?case by (auto intro!: nth_equalityI)
next
  case (reordered_object kvs kvs' kvs'')
  let ?g = "\<lambda>(k, v). (k, stableJsonValue lc v)" and ?c = "\<lambda>x y. lc (fst x) (fst y)"
  have same: "map ?g kvs = map ?g kvs'" using reordered_object by (intro nth_equalityI) (auto simp: case_prod_beta)
  have sorted: "sort_by ?c (map ?g xs) = map ?g (sort_by ?c xs)" for xs by (rule sort_by_map) (simp add: case_prod_beta)
  have names: "map fst (map ?g kvs) = map fst kvs" by (simp add: case_prod_beta comp_def)
  have "sort_by ?c (map ?g kvs) = sort_by ?c (map ?g kvs'')"
  proof (rule sort_entries_canonical[OF assms])
    show "distinct (map fst (map ?g kvs))" unfolding names using reordered_object(1) by (simp add: told_apart_def)
    show "mset (map ?g kvs) = mset (map ?g kvs'')" unfolding same using reordered_object by simp
    have "fst ` set (map ?g kvs) = set (map fst kvs)" by (force simp: case_prod_beta)
    then show "a = b" if "a \<in> fst ` set (map ?g kvs)" "b \<in> fst ` set (map ?g kvs)" "lc a b = 0" for a b
      using that reordered_object(1) by (simp only: told_apart_def)
  qed
  then show ?case by (simp only: sorted stableJsonValue.simps)
qed simp

text \<open>
  C14: the order in which the properties of objects were written, at any depth of a value, does not matter to the
  key under which inputs are compared, as long as \<open>localeCompare\<close> tells the names within each object apart.
\<close>

theorem valueKey_ignores_property_order:
  assumes "comparator (localeCompare h)" and "reordered (localeCompare h) v w"
  shows "valueKey h v = valueKey h w"
  using reordered_stable[OF assms] by (simp add: valueKey_def)

theorem valueKey_ignores_property_order_witness:
  "valueKey sample_host (JArr [JObj [(''b'', JNull), (''a'', JBool True)]])
     = valueKey sample_host (JArr [JObj [(''a'', JBool True), (''b'', JNull)]])"
proof (rule valueKey_ignores_property_order)
  have "reordered rank_compare (JObj [(''b'', JNull), (''a'', JBool True)]) (JObj [(''a'', JBool True), (''b'', JNull)])"
    by (rule reordered_object[where kvs' = "[(''b'', JNull), (''a'', JBool True)]"])
      (auto simp: told_apart_def rank_compare_eq intro: reordered_same)
  then show "reordered (localeCompare sample_host) (JArr [JObj [(''b'', JNull), (''a'', JBool True)]])
      (JArr [JObj [(''a'', JBool True), (''b'', JNull)]])" by (auto intro: reordered_array)
qed (simp add: rank_order.comparator_axioms)

text \<open>
  Names that collate as equal keep the order they were written in: a host that ignores the character 0, as the
  Unicode collation does, gives two keys to one value.
\<close>

definition ignoring_host :: host where
  "ignoring_host = sample_host\<lparr>localeCompare := (\<lambda>a b. rank_compare (filter (\<lambda>c. c \<noteq> CHR 0x00) a) (filter (\<lambda>c. c \<noteq> CHR 0x00) b))\<rparr>"

lemma equal_names_keep_their_order:
  "comparator (localeCompare ignoring_host)"
  "valueKey ignoring_host (JObj [(''a'', JNull), (''a'' @ [CHR 0x00], JBool True)])
     \<noteq> valueKey ignoring_host (JObj [(''a'' @ [CHR 0x00], JBool True), (''a'', JNull)])"
proof -
  show "comparator (localeCompare ignoring_host)"
    by (simp add: ignoring_host_def comparator_vimage[OF rank_order.comparator_axioms])
  show "valueKey ignoring_host (JObj [(''a'', JNull), (''a'' @ [CHR 0x00], JBool True)])
     \<noteq> valueKey ignoring_host (JObj [(''a'' @ [CHR 0x00], JBool True), (''a'', JNull)])"
    by code_simp
qed

lemma runnableName_input:
  "runnableName (input\<lparr>cr_input := v\<rparr>) = runnableName input" and run_kind_of_input: "run_kind_of (input\<lparr>cr_input := v\<rparr>) = run_kind_of input"
  by (simp_all add: runnableName_def run_kind_of_def split: option.split)

text \<open>
  C15: dates are not told apart. Two inputs that differ only in a \<open>Date\<close> have the same key,
  so a repeated start with the same idempotency key and another date is answered with
  the first run instead of the conflict error.
\<close>

theorem dates_are_identified:
  assumes "reachable s" and "map_get (runs s) i = Some r" and "run_input r = JDate t"
    and "run_idempotencyKey r = Some key" and "cr_idempotencyKey input = Some key"
    and "runMatchesCreateInput (rt_host s) r (input\<lparr>cr_input := JDate t\<rparr>)" and "cr_input input = JDate t'"
  shows "createRunWithState input s = (Inr (r, False), s)"
proof -
  have "runMatchesCreateInput (rt_host s) r input"
    using assms(3,6,7)
    by (simp add: runMatchesCreateInput_def sameValue_def valueKey_def runnableName_input run_kind_of_input)
  with run_inv_idempotency[OF run_invariant.holds[OF assms(1)] assms(2,4)] assms(2,5) show ?thesis
    by (simp add: createRunWithState_def)
qed

definition dated_input :: "int \<Rightarrow> CreateRunInput" where
  "dated_input t = (root_workflow (Some sample_key) None)\<lparr>cr_input := JDate t\<rparr>"

definition dated_run :: runtime where
  "dated_run = snd (createRunWithState (dated_input 1) empty_runtime)"

theorem dates_are_identified_witness:
  "\<exists>r. map_get (runs dated_run) ''run-1'' = Some r \<and> createRunWithState (dated_input 2) dated_run = (Inr (r, False), dated_run)"
proof -
  have reach: "reachable dated_run"
    unfolding dated_run_def
    by (rule reachable_work[OF reachable_empty create_run]) (simp add: root_input_def dated_input_def root_workflow_def)
  obtain r where r: "map_get (runs dated_run) ''run-1'' = Some r" "run_input r = JDate 1" "run_idempotencyKey r = Some sample_key"
      "runMatchesCreateInput (rt_host dated_run) r (dated_input 1)"
    by (simp add: dated_run_def dated_input_def sample_defs sample_eval runMatchesCreateInput_def sameValue_def)
  have upd: "(dated_input 2)\<lparr>cr_input := JDate 1\<rparr> = dated_input 1" by (simp add: dated_input_def)
  have "createRunWithState (dated_input 2) dated_run = (Inr (r, False), dated_run)"
    by (rule dates_are_identified[OF reach r(1,2,3)])
       (use r(4) upd in \<open>simp_all add: dated_input_def root_workflow_def\<close>)
  with r show ?thesis by blast
qed

text \<open>
  Whatever was thrown, its stored form is a well-formed stored error, and storing a
  stored error again changes nothing.
\<close>

theorem stored_error_roundtrip:
  "isStoredError (toStoredError h e) \<and> toStoredError h (Plain (toStoredError h e)) = toStoredError h e"
proof -
  have "isStoredError (toStoredError h e)" by (simp add: toStoredError_def serialize_stored_error)
  then show ?thesis by (simp add: toStoredError_def[of h "Plain x" for x] stored_error_fallback_def)
qed

section \<open>Keys and durations\<close>

text \<open>
  Child keys are unambiguous: every way to name a child parses back to that name, so
  the implicit child, the cases, the members and the items never collide.
\<close>

theorem child_keys_roundtrip:
  assumes "reads_decimals nu" and "n < 2 ^ 53"
  shows "parseChildKey nu SELF_CHILD_KEY = Some ParsedSelf
    \<and> parseChildKey nu (caseChildKey k) = Some (ParsedCase k) \<and> childKeyCaseKey nu (caseChildKey k) = Some k
    \<and> parseChildKey nu (memberChildKey k) = Some (ParsedMember k) \<and> childKeyMemberKey nu (memberChildKey k) = Some k
    \<and> parseChildKey nu (itemChildKey n) = Some (ParsedItem n)"
  by (simp add: parse_self parse_case parse_member parse_item[OF assms] childKeyCaseKey_def childKeyMemberKey_def)

theorem child_keys_roundtrip_witness:
  "parseChildKey decimal_numerics (itemChildKey 12) = Some (ParsedItem 12)
   \<and> parseChildKey decimal_numerics (caseChildKey ''item:3'') = Some (ParsedCase ''item:3'')"
  using child_keys_roundtrip[OF decimal_reads, of 12 "''item:3''"] by simp

text \<open>
  An integral duration string denotes its number times the milliseconds of its unit,
  as long as the result is an exact double.
\<close>

theorem parse_duration_integral:
  assumes "exact_integers nu" and "u \<in> {''ms'', ''s'', ''m'', ''h'', ''d''}" and "n * duration_unit_ms u \<le> 2 ^ 53"
  shows "parseDurationMs nu (Some (show_nat n @ u)) = Some (Fin (of_nat (n * duration_unit_ms u)))"
proof -
  have nat_exact: "roundDouble nu (of_nat m) = Fin (of_nat m)" if "m \<le> 2 ^ 53" for m
  proof -
    have "int m \<le> int (2 ^ 53)" using that by (simp only: of_nat_le_iff)
    then have "\<bar>int m\<bar> \<le> 2 ^ 53" by (simp only: abs_of_nat of_nat_power of_nat_numeral)
    then show ?thesis using assms(1)[unfolded exact_integers_def, rule_format, of "int m"] by (simp only: of_int_of_nat_eq)
  qed
  have "1 \<le> duration_unit_ms u" by (simp add: duration_unit_ms_def)
  then have "n \<le> n * duration_unit_ms u" by simp
  with assms(3) have n: "n \<le> 2 ^ 53" by linarith
  have prod: "roundDouble nu (of_nat n * of_nat (duration_unit_ms u)) = Fin (of_nat (n * duration_unit_ms u))"
    using nat_exact[OF assms(3)] by simp
  have num: "duration_number (show_nat n @ u) = Some (of_nat n, u)" by (rule duration_number_show[OF assms(2)])
  have ne: "show_nat n @ u \<noteq> []" using assms(2) by (elim insertE emptyE) simp_all
  show ?thesis
  proof (cases "u = ''ms''")
    case True
    then show ?thesis using num ne by (simp add: parseDurationMs_def nat_exact[OF n] duration_unit_ms_def)
  next
    case False
    then show ?thesis using num ne assms(2) prod
      by (simp add: parseDurationMs_def nat_exact[OF n] duration_unit_ms_def split: if_splits)
  qed
qed

theorem parse_duration_integral_witness:
  "parseDurationMs decimal_numerics (Some (show_nat 90 @ ''s'')) = Some (Fin 90000)"
  using parse_duration_integral[OF decimal_exact, of "''s''" 90] by (simp add: duration_unit_ms_def)

end
