(* ===== verification/Interfaces.thy ===== *)
theory Interfaces
  imports Steps
begin

text \<open>
  The interfaces between the runtime's parts: \<open>WorkflowStore\<close> (\<open>runtime/store.ts\<close>) and the
  executors (\<open>runtime/executors.ts\<close>) as records of operations, the way coordinators
  and workers receive them, the store and the executors of \<open>runtime/in-memory.ts\<close>, and the
  store that \<open>createRunLeaseFencedStore\<close> (\<open>runtime/coordinator/continuation.ts\<close>) wraps around
  another. The locale \<open>coordination\<close> of \<open>CoordinatorSteps\<close> is what the proofs about coordinators use of them.
\<close>

section \<open>Asynchronous code\<close>

text \<open>
  \<open>await m k\<close> is \<open>const x = await m\<close> followed by \<open>k x\<close>: an error skips the rest and keeps the
  writes done so far. \<open>catch m handler\<close> is \<open>try { m } catch (error) { handler }\<close>, and \<open>each\<close> the
  loop \<open>for (const x of xs) await f(x)\<close>.
\<close>

definition await :: "'a op \<Rightarrow> ('a \<Rightarrow> 'b op) \<Rightarrow> 'b op" where
  "await m k s = (case m s of (Inl e, s') \<Rightarrow> (Inl e, s') | (Inr x, s') \<Rightarrow> k x s')"

definition catch :: "'a op \<Rightarrow> (wf_error \<Rightarrow> 'a op) \<Rightarrow> 'a op" where
  "catch m handler s = (case m s of (Inl e, s') \<Rightarrow> handler e s' | (Inr x, s') \<Rightarrow> (Inr x, s'))"

primrec each :: "'a list \<Rightarrow> ('a \<Rightarrow> unit op) \<Rightarrow> unit op" where
  "each [] f = ret ()"
| "each (x # xs) f = await (f x) (\<lambda>_. each xs f)"

definition raise :: "wf_error \<Rightarrow> 'a op" where
  "raise e s = (Inl e, s)"

text \<open>An operation that cannot fail, one that only reads, one that returns nothing.\<close>

definition total :: "(runtime \<Rightarrow> 'a \<times> runtime) \<Rightarrow> 'a op" where
  "total f s = (Inr (fst (f s)), snd (f s))"

definition reading :: "(runtime \<Rightarrow> 'a) \<Rightarrow> 'a op" where
  "reading f s = (Inr (f s), s)"

definition doing :: "(runtime \<Rightarrow> runtime) \<Rightarrow> unit op" where
  "doing f s = (Inr (), f s)"

text \<open>Synchronous code that may throw, and code under \<open>runWorkflowUserCallback\<close>.\<close>

definition sync :: "thrown + 'a \<Rightarrow> 'a op" where
  "sync r s = (case r of Inl e \<Rightarrow> (Inl (Thrown e), s) | Inr x \<Rightarrow> (Inr x, s))"

definition pureRes :: "'a res \<Rightarrow> 'a op" where
  "pureRes r s = (r, s)"

lemmas effect_defs = await_def catch_def raise_def total_def reading_def doing_def sync_def pureRes_def

section \<open>The store and the executors\<close>

record WorkflowStore =
  st_createRun :: "CreateRunInput \<Rightarrow> StoredRun op"
  st_listRuns :: "ListRunsFilter \<Rightarrow> ListRunsResult op"
  st_listRunSummaries :: "ListRunsFilter \<Rightarrow> ListRunSummariesResult op"
  st_pruneTerminalRuns :: "int \<Rightarrow> RuntimeRunStatus list option \<Rightarrow> jsnum option \<Rightarrow> nat op"
  st_deleteRun :: "string \<Rightarrow> bool op"
  st_listDeadCommands :: "string option \<Rightarrow> DeadWorkflowCommand list op"
  st_listUnreapedDeadCommands :: "int option \<Rightarrow> DeadWorkflowCommand list op"
  st_markDeadCommandReaped :: "string \<Rightarrow> unit op"
  st_requeueDeadCommand :: "string \<Rightarrow> unit op"
  st_acquireRunLease :: "string \<Rightarrow> int \<Rightarrow> RunLease option op"
  st_renewRunLease :: "RunLease \<Rightarrow> int \<Rightarrow> RunLease option op"
  st_releaseRunLease :: "RunLease \<Rightarrow> unit op"
  st_loadRunSnapshot :: "string \<Rightarrow> RunSnapshot option op"
  st_loadRunDetail :: "string \<Rightarrow> RunDetail option op"
  st_loadNodeSnapshot :: "string \<Rightarrow> string \<Rightarrow> NodeSnapshot option op"
  st_listRunFamily :: "string \<Rightarrow> RunFamilyEntry list op"
  st_loadRuns :: "string list \<Rightarrow> StoredRun list op"
  st_createNode :: "string \<Rightarrow> string \<Rightarrow> WorkflowNodeKind \<Rightarrow> StoredNode op"
  st_setNodeInput :: "string \<Rightarrow> string \<Rightarrow> jsval \<Rightarrow> StoredNode op"
  st_selectNodeCase :: "string \<Rightarrow> string \<Rightarrow> string \<Rightarrow> StoredNode option op"
  st_ensureNodeChildren :: "string \<Rightarrow> string \<Rightarrow> EnsureNodeChildInput list \<Rightarrow> (StoredNodeChild list \<times> bool) op"
  st_ensureChildRun :: "EnsureChildRunParams \<Rightarrow> EnsureChildRunResult op"
  st_ensureChildAttempt :: "CreateAttemptInput \<Rightarrow> (StoredAttempt \<times> bool) op"
  st_createAttempt :: "CreateAttemptInput \<Rightarrow> StoredAttempt op"
  st_completeCurrentAttempt :: "string \<Rightarrow> string option \<Rightarrow> jsval \<Rightarrow> StoredAttempt option op"
  st_failCurrentAttempt :: "string \<Rightarrow> string option \<Rightarrow> thrown \<Rightarrow> StoredAttempt option op"
  st_timeoutCurrentAttempt :: "string \<Rightarrow> string option \<Rightarrow> thrown \<Rightarrow> StoredAttempt option op"
  st_completeNodeChild :: "string \<Rightarrow> string \<Rightarrow> string \<Rightarrow> jsval \<Rightarrow> StoredNodeChild option op"
  st_failNodeChild :: "string \<Rightarrow> string \<Rightarrow> string \<Rightarrow> thrown \<Rightarrow> StoredNodeChild option op"
  st_loadNodeChildren :: "string \<Rightarrow> string \<Rightarrow> (StoredNodeChild list \<times> StoredAttempt list) op"
  st_completeNode :: "string \<Rightarrow> string \<Rightarrow> jsval \<Rightarrow> StoredNode option op"
  st_failNode :: "string \<Rightarrow> string \<Rightarrow> thrown \<Rightarrow> StoredNode option op"
  st_waitNode :: "string \<Rightarrow> string \<Rightarrow> StoredNode option op"
  st_markRunRunning :: "string \<Rightarrow> StoredRun option op"
  st_markRunWaiting :: "string \<Rightarrow> StoredRun option op"
  st_completeRun :: "string \<Rightarrow> jsval \<Rightarrow> StoredRun option op"
  st_failRun :: "string \<Rightarrow> thrown \<Rightarrow> StoredRun option op"
  st_requestRunCancellation :: "string \<Rightarrow> StoredRun option op"
  st_cancelRun :: "string \<Rightarrow> StoredRun option op"
  st_cancelNode :: "string \<Rightarrow> string \<Rightarrow> StoredNode option op"
  st_cancelNonTerminalRunNodes :: "string \<Rightarrow> StoredNode list op"

record RunCoordinationExecutor =
  rce_enqueue :: "ContinueRunCommand \<Rightarrow> unit op"
  rce_enqueueDelayed :: "ContinueRunCommand \<Rightarrow> int \<Rightarrow> unit op"
  rce_claim :: "RunCoordinationWorkerClaim \<Rightarrow> ContinueRunCommand Claim option op"
  rce_ack :: "ContinueRunCommand Claim \<Rightarrow> unit op"
  rce_release :: "ContinueRunCommand Claim \<Rightarrow> CommandReleaseOptions \<Rightarrow> unit op"

record AttemptExecutor =
  ae_dispatchActivity :: "AttemptCommand \<Rightarrow> int option \<Rightarrow> unit op"
  ae_dispatchTask :: "AttemptCommand \<Rightarrow> int option \<Rightarrow> unit op"
  ae_claim :: "ExecutionWorkerClaim \<Rightarrow> AttemptCommand Claim option op"
  ae_heartbeat :: "AttemptCommand Claim \<Rightarrow> int option \<Rightarrow> RuntimeRunStatus op"
  ae_ack :: "AttemptCommand Claim \<Rightarrow> unit op"
  ae_release :: "AttemptCommand Claim \<Rightarrow> CommandReleaseOptions \<Rightarrow> unit op"
  ae_deleteUnclaimed :: "string \<Rightarrow> nat op"

record RuntimeDeps =
  store :: WorkflowStore
  runCoordinationExecutor :: RunCoordinationExecutor
  attemptExecutor :: AttemptExecutor


definition in_memory_store :: WorkflowStore where
  "in_memory_store =
     \<lparr>st_createRun = createRun,
      st_listRuns = listRuns,
      st_listRunSummaries = listRunSummaries,
      st_pruneTerminalRuns = (\<lambda>olderThan statuses batchSize. total (pruneTerminalRuns olderThan statuses batchSize)),
      st_deleteRun = deleteRun,
      st_listDeadCommands = (\<lambda>runId. reading (listDeadCommands runId)),
      st_listUnreapedDeadCommands = (\<lambda>limit. reading (listUnreapedDeadCommands limit)),
      st_markDeadCommandReaped = (\<lambda>i. doing (markDeadCommandReaped i)),
      st_requeueDeadCommand = (\<lambda>i. doing (requeueDeadCommand i)),
      st_acquireRunLease = (\<lambda>runId leaseMs. total (acquireRunLease runId leaseMs)),
      st_renewRunLease = (\<lambda>lease leaseMs. total (renewRunLease lease leaseMs)),
      st_releaseRunLease = (\<lambda>lease. doing (releaseRunLease lease)),
      st_loadRunSnapshot = (\<lambda>runId. reading (loadRunSnapshot runId)),
      st_loadRunDetail = (\<lambda>runId. reading (loadRunDetail runId)),
      st_loadNodeSnapshot = (\<lambda>runId nodeName. reading (loadNodeSnapshot runId nodeName)),
      st_listRunFamily = (\<lambda>runId. reading (listRunFamily runId)),
      st_loadRuns = (\<lambda>runIds. reading (loadRuns runIds)),
      st_createNode = (\<lambda>runId name kind. total (createNode runId name kind)),
      st_setNodeInput = setNodeInput,
      st_selectNodeCase = selectNodeCase,
      st_ensureNodeChildren = ensureNodeChildren,
      st_ensureChildRun = ensureChildRun,
      st_ensureChildAttempt = ensureChildAttempt,
      st_createAttempt = createAttempt,
      st_completeCurrentAttempt = (\<lambda>i token output. total (completeCurrentAttempt i token output)),
      st_failCurrentAttempt = (\<lambda>i token error. total (failCurrentAttempt i token error)),
      st_timeoutCurrentAttempt = (\<lambda>i token error. total (timeoutCurrentAttempt i token error)),
      st_completeNodeChild = (\<lambda>runId nodeName key output. total (completeNodeChild runId nodeName key output)),
      st_failNodeChild = (\<lambda>runId nodeName key error. total (failNodeChild runId nodeName key error)),
      st_loadNodeChildren = (\<lambda>runId nodeName. reading (loadNodeChildren runId nodeName)),
      st_completeNode = (\<lambda>runId nodeName output. total (completeNode runId nodeName output)),
      st_failNode = (\<lambda>runId nodeName error. total (failNode runId nodeName error)),
      st_waitNode = (\<lambda>runId nodeName. total (waitNode runId nodeName)),
      st_markRunRunning = (\<lambda>runId. total (markRunRunning runId)),
      st_markRunWaiting = (\<lambda>runId. total (markRunWaiting runId)),
      st_completeRun = (\<lambda>runId output. total (completeRun runId output)),
      st_failRun = (\<lambda>runId error. total (failRun runId error)),
      st_requestRunCancellation = (\<lambda>runId. total (requestRunCancellation runId)),
      st_cancelRun = (\<lambda>runId. total (cancelRun runId)),
      st_cancelNode = (\<lambda>runId nodeName. total (cancelNode runId nodeName)),
      st_cancelNonTerminalRunNodes = (\<lambda>runId. total (cancelNonTerminalRunNodes runId))\<rparr>"

definition in_memory_coordination :: RunCoordinationExecutor where
  "in_memory_coordination =
     \<lparr>rce_enqueue = (\<lambda>command. doing (enqueue command)),
      rce_enqueueDelayed = (\<lambda>command runAt. doing (enqueueDelayed command runAt)),
      rce_claim = (\<lambda>worker. total (claimContinue worker)),
      rce_ack = ackContinue,
      rce_release = (\<lambda>claim options. doing (releaseContinue claim options))\<rparr>"

definition in_memory_attempts :: AttemptExecutor where
  "in_memory_attempts =
     \<lparr>ae_dispatchActivity = (\<lambda>command runAt. doing (dispatchActivity command runAt)),
      ae_dispatchTask = (\<lambda>command runAt. doing (dispatchTask command runAt)),
      ae_claim = (\<lambda>worker. total (claimAttempt worker)),
      ae_heartbeat = heartbeat,
      ae_ack = ackAttempt,
      ae_release = (\<lambda>claim options. doing (releaseAttempt claim options)),
      ae_deleteUnclaimed = (\<lambda>runId. total (deleteUnclaimed runId))\<rparr>"

definition in_memory_deps :: RuntimeDeps where
  "in_memory_deps =
     \<lparr>store = in_memory_store, runCoordinationExecutor = in_memory_coordination,
      attemptExecutor = in_memory_attempts\<rparr>"

section \<open>The fenced store\<close>

text \<open>Every write renews the lease first and is refused when the lease was lost.\<close>

definition fence :: "WorkflowStore \<Rightarrow> RunLease \<Rightarrow> int \<Rightarrow> 'a op \<Rightarrow> 'a op" where
  "fence st lease leaseMs operation =
     await (st_renewRunLease st lease leaseMs)
       (\<lambda>renewedLease. if renewedLease = None then raise StaleRunLeaseError else operation)"

definition createRunLeaseFencedStore :: "WorkflowStore \<Rightarrow> RunLease \<Rightarrow> int \<Rightarrow> WorkflowStore" where
  "createRunLeaseFencedStore st lease leaseMs =
     st\<lparr>st_createRun := (\<lambda>i. fence st lease leaseMs (st_createRun st i)),
        st_createNode := (\<lambda>r n k. fence st lease leaseMs (st_createNode st r n k)),
        st_setNodeInput := (\<lambda>r n v. fence st lease leaseMs (st_setNodeInput st r n v)),
        st_createAttempt := (\<lambda>i. fence st lease leaseMs (st_createAttempt st i)),
        st_completeCurrentAttempt := (\<lambda>i t v. fence st lease leaseMs (st_completeCurrentAttempt st i t v)),
        st_failCurrentAttempt := (\<lambda>i t e. fence st lease leaseMs (st_failCurrentAttempt st i t e)),
        st_completeNode := (\<lambda>r n v. fence st lease leaseMs (st_completeNode st r n v)),
        st_failNode := (\<lambda>r n e. fence st lease leaseMs (st_failNode st r n e)),
        st_markRunRunning := (\<lambda>r. fence st lease leaseMs (st_markRunRunning st r)),
        st_markRunWaiting := (\<lambda>r. fence st lease leaseMs (st_markRunWaiting st r)),
        st_completeRun := (\<lambda>r v. fence st lease leaseMs (st_completeRun st r v)),
        st_failRun := (\<lambda>r e. fence st lease leaseMs (st_failRun st r e)),
        st_requestRunCancellation := (\<lambda>r. fence st lease leaseMs (st_requestRunCancellation st r)),
        st_cancelRun := (\<lambda>r. fence st lease leaseMs (st_cancelRun st r)),
        st_cancelNode := (\<lambda>r n. fence st lease leaseMs (st_cancelNode st r n)),
        st_cancelNonTerminalRunNodes := (\<lambda>r. fence st lease leaseMs (st_cancelNonTerminalRunNodes st r)),
        st_ensureNodeChildren := (\<lambda>r n cs. fence st lease leaseMs (st_ensureNodeChildren st r n cs)),
        st_ensureChildRun := (\<lambda>p. fence st lease leaseMs (st_ensureChildRun st p)),
        st_ensureChildAttempt := (\<lambda>i. fence st lease leaseMs (st_ensureChildAttempt st i)),
        st_selectNodeCase := (\<lambda>r n k. fence st lease leaseMs (st_selectNodeCase st r n k)),
        st_completeNodeChild := (\<lambda>r n k v. fence st lease leaseMs (st_completeNodeChild st r n k v)),
        st_failNodeChild := (\<lambda>r n k e. fence st lease leaseMs (st_failNodeChild st r n k e)),
        st_waitNode := (\<lambda>r n. fence st lease leaseMs (st_waitNode st r n))\<rparr>"

end
