(* ===== verification/Definitions.thy ===== *)
theory Definitions
  imports Interfaces
begin

text \<open>
  What users declare and implement: the definitions of tasks and workflows
  (\<open>types/index.ts\<close>), their implementations (\<open>implement/index.ts\<close>), and the helpers of
  \<open>runtime/coordinator/codec.ts\<close> and \<open>runtime/coordinator/context.ts\<close> that call into them. A
  schema is its \<open>decode\<close>, user callbacks are functions that return or throw; both are
  parameters of the model. The dependency context handed to callbacks is a type variable.
\<close>

section \<open>Callbacks\<close>

type_synonym Schema = "jsval \<Rightarrow> thrown + jsval"

type_synonym outputs = "(string \<times> jsval) list"

text \<open>The arguments \<open>(ctx, outputs, workflowInput)\<close> and \<open>(ctx, outputs, item, workflowInput, index)\<close>.\<close>

type_synonym 'ctx node_args = "'ctx \<times> outputs \<times> jsval"

type_synonym 'ctx item_args = "'ctx \<times> outputs \<times> jsval \<times> jsval \<times> nat"

text \<open>
  The \<open>idempotency\<close> and \<open>unique\<close> properties are checked dynamically: absent, a function, an
  object with a \<open>key\<close> function, or anything else.
\<close>

datatype 'a idempotency =
    NoIdempotency
  | IdempotencyFunction "'a \<Rightarrow> thrown + jsval list"
  | IdempotencyKeyed "'a \<Rightarrow> thrown + jsval list"
  | InvalidIdempotency

record RunUniqueConstraint =
  uc_key :: "jsval list"
  uc_scope :: "RunUniqueScope option"
  uc_behavior :: "RunUniqueBehavior option"

datatype 'a unique =
    NoUnique
  | UniqueFunction "'a \<Rightarrow> thrown + jsval list"
  | UniqueKeyed "'a \<Rightarrow> thrown + jsval list" "RunUniqueScope option" "RunUniqueBehavior option"
  | InvalidUnique

datatype 'a tags =
    NoTags
  | TagsFunction "'a \<Rightarrow> thrown + (string \<times> string) list"
  | InvalidTags

datatype Backoff = FixedBackoff | ExponentialBackoff

record RetryPolicy =
  rp_attempts :: nat
  rp_backoff :: "Backoff option"
  rp_delay :: "string option"

section \<open>Declarations\<close>

record TaskDefinition =
  task_name :: string
  task_input :: Schema
  task_output :: Schema
  task_retry :: "RetryPolicy option"
  task_timeout :: "string option"
  task_tags :: "jsval tags"
  task_idempotency :: "jsval idempotency"
  task_unique :: "jsval unique"

datatype BranchCaseDefinition =
    ActivityCaseDefinition (cd_input: Schema) (cd_output: Schema) (cd_timeout: "string option")
  | TaskCaseDefinition (cd_task: TaskDefinition) (cd_timeout: "string option")
  | WorkflowCaseDefinition

datatype MapRunMode = StartOnly | WaitAll | WaitSettled

datatype WorkflowNode =
    WorkflowActivityNode (decl_name: string) (decl_input: Schema) (decl_output: Schema) (decl_timeout: "string option")
  | WorkflowTaskNode (decl_name: string) (decl_task: TaskDefinition) (decl_timeout: "string option")
  | WorkflowChildWorkflowNode (decl_name: string)
  | WorkflowBranchNode (decl_name: string) (decl_cases: "(string \<times> BranchCaseDefinition) list")
  | WorkflowParallelNode (decl_name: string) (decl_cases: "(string \<times> BranchCaseDefinition) list")
  | WorkflowMapTaskNode (decl_name: string) (decl_task: TaskDefinition) (decl_item: Schema) (decl_mode: MapRunMode) (decl_timeout: "string option")
  | WorkflowMapWorkflowNode (decl_name: string) (decl_item: Schema) (decl_mode: MapRunMode)

primrec declaration_kind :: "WorkflowNode \<Rightarrow> WorkflowNodeKind" where
  "declaration_kind (WorkflowActivityNode n i out t) = ActivityNode"
| "declaration_kind (WorkflowTaskNode n task t) = TaskNode"
| "declaration_kind (WorkflowChildWorkflowNode n) = WorkflowNode"
| "declaration_kind (WorkflowBranchNode n cs) = BranchNode"
| "declaration_kind (WorkflowParallelNode n cs) = ParallelNode"
| "declaration_kind (WorkflowMapTaskNode n task i m t) = MapTaskNode"
| "declaration_kind (WorkflowMapWorkflowNode n i m) = MapWorkflowNode"

record WorkflowDefinition =
  wd_name :: string
  wd_input :: Schema
  wd_output :: "Schema option"
  wd_nodes :: "WorkflowNode list"
  wd_timeout :: "string option"
  wd_tags :: "jsval tags"
  wd_idempotency :: "jsval idempotency"
  wd_unique :: "jsval unique"

section \<open>Implementations\<close>

text \<open>What the runtime reads of the task or workflow that a node targets.\<close>

record Runnable =
  rn_name :: string
  rn_input :: Schema
  rn_timeout :: "string option"

record 'ctx ActivityNodeImplementation =
  act_name :: string
  act_activity :: string
  act_handler :: "'ctx \<Rightarrow> jsval \<Rightarrow> thrown + jsval"
  act_retry :: "RetryPolicy option"
  act_input :: "('ctx node_args \<Rightarrow> thrown + jsval) option"
  act_idempotency :: "'ctx node_args idempotency"

record 'ctx RunnableNodeImplementation =
  rnn_kind :: RunKind
  rnn_name :: string
  rnn_target :: Runnable
  rnn_input :: "('ctx node_args \<Rightarrow> thrown + jsval) option"
  rnn_idempotency :: "'ctx node_args idempotency"

record 'ctx MapNodeImplementation =
  mapn_kind :: RunKind
  mapn_name :: string
  mapn_target :: Runnable
  mapn_mode :: MapRunMode
  mapn_concurrency :: "jsnum option"
  mapn_items :: "'ctx node_args \<Rightarrow> thrown + jsval list"
  mapn_input :: "'ctx item_args \<Rightarrow> thrown + jsval"
  mapn_idempotency :: "'ctx item_args idempotency"

datatype 'ctx WorkflowCaseImplementation =
    ActivityCase "'ctx ActivityNodeImplementation"
  | RunnableCase "'ctx RunnableNodeImplementation"

record 'ctx BranchNodeImplementation =
  br_name :: string
  br_select :: "'ctx node_args \<Rightarrow> thrown + string"
  br_cases :: "(string \<times> 'ctx WorkflowCaseImplementation) list"

record 'ctx ParallelNodeImplementation =
  par_name :: string
  par_cases :: "(string \<times> 'ctx WorkflowCaseImplementation) list"

datatype 'ctx WorkflowNodeImplementation =
    ActivityImpl "'ctx ActivityNodeImplementation"
  | RunnableImpl "'ctx RunnableNodeImplementation"
  | MapImpl "'ctx MapNodeImplementation"
  | BranchImpl "'ctx BranchNodeImplementation"
  | ParallelImpl "'ctx ParallelNodeImplementation"

primrec impl_name :: "'ctx WorkflowNodeImplementation \<Rightarrow> string" where
  "impl_name (ActivityImpl n) = act_name n"
| "impl_name (RunnableImpl n) = rnn_name n"
| "impl_name (MapImpl n) = mapn_name n"
| "impl_name (BranchImpl n) = br_name n"
| "impl_name (ParallelImpl n) = par_name n"

record 'ctx WorkflowImplementation =
  wi_workflow :: WorkflowDefinition
  wi_nodes :: "'ctx WorkflowNodeImplementation list"
  wi_finish :: "'ctx node_args \<Rightarrow> thrown + jsval"

text \<open>The handler of a task or an activity: what it returns or throws, given its context and input.\<close>

record 'ctx TaskImplementation =
  ti_task :: TaskDefinition
  ti_handler :: "'ctx \<Rightarrow> jsval \<Rightarrow> thrown + jsval"

section \<open>Errors as objects\<close>

text \<open>The error object that a \<open>catch\<close> clause gets, as a value that can be stored.\<close>

definition scope_string :: "RunUniqueScope \<Rightarrow> string" where
  "scope_string scope = (case scope of ActiveScope \<Rightarrow> ''active'' | AllScope \<Rightarrow> ''all'')"

fun thrown_message :: "host \<Rightarrow> thrown \<Rightarrow> string" where
  "thrown_message h (Err n m st c) = m"
| "thrown_message h (Plain v) = js_String h v"

fun error_object :: "host \<Rightarrow> wf_error \<Rightarrow> thrown" where
  "error_object h (Thrown e) = e"
| "error_object h (WorkflowRunConflictError runId status key scope) =
     Err ''WorkflowRunConflictError''
       (''Run ['' @ runId @ ''] already holds unique key [scope: '' @ scope_string scope @ '']'') None (Plain JUndefined)"
| "error_object h StaleRunLeaseError = Err ''StaleRunLeaseError'' ''Stale workflow run lease'' None (Plain JUndefined)"
| "error_object h (WorkflowUserCallbackError e) =
     Err ''WorkflowUserCallbackError'' (thrown_message h e) None (Plain JUndefined)"
| "error_object h (WorkflowAttemptTimeoutError runId nodeName attemptId timeoutMs) =
     Err ''WorkflowAttemptTimeoutError''
       (''Workflow attempt ['' @ attemptId @ ''] for ['' @ runId @ ''.'' @ nodeName @ ''] timed out after ''
          @ js_String h (JNum timeoutMs) @ ''ms'') None (Plain JUndefined)"
| "error_object h (WorkflowAttemptCancellationObservedError runId nodeName attemptId) =
     Err ''WorkflowAttemptCancellationObservedError''
       (''Workflow attempt ['' @ attemptId @ ''] for ['' @ runId @ ''.'' @ nodeName @ ''] observed cancellation'')
       None (Plain JUndefined)"
| "error_object h (WorkflowAttemptShutdownError runId nodeName attemptId) =
     Err ''WorkflowAttemptShutdownError''
       (''Workflow attempt ['' @ attemptId @ ''] for ['' @ runId @ ''.'' @ nodeName @ ''] interrupted by worker shutdown'')
       None (Plain JUndefined)"

definition runWorkflowUserCallback :: "thrown + 'a \<Rightarrow> 'a res" where
  "runWorkflowUserCallback callback =
     (case callback of Inl e \<Rightarrow> Inl (WorkflowUserCallbackError e) | Inr x \<Rightarrow> Inr x)"

section \<open>The codec\<close>

definition hasStoredNodeInput :: "StoredNode \<Rightarrow> bool" where
  "hasStoredNodeInput node \<longleftrightarrow> node_input node \<noteq> None"

definition decodeSchemaValue :: "Schema \<Rightarrow> jsval \<Rightarrow> string \<Rightarrow> thrown + jsval" where
  "decodeSchemaValue schema value label =
     (case schema value of
        Inl e \<Rightarrow> Inl (Err ''Error'' (''Invalid '' @ label) None e)
      | Inr v \<Rightarrow> Inr v)"

definition decodeWorkflowUserSchemaValue :: "Schema \<Rightarrow> jsval \<Rightarrow> string \<Rightarrow> jsval res" where
  "decodeWorkflowUserSchemaValue schema value label =
     runWorkflowUserCallback (decodeSchemaValue schema value label)"

primrec decode_items_from :: "nat \<Rightarrow> Schema \<Rightarrow> jsval list \<Rightarrow> string \<Rightarrow> thrown + jsval list" where
  "decode_items_from index itemSchema [] label = Inr []"
| "decode_items_from index itemSchema (item # items) label =
     (case decodeSchemaValue itemSchema item (label @ ''.'' @ show_nat index) of
        Inl e \<Rightarrow> Inl e
      | Inr v \<Rightarrow> map_sum id (\<lambda>vs. v # vs) (decode_items_from (Suc index) itemSchema items label))"

definition decodeMapItems :: "Schema \<Rightarrow> jsval list \<Rightarrow> string \<Rightarrow> jsval list res" where
  "decodeMapItems itemSchema items label =
     runWorkflowUserCallback (decode_items_from 0 itemSchema items label)"

definition getWorkflowNodeDeclaration :: "'ctx WorkflowImplementation \<Rightarrow> string \<Rightarrow> WorkflowNode res" where
  "getWorkflowNodeDeclaration workflow nodeName =
     (case find (\<lambda>candidate. decl_name candidate = nodeName) (wd_nodes (wi_workflow workflow)) of
        None \<Rightarrow> Inl (Thrown (new_Error (''Missing workflow node declaration ['' @ wd_name (wi_workflow workflow)
                   @ ''.'' @ nodeName @ '']'')))
      | Some node \<Rightarrow> Inr node)"

definition resolveIdempotency :: "'a idempotency \<Rightarrow> 'a \<Rightarrow> jsval list option res" where
  "resolveIdempotency idempotency args =
     (case idempotency of
        NoIdempotency \<Rightarrow> Inr None
      | IdempotencyFunction f \<Rightarrow> map_sum id Some (runWorkflowUserCallback (f args))
      | IdempotencyKeyed key \<Rightarrow> map_sum id Some (runWorkflowUserCallback (key args))
      | InvalidIdempotency \<Rightarrow> Inl (Thrown (new_Error ''Invalid idempotency definition'')))"

definition resolveUnique :: "'a unique \<Rightarrow> 'a \<Rightarrow> RunUniqueConstraint option res" where
  "resolveUnique uniq args =
     (case uniq of
        NoUnique \<Rightarrow> Inr None
      | UniqueFunction f \<Rightarrow>
          map_sum id (\<lambda>key. Some \<lparr>uc_key = key, uc_scope = None, uc_behavior = None\<rparr>)
            (runWorkflowUserCallback (f args))
      | UniqueKeyed key scope behavior \<Rightarrow>
          map_sum id (\<lambda>k. Some \<lparr>uc_key = k, uc_scope = scope, uc_behavior = behavior\<rparr>)
            (runWorkflowUserCallback (key args))
      | InvalidUnique \<Rightarrow> Inl (Thrown (new_Error ''Invalid unique definition'')))"

definition normalizeRunUnique :: "RunUniqueConstraint option \<Rightarrow> ResolvedRunUnique option" where
  "normalizeRunUnique uniq =
     map_option (\<lambda>u. \<lparr>uq_key = uc_key u,
                     uq_scope = (case uc_scope u of None \<Rightarrow> ActiveScope | Some x \<Rightarrow> x),
                     uq_behavior = (case uc_behavior u of None \<Rightarrow> RejectRun | Some b \<Rightarrow> b)\<rparr>) uniq"

definition resolveTags :: "'a tags \<Rightarrow> 'a \<Rightarrow> (string \<times> string) list option res" where
  "resolveTags tags args =
     (case tags of
        NoTags \<Rightarrow> Inr None
      | TagsFunction f \<Rightarrow> map_sum id Some (runWorkflowUserCallback (f args))
      | InvalidTags \<Rightarrow> Inl (Thrown (new_Error ''Invalid tags definition'')))"

definition mapConcurrencyLimit :: "'ctx MapNodeImplementation \<Rightarrow> jsnum res" where
  "mapConcurrencyLimit node =
     (case mapn_concurrency node of
        None \<Rightarrow> Inr PosInfinity
      | Some (Fin c) \<Rightarrow>
          if rat_integral c \<and> 1 \<le> c then Inr (Fin c)
          else Inl (Thrown (new_Error ''Map node concurrency must be a positive integer''))
      | Some _ \<Rightarrow> Inl (Thrown (new_Error ''Map node concurrency must be a positive integer'')))"

end
