(* ===== verification/Coordinator.thy ===== *)
theory Coordinator
  imports Definitions
begin

text \<open>
  The shared machinery of the coordinator: \<open>runtime/wake.ts\<close>, and \<open>sinks.ts\<close>, \<open>cancel.ts\<close>,
  \<open>attempt.ts\<close> and \<open>start.ts\<close> of \<open>runtime/coordinator\<close>. Every function gets the store and the
  executors it works with (\<open>RuntimeDeps\<close>), so the same definitions run on the store of the
  runtime and on a lease-fenced one.
\<close>

section \<open>Waking the parent\<close>

definition wakeParentRun :: "RuntimeDeps \<Rightarrow> StoredRun option \<Rightarrow> unit op" where
  "wakeParentRun deps run =
     (case run of
        None \<Rightarrow> ret ()
      | Some r \<Rightarrow>
          (case (truthy (run_parentRunId r), truthy (run_parentNodeName r)) of
             (Some parentRunId, Some _) \<Rightarrow>
               await (st_loadRunSnapshot (store deps) parentRunId)
                 (\<lambda>parent. case parent of
                    None \<Rightarrow> ret ()
                  | Some snapshot \<Rightarrow>
                      rce_enqueue (runCoordinationExecutor deps)
                        \<lparr>cont_runId = parentRunId, cont_workflowName = run_workflowName (snap_run snapshot)\<rparr>)
           | _ \<Rightarrow> ret ()))"

section \<open>Cancellation\<close>

text \<open>
  One round of the loops over children in \<open>cancelRunTree\<close> and
  \<open>cancelNodeChildRunsAndCommands\<close>; \<open>cancel\<close> is the recursive call.
\<close>

definition cancelChildRun :: "(string \<Rightarrow> StoredRun option op) \<Rightarrow> RuntimeDeps \<Rightarrow> StoredNodeChild \<Rightarrow> unit op" where
  "cancelChildRun cancel deps child =
     (case child_childRunId child of
        None \<Rightarrow> ret ()
      | Some childRunId \<Rightarrow>
          await (st_loadRunSnapshot (store deps) childRunId) (\<lambda>childFound.
          case childFound of
            None \<Rightarrow> ret ()
          | Some childSnapshot \<Rightarrow>
              if isTerminalRunStatus (run_status (snap_run childSnapshot)) then ret ()
              else
                await (st_requestRunCancellation (store deps) childRunId) (\<lambda>_.
                await (if run_kind (snap_run childSnapshot) = WorkflowRun
                       then rce_enqueue (runCoordinationExecutor deps)
                              \<lparr>cont_runId = childRunId,
                               cont_workflowName = run_workflowName (snap_run childSnapshot)\<rparr>
                       else ret ()) (\<lambda>_.
                await (cancel childRunId) (\<lambda>_. ret ())))))"

text \<open>
  \<open>cancelRunTree\<close> recurses into the runs its children link to. Links only lead to runs issued
  later, so the recursion is at most as deep as the number of identifiers issued; the
  first argument bounds the depth, and \<open>cancelRunTree\<close> starts it at that number.
\<close>

primrec cancelRunTree_upto :: "nat \<Rightarrow> RuntimeDeps \<Rightarrow> string \<Rightarrow> StoredRun option op" where
  "cancelRunTree_upto 0 deps runId = raise (Thrown (new_Error ''Maximum depth exceeded''))"
| "cancelRunTree_upto (Suc depth) deps runId =
     await (st_loadRunSnapshot (store deps) runId) (\<lambda>found.
     case found of
       None \<Rightarrow> ret None
     | Some snapshot \<Rightarrow>
         if isTerminalRunStatus (run_status (snap_run snapshot)) then ret (Some (snap_run snapshot))
         else
           await (st_requestRunCancellation (store deps) runId) (\<lambda>_.
           await (st_cancelNonTerminalRunNodes (store deps) runId) (\<lambda>_.
           await (each (snap_children snapshot) (cancelChildRun (cancelRunTree_upto depth deps) deps)) (\<lambda>_.
           await (ae_deleteUnclaimed (attemptExecutor deps) runId) (\<lambda>_.
           st_cancelRun (store deps) runId)))))"

definition cancelRunTree :: "RuntimeDeps \<Rightarrow> string \<Rightarrow> StoredRun option op" where
  "cancelRunTree deps runId s = cancelRunTree_upto (Suc (nextId s)) deps runId s"

definition cancelNodeChildRunsAndCommands :: "RuntimeDeps \<Rightarrow> string \<Rightarrow> string \<Rightarrow> unit op" where
  "cancelNodeChildRunsAndCommands deps runId nodeName =
     await (st_loadNodeChildren (store deps) runId nodeName) (\<lambda>(children, _).
     await (each children (cancelChildRun (cancelRunTree deps) deps)) (\<lambda>_.
     await (ae_deleteUnclaimed (attemptExecutor deps) runId) (\<lambda>_. ret ())))"

definition shouldCancelFailedFanInNode :: "'ctx WorkflowImplementation \<Rightarrow> StoredNode \<Rightarrow> bool res" where
  "shouldCancelFailedFanInNode workflow node =
     map_sum id
       (\<lambda>declaration. case declaration of
          WorkflowParallelNode _ _ \<Rightarrow> True
        | WorkflowMapTaskNode _ _ _ mode _ \<Rightarrow> mode \<noteq> WaitSettled
        | WorkflowMapWorkflowNode _ _ mode \<Rightarrow> mode \<noteq> WaitSettled
        | _ \<Rightarrow> False)
       (getWorkflowNodeDeclaration workflow (node_name node))"

definition cancelFailedFanInNodeChildren ::
  "RuntimeDeps \<Rightarrow> 'ctx WorkflowImplementation \<Rightarrow> string \<Rightarrow> StoredNode \<Rightarrow> unit op" where
  "cancelFailedFanInNodeChildren deps workflow runId node =
     await (pureRes (shouldCancelFailedFanInNode workflow node)) (\<lambda>should.
     if \<not> should then ret ()
     else cancelNodeChildRunsAndCommands deps runId (node_name node))"

section \<open>Sinks\<close>

definition completeRunAndWakeParent :: "RuntimeDeps \<Rightarrow> string \<Rightarrow> jsval \<Rightarrow> unit op" where
  "completeRunAndWakeParent deps runId output =
     await (st_completeRun (store deps) runId output) (wakeParentRun deps)"

definition failRunAndWakeParent :: "RuntimeDeps \<Rightarrow> string \<Rightarrow> thrown \<Rightarrow> unit op" where
  "failRunAndWakeParent deps runId error =
     await (st_failRun (store deps) runId error) (wakeParentRun deps)"

definition cancelRunAndWakeParent :: "RuntimeDeps \<Rightarrow> string \<Rightarrow> unit op" where
  "cancelRunAndWakeParent deps runId = await (cancelRunTree deps runId) (wakeParentRun deps)"

definition failNodeAndRun :: "RuntimeDeps \<Rightarrow> string \<Rightarrow> string \<Rightarrow> thrown \<Rightarrow> unit op" where
  "failNodeAndRun deps runId nodeName error =
     await (st_failNode (store deps) runId nodeName error) (\<lambda>_. failRunAndWakeParent deps runId error)"

definition cancelNodeAndRun :: "RuntimeDeps \<Rightarrow> string \<Rightarrow> string \<Rightarrow> unit op" where
  "cancelNodeAndRun deps runId nodeName =
     await (st_cancelNode (store deps) runId nodeName) (\<lambda>_. cancelRunAndWakeParent deps runId)"

definition runKind_string :: "RunKind \<Rightarrow> string" where
  "runKind_string kind = (case kind of WorkflowRun \<Rightarrow> ''workflow'' | TaskRun \<Rightarrow> ''task'')"

definition failMissingChildRun :: "RuntimeDeps \<Rightarrow> string \<Rightarrow> string \<Rightarrow> RunKind \<Rightarrow> string \<Rightarrow> unit op" where
  "failMissingChildRun deps parentRunId nodeName childKind childRunId =
     failNodeAndRun deps parentRunId nodeName
       (new_Error (''Missing child '' @ runKind_string childKind @ '' run ['' @ childRunId @ '']''))"

section \<open>Attempts\<close>

definition TASK_RUN_NODE_NAME :: string where
  "TASK_RUN_NODE_NAME = ''$task''"

text \<open>
  What \<open>prepareAttempt\<close> returns: the attempt, the input of its command, and whether it was
  created. The error caught from the dispatch is failed into the attempt, the node and
  the run when the caller asks for it, and thrown again.
\<close>

definition dispatchPreparedAttempt ::
  "RuntimeDeps \<Rightarrow> string \<Rightarrow> string \<Rightarrow> bool \<Rightarrow> (StoredAttempt \<times> jsval \<times> bool) op
     \<Rightarrow> (StoredAttempt \<Rightarrow> jsval \<Rightarrow> unit op) \<Rightarrow> unit op" where
  "dispatchPreparedAttempt deps runId nodeName throwOnDispatchFailure prepareAttempt dispatch =
     await prepareAttempt (\<lambda>(attempt, commandInput, created).
     if \<not> created \<and> attempt_status attempt \<noteq> AStarted then ret ()
     else catch (dispatch attempt commandInput)
       (\<lambda>error.
          if throwOnDispatchFailure then
            await (reading rt_host) (\<lambda>host.
            await (st_failCurrentAttempt (store deps) (attempt_id attempt) (attempt_leaseToken attempt)
                     (error_object host error)) (\<lambda>_.
            await (failNodeAndRun deps runId nodeName (error_object host error)) (\<lambda>_.
            raise error)))
          else raise error))"

definition dispatchActivityAttempt ::
  "RuntimeDeps \<Rightarrow> string \<Rightarrow> string \<Rightarrow> string \<Rightarrow> string \<Rightarrow> string \<Rightarrow> bool
     \<Rightarrow> (StoredAttempt \<times> jsval \<times> bool) op \<Rightarrow> unit op" where
  "dispatchActivityAttempt deps workflowName activityName runId nodeName key throwOnDispatchFailure prepareAttempt =
     dispatchPreparedAttempt deps runId nodeName throwOnDispatchFailure prepareAttempt
       (\<lambda>attempt commandInput.
          ae_dispatchActivity (attemptExecutor deps)
            (ActivityAttempt workflowName activityName runId nodeName key (attempt_id attempt)
               (attempt_leaseToken attempt) commandInput (attempt_idempotencyKey attempt))
            None)"

definition dispatchTaskAttempt ::
  "RuntimeDeps \<Rightarrow> string \<Rightarrow> string \<Rightarrow> string \<Rightarrow> string \<Rightarrow> string \<Rightarrow> string option \<Rightarrow> int option \<Rightarrow> bool
     \<Rightarrow> (StoredAttempt \<times> jsval \<times> bool) op \<Rightarrow> unit op" where
  "dispatchTaskAttempt deps workflowName taskName runId nodeName key timeout runAt throwOnDispatchFailure prepareAttempt =
     dispatchPreparedAttempt deps runId nodeName throwOnDispatchFailure prepareAttempt
       (\<lambda>attempt commandInput.
          ae_dispatchTask (attemptExecutor deps)
            (TaskAttempt workflowName taskName runId nodeName key (attempt_id attempt)
               (attempt_leaseToken attempt) commandInput (attempt_idempotencyKey attempt) timeout)
            runAt)"

definition dispatchTaskRunAttempt ::
  "RuntimeDeps \<Rightarrow> string \<Rightarrow> string \<Rightarrow> jsval \<Rightarrow> jsval list option \<Rightarrow> string option \<Rightarrow> int option \<Rightarrow> bool \<Rightarrow> unit op" where
  "dispatchTaskRunAttempt deps taskName taskRunId taskInput idempotencyKey timeout startAt throwOnDispatchFailure =
     await (st_createNode (store deps) taskRunId TASK_RUN_NODE_NAME TaskNode) (\<lambda>_.
     await (st_setNodeInput (store deps) taskRunId TASK_RUN_NODE_NAME taskInput) (\<lambda>_.
     await (st_ensureNodeChildren (store deps) taskRunId TASK_RUN_NODE_NAME
              [\<lparr>ec_childKey = SELF_CHILD_KEY, ec_kind = TaskChild, ec_ordinal = None, ec_itemKey = None, ec_item = None\<rparr>]) (\<lambda>_.
     dispatchTaskAttempt deps taskName taskName taskRunId TASK_RUN_NODE_NAME SELF_CHILD_KEY timeout startAt
       throwOnDispatchFailure
       (await (st_ensureChildAttempt (store deps)
                 \<lparr>ca_runId = taskRunId, ca_nodeName = TASK_RUN_NODE_NAME, ca_childKey = SELF_CHILD_KEY,
                  ca_input = taskInput, ca_idempotencyKey = idempotencyKey\<rparr>)
          (\<lambda>(attempt, created). ret (attempt, if created then taskInput else attempt_input attempt, created))))))"

section \<open>Starting runs\<close>

text \<open>
  \<open>WorkflowRuntimeAtomicStart\<close>: what an adapter offers to create a run and its first
  command together; the connection of the caller is a transaction handle.
\<close>

record 'conn WorkflowRuntimeAtomicStart =
  as_startWorkflowRun :: "CreateRunInput \<Rightarrow> int option \<Rightarrow> 'conn option \<Rightarrow> StoredRun op"
  as_startTaskRun :: "CreateRunInput \<Rightarrow> string \<Rightarrow> jsval \<Rightarrow> jsval list option \<Rightarrow> int option \<Rightarrow> 'conn option \<Rightarrow> StoredRun op"

record 'conn StartOptions =
  so_atomicStart :: "'conn WorkflowRuntimeAtomicStart option"
  so_implementation :: "string option"
  so_input :: jsval
  so_tags :: "(string \<times> string) list option"
  so_idempotencyKey :: "jsval list option"
  so_unique :: "RunUniqueConstraint option"
  so_startAt :: "int option"
  so_connection :: "'conn option"

definition assertImplementationTarget :: "string option \<Rightarrow> string \<Rightarrow> string \<Rightarrow> unit op" where
  "assertImplementationTarget implementationTarget target label =
     (case implementationTarget of
        None \<Rightarrow> ret ()
      | Some name \<Rightarrow>
          if name \<noteq> target
          then raise (Thrown (new_Error (label @ '' ['' @ name @ ''] does not match ['' @ target @ '']'')))
          else ret ())"

definition assertNoStartConnection :: "'conn option \<Rightarrow> unit op" where
  "assertNoStartConnection connection =
     (if connection \<noteq> None
      then raise (Thrown (new_Error ''Workflow runtime adapter does not support caller-provided connections''))
      else ret ())"

text \<open>\<open>given ?? resolve()\<close>: the resolver runs only when nothing was given.\<close>

definition given_or :: "'a option \<Rightarrow> 'a option res \<Rightarrow> 'a option op" where
  "given_or given resolved = (case given of Some x \<Rightarrow> ret (Some x) | None \<Rightarrow> pureRes resolved)"

definition resolveWorkflowStartMetadata ::
  "WorkflowDefinition \<Rightarrow> 'conn StartOptions \<Rightarrow> jsval \<Rightarrow> ((string \<times> string) list option \<times> jsval list option) op" where
  "resolveWorkflowStartMetadata workflow input workflowInput =
     await (given_or (so_tags input) (resolveTags (wd_tags workflow) workflowInput)) (\<lambda>tags.
     await (given_or (so_idempotencyKey input) (resolveIdempotency (wd_idempotency workflow) workflowInput)) (\<lambda>idempotencyKey.
     ret (tags, idempotencyKey)))"

definition startWorkflowRun :: "RuntimeDeps \<Rightarrow> WorkflowDefinition \<Rightarrow> 'conn StartOptions \<Rightarrow> StoredRun op" where
  "startWorkflowRun deps workflow input =
     await (assertImplementationTarget (so_implementation input) (wd_name workflow) ''Workflow start implementation'') (\<lambda>_.
     await (sync (decodeSchemaValue (wd_input workflow) (so_input input)
              (''workflow input ['' @ wd_name workflow @ '']''))) (\<lambda>workflowInput.
     await (resolveWorkflowStartMetadata workflow input workflowInput) (\<lambda>(tags, idempotencyKey).
     await (given_or (so_unique input) (resolveUnique (wd_unique workflow) workflowInput)) (\<lambda>uniq.
     let runInput = \<lparr>cr_kind = Some WorkflowRun, cr_name = Some (wd_name workflow), cr_workflowName = wd_name workflow,
                     cr_taskName = None, cr_input = workflowInput, cr_parentRunId = None, cr_parentNodeName = None,
                     cr_rootRunId = None, cr_tags = tags, cr_idempotencyKey = idempotencyKey,
                     cr_unique = normalizeRunUnique uniq\<rparr>
     in case so_atomicStart input of
          Some atomicStart \<Rightarrow> as_startWorkflowRun atomicStart runInput (so_startAt input) (so_connection input)
        | None \<Rightarrow>
            await (assertNoStartConnection (so_connection input)) (\<lambda>_.
            await (st_createRun (store deps) runInput) (\<lambda>run.
            await (catch
                     (let command = \<lparr>cont_runId = run_id run, cont_workflowName = wd_name workflow\<rparr> in
                      case so_startAt input of
                        Some startAt \<Rightarrow> rce_enqueueDelayed (runCoordinationExecutor deps) command startAt
                      | None \<Rightarrow> rce_enqueue (runCoordinationExecutor deps) command)
                     (\<lambda>error.
                        await (reading rt_host) (\<lambda>host.
                        await (st_failRun (store deps) (run_id run) (error_object host error)) (\<lambda>_.
                        raise error)))) (\<lambda>_.
            ret run)))))))"

definition startTaskRun :: "RuntimeDeps \<Rightarrow> TaskDefinition \<Rightarrow> 'conn StartOptions \<Rightarrow> StoredRun op" where
  "startTaskRun deps task input =
     await (assertImplementationTarget (so_implementation input) (task_name task) ''Task start implementation'') (\<lambda>_.
     await (sync (decodeSchemaValue (task_input task) (so_input input)
              (''task input ['' @ task_name task @ '']''))) (\<lambda>taskInput.
     await (given_or (so_idempotencyKey input) (resolveIdempotency (task_idempotency task) taskInput)) (\<lambda>idempotencyKey.
     await (given_or (so_unique input) (resolveUnique (task_unique task) taskInput)) (\<lambda>uniq.
     await (given_or (so_tags input) (resolveTags (task_tags task) taskInput)) (\<lambda>tags.
     let runInput = \<lparr>cr_kind = Some TaskRun, cr_name = Some (task_name task), cr_workflowName = task_name task,
                     cr_taskName = Some (task_name task), cr_input = taskInput, cr_parentRunId = None,
                     cr_parentNodeName = None, cr_rootRunId = None, cr_tags = tags,
                     cr_idempotencyKey = idempotencyKey, cr_unique = normalizeRunUnique uniq\<rparr>
     in case so_atomicStart input of
          Some atomicStart \<Rightarrow>
            as_startTaskRun atomicStart runInput (task_name task) taskInput idempotencyKey (so_startAt input)
              (so_connection input)
        | None \<Rightarrow>
            await (assertNoStartConnection (so_connection input)) (\<lambda>_.
            await (st_createRun (store deps) runInput) (\<lambda>run.
            await (dispatchTaskRunAttempt deps (task_name task) (run_id run) taskInput idempotencyKey
                     (task_timeout task) (so_startAt input) True) (\<lambda>_.
            ret run))))))))"

section \<open>The atomic start of the in-memory runtime\<close>

definition atomic_startWorkflowRun :: "CreateRunInput \<Rightarrow> int option \<Rightarrow> StoredRun op" where
  "atomic_startWorkflowRun run startAt =
     await (createRunWithState run) (\<lambda>(started, created).
     if \<not> created then ret started
     else
       (let command = \<lparr>cont_runId = run_id started, cont_workflowName = run_workflowName started\<rparr> in
        await (case startAt of
                 Some t \<Rightarrow> rce_enqueueDelayed in_memory_coordination command t
               | None \<Rightarrow> rce_enqueue in_memory_coordination command) (\<lambda>_.
        ret started)))"

definition atomic_startTaskRun ::
  "CreateRunInput \<Rightarrow> string \<Rightarrow> jsval \<Rightarrow> jsval list option \<Rightarrow> int option \<Rightarrow> StoredRun op" where
  "atomic_startTaskRun run taskName taskInput idempotencyKey startAt =
     await (createRunWithState run) (\<lambda>(started, created).
     if \<not> created then ret started
     else
       await (dispatchTaskRunAttempt in_memory_deps taskName (run_id started) taskInput idempotencyKey None startAt True) (\<lambda>_.
       ret started))"

definition in_memory_atomicStart :: "'conn WorkflowRuntimeAtomicStart" where
  "in_memory_atomicStart =
     \<lparr>as_startWorkflowRun = (\<lambda>run startAt connection. atomic_startWorkflowRun run startAt),
      as_startTaskRun = (\<lambda>run taskName taskInput idempotencyKey startAt connection.
        atomic_startTaskRun run taskName taskInput idempotencyKey startAt)\<rparr>"

end
