(* ===== verification/CoordinatorSteps.thy ===== *)
theory CoordinatorSteps
  imports Coordinator NodeSafety
begin

text \<open>
  Programs over the store are sequences of steps of the state machine. \<open>works P m Q\<close> says that
  from a reachable state with \<open>P\<close> the program \<open>m\<close> only performs work steps and returns, when it
  returns, with \<open>Q\<close>. The locale \<open>coordination\<close> lists what a program relies on of the store
  and the executors it is given; the in-memory runtime and its lease-fenced store provide it.
\<close>

section \<open>The calculus\<close>

definition works :: "(runtime \<Rightarrow> bool) \<Rightarrow> 'a op \<Rightarrow> ('a \<Rightarrow> runtime \<Rightarrow> bool) \<Rightarrow> bool" where
  "works P m Q \<longleftrightarrow> (\<forall>s. reachable s \<longrightarrow> P s \<longrightarrow>
     work_step\<^sup>*\<^sup>* s (snd (m s)) \<and> (\<forall>x. fst (m s) = Inr x \<longrightarrow> Q x (snd (m s))))"

definition stable :: "(runtime \<Rightarrow> bool) \<Rightarrow> bool" where
  "stable P \<longleftrightarrow> (\<forall>s s'. P s \<longrightarrow> work_step s s' \<longrightarrow> P s')"

named_theorems works_intros \<open>one rule per construct and per program\<close>

lemma worksI:
  assumes "\<And>s. reachable s \<Longrightarrow> P s \<Longrightarrow> work_step\<^sup>*\<^sup>* s (snd (m s))"
    and "\<And>s x. reachable s \<Longrightarrow> P s \<Longrightarrow> fst (m s) = Inr x \<Longrightarrow> Q x (snd (m s))"
  shows "works P m Q"
  using assms by (simp add: works_def)

lemma works_steps: "works P m Q \<Longrightarrow> reachable s \<Longrightarrow> P s \<Longrightarrow> work_step\<^sup>*\<^sup>* s (snd (m s))"
  by (simp add: works_def)

lemma works_result: "works P m Q \<Longrightarrow> reachable s \<Longrightarrow> P s \<Longrightarrow> m s = (Inr x, s') \<Longrightarrow> Q x s'"
  by (force simp: works_def)

lemma work_steps_reachable: "work_step\<^sup>*\<^sup>* s s' \<Longrightarrow> reachable s \<Longrightarrow> reachable s'"
  by (induction rule: rtranclp_induct) (auto intro: reachable_work)

lemma works_reachable: "works P m Q \<Longrightarrow> reachable s \<Longrightarrow> P s \<Longrightarrow> reachable (snd (m s))"
  by (blast intro: works_steps work_steps_reachable)

lemma stable_steps: "work_step\<^sup>*\<^sup>* s s' \<Longrightarrow> stable P \<Longrightarrow> P s \<Longrightarrow> P s'"
  by (induction rule: rtranclp_induct) (auto simp: stable_def)

lemma stable_known [simp]: "stable (\<lambda>s. known_run s i)"
  by (auto simp: stable_def intro: known_run_later work_step_later)

lemma stable_conj [simp]: "stable P \<Longrightarrow> stable Q \<Longrightarrow> stable (\<lambda>s. P s \<and> Q s)"
  by (auto simp: stable_def)

lemma stable_const [simp]: "stable (\<lambda>s. b)"
  by (simp add: stable_def)

lemma works_mono:
  assumes "works P m Q" and "\<And>s. P' s \<Longrightarrow> P s" and "\<And>x s. Q x s \<Longrightarrow> Q' x s"
  shows "works P' m Q'"
  using assms unfolding works_def by blast

lemma works_weaken: "works P m Q \<Longrightarrow> works P m (\<lambda>_ _. True)"
  by (auto simp: works_def)

lemma works_await:
  assumes m: "works P m Q" and P: "stable P" and k: "\<And>x. works (\<lambda>s. P s \<and> Q x s) (k x) R"
  shows "works P (await m k) R"
proof (rule worksI)
  fix s assume s: "reachable s" "P s"
  obtain r s1 where ms: "m s = (r, s1)" by (cases "m s")
  have steps: "work_step\<^sup>*\<^sup>* s s1" using works_steps[OF m s] ms by simp
  show "work_step\<^sup>*\<^sup>* s (snd (await m k s))"
  proof (cases r)
    case (Inr x)
    have "P s1 \<and> Q x s1" using stable_steps[OF steps P s(2)] works_result[OF m s, of x s1] ms Inr by simp
    then have "work_step\<^sup>*\<^sup>* s1 (snd (k x s1))" by (rule works_steps[OF k work_steps_reachable[OF steps s(1)]])
    with steps ms Inr show ?thesis by (simp add: await_def)
  qed (simp add: await_def ms steps)
next
  fix s x assume s: "reachable s" "P s" and x: "fst (await m k s) = Inr x"
  obtain r s1 where ms: "m s = (r, s1)" by (cases "m s")
  have steps: "work_step\<^sup>*\<^sup>* s s1" using works_steps[OF m s] ms by simp
  from x ms obtain y where y: "r = Inr y" by (cases r) (simp_all add: await_def)
  have "P s1 \<and> Q y s1" using stable_steps[OF steps P s(2)] works_result[OF m s, of y s1] ms y by simp
  moreover have "k y s1 = (Inr x, snd (k y s1))" using x ms y by (cases "k y s1") (simp add: await_def)
  ultimately have "R x (snd (k y s1))" by (rule works_result[OF k work_steps_reachable[OF steps s(1)]])
  then show "R x (snd (await m k s))" using ms y by (simp add: await_def)
qed

text \<open>The usual case: what \<open>m\<close> returns plays no role for the rest.\<close>

lemma works_then:
  assumes "works P m Q" and "stable P" and "\<And>x. works P (k x) R"
  shows "works P (await m k) R"
  using assms(1,2) by (rule works_await) (use assms(3) in \<open>auto intro: works_mono\<close>)

lemma works_ret: "(\<And>s. P s \<Longrightarrow> Q x s) \<Longrightarrow> works P (ret x) Q"
  by (auto simp: works_def)

lemma works_raise [simp]: "works P (raise e) Q"
  by (simp add: works_def raise_def)

lemma works_pureRes: "(\<And>x s. r = Inr x \<Longrightarrow> P s \<Longrightarrow> Q x s) \<Longrightarrow> works P (pureRes r) Q"
  by (auto simp: works_def pureRes_def)

lemma works_sync: "(\<And>x s. r = Inr x \<Longrightarrow> P s \<Longrightarrow> Q x s) \<Longrightarrow> works P (sync r) Q"
  by (auto simp: works_def sync_def split: sum.splits)

lemma works_reading: "(\<And>s. reachable s \<Longrightarrow> P s \<Longrightarrow> Q (f s) s) \<Longrightarrow> works P (reading f) Q"
  by (simp add: works_def reading_def)

lemma works_total:
  assumes "\<And>s. P s \<Longrightarrow> work_step s (snd (f s))" and "\<And>s. reachable s \<Longrightarrow> P s \<Longrightarrow> Q (fst (f s)) (snd (f s))"
  shows "works P (total f) Q"
  using assms by (auto simp: works_def total_def)

lemma works_doing: "(\<And>s. P s \<Longrightarrow> work_step s (f s)) \<Longrightarrow> works P (doing f) (\<lambda>_ _. True)"
  by (auto simp: works_def doing_def)

lemma works_op:
  assumes "\<And>s. P s \<Longrightarrow> work_step s (snd (m s))"
    and "\<And>s x s'. reachable s \<Longrightarrow> P s \<Longrightarrow> m s = (Inr x, s') \<Longrightarrow> Q x s'"
  shows "works P m Q"
proof (rule worksI)
  show "Q x (snd (m s))" if "reachable s" "P s" "fst (m s) = Inr x" for s x
    using assms(2)[OF that(1,2), of x "snd (m s)"] that(3) by (cases "m s") simp
qed (use assms(1) in blast)

lemma works_catch:
  assumes m: "works P m Q" and P: "stable P" and h: "\<And>e. works P (h e) Q"
  shows "works P (catch m h) Q"
proof (rule worksI)
  fix s assume s: "reachable s" "P s"
  obtain r s1 where ms: "m s = (r, s1)" by (cases "m s")
  have steps: "work_step\<^sup>*\<^sup>* s s1" using works_steps[OF m s] ms by simp
  note later = work_steps_reachable[OF steps s(1)] stable_steps[OF steps P s(2)]
  show "work_step\<^sup>*\<^sup>* s (snd (catch m h s))"
    using steps works_steps[OF h later] ms by (cases r) (auto simp: catch_def intro: rtranclp_trans)
  show "Q x (snd (catch m h s))" if "fst (catch m h s) = Inr x" for x
    using that ms works_result[OF m s, of x s1] h later
    by (cases r) (auto simp: catch_def works_def)
qed

lemma works_each:
  assumes "\<And>x. x \<in> set xs \<Longrightarrow> works P (f x) (\<lambda>_ _. True)" and "stable P"
  shows "works P (each xs f) (\<lambda>_ _. True)"
  using assms(1)
proof (induction xs)
  case (Cons x xs)
  then show ?case using assms(2) by (auto intro!: works_then)
qed (simp add: works_ret)

lemma works_if: "(b \<Longrightarrow> works P m Q) \<Longrightarrow> (\<not> b \<Longrightarrow> works P m' Q) \<Longrightarrow> works P (if b then m else m') Q"
  by simp

lemma works_case_option:
  "works P m Q \<Longrightarrow> (\<And>x. y = Some x \<Longrightarrow> works P (k x) Q) \<Longrightarrow> works P (case y of None \<Rightarrow> m | Some x \<Rightarrow> k x) Q"
  by (cases y) auto

text \<open>A program that looks at the state it starts in.\<close>

lemma works_at: "(\<And>t. works P (m t) Q) \<Longrightarrow> works P (\<lambda>s. m s s) Q"
  by (simp add: works_def)


section \<open>What coordination relies on\<close>

text \<open>
  Every operation is a work step. A run that was created or loaded is known, and so are the
  runs its children link to; nodes and children are only made for known runs.
\<close>

abbreviation any :: "runtime \<Rightarrow> bool" where
  "any \<equiv> \<lambda>_. True"

abbreviation anything :: "'a \<Rightarrow> runtime \<Rightarrow> bool" where
  "anything \<equiv> \<lambda>_ _. True"

lemma anywhere: "works any m Q \<Longrightarrow> works P m anything"
  by (auto simp: works_def)

lemma works_seq: "works any m anything \<Longrightarrow> (\<And>x. works any (k x) anything) \<Longrightarrow> works any (await m k) anything"
  by (rule works_then) simp_all

lemma works_stop: "works any (ret x) anything"
  by (simp add: works_ret)

lemma works_run_each: "(\<And>x. works any (f x) anything) \<Longrightarrow> works any (each xs f) anything"
  by (rule works_each) simp_all

lemma works_case_prod: "(\<And>x y. p = (x, y) \<Longrightarrow> works P (f x y) Q) \<Longrightarrow> works P (case p of (x, y) \<Rightarrow> f x y) Q"
  by (cases p) simp

lemma works_reading_any: "works any (reading f) anything"
  by (simp add: works_reading)

lemma works_sync_any: "works any (sync x) anything"
  by (simp add: works_sync)

lemma task_node_name [simp]: "nodeNamePattern TASK_RUN_NODE_NAME"
  by (simp add: TASK_RUN_NODE_NAME_def nodeNamePattern_def name_start_char_def)

lemmas works_free = works_stop works_seq works_run_each

locale coordination =
  fixes deps :: RuntimeDeps
  assumes works_createRun: "root_input i \<Longrightarrow> works any (st_createRun (store deps) i) (\<lambda>r s. known_run s (run_id r))"
    and works_loadRunSnapshot: "works any (st_loadRunSnapshot (store deps) r)
        (\<lambda>found s. \<forall>snapshot. found = Some snapshot \<longrightarrow> known_run s r \<and> run_id (snap_run snapshot) = r)"
    and works_loadRuns: "works any (st_loadRuns (store deps) rs)
        (\<lambda>found s. \<forall>run \<in> set found. known_run s (run_id run) \<and> run_id run \<in> set rs)"
    and works_loadNodeChildren: "works any (st_loadNodeChildren (store deps) r n) anything"
    and works_createNode: "nodeNamePattern n \<Longrightarrow> works (\<lambda>s. known_run s r) (st_createNode (store deps) r n k) anything"
    and works_setNodeInput: "works any (st_setNodeInput (store deps) r n v) anything"
    and works_selectNodeCase: "works any (st_selectNodeCase (store deps) r n c) anything"
    and works_ensureNodeChildren: "distinct (map ec_childKey cs) \<Longrightarrow> works (\<lambda>s. known_run s r) (st_ensureNodeChildren (store deps) r n cs) anything"
    and works_ensureChildRun: "works (\<lambda>s. known_run s (ecr_runId p)) (st_ensureChildRun (store deps) p) (\<lambda>res s. known_run s (run_id (ecres_childRun res)))"
    and works_ensureChildAttempt: "works any (st_ensureChildAttempt (store deps) i') anything"
    and works_createAttempt: "works any (st_createAttempt (store deps) i') anything"
    and works_completeCurrentAttempt: "works any (st_completeCurrentAttempt (store deps) a l v) anything"
    and works_failCurrentAttempt: "works any (st_failCurrentAttempt (store deps) a l e) anything"
    and works_timeoutCurrentAttempt: "works any (st_timeoutCurrentAttempt (store deps) a l e) anything"
    and works_completeNodeChild: "works any (st_completeNodeChild (store deps) r n c v) anything"
    and works_failNodeChild: "works any (st_failNodeChild (store deps) r n c e) anything"
    and works_completeNode: "works any (st_completeNode (store deps) r n v) anything"
    and works_failNode: "works any (st_failNode (store deps) r n e) anything"
    and works_waitNode: "works any (st_waitNode (store deps) r n) anything"
    and works_cancelNode: "works any (st_cancelNode (store deps) r n) anything"
    and works_cancelNonTerminalRunNodes: "works any (st_cancelNonTerminalRunNodes (store deps) r) anything"
    and works_markRunRunning: "works any (st_markRunRunning (store deps) r) anything"
    and works_markRunWaiting: "works any (st_markRunWaiting (store deps) r) anything"
    and works_completeRun: "works any (st_completeRun (store deps) r v) anything"
    and works_failRun: "works any (st_failRun (store deps) r e) anything"
    and works_requestRunCancellation: "works any (st_requestRunCancellation (store deps) r) anything"
    and works_cancelRun: "works any (st_cancelRun (store deps) r) anything"
    and works_enqueue: "works any (rce_enqueue (runCoordinationExecutor deps) c') anything"
    and works_enqueueDelayed: "works any (rce_enqueueDelayed (runCoordinationExecutor deps) c' t) anything"
    and works_dispatchActivity: "works any (ae_dispatchActivity (attemptExecutor deps) cmd at') anything"
    and works_dispatchTask: "works any (ae_dispatchTask (attemptExecutor deps) cmd at') anything"
    and works_ack: "works any (ae_ack (attemptExecutor deps) claim) anything"
    and works_release: "works any (ae_release (attemptExecutor deps) claim opts) anything"
    and works_deleteUnclaimed: "works any (ae_deleteUnclaimed (attemptExecutor deps) r) anything"
begin

lemmas store_works =
  works_loadRunSnapshot[THEN works_weaken] works_loadRuns[THEN works_weaken] works_loadNodeChildren
  works_setNodeInput works_selectNodeCase works_ensureChildAttempt works_createAttempt
  works_completeCurrentAttempt works_failCurrentAttempt works_timeoutCurrentAttempt
  works_completeNodeChild works_failNodeChild works_completeNode works_failNode works_waitNode
  works_cancelNode works_cancelNonTerminalRunNodes works_markRunRunning works_markRunWaiting
  works_completeRun works_failRun works_requestRunCancellation works_cancelRun
  works_enqueue works_enqueueDelayed works_dispatchActivity works_dispatchTask works_ack
  works_release works_deleteUnclaimed

lemmas op_works = store_works[THEN anywhere]

lemma wakeParentRun_works: "works any (wakeParentRun deps run) anything"
  unfolding wakeParentRun_def by (auto intro!: works_free store_works split: option.split)

lemma cancelChildRun_works:
  assumes "\<And>r. works any (cancel r) anything"
  shows "works any (cancelChildRun cancel deps c) anything"
  unfolding cancelChildRun_def by (auto intro!: works_free store_works assms split: option.split)

lemma cancelRunTree_upto_works: "works any (cancelRunTree_upto n deps r) anything"
proof (induction n arbitrary: r)
  case (Suc n)
  show ?case by (auto intro!: works_free store_works cancelChildRun_works Suc.IH split: option.split)
qed simp

lemma cancelRunTree_works: "works any (cancelRunTree deps r) anything"
  unfolding cancelRunTree_def by (rule works_at) (rule cancelRunTree_upto_works)

lemma cancelNodeChildRunsAndCommands_works: "works any (cancelNodeChildRunsAndCommands deps r n) anything"
  unfolding cancelNodeChildRunsAndCommands_def
  by (auto intro!: works_free store_works cancelChildRun_works cancelRunTree_works)

lemma cancelFailedFanInNodeChildren_works: "works any (cancelFailedFanInNodeChildren deps workflow r node) anything"
  unfolding cancelFailedFanInNodeChildren_def
  by (auto intro!: works_free works_pureRes cancelNodeChildRunsAndCommands_works)

lemma sinks_work:
  "works any (completeRunAndWakeParent deps r v) anything" "works any (failRunAndWakeParent deps r e) anything"
  "works any (cancelRunAndWakeParent deps r) anything" "works any (failNodeAndRun deps r n e) anything"
  "works any (cancelNodeAndRun deps r n) anything" "works any (failMissingChildRun deps r n k c) anything"
  unfolding completeRunAndWakeParent_def failRunAndWakeParent_def cancelRunAndWakeParent_def failNodeAndRun_def
    cancelNodeAndRun_def failMissingChildRun_def
  by (intro works_seq store_works wakeParentRun_works cancelRunTree_works)+

lemma dispatchPreparedAttempt_works:
  assumes "works any prepare anything" and "\<And>a v. works any (dispatch a v) anything"
  shows "works any (dispatchPreparedAttempt deps r n b prepare dispatch) anything"
  unfolding dispatchPreparedAttempt_def
  by (intro works_seq[OF assms(1)] works_case_prod works_if works_stop works_catch assms(2) stable_const works_seq
        works_reading_any store_works sinks_work works_raise)

lemma dispatch_works:
  assumes "works any prepare anything"
  shows "works any (dispatchActivityAttempt deps w a r n c b prepare) anything"
    and "works any (dispatchTaskAttempt deps w a r n c t at' b prepare) anything"
  unfolding dispatchActivityAttempt_def dispatchTaskAttempt_def
  by (intro dispatchPreparedAttempt_works assms store_works)+

lemma dispatchTaskRunAttempt_works:
  "works (\<lambda>s. known_run s r) (dispatchTaskRunAttempt deps t r v key timeout at' b) anything"
  unfolding dispatchTaskRunAttempt_def
  by (rule works_then[OF works_createNode] works_then[OF works_setNodeInput[THEN anywhere]]
        works_then[OF works_ensureNodeChildren] anywhere[OF dispatch_works(2)] stable_known
      | simp add: works_free works_ensureChildAttempt works_case_prod)+

lemma given_or_works: "works any (given_or x y) anything"
  unfolding given_or_def by (auto intro!: works_stop works_pureRes split: option.split)

lemma assert_works:
  "works any (assertImplementationTarget x y l) anything" "works any (assertNoStartConnection c) anything"
  unfolding assertImplementationTarget_def assertNoStartConnection_def
  by (auto intro!: works_stop split: option.split)

lemmas start_parts = works_seq assert_works works_sync_any given_or_works works_stop works_case_prod

text \<open>A new task run is known, so its first attempt can be dispatched.\<close>

lemma create_task_works:
  assumes "root_input i"
  shows "works any (await (st_createRun (store deps) i) (\<lambda>run.
      await (dispatchTaskRunAttempt deps t (run_id run) v key timeout at' b) (\<lambda>_. ret run))) anything"
  by (rule works_await[OF works_createRun[OF assms] stable_const])
     (auto intro!: works_then[OF dispatchTaskRunAttempt_works[THEN works_mono]] works_ret)

lemma startWorkflowRun_works:
  assumes "\<And>a i at' c. so_atomicStart input = Some a \<Longrightarrow> root_input i \<Longrightarrow> works any (as_startWorkflowRun a i at' c) anything"
  shows "works any (startWorkflowRun deps workflow input) anything"
  unfolding startWorkflowRun_def resolveWorkflowStartMetadata_def Let_def
  by (intro start_parts works_case_option works_createRun[THEN works_weaken] works_catch stable_const works_reading_any
        store_works works_raise assms)
     (simp_all add: root_input_def)

lemma startTaskRun_works:
  assumes "\<And>a i n v k at' c. so_atomicStart input = Some a \<Longrightarrow> root_input i \<Longrightarrow> works any (as_startTaskRun a i n v k at' c) anything"
  shows "works any (startTaskRun deps task input) anything"
  unfolding startTaskRun_def Let_def
  by (intro works_seq assert_works works_sync_any given_or_works works_case_option create_task_works assms)
     (simp_all add: root_input_def)

end


section \<open>The in-memory runtime\<close>

lemma stored_run_known: "reachable s \<Longrightarrow> map_get (runs s) i = Some r \<Longrightarrow> known_run s i \<and> run_id r = i"
  using run_inv_row[OF run_invariant.holds] by (auto simp: run_row_ok_def)

lemma createRunWithState_old_run:
  "\<not> may_create input s \<Longrightarrow> createRunWithState input s = (Inr (r, created), s') \<Longrightarrow> \<exists>i. map_get (runs s) i = Some r \<and> s' = s"
  by (auto simp: createRunWithState_def may_create_def conflictingRun_def Let_def map_option_case
      split: option.splits if_splits RunUniqueBehavior.splits)

lemma created_run_known:
  assumes "reachable s" and "createRunWithState input s = (Inr (r, created), s')"
  shows "known_run s' (run_id r)"
proof (cases "may_create input s")
  case True
  with assms(2) show ?thesis by (auto simp: createRunWithState_new known_run_def quiet_fields after_create_def)
next
  case False
  then show ?thesis using createRunWithState_old_run[OF False assms(2)] stored_run_known[OF assms(1)] by auto
qed

lemma createRun_known:
  "reachable s \<Longrightarrow> createRun input s = (Inr r, s') \<Longrightarrow> known_run s' (run_id r)"
  using created_run_known[of s input r _ s']
  by (auto simp: createRun_def split: prod.splits sum.splits)

lemma loadRuns_known:
  assumes "reachable s" and "run \<in> set (loadRuns rs s)"
  shows "known_run s (run_id run) \<and> run_id run \<in> set rs"
proof -
  obtain i where "map_get (runs s) i = Some run" "i \<in> set rs"
    using assms(2) by (auto simp: loadRuns_def split: option.splits)
  then show ?thesis using stored_run_known[OF assms(1)] by blast
qed

lemma ensureChildRun_known:
  assumes "reachable s" and "ensureChildRun p s = (Inr res, s')"
  shows "known_run s' (run_id (ecres_childRun res))"
proof -
  have created: "known_run (snd (createRunWithState (childRunInput p) s)) (run_id r)"
    if "fst (createRunWithState (childRunInput p) s) = Inr (r, b)" for r b
    using created_run_known[OF assms(1), of "childRunInput p" r b] that by (metis prod.collapse)
  show ?thesis
    using assms(2) created stored_run_known[OF assms(1)]
    by (auto simp: ensureChildRun_def prim_simps known_run_def split: option.splits if_splits prod.splits sum.splits)
qed

lemma createRun_works: "root_input i \<Longrightarrow> works any (createRun i) (\<lambda>r s. known_run s (run_id r))"
proof (rule works_op)
  show "work_step s (snd (createRun i s))" if "root_input i" for s
    using create_run[OF that, of s] by (simp add: snd_createRun)
qed (rule createRun_known)

lemma reads_work:
  "works any (reading (loadRunSnapshot r))
     (\<lambda>found s. \<forall>snapshot. found = Some snapshot \<longrightarrow> known_run s r \<and> run_id (snap_run snapshot) = r)"
  "works any (reading (loadRuns rs)) (\<lambda>found s. \<forall>run \<in> set found. known_run s (run_id run) \<and> run_id run \<in> set rs)"
  "works any (reading (loadNodeChildren r n)) anything"
  by (rule works_reading; use stored_run_known loadRuns_known in \<open>auto simp: loadRunSnapshot_def split: option.splits\<close>)+

lemma rows_work:
  "nodeNamePattern n \<Longrightarrow> works (\<lambda>s. known_run s r) (total (createNode r n k)) anything"
  "works any (setNodeInput r n v) anything" "works any (selectNodeCase r n c) anything"
  "distinct (map ec_childKey cs) \<Longrightarrow> works (\<lambda>s. known_run s r) (ensureNodeChildren r n cs) anything"
  "works (\<lambda>s. known_run s (ecr_runId p)) (ensureChildRun p) (\<lambda>res s. known_run s (run_id (ecres_childRun res)))"
  "works any (ensureChildAttempt i) anything" "works any (createAttempt i) anything"
proof -
  show "works (\<lambda>s. known_run s r) (total (createNode r n k)) anything" if "nodeNamePattern n"
    by (rule works_total) (use that in \<open>auto intro: create_node\<close>)
qed (auto intro!: works_op intro: work_step.intros ensureChildRun_known)

lemma totals_work:
  "works any (total (completeCurrentAttempt a l v)) anything" "works any (total (failCurrentAttempt a l e)) anything"
  "works any (total (timeoutCurrentAttempt a l e)) anything" "works any (total (completeNodeChild r n c v)) anything"
  "works any (total (failNodeChild r n c e)) anything" "works any (total (completeNode r n v)) anything"
  "works any (total (failNode r n e)) anything" "works any (total (waitNode r n)) anything"
  "works any (total (cancelNode r n)) anything" "works any (total (cancelNonTerminalRunNodes r)) anything"
  "works any (total (markRunRunning r)) anything" "works any (total (markRunWaiting r)) anything"
  "works any (total (completeRun r v)) anything" "works any (total (failRun r e)) anything"
  "works any (total (requestRunCancellation r)) anything" "works any (total (cancelRun r)) anything"
  "works any (total (deleteUnclaimed r)) anything"
  by (rule works_total; (rule work_step.intros | simp))+

lemma executors_work:
  "works any (doing (enqueue c)) anything" "works any (doing (enqueueDelayed c t)) anything"
  "works any (doing (dispatchActivity cmd at')) anything" "works any (doing (dispatchTask cmd at')) anything"
  "works any (ackAttempt claim) anything" "works any (doing (releaseAttempt claim opts)) anything"
  unfolding enqueue_def enqueueDelayed_def
  by (auto intro!: works_doing works_op intro: work_step.intros)

lemmas raw_works = createRun_works reads_work rows_work totals_work executors_work

lemmas record_fields = RuntimeDeps.simps WorkflowStore.simps RunCoordinationExecutor.simps AttemptExecutor.simps

interpretation in_memory: coordination in_memory_deps
  by (unfold_locales;
      simp only: in_memory_deps_def in_memory_store_def in_memory_coordination_def in_memory_attempts_def record_fields;
      rule raw_works; assumption?)

section \<open>The lease-fenced store\<close>

definition fenced_deps :: "RunLease \<Rightarrow> int \<Rightarrow> RuntimeDeps" where
  "fenced_deps lease leaseMs = in_memory_deps\<lparr>store := createRunLeaseFencedStore in_memory_store lease leaseMs\<rparr>"

lemma fenced_fields:
  "st_createRun (createRunLeaseFencedStore st lease ms) i = fence st lease ms (st_createRun st i)"
  "st_createNode (createRunLeaseFencedStore st lease ms) r n k = fence st lease ms (st_createNode st r n k)"
  "st_setNodeInput (createRunLeaseFencedStore st lease ms) r n v = fence st lease ms (st_setNodeInput st r n v)"
  "st_createAttempt (createRunLeaseFencedStore st lease ms) i' = fence st lease ms (st_createAttempt st i')"
  "st_completeCurrentAttempt (createRunLeaseFencedStore st lease ms) a t v = fence st lease ms (st_completeCurrentAttempt st a t v)"
  "st_failCurrentAttempt (createRunLeaseFencedStore st lease ms) a t e = fence st lease ms (st_failCurrentAttempt st a t e)"
  "st_completeNode (createRunLeaseFencedStore st lease ms) r n v = fence st lease ms (st_completeNode st r n v)"
  "st_failNode (createRunLeaseFencedStore st lease ms) r n e = fence st lease ms (st_failNode st r n e)"
  "st_markRunRunning (createRunLeaseFencedStore st lease ms) r = fence st lease ms (st_markRunRunning st r)"
  "st_markRunWaiting (createRunLeaseFencedStore st lease ms) r = fence st lease ms (st_markRunWaiting st r)"
  "st_completeRun (createRunLeaseFencedStore st lease ms) r v = fence st lease ms (st_completeRun st r v)"
  "st_failRun (createRunLeaseFencedStore st lease ms) r e = fence st lease ms (st_failRun st r e)"
  "st_requestRunCancellation (createRunLeaseFencedStore st lease ms) r = fence st lease ms (st_requestRunCancellation st r)"
  "st_cancelRun (createRunLeaseFencedStore st lease ms) r = fence st lease ms (st_cancelRun st r)"
  "st_cancelNode (createRunLeaseFencedStore st lease ms) r n = fence st lease ms (st_cancelNode st r n)"
  "st_cancelNonTerminalRunNodes (createRunLeaseFencedStore st lease ms) r = fence st lease ms (st_cancelNonTerminalRunNodes st r)"
  "st_ensureNodeChildren (createRunLeaseFencedStore st lease ms) r n cs = fence st lease ms (st_ensureNodeChildren st r n cs)"
  "st_ensureChildRun (createRunLeaseFencedStore st lease ms) p = fence st lease ms (st_ensureChildRun st p)"
  "st_ensureChildAttempt (createRunLeaseFencedStore st lease ms) i' = fence st lease ms (st_ensureChildAttempt st i')"
  "st_selectNodeCase (createRunLeaseFencedStore st lease ms) r n c = fence st lease ms (st_selectNodeCase st r n c)"
  "st_completeNodeChild (createRunLeaseFencedStore st lease ms) r n c v = fence st lease ms (st_completeNodeChild st r n c v)"
  "st_failNodeChild (createRunLeaseFencedStore st lease ms) r n c e = fence st lease ms (st_failNodeChild st r n c e)"
  "st_waitNode (createRunLeaseFencedStore st lease ms) r n = fence st lease ms (st_waitNode st r n)"
  "st_loadRunSnapshot (createRunLeaseFencedStore st lease ms) = st_loadRunSnapshot st"
  "st_loadRuns (createRunLeaseFencedStore st lease ms) = st_loadRuns st"
  "st_loadNodeChildren (createRunLeaseFencedStore st lease ms) = st_loadNodeChildren st"
  "st_timeoutCurrentAttempt (createRunLeaseFencedStore st lease ms) = st_timeoutCurrentAttempt st"
  by (simp_all add: createRunLeaseFencedStore_def)

lemma fenced_deps_fields:
  "store (fenced_deps lease ms) = createRunLeaseFencedStore in_memory_store lease ms"
  "runCoordinationExecutor (fenced_deps lease ms) = in_memory_coordination"
  "attemptExecutor (fenced_deps lease ms) = in_memory_attempts"
  by (simp_all add: fenced_deps_def in_memory_deps_def)

lemma renewal_works: "works any (st_renewRunLease in_memory_store lease ms) anything"
  unfolding in_memory_store_def record_fields by (rule works_total) (auto intro: renew_lease)

lemma works_fence: "works P m Q \<Longrightarrow> stable P \<Longrightarrow> works P (fence in_memory_store lease ms m) Q"
  unfolding fence_def by (rule works_then[OF anywhere[OF renewal_works]]) simp_all

interpretation fenced: coordination "fenced_deps lease leaseMs" for lease leaseMs
  by (unfold_locales; simp only: fenced_deps_fields fenced_fields;
      (rule works_fence)?; (simp only: in_memory_store_def in_memory_coordination_def in_memory_attempts_def record_fields)?;
      (rule raw_works stable_const stable_known); assumption?)

end
