(* ===== verification/DeadCommands.thy ===== *)
theory DeadCommands
  imports QueueSafety
begin

text \<open>
  Dead-lettered commands and waiting continue commands. The identifiers of the two lanes never meet, so
  that marking a dead command marks the right one, and \<open>tidy\<close> says of a change that no dead
  command waits to be reaped that did not wait before, and that no continue command is lost.
\<close>

section \<open>The names of the lanes\<close>

definition lanes_named :: "runtime \<Rightarrow> bool" where
  "lanes_named s \<longleftrightarrow> (\<forall>i \<in># continue_ids s. \<exists>n. i = mk_id ''continue'' n)
     \<and> (\<forall>i \<in># attempt_cmd_ids s. \<exists>n. i = mk_id ''activity-command'' n \<or> i = mk_id ''task-command'' n)"

text \<open>A step adds no identifier to a lane but one of the form its commands have.\<close>

definition names_kept :: "runtime \<Rightarrow> runtime \<Rightarrow> bool" where
  "names_kept s s' \<longleftrightarrow> (\<forall>i \<in># continue_ids s'. i \<in># continue_ids s \<or> (\<exists>n. i = mk_id ''continue'' n))
     \<and> (\<forall>i \<in># attempt_cmd_ids s'. i \<in># attempt_cmd_ids s \<or> (\<exists>n. i = mk_id ''activity-command'' n \<or> i = mk_id ''task-command'' n))"

lemma names_kept_named: "lanes_named s \<Longrightarrow> names_kept s s' \<Longrightarrow> lanes_named s'"
  unfolding lanes_named_def names_kept_def by blast

lemma in_lane_ids: "i \<in># lane_ids queue claimed \<longleftrightarrow> i \<in> qi_id ` set queue \<or> i \<in> fst ` set claimed"
  by (simp add: lane_ids_def)

lemma lane_ids_set: "set_mset (lane_ids queue claimed) = qi_id ` set queue \<union> fst ` set claimed"
  by (simp add: lane_ids_def)

lemma names_frame: "queue_view s' = queue_view s \<Longrightarrow> names_kept s s'"
  by (simp add: names_kept_def queue_view_def)

lemma names_subset:
  assumes "set_mset (continue_ids s') \<subseteq> set_mset (continue_ids s)" and "set_mset (attempt_cmd_ids s') \<subseteq> set_mset (attempt_cmd_ids s)"
  shows "names_kept s s'"
  using assms unfolding names_kept_def by blast

lemma map_delete_keys: "fst ` set (map_delete k m) \<subseteq> fst ` set m"
  by (induction m) auto

lemma claims_named:
  assumes "queue_inv s"
  shows "names_kept s (snd (claimContinue w s))" "names_kept s (snd (ackContinue c s))" "names_kept s (releaseContinue c ro s)"
    "names_kept s (snd (claimAttempt w' s))" "names_kept s (snd (ackAttempt c' s))" "names_kept s (releaseAttempt c' ro s)"
proof -
  have ok: "continue_ok s" "attempt_ok s" using assms by (simp_all add: queue_inv_def)
  show "names_kept s (snd (claimContinue w s))" using continue_queue.claim_keeps[OF ok(1), of w] by (intro names_subset) simp_all
  show "names_kept s (snd (claimAttempt w' s))" using attempt_queue.claim_keeps[OF ok(2), of w'] by (intro names_subset) simp_all
  show "names_kept s (releaseContinue c ro s)" using continue_queue.release_keeps[OF ok(1), of c ro] by (intro names_subset) simp_all
  show "names_kept s (releaseAttempt c' ro s)" using attempt_queue.release_keeps[OF ok(2), of c' ro] by (intro names_subset) simp_all
  have "fst ` set (claimedContinueRunCommands (snd (ackContinue c s))) \<subseteq> fst ` set (claimedContinueRunCommands s)"
    "fst ` set (claimedAttemptCommands (snd (ackAttempt c' s))) \<subseteq> fst ` set (claimedAttemptCommands s)"
    by (simp_all add: ackContinue_def ackAttempt_def map_delete_keys)
  then show "names_kept s (snd (ackContinue c s))" "names_kept s (snd (ackAttempt c' s))"
    by (intro names_subset; simp add: lane_ids_set ackContinue_def ackAttempt_def le_supI2)+
qed

lemma calm_wake_queues [simp]:
  "continueRunCommands (wakeCommand k t s) = continueRunCommands s" "claimedContinueRunCommands (wakeCommand k t s) = claimedContinueRunCommands s"
  "attemptCommands (wakeCommand k t s) = attemptCommands s" "claimedAttemptCommands (wakeCommand k t s) = claimedAttemptCommands s"
  by (simp_all add: calm_queues[OF calm_wakeCommand])

lemma enqueue_named: "names_kept s (enqueueContinue c at' s)"
proof (cases "find_index (\<lambda>item. qi_deadAt item = None \<and> cont_runId (qi_payload item) = cont_runId c) (continueRunCommands s)")
  case None
  then show ?thesis by (auto simp: names_kept_def in_lane_ids enqueueContinue_def queueItem_def case_prod_beta Let_def)
next
  case (Some i)
  from find_index_Some[OF this] have "i < length (continueRunCommands s)" by simp
  then show ?thesis
    using Some nth_mem[of i "continueRunCommands s"]
    by (auto intro!: names_subset simp: in_lane_ids enqueueContinue_def Let_def set_update_subset_insert dest!: set_update_subset_insert[THEN subsetD])
qed

lemma dispatch_named: "names_kept s (dispatchActivity c at' s)" "names_kept s (dispatchTask c at' s)"
  by (auto simp: names_kept_def in_lane_ids dispatchActivity_def dispatchTask_def dispatchAttempt_def queueItem_def case_prod_beta Let_def)

lemma heartbeat_named: "names_kept s (snd (heartbeat c ms s))"
proof (rule names_subset)
  have keys: "fst ` set (map_set k w m) = insert k (fst ` set m)" for k :: string and w and m :: "(string \<times> 'z) list"
    by (induction m) auto
  have "fst ` set (claimedAttemptCommands (snd (heartbeat c ms s))) \<subseteq> fst ` set (claimedAttemptCommands s)"
  proof (cases "map_get (claimedAttemptCommands s) (claim_id c)")
    case (Some e)
    then have "claim_id c \<in> fst ` set (claimedAttemptCommands s)" by (rule image_eqI[OF _ map_of_SomeD, rotated]) simp
    then show ?thesis by (simp add: heartbeat_def case_prod_beta Let_def keys split: option.split)
  qed (simp add: heartbeat_def)
  moreover have "attemptCommands (snd (heartbeat c ms s)) = attemptCommands s"
    by (simp add: heartbeat_def case_prod_beta Let_def split: option.split)
  ultimately show "set_mset (attempt_cmd_ids (snd (heartbeat c ms s))) \<subseteq> set_mset (attempt_cmd_ids s)"
    by (simp add: lane_ids_set le_supI2)
qed (simp add: heartbeat_def case_prod_beta Let_def split: option.split)

lemma filter_named:
  assumes "set (continueRunCommands s') \<subseteq> set (continueRunCommands s)" "set (claimedContinueRunCommands s') \<subseteq> set (claimedContinueRunCommands s)"
    "set (attemptCommands s') \<subseteq> set (attemptCommands s)" "set (claimedAttemptCommands s') \<subseteq> set (claimedAttemptCommands s)"
  shows "names_kept s s'"
  by (intro names_subset; unfold lane_ids_set; intro Un_mono image_mono assms)

lemma removals_named:
  "names_kept s (snd (deleteUnclaimed r s))" "names_kept s (deleteRunTrees ids s)" "names_kept s (sweepDeadCommands t s)"
  by (rule filter_named; auto simp: deleteUnclaimed_def deleteRunTrees_def deleteQueueItemsForRunIds_def
      deleteClaimedCommandsForRunIds_def sweepDeadCommands_def sweepDeadQueueItems_def)+

lemma ids_update: "qi_id item = qi_id (xs ! i) \<Longrightarrow> i < length xs \<Longrightarrow> map qi_id (xs[i := item]) = map qi_id xs"
  by (simp add: map_update list_update_same_conv)

lemma same_ids: "map qi_id q' = map qi_id q \<Longrightarrow> lane_ids q' cl = lane_ids q cl"
  by (simp add: lane_ids_def)

lemma updates_named: "names_kept s (markDeadCommandReaped i s)" "names_kept s (requeueDeadCommand i s)"
  by (rule names_subset;
      auto simp: markDeadCommandReaped_def mark_reaped_def requeueDeadCommand_def requeueDead_def case_prod_beta Let_def
      same_ids[OF ids_update] dest!: find_index_Some split: option.splits)+

interpretation names_invariant: runtime_invariant "\<lambda>s. queue_inv s \<and> lanes_named s"
proof (rule runtime_invariant_conj[OF queue_invariant.runtime_invariant_axioms])
  show "lanes_named (createInMemoryWorkflowRuntime h n)" for h n
    by (simp add: lanes_named_def lane_ids_def createInMemoryWorkflowRuntime_def)
next
  fix s s' assume inv: "queue_inv s" and named: "lanes_named s"
  show "lanes_named s'" if "work_step s s'"
    using that
    by (rule work_step.cases)
       (auto intro!: names_kept_named[OF named] simp: claims_named[OF inv] enqueue_named dispatch_named heartbeat_named removals_named
         updates_named names_frame frame_simps calm_steps)
  show "lanes_named s'" if "delete_step s s'"
    using that by (cases rule: delete_step_cases) (use named in \<open>auto intro: names_kept_named[OF named] removals_named names_kept_named\<close>)
qed

section \<open>Reaping\<close>

definition unreaped_id :: "string \<Rightarrow> runtime \<Rightarrow> bool" where
  "unreaped_id i s \<longleftrightarrow> (\<exists>item \<in> set (continueRunCommands s). qi_id item = i \<and> unreaped item)
     \<or> (\<exists>item \<in> set (attemptCommands s). qi_id item = i \<and> unreaped item)"

definition queued_for :: "string \<Rightarrow> runtime \<Rightarrow> bool" where
  "queued_for r s \<longleftrightarrow> (\<exists>item \<in> set (continueRunCommands s). qi_deadAt item = None \<and> cont_runId (qi_payload item) = r)"

definition tidy :: "runtime \<Rightarrow> runtime \<Rightarrow> bool" where
  "tidy s s' \<longleftrightarrow> (\<forall>i. unreaped_id i s' \<longrightarrow> unreaped_id i s) \<and> (\<forall>r. queued_for r s \<longrightarrow> queued_for r s')"

lemma tidy_refl: "tidy s s" and tidy_trans: "tidy s t \<Longrightarrow> tidy t u \<Longrightarrow> tidy s u"
  by (simp_all add: tidy_def)

lemma tidy_subset:
  assumes "continueRunCommands s' = continueRunCommands s" and "set (attemptCommands s') \<subseteq> set (attemptCommands s)"
  shows "tidy s s'"
  using assms unfolding tidy_def unreaped_id_def queued_for_def by auto

lemma tidy_frame: "queue_view s' = queue_view s \<Longrightarrow> tidy s s'"
  by (rule tidy_subset) (simp_all add: queue_view_def)

lemma tidy_unclaimed: "tidy s (snd (deleteUnclaimed r s))"
  by (rule tidy_subset) (auto simp: deleteUnclaimed_def)

text \<open>Replacing one item of the continue queue.\<close>

lemma tidy_replace:
  assumes "i < length (continueRunCommands s)" and "continueRunCommands s' = (continueRunCommands s)[i := item]"
    and "attemptCommands s' = attemptCommands s" and "\<not> unreaped item"
    and "qi_deadAt (continueRunCommands s ! i) = None \<Longrightarrow>
      qi_deadAt item = None \<and> cont_runId (qi_payload item) = cont_runId (qi_payload (continueRunCommands s ! i))"
  shows "tidy s s'"
proof -
  have "unreaped_id j s" if "unreaped_id j s'" for j
    using that assms(2-4) set_update_subset_insert[of "continueRunCommands s" i item] by (auto simp: unreaped_id_def)
  moreover have "queued_for r s'" if r: "queued_for r s" for r
  proof -
    obtain k where k: "k < length (continueRunCommands s)" "qi_deadAt (continueRunCommands s ! k) = None"
        "cont_runId (qi_payload (continueRunCommands s ! k)) = r"
      using r by (auto simp: queued_for_def in_set_conv_nth)
    let ?x = "continueRunCommands s' ! k"
    have "?x \<in> set (continueRunCommands s')" using k(1) assms(2) by simp
    moreover have "qi_deadAt ?x = None \<and> cont_runId (qi_payload ?x) = r"
      using k assms(1,2,5) by (cases "k = i") simp_all
    ultimately show ?thesis unfolding queued_for_def by blast
  qed
  ultimately show ?thesis by (simp add: tidy_def)
qed

lemma tidy_enqueue: "tidy s (enqueueContinue c at' s)"
proof (cases "find_index (\<lambda>item. qi_deadAt item = None \<and> cont_runId (qi_payload item) = cont_runId c) (continueRunCommands s)")
  case None
  then show ?thesis
    by (auto simp: tidy_def unreaped_id_def queued_for_def unreaped_def enqueueContinue_def queueItem_def case_prod_beta Let_def)
next
  case (Some i)
  with find_index_Some[OF this] show ?thesis
    by (intro tidy_replace[of i]) (auto simp: enqueueContinue_def unreaped_def Let_def)
qed

lemma distinct_lane:
  assumes "lane_ok maxD n queue claimed" and "i < length queue" "j < length queue" and "qi_id (queue ! i) = qi_id (queue ! j)"
  shows "i = j"
  using assms nth_eq_iff_index_eq[of "map qi_id queue" i j] by (simp add: lane_ok_def)

lemma marked_in_lane:
  assumes "lane_ok maxD n queue claimed" and "find_index (\<lambda>item. qi_id item = i \<and> unreaped item) queue = Some k"
    and "item \<in> set (queue[k := (queue ! k)\<lparr>qi_reapedAt := Some t\<rparr>])" "unreaped item"
  shows "item \<in> set queue \<and> qi_id item \<noteq> i"
proof -
  note k = find_index_Some[OF assms(2)]
  obtain j where j: "j < length queue" "item = queue[k := (queue ! k)\<lparr>qi_reapedAt := Some t\<rparr>] ! j"
    using assms(3) by (auto simp: in_set_conv_nth)
  with assms(4) have "j \<noteq> k" by (auto simp: unreaped_def)
  with j have "item = queue ! j" by simp
  moreover have "qi_id (queue ! j) \<noteq> i" using distinct_lane[OF assms(1) j(1), of k] k \<open>j \<noteq> k\<close> by auto
  ultimately show ?thesis using j(1) by simp
qed

lemma lane_names:
  assumes "lanes_named s" and "item \<in> set (continueRunCommands s)" and "item' \<in> set (attemptCommands s)"
  shows "qi_id item \<noteq> qi_id item'"
proof -
  have "\<exists>n. qi_id item = mk_id ''continue'' n" "\<exists>n. qi_id item' = mk_id ''activity-command'' n \<or> qi_id item' = mk_id ''task-command'' n"
    using assms by (auto simp: lanes_named_def in_lane_ids)
  then show ?thesis by auto
qed

lemma not_unreaped: "find_index (\<lambda>item. qi_id item = i \<and> unreaped item) queue = None \<Longrightarrow> item \<in> set queue \<Longrightarrow> unreaped item \<Longrightarrow> qi_id item \<noteq> i"
  by (auto simp: find_index_None)

text \<open>Marking a command reaps it, whichever lane it is in, and reaps nothing else.\<close>

lemma mark_reaps:
  assumes "reachable s"
  shows "\<not> unreaped_id i (markDeadCommandReaped i s)" and "tidy s (markDeadCommandReaped i s)"
proof -
  have inv: "queue_inv s" "lanes_named s" using names_invariant.holds[OF assms] by simp_all
  then have lanes: "lane_ok (maxDeliveries s) (nextId s) (continueRunCommands s) (claimedContinueRunCommands s)"
      "lane_ok (maxDeliveries s) (nextId s) (attemptCommands s) (claimedAttemptCommands s)"
    by (simp_all add: queue_inv_def continue_ok_def attempt_ok_def)
  let ?P = "\<lambda>item. qi_id item = i \<and> unreaped item"
  have "\<not> unreaped_id i (markDeadCommandReaped i s) \<and> tidy s (markDeadCommandReaped i s)"
  proof (cases "find_index ?P (continueRunCommands s)")
    case (Some k)
    note k = find_index_Some[OF Some]
    have other: "qi_id item \<noteq> i" if "item \<in> set (attemptCommands s)" for item
      using lane_names[OF inv(2) nth_mem[of k] that] k by auto
    have new: "markDeadCommandReaped i s = (snd (now s))\<lparr>continueRunCommands := (continueRunCommands s)[k := (continueRunCommands s ! k)\<lparr>qi_reapedAt := Some (fst (now s))\<rparr>]\<rparr>"
      using Some by (simp add: markDeadCommandReaped_def mark_reaped_def case_prod_beta)
    have "\<not> unreaped_id i (markDeadCommandReaped i s)"
      unfolding new unreaped_id_def using marked_in_lane[OF lanes(1) Some] other by auto
    moreover have "tidy s (markDeadCommandReaped i s)"
      unfolding new using k by (intro tidy_replace[of k]) (auto simp: unreaped_def)
    ultimately show ?thesis by simp
  next
    case None
    note free = not_unreaped[OF None]
    show ?thesis
    proof (cases "find_index ?P (attemptCommands s)")
      case (Some k)
      have "markDeadCommandReaped i s = (snd (now s))\<lparr>attemptCommands := (attemptCommands s)[k := (attemptCommands s ! k)\<lparr>qi_reapedAt := Some (fst (now s))\<rparr>]\<rparr>"
        using None Some by (simp add: markDeadCommandReaped_def mark_reaped_def case_prod_beta)
      then show ?thesis
        using marked_in_lane[OF lanes(2) Some] free by (auto simp: tidy_def unreaped_id_def queued_for_def)
    next
      case none: None
      have "markDeadCommandReaped i s = s" using None none by (simp add: markDeadCommandReaped_def mark_reaped_def)
      then show ?thesis using free not_unreaped[OF none] by (auto simp: unreaped_id_def tidy_refl)
    qed
  qed
  then show "\<not> unreaped_id i (markDeadCommandReaped i s)" "tidy s (markDeadCommandReaped i s)" by simp_all
qed

text \<open>The list of unreaped dead commands is what waits to be reaped.\<close>

lemma dead_ids:
  "mapDeadContinue item = Some command \<Longrightarrow> dc_id command = qi_id item"
  "mapDeadAttempt item' = Some command \<Longrightarrow> dc_id command = qi_id item'"
  by (auto simp: mapDeadContinue_def mapDeadAttempt_def Let_def split: option.splits)

lemma listed_unreaped:
  assumes "command \<in> set (listUnreapedDeadCommands limit s)"
  shows "unreaped_id (dc_id command) s"
proof -
  have "command \<in> set (List.map_filter mapDeadContinue (filter unreaped (continueRunCommands s))
      @ List.map_filter mapDeadAttempt (filter unreaped (attemptCommands s)))"
    using assms by (auto simp: listUnreapedDeadCommands_def js_prefix_def split: option.splits dest: in_set_takeD)
  then consider item where "item \<in> set (continueRunCommands s)" "unreaped item" "mapDeadContinue item = Some command"
    | item where "item \<in> set (attemptCommands s)" "unreaped item" "mapDeadAttempt item = Some command"
    unfolding set_append Un_iff by (auto simp: List.map_filter_def)
  then show ?thesis by cases (auto simp: unreaped_id_def dead_ids)
qed

end
