(* ===== verification/CancelTree.thy ===== *)
theory CancelTree
  imports CoordinatorSteps DeadCommands Samples
begin

text \<open>
  \<open>cancelRunTree\<close> reaches the whole family of a run. Children link to the runs they started,
  and links lead to runs issued later; a pass over them settles everything that was still
  live below the run, and the depth bound of the model is never reached.
\<close>

section \<open>Links and settled runs\<close>

definition link :: "runtime \<Rightarrow> string \<Rightarrow> string \<Rightarrow> bool" where
  "link s d e \<longleftrightarrow> (\<exists>k c. map_get (children s) k = Some c \<and> child_runId c = d \<and> child_childRunId c = Some e)"

definition finished :: "runtime \<Rightarrow> string \<Rightarrow> bool" where
  "finished s i \<longleftrightarrow> (\<exists>r. map_get (runs s) i = Some r \<and> isTerminalRunStatus (run_status r))"

definition settled :: "runtime \<Rightarrow> string \<Rightarrow> bool" where
  "settled s i \<longleftrightarrow> map_get (runs s) i = None \<or> finished s i"

lemma link_cong: "children s' = children s \<Longrightarrow> link s' = link s"
  by (simp add: link_def fun_eq_iff)

lemma link_order:
  assumes "reachable s" and "link s d e"
  shows "\<exists>k j. d = mk_id ''run'' k \<and> e = mk_id ''run'' j \<and> k < j \<and> j < nextId s"
  using assms node_inv_rows(2)[of s] node_invariant.holds[OF assms(1)]
  by (fastforce simp: link_def child_row_ok_def run_before_def known_run_def)

text \<open>Every node and every child of a run is final.\<close>

definition rows_over :: "runtime \<Rightarrow> string \<Rightarrow> bool" where
  "rows_over s i \<longleftrightarrow> (\<forall>k n. map_get (nodes s) k = Some n \<longrightarrow> node_runId n = i \<longrightarrow> isTerminalNodeStatus (node_status n))
     \<and> (\<forall>k c. map_get (children s) k = Some c \<longrightarrow> child_runId c = i \<longrightarrow> isTerminalNodeStatus (child_status c))"

lemma rows_over_cong: "nodes s' = nodes s \<Longrightarrow> children s' = children s \<Longrightarrow> rows_over s' = rows_over s"
  by (simp add: rows_over_def fun_eq_iff)

text \<open>
  What a cancellation does to the tables: links and stored runs stay, finished runs and rows stay
  finished, a run that became finished has no live row and nothing live below it, and
  the queues stay tidy.
\<close>

definition cancels :: "runtime \<Rightarrow> runtime \<Rightarrow> bool" where
  "cancels s s' \<longleftrightarrow> link s' = link s
     \<and> (\<forall>i. map_get (runs s') i = None \<longleftrightarrow> map_get (runs s) i = None)
     \<and> (\<forall>i. finished s i \<longrightarrow> finished s' i)
     \<and> (\<forall>d e. \<not> finished s d \<longrightarrow> finished s' d \<longrightarrow> link s d e \<longrightarrow> settled s' e)
     \<and> (\<forall>d. rows_over s d \<longrightarrow> rows_over s' d) \<and> (\<forall>d. \<not> finished s d \<longrightarrow> finished s' d \<longrightarrow> rows_over s' d)
     \<and> tidy s s'"

lemma finished_cong: "runs s' = runs s \<Longrightarrow> finished s' = finished s"
  by (simp add: finished_def fun_eq_iff)

lemma cancels_same:
  assumes "link s' = link s" and "runs s' = runs s" and "\<And>d. rows_over s d \<Longrightarrow> rows_over s' d" and "tidy s s'"
  shows "cancels s s'"
  using assms finished_cong[of s' s] by (auto simp: cancels_def)

lemma cancels_refl: "cancels s s"
  by (rule cancels_same) (simp_all add: tidy_refl)

lemma cancels_settled: "cancels s s' \<Longrightarrow> settled s i \<Longrightarrow> settled s' i"
  by (auto simp: cancels_def settled_def)

lemma cancels_trans [trans]:
  assumes "cancels s t" and "cancels t u"
  shows "cancels s u"
proof -
  have "settled u e" if "\<not> finished s d" "finished u d" "link s d e" for d e
  proof (cases "finished t d")
    case True
    with that(1,3) assms(1) have "settled t e" unfolding cancels_def by blast
    with assms(2) show ?thesis by (rule cancels_settled)
  next
    case False
    moreover have "link t d e" using that(3) assms(1) by (simp add: cancels_def)
    ultimately show ?thesis using that(2) assms(2) unfolding cancels_def by blast
  qed
  moreover have "link u = link s" "\<forall>i. (map_get (runs u) i = None) = (map_get (runs s) i = None)"
    "\<forall>i. finished s i \<longrightarrow> finished u i"
    using assms by (simp_all add: cancels_def)
  moreover have "rows_over u d" if "\<not> finished s d" "finished u d" for d
    using assms that unfolding cancels_def by blast
  moreover have "\<forall>d. rows_over s d \<longrightarrow> rows_over u d" "tidy s u" using assms by (auto simp: cancels_def intro: tidy_trans)
  ultimately show ?thesis unfolding cancels_def by blast
qed

section \<open>The operations of a cancellation\<close>

lemma view_same:
  assumes "run_view s' = run_view s" and "node_view s' = node_view s" and "tidy s s'"
  shows "cancels s s'"
proof (rule cancels_same)
  show "rows_over s' d" if "rows_over s d" for d using that assms(2) rows_over_cong[of s' s] by (simp add: view_defs)
qed (use assms in \<open>auto simp: view_defs intro: link_cong\<close>)

text \<open>Writing one run row.\<close>

lemma written_cancels:
  assumes "map_get (runs s) i = Some r" and "runs s' = map_set i r' (runs s)" and "node_view s' = node_view s"
    and "\<not> isTerminalRunStatus (run_status r)"
    and "\<And>e. isTerminalRunStatus (run_status r') \<Longrightarrow> link s i e \<Longrightarrow> settled s e"
    and "isTerminalRunStatus (run_status r') \<Longrightarrow> rows_over s i" and "tidy s s'"
  shows "cancels s s'"
proof -
  have fin: "finished s' j \<longleftrightarrow> (if j = i then isTerminalRunStatus (run_status r') else finished s j)" for j
    using assms(2) by (simp add: finished_def)
  moreover have "(map_get (runs s') j = None) = (map_get (runs s) j = None)" for j
    using assms(1,2) by simp
  moreover have "\<not> finished s i" using assms(1,4) by (simp add: finished_def)
  moreover have "settled s' e" if "finished s' i" "link s i e" for e
    using assms(5)[of e] that fin calculation(2) by (auto simp: settled_def)
  moreover have "link s' = link s" using assms(3) by (intro link_cong) (simp add: view_defs)
  moreover have "rows_over s' = rows_over s" using assms(3) by (intro rows_over_cong) (simp_all add: view_defs)
  ultimately show ?thesis
    unfolding cancels_def using assms(6,7) by (intro conjI allI impI) (auto split: if_splits)
qed

lemma request_cancels: "cancels s (snd (requestRunCancellation i s))"
proof (cases "\<exists>r. map_get (runs s) i = Some r \<and> \<not> isTerminalRunStatus (run_status r) \<and> run_status r \<noteq> RCancelling")
  case True
  then obtain r where r: "map_get (runs s) i = Some r" "\<not> isTerminalRunStatus (run_status r)" "run_status r \<noteq> RCancelling"
    by blast
  note w = requestRunCancellation_writes[OF r]
  show ?thesis
    by (rule written_cancels[OF r(1) w[unfolded writes_run_def, THEN conjunct2, THEN conjunct1] _ r(2)])
       (simp_all add: run_status_frames tidy_frame)
next
  case False
  then have "snd (requestRunCancellation i s) = s" by (intro run_status_quiet(5)) blast
  then show ?thesis by (simp add: cancels_refl)
qed

lemma cancelRun_cancels:
  assumes "\<And>e. link s i e \<Longrightarrow> settled s e" and "rows_over s i"
  shows "cancels s (snd (cancelRun i s)) \<and> settled (snd (cancelRun i s)) i \<and> fst (cancelRun i s) = map_get (runs (snd (cancelRun i s))) i"
proof (cases "\<exists>r. map_get (runs s) i = Some r \<and> \<not> isTerminalRunStatus (run_status r)")
  case True
  then obtain r where r: "map_get (runs s) i = Some r" "\<not> isTerminalRunStatus (run_status r)" by blast
  note w = cancelRun_writes[OF r, unfolded writes_run_def, THEN conjunct2, THEN conjunct1]
  have "cancels s (snd (cancelRun i s))"
    by (rule written_cancels[OF r(1) w _ r(2)]) (simp_all add: assms run_status_frames tidy_frame)
  moreover have "settled (snd (cancelRun i s)) i" by (simp add: settled_def finished_def w)
  moreover have "fst (cancelRun i s) = map_get (runs (snd (cancelRun i s))) i" using r w by (simp add: cancelRun_def prim_simps)
  ultimately show ?thesis by blast
next
  case False
  then have "snd (cancelRun i s) = s" by (intro run_status_quiet(6)) blast
  moreover have "fst (cancelRun i s) = map_get (runs s) i"
    using False by (cases "map_get (runs s) i") (simp_all add: cancelRun_def)
  ultimately show ?thesis using False by (cases "map_get (runs s) i") (simp_all add: cancels_refl settled_def finished_def)
qed

lemma cancel_child_step_link:
  assumes "node_inv s" and "map_get (children s) k = Some c"
  shows "link (cancel_child_step i c s) = link s"
proof -
  let ?s' = "cancel_child_step i c s"
  have k: "childKey (child_runId c) (child_nodeName c) (child_childKey c) = k"
    using node_inv_rows(2)[OF assms] by (simp add: child_row_ok_def)
  have "\<exists>c'. map_get (children ?s') k = Some c' \<and> child_runId c' = child_runId c \<and> child_childRunId c' = child_childRunId c"
    using k assms(2) by (simp add: cancel_child_step_def prim_simps)
  then obtain c' where c': "map_get (children ?s') k = Some c'" "child_runId c' = child_runId c" "child_childRunId c' = child_childRunId c"
    by blast
  have other: "\<And>k'. k' \<noteq> k \<Longrightarrow> map_get (children ?s') k' = map_get (children s) k'"
    by (rule cancel_child_step_writes(2)[OF assms])
  show ?thesis
    unfolding link_def fun_eq_iff using c' other assms(2) by (metis option.inject)
qed

lemma cancel_children_links:
  "node_inv s \<Longrightarrow> wf_map es \<Longrightarrow> (\<And>k c. (k, c) \<in> set es \<Longrightarrow> map_get (children s) k = Some c) \<Longrightarrow>
     link (fold (cancel_child_step i) (map_values es) s) = link s"
proof (induction es arbitrary: s)
  case (Cons e es)
  obtain k c where e: "e = (k, c)" by (cases e)
  have row: "map_get (children s) k = Some c" using Cons.prems(3) e by simp
  note w = cancel_child_step_writes[OF Cons.prems(1) row, where i = i]
  have "link (fold (cancel_child_step i) (map_values es) (cancel_child_step i c s)) = link (cancel_child_step i c s)"
  proof (rule Cons.IH)
    show "node_inv (cancel_child_step i c s)" using node_inv_writes[OF w(1) Cons.prems(1)] .
    show "map_get (children (cancel_child_step i c s)) k' = Some c'" if "(k', c') \<in> set es" for k' c'
      using w(2)[of k'] that Cons.prems(2) Cons.prems(3)[of k' c'] e by (force simp: image_iff)
  qed (use Cons.prems(2) in simp)
  with cancel_child_step_link[OF Cons.prems(1) row] e show ?case by simp
qed simp

lemma cancel_node_steps_children [simp]:
  "children (snd (fold (cancel_node_step i) ns acc)) = children (snd acc)"
  by (induction ns arbitrary: acc) (auto simp: cancel_node_step_def prim_simps split: prod.splits)

text \<open>
  A loop over the rows of a table that ends those of a run: nothing else changes, and a row
  that was final stays as it is.
\<close>

lemma ending_loop:
  assumes "\<And>r s. map_get (tbl s) (key r) = Some r \<Longrightarrow>
      \<exists>r'. (\<forall>k. map_get (tbl (f r s)) k = (if k = key r then Some r' else map_get (tbl s) k))
         \<and> run r' = run r \<and> (over r \<longrightarrow> r' = r) \<and> (run r = i \<longrightarrow> over r')"
    and "\<And>k r. (k, r) \<in> set es \<Longrightarrow> map_get (tbl s) k = Some r \<and> key r = k" and "wf_map es"
    and "map_get (tbl (fold f (map_values es) s)) k = Some r'"
  shows "\<exists>r. map_get (tbl s) k = Some r \<and> run r' = run r \<and> (over r \<longrightarrow> r' = r) \<and> (k \<in> fst ` set es \<longrightarrow> run r = i \<longrightarrow> over r')"
  using assms(2-)
proof (induction es arbitrary: s)
  case (Cons e es)
  obtain j x where e: "e = (j, x)" by (cases e)
  with Cons.prems(1) have x: "map_get (tbl s) (key x) = Some x" "key x = j" by auto
  from assms(1)[OF x(1)] obtain x' where x': "\<And>k. map_get (tbl (f x s)) k = (if k = j then Some x' else map_get (tbl s) k)"
      "run x' = run x" "over x \<longrightarrow> x' = x" "run x = i \<longrightarrow> over x'" unfolding x(2) by blast
  have fresh: "j \<notin> fst ` set es" "wf_map es" using Cons.prems(2) e by auto
  obtain y where y: "map_get (tbl (f x s)) k = Some y" "run r' = run y" "over y \<longrightarrow> r' = y" "k \<in> fst ` set es \<longrightarrow> run y = i \<longrightarrow> over r'"
  proof (rule Cons.IH[of "f x s", THEN exE])
    show "map_get (tbl (f x s)) k' = Some r \<and> key r = k'" if "(k', r) \<in> set es" for k' r
      using Cons.prems(1)[of k' r] that fresh(1) x'(1)[of k'] by (auto simp: image_iff)
    show "wf_map es" by (rule fresh(2))
    show "map_get (tbl (fold f (map_values es) (f x s))) k = Some r'" using Cons.prems(3) e by simp
  qed (use that in blast)
  show ?case
  proof (cases "k = j")
    case True
    with x'(1)[of k] y(1) have "y = x'" by simp
    with True x x' y(2,3) show ?thesis by (intro exI[of _ x]) auto
  next
    case False
    with x'(1)[of k] y e show ?thesis by (intro exI[of _ y]) auto
  qed
qed auto

lemma cancel_node_step_ends:
  assumes "map_get (nodes (snd acc)) (nodeKey (node_runId n) (node_name n)) = Some n"
  shows "\<exists>n'. (\<forall>k. map_get (nodes (snd (cancel_node_step i n acc))) k = (if k = nodeKey (node_runId n) (node_name n) then Some n' else map_get (nodes (snd acc)) k))
    \<and> node_runId n' = node_runId n \<and> (isTerminalNodeStatus (node_status n) \<longrightarrow> n' = n) \<and> (node_runId n = i \<longrightarrow> isTerminalNodeStatus (node_status n'))"
  using assms by (cases "node_runId n = i \<and> \<not> isTerminalNodeStatus (node_status n)")
    (auto simp: cancel_node_step_def case_prod_beta Let_def isTerminalNodeStatus_def)

lemma cancel_child_step_ends:
  assumes "map_get (children s) (childKey (child_runId c) (child_nodeName c) (child_childKey c)) = Some c"
  shows "\<exists>c'. (\<forall>k. map_get (children (cancel_child_step i c s)) k
        = (if k = childKey (child_runId c) (child_nodeName c) (child_childKey c) then Some c' else map_get (children s) k))
    \<and> child_runId c' = child_runId c \<and> (isTerminalNodeStatus (child_status c) \<longrightarrow> c' = c) \<and> (child_runId c = i \<longrightarrow> isTerminalNodeStatus (child_status c'))"
  using assms by (cases "child_runId c = i \<and> \<not> isTerminalNodeStatus (child_status c)")
    (auto simp: cancel_child_step_def case_prod_beta Let_def isTerminalNodeStatus_def)

lemma cancel_child_steps_nodes [simp]: "nodes (fold (cancel_child_step i) cs s) = nodes s"
  by (induction cs arbitrary: s) (simp_all add: cancel_child_step_def case_prod_beta Let_def)

lemma cancelled_rows:
  assumes "node_inv s" and "s' = snd (cancelNonTerminalRunNodes i s)"
  shows "rows_over s' i" and "rows_over s d \<Longrightarrow> rows_over s' d"
proof -
  let ?s1 = "snd (fold (cancel_node_step i) (map_values (nodes s)) ([], s))"
  have s': "s' = fold (cancel_child_step i) (map_values (children s)) ?s1"
    using assms(2) by (simp add: cancelNonTerminalRunNodes_def case_prod_beta)
  have wf: "wf_map (nodes s)" "wf_map (children s)" using assms(1) by (simp_all add: node_inv_def)
  have node_entry: "map_get (nodes s) k = Some n \<and> nodeKey (node_runId n) (node_name n) = k" if "(k, n) \<in> set (nodes s)" for k n
  proof -
    have "map_get (nodes s) k = Some n" by (rule map_of_is_SomeI[OF wf(1) that])
    from this node_inv_rows(1)[OF assms(1) this] show ?thesis unfolding node_row_ok_def by metis
  qed
  have child_entry: "map_get (children s) k = Some c \<and> childKey (child_runId c) (child_nodeName c) (child_childKey c) = k"
    if "(k, c) \<in> set (children s)" for k c
  proof -
    have "map_get (children s) k = Some c" by (rule map_of_is_SomeI[OF wf(2) that])
    from this node_inv_rows(2)[OF assms(1) this] show ?thesis unfolding child_row_ok_def by metis
  qed
  have node: "\<exists>n. map_get (nodes s) k = Some n \<and> node_runId n' = node_runId n \<and> (isTerminalNodeStatus (node_status n) \<longrightarrow> n' = n)
      \<and> (node_runId n = i \<longrightarrow> isTerminalNodeStatus (node_status n'))" if "map_get (nodes s') k = Some n'" for k n'
  proof -
    have "\<exists>n. map_get (nodes (snd ([] :: StoredNode list, s))) k = Some n \<and> node_runId n' = node_runId n
        \<and> (isTerminalNodeStatus (node_status n) \<longrightarrow> n' = n)
        \<and> (k \<in> fst ` set (nodes s) \<longrightarrow> node_runId n = i \<longrightarrow> isTerminalNodeStatus (node_status n'))"
      by (rule ending_loop[where tbl = "\<lambda>acc. nodes (snd acc)" and key = "\<lambda>n. nodeKey (node_runId n) (node_name n)" and run = node_runId
            and over = "\<lambda>n. isTerminalNodeStatus (node_status n)" and f = "cancel_node_step i" and i = i, OF cancel_node_step_ends])
         (use that s' node_entry wf(1) in simp_all)
    then show ?thesis by (auto dest: map_of_SomeD intro: image_eqI[rotated])
  qed
  have child: "\<exists>c. map_get (children s) k = Some c \<and> child_runId c' = child_runId c \<and> (isTerminalNodeStatus (child_status c) \<longrightarrow> c' = c)
      \<and> (child_runId c = i \<longrightarrow> isTerminalNodeStatus (child_status c'))" if "map_get (children s') k = Some c'" for k c'
  proof -
    have "\<exists>c. map_get (children ?s1) k = Some c \<and> child_runId c' = child_runId c
        \<and> (isTerminalNodeStatus (child_status c) \<longrightarrow> c' = c)
        \<and> (k \<in> fst ` set (children s) \<longrightarrow> child_runId c = i \<longrightarrow> isTerminalNodeStatus (child_status c'))"
      by (rule ending_loop[where tbl = children and key = "\<lambda>c. childKey (child_runId c) (child_nodeName c) (child_childKey c)" and run = child_runId
            and over = "\<lambda>c. isTerminalNodeStatus (child_status c)" and f = "cancel_child_step i" and i = i, OF cancel_child_step_ends])
         (use that s' child_entry wf(2) in simp_all)
    then show ?thesis by (auto dest: map_of_SomeD intro: image_eqI[rotated])
  qed
  show "rows_over s' i" unfolding rows_over_def using node child by metis
  show "rows_over s' d" if "rows_over s d" using that node child unfolding rows_over_def by metis
qed

lemma cancel_rows_cancels:
  assumes "reachable s"
  shows "cancels s (snd (cancelNonTerminalRunNodes i s))"
proof (rule cancels_same)
  obtain acc s1 where s1: "fold (cancel_node_step i) (map_values (nodes s)) ([], s) = (acc, s1)"
    by (cases "fold (cancel_node_step i) (map_values (nodes s)) ([], s)")
  have inv: "node_inv s" using node_invariant.holds[OF assms] by simp
  have inv1: "node_inv s1"
    using node_inv_writes[OF cancel_nodes_loop[of s "nodes s" i "[]"] inv] inv s1 by (simp add: node_inv_def)
  have "children s1 = children s"
    using cancel_node_steps_children[of i "map_values (nodes s)" "([], s)"] s1 by simp
  then have "link s1 = link s" by (rule link_cong)
  with cancel_children_links[OF inv1, of "children s1" i] inv1 s1
  show "link (snd (cancelNonTerminalRunNodes i s)) = link s"
    by (simp add: cancelNonTerminalRunNodes_def node_inv_def)
  show "runs (snd (cancelNonTerminalRunNodes i s)) = runs s"
    using cancelNonTerminalRunNodes_frames(1)[of i s] by (simp add: view_defs)
  show "rows_over (snd (cancelNonTerminalRunNodes i s)) d" if "rows_over s d" for d
    using cancelled_rows(2)[OF inv refl that] .
  show "tidy s (snd (cancelNonTerminalRunNodes i s))" by (rule tidy_frame) (simp add: frame_simps)
qed

section \<open>The whole tree\<close>

lemma memory_fields:
  "st_loadRunSnapshot (store in_memory_deps) = (\<lambda>r. reading (loadRunSnapshot r))"
  "st_requestRunCancellation (store in_memory_deps) = (\<lambda>r. total (requestRunCancellation r))"
  "st_cancelNonTerminalRunNodes (store in_memory_deps) = (\<lambda>r. total (cancelNonTerminalRunNodes r))"
  "st_cancelRun (store in_memory_deps) = (\<lambda>r. total (cancelRun r))"
  "rce_enqueue (runCoordinationExecutor in_memory_deps) = (\<lambda>c. doing (enqueue c))"
  "ae_deleteUnclaimed (attemptExecutor in_memory_deps) = (\<lambda>r. total (deleteUnclaimed r))"
  by (simp_all add: in_memory_deps_def in_memory_store_def in_memory_coordination_def in_memory_attempts_def)

definition links_below :: "nat \<Rightarrow> runtime \<Rightarrow> bool" where
  "links_below N s \<longleftrightarrow> (\<forall>d j. link s d (mk_id ''run'' j) \<longrightarrow> j < N)"

text \<open>Cancelling \<open>r\<close> settles it: the result is the row of \<open>r\<close>, no error is raised.\<close>

definition tree_cancelled :: "string \<Rightarrow> runtime \<Rightarrow> StoredRun option res \<times> runtime \<Rightarrow> bool" where
  "tree_cancelled r s res \<longleftrightarrow> (\<exists>s'. res = (Inr (map_get (runs s') r), s') \<and> cancels s s' \<and> settled s' r)"

lemma cancelChildRun_settles:
  assumes "reachable s" and "child_childRunId c = Some e"
    and "\<And>t. reachable t \<Longrightarrow> link t = link s \<Longrightarrow> tree_cancelled e t (cancel e t)"
  shows "\<exists>s'. cancelChildRun cancel in_memory_deps c s = (Inr (), s') \<and> cancels s s' \<and> settled s' e"
proof (cases "settled s e")
  case True
  then have "cancelChildRun cancel in_memory_deps c s = (Inr (), s)"
    using assms(2) by (auto simp: cancelChildRun_def memory_fields effect_defs loadRunSnapshot_def settled_def finished_def
        split: option.splits)
  with True show ?thesis by (simp add: cancels_refl)
next
  case False
  then obtain r where r: "map_get (runs s) e = Some r" "\<not> isTerminalRunStatus (run_status r)"
    by (auto simp: settled_def finished_def)
  let ?command = "\<lparr>cont_runId = e, cont_workflowName = run_workflowName r\<rparr>"
  let ?t1 = "snd (requestRunCancellation e s)"
  let ?t = "if run_kind r = WorkflowRun then enqueue ?command ?t1 else ?t1"
  have t1: "cancels s ?t1" "reachable ?t1"
    by (rule request_cancels) (rule reachable_work[OF assms(1) request_cancellation])
  have "cancels ?t1 ?t" by (auto simp: enqueue_def frame_simps intro: view_same cancels_refl tidy_enqueue)
  moreover have reach: "reachable ?t" using t1(2) reachable_work[OF t1(2) enqueue_continue] by (auto simp: enqueue_def)
  ultimately have t: "cancels s ?t" using t1(1) cancels_trans by blast
  then have "link ?t = link s" by (simp add: cancels_def)
  with assms(3)[OF reach] obtain s' where s': "cancel e ?t = (Inr (map_get (runs s') e), s')" "cancels ?t s'" "settled s' e"
    unfolding tree_cancelled_def by blast
  have "cancelChildRun cancel in_memory_deps c s = (Inr (), s')"
    using assms(2) r s'(1)
    by (cases "run_kind r = WorkflowRun") (simp_all add: cancelChildRun_def memory_fields effect_defs loadRunSnapshot_def)
  with cancels_trans[OF t s'(2)] s'(3) show ?thesis by blast
qed

lemma cancelChildRun_reachable:
  "reachable s \<Longrightarrow> (\<And>r. works any (cancel r) anything) \<Longrightarrow> reachable (snd (cancelChildRun cancel in_memory_deps c s))"
  using works_reachable[OF in_memory.cancelChildRun_works] by blast

lemma cancel_children_settle:
  assumes "reachable s" and "\<And>r. works any (cancel r) anything"
    and "\<And>c e t. c \<in> set cs \<Longrightarrow> child_childRunId c = Some e \<Longrightarrow> reachable t \<Longrightarrow> link t = link s \<Longrightarrow> tree_cancelled e t (cancel e t)"
  shows "\<exists>s'. each cs (cancelChildRun cancel in_memory_deps) s = (Inr (), s') \<and> cancels s s'
     \<and> (\<forall>c e. c \<in> set cs \<longrightarrow> child_childRunId c = Some e \<longrightarrow> settled s' e)"
  using assms(1,3)
proof (induction cs arbitrary: s)
  case (Cons c cs)
  obtain t where t: "cancelChildRun cancel in_memory_deps c s = (Inr (), t)" "cancels s t"
      "\<And>e. child_childRunId c = Some e \<Longrightarrow> settled t e"
  proof (cases "child_childRunId c")
    case None
    then show thesis using that[of s] by (simp add: cancelChildRun_def cancels_refl)
  next
    case (Some e)
    have "\<exists>t. cancelChildRun cancel in_memory_deps c s = (Inr (), t) \<and> cancels s t \<and> settled t e"
      by (rule cancelChildRun_settles[OF Cons.prems(1) Some]) (rule Cons.prems(2)[OF _ Some]; simp)
    then show thesis using that Some by auto
  qed
  have reach: "reachable t" using cancelChildRun_reachable[OF Cons.prems(1), of cancel c, OF assms(2)] t(1) by simp
  have "link t = link s" using t(2) by (simp add: cancels_def)
  then obtain s' where s': "each cs (cancelChildRun cancel in_memory_deps) t = (Inr (), s')" "cancels t s'"
      "\<forall>c e. c \<in> set cs \<longrightarrow> child_childRunId c = Some e \<longrightarrow> settled s' e"
    using Cons.IH[OF reach] Cons.prems(2) by (metis list.set_intros(2))
  have "\<forall>c' e. c' \<in> set (c # cs) \<longrightarrow> child_childRunId c' = Some e \<longrightarrow> settled s' e"
    using s'(3) t(3) cancels_settled[OF s'(2)] by auto
  moreover have "each (c # cs) (cancelChildRun cancel in_memory_deps) s = (Inr (), s')"
    using t(1) s'(1) by (simp add: await_def)
  ultimately show ?case using cancels_trans[OF t(2) s'(2)] by blast
qed (simp add: cancels_refl)

lemma snapshot_links:
  assumes "loadRunSnapshot r s = Some snapshot"
  shows "c \<in> set (snap_children snapshot) \<Longrightarrow> child_childRunId c = Some e \<Longrightarrow> reachable s \<Longrightarrow> link s r e"
    and "link s r e \<Longrightarrow> reachable s \<Longrightarrow> \<exists>c \<in> set (snap_children snapshot). child_childRunId c = Some e"
proof -
  have snap: "snap_children snapshot = filter (\<lambda>child. child_runId child = r) (map_values (children s))"
    using assms by (auto simp: loadRunSnapshot_def split: option.splits)
  have rows: "c \<in> set (map_values (children s)) \<longleftrightarrow> (\<exists>k. map_get (children s) k = Some c)" if "reachable s" for c
    using node_invariant.holds[OF that] by (intro in_map_values) (simp add: node_inv_def)
  show "link s r e" if "c \<in> set (snap_children snapshot)" "child_childRunId c = Some e" "reachable s"
    using that(1,2) rows[OF that(3)] unfolding snap link_def by auto
  show "\<exists>c \<in> set (snap_children snapshot). child_childRunId c = Some e" if "link s r e" "reachable s"
    using that(1) rows[OF that(2)] unfolding snap link_def by auto
qed

lemma cancelRunTree_upto_settles:
  "reachable s \<Longrightarrow> links_below N s \<Longrightarrow> settled s r \<or> (\<exists>k. r = mk_id ''run'' k \<and> N \<le> n + k) \<Longrightarrow> 0 < n \<Longrightarrow>
     tree_cancelled r s (cancelRunTree_upto n in_memory_deps r s)"
proof (induction n arbitrary: r s)
  case (Suc n)
  show ?case
  proof (cases "settled s r")
    case True
    then have "cancelRunTree_upto (Suc n) in_memory_deps r s = (Inr (map_get (runs s) r), s)"
      by (auto simp: memory_fields effect_defs loadRunSnapshot_def settled_def finished_def split: option.splits)
    with True show ?thesis by (auto simp: tree_cancelled_def cancels_refl)
  next
    case False
    then obtain run where run: "map_get (runs s) r = Some run" "\<not> isTerminalRunStatus (run_status run)"
      by (auto simp: settled_def finished_def)
    then obtain snapshot where snap: "loadRunSnapshot r s = Some snapshot" "snap_run snapshot = run"
      by (simp add: loadRunSnapshot_def)
    obtain k where k: "r = mk_id ''run'' k" "N \<le> Suc n + k" using False Suc.prems(3) by blast
    let ?t1 = "snd (requestRunCancellation r s)"
    let ?t = "snd (cancelNonTerminalRunNodes r ?t1)"
    have reach1: "reachable ?t1" by (rule reachable_work[OF Suc.prems(1) request_cancellation])
    then have reach: "reachable ?t" by (rule reachable_work[OF _ cancel_nodes])
    have t: "cancels s ?t" by (rule cancels_trans[OF request_cancels cancel_rows_cancels[OF reach1]])
    then have same: "link ?t = link s" by (simp add: cancels_def)
    have rec: "tree_cancelled e u (cancelRunTree_upto n in_memory_deps e u)"
      if "c \<in> set (snap_children snapshot)" "child_childRunId c = Some e" "reachable u" "link u = link ?t" for c e u
    proof -
      have "link s r e" by (rule snapshot_links(1)[OF snap(1) that(1,2) Suc.prems(1)])
      then obtain k' j where "r = mk_id ''run'' k'" "e = mk_id ''run'' j" "k' < j"
        using link_order[OF Suc.prems(1)] by blast
      with k(1) have j: "e = mk_id ''run'' j" "k < j" by simp_all
      with \<open>link s r e\<close> Suc.prems(2) have "j < N" unfolding links_below_def by blast
      with j(2) k(2) have n: "0 < n" "N \<le> n + j" by linarith+
      have "links_below N u" using Suc.prems(2) that(4) same by (simp add: links_below_def)
      then show ?thesis using Suc.IH[OF that(3)] j(1) n by blast
    qed
    have "\<exists>u. each (snap_children snapshot) (cancelChildRun (cancelRunTree_upto n in_memory_deps) in_memory_deps) ?t = (Inr (), u)
      \<and> cancels ?t u \<and> (\<forall>c e. c \<in> set (snap_children snapshot) \<longrightarrow> child_childRunId c = Some e \<longrightarrow> settled u e)"
      by (rule cancel_children_settle[OF reach in_memory.cancelRunTree_upto_works rec])
    then obtain u where u: "each (snap_children snapshot) (cancelChildRun (cancelRunTree_upto n in_memory_deps) in_memory_deps) ?t = (Inr (), u)"
      "cancels ?t u" "\<forall>c e. c \<in> set (snap_children snapshot) \<longrightarrow> child_childRunId c = Some e \<longrightarrow> settled u e"
      by (elim exE conjE)
    let ?v = "snd (deleteUnclaimed r u)"
    have v: "cancels u ?v" by (rule view_same) (simp_all add: frame_simps tidy_unclaimed)
    have "rows_over ?t r" using cancelled_rows(1)[OF _ refl] node_invariant.holds[OF reach1] by simp
    then have over: "rows_over ?v r" using u(2) v unfolding cancels_def by blast
    have below: "settled ?v e" if "link ?v r e" for e
    proof -
      have "link s r e" using that u(2) v same by (simp add: cancels_def)
      then obtain c where "c \<in> set (snap_children snapshot)" "child_childRunId c = Some e"
        using snapshot_links(2)[OF snap(1) _ Suc.prems(1)] by blast
      with u(3) have "settled u e" by blast
      with v show ?thesis by (rule cancels_settled)
    qed
    note last = cancelRun_cancels[of ?v r, OF below over]
    have "cancelRunTree_upto (Suc n) in_memory_deps r s = (Inr (fst (cancelRun r ?v)), snd (cancelRun r ?v))"
      using run snap u(1) by (simp add: memory_fields effect_defs)
    moreover have "cancels s (snd (cancelRun r ?v))"
      using cancels_trans[OF cancels_trans[OF cancels_trans[OF t u(2)] v]] last by blast
    ultimately show ?thesis using last by (auto simp: tree_cancelled_def)
  qed
qed simp

lemma cancelRunTree_settles:
  assumes "reachable s"
  shows "tree_cancelled r s (cancelRunTree in_memory_deps r s)"
proof -
  have "links_below (nextId s) s" using link_order[OF assms] by (fastforce simp: links_below_def)
  moreover have "settled s r \<or> (\<exists>k. r = mk_id ''run'' k \<and> nextId s \<le> Suc (nextId s) + k)"
  proof (cases "map_get (runs s) r")
    case (Some run)
    then show ?thesis using stored_run_known[OF assms] by (auto simp: known_run_def)
  qed (simp add: settled_def)
  ultimately show ?thesis unfolding cancelRunTree_def by (intro cancelRunTree_upto_settles[OF assms]) auto
qed

text \<open>What lies below a run: the runs linked, in any number of steps, from runs that are live.\<close>

inductive below :: "runtime \<Rightarrow> string \<Rightarrow> string \<Rightarrow> bool" for s r where
  itself: "below s r r"
| linked: "below s r d \<Longrightarrow> map_get (runs s) d = Some run \<Longrightarrow> \<not> isTerminalRunStatus (run_status run) \<Longrightarrow> link s d e \<Longrightarrow> below s r e"

lemma cancels_below:
  assumes "cancels s s'" and "settled s' r" and "below s r d"
  shows "settled s' d"
  using assms(3)
proof induction
  case (linked d run e)
  have "\<not> finished s d" "map_get (runs s') d \<noteq> None"
    using linked.hyps(2,3) assms(1) by (simp_all add: finished_def cancels_def)
  moreover have "finished s' d" using linked.IH calculation(2) by (elim settled_def[THEN iffD1, elim_format] disjE) simp_all
  ultimately show ?case using assms(1) linked.hyps(4) unfolding cancels_def by blast
qed (rule assms(2))

text \<open>
  C23: cancelling a run settles its whole family. \<open>cancelRunTree\<close> returns the row of the run,
  never an error, and afterwards the run and every run that was linked below it through
  live runs is terminal, and so are all nodes and children of those of them that were still
  live; no run appears or disappears, and the state stays reachable.
\<close>

theorem cancel_settles_the_family:
  assumes "reachable s"
  shows "\<exists>s'. cancelRunTree in_memory_deps r s = (Inr (map_get (runs s') r), s') \<and> reachable s'
    \<and> (\<forall>d run. below s r d \<longrightarrow> map_get (runs s') d = Some run \<longrightarrow> isTerminalRunStatus (run_status run))
    \<and> (\<forall>d run. below s r d \<longrightarrow> map_get (runs s) d = Some run \<longrightarrow> \<not> isTerminalRunStatus (run_status run) \<longrightarrow>
         (\<forall>k n. map_get (nodes s') k = Some n \<longrightarrow> node_runId n = d \<longrightarrow> isTerminalNodeStatus (node_status n))
         \<and> (\<forall>k c. map_get (children s') k = Some c \<longrightarrow> child_runId c = d \<longrightarrow> isTerminalNodeStatus (child_status c)))
    \<and> (\<forall>i. map_get (runs s') i = None \<longleftrightarrow> map_get (runs s) i = None)"
proof -
  obtain s' where s': "cancelRunTree in_memory_deps r s = (Inr (map_get (runs s') r), s')" "cancels s s'" "settled s' r"
    using cancelRunTree_settles[OF assms, of r] by (auto simp: tree_cancelled_def)
  have "isTerminalRunStatus (run_status run)" if "below s r d" "map_get (runs s') d = Some run" for d run
    using cancels_below[OF s'(2,3) that(1)] that(2) by (simp add: settled_def finished_def)
  moreover have "rows_over s' d" if "below s r d" "map_get (runs s) d = Some run" "\<not> isTerminalRunStatus (run_status run)" for d run
  proof -
    have "map_get (runs s') d \<noteq> None" using s'(2) that(2) by (simp add: cancels_def)
    with cancels_below[OF s'(2,3) that(1)] have "finished s' d" by (simp add: settled_def)
    moreover have "\<not> finished s d" using that(2,3) by (simp add: finished_def)
    ultimately show ?thesis using s'(2) unfolding cancels_def by blast
  qed
  moreover have "\<forall>i. map_get (runs s') i = None \<longleftrightarrow> map_get (runs s) i = None" using s'(2) by (simp add: cancels_def)
  moreover have "reachable s'" using works_reachable[OF in_memory.cancelRunTree_works assms, of r] s'(1) by simp
  ultimately show ?thesis using s'(1) unfolding rows_over_def by (intro exI[of _ s']) blast
qed

definition family_params :: EnsureChildRunParams where
  "family_params = \<lparr>ecr_runId = ''run-1'', ecr_nodeName = ''charge'', ecr_childKey = ''$self'', ecr_childKind = WorkflowRun,
     ecr_childName = ''refund'', ecr_input = JNull, ecr_rootRunId = ''run-1'', ecr_tags = None, ecr_idempotencyKey = None\<rparr>"

definition family :: runtime where
  "family = snd (ensureChildRun family_params one_child)"

lemma family_eval: "link family ''run-1'' ''run-2''" "\<exists>r. map_get (runs family) ''run-1'' = Some r \<and> run_status r = RQueued"
   "\<exists>r. map_get (runs family) ''run-2'' = Some r"
  by (simp_all add: link_def family_def family_params_def ensureChildRun_def childRunInput_def sample_defs sample_eval)

lemma reachable_family: "reachable family"
  unfolding family_def
  by (rule reachable_work[OF reachable_one_child ensure_child_run]) (simp add: family_params_def known_run_1 nextId_samples)

lemma family_node: "\<exists>n. map_get (nodes family) ''run-1:charge'' = Some n \<and> \<not> isTerminalNodeStatus (node_status n)"
  by (simp add: family_def family_params_def ensureChildRun_def childRunInput_def sample_defs sample_eval isTerminalNodeStatus_def)

theorem cancel_settles_the_family_witness:
  "\<exists>s' run. cancelRunTree in_memory_deps ''run-1'' family = (Inr (map_get (runs s') ''run-1''), s')
     \<and> map_get (runs s') ''run-2'' = Some run \<and> isTerminalRunStatus (run_status run)
     \<and> (\<forall>k n. map_get (nodes s') k = Some n \<longrightarrow> node_runId n = ''run-1'' \<longrightarrow> isTerminalNodeStatus (node_status n))"
proof -
  obtain s' where s': "cancelRunTree in_memory_deps ''run-1'' family = (Inr (map_get (runs s') ''run-1''), s')"
    "\<forall>d run. below family ''run-1'' d \<longrightarrow> map_get (runs s') d = Some run \<longrightarrow> isTerminalRunStatus (run_status run)"
    "\<forall>d run. below family ''run-1'' d \<longrightarrow> map_get (runs family) d = Some run \<longrightarrow> \<not> isTerminalRunStatus (run_status run) \<longrightarrow>
       (\<forall>k n. map_get (nodes s') k = Some n \<longrightarrow> node_runId n = d \<longrightarrow> isTerminalNodeStatus (node_status n))
       \<and> (\<forall>k c. map_get (children s') k = Some c \<longrightarrow> child_runId c = d \<longrightarrow> isTerminalNodeStatus (child_status c))"
    "\<forall>i. map_get (runs s') i = None \<longleftrightarrow> map_get (runs family) i = None"
    using cancel_settles_the_family[OF reachable_family, of "''run-1''"] by (elim exE conjE)
  obtain r where r: "map_get (runs family) ''run-1'' = Some r" "run_status r = RQueued" using family_eval(2) by (elim exE conjE)
  then have live: "\<not> isTerminalRunStatus (run_status r)" by simp
  have "below family ''run-1'' ''run-2''" by (rule below.linked[OF below.itself r(1) live family_eval(1)])
  moreover obtain run where "map_get (runs s') ''run-2'' = Some run" using s'(4) family_eval(3) by (metis not_None_eq)
  ultimately show ?thesis using s'(1,2) s'(3)[rule_format, OF below.itself r(1) live] by blast
qed

end
