(* ===== verification/CoordinatorProperties.thy ===== *)
theory CoordinatorProperties
  imports CoordinatorSteps Leases QueueSafety RunProperties NodeProperties
begin

text \<open>
  What the coordinator's programs guarantee over the in-memory runtime: they are sequences of
  its steps, a coordinator that lost its lease cannot write through the guarded operations of its store, and a
  start leaves a command behind that some worker will receive.
\<close>

section \<open>Fencing\<close>

lemma fence_lost:
  assumes "fst (renewRunLease lease ms s) = None"
  shows "fence in_memory_store lease ms m s = raise StaleRunLeaseError s"
proof -
  have "snd (renewRunLease lease ms s) = s"
    using assms by (auto simp: renewRunLease_def Let_def case_prod_beta split: option.splits if_splits)
  with assms show ?thesis by (simp add: fence_def in_memory_store_def effect_defs)
qed

text \<open>
  C24: a coordinator that lost its lease cannot write through the operations the fenced store
  guards. Once the run was leased again, each of the twenty-three guarded operations (the
  creation of runs, nodes, children and attempts, and every write of their status, input,
  selected case or result), at any later moment, throws the stale lease error and changes
  nothing. The other writes of the store are handed through unguarded: timing an attempt
  out, deleting and pruning runs, and the treatment of dead commands behave as those of the
  store itself, as do the operations on leases.
\<close>

theorem stale_coordinator_cannot_write:
  assumes "reachable s" and "map_get (runLeases s) i = Some old" and "lease_runId old = i"
    and "acquireRunLease i ms s = (Some new, s')" and "step\<^sup>*\<^sup>* s' t"
    and "st = createRunLeaseFencedStore in_memory_store old ms'"
  shows "(st_createRun st ci t = raise StaleRunLeaseError t \<and> st_createNode st r n k t = raise StaleRunLeaseError t \<and> st_setNodeInput st r n v t = raise StaleRunLeaseError t
      \<and> st_selectNodeCase st r n c t = raise StaleRunLeaseError t \<and> st_ensureNodeChildren st r n cs t = raise StaleRunLeaseError t
      \<and> st_ensureChildRun st p t = raise StaleRunLeaseError t \<and> st_ensureChildAttempt st ca t = raise StaleRunLeaseError t \<and> st_createAttempt st ca t = raise StaleRunLeaseError t)
    \<and> (st_completeCurrentAttempt st a l v t = raise StaleRunLeaseError t \<and> st_failCurrentAttempt st a l e t = raise StaleRunLeaseError t
      \<and> st_completeNodeChild st r n c v t = raise StaleRunLeaseError t \<and> st_failNodeChild st r n c e t = raise StaleRunLeaseError t
      \<and> st_completeNode st r n v t = raise StaleRunLeaseError t \<and> st_failNode st r n e t = raise StaleRunLeaseError t \<and> st_waitNode st r n t = raise StaleRunLeaseError t
      \<and> st_cancelNode st r n t = raise StaleRunLeaseError t \<and> st_cancelNonTerminalRunNodes st r t = raise StaleRunLeaseError t)
    \<and> (st_markRunRunning st r t = raise StaleRunLeaseError t \<and> st_markRunWaiting st r t = raise StaleRunLeaseError t \<and> st_completeRun st r v t = raise StaleRunLeaseError t
      \<and> st_failRun st r e t = raise StaleRunLeaseError t \<and> st_requestRunCancellation st r t = raise StaleRunLeaseError t \<and> st_cancelRun st r t = raise StaleRunLeaseError t)
    \<and> (st_timeoutCurrentAttempt st = st_timeoutCurrentAttempt in_memory_store \<and> st_deleteRun st = st_deleteRun in_memory_store
      \<and> st_pruneTerminalRuns st = st_pruneTerminalRuns in_memory_store \<and> st_markDeadCommandReaped st = st_markDeadCommandReaped in_memory_store
      \<and> st_requeueDeadCommand st = st_requeueDeadCommand in_memory_store \<and> st_acquireRunLease st = st_acquireRunLease in_memory_store
      \<and> st_renewRunLease st = st_renewRunLease in_memory_store \<and> st_releaseRunLease st = st_releaseRunLease in_memory_store)"
proof -
  have lost: "fst (renewRunLease old ms' t) = None"
    using lost_lease[OF assms(1-5)] by (auto simp: renewRunLease_def split: option.split)
  show ?thesis unfolding assms(6) fenced_fields by (intro conjI; (rule fence_lost[OF lost] | simp add: createRunLeaseFencedStore_def))
qed

theorem stale_coordinator_cannot_write_witness:
  "\<exists>old new s'. map_get (runLeases expired_lease) ''run-1'' = Some old
     \<and> acquireRunLease ''run-1'' 10 expired_lease = (Some new, s')
     \<and> st_completeRun (createRunLeaseFencedStore in_memory_store old 10) ''run-1'' JNull s' = raise StaleRunLeaseError s'"
proof -
  obtain old where old: "map_get (runLeases expired_lease) ''run-1'' = Some old" "lease_runId old = ''run-1''"
    by (simp add: expired_lease_def acquireRunLease_def sample_defs sample_eval)
  obtain new s' where new: "acquireRunLease ''run-1'' 10 expired_lease = (Some new, s')"
    by (simp add: expired_lease_def acquireRunLease_def sample_defs sample_eval)
  have reach: "reachable expired_lease"
    unfolding expired_lease_def
    by (rule reachable_work[OF reachable_work[OF reachable_one_run acquire_lease] clock_now])
  have "st_completeRun (createRunLeaseFencedStore in_memory_store old 10) ''run-1'' JNull s' = raise StaleRunLeaseError s'"
    by (rule stale_coordinator_cannot_write[OF reach old new rtranclp.rtrancl_refl refl, THEN conjunct2, THEN conjunct2,
          THEN conjunct1, THEN conjunct2, THEN conjunct2, THEN conjunct1])
  with old(1) new show ?thesis by blast
qed

section \<open>Programs are sequences of steps\<close>

lemma createRunWithState_works:
  "root_input i \<Longrightarrow> works any (createRunWithState i) (\<lambda>(r, created) s. known_run s (run_id r))"
  by (rule works_op) (auto intro: create_run created_run_known)

lemma atomic_startWorkflowRun_works: "root_input i \<Longrightarrow> works any (atomic_startWorkflowRun i at') anything"
  unfolding atomic_startWorkflowRun_def Let_def
  by (intro works_seq createRunWithState_works[THEN works_weaken] works_case_prod works_if works_stop works_case_option)
     (auto simp: in_memory_coordination_def executors_work)

lemma atomic_startTaskRun_works:
  assumes "root_input i"
  shows "works any (atomic_startTaskRun i n v k at') anything"
  unfolding atomic_startTaskRun_def
proof (rule works_await[OF createRunWithState_works[OF assms] stable_const])
  fix x :: "StoredRun \<times> bool"
  obtain r c where x: "x = (r, c)" by (cases x)
  show "works (\<lambda>s. True \<and> (case x of (r, created) \<Rightarrow> \<lambda>s. known_run s (run_id r)) s)
     (case x of (started, created) \<Rightarrow> if \<not> created then ret started
        else await (dispatchTaskRunAttempt in_memory_deps n (run_id started) v k None at' True) (\<lambda>_. ret started)) anything"
    unfolding x
    by (auto intro!: works_ret works_then[OF in_memory.dispatchTaskRunAttempt_works])
qed

lemma in_memory_atomicStart_works:
  "root_input i \<Longrightarrow> works any (as_startWorkflowRun in_memory_atomicStart i at' c) anything"
  "root_input i \<Longrightarrow> works any (as_startTaskRun in_memory_atomicStart i n v k at' c) anything"
  by (simp_all add: in_memory_atomicStart_def atomic_startWorkflowRun_works atomic_startTaskRun_works)

lemma works_any_steps: "works any m anything \<Longrightarrow> reachable s \<Longrightarrow> work_step\<^sup>*\<^sup>* s (snd (m s))"
  by (rule works_steps) simp_all

text \<open>
  Over the in-memory runtime, with its own store or a lease-fenced one, and with or
  without its atomic start, the programs of the coordinator only perform steps of the
  state machine, whatever they return and wherever they fail; so every invariant proved
  of the steps holds while and after they run.
\<close>

theorem coordinator_only_takes_steps:
  assumes "reachable s" and "deps = in_memory_deps \<or> deps = fenced_deps lease ms"
    and "so_atomicStart input = None \<or> so_atomicStart input = Some in_memory_atomicStart"
  shows "work_step\<^sup>*\<^sup>* s (snd (startWorkflowRun deps workflow input s))
    \<and> work_step\<^sup>*\<^sup>* s (snd (startTaskRun deps task input s))
    \<and> work_step\<^sup>*\<^sup>* s (snd (cancelRunAndWakeParent deps r s))
    \<and> work_step\<^sup>*\<^sup>* s (snd (cancelNodeAndRun deps r n s))
    \<and> work_step\<^sup>*\<^sup>* s (snd (cancelFailedFanInNodeChildren deps implementation r node s))
    \<and> work_step\<^sup>*\<^sup>* s (snd (completeRunAndWakeParent deps r v s))
    \<and> work_step\<^sup>*\<^sup>* s (snd (failNodeAndRun deps r n e s))"
proof -
  have c: "coordination deps"
    using assms(2) in_memory.coordination_axioms fenced.coordination_axioms by auto
  have start: "works any (startWorkflowRun deps workflow input) anything" "works any (startTaskRun deps task input) anything"
    using assms(3) by (auto intro!: coordination.startWorkflowRun_works[OF c] coordination.startTaskRun_works[OF c]
        in_memory_atomicStart_works)
  note programs = start coordination.sinks_work(3,5)[OF c] coordination.cancelFailedFanInNodeChildren_works[OF c]
    coordination.sinks_work(1,4)[OF c]
  show ?thesis by (intro conjI works_any_steps[OF _ assms(1)] programs)
qed

definition any_value :: Schema where
  "any_value v = Inr v"

definition sample_workflow :: WorkflowDefinition where
  "sample_workflow = \<lparr>wd_name = ''order'', wd_input = any_value, wd_output = None, wd_nodes = [], wd_timeout = None,
     wd_tags = NoTags, wd_idempotency = NoIdempotency, wd_unique = NoUnique\<rparr>"

definition sample_task :: TaskDefinition where
  "sample_task = \<lparr>task_name = ''mail'', task_input = any_value, task_output = any_value, task_retry = None,
     task_timeout = None, task_tags = NoTags, task_idempotency = NoIdempotency, task_unique = NoUnique\<rparr>"

definition plain_start :: "unit StartOptions" where
  "plain_start = \<lparr>so_atomicStart = None, so_implementation = None, so_input = JNull, so_tags = None,
     so_idempotencyKey = Some sample_key, so_unique = None, so_startAt = None, so_connection = None\<rparr>"

theorem coordinator_only_takes_steps_witness:
  "work_step\<^sup>*\<^sup>* one_run (snd (startTaskRun in_memory_deps sample_task plain_start one_run))"
  by (rule coordinator_only_takes_steps[OF reachable_one_run, THEN conjunct2, THEN conjunct1])
     (simp_all add: plain_start_def)

section \<open>Starts\<close>

lemma wakeCommand_queues [simp]:
  "continueRunCommands (wakeCommand k at' s) = continueRunCommands s" "attemptCommands (wakeCommand k at' s) = attemptCommands s"
  "runs (wakeCommand k at' s) = runs s"
  using calm_wakeCommand[of s k at'] by (auto simp: calm_def view_defs)

lemma enqueueContinue_queued:
  "\<exists>item. item \<in> set (continueRunCommands (enqueueContinue c at' s)) \<and> qi_payload item = c \<and> qi_deadAt item = None"
proof (cases "find_index (\<lambda>item. qi_deadAt item = None \<and> cont_runId (qi_payload item) = cont_runId c) (continueRunCommands s)")
  case None
  let ?item = "fst (queueItem (mk_id ''continue'' (nextId s)) c at' (snd (fresh_id ''continue'' s)))"
  have "?item \<in> set (continueRunCommands (enqueueContinue c at' s))"
    using None by (simp add: enqueueContinue_def Let_def case_prod_beta)
  moreover have "qi_payload ?item = c \<and> qi_deadAt ?item = None" by (simp add: queueItem_def Let_def case_prod_beta)
  ultimately show ?thesis by (intro exI[of _ ?item]) simp
next
  case (Some j)
  then have j: "j < length (continueRunCommands s)" "qi_deadAt (continueRunCommands s ! j) = None"
    using find_index_Some by fastforce+
  let ?item = "(continueRunCommands s ! j)\<lparr>qi_payload := c, qi_runAt := earliestRunAt (qi_runAt (continueRunCommands s ! j)) at'\<rparr>"
  have "?item \<in> set (continueRunCommands (enqueueContinue c at' s))"
    using Some j(1) by (simp add: enqueueContinue_def Let_def set_update_memI)
  with j(2) show ?thesis by (intro exI[of _ ?item]) simp
qed

text \<open>Inverting a program that returned.\<close>

lemma await_returned:
  assumes "await m k s = (Inr y, s')"
  obtains x s1 where "m s = (Inr x, s1)" "k x s1 = (Inr y, s')"
  using assms by (auto simp: await_def split: prod.splits sum.splits)

lemma pure_returned:
  "sync r s = (Inr x, s') \<Longrightarrow> s' = s" "pureRes q s = (Inr z, s') \<Longrightarrow> s' = s" "given_or g r' s = (Inr y, s') \<Longrightarrow> s' = s"
  "assertImplementationTarget i n l s = (Inr u, s') \<Longrightarrow> s' = s" "assertNoStartConnection c s = (Inr u, s') \<Longrightarrow> s' = s"
  by (auto simp: effect_defs given_or_def assertImplementationTarget_def assertNoStartConnection_def
      split: sum.splits option.splits if_splits)

lemma metadata_returned: "resolveWorkflowStartMetadata w i v s = (Inr x, s') \<Longrightarrow> s' = s"
  by (auto simp: resolveWorkflowStartMetadata_def elim!: await_returned dest!: pure_returned)

lemma created_run_stored:
  assumes "reachable s" and "createRun i s = (Inr r, s')"
  shows "map_get (runs s') (run_id r) = Some r"
proof -
  obtain created where res: "createRunWithState i s = (Inr (r, created), s')"
    using assms(2) by (auto simp: createRun_def split: prod.splits sum.splits)
  show ?thesis
  proof (cases "may_create i s")
    case True
    with res show ?thesis by (auto simp: createRunWithState_new after_create_def quiet_fields)
  next
    case False
    then show ?thesis using createRunWithState_old_run[OF False res] stored_run_known[OF assms(1)] by auto
  qed
qed

lemma enqueue_runs: "runs (enqueueContinue c at' s) = runs s"
  using enqueueContinue_frames(1)[of c at' s] by (simp add: view_defs)

lemma workflow_start_returned:
  assumes "so_atomicStart input = None" and "startWorkflowRun in_memory_deps workflow input s = (Inr run, s')"
  obtains i s1 where "createRun i s = (Inr run, s1)"
    "s' = enqueueContinue \<lparr>cont_runId = run_id run, cont_workflowName = wd_name workflow\<rparr> (so_startAt input) s1"
  using assms(2) unfolding startWorkflowRun_def Let_def
  apply (elim await_returned)
  apply (simp add: assms(1) case_prod_beta)
  apply (elim await_returned)
  apply (drule pure_returned metadata_returned)+
  apply (auto simp: in_memory_deps_def in_memory_store_def in_memory_coordination_def effect_defs enqueue_def enqueueDelayed_def split: option.splits)
  done

text \<open>
  A started workflow run is delivered. When \<open>startWorkflowRun\<close> returns a run without an
  atomic start, the run is stored and a live continue command for it is queued.
\<close>

theorem workflow_start_is_queued:
  assumes "so_atomicStart input = None" and "startWorkflowRun in_memory_deps workflow input s = (Inr run, s')" and "reachable s"
  shows "map_get (runs s') (run_id run) = Some run
    \<and> (\<exists>item. item \<in> set (continueRunCommands s') \<and> qi_deadAt item = None
         \<and> qi_payload item = \<lparr>cont_runId = run_id run, cont_workflowName = wd_name workflow\<rparr>)"
proof -
  obtain i s1 where c: "createRun i s = (Inr run, s1)"
    "s' = enqueueContinue \<lparr>cont_runId = run_id run, cont_workflowName = wd_name workflow\<rparr> (so_startAt input) s1"
    by (rule workflow_start_returned[OF assms(1,2)])
  have "map_get (runs s') (run_id run) = Some run" using created_run_stored[OF assms(3) c(1)] by (simp add: c(2) enqueue_runs)
  with enqueueContinue_queued[of "\<lparr>cont_runId = run_id run, cont_workflowName = wd_name workflow\<rparr>" "so_startAt input" s1]
  show ?thesis unfolding c(2) by blast
qed

theorem workflow_start_is_queued_witness:
  "\<exists>run s'. startWorkflowRun in_memory_deps sample_workflow plain_start empty_runtime = (Inr run, s')
     \<and> (\<exists>item. item \<in> set (continueRunCommands s') \<and> qi_deadAt item = None \<and> cont_runId (qi_payload item) = ''run-1'')"
proof -
  have "\<exists>run s'. startWorkflowRun in_memory_deps sample_workflow plain_start empty_runtime = (Inr run, s') \<and> run_id run = ''run-1''"
    by (simp add: startWorkflowRun_def resolveWorkflowStartMetadata_def given_or_def assertImplementationTarget_def
        assertNoStartConnection_def sample_workflow_def plain_start_def any_value_def decodeSchemaValue_def
        resolveTags_def resolveUnique_def normalizeRunUnique_def in_memory_deps_def in_memory_store_def
        in_memory_coordination_def effect_defs createRun_def enqueue_def enqueueContinue_def sample_defs sample_eval)
  then obtain run s' where start: "startWorkflowRun in_memory_deps sample_workflow plain_start empty_runtime = (Inr run, s')"
      "run_id run = ''run-1''" by (elim exE conjE)
  have "so_atomicStart plain_start = None" by (simp add: plain_start_def)
  from workflow_start_is_queued[OF this start(1) reachable_empty] start show ?thesis by auto
qed

text \<open>An atomic start creates the run and then takes steps.\<close>

lemma guarded_start_returned:
  assumes "reachable s" and "root_input i"
    and "await (createRunWithState i) (\<lambda>(q, created). if \<not> created then ret q else await (m q) (\<lambda>_. ret q)) s = (Inr r, s')"
    and m: "\<And>q. works (\<lambda>s. known_run s (run_id q)) (m q) anything"
  obtains created s1 where "createRunWithState i s = (Inr (r, created), s1)" "work_step\<^sup>*\<^sup>* s1 s'"
proof -
  obtain x s1 where x: "createRunWithState i s = (Inr x, s1)"
      "(case x of (q, created) \<Rightarrow> if \<not> created then ret q else await (m q) (\<lambda>_. ret q)) s1 = (Inr r, s')"
    by (rule await_returned[OF assms(3)])
  obtain q created where q: "x = (q, created)" by (cases x)
  have c: "createRunWithState i s = (Inr (q, created), s1)" using x(1) q by simp
  have reach: "reachable s1" using reachable_work[OF assms(1) create_run[OF assms(2)]] c by (metis snd_conv)
  have k: "(if \<not> created then ret q else await (m q) (\<lambda>_. ret q)) s1 = (Inr r, s')" using x(2) q by simp
  show thesis
  proof (cases created)
    case True
    with k obtain y where y: "m q s1 = (Inr y, s')" "r = q" by (auto elim!: await_returned)
    have "work_step\<^sup>*\<^sup>* s1 (snd (m q s1))" by (rule works_steps[OF m reach created_run_known[OF assms(1) c]])
    with y c show thesis by (auto intro: that)
  next
    case False
    with k c show thesis by (auto intro: that)
  qed
qed

lemma new_run_created:
  assumes "reachable s" and "createRunWithState i s = (Inr (r, created), s1)" and "map_get (runs s) (run_id r) = None"
  shows created
proof (rule ccontr)
  assume "\<not> created"
  then have "\<not> may_create i s" using assms(2) by (auto simp: createRunWithState_new)
  from createRunWithState_old_run[OF this assms(2)] stored_run_known[OF assms(1)] assms(3) show False by fastforce
qed

lemma work_steps_steps: "work_step\<^sup>*\<^sup>* s s' \<Longrightarrow> step\<^sup>*\<^sup>* s s'"
  by (induction rule: rtranclp_induct) (auto simp: step_def intro: rtranclp.rtrancl_into_rtrancl)

lemma atomic_start_returned:
  assumes "reachable s" and "root_input i"
    and "atomic_startWorkflowRun i at' s = (Inr r, s') \<or> atomic_startTaskRun i n v k at' s = (Inr r, s')"
  obtains created s1 where "createRunWithState i s = (Inr (r, created), s1)" "work_step\<^sup>*\<^sup>* s1 s'"
  using assms(3)
proof
  assume start: "atomic_startWorkflowRun i at' s = (Inr r, s')"
  have "works (\<lambda>s. known_run s (run_id q)) (case at' of Some t \<Rightarrow> rce_enqueueDelayed in_memory_coordination c t
      | None \<Rightarrow> rce_enqueue in_memory_coordination c) anything" for q :: StoredRun and c
    by (rule anywhere[where Q = anything]) (auto simp: in_memory_coordination_def executors_work split: option.split)
  note command_works = this
  from start show thesis
    unfolding atomic_startWorkflowRun_def Let_def
    by (elim guarded_start_returned[OF assms(1,2)]) (rule command_works, rule that)
next
  assume "atomic_startTaskRun i n v k at' s = (Inr r, s')"
  then show thesis
    unfolding atomic_startTaskRun_def
    by (elim guarded_start_returned[OF assms(1,2)]) (rule in_memory.dispatchTaskRunAttempt_works, rule that)
qed

text \<open>
  C25: a repeated start with an idempotency key is silent. After an atomic start created a run,
  every later atomic start of the same input, of a workflow or of a task, returns that
  run and changes nothing: neither a run nor a command is created twice.
\<close>

theorem repeated_start_is_silent:
  assumes "reachable s" and "root_input i" and "cr_idempotencyKey i = Some key"
    and "atomic_startWorkflowRun i at1 s = (Inr r, s') \<or> atomic_startTaskRun i n v k at1 s = (Inr r, s')"
    and "map_get (runs s) (run_id r) = None" and "step\<^sup>*\<^sup>* s' t" and "map_get (runs t) (run_id r) = Some r'"
  shows "atomic_startWorkflowRun i at2 t = (Inr r', t) \<and> atomic_startTaskRun i n' v' k' at2 t = (Inr r', t)"
proof -
  obtain created s1 where x: "createRunWithState i s = (Inr (r, created), s1)" "work_step\<^sup>*\<^sup>* s1 s'"
    by (rule atomic_start_returned[OF assms(1,2,4)])
  have created by (rule new_run_created[OF assms(1) x(1) assms(5)])
  have "step\<^sup>*\<^sup>* s1 t" by (rule rtranclp_trans[OF work_steps_steps[OF x(2)] assms(6)])
  from create_run_again[OF assms(1-3) _ this assms(7)] x(1) \<open>created\<close>
  have "createRunWithState i t = (Inr (r', False), t)" by simp
  then show ?thesis by (simp add: atomic_startWorkflowRun_def atomic_startTaskRun_def await_def)
qed

theorem repeated_start_is_silent_witness:
  "\<exists>r s'. atomic_startWorkflowRun (root_workflow (Some sample_key) None) None empty_runtime = (Inr r, s')
     \<and> atomic_startWorkflowRun (root_workflow (Some sample_key) None) (Some 5000) s' = (Inr r, s')"
proof -
  let ?i = "root_workflow (Some sample_key) None"
  have "\<exists>r s'. atomic_startWorkflowRun ?i None empty_runtime = (Inr r, s') \<and> run_id r = ''run-1''
      \<and> map_get (runs s') ''run-1'' = Some r"
    by (simp add: atomic_startWorkflowRun_def in_memory_coordination_def effect_defs enqueue_def enqueueContinue_def sample_defs sample_eval)
  then obtain r s' where start: "atomic_startWorkflowRun ?i None empty_runtime = (Inr r, s')" "run_id r = ''run-1''"
      "map_get (runs s') ''run-1'' = Some r" by (elim exE conjE)
  have "map_get (runs empty_runtime) (run_id r) = None" by (simp add: start(2) sample_defs createInMemoryWorkflowRuntime_def)
  moreover have "cr_idempotencyKey ?i = Some sample_key" by (simp add: root_workflow_def)
  ultimately have "atomic_startWorkflowRun ?i (Some 5000) s' = (Inr r, s')"
    using repeated_start_is_silent[OF reachable_empty root_workflow_root _ disjI1[OF start(1)] _ rtranclp.rtrancl_refl, of sample_key r "Some 5000"]
      start(2,3) by simp
  with start(1) show ?thesis by blast
qed

section \<open>Dispatched attempts\<close>

lemma wakeCommand_rows [simp]:
  "children (wakeCommand k at' s) = children s" "attempts (wakeCommand k at' s) = attempts s"
  "claimedAttemptCommands (wakeCommand k at' s) = claimedAttemptCommands s"
  using calm_wakeCommand[of s k at'] by (auto simp: calm_def view_defs)

lemma dispatchTask_rows:
  "children (dispatchTask c at' s) = children s" "attempts (dispatchTask c at' s) = attempts s"
  by (simp_all add: dispatchTask_def dispatchAttempt_def queueItem_def Let_def case_prod_beta)

lemma dispatchTask_queued: "attemptCommandExists (cmd_attemptId c) (dispatchTask c at' s)"
  by (auto simp: dispatchTask_def dispatchAttempt_def attemptCommandExists_def queueItem_def Let_def case_prod_beta)

lemma createChildAttempt_current:
  assumes "createChildAttempt c v key s = (a, s')"
  shows "map_get (attempts s') (attempt_id a) = Some a
    \<and> (\<exists>c'. map_get (children s') (childKey (child_runId c) (child_nodeName c) (child_childKey c)) = Some c'
         \<and> child_currentAttemptId c' = Some (attempt_id a))"
  using assms by (auto simp: createChildAttempt_def insertChildAttempt_def Let_def case_prod_beta mirrorNodeRunning_frames)

lemma ensureChildAttempt_current:
  assumes "reachable s" and "ensureChildAttempt i s = (Inr (a, created), s')"
  shows "map_get (attempts s') (attempt_id a) = Some a
    \<and> (\<exists>c. map_get (children s') (childKey (ca_runId i) (ca_nodeName i) (ca_childKey i)) = Some c
         \<and> child_currentAttemptId c = Some (attempt_id a))"
proof -
  have "node_inv s" using node_invariant.holds[OF assms(1)] by simp
  note rows = node_inv_rows[OF this]
  obtain c where c: "map_get (children s) (childKey (ca_runId i) (ca_nodeName i) (ca_childKey i)) = Some c"
    using assms(2) by (auto simp: ensureChildAttempt_def split: option.splits)
  have key: "childKey (child_runId c) (child_nodeName c) (child_childKey c) = childKey (ca_runId i) (ca_nodeName i) (ca_childKey i)"
    using rows(2)[OF c] by (simp add: child_row_ok_def)
  show ?thesis
  proof (cases "0 < child_attemptCount c")
    case True
    with c assms(2) have cur: "currentAttempt c s = Some a" "s' = s" by (auto simp: ensureChildAttempt_def split: option.splits)
    obtain a' att where "child_currentAttemptId c = Some a'" "map_get (attempts s) a' = Some att"
      using child_row_ok_current[OF rows(2)[OF c]] True by (auto simp: current_ok_def split: option.splits)
    with c cur rows(3) show ?thesis by (auto simp: currentAttempt_def attempt_row_ok_def)
  next
    case False
    with c assms(2) have "createChildAttempt c (ca_input i) (ca_idempotencyKey i) s = (a, s')"
      by (auto simp: ensureChildAttempt_def split: if_splits prod.splits)
    from createChildAttempt_current[OF this] show ?thesis unfolding key .
  qed
qed

lemma await_reached:
  assumes "await m k s = (Inr y, s')" and "works P m Q" and "reachable s" and "P s" and "stable P"
  obtains x s1 where "k x s1 = (Inr y, s')" "reachable s1" "P s1"
proof -
  obtain x s1 where x: "m s = (Inr x, s1)" "k x s1 = (Inr y, s')" by (rule await_returned[OF assms(1)])
  have "work_step\<^sup>*\<^sup>* s s1" using works_steps[OF assms(2-4)] x(1) by simp
  then show thesis by (intro that[OF x(2)] work_steps_reachable[OF _ assms(3)] stable_steps[OF _ assms(5,4)])
qed

lemma dispatched_attempt:
  assumes "dispatchTaskAttempt in_memory_deps w t r n key timeout at' b
      (await (st_ensureChildAttempt (store in_memory_deps) i) (\<lambda>(a, created). ret (a, f a created, created))) s = (Inr (), s')"
    and "reachable s"
  shows "\<exists>c a. map_get (children s') (childKey (ca_runId i) (ca_nodeName i) (ca_childKey i)) = Some c
    \<and> child_currentAttemptId c = Some (attempt_id a) \<and> map_get (attempts s') (attempt_id a) = Some a
    \<and> (attempt_status a = AStarted \<longrightarrow> attemptCommandExists (attempt_id a) s')"
proof -
  have ensure: "st_ensureChildAttempt (store in_memory_deps) i = ensureChildAttempt i"
    by (simp add: in_memory_deps_def in_memory_store_def)
  obtain a v created s1 where p: "ensureChildAttempt i s = (Inr (a, created), s1)"
      "(if \<not> created \<and> attempt_status a \<noteq> AStarted then ret ()
        else catch (ae_dispatchTask (attemptExecutor in_memory_deps) (TaskAttempt w t r n key (attempt_id a) (attempt_leaseToken a) v (attempt_idempotencyKey a) timeout) at')
          (\<lambda>e. if b then await (reading rt_host) (\<lambda>host. await (st_failCurrentAttempt (store in_memory_deps) (attempt_id a) (attempt_leaseToken a) (error_object host e))
             (\<lambda>_. await (failNodeAndRun in_memory_deps r n (error_object host e)) (\<lambda>_. raise e))) else raise e)) s1 = (Inr (), s')"
    using assms(1) unfolding dispatchTaskAttempt_def dispatchPreparedAttempt_def ensure
    by (auto elim!: await_returned)
  note current = ensureChildAttempt_current[OF assms(2) p(1)]
  show ?thesis
  proof (cases "\<not> created \<and> attempt_status a \<noteq> AStarted")
    case True
    with p(2) current show ?thesis by auto
  next
    case False
    then have s': "s' = dispatchTask (TaskAttempt w t r n key (attempt_id a) (attempt_leaseToken a) v (attempt_idempotencyKey a) timeout) at' s1"
      using p(2) by (auto simp: in_memory_deps_def in_memory_attempts_def effect_defs)
    have "attemptCommandExists (attempt_id a) s'"
      unfolding s' using dispatchTask_queued[of "TaskAttempt w t r n key (attempt_id a) (attempt_leaseToken a) v (attempt_idempotencyKey a) timeout"] by simp
    with current show ?thesis unfolding s' dispatchTask_rows by blast
  qed
qed

text \<open>
  C26: a dispatched task run is executed by someone. When \<open>dispatchTaskRunAttempt\<close> returns, the
  task's only child has a stored current attempt, and as long as that attempt is started
  a command for it is queued or claimed.
\<close>

theorem task_start_has_command:
  assumes "reachable s" and "known_run s r" and "dispatchTaskRunAttempt in_memory_deps name r v key timeout at' b s = (Inr (), s')"
  shows "\<exists>c a. map_get (children s') (childKey r TASK_RUN_NODE_NAME SELF_CHILD_KEY) = Some c
    \<and> child_currentAttemptId c = Some (attempt_id a) \<and> map_get (attempts s') (attempt_id a) = Some a
    \<and> (attempt_status a = AStarted \<longrightarrow> attemptCommandExists (attempt_id a) s')"
proof -
  note known = stable_known[of r] and start = assms(3)[unfolded dispatchTaskRunAttempt_def]
    and input_works = in_memory.works_setNodeInput[THEN anywhere, where P = "\<lambda>s. known_run s r"]
  show ?thesis
    by (rule await_reached[OF start in_memory.works_createNode assms(1,2) known], simp,
        erule (2) await_reached[OF _ input_works _ _ known],
        erule await_reached[OF _ in_memory.works_ensureNodeChildren _ _ known], simp, assumption, assumption,
        drule (1) dispatched_attempt, simp)
qed

theorem task_start_has_command_witness:
  "\<exists>s' c a. dispatchTaskRunAttempt in_memory_deps ''resize'' ''run-1'' JNull None None None True one_run = (Inr (), s')
     \<and> map_get (children s') ''run-1:$task:$self'' = Some c \<and> child_currentAttemptId c = Some (attempt_id a)
     \<and> map_get (attempts s') (attempt_id a) = Some a"
proof -
  have "\<exists>s'. dispatchTaskRunAttempt in_memory_deps ''resize'' ''run-1'' JNull None None None True one_run = (Inr (), s')"
    by (simp add: dispatchTaskRunAttempt_def dispatchTaskAttempt_def dispatchPreparedAttempt_def in_memory_deps_def in_memory_store_def
        in_memory_attempts_def effect_defs createNode_def setNodeInput_def ensureNodeChildren_def ensureChildAttempt_def
        dispatchTask_def dispatchAttempt_def sample_defs sample_eval)
  then obtain s' where start: "dispatchTaskRunAttempt in_memory_deps ''resize'' ''run-1'' JNull None None None True one_run = (Inr (), s')"
    by (elim exE)
  have "known_run one_run ''run-1''" using stored_run_known[OF reachable_one_run] by (auto simp: sample_defs sample_eval)
  from task_start_has_command[OF reachable_one_run this start] start show ?thesis
    by (auto simp: childKey_def TASK_RUN_NODE_NAME_def SELF_CHILD_KEY_def)
qed

end
