(* ===== verification/Scheduler.thy ===== *)
theory Scheduler
  imports Coordinator
begin

text \<open>
  Recurring runs: \<open>runtime/scheduler.ts\<close> and the \<open>scheduler\<close> of \<open>runtime/in-memory.ts\<close>. The
  cron parser is a third-party package and a parameter of the model.
\<close>

section \<open>Definitions of schedules\<close>

record ScheduleDefinition =
  sd_name :: string
  sd_runnableKind :: RunKind
  sd_runnableName :: string
  sd_runnableInput :: Schema
  sd_runnableTags :: "jsval tags"
  sd_input :: jsval
  sd_cron :: "string option"
  sd_every :: "string option"
  sd_tags :: "(string \<times> string) list option"
  sd_enabled :: "bool option"
  sd_immediately :: "bool option"

record NormalizedScheduleEntry =
  nse_name :: string
  nse_runnableKind :: RunKind
  nse_runnableName :: string
  nse_input :: jsval
  nse_tags :: "(string \<times> string) list"
  nse_cron :: "string option"
  nse_everyMs :: "jsnum option"
  nse_enabled :: bool
  nse_nextRunAt :: "int option"

text \<open>\<open>CronExpressionParser.parse\<close> at a current date, and \<open>next().toDate()\<close> of what it returns.\<close>

record cron_parser =
  cron_parse :: "string \<Rightarrow> int \<Rightarrow> thrown + unit"
  cron_next :: "string \<Rightarrow> int \<Rightarrow> thrown + int"

section \<open>Dates and doubles\<close>

text \<open>
  A \<open>Date\<close> holds a whole number of milliseconds of at most 8.64e15, or is invalid (\<open>None\<close>);
  comparing with an invalid date is false. The sign of a zero plays no role below.
\<close>

definition MAX_TIME :: int where
  "MAX_TIME = 8640000000000000"

definition trunc_rat :: "rat \<Rightarrow> int" where
  "trunc_rat r = (if r < 0 then - \<lfloor>- r\<rfloor> else \<lfloor>r\<rfloor>)"

fun new_Date :: "jsnum \<Rightarrow> int option" where
  "new_Date (Fin r) = (if \<bar>r\<bar> \<le> of_int MAX_TIME then Some (trunc_rat r) else None)"
| "new_Date NegZero = Some 0"
| "new_Date _ = None"

definition date_le :: "int option \<Rightarrow> int \<Rightarrow> bool" where
  "date_le d date = (case d of None \<Rightarrow> False | Some t \<Rightarrow> t \<le> date)"

text \<open>The operations of doubles on the operands that occur: a positive \<open>everyMs\<close>, a count from 1.\<close>

fun over_every :: "numerics \<Rightarrow> int \<Rightarrow> jsnum \<Rightarrow> jsnum" where
  "over_every nu elapsed (Fin e) = roundDouble nu (num_value (roundDouble nu (of_int elapsed)) / e)"
| "over_every nu elapsed _ = Fin 0"

fun missed_slots :: "jsnum \<Rightarrow> jsnum" where
  "missed_slots (Fin q) = Fin (max 0 (of_int \<lfloor>q\<rfloor>))"
| "missed_slots PosInfinity = PosInfinity"
| "missed_slots NaN = NaN"
| "missed_slots _ = Fin 0"

fun plus_double :: "numerics \<Rightarrow> jsnum \<Rightarrow> rat \<Rightarrow> jsnum" where
  "plus_double nu (Fin r) k = roundDouble nu (r + k)"
| "plus_double nu NegZero k = roundDouble nu k"
| "plus_double nu n k = n"

fun times_every :: "numerics \<Rightarrow> jsnum \<Rightarrow> jsnum \<Rightarrow> jsnum" where
  "times_every nu (Fin a) (Fin e) = roundDouble nu (a * e)"
| "times_every nu NaN e = NaN"
| "times_every nu a e = PosInfinity"

fun positive :: "jsnum \<Rightarrow> bool" where
  "positive (Fin r) = (0 < r)"
| "positive PosInfinity = True"
| "positive _ = False"

section \<open>Cadence\<close>

definition normalizeScheduleCadence ::
  "cron_parser \<Rightarrow> numerics \<Rightarrow> ScheduleDefinition \<Rightarrow> (string option \<times> jsnum option) res" where
  "normalizeScheduleCadence cp nu input =
     (if (sd_cron input = None) = (sd_every input = None)
      then Inl (Thrown (new_Error (''Schedule ['' @ sd_name input @ ''] must define exactly one of cron/every'')))
      else case sd_every input of
        Some every \<Rightarrow>
          (case parseDurationMs nu (Some every) of
             Some everyMs \<Rightarrow>
               if positive everyMs then Inr (None, Some everyMs)
               else Inl (Thrown (new_Error (''Invalid schedule ['' @ sd_name input @ ''] every duration ['' @ every @ '']'')))
           | None \<Rightarrow> Inl (Thrown (new_Error (''Invalid schedule ['' @ sd_name input @ ''] every duration ['' @ every @ '']''))))
      | None \<Rightarrow>
          (case sd_cron input of
             None \<Rightarrow> Inr (None, None)
           | Some cron \<Rightarrow>
               (case cron_parse cp cron 0 of
                  Inl e \<Rightarrow> Inl (Thrown (Err ''Error'' (''Invalid schedule ['' @ sd_name input @ ''] cron ['' @ cron @ '']'') None e))
                | Inr _ \<Rightarrow> Inr (Some cron, None))))"

definition nextScheduleRunAt ::
  "cron_parser \<Rightarrow> numerics \<Rightarrow> string option \<Rightarrow> jsnum option \<Rightarrow> int \<Rightarrow> int option \<Rightarrow> int option res" where
  "nextScheduleRunAt cp nu cron everyMs date base =
     (case cron of
        Some c \<Rightarrow>
          (case cron_parse cp c date of
             Inl e \<Rightarrow> Inl (Thrown e)
           | Inr _ \<Rightarrow> (case cron_next cp c date of Inl e \<Rightarrow> Inl (Thrown e) | Inr t \<Rightarrow> Inr (Some t)))
      | None \<Rightarrow>
          (case everyMs of
             None \<Rightarrow> Inl (Thrown (new_Error ''Schedule everyMs must be a positive number''))
           | Some every \<Rightarrow>
               if \<not> positive every then Inl (Thrown (new_Error ''Schedule everyMs must be a positive number''))
               else case base of
                 None \<Rightarrow> Inr None
               | Some start \<Rightarrow>
                   (let missed = missed_slots (over_every nu (date - start) every);
                        offset = times_every nu (plus_double nu missed 1) every
                    in Inr (new_Date (plus_double nu offset (of_int start))))))"

definition nextStoredScheduleRunAt :: "cron_parser \<Rightarrow> numerics \<Rightarrow> StoredWorkflowSchedule \<Rightarrow> int \<Rightarrow> int option res" where
  "nextStoredScheduleRunAt cp nu schedule date =
     nextScheduleRunAt cp nu (sched_cron schedule) (sched_everyMs schedule) date (sched_nextRunAt schedule)"

definition decodeScheduleInput :: "ScheduleDefinition \<Rightarrow> jsval res" where
  "decodeScheduleInput schedule =
     (case decodeSchemaValue (sd_runnableInput schedule) (sd_input schedule) (''schedule input ['' @ sd_name schedule @ '']'') of
        Inl e \<Rightarrow> Inl (Thrown (Err ''Error'' (''Invalid schedule ['' @ sd_name schedule @ ''] input'') None e))
      | Inr v \<Rightarrow> Inr v)"

definition bind_res :: "'a res \<Rightarrow> ('a \<Rightarrow> 'b res) \<Rightarrow> 'b res" where
  "bind_res r k = (case r of Inl e \<Rightarrow> Inl e | Inr x \<Rightarrow> k x)"

definition normalizeScheduleDefinition ::
  "cron_parser \<Rightarrow> numerics \<Rightarrow> ScheduleDefinition \<Rightarrow> int \<Rightarrow> NormalizedScheduleEntry res" where
  "normalizeScheduleDefinition cp nu schedule date =
     bind_res (normalizeScheduleCadence cp nu schedule) (\<lambda>(cron, everyMs).
     bind_res (decodeScheduleInput schedule) (\<lambda>input.
     bind_res (if sd_immediately schedule = Some True then Inr (Some date)
               else nextScheduleRunAt cp nu cron everyMs date (Some date)) (\<lambda>nextRunAt.
     bind_res (case sd_tags schedule of
                 Some tags \<Rightarrow> Inr tags
               | None \<Rightarrow> map_sum id (\<lambda>tags. case tags of None \<Rightarrow> [] | Some t \<Rightarrow> t)
                          (resolveTags (sd_runnableTags schedule) input)) (\<lambda>tags.
     Inr \<lparr>nse_name = sd_name schedule, nse_runnableKind = sd_runnableKind schedule,
          nse_runnableName = sd_runnableName schedule, nse_input = input, nse_tags = tags,
          nse_cron = cron, nse_everyMs = everyMs,
          nse_enabled = (case sd_enabled schedule of None \<Rightarrow> True | Some b \<Rightarrow> b),
          nse_nextRunAt = nextRunAt\<rparr>))))"

primrec normalize_from ::
  "string list \<Rightarrow> cron_parser \<Rightarrow> numerics \<Rightarrow> ScheduleDefinition list \<Rightarrow> int \<Rightarrow> NormalizedScheduleEntry list res" where
  "normalize_from names cp nu [] date = Inr []"
| "normalize_from names cp nu (schedule # rest) date =
     (if sd_name schedule \<in> set names
      then Inl (Thrown (new_Error (''Duplicate workflow schedule ['' @ sd_name schedule @ '']'')))
      else
        bind_res (normalizeScheduleDefinition cp nu schedule date) (\<lambda>entry.
        bind_res (normalize_from (sd_name schedule # names) cp nu rest date) (\<lambda>entries.
        Inr (entry # entries))))"

definition normalizeScheduleDefinitions ::
  "cron_parser \<Rightarrow> numerics \<Rightarrow> ScheduleDefinition list \<Rightarrow> int \<Rightarrow> NormalizedScheduleEntry list res" where
  "normalizeScheduleDefinitions cp nu definitions date = normalize_from [] cp nu definitions date"

section \<open>Starting the run of a slot\<close>

definition schedule_key :: "host \<Rightarrow> StoredWorkflowSchedule \<Rightarrow> int \<Rightarrow> jsval list" where
  "schedule_key h schedule slot = [JStr ''$schedule'', JStr (sched_name schedule), JStr (toISOString h slot)]"

definition scheduled_run :: "host \<Rightarrow> StoredWorkflowSchedule \<Rightarrow> int \<Rightarrow> CreateRunInput" where
  "scheduled_run h schedule slot =
     \<lparr>cr_kind = Some (sched_runnableKind schedule), cr_name = Some (sched_runnableName schedule),
      cr_workflowName = sched_runnableName schedule,
      cr_taskName = (if sched_runnableKind schedule = TaskRun then Some (sched_runnableName schedule) else None),
      cr_input = sched_input schedule, cr_parentRunId = None, cr_parentNodeName = None, cr_rootRunId = None,
      cr_tags = Some (map_set ''schedule'' (sched_name schedule) (sched_tags schedule)),
      cr_idempotencyKey = Some (schedule_key h schedule slot), cr_unique = None\<rparr>"

definition startStoredScheduleRun :: "RuntimeDeps \<Rightarrow> StoredWorkflowSchedule \<Rightarrow> int \<Rightarrow> StoredRun op" where
  "startStoredScheduleRun deps schedule slot =
     await (reading rt_host) (\<lambda>host.
     await (st_createRun (store deps) (scheduled_run host schedule slot)) (\<lambda>run.
     await (if sched_runnableKind schedule = TaskRun
            then dispatchTaskRunAttempt deps (sched_runnableName schedule) (run_id run) (sched_input schedule)
                   (Some (schedule_key host schedule slot)) None None True
            else rce_enqueue (runCoordinationExecutor deps)
                   \<lparr>cont_runId = run_id run, cont_workflowName = sched_runnableName schedule\<rparr>) (\<lambda>_.
     ret run)))"

section \<open>The scheduler of the in-memory runtime\<close>

definition normalizeScheduleLimit :: "jsnum option \<Rightarrow> int" where
  "normalizeScheduleLimit limit =
     (case limit of
        None \<Rightarrow> 100
      | Some n \<Rightarrow> if \<not> isInteger n \<or> num_value n < 1 then 0 else \<lfloor>num_value n\<rfloor>)"

definition compareSchedulesByDueDate :: "host \<Rightarrow> StoredWorkflowSchedule \<Rightarrow> StoredWorkflowSchedule \<Rightarrow> int" where
  "compareSchedulesByDueDate h left right =
     (let byDate = the (sched_nextRunAt left) - the (sched_nextRunAt right)
      in if byDate \<noteq> 0 then byDate else localeCompare h (sched_name left) (sched_name right))"

definition set_schedule :: "StoredWorkflowSchedule \<Rightarrow> runtime \<Rightarrow> runtime" where
  "set_schedule schedule s = s\<lparr>schedules := map_set (sched_name schedule) schedule (schedules s)\<rparr>"

definition shouldResetNextRunAt :: "StoredWorkflowSchedule option \<Rightarrow> NormalizedScheduleEntry \<Rightarrow> int \<Rightarrow> bool" where
  "shouldResetNextRunAt existing normalized date =
     (case existing of
        None \<Rightarrow> True
      | Some e \<Rightarrow>
          sched_cron e \<noteq> nse_cron normalized \<or> sched_everyMs e \<noteq> nse_everyMs normalized \<or>
          (\<not> sched_enabled e \<and> nse_enabled normalized \<and> date_le (sched_nextRunAt e) date))"

definition reconciled_schedule ::
  "int \<Rightarrow> NormalizedScheduleEntry \<Rightarrow> StoredWorkflowSchedule option \<Rightarrow> string \<Rightarrow> StoredWorkflowSchedule" where
  "reconciled_schedule date normalized existing scheduleId =
     \<lparr>sched_id = scheduleId, sched_name = nse_name normalized,
      sched_runnableKind = nse_runnableKind normalized, sched_runnableName = nse_runnableName normalized,
      sched_input = nse_input normalized, sched_tags = nse_tags normalized,
      sched_cron = nse_cron normalized, sched_everyMs = nse_everyMs normalized,
      sched_enabled = nse_enabled normalized,
      sched_nextRunAt = (if shouldResetNextRunAt existing normalized date then nse_nextRunAt normalized
                         else sched_nextRunAt (the existing)),
      sched_lastSlotAt = (case existing of None \<Rightarrow> None | Some e \<Rightarrow> sched_lastSlotAt e),
      sched_createdAt = (case existing of None \<Rightarrow> date | Some e \<Rightarrow> sched_createdAt e),
      sched_updatedAt = date\<rparr>"

definition reconcile_entry :: "int \<Rightarrow> NormalizedScheduleEntry \<Rightarrow> runtime \<Rightarrow> runtime" where
  "reconcile_entry date normalized s =
     (let existing = map_get (schedules s) (nse_name normalized);
          (scheduleId, s1) = (case existing of None \<Rightarrow> fresh_id ''schedule'' s | Some e \<Rightarrow> (sched_id e, s))
      in set_schedule (reconciled_schedule date normalized existing scheduleId) s1)"

definition reconcile :: "cron_parser \<Rightarrow> ScheduleDefinition list \<Rightarrow> unit op" where
  "reconcile cp entries s =
     (let (date, s1) = now s
      in case normalizeScheduleDefinitions cp (nums (rt_host s)) entries date of
           Inl e \<Rightarrow> (Inl e, s1)
         | Inr normalizedEntries \<Rightarrow>
             (let names = map nse_name normalizedEntries;
                  s2 = s1\<lparr>schedules := filter (\<lambda>(name, _). name \<in> set names) (schedules s1)\<rparr>
              in (Inr (), fold (reconcile_entry date) normalizedEntries s2)))"

definition fire_schedule :: "cron_parser \<Rightarrow> int \<Rightarrow> StoredWorkflowSchedule \<Rightarrow> unit op" where
  "fire_schedule cp date schedule s =
     await (startStoredScheduleRun in_memory_deps schedule (the (sched_nextRunAt schedule))) (\<lambda>_.
     await (pureRes (nextStoredScheduleRunAt cp (nums (rt_host s)) schedule date)) (\<lambda>nextRunAt.
     await (total now) (\<lambda>updatedAt.
     doing (set_schedule (schedule\<lparr>sched_lastSlotAt := sched_nextRunAt schedule, sched_nextRunAt := nextRunAt,
                                   sched_updatedAt := updatedAt\<rparr>))))) s"

definition dueSchedules :: "int \<Rightarrow> int \<Rightarrow> runtime \<Rightarrow> StoredWorkflowSchedule list" where
  "dueSchedules date limit s =
     take (nat limit) (sort_by (compareSchedulesByDueDate (rt_host s))
       (filter (\<lambda>schedule. sched_enabled schedule \<and> date_le (sched_nextRunAt schedule) date) (map_values (schedules s))))"

definition fireDue :: "cron_parser \<Rightarrow> int option \<Rightarrow> jsnum option \<Rightarrow> nat op" where
  "fireDue cp opt_now opt_limit s =
     (let (date, s1) = (case opt_now of None \<Rightarrow> now s | Some d \<Rightarrow> (d, s));
          limit = normalizeScheduleLimit opt_limit
      in if limit < 1 then (Inr 0, s1)
         else (let due = dueSchedules date limit s1
               in await (each due (fire_schedule cp date)) (\<lambda>_. ret (length due)) s1))"

definition list_schedules :: "runtime \<Rightarrow> StoredWorkflowSchedule list" where
  "list_schedules s =
     sort_by (\<lambda>left right. localeCompare (rt_host s) (sched_name left) (sched_name right)) (map_values (schedules s))"

definition trigger :: "string \<Rightarrow> StoredRun op" where
  "trigger name s =
     (case map_get (schedules s) name of
        None \<Rightarrow> throw (''Unknown workflow schedule ['' @ name @ '']'') s
      | Some schedule \<Rightarrow>
          (let (date, s1) = now s in startStoredScheduleRun in_memory_deps schedule date s1))"

definition setEnabled :: "cron_parser \<Rightarrow> string \<Rightarrow> bool \<Rightarrow> StoredWorkflowSchedule op" where
  "setEnabled cp name enabled s =
     (case map_get (schedules s) name of
        None \<Rightarrow> throw (''Unknown workflow schedule ['' @ name @ '']'') s
      | Some schedule \<Rightarrow>
          (let (date, s1) = now s
           in await (pureRes (if enabled \<and> \<not> sched_enabled schedule \<and> date_le (sched_nextRunAt schedule) date
                              then nextStoredScheduleRunAt cp (nums (rt_host s)) schedule date
                              else Inr (sched_nextRunAt schedule))) (\<lambda>nextRunAt.
              let updated = schedule\<lparr>sched_enabled := enabled, sched_nextRunAt := nextRunAt, sched_updatedAt := date\<rparr>
              in await (doing (\<lambda>s. s\<lparr>schedules := map_set name updated (schedules s)\<rparr>)) (\<lambda>_. ret updated)) s1))"

end
