(* ===== verification/SchedulerProperties.thy ===== *)
theory SchedulerProperties
  imports Scheduler CoordinatorProperties DeadCommands
begin

text \<open>
  What the scheduler guarantees: the next slot of an interval, what firing the due schedules
  leaves behind, that a slot is started once, and what a reconciliation keeps.
\<close>

section \<open>Slots\<close>

text \<open>
  What IEEE 754 promises of rounding to the nearest double: integers up to 2^53 are exact and
  the relative error within the normal range (of which a part suffices here) is at most 2^-53.
\<close>

definition nearest_double :: "numerics \<Rightarrow> bool" where
  "nearest_double nu \<longleftrightarrow> exact_integers nu \<and>
     (\<forall>r. 1 / 2 ^ 60 \<le> \<bar>r\<bar> \<longrightarrow> \<bar>r\<bar> \<le> 2 ^ 60 \<longrightarrow> (\<exists>x. roundDouble nu r = Fin x \<and> \<bar>x - r\<bar> \<le> \<bar>r\<bar> / 2 ^ 53))"

definition is_slot :: "int \<Rightarrow> int \<Rightarrow> int \<Rightarrow> bool" where
  "is_slot base every t \<longleftrightarrow> base < t \<and> every dvd (t - base)"

lemma close_to_quotient:
  fixes x :: rat
  assumes "0 < e" and "\<not> e dvd a" and "\<bar>x - of_int a / of_int e\<bar> < 1 / of_int e"
  shows "\<lfloor>x\<rfloor> = a div e"
proof -
  let ?e = "of_int e :: rat"
  have "a mod e \<noteq> 0" using assms(2) by (simp add: dvd_eq_mod_eq_0)
  then have r: "1 \<le> a mod e" "a mod e + 1 \<le> e" using assms(1) pos_mod_bound[of e a] pos_mod_sign[of e a] by linarith+
  have "a = a div e * e + a mod e" by simp
  then have "(of_int a :: rat) = of_int (a div e) * ?e + of_int (a mod e)" by (metis of_int_add of_int_mult)
  then have q: "of_int a / ?e = of_int (a div e) + of_int (a mod e) / ?e" using assms(1) by (simp add: field_simps)
  have e: "0 < ?e" using assms(1) by simp
  have "(1::rat) \<le> of_int (a mod e)" "of_int (a mod e) + 1 \<le> ?e"
    using r by (metis of_int_1_le_iff, metis of_int_add of_int_1 of_int_le_iff)
  then have "1 / ?e \<le> of_int (a mod e) / ?e" "of_int (a mod e) / ?e + 1 / ?e \<le> 1"
    using e by (simp_all add: divide_right_mono add_divide_distrib[symmetric])
  with assms(3) q have "of_int (a div e) < x" "x < of_int (a div e) + 1" by linarith+
  then show ?thesis by (intro floor_unique) simp_all
qed

lemma rounded_quotient:
  assumes "nearest_double nu" and "0 < e" and "e \<le> 2 ^ 53" and "\<bar>a\<bar> < 2 ^ 53"
  obtains x where "roundDouble nu (of_int a / of_int e) = Fin x" "max 0 \<lfloor>x\<rfloor> = max 0 (a div e)"
proof (cases "e dvd a")
  case True
  then obtain k where k: "a = e * k" by blast
  have "\<bar>k\<bar> \<le> \<bar>a\<bar>" using assms(2) k by (cases "k = 0") (auto simp: abs_mult mult_le_cancel_right1)
  then have "roundDouble nu (of_int k) = Fin (of_int k)"
    using assms(1,4) by (auto simp: nearest_double_def exact_integers_def)
  then show thesis using k assms(2) by (intro that[of "of_int k"]) simp_all
next
  case False
  obtain M :: rat where M: "M = 2 ^ 53" by simp
  have e: "1 \<le> (of_int e :: rat)" "of_int e \<le> M"
    using assms(2,3) M of_int_le_iff[of e "2 ^ 53", where 'a = rat] by simp_all
  have "1 \<le> \<bar>a\<bar>" using False by (cases "a = 0") auto
  then have a: "1 \<le> \<bar>of_int a :: rat\<bar>" "\<bar>of_int a :: rat\<bar> < M"
    using assms(4) M of_int_less_iff[of "\<bar>a\<bar>" "2 ^ 53", where 'a = rat]
      of_int_le_iff[of 1 "\<bar>a\<bar>", where 'a = rat] by (simp_all add: of_int_abs)
  have "1 / 2 ^ 60 \<le> 1 / M" "M \<le> 2 ^ 60" unfolding M by simp_all
  moreover have "1 / M \<le> 1 / of_int e" using e by (intro divide_left_mono) simp_all
  moreover have "1 / of_int e \<le> \<bar>of_int a :: rat\<bar> / of_int e" using e a by (intro divide_right_mono) simp_all
  moreover have "\<bar>of_int a :: rat\<bar> / of_int e \<le> \<bar>of_int a\<bar>" 
    using e mult_right_mono[OF e(1), of "\<bar>of_int a\<bar>"] by (simp add: field_simps)
  ultimately have "1 / 2 ^ 60 \<le> \<bar>of_int a / of_int e :: rat\<bar>" "\<bar>of_int a / of_int e :: rat\<bar> \<le> 2 ^ 60"
    using a e by (simp_all add: abs_divide)
  then obtain x where x: "roundDouble nu (of_int a / of_int e) = Fin x" "\<bar>x - of_int a / of_int e\<bar> \<le> \<bar>of_int a / of_int e\<bar> / M"
    using assms(1) unfolding nearest_double_def M by blast
  have "\<bar>of_int a / of_int e :: rat\<bar> / M < 1 / of_int e" using a e by (simp add: abs_divide field_simps)
  with x(2) have "\<lfloor>x\<rfloor> = a div e" by (intro close_to_quotient[OF assms(2) False]) simp
  with x(1) show thesis by (intro that[of x]) simp_all
qed

text \<open>The first slot after a date, over the integers.\<close>

definition first_slot :: "int \<Rightarrow> int \<Rightarrow> int \<Rightarrow> int" where
  "first_slot base e date = base + (max 0 ((date - base) div e) + 1) * e"

lemma multiple_above:
  fixes e k n :: int
  assumes "0 < e" and "n * e < k * e"
  shows "(n + 1) * e \<le> k * e"
  using assms by (intro mult_right_mono) (simp_all add: mult_less_cancel_right)

lemma first_slot_first:
  assumes "0 < e"
  shows "is_slot base e (first_slot base e date)" "date < first_slot base e date"
    "first_slot base e date \<le> max base date + e"
    "is_slot base e u \<Longrightarrow> date < u \<Longrightarrow> first_slot base e date \<le> u"
proof -
  let ?d = "(date - base) div e"
  have d: "?d * e \<le> date - base" "date - base < (?d + 1) * e"
    using div_mult_mod_eq[of "date - base" e] pos_mod_sign[OF assms, of "date - base"] pos_mod_bound[OF assms, of "date - base"]
    unfolding distrib_right by linarith+
  have early: "?d < 0 \<longleftrightarrow> date < base" using pos_imp_zdiv_neg_iff[OF assms] by simp
  have pos: "0 < (max 0 ?d + 1) * e" using assms by (intro mult_pos_pos) simp_all
  then show "is_slot base e (first_slot base e date)" by (simp add: is_slot_def first_slot_def)
  show "date < first_slot base e date" "first_slot base e date \<le> max base date + e"
    using d early pos by (cases "?d < 0"; simp add: first_slot_def algebra_simps)+
  assume "is_slot base e u" "date < u"
  moreover from this obtain k where k: "u = base + k * e" unfolding is_slot_def by (metis dvdE mult.commute add_diff_cancel_left' diff_add_cancel add.commute)
  ultimately have u: "0 * e < k * e" "date - base < k * e" unfolding is_slot_def by simp_all
  have "max 0 ?d * e < k * e" using u d(1) by (cases "?d < 0") (simp_all add: max_def)
  from multiple_above[OF assms this] k show "first_slot base e date \<le> u" by (simp add: first_slot_def algebra_simps)
qed


text \<open>A cron parser that knows one expression, once a minute.\<close>

definition minute_cron :: cron_parser where
  "minute_cron =
     \<lparr>cron_parse = (\<lambda>c date. if c = ''* * * * *'' then Inr () else Inl (new_Error ''Invalid cron expression'')),
      cron_next = (\<lambda>c date. Inr ((date div 60000 + 1) * 60000))\<rparr>"

lemma decimal_nearest: "nearest_double decimal_numerics"
  using decimal_exact by (simp add: nearest_double_def decimal_numerics_def)


section \<open>What starting a slot keeps\<close>

lemma wakeCommand_schedules [simp]: "schedules (wakeCommand k at' s) = schedules s"
  by (simp add: wakeCommand_def isDue_def Date_now_def prim_simps split: option.split)

lemma registerRun_schedules [simp]: "schedules (registerRun i r s) = schedules s"
  by (simp add: registerRun_def prim_simps split: option.split RunUniqueScope.split)

lemma createRun_schedules [simp]: "schedules (snd (createRun i s)) = schedules s"
  unfolding snd_createRun createRunWithState_def by (simp add: prim_simps split: option.split RunUniqueBehavior.split)

lemma row_schedules [simp]:
  "schedules (snd (createNode r n k s)) = schedules s"
  "schedules (snd (setNodeInput r n v s)) = schedules s"
  "schedules (snd (ensureNodeChildren r n cs s)) = schedules s"
  "schedules (snd (ensureChildAttempt ca s)) = schedules s"
  by (simp_all add: createNode_def setNodeInput_def ensureNodeChildren_def ensureChildAttempt_def
      createChildAttempt_def insertChildAttempt_def mirrorNodeRunning_def prim_simps split: option.split)

lemma command_schedules [simp]:
  "schedules (dispatchTask c at' s) = schedules s" "schedules (enqueueContinue cc at' s) = schedules s"
  by (simp_all add: dispatchTask_def dispatchAttempt_def enqueueContinue_def queueItem_def prim_simps split: option.split)

lemma same_run_view: "run_view s' = run_view s \<Longrightarrow> runs s' = runs s \<and> runIdempotencyKeys s' = runIdempotencyKeys s"
  by (simp add: view_defs)

lemma row_runs [simp]:
  "run_view (snd (createNode r n k s)) = run_view s" "run_view (snd (setNodeInput r n v s)) = run_view s"
  "run_view (snd (ensureNodeChildren r n cs s)) = run_view s" "run_view (snd (ensureChildAttempt ca s)) = run_view s"
  "run_view (dispatchTask c at' s) = run_view s" "run_view (enqueueContinue cc at' s) = run_view s"
  by (simp_all add: frame_simps dispatchTask_def)

lemma row_commands [simp]:
  "continueRunCommands (snd (createRun i s)) = continueRunCommands s"
  "continueRunCommands (snd (createNode r n k s)) = continueRunCommands s"
  "continueRunCommands (snd (setNodeInput r n v s)) = continueRunCommands s"
  "continueRunCommands (snd (ensureNodeChildren r n cs s)) = continueRunCommands s"
  "continueRunCommands (snd (ensureChildAttempt ca s)) = continueRunCommands s"
  "continueRunCommands (dispatchTask c at' s) = continueRunCommands s"
  by (simp_all add: createNode_def setNodeInput_def ensureNodeChildren_def ensureChildAttempt_def
      createChildAttempt_def insertChildAttempt_def mirrorNodeRunning_def snd_createRun createRunWithState_def registerRun_def
      dispatchTask_def dispatchAttempt_def queueItem_def prim_simps
      split: option.split RunUniqueBehavior.split RunUniqueScope.split)

definition keeps :: "(runtime \<Rightarrow> 'v) \<Rightarrow> 'a op \<Rightarrow> bool" where
  "keeps view m \<longleftrightarrow> (\<forall>s. view (snd (m s)) = view s)"

lemma keeps_await: "keeps view m \<Longrightarrow> (\<And>x. keeps view (k x)) \<Longrightarrow> keeps view (await m k)"
  by (simp add: keeps_def await_def split: prod.split sum.split) (metis snd_conv)

lemma keeps_simps [simp]:
  "keeps view (ret x)" "keeps view (reading f)" "keeps view (doing f') \<longleftrightarrow> (\<forall>s. view (f' s) = view s)"
  "keeps view (total g) \<longleftrightarrow> (\<forall>s. view (snd (g s)) = view s)"
  by (auto simp: keeps_def effect_defs split: prod.splits)

lemma keeps_op: "(\<And>s. view (snd (m s)) = view s) \<Longrightarrow> keeps view m"
  by (simp add: keeps_def)

lemma keepsD: "keeps view m \<Longrightarrow> m s = (x, s') \<Longrightarrow> view s' = view s"
  unfolding keeps_def by (metis snd_conv)

lemma catch_doing [simp]: "catch (doing f) h = doing f"
  by (auto simp: effect_defs)

definition run_rows_and_schedules where
  "run_rows_and_schedules s = (run_view s, schedules s)"

lemma dispatchTaskRunAttempt_keeps:
  "keeps run_rows_and_schedules (dispatchTaskRunAttempt in_memory_deps name r v key timeout at' b)"
  "keeps continueRunCommands (dispatchTaskRunAttempt in_memory_deps name r v key timeout at' b)"
  unfolding dispatchTaskRunAttempt_def dispatchTaskAttempt_def dispatchPreparedAttempt_def in_memory_deps_def
    in_memory_store_def in_memory_attempts_def record_fields catch_doing
  by (auto intro!: keeps_await simp: keeps_op run_rows_and_schedules_def split: prod.split)

text \<open>The second half of \<open>startStoredScheduleRun\<close>: the command of the new run.\<close>

definition slot_command :: "host \<Rightarrow> StoredWorkflowSchedule \<Rightarrow> int \<Rightarrow> string \<Rightarrow> unit op" where
  "slot_command h sch slot runId =
     (if sched_runnableKind sch = TaskRun
      then dispatchTaskRunAttempt in_memory_deps (sched_runnableName sch) runId (sched_input sch)
             (Some (schedule_key h sch slot)) None None True
      else rce_enqueue (runCoordinationExecutor in_memory_deps)
             \<lparr>cont_runId = runId, cont_workflowName = sched_runnableName sch\<rparr>)"

lemma start_schedule_eq:
  "startStoredScheduleRun in_memory_deps sch slot =
     await (reading rt_host) (\<lambda>h. await (createRun (scheduled_run h sch slot)) (\<lambda>r.
     await (slot_command h sch slot (run_id r)) (\<lambda>_. ret r)))"
  unfolding startStoredScheduleRun_def slot_command_def by (simp add: in_memory_deps_def in_memory_store_def)

lemma slot_command_keeps: "keeps run_rows_and_schedules (slot_command h sch slot i)"
proof -
  have "keeps run_rows_and_schedules (rce_enqueue (runCoordinationExecutor in_memory_deps) cmd)" for cmd
    by (simp add: in_memory_deps_def in_memory_coordination_def enqueue_def run_rows_and_schedules_def)
  then show ?thesis by (simp add: slot_command_def dispatchTaskRunAttempt_keeps)
qed

lemma slot_command_queued:
  assumes "slot_command h sch slot i s = (Inr (), s')"
  shows "queued_for r s \<Longrightarrow> queued_for r s'" "sched_runnableKind sch \<noteq> TaskRun \<Longrightarrow> queued_for i s'"
proof -
  have task: "continueRunCommands s' = continueRunCommands s" if "sched_runnableKind sch = TaskRun"
    using that assms keepsD[OF dispatchTaskRunAttempt_keeps(2)] by (simp add: slot_command_def)
  have wf: "s' = enqueueContinue \<lparr>cont_runId = i, cont_workflowName = sched_runnableName sch\<rparr> None s"
    if "sched_runnableKind sch \<noteq> TaskRun"
    using that assms by (simp add: slot_command_def in_memory_deps_def in_memory_coordination_def enqueue_def doing_def)
  show "queued_for r s \<Longrightarrow> queued_for r s'"
    using task wf tidy_enqueue[of s] by (cases "sched_runnableKind sch = TaskRun") (auto simp: queued_for_def tidy_def)
  show "queued_for i s'" if "sched_runnableKind sch \<noteq> TaskRun"
    using wf[OF that] enqueueContinue_queued[of "\<lparr>cont_runId = i, cont_workflowName = sched_runnableName sch\<rparr>" None s]
    by (auto simp: queued_for_def)
qed

lemma slot_command_works: "works (\<lambda>s. known_run s i) (slot_command h sch slot i) anything"
  using in_memory.dispatchTaskRunAttempt_works in_memory.works_enqueue[THEN anywhere] by (simp add: slot_command_def)

lemma scheduled_root: "root_input (scheduled_run h sch slot)"
  by (simp add: root_input_def scheduled_run_def)

lemma schedule_start_returned:
  assumes "startStoredScheduleRun in_memory_deps sch slot s = (Inr r, s')"
  obtains s1 where "createRun (scheduled_run (rt_host s) sch slot) s = (Inr r, s1)"
    "slot_command (rt_host s) sch slot (run_id r) s1 = (Inr (), s')" "runs s' = runs s1" "schedules s' = schedules s"
    "runIdempotencyKeys s' = runIdempotencyKeys s1"
proof -
  obtain s1 where c: "createRun (scheduled_run (rt_host s) sch slot) s = (Inr r, s1)"
      "slot_command (rt_host s) sch slot (run_id r) s1 = (Inr (), s')"
    using assms unfolding start_schedule_eq by (auto elim!: await_returned simp: reading_def)
  have "run_rows_and_schedules s' = run_rows_and_schedules s1" by (rule keepsD[OF slot_command_keeps c(2)])
  moreover have "schedules s1 = schedules s" using createRun_schedules[of "scheduled_run (rt_host s) sch slot" s] c(1) by simp
  ultimately show thesis using that[OF c] by (simp add: run_rows_and_schedules_def view_defs)
qed

lemma slot_command_steps:
  assumes "reachable s" and "createRun (scheduled_run h sch slot) s = (Inr r, s1)"
    and "slot_command h sch slot (run_id r) s1 = (Inr (), s')"
  shows "work_step s s1" "work_step\<^sup>*\<^sup>* s1 s'"
proof -
  show c: "work_step s s1"
    using create_run[OF scheduled_root, of s h sch slot] assms(2) by (metis snd_createRun snd_conv)
  have "known_run s1 (run_id r)" by (rule works_result[OF createRun_works[OF scheduled_root] assms(1) _ assms(2)]) simp
  from works_steps[OF slot_command_works reachable_work[OF assms(1) c] this] assms(3)
  show "work_step\<^sup>*\<^sup>* s1 s'" by (metis snd_conv)
qed

text \<open>
  A slot is started once. However often the run of a slot is started again, after a
  crash between the start and the update of the schedule or by two schedulers at once, the
  run of the first start is returned and no run is created.
\<close>

theorem slot_starts_once:
  assumes "reachable s" and "startStoredScheduleRun in_memory_deps sch slot s = (Inr r, s')" and "map_get (runs s) (run_id r) = None"
    and "step\<^sup>*\<^sup>* s' t" and "map_get (runs t) (run_id r) = Some r'" and "startStoredScheduleRun in_memory_deps sch slot t = (Inr again, t')"
  shows "again = r' \<and> runs t' = runs t"
proof -
  let ?i = "scheduled_run (rt_host s) sch slot"
  obtain s1 where s1: "createRun ?i s = (Inr r, s1)" "slot_command (rt_host s) sch slot (run_id r) s1 = (Inr (), s')"
    by (rule schedule_start_returned[OF assms(2)])
  obtain created where c: "createRunWithState ?i s = (Inr (r, created), s1)"
    using s1(1) by (auto simp: createRun_def split: prod.splits sum.splits)
  have created by (rule new_run_created[OF assms(1) c assms(3)])
  note steps = slot_command_steps[OF assms(1) s1]
  have st: "step\<^sup>*\<^sup>* s1 t" by (rule rtranclp_trans[OF work_steps_steps[OF steps(2)] assms(4)])
  have "rt_host t = rt_host s"
    using later_trans[OF work_step_later[OF steps(1)] steps_later[OF st]] by (simp add: later_def)
  obtain t1 where t1: "createRun ?i t = (Inr again, t1)" "runs t' = runs t1"
    using schedule_start_returned[OF assms(6)] \<open>rt_host t = rt_host s\<close> by metis
  have "cr_idempotencyKey ?i = Some (schedule_key (rt_host s) sch slot)" by (simp add: scheduled_run_def)
  from create_run_again[OF assms(1) scheduled_root this _ st assms(5)] c \<open>created\<close>
  have "createRunWithState ?i t = (Inr (r', False), t)" by simp
  with t1 show ?thesis by (simp add: createRun_def)
qed

definition nightly :: StoredWorkflowSchedule where
  "nightly = \<lparr>sched_id = ''schedule-1'', sched_name = ''nightly'', sched_runnableKind = WorkflowRun, sched_runnableName = ''order'',
     sched_input = JNull, sched_tags = [], sched_cron = Some ''* * * * *'', sched_everyMs = None, sched_enabled = True,
     sched_nextRunAt = Some 700, sched_lastSlotAt = None, sched_createdAt = 1, sched_updatedAt = 1\<rparr>"

theorem slot_starts_once_witness:
  "\<exists>r s'. startStoredScheduleRun in_memory_deps nightly 700 empty_runtime = (Inr r, s')
     \<and> (\<exists>t'. startStoredScheduleRun in_memory_deps nightly 700 s' = (Inr r, t') \<and> runs t' = runs s')"
proof -
  have "\<exists>r s' again t'. startStoredScheduleRun in_memory_deps nightly 700 empty_runtime = (Inr r, s') \<and> run_id r = ''run-1''
      \<and> map_get (runs s') ''run-1'' = Some r \<and> startStoredScheduleRun in_memory_deps nightly 700 s' = (Inr again, t')"
    by (simp add: startStoredScheduleRun_def nightly_def scheduled_run_def schedule_key_def createRun_def runMatchesCreateInput_def sameValue_def in_memory_deps_def in_memory_store_def
        in_memory_coordination_def effect_defs enqueue_def enqueueContinue_def sample_defs sample_eval)
  then obtain r s' again t' where start: "startStoredScheduleRun in_memory_deps nightly 700 empty_runtime = (Inr r, s')" "run_id r = ''run-1''"
      "map_get (runs s') ''run-1'' = Some r" "startStoredScheduleRun in_memory_deps nightly 700 s' = (Inr again, t')"
    by (elim exE conjE)
  have "map_get (runs empty_runtime) (run_id r) = None" by (simp add: sample_defs createInMemoryWorkflowRuntime_def)
  from slot_starts_once[OF reachable_empty start(1) this rtranclp.rtrancl_refl _ start(4)] start show ?thesis by auto
qed

section \<open>Reconciliation\<close>

definition schedules_ok :: "runtime \<Rightarrow> bool" where
  "schedules_ok s \<longleftrightarrow> wf_map (schedules s) \<and> (\<forall>(name, sch) \<in> set (schedules s). sched_name sch = name)"

lemma normalize_names:
  assumes "normalize_from names cp nu defs date = Inr es"
  shows "map nse_name es = map sd_name defs \<and> distinct (map sd_name defs) \<and> set names \<inter> set (map sd_name defs) = {}"
  using assms
proof (induction defs arbitrary: names es)
  case (Cons d defs)
  then obtain e es' where "normalizeScheduleDefinition cp nu d date = Inr e" "normalize_from (sd_name d # names) cp nu defs date = Inr es'"
      "es = e # es'" "sd_name d \<notin> set names"
    by (auto simp: bind_res_def split: if_splits sum.splits)
  moreover from this(1) have "nse_name e = sd_name d"
    by (auto simp: normalizeScheduleDefinition_def bind_res_def split: sum.splits prod.splits)
  ultimately show ?case using Cons.IH by fastforce
qed simp

lemma map_set_keys: "map fst (map_set k v m) = (if k \<in> set (map fst m) then map fst m else map fst m @ [k])"
  by (induction m) auto

lemma set_map_set: "(a, b) \<in> set (map_set k v m) \<Longrightarrow> (a, b) = (k, v) \<or> (a, b) \<in> set m"
  by (induction m) (auto split: if_splits)

lemma schedules_ok_set:
  assumes "schedules_ok s"
  shows "schedules_ok (set_schedule sch s)"
  using assms unfolding schedules_ok_def set_schedule_def
  by (auto simp: map_set_keys dest!: set_map_set)

lemma reconcile_entry_get:
  "\<exists>i. (\<forall>old. map_get (schedules s) (nse_name e) = Some old \<longrightarrow> i = sched_id old)
     \<and> reconcile_entry date e s = set_schedule (reconciled_schedule date e (map_get (schedules s) (nse_name e)) i)
          (case map_get (schedules s) (nse_name e) of None \<Rightarrow> snd (fresh_id ''schedule'' s) | Some _ \<Rightarrow> s)"
  by (cases "map_get (schedules s) (nse_name e)") (auto simp: reconcile_entry_def case_prod_beta)

lemma reconcile_entry_schedules:
  "\<exists>i. (\<forall>old. map_get (schedules s) (nse_name e) = Some old \<longrightarrow> i = sched_id old)
     \<and> schedules (reconcile_entry date e s) = map_set (nse_name e) (reconciled_schedule date e (map_get (schedules s) (nse_name e)) i) (schedules s)"
  using reconcile_entry_get[of s e date]
  by (elim exE conjE) (auto simp: set_schedule_def reconciled_schedule_def split: option.split)

lemma schedules_ok_fresh: "schedules_ok (snd (fresh_id p s)) \<longleftrightarrow> schedules_ok s"
  by (simp add: schedules_ok_def)

text \<open>
  Reconciling a list of distinct entries writes each of them over what was stored before the list.
\<close>

lemma reconcile_entry_keys:
  "fst ` set (schedules (reconcile_entry date e s)) = insert (nse_name e) (fst ` set (schedules s))"
proof -
  obtain sch where sch: "schedules (reconcile_entry date e s) = map_set (nse_name e) sch (schedules s)"
    using reconcile_entry_schedules[of s e date] by (elim exE conjE)
  have "set (map fst (schedules (reconcile_entry date e s))) = insert (nse_name e) (set (map fst (schedules s)))"
    unfolding sch map_set_keys by auto
  then show ?thesis by simp
qed

lemma reconcile_entry_other: "n \<noteq> nse_name e \<Longrightarrow> map_get (schedules (reconcile_entry date e s)) n = map_get (schedules s) n"
  using reconcile_entry_schedules[of s e date] by (elim exE conjE) simp

lemma reconcile_entries_keys:
  "fst ` set (schedules (fold (reconcile_entry date) es s)) = fst ` set (schedules s) \<union> nse_name ` set es"
  by (induction es arbitrary: s) (auto simp: reconcile_entry_keys)

lemma reconcile_entries_other:
  "n \<notin> nse_name ` set es \<Longrightarrow> map_get (schedules (fold (reconcile_entry date) es s)) n = map_get (schedules s) n"
  by (induction es arbitrary: s) (simp_all add: reconcile_entry_other)

lemma reconcile_entries_get:
  assumes "distinct (map nse_name es)" and "e \<in> set es"
  shows "\<exists>i. (\<forall>old. map_get (schedules s) (nse_name e) = Some old \<longrightarrow> i = sched_id old)
    \<and> map_get (schedules (fold (reconcile_entry date) es s)) (nse_name e)
        = Some (reconciled_schedule date e (map_get (schedules s) (nse_name e)) i)"
  using assms
proof (induction es arbitrary: s)
  case (Cons x es)
  show ?case
  proof (cases "e = x")
    case True
    with Cons.prems(1) have "nse_name e \<notin> nse_name ` set es" by simp
    with True reconcile_entry_schedules[of s x date] show ?thesis by (auto simp: reconcile_entries_other)
  next
    case False
    with Cons.prems have "e \<in> set es" "nse_name e \<noteq> nse_name x" by (auto simp: image_iff)
    with Cons.IH[of "reconcile_entry date x s"] Cons.prems(1) show ?thesis by (simp add: reconcile_entry_other)
  qed
qed simp

lemma schedules_ok_entry: "schedules_ok s \<Longrightarrow> schedules_ok (reconcile_entry date e s)"
  using reconcile_entry_get[of s e date]
  by (elim exE conjE) (simp add: schedules_ok_set schedules_ok_fresh split: option.split)

lemma schedules_ok_entries: "schedules_ok s \<Longrightarrow> schedules_ok (fold (reconcile_entry date) es s)"
  by (induction es arbitrary: s) (simp_all add: schedules_ok_entry)

lemma map_get_filter_keys: "map_get (filter (\<lambda>(k, _). k \<in> A) m) k = (if k \<in> A then map_get m k else None)"
  by (induction m) auto

text \<open>
  What a definition \<open>d\<close>, read at \<open>date\<close>, makes of its stored schedule, and the slot it gives a
  schedule that is new or whose cadence starts over.
\<close>

definition stored_as_defined :: "numerics \<Rightarrow> ScheduleDefinition \<Rightarrow> StoredWorkflowSchedule \<Rightarrow> bool" where
  "stored_as_defined nu d sch \<longleftrightarrow> sched_name sch = sd_name d
     \<and> sched_runnableKind sch = sd_runnableKind d \<and> sched_runnableName sch = sd_runnableName d
     \<and> decodeSchemaValue (sd_runnableInput d) (sd_input d) (''schedule input ['' @ sd_name d @ '']'') = Inr (sched_input sch)
     \<and> (case sd_tags d of Some tags \<Rightarrow> sched_tags sch = tags
        | None \<Rightarrow> (\<exists>tags. resolveTags (sd_runnableTags d) (sched_input sch) = Inr tags
                      \<and> sched_tags sch = (case tags of None \<Rightarrow> [] | Some t \<Rightarrow> t)))
     \<and> (sd_cron d = None) \<noteq> (sd_every d = None) \<and> sched_cron sch = sd_cron d
     \<and> sched_everyMs sch = (case sd_every d of None \<Rightarrow> None | Some every \<Rightarrow> parseDurationMs nu (Some every))
     \<and> sched_enabled sch = (sd_enabled d \<noteq> Some False)"

definition starts_over :: "cron_parser \<Rightarrow> numerics \<Rightarrow> int \<Rightarrow> ScheduleDefinition \<Rightarrow> StoredWorkflowSchedule \<Rightarrow> bool" where
  "starts_over cp nu date d sch \<longleftrightarrow>
     (if sd_immediately d = Some True then sched_nextRunAt sch = Some date
      else nextScheduleRunAt cp nu (sched_cron sch) (sched_everyMs sch) date (Some date) = Inr (sched_nextRunAt sch))"

definition keeps_history :: "cron_parser \<Rightarrow> numerics \<Rightarrow> int \<Rightarrow> ScheduleDefinition \<Rightarrow> StoredWorkflowSchedule \<Rightarrow> StoredWorkflowSchedule \<Rightarrow> bool" where
  "keeps_history cp nu date d old sch \<longleftrightarrow> sched_id sch = sched_id old
     \<and> sched_createdAt sch = sched_createdAt old \<and> sched_lastSlotAt sch = sched_lastSlotAt old
     \<and> (if sched_cron sch = sched_cron old \<and> sched_everyMs sch = sched_everyMs old
           \<and> (sched_enabled sch \<and> \<not> sched_enabled old \<longrightarrow> \<not> date_le (sched_nextRunAt old) date)
        then sched_nextRunAt sch = sched_nextRunAt old else starts_over cp nu date d sch)"

lemma reconciled_fields [simp]:
  "sched_updatedAt (reconciled_schedule date e old i) = date"
  "sched_createdAt (reconciled_schedule date e None i) = date" "sched_lastSlotAt (reconciled_schedule date e None i) = None"
  by (simp_all add: reconciled_schedule_def)

lemma normalized_cadence:
  assumes "normalizeScheduleCadence cp nu d = Inr (cron, everyMs)"
  shows "(sd_cron d = None) \<noteq> (sd_every d = None) \<and> cron = sd_cron d
    \<and> everyMs = (case sd_every d of None \<Rightarrow> None | Some every \<Rightarrow> parseDurationMs nu (Some every))"
  using assms by (auto simp: normalizeScheduleCadence_def split: if_splits option.splits sum.splits)

lemma normalized_definition:
  assumes "normalizeScheduleDefinition cp nu d date = Inr e"
  shows "stored_as_defined nu d (reconciled_schedule date e old i)"
    and "shouldResetNextRunAt old e date \<Longrightarrow> starts_over cp nu date d (reconciled_schedule date e old i)"
proof -
  obtain cron everyMs v at' tags where n: "normalizeScheduleCadence cp nu d = Inr (cron, everyMs)" "decodeScheduleInput d = Inr v"
      "(if sd_immediately d = Some True then Inr (Some date) else nextScheduleRunAt cp nu cron everyMs date (Some date)) = Inr at'"
      "(case sd_tags d of Some tags \<Rightarrow> Inr tags
        | None \<Rightarrow> map_sum id (\<lambda>tags. case tags of None \<Rightarrow> [] | Some t \<Rightarrow> t) (resolveTags (sd_runnableTags d) v)) = Inr tags"
      "e = \<lparr>nse_name = sd_name d, nse_runnableKind = sd_runnableKind d, nse_runnableName = sd_runnableName d, nse_input = v,
         nse_tags = tags, nse_cron = cron, nse_everyMs = everyMs,
         nse_enabled = (case sd_enabled d of None \<Rightarrow> True | Some b \<Rightarrow> b), nse_nextRunAt = at'\<rparr>"
    using assms unfolding normalizeScheduleDefinition_def bind_res_def by (auto split: sum.splits prod.splits)
  note cadence = normalized_cadence[OF n(1)]
  have v: "decodeSchemaValue (sd_runnableInput d) (sd_input d) (''schedule input ['' @ sd_name d @ '']'') = Inr v"
    using n(2) by (auto simp: decodeScheduleInput_def split: sum.splits)
  have tags: "case sd_tags d of Some t \<Rightarrow> tags = t
      | None \<Rightarrow> (\<exists>t. resolveTags (sd_runnableTags d) v = Inr t \<and> tags = (case t of None \<Rightarrow> [] | Some t \<Rightarrow> t))"
    using n(4) by (auto simp: map_sum_def split: option.splits sum.splits)
  show "stored_as_defined nu d (reconciled_schedule date e old i)"
    unfolding stored_as_defined_def reconciled_schedule_def n(5) using cadence v tags
    by (auto split: option.splits)
  show "starts_over cp nu date d (reconciled_schedule date e old i)" if "shouldResetNextRunAt old e date"
    using that n(3) by (simp add: starts_over_def reconciled_schedule_def n(5) split: if_splits)
qed

lemma reconciled_history:
  assumes "normalizeScheduleDefinition cp nu d date = Inr e"
  shows "keeps_history cp nu date d old (reconciled_schedule date e (Some old) (sched_id old))"
proof (cases "shouldResetNextRunAt (Some old) e date")
  case True
  from normalized_definition(2)[OF assms this] True show ?thesis
    by (auto simp: keeps_history_def reconciled_schedule_def shouldResetNextRunAt_def)
next
  case False
  then show ?thesis by (auto simp: keeps_history_def reconciled_schedule_def shouldResetNextRunAt_def)
qed

lemma normalize_entries:
  assumes "normalize_from names cp nu defs date = Inr es"
  shows "\<forall>d \<in> set defs. \<exists>e \<in> set es. normalizeScheduleDefinition cp nu d date = Inr e"
  using assms by (induction defs arbitrary: names es) (fastforce simp: bind_res_def split: if_splits sum.splits)+

lemma reconcile_cases:
  obtains (failed) e where "reconcile cp entries s = (Inl e, snd (now s))"
  | (installed) es where "reconcile cp entries s =
      (Inr (), fold (reconcile_entry (fst (now s))) es
        ((snd (now s))\<lparr>schedules := filter (\<lambda>(n, _). n \<in> set (map sd_name entries)) (schedules s)\<rparr>))"
      "map nse_name es = map sd_name entries" "distinct (map nse_name es)"
      "\<forall>d \<in> set entries. \<exists>e \<in> set es. normalizeScheduleDefinition cp (nums (rt_host s)) d (fst (now s)) = Inr e"
proof (cases "normalizeScheduleDefinitions cp (nums (rt_host s)) entries (fst (now s))")
  case (Inl e)
  then show thesis by (intro failed) (simp add: reconcile_def case_prod_beta)
next
  case (Inr es)
  note run = Inr[unfolded normalizeScheduleDefinitions_def]
  from normalize_names[OF run] have names: "map nse_name es = map sd_name entries" "distinct (map nse_name es)" by argo+
  show thesis
    by (rule installed[OF _ names normalize_entries[OF run]]) (simp add: Inr names(1)[symmetric] reconcile_def case_prod_beta Let_def)
qed

text \<open>
  C29: reconciling is all or nothing, installs the definitions and keeps the cadence. When the
  definitions are refused no schedule changes. Otherwise the stored schedules are exactly the
  defined ones, each with the runnable, the decoded input, the tags, the cadence and the enabled
  flag of its definition. A new one starts at the slot its definition gives. One that was stored
  before keeps its identifier, its creation date and its last slot, and it keeps its next
  slot unless its cadence changed or it was enabled again with its slot in the past, so a
  redeployment neither delays nor repeats a slot.
\<close>

theorem reconcile_keeps_cadence:
  assumes "schedules_ok s" and "reconcile cp entries s = (result, s')" and "nu = nums (rt_host s)" and "date = fst (now s)"
  shows "case result of
      Inl e \<Rightarrow> schedules s' = schedules s
    | Inr _ \<Rightarrow> schedules_ok s' \<and> set (map fst (schedules s')) = sd_name ` set entries \<and> distinct (map sd_name entries)
        \<and> (\<forall>d \<in> set entries. \<exists>sch. map_get (schedules s') (sd_name d) = Some sch \<and> stored_as_defined nu d sch
             \<and> sched_updatedAt sch = date
             \<and> (case map_get (schedules s) (sd_name d) of
                  None \<Rightarrow> sched_createdAt sch = date \<and> sched_lastSlotAt sch = None \<and> starts_over cp nu date d sch
                | Some old \<Rightarrow> keeps_history cp nu date d old sch))"
proof (cases rule: reconcile_cases[of cp entries s])
  case (failed e)
  with assms(2) show ?thesis by auto
next
  case (installed es)
  let ?s = "(snd (now s))\<lparr>schedules := filter (\<lambda>(n, _). n \<in> set (map sd_name entries)) (schedules s)\<rparr>"
  have s': "result = Inr ()" "s' = fold (reconcile_entry date) es ?s" using installed(1) assms(2,4) by simp_all
  have names: "nse_name ` set es = sd_name ` set entries" using arg_cong[OF installed(2), of set] by simp
  have ok: "schedules_ok ?s" using assms(1) by (auto simp: schedules_ok_def distinct_map_filter)
  have keys: "set (map fst (schedules s')) = sd_name ` set entries"
    by (auto simp: s'(2) reconcile_entries_keys names)
  have stored: "\<exists>sch. map_get (schedules s') (sd_name d) = Some sch \<and> stored_as_defined nu d sch \<and> sched_updatedAt sch = date
      \<and> (case map_get (schedules s) (sd_name d) of
           None \<Rightarrow> sched_createdAt sch = date \<and> sched_lastSlotAt sch = None \<and> starts_over cp nu date d sch
         | Some old \<Rightarrow> keeps_history cp nu date d old sch)"
    if d: "d \<in> set entries" for d
  proof -
    obtain e where e: "e \<in> set es" "normalizeScheduleDefinition cp nu d date = Inr e"
      using installed(4) d unfolding assms(3,4) by blast
    have name: "nse_name e = sd_name d" using normalized_definition(1)[OF e(2)] by (simp add: stored_as_defined_def reconciled_schedule_def)
    have get: "map_get (schedules ?s) (sd_name d) = map_get (schedules s) (sd_name d)" using d by (simp add: map_get_filter_keys)
    obtain i where i: "\<forall>old. map_get (schedules s) (sd_name d) = Some old \<longrightarrow> i = sched_id old"
        "map_get (schedules s') (sd_name d) = Some (reconciled_schedule date e (map_get (schedules s) (sd_name d)) i)"
      using reconcile_entries_get[OF installed(3) e(1), of ?s date] unfolding s'(2) name get by blast
    show ?thesis
    proof (cases "map_get (schedules s) (sd_name d)")
      case None
      then have "starts_over cp nu date d (reconciled_schedule date e None i)"
        by (intro normalized_definition(2)[OF e(2)]) (simp add: shouldResetNextRunAt_def)
      with None i(2) normalized_definition(1)[OF e(2)] show ?thesis by simp
    next
      case (Some old)
      with i reconciled_history[OF e(2)] normalized_definition(1)[OF e(2)] show ?thesis by simp
    qed
  qed
  have "schedules_ok s'" unfolding s'(2) by (rule schedules_ok_entries[OF ok])
  moreover have "distinct (map sd_name entries)" using installed(2,3) by metis
  ultimately show ?thesis unfolding s'(1) sum.case using keys stored by blast
qed

definition nightly_definition :: ScheduleDefinition where
  "nightly_definition = \<lparr>sd_name = ''nightly'', sd_runnableKind = WorkflowRun, sd_runnableName = ''order'', sd_runnableInput = Inr,
     sd_runnableTags = NoTags, sd_input = JNull, sd_cron = Some ''* * * * *'', sd_every = None, sd_tags = None,
     sd_enabled = None, sd_immediately = None\<rparr>"

definition nightly_runtime :: runtime where
  "nightly_runtime = empty_runtime\<lparr>schedules := [(''nightly'', nightly)]\<rparr>"

lemma nightly_ok: "schedules_ok nightly_runtime"
  by (simp add: schedules_ok_def nightly_runtime_def nightly_def)

lemma reachable_nightly: "reachable nightly_runtime"
  unfolding nightly_runtime_def by (rule reachable_work[OF reachable_empty write_schedules])

theorem reconcile_keeps_cadence_witness:
  "\<exists>s' sch. reconcile minute_cron [nightly_definition] nightly_runtime = (Inr (), s')
     \<and> map_get (schedules s') ''nightly'' = Some sch \<and> stored_as_defined (nums sample_host) nightly_definition sch
     \<and> sched_id sch = ''schedule-1'' \<and> sched_nextRunAt sch = Some 700"
proof -
  have "\<exists>s'. reconcile minute_cron [nightly_definition] nightly_runtime = (Inr (), s')"
    by (simp add: reconcile_def nightly_runtime_def nightly_definition_def nightly_def minute_cron_def normalizeScheduleDefinitions_def
        normalizeScheduleDefinition_def normalizeScheduleCadence_def decodeScheduleInput_def decodeSchemaValue_def nextScheduleRunAt_def
        resolveTags_def bind_res_def reconcile_entry_def reconciled_schedule_def set_schedule_def sample_defs sample_eval)
  then obtain s' where r: "reconcile minute_cron [nightly_definition] nightly_runtime = (Inr (), s')" by (elim exE)
  have host: "nums sample_host = nums (rt_host nightly_runtime)"
    by (simp add: nightly_runtime_def sample_defs createInMemoryWorkflowRuntime_def)
  from reconcile_keeps_cadence[OF nightly_ok r host refl] obtain sch where
    sch: "map_get (schedules s') ''nightly'' = Some sch" "stored_as_defined (nums sample_host) nightly_definition sch"
      "keeps_history minute_cron (nums sample_host) (fst (now nightly_runtime)) nightly_definition nightly sch"
    by (auto simp: nightly_runtime_def nightly_definition_def)
  then have "sched_cron sch = Some ''* * * * *''" "sched_everyMs sch = None" "sched_enabled sch"
    by (auto simp: stored_as_defined_def nightly_definition_def)
  with sch(3) have "sched_id sch = ''schedule-1'' \<and> sched_nextRunAt sch = Some 700" by (simp add: keeps_history_def nightly_def)
  with r sch show ?thesis by blast
qed

section \<open>Firing\<close>

lemma due_stored:
  assumes "schedules_ok s" and "sch \<in> set (dueSchedules date limit s)"
  shows "map_get (schedules s) (sched_name sch) = Some sch \<and> sched_enabled sch \<and> date_le (sched_nextRunAt sch) date"
proof -
  have "sch \<in> set (map_values (schedules s))" "sched_enabled sch" "date_le (sched_nextRunAt sch) date"
    using assms(2) by (auto simp: dueSchedules_def dest!: in_set_takeD)
  moreover from this obtain name where "(name, sch) \<in> set (schedules s)" by auto
  ultimately show ?thesis using assms(1) by (auto simp: schedules_ok_def map_of_eq_Some_iff)
qed

lemma due_distinct:
  assumes "schedules_ok s"
  shows "distinct (map sched_name (dueSchedules date limit s))"
proof -
  have "map sched_name (map_values (schedules s)) = map fst (schedules s)"
    using assms by (auto simp: schedules_ok_def)
  then have "distinct (map sched_name (map_values (schedules s)))"
    using assms unfolding schedules_ok_def by (simp only:)
  then have "distinct (map sched_name (filter (\<lambda>sch. sched_enabled sch \<and> date_le (sched_nextRunAt sch) date) (map_values (schedules s))))"
    by (rule distinct_map_filter)
  then have "distinct (map sched_name (sort_by (compareSchedulesByDueDate (rt_host s))
      (filter (\<lambda>sch. sched_enabled sch \<and> date_le (sched_nextRunAt sch) date) (map_values (schedules s)))))"
    by (metis mset_sort_by mset_map mset_eq_imp_distinct_iff)
  then show ?thesis by (simp add: dueSchedules_def take_map[symmetric] distinct_take)
qed

lemma createRun_keeps_runs:
  assumes "reachable s" and "createRun i s = (Inr r, s')" and "map_get (runs s) k = Some q"
  shows "map_get (runs s') k = Some q"
proof -
  obtain created where res: "createRunWithState i s = (Inr (r, created), s')"
    using assms(2) by (auto simp: createRun_def split: prod.splits sum.splits)
  show ?thesis
  proof (cases "may_create i s")
    case True
    have "k \<noteq> mk_id ''run'' (nextId s)" using stored_run_known[OF assms(1,3)] by auto
    with True res assms(3) show ?thesis by (auto simp: createRunWithState_new after_create_def created_run_def)
  next
    case False
    then show ?thesis using createRunWithState_old_run[OF False res] assms(3) by auto
  qed
qed

lemma createRun_matches:
  assumes "createRun i s = (Inr r, s')" and "cr_unique i = None" and "root_input i"
  shows "runMatchesCreateInput (rt_host s) r i"
proof (cases "may_create i s")
  case True
  with assms(1,3) show ?thesis
    by (auto simp: createRun_def createRunWithState_new runMatchesCreateInput_def created_run_def newRun_def root_input_def sameValue_def)
next
  case False
  with assms(1,2) show ?thesis
    by (auto simp: createRun_def createRunWithState_def may_create_def split: option.splits if_splits)
qed

lemma createRun_registers:
  assumes "reachable s" and "createRun i s = (Inr r, s')" and "cr_unique i = None" and "cr_idempotencyKey i = Some key"
  shows "map_get (runIdempotencyKeys s') (valueKey (rt_host s) (JArr key)) = Some (run_id r)"
proof (cases "may_create i s")
  case True
  with assms(2,4) show ?thesis
    by (auto simp: createRun_def createRunWithState_new after_create_def created_run_def runIdempotencyKey_def)
next
  case False
  then obtain k where "map_get (runIdempotencyKeys s) (valueKey (rt_host s) (JArr key)) = Some k" "map_get (runs s) k = Some r" "s' = s"
    using assms(2-4)
    by (auto simp: createRun_def createRunWithState_def may_create_def runIdempotencyKey_def truthy_def split: option.splits if_splits)
  with stored_run_known[OF assms(1)] show ?thesis using run_inv_row[OF run_invariant.holds[OF assms(1)]] by (auto simp: run_row_ok_def)
qed

lemma createRun_keeps_index:
  assumes "reachable s" and "createRun i s = (Inr r, s')" and "map_get (runIdempotencyKeys s) k = Some j"
  shows "map_get (runIdempotencyKeys s') k = Some j"
proof -
  obtain created where res: "createRunWithState i s = (Inr (r, created), s')"
    using assms(2) by (auto simp: createRun_def split: prod.splits sum.splits)
  show ?thesis
  proof (cases "may_create i s")
    case True
    have "map_get (runs s) j \<noteq> None" using run_invariant.holds[OF assms(1)] assms(3) unfolding run_inv_def by blast
    then have "truthy (Some j) = Some j" using stored_run_known[OF assms(1)] truthy_known by blast
    with True res assms(3) show ?thesis
      by (auto simp: createRunWithState_new after_create_def may_create_def split: option.splits)
  next
    case False
    then show ?thesis using createRunWithState_old_run[OF False res] assms(3) by auto
  qed
qed

text \<open>
  A schedule was fired: it remembers its slot and moved on to the next one, the store has a run
  of its runnable and input under the idempotency key of that slot, and a workflow has a
  continue command waiting.
\<close>

definition fired_schedule :: "cron_parser \<Rightarrow> int \<Rightarrow> host \<Rightarrow> runtime \<Rightarrow> StoredWorkflowSchedule \<Rightarrow> bool" where
  "fired_schedule cp date h s sch \<longleftrightarrow>
     (\<exists>nextRunAt u. nextStoredScheduleRunAt cp (nums h) sch date = Inr nextRunAt
        \<and> map_get (schedules s) (sched_name sch) =
            Some (sch\<lparr>sched_lastSlotAt := sched_nextRunAt sch, sched_nextRunAt := nextRunAt, sched_updatedAt := u\<rparr>))
     \<and> (\<exists>r. map_get (runIdempotencyKeys s)
              (valueKey h (JArr [JStr ''$schedule'', JStr (sched_name sch), JStr (toISOString h (the (sched_nextRunAt sch)))]))
              = Some (run_id r)
          \<and> map_get (runs s) (run_id r) = Some r \<and> run_kind r = sched_runnableKind sch \<and> run_name r = sched_runnableName sch
          \<and> run_parentRunId r = None \<and> sameValue h (run_input r) (sched_input sch)
          \<and> (sched_runnableKind sch \<noteq> TaskRun \<longrightarrow> queued_for (run_id r) s))"

definition slots_kept :: "runtime \<Rightarrow> runtime \<Rightarrow> bool" where
  "slots_kept s s' \<longleftrightarrow> (\<forall>k q. map_get (runs s) k = Some q \<longrightarrow> map_get (runs s') k = Some q)
     \<and> (\<forall>k j. map_get (runIdempotencyKeys s) k = Some j \<longrightarrow> map_get (runIdempotencyKeys s') k = Some j)
     \<and> (\<forall>r. queued_for r s \<longrightarrow> queued_for r s')"

lemma slots_kept_trans: "slots_kept s t \<Longrightarrow> slots_kept t u \<Longrightarrow> slots_kept s u"
  by (simp add: slots_kept_def)

lemma fired_schedule_kept:
  assumes "fired_schedule cp date h s sch" and "slots_kept s t"
    and "map_get (schedules t) (sched_name sch) = map_get (schedules s) (sched_name sch)"
  shows "fired_schedule cp date h t sch"
proof -
  from assms(1) obtain r where "map_get (runIdempotencyKeys s)
        (valueKey h (JArr [JStr ''$schedule'', JStr (sched_name sch), JStr (toISOString h (the (sched_nextRunAt sch)))])) = Some (run_id r)"
      "map_get (runs s) (run_id r) = Some r" "run_kind r = sched_runnableKind sch \<and> run_name r = sched_runnableName sch
        \<and> run_parentRunId r = None \<and> sameValue h (run_input r) (sched_input sch)"
      "sched_runnableKind sch \<noteq> TaskRun \<longrightarrow> queued_for (run_id r) s"
    unfolding fired_schedule_def by blast
  with assms(2) show ?thesis
    using assms(1) unfolding fired_schedule_def assms(3) slots_kept_def by (intro conjI exI[of _ r]; blast)
qed

lemma fire_schedule_returned:
  assumes "reachable s" and "fire_schedule cp date sch s = (Inr (), s')"
  shows "fired_schedule cp date (rt_host s) s' sch"
    and "schedules_ok s \<Longrightarrow> schedules_ok s'" and "name \<noteq> sched_name sch \<Longrightarrow> map_get (schedules s') name = map_get (schedules s) name"
    and "work_step\<^sup>*\<^sup>* s s'" and "slots_kept s s'"
proof -
  let ?slot = "the (sched_nextRunAt sch)"
  obtain r s1 nextRunAt where
    start: "startStoredScheduleRun in_memory_deps sch ?slot s = (Inr r, s1)" and
    n: "nextStoredScheduleRunAt cp (nums (rt_host s)) sch date = Inr nextRunAt" and
    s': "s' = set_schedule (sch\<lparr>sched_lastSlotAt := sched_nextRunAt sch, sched_nextRunAt := nextRunAt,
                sched_updatedAt := fst (now s1)\<rparr>) (snd (now s1))"
    using assms(2) unfolding fire_schedule_def
    by (auto elim!: await_returned simp: total_def doing_def pureRes_def case_prod_beta split: sum.splits)
  obtain s0 where s0: "createRun (scheduled_run (rt_host s) sch ?slot) s = (Inr r, s0)"
      "slot_command (rt_host s) sch ?slot (run_id r) s0 = (Inr (), s1)" "runs s1 = runs s0" "schedules s1 = schedules s"
      "runIdempotencyKeys s1 = runIdempotencyKeys s0"
    by (rule schedule_start_returned[OF start])
  have rows: "runs s' = runs s0" "runIdempotencyKeys s' = runIdempotencyKeys s0" "continueRunCommands s' = continueRunCommands s1"
    by (simp_all add: s' s0(3,5) set_schedule_def)
  have queued: "queued_for i s' = queued_for i s1" for i by (simp add: queued_for_def rows(3))
  have created: "runMatchesCreateInput (rt_host s) r (scheduled_run (rt_host s) sch ?slot)"
    by (rule createRun_matches[OF s0(1) _ scheduled_root]) (simp add: scheduled_run_def)
  have "map_get (runIdempotencyKeys s0) (valueKey (rt_host s)
      (JArr [JStr ''$schedule'', JStr (sched_name sch), JStr (toISOString (rt_host s) ?slot)])) = Some (run_id r)"
    by (rule createRun_registers[OF assms(1) s0(1)]) (simp_all add: scheduled_run_def schedule_key_def)
  then have slot: "map_get (runIdempotencyKeys s') (valueKey (rt_host s)
      (JArr [JStr ''$schedule'', JStr (sched_name sch), JStr (toISOString (rt_host s) ?slot)])) = Some (run_id r)" by (simp only: rows)
  have "run_kind r = sched_runnableKind sch \<and> run_name r = sched_runnableName sch \<and> run_parentRunId r = None
      \<and> sameValue (rt_host s) (run_input r) (sched_input sch)"
    using created by (simp add: runMatchesCreateInput_def scheduled_run_def run_kind_of_def runnableName_def)
  moreover have "map_get (runs s') (run_id r) = Some r" using created_run_stored[OF assms(1) s0(1)] rows by simp
  moreover have "sched_runnableKind sch \<noteq> TaskRun \<longrightarrow> queued_for (run_id r) s'"
    using slot_command_queued(2)[OF s0(2)] queued by blast
  moreover have "schedules s' = map_set (sched_name sch) (sch\<lparr>sched_lastSlotAt := sched_nextRunAt sch,
      sched_nextRunAt := nextRunAt, sched_updatedAt := fst (now s1)\<rparr>) (schedules s)" by (simp add: s' set_schedule_def s0(4))
  ultimately show "fired_schedule cp date (rt_host s) s' sch"
    unfolding fired_schedule_def using n slot by (intro conjI exI[of _ r]) auto
  have "schedules_ok (snd (now s1)) = schedules_ok s" by (simp add: schedules_ok_def s0(4))
  then show "schedules_ok s \<Longrightarrow> schedules_ok s'" unfolding s' by (intro schedules_ok_set) simp
  show "name \<noteq> sched_name sch \<Longrightarrow> map_get (schedules s') name = map_get (schedules s) name"
    by (simp add: s' set_schedule_def s0(4))
  have "work_step\<^sup>*\<^sup>* s s1" by (rule converse_rtranclp_into_rtranclp[OF slot_command_steps[OF assms(1) s0(1,2)]])
  moreover have "work_step s1 (snd (now s1))" by (rule clock_now)
  moreover have "work_step (snd (now s1)) s'" unfolding s' set_schedule_def by (rule write_schedules)
  ultimately show "work_step\<^sup>*\<^sup>* s s'" by (meson rtranclp.rtrancl_into_rtrancl)
  have "continueRunCommands s0 = continueRunCommands s"
    using row_commands(1)[of "scheduled_run (rt_host s) sch ?slot" s] s0(1) by simp
  then have "queued_for i s \<Longrightarrow> queued_for i s'" for i
    using slot_command_queued(1)[OF s0(2), of i] queued by (simp add: queued_for_def)
  then show "slots_kept s s'"
    using createRun_keeps_runs[OF assms(1) s0(1)] createRun_keeps_index[OF assms(1) s0(1)] by (simp add: slots_kept_def rows(1,2))
qed

lemma fire_each_returned:
  assumes "reachable s" and "each xs (fire_schedule cp date) s = (Inr (), s')" and "distinct (map sched_name xs)"
  shows "(\<forall>sch \<in> set xs. fired_schedule cp date (rt_host s) s' sch) \<and> (schedules_ok s \<longrightarrow> schedules_ok s')
    \<and> (\<forall>name. name \<notin> sched_name ` set xs \<longrightarrow> map_get (schedules s') name = map_get (schedules s) name)
    \<and> slots_kept s s'"
  using assms
proof (induction xs arbitrary: s)
  case (Cons x xs)
  from Cons.prems(2) obtain s1 where s1: "fire_schedule cp date x s = (Inr (), s1)" "each xs (fire_schedule cp date) s1 = (Inr (), s')"
    by (auto elim!: await_returned)
  note fired = fire_schedule_returned[OF Cons.prems(1) s1(1)]
  have rest: "(\<forall>sch \<in> set xs. fired_schedule cp date (rt_host s1) s' sch) \<and> (schedules_ok s1 \<longrightarrow> schedules_ok s')
    \<and> (\<forall>name. name \<notin> sched_name ` set xs \<longrightarrow> map_get (schedules s') name = map_get (schedules s1) name)
    \<and> slots_kept s1 s'"
    using Cons.prems(3) by (intro Cons.IH[OF work_steps_reachable[OF fired(4) Cons.prems(1)] s1(2)]) simp
  have host: "rt_host s1 = rt_host s" using steps_later[OF work_steps_steps[OF fired(4)]] by (simp add: later_def)
  have "sched_name x \<notin> sched_name ` set xs" using Cons.prems(3) by simp
  with rest have "map_get (schedules s') (sched_name x) = map_get (schedules s1) (sched_name x)" by blast
  with rest fired(1) have x: "fired_schedule cp date (rt_host s) s' x" by (blast intro: fired_schedule_kept)
  have "\<forall>name. name \<notin> sched_name ` set (x # xs) \<longrightarrow> map_get (schedules s') name = map_get (schedules s) name"
    using rest fired(3) by simp
  moreover have "slots_kept s s'" using rest fired(5) by (blast intro: slots_kept_trans)
  ultimately show ?case using x rest fired(2) host by simp
qed (simp add: slots_kept_def)



end
