(* ===== verification/Advance.thy ===== *)
theory Advance
  imports Coordinator
begin

text \<open>
  The interpreter of workflows: \<open>children.ts\<close>, \<open>advance.ts\<close> and \<open>dispatch/*.ts\<close> of
  \<open>runtime/coordinator\<close>. One pass looks for the first node without an output, dispatches it and,
  when it turns out to be complete, goes on with the next one; the recursive call is an
  argument of the dispatch functions, as it is in the source (\<open>AdvanceCtx.advance\<close>). The cases of
  a node are listed in the order of \<open>Object.entries\<close>; a case key is a name of its own, none
  that every object inherits.
\<close>

section \<open>The context of a pass\<close>

datatype AdvanceOutcome = Local | Parked | Terminal

record 'ctx AdvanceCtx =
  ac_deps :: RuntimeDeps
  ac_workflow :: "'ctx WorkflowImplementation"
  ac_workflowCtx :: 'ctx
  ac_run :: StoredRun
  ac_outputs :: outputs

type_synonym 'ctx advance = "'ctx AdvanceCtx \<Rightarrow> AdvanceOutcome op"

abbreviation ac_store :: "'ctx AdvanceCtx \<Rightarrow> WorkflowStore" where
  "ac_store input \<equiv> store (ac_deps input)"

abbreviation ac_runId :: "'ctx AdvanceCtx \<Rightarrow> string" where
  "ac_runId input \<equiv> run_id (ac_run input)"

abbreviation ac_workflowName :: "'ctx AdvanceCtx \<Rightarrow> string" where
  "ac_workflowName input \<equiv> wd_name (wi_workflow (ac_workflow input))"

text \<open>The arguments of the callbacks of a node: \<open>(workflowCtx, outputs, run.input)\<close>.\<close>

definition callback_args :: "'ctx AdvanceCtx \<Rightarrow> 'ctx node_args" where
  "callback_args input = (ac_workflowCtx input, ac_outputs input, run_input (ac_run input))"

definition with_output :: "'ctx AdvanceCtx \<Rightarrow> string \<Rightarrow> jsval \<Rightarrow> 'ctx AdvanceCtx" where
  "with_output input nodeName output = input\<lparr>ac_outputs := map_set nodeName output (ac_outputs input)\<rparr>"

section \<open>Small idioms\<close>

definition or_undefined :: "jsval option \<Rightarrow> jsval" where
  "or_undefined v = (case v of None \<Rightarrow> JUndefined | Some x \<Rightarrow> x)"

text \<open>\<open>left ?? right\<close>, for values and for a stored error against a new one.\<close>

definition nullish_or :: "jsval \<Rightarrow> jsval \<Rightarrow> jsval" where
  "nullish_or left right = (if left = JUndefined \<or> left = JNull then right else left)"

definition error_or :: "jsval option \<Rightarrow> string \<Rightarrow> thrown" where
  "error_or error message =
     (case error of
        Some v \<Rightarrow> if v = JNull \<or> v = JUndefined then new_Error message else Plain v
      | None \<Rightarrow> new_Error message)"

definition option_or :: "'a option \<Rightarrow> 'a option \<Rightarrow> 'a option" where
  "option_or left right = (case left of None \<Rightarrow> right | Some x \<Rightarrow> Some x)"

definition runStatus_string :: "RuntimeRunStatus \<Rightarrow> string" where
  "runStatus_string status =
     (case status of
        RQueued \<Rightarrow> ''queued'' | RRunning \<Rightarrow> ''running'' | RWaiting \<Rightarrow> ''waiting'' | RCancelling \<Rightarrow> ''cancelling''
      | RCompleted \<Rightarrow> ''completed'' | RFailed \<Rightarrow> ''failed'' | RCancelled \<Rightarrow> ''cancelled'')"

definition childKind :: "RunKind \<Rightarrow> NodeChildKind" where
  "childKind kind = (case kind of WorkflowRun \<Rightarrow> WorkflowChild | TaskRun \<Rightarrow> TaskChild)"

text \<open>\<open>new Map(xs.map((x) => [key(x), x]))\<close>: the last of equal keys wins.\<close>

definition index_by :: "('a \<Rightarrow> string) \<Rightarrow> 'a list \<Rightarrow> (string \<times> 'a) list" where
  "index_by key xs = fold (\<lambda>x m. map_set (key x) x m) xs []"

text \<open>\<open>xs[i] = x\<close> of a growing array, whose holes are \<open>None\<close>.\<close>

definition array_set :: "nat \<Rightarrow> 'a \<Rightarrow> 'a option list \<Rightarrow> 'a option list" where
  "array_set i x xs = (xs @ replicate (Suc i - length xs) None)[i := Some x]"

text \<open>The optional \<open>input\<close> callback of a node or case, else the input of the run.\<close>

definition callback_input :: "'ctx AdvanceCtx \<Rightarrow> ('ctx node_args \<Rightarrow> thrown + jsval) option \<Rightarrow> jsval res" where
  "callback_input input callback =
     (case callback of
        Some f \<Rightarrow> runWorkflowUserCallback (f (callback_args input))
      | None \<Rightarrow> Inr (run_input (ac_run input)))"

definition stored_or_callback_input ::
  "'ctx AdvanceCtx \<Rightarrow> StoredNode \<Rightarrow> ('ctx node_args \<Rightarrow> thrown + jsval) option \<Rightarrow> jsval res" where
  "stored_or_callback_input input existing callback =
     (case node_input existing of Some v \<Rightarrow> Inr v | None \<Rightarrow> callback_input input callback)"

text \<open>The \<open>prepareAttempt\<close> closures.\<close>

definition prepareChildAttempt ::
  "'ctx AdvanceCtx \<Rightarrow> string \<Rightarrow> string \<Rightarrow> jsval \<Rightarrow> jsval list option res \<Rightarrow> (StoredAttempt \<times> jsval \<times> bool) op" where
  "prepareChildAttempt input nodeName key nodeInput idempotencyKey =
     await (pureRes idempotencyKey) (\<lambda>idempotencyKey.
     await (st_ensureChildAttempt (ac_store input)
              \<lparr>ca_runId = ac_runId input, ca_nodeName = nodeName, ca_childKey = key,
               ca_input = nodeInput, ca_idempotencyKey = idempotencyKey\<rparr>) (\<lambda>(attempt, created).
     ret (attempt, if created then nodeInput else attempt_input attempt, created)))"

definition node_child :: "string \<Rightarrow> NodeChildKind \<Rightarrow> EnsureNodeChildInput" where
  "node_child key kind =
     \<lparr>ec_childKey = key, ec_kind = kind, ec_ordinal = None, ec_itemKey = None, ec_item = None\<rparr>"

section \<open>Child runs\<close>

text \<open>What \<open>dispatchChildTaskRun\<close> and \<open>dispatchChildWorkflow\<close> do with a child run that ended.\<close>

definition settledChildRun ::
  "'ctx advance \<Rightarrow> 'ctx AdvanceCtx \<Rightarrow> string \<Rightarrow> string \<Rightarrow> StoredRun \<Rightarrow> string \<Rightarrow> AdvanceOutcome op" where
  "settledChildRun advance input nodeName key childRun message =
     (if run_status childRun = RCompleted then
        (let output = or_undefined (run_output childRun) in
         await (st_completeNodeChild (ac_store input) (ac_runId input) nodeName key output) (\<lambda>_.
         await (st_completeNode (ac_store input) (ac_runId input) nodeName output) (\<lambda>_.
         advance (with_output input nodeName output))))
      else if run_status childRun = RCancelled then
        await (cancelNodeAndRun (ac_deps input) (ac_runId input) nodeName) (\<lambda>_. ret Terminal)
      else
        (let error = error_or (run_error childRun) message in
         await (st_failNodeChild (ac_store input) (ac_runId input) nodeName key error) (\<lambda>_.
         await (failNodeAndRun (ac_deps input) (ac_runId input) nodeName error) (\<lambda>_. ret Terminal))))"

text \<open>The child of a node under a key, when it has a run: its identifier.\<close>

definition linked_run :: "StoredNodeChild list \<Rightarrow> string \<Rightarrow> string option" where
  "linked_run loaded key =
     (case find (\<lambda>candidate. child_childKey candidate = key) loaded of
        None \<Rightarrow> None
      | Some child \<Rightarrow> child_childRunId child)"

definition linked_runs :: "StoredNodeChild list \<Rightarrow> string list" where
  "linked_runs loaded = concat (map (\<lambda>child. case child_childRunId child of None \<Rightarrow> [] | Some i \<Rightarrow> [i]) loaded)"

definition new_child_run ::
  "'ctx AdvanceCtx \<Rightarrow> string \<Rightarrow> string \<Rightarrow> RunKind \<Rightarrow> string \<Rightarrow> jsval \<Rightarrow> jsval list option \<Rightarrow> EnsureChildRunParams" where
  "new_child_run input nodeName key kind name nodeInput idempotencyKey =
     \<lparr>ecr_runId = ac_runId input, ecr_nodeName = nodeName, ecr_childKey = key, ecr_childKind = kind,
      ecr_childName = name, ecr_input = nodeInput, ecr_rootRunId = run_rootRunId (ac_run input),
      ecr_tags = None, ecr_idempotencyKey = idempotencyKey\<rparr>"

definition dispatchChildTaskRun ::
  "'ctx advance \<Rightarrow> 'ctx AdvanceCtx \<Rightarrow> StoredNode \<Rightarrow> string \<Rightarrow> string \<Rightarrow> string \<Rightarrow> string option \<Rightarrow> Schema \<Rightarrow> string
     \<Rightarrow> jsval res \<Rightarrow> jsval list option res \<Rightarrow> AdvanceOutcome op" where
  "dispatchChildTaskRun advance input parentNode nodeName key taskName timeout inputSchema inputLabel
       resolveNodeInput resolveIdempotencyKey =
     await (st_loadNodeChildren (ac_store input) (ac_runId input) nodeName) (\<lambda>(loaded, _).
     case linked_run loaded key of
       Some childRunId \<Rightarrow>
         await (st_loadRuns (ac_store input) [childRunId]) (\<lambda>found.
         case found of
           [] \<Rightarrow>
             await (failMissingChildRun (ac_deps input) (ac_runId input) nodeName TaskRun childRunId) (\<lambda>_. ret Terminal)
         | childRun # _ \<Rightarrow>
             if \<not> isTerminalRunStatus (run_status childRun) then
               await (dispatchTaskRunAttempt (ac_deps input) taskName childRunId
                        (nullish_or (run_input childRun) (or_undefined (node_input parentNode)))
                        (run_idempotencyKey childRun) timeout None False) (\<lambda>_.
               await (st_waitNode (ac_store input) (ac_runId input) nodeName) (\<lambda>_.
               ret Parked))
             else
               settledChildRun advance input nodeName key childRun
                 (''Child task run ['' @ run_id childRun @ ''] failed''))
     | None \<Rightarrow>
         await (pureRes resolveNodeInput) (\<lambda>value.
         await (pureRes (decodeWorkflowUserSchemaValue inputSchema value inputLabel)) (\<lambda>nodeInput.
         await (pureRes resolveIdempotencyKey) (\<lambda>idempotencyKey.
         await (st_setNodeInput (ac_store input) (ac_runId input) nodeName nodeInput) (\<lambda>_.
         await (st_ensureChildRun (ac_store input)
                  (new_child_run input nodeName key TaskRun taskName nodeInput idempotencyKey)) (\<lambda>ensured.
         await (dispatchTaskRunAttempt (ac_deps input) taskName (run_id (ecres_childRun ensured)) nodeInput
                  idempotencyKey timeout None False) (\<lambda>_.
         await (st_waitNode (ac_store input) (ac_runId input) nodeName) (\<lambda>_.
         ret Parked))))))))"

definition dispatchChildWorkflow ::
  "'ctx advance \<Rightarrow> 'ctx AdvanceCtx \<Rightarrow> string \<Rightarrow> string \<Rightarrow> string \<Rightarrow> Schema \<Rightarrow> string
     \<Rightarrow> jsval res \<Rightarrow> jsval list option res \<Rightarrow> AdvanceOutcome op" where
  "dispatchChildWorkflow advance input nodeName key workflowName inputSchema inputLabel
       resolveNodeInput resolveIdempotencyKey =
     await (st_loadNodeChildren (ac_store input) (ac_runId input) nodeName) (\<lambda>(loaded, _).
     case linked_run loaded key of
       Some childRunId \<Rightarrow>
         await (st_loadRuns (ac_store input) [childRunId]) (\<lambda>found.
         case found of
           [] \<Rightarrow>
             await (failMissingChildRun (ac_deps input) (ac_runId input) nodeName WorkflowRun childRunId) (\<lambda>_. ret Terminal)
         | childRun # _ \<Rightarrow>
             if \<not> isTerminalRunStatus (run_status childRun) then
               await (rce_enqueue (runCoordinationExecutor (ac_deps input))
                        \<lparr>cont_runId = childRunId, cont_workflowName = run_workflowName childRun\<rparr>) (\<lambda>_.
               await (st_waitNode (ac_store input) (ac_runId input) nodeName) (\<lambda>_.
               ret Parked))
             else
               settledChildRun advance input nodeName key childRun
                 (''Child workflow ['' @ run_id childRun @ ''] '' @ runStatus_string (run_status childRun)))
     | None \<Rightarrow>
         await (pureRes resolveNodeInput) (\<lambda>value.
         await (pureRes (decodeWorkflowUserSchemaValue inputSchema value inputLabel)) (\<lambda>nodeInput.
         await (pureRes resolveIdempotencyKey) (\<lambda>idempotencyKey.
         await (st_setNodeInput (ac_store input) (ac_runId input) nodeName nodeInput) (\<lambda>_.
         await (st_ensureChildRun (ac_store input)
                  (new_child_run input nodeName key WorkflowRun workflowName nodeInput idempotencyKey)) (\<lambda>ensured.
         await (rce_enqueue (runCoordinationExecutor (ac_deps input))
                  \<lparr>cont_runId = run_id (ecres_childRun ensured), cont_workflowName = workflowName\<rparr>) (\<lambda>_.
         await (st_waitNode (ac_store input) (ac_runId input) nodeName) (\<lambda>_.
         ret Parked))))))))"

section \<open>Activities, tasks and child workflows\<close>

definition not_a :: "string \<Rightarrow> string \<Rightarrow> 'a op" where
  "not_a nodeName what = raise (Thrown (new_Error (''Workflow node ['' @ nodeName @ ''] is not '' @ what)))"

definition no_child :: "'a op" where
  "no_child = raise (Thrown (Err ''TypeError'' ''Cannot read properties of undefined'' None (Plain JUndefined)))"

definition dispatchActivityNode :: "'ctx AdvanceCtx \<Rightarrow> 'ctx ActivityNodeImplementation \<Rightarrow> AdvanceOutcome op" where
  "dispatchActivityNode input node =
     await (st_createNode (ac_store input) (ac_runId input) (act_name node) ActivityNode) (\<lambda>existing.
     if isTerminalNodeStatus (node_status existing) then ret Parked
     else
       await (pureRes (getWorkflowNodeDeclaration (ac_workflow input) (act_name node))) (\<lambda>declaration.
       case declaration of
         WorkflowActivityNode _ inputSchema _ _ \<Rightarrow>
           await (if hasStoredNodeInput existing then ret (or_undefined (node_input existing))
                  else
                    await (pureRes (callback_input input (act_input node))) (\<lambda>value.
                    pureRes (decodeWorkflowUserSchemaValue inputSchema value
                      (''activity input ['' @ ac_workflowName input @ ''.'' @ act_name node @ '']'')))) (\<lambda>nodeInput.
           await (if hasStoredNodeInput existing then ret ()
                  else await (st_setNodeInput (ac_store input) (ac_runId input) (act_name node) nodeInput) (\<lambda>_. ret ())) (\<lambda>_.
           await (st_ensureNodeChildren (ac_store input) (ac_runId input) (act_name node)
                    [node_child SELF_CHILD_KEY ActivityChild]) (\<lambda>(ensured, _).
           case ensured of
             [] \<Rightarrow> no_child
           | child # _ \<Rightarrow>
               await (dispatchActivityAttempt (ac_deps input) (ac_workflowName input) (act_activity node)
                        (ac_runId input) (act_name node) SELF_CHILD_KEY False
                        (prepareChildAttempt input (act_name node) SELF_CHILD_KEY nodeInput
                           (if child_attemptCount child > 0 then Inr None
                            else resolveIdempotency (act_idempotency node) (callback_args input)))) (\<lambda>_.
               ret Local))))
       | _ \<Rightarrow> not_a (act_name node) ''an activity''))"

definition dispatchTaskNode :: "'ctx advance \<Rightarrow> 'ctx AdvanceCtx \<Rightarrow> 'ctx RunnableNodeImplementation \<Rightarrow> AdvanceOutcome op" where
  "dispatchTaskNode advance input node =
     await (st_createNode (ac_store input) (ac_runId input) (rnn_name node) TaskNode) (\<lambda>existing.
     if isTerminalNodeStatus (node_status existing) then ret Parked
     else
       await (pureRes (getWorkflowNodeDeclaration (ac_workflow input) (rnn_name node))) (\<lambda>declaration.
       case declaration of
         WorkflowTaskNode _ task timeout \<Rightarrow>
           await (st_ensureNodeChildren (ac_store input) (ac_runId input) (rnn_name node)
                    [node_child SELF_CHILD_KEY TaskChild]) (\<lambda>_.
           dispatchChildTaskRun advance input existing (rnn_name node) SELF_CHILD_KEY (rn_name (rnn_target node))
             (option_or timeout (task_timeout task)) (rn_input (rnn_target node))
             (''task input ['' @ ac_workflowName input @ ''.'' @ rnn_name node @ '']'')
             (stored_or_callback_input input existing (rnn_input node))
             (resolveIdempotency (rnn_idempotency node) (callback_args input)))
       | _ \<Rightarrow> not_a (rnn_name node) ''a task''))"

definition dispatchWorkflowNode :: "'ctx advance \<Rightarrow> 'ctx AdvanceCtx \<Rightarrow> 'ctx RunnableNodeImplementation \<Rightarrow> AdvanceOutcome op" where
  "dispatchWorkflowNode advance input node =
     await (st_createNode (ac_store input) (ac_runId input) (rnn_name node) WorkflowNode) (\<lambda>existing.
     if isTerminalNodeStatus (node_status existing) then ret Parked
     else
       await (st_ensureNodeChildren (ac_store input) (ac_runId input) (rnn_name node)
                [node_child SELF_CHILD_KEY WorkflowChild]) (\<lambda>_.
       dispatchChildWorkflow advance input (rnn_name node) SELF_CHILD_KEY (rn_name (rnn_target node))
         (rn_input (rnn_target node))
         (''workflow input ['' @ ac_workflowName input @ ''.'' @ rnn_name node @ '']'')
         (stored_or_callback_input input existing (rnn_input node))
         (resolveIdempotency (rnn_idempotency node) (callback_args input))))"

section \<open>Branches\<close>

primrec case_child_kind :: "'ctx WorkflowCaseImplementation \<Rightarrow> NodeChildKind" where
  "case_child_kind (ActivityCase a) = ActivityChild"
| "case_child_kind (RunnableCase r) = childKind (rnn_kind r)"

primrec case_timeout :: "BranchCaseDefinition \<Rightarrow> string option" where
  "case_timeout (ActivityCaseDefinition i out timeout) = timeout"
| "case_timeout (TaskCaseDefinition task timeout) = timeout"
| "case_timeout WorkflowCaseDefinition = None"

text \<open>The selected case after the child was ensured and is not yet settled.\<close>

definition dispatchBranchCase ::
  "'ctx advance \<Rightarrow> 'ctx AdvanceCtx \<Rightarrow> StoredNode \<Rightarrow> string \<Rightarrow> string \<Rightarrow> 'ctx WorkflowCaseImplementation
     \<Rightarrow> BranchCaseDefinition \<Rightarrow> StoredNodeChild \<Rightarrow> AdvanceOutcome op" where
  "dispatchBranchCase advance input existing nodeName caseKey selected selectedDeclaration child =
     (let label = (\<lambda>kind. kind @ '' input ['' @ ac_workflowName input @ ''.'' @ nodeName @ ''.'' @ caseKey @ '']'');
          wrong = (\<lambda>what. raise (Thrown (new_Error (''Branch case ['' @ nodeName @ ''.'' @ caseKey @ ''] is not '' @ what))))
      in case selected of
        RunnableCase r \<Rightarrow>
          if rnn_kind r = WorkflowRun then
            dispatchChildWorkflow advance input nodeName (caseChildKey caseKey) (rn_name (rnn_target r))
              (rn_input (rnn_target r)) (label ''workflow'')
              (stored_or_callback_input input existing (rnn_input r))
              (resolveIdempotency (rnn_idempotency r) (callback_args input))
          else
            (case selectedDeclaration of
               TaskCaseDefinition _ timeout \<Rightarrow>
                 dispatchChildTaskRun advance input existing nodeName (caseChildKey caseKey) (rn_name (rnn_target r))
                   (option_or timeout (rn_timeout (rnn_target r))) (rn_input (rnn_target r)) (label ''task'')
                   (stored_or_callback_input input existing (rnn_input r))
                   (resolveIdempotency (rnn_idempotency r) (callback_args input))
             | _ \<Rightarrow> wrong ''a task'')
      | ActivityCase a \<Rightarrow>
          (case selectedDeclaration of
             ActivityCaseDefinition inputSchema _ _ \<Rightarrow>
               (let hasAttempt = child_attemptCount child > 0 in
                await (if hasAttempt then ret JUndefined
                       else
                         await (pureRes (callback_input input (act_input a))) (\<lambda>value.
                         pureRes (decodeWorkflowUserSchemaValue inputSchema value (label ''activity'')))) (\<lambda>nodeInput.
                await (if hasAttempt then ret ()
                       else await (st_setNodeInput (ac_store input) (ac_runId input) nodeName nodeInput) (\<lambda>_. ret ())) (\<lambda>_.
                await (dispatchActivityAttempt (ac_deps input) (ac_workflowName input) (act_activity a)
                         (ac_runId input) nodeName (caseChildKey caseKey) False
                         (prepareChildAttempt input nodeName (caseChildKey caseKey) nodeInput
                            (if hasAttempt then Inr None
                             else resolveIdempotency (act_idempotency a) (callback_args input)))) (\<lambda>_.
                ret Local))))
           | _ \<Rightarrow> wrong ''an activity''))"

text \<open>The child of the selected case: settled ones settle the node.\<close>

definition advanceBranchChild ::
  "'ctx advance \<Rightarrow> 'ctx AdvanceCtx \<Rightarrow> StoredNode \<Rightarrow> string \<Rightarrow> string \<Rightarrow> 'ctx WorkflowCaseImplementation
     \<Rightarrow> BranchCaseDefinition \<Rightarrow> StoredNodeChild \<Rightarrow> AdvanceOutcome op" where
  "advanceBranchChild advance input existing nodeName caseKey selected selectedDeclaration child =
     (if child_status child = NCompleted then
        (let output = or_undefined (child_output child) in
         await (st_completeNode (ac_store input) (ac_runId input) nodeName output) (\<lambda>_.
         advance (with_output input nodeName output)))
      else if child_status child = NFailed then
        await (failNodeAndRun (ac_deps input) (ac_runId input) nodeName
                 (error_or (child_error child) (''Branch case ['' @ nodeName @ ''.'' @ caseKey @ ''] failed''))) (\<lambda>_.
        ret Terminal)
      else if child_status child = NCancelled then
        await (cancelNodeAndRun (ac_deps input) (ac_runId input) nodeName) (\<lambda>_. ret Terminal)
      else dispatchBranchCase advance input existing nodeName caseKey selected selectedDeclaration child)"

definition dispatchSelectedCase ::
  "'ctx advance \<Rightarrow> 'ctx AdvanceCtx \<Rightarrow> 'ctx BranchNodeImplementation \<Rightarrow> StoredNode \<Rightarrow> string \<Rightarrow> AdvanceOutcome op" where
  "dispatchSelectedCase advance input node existing caseKey =
     (case map_get (br_cases node) caseKey of
        None \<Rightarrow>
          await (failNodeAndRun (ac_deps input) (ac_runId input) (br_name node)
                   (new_Error (''Unknown branch case ['' @ br_name node @ ''.'' @ caseKey @ '']''))) (\<lambda>_.
          ret Terminal)
      | Some selected \<Rightarrow>
          await (pureRes (getWorkflowNodeDeclaration (ac_workflow input) (br_name node))) (\<lambda>declaration.
          case declaration of
            WorkflowBranchNode _ cases \<Rightarrow>
              (case map_get cases caseKey of
                 None \<Rightarrow> raise (Thrown (new_Error (''Missing branch case declaration ['' @ br_name node @ ''.'' @ caseKey @ '']'')))
               | Some selectedDeclaration \<Rightarrow>
                   await (st_ensureNodeChildren (ac_store input) (ac_runId input) (br_name node)
                            [node_child (caseChildKey caseKey) (case_child_kind selected)]) (\<lambda>(ensured, _).
                   case ensured of
                     [] \<Rightarrow> no_child
                   | child # _ \<Rightarrow>
                       advanceBranchChild advance input existing (br_name node) caseKey selected selectedDeclaration child))
          | _ \<Rightarrow> not_a (br_name node) ''a branch''))"

definition dispatchBranchNode :: "'ctx advance \<Rightarrow> 'ctx AdvanceCtx \<Rightarrow> 'ctx BranchNodeImplementation \<Rightarrow> AdvanceOutcome op" where
  "dispatchBranchNode advance input node =
     await (st_createNode (ac_store input) (ac_runId input) (br_name node) BranchNode) (\<lambda>existing.
     if isTerminalNodeStatus (node_status existing) then ret Parked
     else case node_selectedCase existing of
       Some caseKey \<Rightarrow> dispatchSelectedCase advance input node existing caseKey
     | None \<Rightarrow>
         (case br_select node (callback_args input) of
            Inl error \<Rightarrow>
              await (failNodeAndRun (ac_deps input) (ac_runId input) (br_name node) error) (\<lambda>_. ret Terminal)
          | Inr caseKey \<Rightarrow>
              await (st_selectNodeCase (ac_store input) (ac_runId input) (br_name node) caseKey) (\<lambda>_.
              dispatchSelectedCase advance input node existing caseKey)))"

section \<open>Parallel nodes\<close>

definition redispatchParallelChildRun ::
  "'ctx AdvanceCtx \<Rightarrow> string \<Rightarrow> 'ctx RunnableNodeImplementation \<Rightarrow> string \<Rightarrow> StoredRun \<Rightarrow> unit op" where
  "redispatchParallelChildRun input nodeName member memberKey childRun =
     (if rnn_kind member = WorkflowRun then
        rce_enqueue (runCoordinationExecutor (ac_deps input))
          \<lparr>cont_runId = run_id childRun, cont_workflowName = run_workflowName childRun\<rparr>
      else
        await (pureRes (getWorkflowNodeDeclaration (ac_workflow input) nodeName)) (\<lambda>declaration.
        case declaration of
          WorkflowParallelNode _ cases \<Rightarrow>
            dispatchTaskRunAttempt (ac_deps input) (rn_name (rnn_target member)) (run_id childRun)
              (nullish_or (run_input childRun) (run_input (ac_run input))) (run_idempotencyKey childRun)
              (option_or (case map_get cases memberKey of None \<Rightarrow> None | Some d \<Rightarrow> case_timeout d)
                 (rn_timeout (rnn_target member))) None False
        | _ \<Rightarrow> ret ()))"

text \<open>
  One round of the loop over the members. \<open>None\<close> stands for \<open>return 'terminal'\<close>; otherwise the
  outputs collected so far and whether there is local work.
\<close>

definition failMember :: "'ctx AdvanceCtx \<Rightarrow> string \<Rightarrow> thrown \<Rightarrow> StoredNodeChild \<Rightarrow> unit op" where
  "failMember input nodeName error child =
     await (st_failNodeChild (ac_store input) (ac_runId input) nodeName (child_childKey child) error) (\<lambda>_.
     await (cancelNodeChildRunsAndCommands (ac_deps input) (ac_runId input) nodeName) (\<lambda>_.
     failNodeAndRun (ac_deps input) (ac_runId input) nodeName error))"

definition parallelChildRun ::
  "'ctx AdvanceCtx \<Rightarrow> string \<Rightarrow> string \<Rightarrow> 'ctx RunnableNodeImplementation \<Rightarrow> StoredNodeChild \<Rightarrow> string
     \<Rightarrow> StoredRun option \<Rightarrow> outputs \<times> bool \<Rightarrow> (outputs \<times> bool) option op" where
  "parallelChildRun input nodeName memberKey member child childRunId found acc =
     (case found of
        None \<Rightarrow>
          await (failMissingChildRun (ac_deps input) (ac_runId input) nodeName (rnn_kind member) childRunId) (\<lambda>_. ret None)
      | Some childRun \<Rightarrow>
          if \<not> isTerminalRunStatus (run_status childRun) then
            await (redispatchParallelChildRun input nodeName member memberKey childRun) (\<lambda>_. ret (Some acc))
          else if run_status childRun = RCompleted then
            (let output = or_undefined (run_output childRun) in
             await (st_completeNodeChild (ac_store input) (ac_runId input) nodeName (memberChildKey memberKey) output) (\<lambda>_.
             ret (Some (map_set memberKey output (fst acc), snd acc))))
          else if run_status childRun = RCancelled then
            await (cancelNodeAndRun (ac_deps input) (ac_runId input) nodeName) (\<lambda>_. ret None)
          else
            await (failMember input nodeName
                     (error_or (run_error childRun) (''Parallel child '' @ runKind_string (rnn_kind member) @ '' run [''
                        @ run_id childRun @ ''] '' @ runStatus_string (run_status childRun))) child) (\<lambda>_.
            ret None))"

definition startParallelChildRun ::
  "'ctx AdvanceCtx \<Rightarrow> string \<Rightarrow> string \<Rightarrow> 'ctx RunnableNodeImplementation \<Rightarrow> BranchCaseDefinition \<Rightarrow> unit op" where
  "startParallelChildRun input nodeName memberKey member memberDeclaration =
     await (pureRes (callback_input input (rnn_input member))) (\<lambda>value.
     await (pureRes (decodeWorkflowUserSchemaValue (rn_input (rnn_target member)) value
              (runKind_string (rnn_kind member) @ '' input ['' @ ac_workflowName input @ ''.'' @ nodeName @ ''.'' @ memberKey @ '']''))) (\<lambda>nodeInput.
     await (pureRes (resolveIdempotency (rnn_idempotency member) (callback_args input))) (\<lambda>idempotencyKey.
     await (st_ensureChildRun (ac_store input)
              (new_child_run input nodeName (memberChildKey memberKey) (rnn_kind member) (rn_name (rnn_target member))
                 nodeInput idempotencyKey)) (\<lambda>created.
     if rnn_kind member = WorkflowRun then
       rce_enqueue (runCoordinationExecutor (ac_deps input))
         \<lparr>cont_runId = run_id (ecres_childRun created), cont_workflowName = rn_name (rnn_target member)\<rparr>
     else
       dispatchTaskRunAttempt (ac_deps input) (rn_name (rnn_target member)) (run_id (ecres_childRun created)) nodeInput
         idempotencyKey (option_or (case_timeout memberDeclaration) (rn_timeout (rnn_target member))) None False))))"

definition dispatchParallelActivity ::
  "'ctx AdvanceCtx \<Rightarrow> string \<Rightarrow> string \<Rightarrow> 'ctx ActivityNodeImplementation \<Rightarrow> Schema \<Rightarrow> StoredNodeChild \<Rightarrow> unit op" where
  "dispatchParallelActivity input nodeName memberKey member inputSchema child =
     (let hasAttempt = child_attemptCount child > 0 in
      await (if hasAttempt then ret JUndefined
             else
               await (pureRes (callback_input input (act_input member))) (\<lambda>value.
               pureRes (decodeWorkflowUserSchemaValue inputSchema value
                 (''activity input ['' @ ac_workflowName input @ ''.'' @ nodeName @ ''.'' @ memberKey @ '']'')))) (\<lambda>nodeInput.
      await (pureRes (if hasAttempt then Inr None
                      else resolveIdempotency (act_idempotency member) (callback_args input))) (\<lambda>idempotencyKey.
      dispatchActivityAttempt (ac_deps input) (ac_workflowName input) (act_activity member) (ac_runId input) nodeName
        (memberChildKey memberKey) False
        (prepareChildAttempt input nodeName (memberChildKey memberKey) nodeInput (Inr idempotencyKey)))))"

definition parallelMember ::
  "'ctx AdvanceCtx \<Rightarrow> string \<Rightarrow> (string \<times> BranchCaseDefinition) list \<Rightarrow> (string \<times> StoredNodeChild) list
     \<Rightarrow> (string \<times> StoredRun) list \<Rightarrow> string \<times> 'ctx WorkflowCaseImplementation \<Rightarrow> outputs \<times> bool
     \<Rightarrow> (outputs \<times> bool) option op" where
  "parallelMember input nodeName cases childByKey childRuns entry acc =
     (case entry of (memberKey, member) \<Rightarrow>
      case map_get childByKey (memberChildKey memberKey) of
        None \<Rightarrow> raise (Thrown (new_Error (''Missing parallel member child ['' @ nodeName @ ''.'' @ memberKey @ '']'')))
      | Some child \<Rightarrow>
          if child_status child = NCompleted then
            ret (Some (map_set memberKey (or_undefined (child_output child)) (fst acc), snd acc))
          else if child_status child = NFailed then
            (let error = error_or (child_error child) (''Parallel member ['' @ nodeName @ ''.'' @ memberKey @ ''] failed'') in
             await (cancelNodeChildRunsAndCommands (ac_deps input) (ac_runId input) nodeName) (\<lambda>_.
             await (failNodeAndRun (ac_deps input) (ac_runId input) nodeName error) (\<lambda>_. ret None)))
          else if child_status child = NCancelled then
            await (cancelNodeAndRun (ac_deps input) (ac_runId input) nodeName) (\<lambda>_. ret None)
          else
            (case member of
               RunnableCase r \<Rightarrow>
                 (case child_childRunId child of
                    Some childRunId \<Rightarrow>
                      parallelChildRun input nodeName memberKey r child childRunId (map_get childRuns childRunId) acc
                  | None \<Rightarrow>
                      (case map_get cases memberKey of
                         None \<Rightarrow> no_child
                       | Some memberDeclaration \<Rightarrow>
                           await (startParallelChildRun input nodeName memberKey r memberDeclaration) (\<lambda>_. ret (Some acc))))
             | ActivityCase a \<Rightarrow>
                 (case map_get cases memberKey of
                    Some (ActivityCaseDefinition inputSchema _ _) \<Rightarrow>
                      await (dispatchParallelActivity input nodeName memberKey a inputSchema child) (\<lambda>_.
                      ret (Some (fst acc, True)))
                  | _ \<Rightarrow> raise (Thrown (new_Error (''Parallel member ['' @ nodeName @ ''.'' @ memberKey @ ''] is not an activity''))))))"

text \<open>A loop whose body may return from the function (\<open>None\<close>) or update what it accumulates.\<close>

primrec loop_until :: "('m \<Rightarrow> 'acc \<Rightarrow> 'acc option op) \<Rightarrow> 'm list \<Rightarrow> 'acc \<Rightarrow> 'acc option op" where
  "loop_until body [] acc = ret (Some acc)"
| "loop_until body (m # ms) acc =
     await (body m acc) (\<lambda>r. case r of None \<Rightarrow> ret None | Some acc' \<Rightarrow> loop_until body ms acc')"

definition missingMembers :: "'ctx ParallelNodeImplementation \<Rightarrow> (string \<times> BranchCaseDefinition) list \<Rightarrow> string list" where
  "missingMembers node cases = filter (\<lambda>memberKey. map_get cases memberKey = None) (map fst (par_cases node))"

text \<open>After the loop: the node completes when every member has an output.\<close>

definition completeParallel ::
  "'ctx advance \<Rightarrow> 'ctx AdvanceCtx \<Rightarrow> 'ctx ParallelNodeImplementation \<Rightarrow> outputs \<Rightarrow> bool \<Rightarrow> AdvanceOutcome op" where
  "completeParallel advance input node outputs hasLocalWork =
     (if length outputs = length (par_cases node) then
        await (st_completeNode (ac_store input) (ac_runId input) (par_name node) (JObj outputs)) (\<lambda>_.
        advance (with_output input (par_name node) (JObj outputs)))
      else
        await (st_waitNode (ac_store input) (ac_runId input) (par_name node)) (\<lambda>_.
        ret (if hasLocalWork then Local else Parked)))"

definition dispatchParallelNode :: "'ctx advance \<Rightarrow> 'ctx AdvanceCtx \<Rightarrow> 'ctx ParallelNodeImplementation \<Rightarrow> AdvanceOutcome op" where
  "dispatchParallelNode advance input node =
     await (st_createNode (ac_store input) (ac_runId input) (par_name node) ParallelNode) (\<lambda>existing.
     if isTerminalNodeStatus (node_status existing) then ret Parked
     else
       await (pureRes (getWorkflowNodeDeclaration (ac_workflow input) (par_name node))) (\<lambda>declaration.
       case declaration of
         WorkflowParallelNode _ cases \<Rightarrow>
           (case missingMembers node cases of
              memberKey # _ \<Rightarrow>
                raise (Thrown (new_Error (''Missing parallel member declaration ['' @ par_name node @ ''.'' @ memberKey @ '']'')))
            | [] \<Rightarrow>
                await (st_ensureNodeChildren (ac_store input) (ac_runId input) (par_name node)
                         (map (\<lambda>(memberKey, member). node_child (memberChildKey memberKey) (case_child_kind member))
                            (par_cases node))) (\<lambda>(ensured, _).
                await (st_loadRuns (ac_store input) (linked_runs ensured)) (\<lambda>found.
                await (loop_until (parallelMember input (par_name node) cases (index_by child_childKey ensured)
                         (index_by run_id found)) (par_cases node) ([], False)) (\<lambda>settled.
                case settled of
                  None \<Rightarrow> ret Terminal
                | Some (outputs, hasLocalWork) \<Rightarrow> completeParallel advance input node outputs hasLocalWork))))
       | _ \<Rightarrow> not_a (par_name node) ''parallel''))"

section \<open>Map nodes\<close>

record MapRunNodeCallbacks =
  mrc_kind :: WorkflowNodeKind
  mrc_kindName :: string
  mrc_childKind :: RunKind
  mrc_redispatchActiveChild :: "WorkflowNode \<Rightarrow> StoredRun \<Rightarrow> unit op"
  mrc_startChild :: "WorkflowNode \<Rightarrow> StoredNodeChild \<Rightarrow> jsval \<Rightarrow> jsval list option \<Rightarrow> StoredRun op"
  mrc_failedChildError :: "StoredRun \<Rightarrow> thrown"

text \<open>\<open>declaration.timeout ?? declaration.task.timeout\<close>.\<close>

fun map_timeout :: "WorkflowNode \<Rightarrow> string option" where
  "map_timeout (WorkflowMapTaskNode name task item mode timeout) = option_or timeout (task_timeout task)"
| "map_timeout _ = None"

text \<open>What the loop accumulates: \<open>outputItems\<close>, \<open>activeChildren\<close> and \<open>startedChildren\<close>.\<close>

record MapProgress =
  mp_outputItems :: "jsval option list"
  mp_active :: nat
  mp_started :: nat

definition at_limit :: "nat \<Rightarrow> jsnum \<Rightarrow> bool" where
  "at_limit n limit = (case limit of Fin c \<Rightarrow> c \<le> of_nat n | _ \<Rightarrow> False)"

text \<open>An element of \<open>outputItems\<close>: item, index, run and the properties that follow.\<close>

definition output_item :: "StoredNodeChild \<Rightarrow> string \<Rightarrow> (string \<times> jsval) list \<Rightarrow> jsval" where
  "output_item child runId props =
     JObj ([(''item'', or_undefined (child_item child)), (''index'', JNum (Fin (of_nat (child_ordinal child)))),
            (''runId'', JStr runId)] @ props)"

definition put_item :: "StoredNodeChild \<Rightarrow> string \<Rightarrow> (string \<times> jsval) list \<Rightarrow> MapProgress \<Rightarrow> MapProgress" where
  "put_item child runId props acc =
     acc\<lparr>mp_outputItems := array_set (child_ordinal child) (output_item child runId props) (mp_outputItems acc)\<rparr>"

definition status_prop :: "StoredRun \<Rightarrow> string \<times> jsval" where
  "status_prop childRun = (''status'', JStr (runStatus_string (run_status childRun)))"

text \<open>A child with a run: started, active, completed, cancelled or failed.\<close>

definition mapChildRun ::
  "'ctx AdvanceCtx \<Rightarrow> 'ctx MapNodeImplementation \<Rightarrow> MapRunNodeCallbacks \<Rightarrow> WorkflowNode \<Rightarrow> StoredNodeChild \<Rightarrow> string
     \<Rightarrow> StoredRun \<Rightarrow> MapProgress \<Rightarrow> MapProgress option op" where
  "mapChildRun input node callbacks declaration child childRunId childRun acc =
     (if mapn_mode node = StartOnly then ret (Some (put_item child childRunId [status_prop childRun] acc))
      else if \<not> isTerminalRunStatus (run_status childRun) then
        await (mrc_redispatchActiveChild callbacks declaration childRun) (\<lambda>_.
        ret (Some (acc\<lparr>mp_active := mp_active acc + 1\<rparr>)))
      else if run_status childRun = RCompleted then
        (let output = or_undefined (run_output childRun) in
         await (st_completeNodeChild (ac_store input) (ac_runId input) (mapn_name node) (child_childKey child) output) (\<lambda>_.
         ret (Some (put_item child childRunId
                ((if mapn_mode node = WaitSettled then [status_prop childRun] else []) @ [(''output'', output)]) acc))))
      else if run_status childRun = RCancelled \<and> mapn_mode node \<noteq> WaitSettled then
        await (cancelNodeAndRun (ac_deps input) (ac_runId input) (mapn_name node)) (\<lambda>_. ret None)
      else
        (let error = mrc_failedChildError callbacks childRun in
         await (st_failNodeChild (ac_store input) (ac_runId input) (mapn_name node) (child_childKey child) error) (\<lambda>_.
         if mapn_mode node = WaitSettled then
           await (reading rt_host) (\<lambda>host.
           ret (Some (put_item child childRunId [status_prop childRun, (''error'', toStoredError host error)] acc)))
         else
           await (cancelNodeChildRunsAndCommands (ac_deps input) (ac_runId input) (mapn_name node)) (\<lambda>_.
           await (failNodeAndRun (ac_deps input) (ac_runId input) (mapn_name node) error) (\<lambda>_. ret None)))))"

text \<open>A child without a run is started unless the limit is reached.\<close>

definition startMapChild ::
  "'ctx AdvanceCtx \<Rightarrow> 'ctx MapNodeImplementation \<Rightarrow> MapRunNodeCallbacks \<Rightarrow> WorkflowNode \<Rightarrow> jsnum \<Rightarrow> StoredNodeChild
     \<Rightarrow> MapProgress \<Rightarrow> MapProgress option op" where
  "startMapChild input node callbacks declaration concurrency child acc =
     (if at_limit (if mapn_mode node = StartOnly then mp_started acc else mp_active acc) concurrency then ret (Some acc)
      else
        (let args = (ac_workflowCtx input, ac_outputs input, or_undefined (child_item child),
                     run_input (ac_run input), child_ordinal child) in
         await (pureRes (runWorkflowUserCallback (mapn_input node args))) (\<lambda>value.
         await (pureRes (decodeWorkflowUserSchemaValue (rn_input (mapn_target node)) value
                  (runKind_string (mrc_childKind callbacks) @ '' input ['' @ ac_workflowName input @ ''.''
                     @ mapn_name node @ ''.'' @ show_nat (child_ordinal child) @ '']''))) (\<lambda>nodeInput.
         await (pureRes (resolveIdempotency (mapn_idempotency node) args)) (\<lambda>idempotencyKey.
         await (mrc_startChild callbacks declaration child nodeInput idempotencyKey) (\<lambda>childRun.
         if mapn_mode node = StartOnly then
           ret (Some (put_item child (run_id childRun) [status_prop childRun] (acc\<lparr>mp_started := mp_started acc + 1\<rparr>)))
         else ret (Some (acc\<lparr>mp_active := mp_active acc + 1\<rparr>))))))))"

definition mapChild ::
  "'ctx AdvanceCtx \<Rightarrow> 'ctx MapNodeImplementation \<Rightarrow> MapRunNodeCallbacks \<Rightarrow> WorkflowNode \<Rightarrow> (string \<times> StoredRun) list
     \<Rightarrow> jsnum \<Rightarrow> StoredNodeChild \<Rightarrow> MapProgress \<Rightarrow> MapProgress option op" where
  "mapChild input node callbacks declaration childRuns concurrency child acc =
     (case child_childRunId child of
        Some childRunId \<Rightarrow>
          (case map_get childRuns childRunId of
             None \<Rightarrow>
               await (failMissingChildRun (ac_deps input) (ac_runId input) (mapn_name node) (mrc_childKind callbacks)
                        childRunId) (\<lambda>_. ret None)
           | Some childRun \<Rightarrow> mapChildRun input node callbacks declaration child childRunId childRun acc)
      | None \<Rightarrow> startMapChild input node callbacks declaration concurrency child acc)"

text \<open>
  The children of the node: loaded when the node input marks them as ensured, else ensured from
  the items and marked last.
\<close>

definition mapItems :: "'ctx AdvanceCtx \<Rightarrow> 'ctx MapNodeImplementation \<Rightarrow> WorkflowNode \<Rightarrow> jsval list res" where
  "mapItems input node declaration =
     (case runWorkflowUserCallback (mapn_items node (callback_args input)) of
        Inl e \<Rightarrow> Inl e
      | Inr items \<Rightarrow>
          decodeMapItems (decl_item declaration) items
            (''map item ['' @ ac_workflowName input @ ''.'' @ mapn_name node @ '']''))"

definition item_input :: "NodeChildKind \<Rightarrow> nat \<times> jsval \<Rightarrow> EnsureNodeChildInput" where
  "item_input kind entry =
     \<lparr>ec_childKey = itemChildKey (fst entry), ec_kind = kind, ec_ordinal = Some (fst entry), ec_itemKey = None,
      ec_item = Some (snd entry)\<rparr>"

definition mapChildren ::
  "'ctx AdvanceCtx \<Rightarrow> 'ctx MapNodeImplementation \<Rightarrow> MapRunNodeCallbacks \<Rightarrow> WorkflowNode \<Rightarrow> StoredNode \<Rightarrow> StoredNodeChild list op" where
  "mapChildren input node callbacks declaration existing =
     (if hasStoredNodeInput existing then
        await (st_loadNodeChildren (ac_store input) (ac_runId input) (mapn_name node)) (\<lambda>(loaded, _). ret loaded)
      else
        await (pureRes (mapItems input node declaration)) (\<lambda>items.
        await (st_ensureNodeChildren (ac_store input) (ac_runId input) (mapn_name node)
                 (map (item_input (childKind (mrc_childKind callbacks))) (enumerate 0 items))) (\<lambda>(ensured, _).
        await (st_setNodeInput (ac_store input) (ac_runId input) (mapn_name node) (JArr items)) (\<lambda>_.
        ret ensured))))"

text \<open>After the loop: the node completes when every child has an item.\<close>

definition completeMap ::
  "'ctx advance \<Rightarrow> 'ctx AdvanceCtx \<Rightarrow> 'ctx MapNodeImplementation \<Rightarrow> nat \<Rightarrow> MapProgress \<Rightarrow> AdvanceOutcome op" where
  "completeMap advance input node childCount progress =
     (let completedItems = List.map_filter id (mp_outputItems progress) in
      if length completedItems = childCount then
        (let output = JObj [(''items'', JArr completedItems)] in
         await (st_completeNode (ac_store input) (ac_runId input) (mapn_name node) output) (\<lambda>_.
         advance (with_output input (mapn_name node) output)))
      else if mapn_mode node = StartOnly \<and> mp_started progress > 0 then
        await (rce_enqueue (runCoordinationExecutor (ac_deps input))
                 \<lparr>cont_runId = ac_runId input, cont_workflowName = ac_workflowName input\<rparr>) (\<lambda>_.
        await (st_waitNode (ac_store input) (ac_runId input) (mapn_name node)) (\<lambda>_.
        ret Local))
      else
        await (st_waitNode (ac_store input) (ac_runId input) (mapn_name node)) (\<lambda>_.
        ret Parked))"

definition dispatchMapRunNode ::
  "'ctx advance \<Rightarrow> 'ctx AdvanceCtx \<Rightarrow> 'ctx MapNodeImplementation \<Rightarrow> MapRunNodeCallbacks \<Rightarrow> AdvanceOutcome op" where
  "dispatchMapRunNode advance input node callbacks =
     await (st_createNode (ac_store input) (ac_runId input) (mapn_name node) (mrc_kind callbacks)) (\<lambda>existing.
     if isTerminalNodeStatus (node_status existing) then ret Parked
     else
       await (pureRes (getWorkflowNodeDeclaration (ac_workflow input) (mapn_name node))) (\<lambda>declaration.
       if declaration_kind declaration \<noteq> mrc_kind callbacks then not_a (mapn_name node) (''a '' @ mrc_kindName callbacks)
       else
         await (mapChildren input node callbacks declaration existing) (\<lambda>loaded.
         await (st_loadRuns (ac_store input) (linked_runs loaded)) (\<lambda>found.
         await (pureRes (mapConcurrencyLimit node)) (\<lambda>concurrency.
         await (loop_until (mapChild input node callbacks declaration (index_by run_id found) concurrency) loaded
                  \<lparr>mp_outputItems = [], mp_active = 0, mp_started = 0\<rparr>) (\<lambda>settled.
         case settled of
           None \<Rightarrow> ret Terminal
         | Some progress \<Rightarrow> completeMap advance input node (length loaded) progress))))))"

definition dispatchMapTaskNode :: "'ctx advance \<Rightarrow> 'ctx AdvanceCtx \<Rightarrow> 'ctx MapNodeImplementation \<Rightarrow> AdvanceOutcome op" where
  "dispatchMapTaskNode advance input node =
     dispatchMapRunNode advance input node
       \<lparr>mrc_kind = MapTaskNode, mrc_kindName = ''mapTask'', mrc_childKind = TaskRun,
        mrc_redispatchActiveChild = (\<lambda>declaration childRun.
          dispatchTaskRunAttempt (ac_deps input) (rn_name (mapn_target node)) (run_id childRun)
            (nullish_or (run_input childRun) (run_input (ac_run input))) (run_idempotencyKey childRun)
            (map_timeout declaration) None False),
        mrc_startChild = (\<lambda>declaration child nodeInput idempotencyKey.
          await (st_ensureChildRun (ac_store input)
                   (new_child_run input (mapn_name node) (child_childKey child) TaskRun (rn_name (mapn_target node))
                      nodeInput idempotencyKey)) (\<lambda>ensured.
          await (dispatchTaskRunAttempt (ac_deps input) (rn_name (mapn_target node)) (run_id (ecres_childRun ensured))
                   nodeInput idempotencyKey (map_timeout declaration) None False) (\<lambda>_.
          ret (ecres_childRun ensured)))),
        mrc_failedChildError = (\<lambda>childRun.
          error_or (run_error childRun) (''Mapped task run ['' @ run_id childRun @ ''] failed''))\<rparr>"

definition dispatchMapWorkflowNode :: "'ctx advance \<Rightarrow> 'ctx AdvanceCtx \<Rightarrow> 'ctx MapNodeImplementation \<Rightarrow> AdvanceOutcome op" where
  "dispatchMapWorkflowNode advance input node =
     dispatchMapRunNode advance input node
       \<lparr>mrc_kind = MapWorkflowNode, mrc_kindName = ''mapWorkflow'', mrc_childKind = WorkflowRun,
        mrc_redispatchActiveChild = (\<lambda>declaration childRun.
          rce_enqueue (runCoordinationExecutor (ac_deps input))
            \<lparr>cont_runId = run_id childRun, cont_workflowName = run_workflowName childRun\<rparr>),
        mrc_startChild = (\<lambda>declaration child nodeInput idempotencyKey.
          await (st_ensureChildRun (ac_store input)
                   (new_child_run input (mapn_name node) (child_childKey child) WorkflowRun (rn_name (mapn_target node))
                      nodeInput idempotencyKey)) (\<lambda>ensured.
          await (rce_enqueue (runCoordinationExecutor (ac_deps input))
                   \<lparr>cont_runId = run_id (ecres_childRun ensured), cont_workflowName = rn_name (mapn_target node)\<rparr>) (\<lambda>_.
          ret (ecres_childRun ensured)))),
        mrc_failedChildError = (\<lambda>childRun.
          error_or (run_error childRun) (''Mapped child workflow ['' @ run_id childRun @ ''] ''
            @ runStatus_string (run_status childRun)))\<rparr>"

section \<open>One pass\<close>

definition finishWorkflowRun :: "'ctx AdvanceCtx \<Rightarrow> AdvanceOutcome op" where
  "finishWorkflowRun input =
     (let output =
        (case wi_finish (ac_workflow input) (callback_args input) of
           Inl e \<Rightarrow> Inl (Thrown e)
         | Inr v \<Rightarrow>
             (case wd_output (wi_workflow (ac_workflow input)) of
                None \<Rightarrow> Inr v
              | Some schema \<Rightarrow>
                  decodeWorkflowUserSchemaValue schema v (''workflow output ['' @ ac_workflowName input @ '']'')))
      in case output of
           Inl error \<Rightarrow>
             await (reading rt_host) (\<lambda>host.
             await (failRunAndWakeParent (ac_deps input) (ac_runId input) (error_object host error)) (\<lambda>_. ret Terminal))
         | Inr v \<Rightarrow>
             await (completeRunAndWakeParent (ac_deps input) (ac_runId input) v) (\<lambda>_. ret Terminal))"

definition dispatchNode :: "'ctx advance \<Rightarrow> 'ctx AdvanceCtx \<Rightarrow> 'ctx WorkflowNodeImplementation \<Rightarrow> AdvanceOutcome op" where
  "dispatchNode advance input nextNode =
     (case nextNode of
        RunnableImpl node \<Rightarrow>
          (case rnn_kind node of
             TaskRun \<Rightarrow> dispatchTaskNode advance input node
           | WorkflowRun \<Rightarrow> dispatchWorkflowNode advance input node)
      | BranchImpl node \<Rightarrow> dispatchBranchNode advance input node
      | ParallelImpl node \<Rightarrow> dispatchParallelNode advance input node
      | MapImpl node \<Rightarrow>
          (case mapn_kind node of
             TaskRun \<Rightarrow> dispatchMapTaskNode advance input node
           | WorkflowRun \<Rightarrow> dispatchMapWorkflowNode advance input node)
      | ActivityImpl node \<Rightarrow> dispatchActivityNode input node)"

definition pending :: "'ctx AdvanceCtx \<Rightarrow> 'ctx WorkflowNodeImplementation list" where
  "pending input = filter (\<lambda>node. map_get (ac_outputs input) (impl_name node) = None) (wi_nodes (ac_workflow input))"

definition advance_step :: "'ctx advance \<Rightarrow> 'ctx advance" where
  "advance_step advance input =
     (case pending input of
        [] \<Rightarrow> finishWorkflowRun input
      | nextNode # _ \<Rightarrow>
          catch (dispatchNode advance input nextNode)
            (\<lambda>error. case error of
               WorkflowUserCallbackError e \<Rightarrow>
                 await (failNodeAndRun (ac_deps input) (ac_runId input) (impl_name nextNode) e) (\<lambda>_. ret Terminal)
             | _ \<Rightarrow> raise error))"

text \<open>
  Every recursive call adds an output, so a pass is at most one deeper than the nodes that have
  none; the first argument bounds the depth and starts there.
\<close>

primrec advance_upto :: "nat \<Rightarrow> 'ctx advance" where
  "advance_upto 0 = (\<lambda>input. raise (Thrown (new_Error ''Maximum depth exceeded'')))"
| "advance_upto (Suc depth) = advance_step (advance_upto depth)"

definition advanceWorkflowRun :: "'ctx advance" where
  "advanceWorkflowRun input = advance_upto (Suc (length (pending input))) input"

end
