(* ===== verification/Continuation.thy ===== *)
theory Continuation
  imports Advance
begin

text \<open>
  One coordination of a run: \<open>continueWorkflowRun\<close> of \<open>runtime/coordinator/continuation.ts\<close> and the
  lookup of \<open>runtime/registry.ts\<close> it starts with. The timer of \<open>runWithRunLeaseRenewal\<close> only
  repeats the renewal that every write of the fenced store makes first; like the steps of other
  programs it may come between any two steps and is not part of the program. Building the
  dependency context of a workflow is a parameter.
\<close>

section \<open>The registry\<close>

primrec createWorkflowMap_from ::
  "(string \<times> 'ctx WorkflowImplementation) list \<Rightarrow> 'ctx WorkflowImplementation list
     \<Rightarrow> (string \<times> 'ctx WorkflowImplementation) list res" where
  "createWorkflowMap_from m [] = Inr m"
| "createWorkflowMap_from m (workflow # rest) =
     (let name = wd_name (wi_workflow workflow) in
      if map_get m name \<noteq> None
      then Inl (Thrown (new_Error (''Duplicate workflow implementation ['' @ name @ '']'')))
      else createWorkflowMap_from (map_set name workflow m) rest)"

definition createWorkflowMap ::
  "'ctx WorkflowImplementation list \<Rightarrow> (string \<times> 'ctx WorkflowImplementation) list res" where
  "createWorkflowMap workflows = createWorkflowMap_from [] workflows"

section \<open>Continuing a run\<close>

datatype ContinueWorkflowRunResult = Processed | Busy | Ignored

text \<open>\<open>try { m } finally { cleanup }\<close>: an error of the cleanup replaces the result.\<close>

definition finally_do :: "'a op \<Rightarrow> unit op \<Rightarrow> 'a op" where
  "finally_do m cleanup s =
     (case m s of (r, s1) \<Rightarrow> (case cleanup s1 of (Inl e, s2) \<Rightarrow> (Inl e, s2) | (Inr _, s2) \<Rightarrow> (r, s2)))"

text \<open>\<open>Object.fromEntries\<close> of the completed nodes.\<close>

definition completed_outputs :: "StoredNode list \<Rightarrow> outputs" where
  "completed_outputs loaded =
     fold (\<lambda>node m. map_set (node_name node) (or_undefined (node_output node)) m)
       (filter (\<lambda>node. node_status node = NCompleted) loaded) []"

text \<open>The handler that runs under the lease, on the fenced store.\<close>

definition continueLeasedRun ::
  "RuntimeDeps \<Rightarrow> ('ctx WorkflowImplementation \<Rightarrow> thrown + 'ctx) \<Rightarrow> 'ctx WorkflowImplementation \<Rightarrow> ContinueRunCommand
     \<Rightarrow> ContinueWorkflowRunResult op" where
  "continueLeasedRun deps createContext implementation command =
     await (st_loadRunSnapshot (store deps) (cont_runId command)) (\<lambda>found.
     case found of
       None \<Rightarrow> ret Ignored
     | Some snapshot \<Rightarrow>
         (let run = snap_run snapshot in
          if run_workflowName run \<noteq> cont_workflowName command then ret Ignored
          else if run_status run = RCancelling then
            await (cancelRunAndWakeParent deps (run_id run)) (\<lambda>_. ret Processed)
          else if isTerminalRunStatus (run_status run) then
            await (wakeParentRun deps (Some run)) (\<lambda>_. ret Processed)
          else case find (\<lambda>node. node_status node = NFailed) (snap_nodes snapshot) of
            Some failedNode \<Rightarrow>
              await (cancelFailedFanInNodeChildren deps implementation (run_id run) failedNode) (\<lambda>_.
              await (failRunAndWakeParent deps (run_id run)
                       (error_or (node_error failedNode) (''Workflow node ['' @ node_name failedNode @ ''] failed''))) (\<lambda>_.
              ret Processed))
          | None \<Rightarrow>
              if list_ex (\<lambda>node. node_status node = NCancelled) (snap_nodes snapshot) then
                await (cancelRunAndWakeParent deps (run_id run)) (\<lambda>_. ret Processed)
              else
                await (sync (createContext implementation)) (\<lambda>workflowCtx.
                await (st_markRunRunning (store deps) (run_id run)) (\<lambda>_.
                await (advanceWorkflowRun
                         \<lparr>ac_deps = deps, ac_workflow = implementation, ac_workflowCtx = workflowCtx, ac_run = run,
                          ac_outputs = completed_outputs (snap_nodes snapshot)\<rparr>) (\<lambda>outcome.
                await (if outcome = Parked
                       then await (st_markRunWaiting (store deps) (run_id run)) (\<lambda>_. ret ())
                       else ret ()) (\<lambda>_.
                ret Processed))))))"

definition fenced :: "RuntimeDeps \<Rightarrow> RunLease \<Rightarrow> int \<Rightarrow> RuntimeDeps" where
  "fenced deps lease leaseMs = deps\<lparr>store := createRunLeaseFencedStore (store deps) lease leaseMs\<rparr>"

text \<open>A stale lease means that someone else continues the run; the lease is released in any case.\<close>

definition continue_guarded ::
  "RuntimeDeps \<Rightarrow> RunLease \<Rightarrow> ContinueWorkflowRunResult op \<Rightarrow> ContinueWorkflowRunResult op" where
  "continue_guarded deps lease handler =
     finally_do
       (catch handler (\<lambda>error. if error = StaleRunLeaseError then ret Busy else raise error))
       (st_releaseRunLease (store deps) lease)"

definition continueWorkflowRun ::
  "RuntimeDeps \<Rightarrow> ('ctx WorkflowImplementation \<Rightarrow> thrown + 'ctx) \<Rightarrow> 'ctx WorkflowImplementation list \<Rightarrow> ContinueRunCommand
     \<Rightarrow> int option \<Rightarrow> ContinueWorkflowRunResult op" where
  "continueWorkflowRun deps createContext workflows command opt_leaseMs =
     await (pureRes (createWorkflowMap workflows)) (\<lambda>registry.
     case map_get registry (cont_workflowName command) of
       None \<Rightarrow> ret Ignored
     | Some implementation \<Rightarrow>
         (let leaseMs = (case opt_leaseMs of None \<Rightarrow> 30000 | Some ms \<Rightarrow> ms) in
          await (st_acquireRunLease (store deps) (cont_runId command) leaseMs) (\<lambda>acquired.
          case acquired of
            None \<Rightarrow> ret Busy
          | Some lease \<Rightarrow>
              continue_guarded deps lease
                (continueLeasedRun (fenced deps lease leaseMs) createContext implementation command))))"

end
