(* ===== verification/SampleWorkflow.thy ===== *)
theory SampleWorkflow
  imports Continuation Samples
begin

text \<open>
  A concrete workflow with one activity, the run of \<open>one_run\<close> being a run of it: the witnesses of
  the properties of the interpreter and of the workers evaluate on it.
\<close>

definition any_schema :: Schema where
  "any_schema v = Inr v"

definition order_definition :: WorkflowDefinition where
  "order_definition =
     \<lparr>wd_name = ''order'', wd_input = any_schema, wd_output = Some any_schema,
      wd_nodes = [WorkflowActivityNode ''charge'' any_schema any_schema None],
      wd_timeout = Some ''1m'', wd_tags = NoTags, wd_idempotency = NoIdempotency, wd_unique = NoUnique\<rparr>"

definition charge_node :: "unit ActivityNodeImplementation" where
  "charge_node = \<lparr>act_name = ''charge'', act_activity = ''charge'', act_handler = (\<lambda>ctx v. Inr v), act_retry = None, act_input = None,
     act_idempotency = NoIdempotency\<rparr>"

definition order_implementation :: "unit WorkflowImplementation" where
  "order_implementation =
     \<lparr>wi_workflow = order_definition, wi_nodes = [ActivityImpl charge_node], wi_finish = (\<lambda>(ctx, outputs, v). Inr v)\<rparr>"

definition continue_order :: ContinueRunCommand where
  "continue_order = \<lparr>cont_runId = ''run-1'', cont_workflowName = ''order''\<rparr>"

definition unit_context :: "unit WorkflowImplementation \<Rightarrow> thrown + unit" where
  "unit_context w = Inr ()"

end
