(* ===== verification/AdvanceSteps.thy ===== *)
theory AdvanceSteps
  imports CoordinatorSteps SampleWorkflow
begin

text \<open>
  The interpreter and the continuation of runs take steps of the runtime. \<open>pass R m\<close> says that
  of a program \<open>m\<close> that may rely on the runs in \<open>R\<close> having been issued; there is one rule per
  construct and one lemma per dispatch function.
\<close>

section \<open>Programs that know some runs\<close>

definition pass :: "string set \<Rightarrow> 'a op \<Rightarrow> bool" where
  "pass R m \<longleftrightarrow> works (\<lambda>s. \<forall>i \<in> R. known_run s i) m anything"

named_theorems pass_intros \<open>one rule per construct and program\<close>

lemma stable_all_known: "stable (\<lambda>s. \<forall>i \<in> R. known_run s i)"
  using stable_known unfolding stable_def by blast

lemma pass_anywhere: "works any m Q \<Longrightarrow> pass R m"
  unfolding pass_def by (rule anywhere)

lemma pass_known: "works (\<lambda>s. known_run s i) m anything \<Longrightarrow> i \<in> R \<Longrightarrow> pass R m"
  unfolding pass_def by (erule works_mono) auto

lemma pass_mono: "pass R m \<Longrightarrow> R \<subseteq> R' \<Longrightarrow> pass R' m"
  unfolding pass_def by (erule works_mono) auto

lemma pass_await [pass_intros]: "pass R m \<Longrightarrow> (\<And>x. pass R (k x)) \<Longrightarrow> pass R (await m k)"
  unfolding pass_def by (rule works_then[OF _ stable_all_known])

lemma pass_learn:
  assumes "works P m (\<lambda>x s. learnt x \<and> (\<forall>i \<in> new x. known_run s i))" and "\<And>s. \<forall>i \<in> R. known_run s i \<Longrightarrow> P s"
    and "\<And>x. learnt x \<Longrightarrow> pass (new x \<union> R) (k x)"
  shows "pass R (await m k)"
  unfolding pass_def
proof (rule works_await[OF _ stable_all_known])
  show "works (\<lambda>s. \<forall>i \<in> R. known_run s i) m (\<lambda>x s. learnt x \<and> (\<forall>i \<in> new x. known_run s i))"
    by (rule works_mono[OF assms(1)]) (use assms(2) in auto)
  show "works (\<lambda>s. (\<forall>i \<in> R. known_run s i) \<and> learnt x \<and> (\<forall>i \<in> new x. known_run s i)) (k x) anything" for x
  proof (cases "learnt x")
    case True
    show ?thesis by (rule works_mono[OF assms(3)[OF True, unfolded pass_def]]) auto
  qed (simp add: works_def)
qed

lemma pass_plain [pass_intros]:
  "pass R (ret x)" "pass R (raise e)" "pass R (pureRes r)" "pass R (sync t)" "pass R (reading f)"
  "pass R (not_a n what)" "pass R no_child"
  unfolding pass_def not_a_def no_child_def by (auto intro: works_ret works_raise works_pureRes works_sync works_reading)

lemma pass_catch [pass_intros]: "pass R m \<Longrightarrow> (\<And>e. pass R (h e)) \<Longrightarrow> pass R (catch m h)"
  unfolding pass_def by (rule works_catch[OF _ stable_all_known])

lemma pass_loop [pass_intros]:
  assumes "\<And>m acc. m \<in> set ms \<Longrightarrow> pass R (body m acc)"
  shows "pass R (loop_until body ms acc)"
  using assms
  by (induction ms arbitrary: acc) (auto intro!: pass_intros split: option.split)

lemma fold_index_get:
  assumes "map_get (fold (\<lambda>x m. map_set (key x) x m) xs m) i = Some x"
  shows "(x \<in> set xs \<and> key x = i) \<or> map_get m i = Some x"
  using assms
proof (induction xs arbitrary: m)
  case (Cons a xs)
  then show ?case using Cons.IH[of "map_set (key a) a m"] by (auto split: if_splits)
qed simp

lemma index_by_get: "map_get (index_by key xs) i = Some x \<Longrightarrow> x \<in> set xs \<and> key x = i"
  unfolding index_by_def using fold_index_get by fastforce

text \<open>What the builders assert of an implementation: valid node names, distinct member keys.\<close>

definition node_ok :: "'ctx WorkflowNodeImplementation \<Rightarrow> bool" where
  "node_ok node \<longleftrightarrow> nodeNamePattern (impl_name node)
     \<and> (case node of ParallelImpl p \<Rightarrow> distinct (map fst (par_cases p)) | _ \<Rightarrow> True)"

definition implementation_ok :: "'ctx WorkflowImplementation \<Rightarrow> bool" where
  "implementation_ok implementation \<longleftrightarrow> (\<forall>node \<in> set (wi_nodes implementation). node_ok node)"

context coordination
begin

lemma ops_pass [pass_intros]:
  "pass R (st_setNodeInput (store deps) r n v)" "pass R (st_selectNodeCase (store deps) r n c)"
  "pass R (st_completeNodeChild (store deps) r n c v)" "pass R (st_failNodeChild (store deps) r n c e)"
  "pass R (st_completeNode (store deps) r n v)" "pass R (st_waitNode (store deps) r n)"
  "pass R (st_loadNodeChildren (store deps) r n)" "pass R (st_ensureChildAttempt (store deps) i)"
  "pass R (st_markRunRunning (store deps) r)" "pass R (st_markRunWaiting (store deps) r)"
  "pass R (rce_enqueue (runCoordinationExecutor deps) cmd)"
  by (rule pass_anywhere, rule store_works)+

lemma sinks_pass [pass_intros]:
  "pass R (completeRunAndWakeParent deps r v)" "pass R (failRunAndWakeParent deps r e)"
  "pass R (cancelRunAndWakeParent deps r)" "pass R (failNodeAndRun deps r n e)"
  "pass R (cancelNodeAndRun deps r n)" "pass R (failMissingChildRun deps r n k c)"
  "pass R (cancelNodeChildRunsAndCommands deps r n)" "pass R (wakeParentRun deps run)"
  "pass R (cancelFailedFanInNodeChildren deps workflow r node)"
  by (rule pass_anywhere; rule sinks_work cancelNodeChildRunsAndCommands_works wakeParentRun_works
        cancelFailedFanInNodeChildren_works)+

lemma rows_pass [pass_intros]:
  "nodeNamePattern n \<Longrightarrow> r \<in> R \<Longrightarrow> pass R (st_createNode (store deps) r n kind)"
  "distinct (map ec_childKey cs) \<Longrightarrow> r \<in> R \<Longrightarrow> pass R (st_ensureNodeChildren (store deps) r n cs)"
  "r \<in> R \<Longrightarrow> pass R (dispatchTaskRunAttempt deps t r v key timeout at' b)"
  by (rule pass_known[OF works_createNode], simp_all)
     (rule pass_known[OF works_ensureNodeChildren] pass_known[OF dispatchTaskRunAttempt_works]; simp)+

lemma pass_dispatchActivity [pass_intros]:
  "works any prepare anything \<Longrightarrow> pass R (dispatchActivityAttempt deps w a r n c b prepare)"
  by (rule pass_anywhere[OF dispatch_works(1)])

lemma prepare_works: "ac_deps input = deps \<Longrightarrow> works any (prepareChildAttempt input n key v idem) anything"
  unfolding prepareChildAttempt_def
  by (intro works_seq works_case_prod works_stop) (simp_all add: works_pureRes works_ensureChildAttempt)

lemma pass_ensureChildRun [pass_intros]:
  assumes "ecr_runId p \<in> R" and "\<And>x. pass (insert (run_id (ecres_childRun x)) R) (k x)"
  shows "pass R (await (st_ensureChildRun (store deps) p) k)"
proof (rule pass_learn)
  show "works (\<lambda>s. known_run s (ecr_runId p)) (st_ensureChildRun (store deps) p)
      (\<lambda>x s. True \<and> (\<forall>i \<in> {run_id (ecres_childRun x)}. known_run s i))"
    using works_ensureChildRun by simp
qed (use assms in auto)

lemma pass_loadRuns [pass_intros]:
  assumes "\<And>found. \<forall>run \<in> set found. run_id run \<in> set rs \<Longrightarrow> pass (run_id ` set found \<union> R) (k found)"
  shows "pass R (await (st_loadRuns (store deps) rs) k)"
proof (rule pass_learn)
  show "works any (st_loadRuns (store deps) rs)
      (\<lambda>found s. (\<forall>run \<in> set found. run_id run \<in> set rs) \<and> (\<forall>i \<in> run_id ` set found. known_run s i))"
    by (rule works_mono[OF works_loadRuns]) auto
qed (use assms in auto)

section \<open>Dispatching\<close>

lemma settledChildRun_pass:
  assumes "ac_deps input = deps" and "\<And>v. pass R (advance (with_output input n v))"
  shows "pass R (settledChildRun advance input n key run message)"
  using assms(2) unfolding settledChildRun_def assms(1) Let_def by (auto intro!: pass_intros)

lemma dispatchChildTaskRun_pass:
  assumes "ac_deps input = deps" and "ac_runId input \<in> R" and "\<And>v R'. R \<subseteq> R' \<Longrightarrow> pass R' (advance (with_output input n v))"
  shows "pass R (dispatchChildTaskRun advance input parent n key name timeout schema label resolved idem)"
  unfolding dispatchChildTaskRun_def assms(1)
  using assms(2) by (auto intro!: pass_intros settledChildRun_pass[OF assms(1)] assms(3) simp: new_child_run_def
      split: option.split list.split)

lemma dispatchChildWorkflow_pass:
  assumes "ac_deps input = deps" and "ac_runId input \<in> R" and "\<And>v R'. R \<subseteq> R' \<Longrightarrow> pass R' (advance (with_output input n v))"
  shows "pass R (dispatchChildWorkflow advance input n key name schema label resolved idem)"
  unfolding dispatchChildWorkflow_def assms(1)
  using assms(2) by (auto intro!: pass_intros settledChildRun_pass[OF assms(1)] assms(3) simp: new_child_run_def
      split: option.split list.split)

lemma dispatchActivityNode_pass:
  assumes "ac_deps input = deps" and "ac_runId input \<in> R" and "nodeNamePattern (act_name node)"
  shows "pass R (dispatchActivityNode input node)"
  unfolding dispatchActivityNode_def assms(1)
  using assms(2,3) by (auto intro!: pass_intros prepare_works[OF assms(1)] simp: node_child_def
      split: WorkflowNode.split list.split)

lemma dispatchTaskNode_pass:
  assumes "ac_deps input = deps" and "ac_runId input \<in> R" and "nodeNamePattern (rnn_name node)"
    and "\<And>v R'. R \<subseteq> R' \<Longrightarrow> pass R' (advance (with_output input (rnn_name node) v))"
  shows "pass R (dispatchTaskNode advance input node)" and "pass R (dispatchWorkflowNode advance input node)"
  unfolding dispatchTaskNode_def dispatchWorkflowNode_def assms(1)
  using assms(2,3) by (auto intro!: pass_intros dispatchChildTaskRun_pass[OF assms(1)] dispatchChildWorkflow_pass[OF assms(1)]
      assms(4) simp: node_child_def split: WorkflowNode.split)

lemma dispatchBranchCase_pass:
  assumes "ac_deps input = deps" and "ac_runId input \<in> R" and "\<And>v R'. R \<subseteq> R' \<Longrightarrow> pass R' (advance (with_output input n v))"
  shows "pass R (dispatchBranchCase advance input existing n key selected declared child)"
  unfolding dispatchBranchCase_def assms(1) Let_def
  using assms(2) by (auto intro!: pass_intros prepare_works assms(1) dispatchChildTaskRun_pass[OF assms(1)]
      dispatchChildWorkflow_pass[OF assms(1)] assms(3) split: WorkflowCaseImplementation.split BranchCaseDefinition.split)

lemma dispatchBranchNode_pass:
  assumes "ac_deps input = deps" and "ac_runId input \<in> R" and "nodeNamePattern (br_name node)"
    and "\<And>v R'. R \<subseteq> R' \<Longrightarrow> pass R' (advance (with_output input (br_name node) v))"
  shows "pass R (dispatchBranchNode advance input node)"
proof -
  have "pass R (advanceBranchChild advance input existing (br_name node) key selected declared child)" for existing key selected declared child
    unfolding advanceBranchChild_def assms(1) Let_def
    by (auto intro!: pass_intros assms(4) dispatchBranchCase_pass[OF assms(1,2)])
  then have "pass R (dispatchSelectedCase advance input node existing key)" for existing key
    unfolding dispatchSelectedCase_def assms(1)
    using assms(2) by (auto intro!: pass_intros simp: node_child_def split: option.split WorkflowNode.split list.split)
  then show ?thesis
    unfolding dispatchBranchNode_def assms(1)
    using assms(2,3) by (auto intro!: pass_intros split: option.split sum.split)
qed

lemma parallelMember_pass:
  assumes "ac_deps input = deps" and "ac_runId input \<in> R" and "\<And>i run. map_get found i = Some run \<Longrightarrow> run_id run \<in> R"
  shows "pass R (parallelMember input n cases byKey found entry acc)"
proof -
  have "pass R (redispatchParallelChildRun input n r key run)" if "run_id run \<in> R" for r key run
    unfolding redispatchParallelChildRun_def assms(1) using that by (auto intro!: pass_intros split: WorkflowNode.split)
  then have "pass R (parallelChildRun input n key r child i (map_get found i) acc)" for key r child i
    unfolding parallelChildRun_def failMember_def assms(1) Let_def
    using assms(3) by (auto intro!: pass_intros split: option.split)
  moreover have "pass R (startParallelChildRun input n key r declared)" for key r declared
    unfolding startParallelChildRun_def assms(1)
    using assms(2) by (auto intro!: pass_intros simp: new_child_run_def)
  moreover have "pass R (dispatchParallelActivity input n key a schema child)" for key a schema child
    unfolding dispatchParallelActivity_def assms(1) Let_def by (auto intro!: pass_intros prepare_works assms(1))
  ultimately show ?thesis
    unfolding parallelMember_def assms(1) Let_def
    by (auto intro!: pass_intros split: option.split WorkflowCaseImplementation.split BranchCaseDefinition.split prod.split)
qed

lemma dispatchParallelNode_pass:
  assumes "ac_deps input = deps" and "ac_runId input \<in> R" and "nodeNamePattern (par_name node)" and "distinct (map fst (par_cases node))"
    and "\<And>v R'. R \<subseteq> R' \<Longrightarrow> pass R' (advance (with_output input (par_name node) v))"
  shows "pass R (dispatchParallelNode advance input node)"
proof -
  have "map ec_childKey (map (\<lambda>(key, member). node_child (memberChildKey key) (case_child_kind member)) (par_cases node))
      = map memberChildKey (map fst (par_cases node))"
    by (simp add: node_child_def case_prod_beta)
  then have "distinct (map ec_childKey (map (\<lambda>(key, member). node_child (memberChildKey key) (case_child_kind member)) (par_cases node)))"
    using assms(4) by (simp only: distinct_map[of memberChildKey]) (simp add: inj_on_def memberChildKey_def)
  moreover have "pass R' (completeParallel advance input node outputs local)" if "R \<subseteq> R'" for outputs local R'
    unfolding completeParallel_def assms(1) using that by (auto intro!: pass_intros assms(5))
  moreover have "pass (run_id ` set found \<union> R) (parallelMember input (par_name node) cases byKey (index_by run_id found) entry acc)"
    for found cases byKey entry acc
    using assms(1,2) by (intro parallelMember_pass) (auto dest: index_by_get)
  ultimately show ?thesis
    unfolding dispatchParallelNode_def assms(1)
    using assms(2,3) by (auto intro!: pass_intros split: WorkflowNode.split list.split option.split)
qed

text \<open>The callbacks of a map node: they may be used on known runs.\<close>

lemma dispatchMapRunNode_pass:
  assumes "ac_deps input = deps" and "ac_runId input \<in> R" and "nodeNamePattern (mapn_name node)"
    and "\<And>v R'. R \<subseteq> R' \<Longrightarrow> pass R' (advance (with_output input (mapn_name node) v))"
    and again: "\<And>d run R'. run_id run \<in> R' \<Longrightarrow> pass R' (mrc_redispatchActiveChild callbacks d run)"
    and start: "\<And>d child v key R'. R \<subseteq> R' \<Longrightarrow> pass R' (mrc_startChild callbacks d child v key)"
  shows "pass R (dispatchMapRunNode advance input node callbacks)"
proof -
  have keys: "distinct (map ec_childKey (map (item_input kind) (enumerate 0 items)))" for kind items
  proof -
    have "map ec_childKey (map (item_input kind) xs) = map itemChildKey (map fst xs)" for xs
      by (simp add: item_input_def)
    then show ?thesis by (simp only: map_fst_enumerate distinct_map[of itemChildKey]) (simp add: inj_on_def itemChildKey_def)
  qed
  have rows: "pass R (mapChildren input node callbacks d existing)" for d existing
    unfolding mapChildren_def assms(1) using keys assms(2) by (auto intro!: pass_intros)
  have child: "pass R' (mapChild input node callbacks d byId limit child acc)"
    if "R \<subseteq> R'" "\<And>i run. map_get byId i = Some run \<Longrightarrow> run_id run \<in> R'" for d byId limit child acc R'
    unfolding mapChild_def mapChildRun_def startMapChild_def assms(1) Let_def
    using that by (auto intro!: pass_intros again start split: option.split)
  have indexed: "pass (run_id ` set found \<union> R) (mapChild input node callbacks d (index_by run_id found) limit child acc)"
    for d found limit child acc
    by (rule child) (auto dest: index_by_get)
  have "pass R' (completeMap advance input node count progress)" if "R \<subseteq> R'" for count progress R'
    unfolding completeMap_def assms(1) Let_def using that by (auto intro!: pass_intros assms(4))
  with rows indexed show ?thesis
    unfolding dispatchMapRunNode_def assms(1)
    using assms(2,3) by (auto intro!: pass_intros split: option.split)
qed

lemma dispatchMapNode_pass:
  assumes "ac_deps input = deps" and "ac_runId input \<in> R" and "nodeNamePattern (mapn_name node)"
    and "\<And>v R'. R \<subseteq> R' \<Longrightarrow> pass R' (advance (with_output input (mapn_name node) v))"
  shows "pass R (dispatchMapTaskNode advance input node)" and "pass R (dispatchMapWorkflowNode advance input node)"
  unfolding dispatchMapTaskNode_def dispatchMapWorkflowNode_def
  using assms(2)
  by (auto intro!: dispatchMapRunNode_pass[OF assms(1,2,3)] assms(4) pass_intros simp: assms(1) new_child_run_def subset_iff)

section \<open>A pass and a continuation\<close>

lemma dispatchNode_pass:
  assumes "ac_deps input = deps" and "ac_runId input \<in> R" and "node_ok node"
    and "\<And>v R'. R \<subseteq> R' \<Longrightarrow> pass R' (advance (with_output input (impl_name node) v))"
  shows "pass R (dispatchNode advance input node)"
  using assms(3,4) unfolding dispatchNode_def node_ok_def
  by (auto intro!: dispatchActivityNode_pass[OF assms(1,2)] dispatchTaskNode_pass[OF assms(1,2)] dispatchBranchNode_pass[OF assms(1,2)]
      dispatchParallelNode_pass[OF assms(1,2)] dispatchMapNode_pass[OF assms(1,2)]
      split: WorkflowNodeImplementation.split RunKind.split)

lemma advance_upto_pass:
  assumes "ac_deps input = deps" and "implementation_ok (ac_workflow input)" and "ac_runId input \<in> R"
  shows "pass R (advance_upto n input)"
  using assms
proof (induction n arbitrary: input R)
  case 0
  then show ?case by (auto intro: pass_intros)
next
  case (Suc n)
  have "pass R' (advance_upto n (with_output input name v))" if "R \<subseteq> R'" for name v R'
    using Suc.prems that by (intro Suc.IH) (auto simp: with_output_def)
  moreover have "node_ok node" if "pending input = node # rest" for node rest
  proof -
    have "node \<in> set (pending input)" using that by simp
    then show ?thesis using Suc.prems(2) by (simp add: pending_def implementation_ok_def)
  qed
  ultimately show ?case
    using Suc.prems(1,3) unfolding advance_upto.simps advance_step_def finishWorkflowRun_def Let_def Suc.prems(1)
    by (auto intro!: pass_intros dispatchNode_pass[OF Suc.prems(1,3)] split: list.split sum.split option.split wf_error.split)
qed

lemma advanceWorkflowRun_pass:
  "ac_deps input = deps \<Longrightarrow> implementation_ok (ac_workflow input) \<Longrightarrow> ac_runId input \<in> R \<Longrightarrow> pass R (advanceWorkflowRun input)"
  unfolding advanceWorkflowRun_def by (rule advance_upto_pass)

lemma continueLeasedRun_pass:
  assumes "implementation_ok implementation"
  shows "pass {} (continueLeasedRun deps createContext implementation command)"
proof -
  have load: "pass {} (await (st_loadRunSnapshot (store deps) r) k)"
    if "\<And>found. \<forall>snapshot. found = Some snapshot \<longrightarrow> run_id (snap_run snapshot) = r \<Longrightarrow>
      pass (case found of None \<Rightarrow> {} | Some snapshot \<Rightarrow> {run_id (snap_run snapshot)}) (k found)" for r k
  proof (rule pass_learn)
    show "works any (st_loadRunSnapshot (store deps) r)
      (\<lambda>found s. (\<forall>snapshot. found = Some snapshot \<longrightarrow> run_id (snap_run snapshot) = r)
        \<and> (\<forall>i \<in> (case found of None \<Rightarrow> {} | Some snapshot \<Rightarrow> {run_id (snap_run snapshot)}). known_run s i))"
      by (rule works_mono[OF works_loadRunSnapshot]) (auto split: option.splits)
  qed (use that in auto)
  show ?thesis
    unfolding continueLeasedRun_def
    by (rule load) (auto intro!: pass_intros advanceWorkflowRun_pass assms simp: Let_def split: option.split)
qed

end

lemma pass_steps: "pass {} m \<Longrightarrow> reachable s \<Longrightarrow> work_step\<^sup>*\<^sup>* s (snd (m s))"
  unfolding pass_def by (rule works_steps) simp_all

lemma fenced_in_memory: "fenced in_memory_deps lease ms = fenced_deps lease ms"
  by (simp add: fenced_def fenced_deps_def in_memory_deps_def)

lemma createWorkflowMap_from_values:
  assumes "createWorkflowMap_from m ws = Inr m'" and "map_get m' i = Some w"
  shows "w \<in> set ws \<or> map_get m i = Some w"
  using assms
proof (induction ws arbitrary: m)
  case (Cons a ws)
  then show ?case using Cons.IH[of "map_set (wd_name (wi_workflow a)) a m"] by (auto simp: Let_def split: if_splits)
qed simp

lemma pure_await: "await (pureRes (Inl e)) k = raise e" "await (pureRes (Inr x)) k = k x"
  by (simp_all add: effect_defs fun_eq_iff)

lemma continue_guarded_works:
  assumes "pass {} handler"
  shows "works any (continue_guarded in_memory_deps lease handler) anything"
proof (rule worksI)
  fix s assume s: "reachable s"
  let ?m = "catch handler (\<lambda>error. if error = StaleRunLeaseError then ret Busy else raise error)"
  have "pass {} ?m" using assms by (auto intro!: pass_intros)
  from pass_steps[OF this s] have "work_step\<^sup>*\<^sup>* s (snd (?m s))" .
  moreover have "work_step (snd (?m s)) (releaseRunLease lease (snd (?m s)))" by (rule release_lease)
  ultimately show "work_step\<^sup>*\<^sup>* s (snd (continue_guarded in_memory_deps lease handler s))"
    by (auto simp: continue_guarded_def finally_do_def in_memory_deps_def in_memory_store_def doing_def split: prod.splits
        intro: rtranclp.rtrancl_into_rtrancl)
qed simp

lemma continueWorkflowRun_works:
  assumes "\<forall>w \<in> set workflows. implementation_ok w"
  shows "works any (continueWorkflowRun in_memory_deps createContext workflows command leaseMs) anything"
proof -
  have lease: "works any (st_acquireRunLease (store in_memory_deps) r ms) anything" for r ms
    unfolding in_memory_deps_def in_memory_store_def record_fields by (rule works_total) (auto intro: acquire_lease)
  have "implementation_ok w" if "createWorkflowMap workflows = Inr m" "map_get m i = Some w" for m i w
    using createWorkflowMap_from_values[OF that[unfolded createWorkflowMap_def]] assms by auto
  then show ?thesis
    unfolding continueWorkflowRun_def Let_def fenced_in_memory
    by (cases "createWorkflowMap workflows")
       (auto intro!: works_seq works_stop lease continue_guarded_works fenced.continueLeasedRun_pass simp: pure_await split: option.split)
qed

lemma order_implementation_ok: "implementation_ok order_implementation"
  by (simp add: implementation_ok_def node_ok_def order_implementation_def charge_node_def charge_name)

end
