(* ===== verification/AdvanceTermination.thy ===== *)
theory AdvanceTermination
  imports Advance
begin

text \<open>
  A pass of the interpreter ends: a dispatch function only calls the interpreter after it gave
  its node an output, so the depth that \<open>advanceWorkflowRun\<close> starts with is never used up and the
  function satisfies the recursive equation of \<open>advance.ts\<close>.
\<close>

section \<open>What a dispatch function calls\<close>

lemma settledChildRun_calls:
  assumes "\<And>v. f (with_output input n v) = g (with_output input n v)"
  shows "settledChildRun f input n key run message = settledChildRun g input n key run message"
  unfolding settledChildRun_def Let_def assms ..

lemma dispatchChildTaskRun_calls:
  assumes "\<And>v. f (with_output input n v) = g (with_output input n v)"
  shows "dispatchChildTaskRun f input parent n key name timeout schema label resolved idem
      = dispatchChildTaskRun g input parent n key name timeout schema label resolved idem"
  unfolding dispatchChildTaskRun_def settledChildRun_calls[of f input n g, OF assms] ..

lemma dispatchChildWorkflow_calls:
  assumes "\<And>v. f (with_output input n v) = g (with_output input n v)"
  shows "dispatchChildWorkflow f input n key name schema label resolved idem
      = dispatchChildWorkflow g input n key name schema label resolved idem"
  unfolding dispatchChildWorkflow_def settledChildRun_calls[of f input n g, OF assms] ..

lemma dispatchTaskNode_calls:
  assumes "\<And>v. f (with_output input (rnn_name node) v) = g (with_output input (rnn_name node) v)"
  shows "dispatchTaskNode f input node = dispatchTaskNode g input node"
  unfolding dispatchTaskNode_def dispatchChildTaskRun_calls[of f input "rnn_name node" g, OF assms] ..

lemma dispatchWorkflowNode_calls:
  assumes "\<And>v. f (with_output input (rnn_name node) v) = g (with_output input (rnn_name node) v)"
  shows "dispatchWorkflowNode f input node = dispatchWorkflowNode g input node"
  unfolding dispatchWorkflowNode_def dispatchChildWorkflow_calls[of f input "rnn_name node" g, OF assms] ..

lemma dispatchBranchNode_calls:
  assumes "\<And>v. f (with_output input (br_name node) v) = g (with_output input (br_name node) v)"
  shows "dispatchBranchNode f input node = dispatchBranchNode g input node"
  unfolding dispatchBranchNode_def dispatchSelectedCase_def advanceBranchChild_def dispatchBranchCase_def Let_def assms
    dispatchChildTaskRun_calls[of f input "br_name node" g, OF assms] dispatchChildWorkflow_calls[of f input "br_name node" g, OF assms] ..

lemma dispatchParallelNode_calls:
  assumes "\<And>v. f (with_output input (par_name node) v) = g (with_output input (par_name node) v)"
  shows "dispatchParallelNode f input node = dispatchParallelNode g input node"
  unfolding dispatchParallelNode_def completeParallel_def Let_def assms ..

lemma dispatchMapRunNode_calls:
  assumes "\<And>v. f (with_output input (mapn_name node) v) = g (with_output input (mapn_name node) v)"
  shows "dispatchMapRunNode f input node callbacks = dispatchMapRunNode g input node callbacks"
  unfolding dispatchMapRunNode_def completeMap_def Let_def assms ..

lemma dispatchNode_calls:
  assumes "\<And>v. f (with_output input (impl_name node) v) = g (with_output input (impl_name node) v)"
  shows "dispatchNode f input node = dispatchNode g input node"
proof (cases node)
  case (ParallelImpl p)
  then show ?thesis using assms dispatchParallelNode_calls[of f input p g] by (simp add: dispatchNode_def)
next
  case (RunnableImpl r)
  then show ?thesis
    using assms dispatchTaskNode_calls[of f input r g] dispatchWorkflowNode_calls[of f input r g]
    by (simp add: dispatchNode_def cong: RunKind.case_cong)
next
  case (MapImpl m)
  then show ?thesis
    using assms dispatchMapRunNode_calls[of f input m g]
    by (simp add: dispatchNode_def dispatchMapTaskNode_def dispatchMapWorkflowNode_def split: RunKind.split)
next
  case (BranchImpl b)
  then show ?thesis using assms dispatchBranchNode_calls[of f input b g] by (simp add: dispatchNode_def)
qed (simp add: dispatchNode_def)

lemma advance_step_calls:
  assumes "\<And>node v. node \<in> set (pending input) \<Longrightarrow> f (with_output input (impl_name node) v) = g (with_output input (impl_name node) v)"
  shows "advance_step f input = advance_step g input"
proof (cases "pending input")
  case (Cons node rest)
  then have "dispatchNode f input node = dispatchNode g input node" using assms by (intro dispatchNode_calls) simp
  with Cons show ?thesis by (simp add: advance_step_def)
qed (simp add: advance_step_def)

section \<open>The depth suffices\<close>

lemma pending_shrinks:
  assumes "node \<in> set (pending input)"
  shows "length (pending (with_output input (impl_name node) v)) < length (pending input)"
proof -
  have "pending (with_output input (impl_name node) v) = filter (\<lambda>n. impl_name n \<noteq> impl_name node) (pending input)"
    by (auto simp: pending_def with_output_def intro: filter_cong)
  then show ?thesis using assms by (simp add: length_filter_less)
qed

lemma advance_upto_enough:
  assumes "length (pending input) < m" and "length (pending input) < n"
  shows "advance_upto m input = advance_upto n input"
  using assms
proof (induction "length (pending input)" arbitrary: input m n rule: less_induct)
  case less
  from less.prems obtain m' n' where mn: "m = Suc m'" "n = Suc n'" by (cases m; cases n) simp_all
  have "advance_step (advance_upto m') input = advance_step (advance_upto n') input"
  proof (rule advance_step_calls)
    fix node v assume "node \<in> set (pending input)"
    from pending_shrinks[OF this] have shorter: "length (pending (with_output input (impl_name node) v)) < length (pending input)" .
    with less.prems show "advance_upto m' (with_output input (impl_name node) v) = advance_upto n' (with_output input (impl_name node) v)"
      unfolding mn by (intro less.hyps) simp_all
  qed
  then show ?case by (simp add: mn)
qed

text \<open>
  C31: a pass of the interpreter terminates, and what it computes is the function of the source:
  the depth-bounded definition satisfies the unbounded recursive equation of
  \<open>advanceWorkflowRun\<close> for every workflow, run and set of outputs, whatever the store answers.
\<close>

theorem advance_pass_terminates: "advanceWorkflowRun input = advance_step advanceWorkflowRun input"
proof -
  have "advance_step (advance_upto (length (pending input))) input = advance_step advanceWorkflowRun input"
  proof (rule advance_step_calls)
    fix node v assume "node \<in> set (pending input)"
    from pending_shrinks[OF this, of v]
    show "advance_upto (length (pending input)) (with_output input (impl_name node) v)
        = advanceWorkflowRun (with_output input (impl_name node) v)"
      unfolding advanceWorkflowRun_def by (intro advance_upto_enough) simp_all
  qed
  then show ?thesis by (simp add: advanceWorkflowRun_def)
qed

end
