(* ===== verification/AdvanceProperties.thy ===== *)
theory AdvanceProperties
  imports AdvanceSteps AdvanceTermination CoordinatorProperties
begin

text \<open>
  What a coordination achieves: a workflow whose nodes are all complete is finished, its parent is
  woken and its lease is given back.
\<close>

section \<open>Writing under a lease\<close>

definition held :: "RunLease \<Rightarrow> runtime \<Rightarrow> bool" where
  "held lease s \<longleftrightarrow> map_option lease_leaseToken (map_get (runLeases s) (lease_runId lease)) = Some (lease_leaseToken lease)"

definition same_rows :: "runtime \<Rightarrow> runtime \<Rightarrow> bool" where
  "same_rows s t \<longleftrightarrow> run_view t = run_view s \<and> node_view t = node_view s \<and> nextId s \<le> nextId t"

lemma same_rows_snapshot: "same_rows s t \<Longrightarrow> loadRunSnapshot r t = loadRunSnapshot r s"
  by (auto simp: same_rows_def loadRunSnapshot_def view_defs split: option.split)

text \<open>The row of one run is written, no other.\<close>

definition run_set :: "string \<Rightarrow> StoredRun \<Rightarrow> runtime \<Rightarrow> runtime \<Rightarrow> bool" where
  "run_set r run s t \<longleftrightarrow> (\<forall>p. map_get (runs t) p = (if p = r then Some run else map_get (runs s) p))"

lemma acquired:
  assumes "map_get (runLeases s) r = None" and "map_get (runs s) r = Some run"
  shows "\<exists>lease t. acquireRunLease r ms s = (Some lease, t) \<and> lease_runId lease = r \<and> held lease t \<and> same_rows s t"
  using assms run_lease_frames(1,2)[of r ms s]
  by (auto simp: acquireRunLease_def prim_simps held_def same_rows_def)

lemma fence_held:
  assumes "held lease s"
  shows "\<exists>t. fence in_memory_store lease ms m s = m t \<and> held lease t \<and> same_rows s t"
proof -
  from assms obtain stored where "map_get (runLeases s) (lease_runId lease) = Some stored"
      "lease_leaseToken stored = lease_leaseToken lease"
    by (auto simp: held_def)
  then show ?thesis
    by (intro exI[of _ "snd (renewRunLease lease ms s)"])
       (simp add: fence_def in_memory_store_def effect_defs renewRunLease_def prim_simps held_def same_rows_def view_defs)
qed

lemma fenced_markRunning:
  assumes "held lease s" and run: "map_get (runs s) r = Some run" "\<not> isTerminalRunStatus (run_status run)"
  shows "\<exists>x t run'. st_markRunRunning (store (fenced_deps lease ms)) r s = (Inr x, t) \<and> held lease t
    \<and> run_set r run' s t \<and> \<not> isTerminalRunStatus (run_status run') \<and> run_identity run' = run_identity run"
proof -
  from fence_held[OF assms(1), of ms "total (markRunRunning r)"] obtain t where
    t: "fence in_memory_store lease ms (total (markRunRunning r)) s = total (markRunRunning r) t" "held lease t" "runs t = runs s"
    by (auto simp: same_rows_def view_defs)
  let ?u = "snd (markRunRunning r t)"
  have "held lease ?u" using t(2) by (simp add: held_def lease_frames)
  moreover have "st_markRunRunning (store (fenced_deps lease ms)) r s = (Inr (fst (markRunRunning r t)), ?u)"
    using t(1) by (simp add: fenced_deps_fields fenced_fields in_memory_store_def total_def)
  moreover have "\<exists>run'. run_set r run' s ?u \<and> \<not> isTerminalRunStatus (run_status run') \<and> run_identity run' = run_identity run"
  proof (cases "canTransition RUN_TRANSITIONS (run_status run) RRunning")
    case True
    from markRunRunning_writes[of t r run] True run t(3) show ?thesis by (auto simp: writes_run_def isTerminalRunStatus_def run_set_def)
  next
    case False
    then have "?u = t" using run t(3) by (intro run_status_quiet(1)) simp
    with run t(3) show ?thesis by (auto simp: run_set_def)
  qed
  ultimately show ?thesis by blast
qed

lemma fenced_complete:
  assumes "held lease s" and run: "map_get (runs s) r = Some run" "\<not> isTerminalRunStatus (run_status run)"
  shows "\<exists>t run'. st_completeRun (store (fenced_deps lease ms)) r v s = (Inr (Some run'), t) \<and> held lease t
    \<and> run_set r run' s t \<and> run_status run' = RCompleted \<and> run_output run' = Some v \<and> run_identity run' = run_identity run"
proof -
  from fence_held[OF assms(1), of ms "total (completeRun r v)"] obtain t where
    t: "fence in_memory_store lease ms (total (completeRun r v)) s = total (completeRun r v) t" "held lease t" "runs t = runs s"
    by (auto simp: same_rows_def view_defs)
  let ?u = "snd (completeRun r v t)"
  have "held lease ?u" using t(2) by (simp add: held_def lease_frames)
  moreover from completeRun_writes[of t r run v] run t(3) have "writes_run r run (run\<lparr>run_status := RCompleted, run_output := Some v,
      run_version := run_version run + 1, run_updatedAt := fst (now t)\<rparr>) t ?u" by simp
  moreover have "st_completeRun (store (fenced_deps lease ms)) r v s = (Inr (Some (run\<lparr>run_status := RCompleted, run_output := Some v,
      run_version := run_version run + 1, run_updatedAt := fst (now t)\<rparr>)), ?u)"
    using t run by (simp add: fenced_deps_fields fenced_fields in_memory_store_def total_def completeRun_def case_prod_beta Let_def)
  ultimately show ?thesis using t(3) by (auto simp: writes_run_def run_set_def)
qed

section \<open>Waking the parent\<close>

lemma parent_woken:
  assumes "map_get (runs s) p \<noteq> None" and "truthy (run_parentRunId run) = Some p" and "truthy (run_parentNodeName run) = Some n"
  shows "\<exists>item \<in> set (continueRunCommands (snd (wakeParentRun (fenced_deps lease ms) (Some run) s))).
    qi_deadAt item = None \<and> cont_runId (qi_payload item) = p"
proof -
  obtain prow where "map_get (runs s) p = Some prow" using assms(1) by blast
  with assms(2,3) have "snd (wakeParentRun (fenced_deps lease ms) (Some run) s)
      = enqueueContinue \<lparr>cont_runId = p, cont_workflowName = run_workflowName prow\<rparr> None s"
    by (simp add: wakeParentRun_def fenced_deps_fields fenced_fields in_memory_store_def in_memory_coordination_def effect_defs
        loadRunSnapshot_def enqueue_def)
  with enqueueContinue_queued[of "\<lparr>cont_runId = p, cont_workflowName = run_workflowName prow\<rparr>" None s] show ?thesis
    by (metis ContinueRunCommand.select_convs(1))
qed

lemma wake_keeps:
  "\<exists>t. wakeParentRun (fenced_deps lease ms) run s = (Inr (), t) \<and> runs t = runs s \<and> runLeases t = runLeases s"
  by (auto simp: wakeParentRun_def fenced_deps_fields fenced_fields in_memory_store_def in_memory_coordination_def effect_defs
      enqueue_def enqueue_runs lease_frames split: option.split)

lemma completed_and_woken:
  assumes "held lease s" and "map_get (runs s) r = Some run" "\<not> isTerminalRunStatus (run_status run)"
  shows "\<exists>t run'. completeRunAndWakeParent (fenced_deps lease ms) r v s = (Inr (), t) \<and> held lease t
    \<and> run_set r run' s t \<and> run_status run' = RCompleted \<and> run_output run' = Some v
    \<and> (\<forall>p n. truthy (run_parentRunId run) = Some p \<longrightarrow> truthy (run_parentNodeName run) = Some n \<longrightarrow> map_get (runs s) p \<noteq> None \<longrightarrow>
         (\<exists>item \<in> set (continueRunCommands t). qi_deadAt item = None \<and> cont_runId (qi_payload item) = p))"
proof -
  obtain t run' where t: "st_completeRun (store (fenced_deps lease ms)) r v s = (Inr (Some run'), t)" "held lease t"
      "run_set r run' s t" "run_status run' = RCompleted" "run_output run' = Some v" "run_identity run' = run_identity run"
    using fenced_complete[OF assms] by blast
  obtain u where u: "wakeParentRun (fenced_deps lease ms) (Some run') t = (Inr (), u)" "runs u = runs t" "runLeases u = runLeases t"
    using wake_keeps by blast
  have "completeRunAndWakeParent (fenced_deps lease ms) r v s = (Inr (), u)"
    using t(1) u(1) by (simp add: completeRunAndWakeParent_def await_def)
  moreover have "\<exists>item \<in> set (continueRunCommands u). qi_deadAt item = None \<and> cont_runId (qi_payload item) = p"
    if "truthy (run_parentRunId run) = Some p" "truthy (run_parentNodeName run) = Some n" "map_get (runs s) p \<noteq> None" for p n
  proof -
    have "map_get (runs t) p \<noteq> None" using that(3) t(3) by (simp add: run_set_def)
    from parent_woken[OF this, of run' n lease ms] that(1,2) run_identity_keys[OF t(6)] u(1) show ?thesis by simp
  qed
  ultimately show ?thesis using t u(2,3) by (auto simp: held_def run_set_def)
qed

section \<open>Finishing\<close>

text \<open>What the run returns: the result of \<open>finish\<close>, decoded by the output schema if there is one.\<close>

definition workflow_result :: "'ctx WorkflowImplementation \<Rightarrow> 'ctx node_args \<Rightarrow> thrown + jsval" where
  "workflow_result w args =
     (case wi_finish w args of
        Inl e \<Rightarrow> Inl e
      | Inr v \<Rightarrow> (case wd_output (wi_workflow w) of None \<Rightarrow> Inr v | Some schema \<Rightarrow> schema v))"

lemma finish_completes:
  assumes "workflow_result (ac_workflow input) (callback_args input) = Inr v"
  shows "finishWorkflowRun input = await (completeRunAndWakeParent (ac_deps input) (ac_runId input) v) (\<lambda>_. ret Terminal)"
  using assms
  by (auto simp: workflow_result_def finishWorkflowRun_def decodeWorkflowUserSchemaValue_def decodeSchemaValue_def
      runWorkflowUserCallback_def Let_def split: sum.splits option.splits)

definition all_nodes_completed :: "'ctx WorkflowImplementation \<Rightarrow> StoredNode list \<Rightarrow> bool" where
  "all_nodes_completed w stored \<longleftrightarrow>
     (\<forall>node \<in> set (wi_nodes w). \<exists>row \<in> set stored. node_name row = impl_name node \<and> node_status row = NCompleted)"

lemma fold_outputs_get:
  "n \<in> node_name ` set rows \<or> map_get m n \<noteq> None \<Longrightarrow>
     map_get (fold (\<lambda>node m. map_set (node_name node) (or_undefined (node_output node)) m) rows m) n \<noteq> None"
  by (induction rows arbitrary: m) auto

lemma completed_outputs_get:
  "row \<in> set stored \<Longrightarrow> node_status row = NCompleted \<Longrightarrow> map_get (completed_outputs stored) (node_name row) \<noteq> None"
  unfolding completed_outputs_def by (rule fold_outputs_get) auto

lemma nothing_pending:
  assumes "all_nodes_completed (ac_workflow input) stored" and "ac_outputs input = completed_outputs stored"
  shows "pending input = []"
  using assms completed_outputs_get[of _ stored] unfolding pending_def all_nodes_completed_def filter_empty_conv
  by metis

lemma advance_finishes: "pending input = [] \<Longrightarrow> advanceWorkflowRun input = finishWorkflowRun input"
  by (simp add: advanceWorkflowRun_def advance_step_def)

lemma active_not_terminal: "run_status run \<in> {RQueued, RRunning, RWaiting} \<Longrightarrow> \<not> isTerminalRunStatus (run_status run) \<and> run_status run \<noteq> RCancelling"
  by (auto simp: isTerminalRunStatus_def)

lemma snapshot_run: "loadRunSnapshot r s = Some snapshot \<Longrightarrow> map_get (runs s) r = Some (snap_run snapshot)"
  by (cases snapshot) (auto simp: loadRunSnapshot_def split: option.splits)

lemma leased_run_completes:
  fixes w :: "'ctx WorkflowImplementation"
  assumes snapshot: "loadRunSnapshot r s = Some snapshot" "snap_run snapshot = run" "run_id run = r"
    and run: "run_workflowName run = cont_workflowName command" "run_status run \<in> {RQueued, RRunning, RWaiting}"
    and "cont_runId command = r" and "createContext w = Inr ctx" and "held lease s"
    and nodes_done: "\<forall>row \<in> set (snap_nodes snapshot). node_status row \<notin> {NFailed, NCancelled}" "all_nodes_completed w (snap_nodes snapshot)"
    and result: "workflow_result w (ctx, completed_outputs (snap_nodes snapshot), run_input run) = Inr v"
  shows "\<exists>t run'. continueLeasedRun (fenced_deps lease ms) createContext w command s = (Inr Processed, t) \<and> held lease t
    \<and> map_get (runs t) r = Some run' \<and> run_status run' = RCompleted \<and> run_output run' = Some v
    \<and> (\<forall>p n. truthy (run_parentRunId run) = Some p \<longrightarrow> truthy (run_parentNodeName run) = Some n \<longrightarrow> map_get (runs s) p \<noteq> None \<longrightarrow>
         (\<exists>item \<in> set (continueRunCommands t). qi_deadAt item = None \<and> cont_runId (qi_payload item) = p))"
proof -
  let ?deps = "fenced_deps lease ms"
  let ?input = "\<lparr>ac_deps = ?deps, ac_workflow = w, ac_workflowCtx = ctx, ac_run = run, ac_outputs = completed_outputs (snap_nodes snapshot)\<rparr>"
  have stored: "map_get (runs s) r = Some run"
    using snapshot_run[OF snapshot(1)] snapshot(2) by simp
  obtain x t run1 where t: "st_markRunRunning (store ?deps) r s = (Inr x, t)" "held lease t" "run_set r run1 s t"
      "\<not> isTerminalRunStatus (run_status run1)" "run_identity run1 = run_identity run"
    using fenced_markRunning[OF assms(8) stored] active_not_terminal[OF run(2)] by blast
  have "map_get (runs t) r = Some run1" using t(3) by (simp add: run_set_def)
  from completed_and_woken[OF t(2) this t(4), of ms v] obtain u run2 where
    u: "completeRunAndWakeParent ?deps r v t = (Inr (), u)" "held lease u" "run_set r run2 t u" "run_status run2 = RCompleted" "run_output run2 = Some v"
      "\<forall>p n. truthy (run_parentRunId run1) = Some p \<longrightarrow> truthy (run_parentNodeName run1) = Some n \<longrightarrow> map_get (runs t) p \<noteq> None \<longrightarrow>
         (\<exists>item \<in> set (continueRunCommands u). qi_deadAt item = None \<and> cont_runId (qi_payload item) = p)"
    by blast
  have "advanceWorkflowRun ?input t = (Inr Terminal, u)"
    using nothing_pending[of ?input "snap_nodes snapshot"] nodes_done(2) finish_completes[of ?input v] result u(1) snapshot(3)
    by (simp add: advance_finishes callback_args_def await_def)
  moreover have "find (\<lambda>node. node_status node = NFailed) (snap_nodes snapshot) = None"
    "\<not> list_ex (\<lambda>node. node_status node = NCancelled) (snap_nodes snapshot)"
    using nodes_done(1) by (auto simp: find_None_iff list_ex_iff)
  ultimately have "continueLeasedRun ?deps createContext w command s = (Inr Processed, u)"
    using snapshot run active_not_terminal[OF run(2)] assms(6,7) t(1)
    by (simp add: continueLeasedRun_def fenced_deps_fields fenced_fields in_memory_store_def await_def reading_def sync_def Let_def)
  with u t(3) run_identity_keys[OF t(5)] show ?thesis by (auto simp: run_set_def)
qed

lemma lease_fields:
  "st_acquireRunLease (store in_memory_deps) = (\<lambda>r ms. total (acquireRunLease r ms))"
  "st_releaseRunLease (store in_memory_deps) = (\<lambda>lease. doing (releaseRunLease lease))"
  by (simp_all add: in_memory_deps_def in_memory_store_def)

text \<open>
  C32: a workflow whose work is done completes. When no one holds the lease of an active run, none
  of its nodes failed or was cancelled, every node of its implementation is completed and
  \<open>finish\<close> gives a value that the output schema accepts, then continuing the run is
  processed: the run is completed with that value, the lease is given back, and the run's parent, if it is
  still stored, has a live continue command.
\<close>

theorem finished_workflow_completes:
  assumes "reachable s" and "loadRunSnapshot (cont_runId command) s = Some snapshot"
    and "run_workflowName (snap_run snapshot) = cont_workflowName command" "run_status (snap_run snapshot) \<in> {RQueued, RRunning, RWaiting}"
    and "createWorkflowMap workflows = Inr registry" "map_get registry (cont_workflowName command) = Some w" "createContext w = Inr ctx"
    and "map_get (runLeases s) (cont_runId command) = None"
    and "\<forall>row \<in> set (snap_nodes snapshot). node_status row \<notin> {NFailed, NCancelled}" "all_nodes_completed w (snap_nodes snapshot)"
    and "workflow_result w (ctx, completed_outputs (snap_nodes snapshot), run_input (snap_run snapshot)) = Inr v"
  shows "\<exists>t run. continueWorkflowRun in_memory_deps createContext workflows command leaseMs s = (Inr Processed, t)
    \<and> map_get (runs t) (cont_runId command) = Some run \<and> run_status run = RCompleted \<and> run_output run = Some v
    \<and> map_get (runLeases t) (cont_runId command) = None
    \<and> (\<forall>p n. truthy (run_parentRunId (snap_run snapshot)) = Some p \<longrightarrow> truthy (run_parentNodeName (snap_run snapshot)) = Some n
         \<longrightarrow> map_get (runs s) p \<noteq> None
         \<longrightarrow> (\<exists>item \<in> set (continueRunCommands t). qi_deadAt item = None \<and> cont_runId (qi_payload item) = p))"
proof -
  let ?r = "cont_runId command" and ?ms = "case leaseMs of None \<Rightarrow> 30000 | Some ms \<Rightarrow> ms"
  have stored: "map_get (runs s) ?r = Some (snap_run snapshot)" using snapshot_run[OF assms(2)] .
  obtain lease t where t: "acquireRunLease ?r ?ms s = (Some lease, t)" "lease_runId lease = ?r" "held lease t" "same_rows s t"
    using acquired[OF assms(8) stored] by blast
  have same: "loadRunSnapshot ?r t = Some snapshot" "runs t = runs s"
    using same_rows_snapshot[OF t(4)] assms(2) t(4) by (simp_all add: same_rows_def view_defs)
  have "run_id (snap_run snapshot) = ?r" using stored_run_known[OF assms(1) stored] by simp
  from leased_run_completes[OF same(1) refl this assms(3,4) refl, of createContext w ctx lease v ?ms] assms(7,9,10,11) t(3) same(2)
  obtain u run where u: "continueLeasedRun (fenced_deps lease ?ms) createContext w command t = (Inr Processed, u)" "held lease u"
      "map_get (runs u) ?r = Some run" "run_status run = RCompleted" "run_output run = Some v"
      "\<forall>p n. truthy (run_parentRunId (snap_run snapshot)) = Some p \<longrightarrow> truthy (run_parentNodeName (snap_run snapshot)) = Some n
         \<longrightarrow> map_get (runs s) p \<noteq> None \<longrightarrow> (\<exists>item \<in> set (continueRunCommands u). qi_deadAt item = None \<and> cont_runId (qi_payload item) = p)"
    by auto
  have "continueWorkflowRun in_memory_deps createContext workflows command leaseMs s = (Inr Processed, releaseRunLease lease u)"
    using assms(5,6) t(1) u(1)
    by (simp add: continueWorkflowRun_def pure_await fenced_in_memory Let_def continue_guarded_def finally_do_def
        lease_fields await_def total_def catch_def doing_def)
  moreover have "map_get (runLeases (releaseRunLease lease u)) ?r = None"
    using u(2) t(2) by (simp add: releaseRunLease_def held_def)
  moreover have "runs (releaseRunLease lease u) = runs u" "continueRunCommands (releaseRunLease lease u) = continueRunCommands u"
    by (simp_all add: releaseRunLease_def)
  ultimately show ?thesis using u by auto
qed

definition charged :: runtime where
  "charged = snd (completeNode ''run-1'' ''charge'' (JStr ''paid'') one_node)"

lemma charged_snapshot:
  "\<exists>snapshot. loadRunSnapshot ''run-1'' charged = Some snapshot \<and> run_workflowName (snap_run snapshot) = ''order''
     \<and> run_status (snap_run snapshot) = RQueued \<and> run_input (snap_run snapshot) = JObj [(''id'', JNum (Fin 7))]
     \<and> (\<exists>row. snap_nodes snapshot = [row] \<and> node_name row = ''charge'' \<and> node_status row = NCompleted)"
  "runLeases charged = []"
  by (simp_all add: charged_def completeNode_def loadRunSnapshot_def isTerminalNodeStatus_def sample_defs sample_eval)

theorem finished_workflow_completes_witness:
  "\<exists>t run. continueWorkflowRun in_memory_deps unit_context [order_implementation] continue_order None charged = (Inr Processed, t)
    \<and> map_get (runs t) ''run-1'' = Some run \<and> run_status run = RCompleted \<and> run_output run = Some (JObj [(''id'', JNum (Fin 7))])"
proof -
  from charged_snapshot(1) obtain snapshot row where
    snapshot: "loadRunSnapshot ''run-1'' charged = Some snapshot" "run_workflowName (snap_run snapshot) = ''order''"
      "run_status (snap_run snapshot) = RQueued" "run_input (snap_run snapshot) = JObj [(''id'', JNum (Fin 7))]"
      "snap_nodes snapshot = [row]" "node_name row = ''charge''" "node_status row = NCompleted"
    by (elim exE conjE)
  have "reachable charged" unfolding charged_def by (rule reachable_work[OF reachable_one_node complete_node])
  moreover have "createWorkflowMap [order_implementation] = Inr [(''order'', order_implementation)]"
    by (simp add: createWorkflowMap_def order_implementation_def order_definition_def)
  ultimately show ?thesis
    using finished_workflow_completes[where s = charged and command = continue_order and snapshot = snapshot and v = "JObj [(''id'', JNum (Fin 7))]"
        and workflows = "[order_implementation]" and createContext = unit_context and w = order_implementation
        and leaseMs = None and ctx = "()" and registry = "[(''order'', order_implementation)]"]
      snapshot charged_snapshot(2)
    by (simp add: continue_order_def unit_context_def all_nodes_completed_def workflow_result_def order_implementation_def
        order_definition_def charge_node_def any_schema_def) blast
qed

end
