(* ===== verification/Attempts.thy ===== *)
theory Attempts
  imports Continuation Scheduler
begin

text \<open>
  The execution of attempts: \<open>atomic.ts\<close>, \<open>heartbeat.ts\<close>, \<open>retry.ts\<close>, \<open>reconcile.ts\<close>,
  \<open>task-attempt.ts\<close> and \<open>activity-attempt.ts\<close> of \<open>runtime/worker\<close>. A worker runs a user handler while
  a heartbeat extends the lease of the command, a timer and the shutdown of the worker may cut it
  short, and others work on the same store. Which of these comes first is the \<open>race\<close> that
  the execution gets as an argument; the theorems hold for every race.
\<close>

section \<open>Atomic completion\<close>

datatype WorkerCommandResult = CommandProcessed | CommandReleased

text \<open>An adapter may run the final writes in a transaction, on a store of its own.\<close>

type_synonym WorkflowRuntimeAtomicCompletion =
  "(RuntimeDeps \<Rightarrow> WorkerCommandResult op) \<Rightarrow> WorkerCommandResult op"

record WorkerInput =
  wk_deps :: RuntimeDeps
  wk_atomicCompletion :: "WorkflowRuntimeAtomicCompletion option"
  wk_leaseMs :: "int option"
  wk_signal :: bool

definition runAtomicCompletion :: "WorkerInput \<Rightarrow> (RuntimeDeps \<Rightarrow> WorkerCommandResult op) \<Rightarrow> WorkerCommandResult op" where
  "runAtomicCompletion input handler =
     (case wk_atomicCompletion input of
        None \<Rightarrow> handler (wk_deps input)
      | Some run \<Rightarrow> run handler)"

section \<open>Running a handler under a heartbeat\<close>

text \<open>
  What happens while a handler runs, in order: it settles, its timer fires, the worker is shut
  down, the heartbeat is due (or a wake hint asks for it), or someone else changes the state.
  A timer that was not set and a signal that was not given do nothing.
\<close>

datatype race =
    HandlerSettles
  | TimerFires race
  | ShutdownSignalled race
  | HeartbeatDue race
  | Elsewhere "runtime \<Rightarrow> runtime" race

text \<open>An \<open>Error\<close> whose message is the given one.\<close>

definition has_message :: "string \<Rightarrow> wf_error \<Rightarrow> bool" where
  "has_message m error =
     (case error of
        Thrown (Err _ message _ _) \<Rightarrow> message = m
      | WorkflowUserCallbackError (Err _ message _ _) \<Rightarrow> message = m
      | _ \<Rightarrow> False)"

definition isStaleWorkflowCommandAck :: "wf_error \<Rightarrow> bool" where
  "isStaleWorkflowCommandAck error = has_message ''Stale workflow command ack'' error"

definition isAttemptHeartbeatLeaseLost :: "wf_error \<Rightarrow> bool" where
  "isAttemptHeartbeatLeaseLost error = has_message ''Workflow attempt heartbeat lease lost'' error"

definition isAttemptShutdown :: "wf_error \<Rightarrow> bool" where
  "isAttemptShutdown error = (case error of WorkflowAttemptShutdownError _ _ _ \<Rightarrow> True | _ \<Rightarrow> False)"

definition isAttemptCancellationObserved :: "wf_error \<Rightarrow> bool" where
  "isAttemptCancellationObserved error =
     (case error of WorkflowAttemptCancellationObservedError _ _ _ \<Rightarrow> True | _ \<Rightarrow> False)"

definition isAttemptTimeout :: "wf_error \<Rightarrow> bool" where
  "isAttemptTimeout error = (case error of WorkflowAttemptTimeoutError _ _ _ _ \<Rightarrow> True | _ \<Rightarrow> False)"

text \<open>The outcome of a promise as a value: \<open>m\<close> itself never throws then.\<close>

definition settled_result :: "'a op \<Rightarrow> ('a res) op" where
  "settled_result m s = (case m s of (r, s') \<Rightarrow> (Inr r, s'))"

text \<open>One beat: go on, or end the execution with an error.\<close>

definition beat :: "WorkerInput \<Rightarrow> AttemptCommand Claim \<Rightarrow> 'a op \<Rightarrow> 'a op" where
  "beat input claimed continue =
     (let leaseMs = (case wk_leaseMs input of None \<Rightarrow> DEFAULT_LEASE_MS | Some ms \<Rightarrow> ms) in
      await (settled_result (ae_heartbeat (attemptExecutor (wk_deps input)) claimed (Some leaseMs))) (\<lambda>result.
      case result of
        Inr runStatus \<Rightarrow>
          if runStatus \<noteq> RCancelling \<and> \<not> isTerminalRunStatus runStatus then continue
          else raise (WorkflowAttemptCancellationObservedError (cmd_runId (claim_command claimed))
                 (cmd_nodeName (claim_command claimed)) (cmd_attemptId (claim_command claimed)))
      | Inl error \<Rightarrow> if isAttemptHeartbeatLeaseLost error then raise error else continue))"

primrec runWithAttemptHeartbeat ::
  "WorkerInput \<Rightarrow> AttemptCommand Claim \<Rightarrow> 'a op \<Rightarrow> jsnum option \<Rightarrow> race \<Rightarrow> 'a op" where
  "runWithAttemptHeartbeat input claimed handler timeoutMs HandlerSettles = handler"
| "runWithAttemptHeartbeat input claimed handler timeoutMs (TimerFires rest) =
     (case timeoutMs of
        None \<Rightarrow> runWithAttemptHeartbeat input claimed handler timeoutMs rest
      | Some ms \<Rightarrow>
          raise (WorkflowAttemptTimeoutError (cmd_runId (claim_command claimed))
            (cmd_nodeName (claim_command claimed)) (cmd_attemptId (claim_command claimed)) ms))"
| "runWithAttemptHeartbeat input claimed handler timeoutMs (ShutdownSignalled rest) =
     (if wk_signal input
      then raise (WorkflowAttemptShutdownError (cmd_runId (claim_command claimed))
             (cmd_nodeName (claim_command claimed)) (cmd_attemptId (claim_command claimed)))
      else runWithAttemptHeartbeat input claimed handler timeoutMs rest)"
| "runWithAttemptHeartbeat input claimed handler timeoutMs (HeartbeatDue rest) =
     beat input claimed (runWithAttemptHeartbeat input claimed handler timeoutMs rest)"
| "runWithAttemptHeartbeat input claimed handler timeoutMs (Elsewhere change rest) =
     await (doing change) (\<lambda>_. runWithAttemptHeartbeat input claimed handler timeoutMs rest)"

section \<open>Retries\<close>

definition shouldRetryAttempt :: "StoredAttempt \<Rightarrow> RetryPolicy option \<Rightarrow> bool" where
  "shouldRetryAttempt failedAttempt retry =
     (case retry of
        None \<Rightarrow> False
      | Some policy \<Rightarrow>
          (attempt_status failedAttempt = AFailed \<or> attempt_status failedAttempt = ATimedOut)
          \<and> attempt_attemptNumber failedAttempt < rp_attempts policy)"

text \<open>\<open>2 ** n\<close> in doubles.\<close>

definition two_to_the :: "nat \<Rightarrow> jsnum" where
  "two_to_the n = (if n < 1024 then Fin (2 ^ n) else PosInfinity)"

definition retryDelayMs :: "numerics \<Rightarrow> RetryPolicy option \<Rightarrow> nat \<Rightarrow> jsnum" where
  "retryDelayMs nu retry failedAttemptNumber =
     (let base = (case parseDurationMs nu (Option.bind retry rp_delay) of None \<Rightarrow> Fin 0 | Some ms \<Rightarrow> ms) in
      if base = Fin 0 then Fin 0
      else if Option.bind retry rp_backoff = Some ExponentialBackoff
      then times_every nu base (two_to_the (failedAttemptNumber - 1))
      else base)"

text \<open>
  An invalid \<open>Date\<close> is never due; a moment after the last time value stands for it.
\<close>

definition date_or_never :: "int option \<Rightarrow> int" where
  "date_or_never d = (case d of None \<Rightarrow> MAX_TIME + 1 | Some t \<Rightarrow> t)"

definition retryDispatchOptions :: "RetryPolicy option \<Rightarrow> nat \<Rightarrow> int option op" where
  "retryDispatchOptions retry failedAttemptNumber =
     await (reading rt_host) (\<lambda>host.
     let delayMs = retryDelayMs (nums host) retry failedAttemptNumber in
     if positive delayMs then
       await (total Date_now) (\<lambda>t.
       ret (Some (date_or_never (new_Date (plus_double (nums host) delayMs (of_int t))))))
     else ret None)"

text \<open>The command of the next attempt: the one that failed with a new attempt and token.\<close>

definition retry_command :: "AttemptCommand \<Rightarrow> StoredAttempt \<Rightarrow> AttemptCommand" where
  "retry_command command retryAttempt =
     (case command of
        ActivityAttempt workflowName activityName runId nodeName key _ _ _ _ \<Rightarrow>
          ActivityAttempt workflowName activityName runId nodeName key (attempt_id retryAttempt)
            (attempt_leaseToken retryAttempt) (attempt_input retryAttempt) (attempt_idempotencyKey retryAttempt)
      | TaskAttempt workflowName taskName runId nodeName key _ _ _ _ timeout \<Rightarrow>
          TaskAttempt workflowName taskName runId nodeName key (attempt_id retryAttempt)
            (attempt_leaseToken retryAttempt) (attempt_input retryAttempt) (attempt_idempotencyKey retryAttempt) timeout)"

definition retryAttemptCore ::
  "RuntimeDeps \<Rightarrow> AttemptCommand \<Rightarrow> StoredAttempt \<Rightarrow> RetryPolicy option
     \<Rightarrow> (StoredAttempt \<Rightarrow> int option \<Rightarrow> unit op) \<Rightarrow> bool op" where
  "retryAttemptCore deps command failedAttempt retry dispatch =
     (if \<not> shouldRetryAttempt failedAttempt retry then ret False
      else
        await (st_createAttempt (store deps)
                 \<lparr>ca_runId = cmd_runId command, ca_nodeName = cmd_nodeName command, ca_childKey = cmd_childKey command,
                  ca_input = attempt_input failedAttempt, ca_idempotencyKey = attempt_idempotencyKey failedAttempt\<rparr>) (\<lambda>retryAttempt.
        await (retryDispatchOptions retry (attempt_attemptNumber failedAttempt)) (\<lambda>runAt.
        await (dispatch retryAttempt runAt) (\<lambda>_.
        ret True))))"

definition retryActivityAttempt ::
  "RuntimeDeps \<Rightarrow> AttemptCommand \<Rightarrow> StoredAttempt \<Rightarrow> RetryPolicy option \<Rightarrow> bool op" where
  "retryActivityAttempt deps command failedAttempt retry =
     retryAttemptCore deps command failedAttempt retry
       (\<lambda>retryAttempt runAt. ae_dispatchActivity (attemptExecutor deps) (retry_command command retryAttempt) runAt)"

definition retryTaskAttempt ::
  "RuntimeDeps \<Rightarrow> AttemptCommand \<Rightarrow> StoredAttempt \<Rightarrow> RetryPolicy option \<Rightarrow> bool op" where
  "retryTaskAttempt deps command failedAttempt retry =
     retryAttemptCore deps command failedAttempt retry
       (\<lambda>retryAttempt runAt. ae_dispatchTask (attemptExecutor deps) (retry_command command retryAttempt) runAt)"

section \<open>Redelivered commands\<close>

definition isFreshAttempt :: "AttemptCommand \<Rightarrow> StoredNodeChild option \<Rightarrow> StoredAttempt option \<Rightarrow> bool" where
  "isFreshAttempt command child storedAttempt =
     (case (child, storedAttempt) of
        (Some c, Some a) \<Rightarrow>
          child_currentAttemptId c = Some (cmd_attemptId command) \<and> attempt_status a = AStarted
          \<and> attempt_leaseToken a = cmd_leaseToken command
      | _ \<Rightarrow> False)"

definition ack_processed :: "RuntimeDeps \<Rightarrow> AttemptCommand Claim \<Rightarrow> WorkerCommandResult op" where
  "ack_processed deps claimed =
     await (ae_ack (attemptExecutor deps) claimed) (\<lambda>_. ret CommandProcessed)"

definition ackTerminalAttempt :: "WorkerInput \<Rightarrow> AttemptCommand Claim \<Rightarrow> WorkerCommandResult op" where
  "ackTerminalAttempt input claimed = runAtomicCompletion input (\<lambda>deps. ack_processed deps claimed)"

definition shouldCompleteNodeFromAttempt :: "numerics \<Rightarrow> string \<Rightarrow> bool" where
  "shouldCompleteNodeFromAttempt nu key =
     (case parseChildKey nu key of
        Some ParsedSelf \<Rightarrow> True
      | Some (ParsedCase _) \<Rightarrow> True
      | _ \<Rightarrow> False)"

definition isFailedAttemptStatus :: "RuntimeAttemptStatus \<Rightarrow> bool" where
  "isFailedAttemptStatus status \<longleftrightarrow> status = AFailed \<or> status = ATimedOut"

definition enqueueContinueRun :: "RuntimeDeps \<Rightarrow> AttemptCommand \<Rightarrow> unit op" where
  "enqueueContinueRun deps command =
     rce_enqueue (runCoordinationExecutor deps)
       \<lparr>cont_runId = cmd_runId command, cont_workflowName = cmd_workflowName command\<rparr>"

definition is_task_run :: "RunSnapshot option \<Rightarrow> bool" where
  "is_task_run snapshot = (case snapshot of None \<Rightarrow> False | Some sn \<Rightarrow> run_kind (snap_run sn) = TaskRun)"

text \<open>Completing or failing the node when it has only this child, then the run when it is a task run.\<close>

definition complete_node_from :: "RuntimeDeps \<Rightarrow> AttemptCommand \<Rightarrow> jsval \<Rightarrow> unit op" where
  "complete_node_from deps command output =
     await (reading rt_host) (\<lambda>host.
     if shouldCompleteNodeFromAttempt (nums host) (cmd_childKey command)
     then await (st_completeNode (store deps) (cmd_runId command) (cmd_nodeName command) output) (\<lambda>_. ret ())
     else ret ())"

definition fail_node_from :: "RuntimeDeps \<Rightarrow> AttemptCommand \<Rightarrow> thrown \<Rightarrow> unit op" where
  "fail_node_from deps command error =
     await (reading rt_host) (\<lambda>host.
     if shouldCompleteNodeFromAttempt (nums host) (cmd_childKey command)
     then await (st_failNode (store deps) (cmd_runId command) (cmd_nodeName command) error) (\<lambda>_. ret ())
     else ret ())"

definition complete_task_run :: "RuntimeDeps \<Rightarrow> AttemptCommand Claim \<Rightarrow> jsval \<Rightarrow> WorkerCommandResult op" where
  "complete_task_run deps claimed output =
     (let command = claim_command claimed in
      await (st_completeNode (store deps) (cmd_runId command) (cmd_nodeName command) output) (\<lambda>_.
      await (st_completeRun (store deps) (cmd_runId command) output) (\<lambda>completed.
      await (wakeParentRun deps completed) (\<lambda>_.
      ack_processed deps claimed))))"

definition continue_and_ack :: "RuntimeDeps \<Rightarrow> AttemptCommand Claim \<Rightarrow> WorkerCommandResult op" where
  "continue_and_ack deps claimed =
     await (enqueueContinueRun deps (claim_command claimed)) (\<lambda>_. ack_processed deps claimed)"

text \<open>The settled current attempt replays its completion.\<close>

definition replay_completion :: "RuntimeDeps \<Rightarrow> AttemptCommand Claim \<Rightarrow> jsval \<Rightarrow> WorkerCommandResult op" where
  "replay_completion deps claimed output =
     (let command = claim_command claimed in
      await (st_completeNodeChild (store deps) (cmd_runId command) (cmd_nodeName command) (cmd_childKey command) output) (\<lambda>_.
      await (st_loadRunSnapshot (store deps) (cmd_runId command)) (\<lambda>snapshot.
      if is_task_run snapshot then complete_task_run deps claimed output
      else
        await (complete_node_from deps command output) (\<lambda>_.
        continue_and_ack deps claimed))))"

definition replay_failure :: "RuntimeDeps \<Rightarrow> AttemptCommand Claim \<Rightarrow> thrown \<Rightarrow> WorkerCommandResult op" where
  "replay_failure deps claimed error =
     (let command = claim_command claimed in
      await (st_failNodeChild (store deps) (cmd_runId command) (cmd_nodeName command) (cmd_childKey command) error) (\<lambda>_.
      await (st_loadRunSnapshot (store deps) (cmd_runId command)) (\<lambda>snapshot.
      if is_task_run snapshot then
        await (st_failNode (store deps) (cmd_runId command) (cmd_nodeName command) error) (\<lambda>_.
        await (st_failRun (store deps) (cmd_runId command) error) (\<lambda>failed.
        await (wakeParentRun deps failed) (\<lambda>_.
        ack_processed deps claimed)))
      else
        await (fail_node_from deps command error) (\<lambda>_.
        continue_and_ack deps claimed))))"

definition reconcileStaleAttempt ::
  "RuntimeDeps \<Rightarrow> AttemptCommand Claim \<Rightarrow> StoredNodeChild option \<Rightarrow> StoredAttempt option \<Rightarrow> WorkerCommandResult op" where
  "reconcileStaleAttempt deps claimed child storedAttempt =
     (let command = claim_command claimed in
      case (child, storedAttempt) of
        (Some c, Some a) \<Rightarrow>
          (let isCurrentAttempt = (child_currentAttemptId c = Some (cmd_attemptId command)) in
           if isCurrentAttempt \<and> attempt_status a = ACompleted
           then replay_completion deps claimed (or_undefined (attempt_output a))
           else if isCurrentAttempt \<and> isFailedAttemptStatus (attempt_status a)
           then replay_failure deps claimed
                  (error_or (attempt_error a) (''Workflow attempt ['' @ cmd_attemptId command @ ''] failed''))
           else if (attempt_status a = ACompleted \<and> child_status c = NCompleted)
                 \<or> (isFailedAttemptStatus (attempt_status a) \<and> child_status c = NFailed)
           then continue_and_ack deps claimed
           else ack_processed deps claimed)
      | _ \<Rightarrow> ack_processed deps claimed)"

section \<open>Settling the current attempt\<close>

text \<open>
  The \<open>catch\<close> clause of both kinds of attempts: a lost lease and a shutdown are thrown on, a
  cancellation acknowledges the command, every other error fails the attempt, which is retried or
  fails the child, the node and, for a task run, the run.
\<close>

definition fail_attempt_writes ::
  "WorkerInput \<Rightarrow> AttemptCommand Claim \<Rightarrow> RunSnapshot option \<Rightarrow> (RuntimeDeps \<Rightarrow> StoredAttempt \<Rightarrow> bool op) \<Rightarrow> wf_error
     \<Rightarrow> RuntimeDeps \<Rightarrow> WorkerCommandResult op" where
  "fail_attempt_writes input claimed snapshot retry error deps =
     (let command = claim_command claimed in
      await (reading rt_host) (\<lambda>host.
      let e = error_object host error in
      await (if isAttemptTimeout error
             then st_timeoutCurrentAttempt (store deps) (cmd_attemptId command) (cmd_leaseToken command) e
             else st_failCurrentAttempt (store deps) (cmd_attemptId command) (cmd_leaseToken command) e) (\<lambda>attempt.
      case attempt of
        None \<Rightarrow> ack_processed deps claimed
      | Some failedAttempt \<Rightarrow>
          await (retry deps failedAttempt) (\<lambda>retried.
          if retried then ack_processed deps claimed
          else
            await (st_failNodeChild (store deps) (cmd_runId command) (cmd_nodeName command) (cmd_childKey command) e) (\<lambda>_.
            await (fail_node_from deps command e) (\<lambda>_.
            if is_task_run snapshot then
              await (st_failRun (store deps) (cmd_runId command) e) (\<lambda>failed.
              await (wakeParentRun deps failed) (\<lambda>_.
              ack_processed deps claimed))
            else continue_and_ack deps claimed))))))"

definition fail_attempt ::
  "WorkerInput \<Rightarrow> AttemptCommand Claim \<Rightarrow> RunSnapshot option \<Rightarrow> (RuntimeDeps \<Rightarrow> StoredAttempt \<Rightarrow> bool op) \<Rightarrow> wf_error
     \<Rightarrow> WorkerCommandResult op" where
  "fail_attempt input claimed snapshot retry error =
     (if isAttemptHeartbeatLeaseLost error \<or> isAttemptShutdown error then raise error
      else if isAttemptCancellationObserved error then ackTerminalAttempt input claimed
      else runAtomicCompletion input (fail_attempt_writes input claimed snapshot retry error))"

definition release_unroutable :: "WorkerInput \<Rightarrow> AttemptCommand Claim \<Rightarrow> string \<Rightarrow> WorkerCommandResult op" where
  "release_unroutable input claimed message =
     await (ae_release (attemptExecutor (wk_deps input)) claimed
              \<lparr>ro_error = Some (new_Error message), ro_unroutable = True\<rparr>) (\<lambda>_.
     ret CommandReleased)"

text \<open>The first part of both kinds: load the rows, deal with finished runs and stale commands.\<close>

definition with_fresh_attempt ::
  "WorkerInput \<Rightarrow> AttemptCommand Claim \<Rightarrow> (RunSnapshot \<Rightarrow> WorkerCommandResult op) \<Rightarrow> WorkerCommandResult op" where
  "with_fresh_attempt input claimed continue =
     (let command = claim_command claimed in
      await (st_loadRunSnapshot (store (wk_deps input)) (cmd_runId command)) (\<lambda>snapshot.
      let storedChild = Option.bind snapshot (\<lambda>sn. find (\<lambda>child. child_nodeName child = cmd_nodeName command
                          \<and> child_childKey child = cmd_childKey command) (snap_children sn));
          storedAttempt = Option.bind snapshot (\<lambda>sn. find (\<lambda>attempt. attempt_id attempt = cmd_attemptId command) (snap_attempts sn))
      in case snapshot of
           None \<Rightarrow> runAtomicCompletion input (\<lambda>deps. reconcileStaleAttempt deps claimed storedChild storedAttempt)
         | Some sn \<Rightarrow>
             if isTerminalRunStatus (run_status (snap_run sn)) then ackTerminalAttempt input claimed
             else if \<not> isFreshAttempt command storedChild storedAttempt then
               runAtomicCompletion input (\<lambda>deps. reconcileStaleAttempt deps claimed storedChild storedAttempt)
             else if run_workflowName (snap_run sn) \<noteq> cmd_workflowName command then
               release_unroutable input claimed
                 (''Run ['' @ cmd_runId command @ ''] workflow does not match command workflow [''
                    @ cmd_workflowName command @ '']'')
             else continue sn))"

section \<open>Task attempts\<close>

primrec createTaskMap_from ::
  "(string \<times> 'ctx TaskImplementation) list \<Rightarrow> 'ctx TaskImplementation list \<Rightarrow> (string \<times> 'ctx TaskImplementation) list res" where
  "createTaskMap_from m [] = Inr m"
| "createTaskMap_from m (task # rest) =
     (let name = task_name (ti_task task) in
      if map_get m name \<noteq> None
      then Inl (Thrown (new_Error (''Duplicate task implementation ['' @ name @ '']'')))
      else createTaskMap_from (map_set name task m) rest)"

definition createTaskMap :: "'ctx TaskImplementation list \<Rightarrow> (string \<times> 'ctx TaskImplementation) list res" where
  "createTaskMap tasks = createTaskMap_from [] tasks"

text \<open>The handler of a task with its context, and the decoding of what it returns.\<close>

definition execute_task ::
  "WorkerInput \<Rightarrow> AttemptCommand Claim \<Rightarrow> ('ctx TaskImplementation \<Rightarrow> thrown + 'ctx) \<Rightarrow> 'ctx TaskImplementation \<Rightarrow> race \<Rightarrow> jsval op" where
  "execute_task input claimed createContext task race =
     await (reading rt_host) (\<lambda>host.
     await (runWithAttemptHeartbeat input claimed
              (await (sync (createContext task)) (\<lambda>ctx. sync (ti_handler task ctx (cmd_input (claim_command claimed)))))
              (parseDurationMs (nums host) (option_or (cmd_timeout (claim_command claimed)) (task_timeout (ti_task task))))
              race) (\<lambda>output.
     sync (decodeSchemaValue (task_output (ti_task task)) output (''task output ['' @ task_name (ti_task task) @ '']''))))"

definition complete_task_attempt ::
  "AttemptCommand Claim \<Rightarrow> RunSnapshot \<Rightarrow> jsval \<Rightarrow> RuntimeDeps \<Rightarrow> WorkerCommandResult op" where
  "complete_task_attempt claimed snapshot output deps =
     (let command = claim_command claimed in
      await (st_completeCurrentAttempt (store deps) (cmd_attemptId command) (cmd_leaseToken command) output) (\<lambda>attempt.
      case attempt of
        None \<Rightarrow> ack_processed deps claimed
      | Some _ \<Rightarrow>
          if run_kind (snap_run snapshot) = TaskRun then complete_task_run deps claimed output
          else
            await (complete_node_from deps command output) (\<lambda>_.
            continue_and_ack deps claimed)))"

definition runTaskAttempt ::
  "WorkerInput \<Rightarrow> ('ctx TaskImplementation \<Rightarrow> thrown + 'ctx) \<Rightarrow> 'ctx TaskImplementation list \<Rightarrow> AttemptCommand Claim \<Rightarrow> race
     \<Rightarrow> WorkerCommandResult op" where
  "runTaskAttempt input createContext tasks claimed race =
     (case claim_command claimed of
        ActivityAttempt _ _ _ _ _ _ _ _ _ \<Rightarrow>
          raise (Thrown (new_Error ''Unsupported attempt command kind [activityAttempt]''))
      | TaskAttempt _ taskName runId _ _ _ _ _ _ _ \<Rightarrow>
          with_fresh_attempt input claimed (\<lambda>snapshot.
          await (pureRes (createTaskMap tasks)) (\<lambda>registry.
          case map_get registry taskName of
            None \<Rightarrow> release_unroutable input claimed (''No registered task implementation ['' @ taskName @ '']'')
          | Some task \<Rightarrow>
              await (if run_kind (snap_run snapshot) = TaskRun
                     then await (st_markRunRunning (store (wk_deps input)) runId) (\<lambda>_. ret ())
                     else ret ()) (\<lambda>_.
              await (settled_result (execute_task input claimed createContext task race)) (\<lambda>result.
              case result of
                Inl error \<Rightarrow>
                  fail_attempt input claimed (Some snapshot)
                    (\<lambda>deps failedAttempt. retryTaskAttempt deps (claim_command claimed) failedAttempt (task_retry (ti_task task))) error
              | Inr output \<Rightarrow> runAtomicCompletion input (complete_task_attempt claimed snapshot output))))))"

section \<open>Activity attempts\<close>

definition cases_of :: "(string \<times> 'v) list option \<Rightarrow> string \<Rightarrow> 'v option" where
  "cases_of cases key = Option.bind cases (\<lambda>cs. map_get cs key)"

definition find_activity :: "'ctx WorkflowImplementation \<Rightarrow> string \<Rightarrow> 'ctx ActivityNodeImplementation option" where
  "find_activity workflow nodeName =
     (case find (\<lambda>candidate. case candidate of ActivityImpl n \<Rightarrow> act_name n = nodeName | _ \<Rightarrow> False) (wi_nodes workflow) of
        Some (ActivityImpl n) \<Rightarrow> Some n
      | _ \<Rightarrow> None)"

definition branch_cases :: "'ctx WorkflowImplementation \<Rightarrow> string \<Rightarrow> (string \<times> 'ctx WorkflowCaseImplementation) list option" where
  "branch_cases workflow nodeName =
     (case find (\<lambda>candidate. case candidate of BranchImpl n \<Rightarrow> br_name n = nodeName | _ \<Rightarrow> False) (wi_nodes workflow) of
        Some (BranchImpl n) \<Rightarrow> Some (br_cases n)
      | _ \<Rightarrow> None)"

definition parallel_cases :: "'ctx WorkflowImplementation \<Rightarrow> string \<Rightarrow> (string \<times> 'ctx WorkflowCaseImplementation) list option" where
  "parallel_cases workflow nodeName =
     (case find (\<lambda>candidate. case candidate of ParallelImpl n \<Rightarrow> par_name n = nodeName | _ \<Rightarrow> False) (wi_nodes workflow) of
        Some (ParallelImpl n) \<Rightarrow> Some (par_cases n)
      | _ \<Rightarrow> None)"

text \<open>The activity must be the one the command names.\<close>

definition named_activity :: "string \<Rightarrow> 'ctx ActivityNodeImplementation option \<Rightarrow> 'ctx ActivityNodeImplementation option" where
  "named_activity activityName found =
     Option.bind found (\<lambda>n. if act_activity n = activityName then Some n else None)"

definition resolveActivityAttemptNode ::
  "numerics \<Rightarrow> 'ctx WorkflowImplementation \<Rightarrow> AttemptCommand \<Rightarrow> 'ctx ActivityNodeImplementation option" where
  "resolveActivityAttemptNode nu workflow command =
     (case parseChildKey nu (cmd_childKey command) of
        None \<Rightarrow> None
      | Some ParsedSelf \<Rightarrow> named_activity (cmd_activityName command) (find_activity workflow (cmd_nodeName command))
      | Some parsed \<Rightarrow>
          (let selected =
             (case parsed of
                ParsedCase caseKey \<Rightarrow> cases_of (branch_cases workflow (cmd_nodeName command)) caseKey
              | ParsedMember memberKey \<Rightarrow> cases_of (parallel_cases workflow (cmd_nodeName command)) memberKey
              | _ \<Rightarrow> None)
           in case selected of
                Some (ActivityCase n) \<Rightarrow> named_activity (cmd_activityName command) (Some n)
              | _ \<Rightarrow> None))"

definition resolveActivityAttemptCaseDeclaration ::
  "numerics \<Rightarrow> 'ctx WorkflowImplementation \<Rightarrow> AttemptCommand \<Rightarrow> BranchCaseDefinition option" where
  "resolveActivityAttemptCaseDeclaration nu workflow command =
     (case find (\<lambda>candidate. decl_name candidate = cmd_nodeName command) (wd_nodes (wi_workflow workflow)) of
        None \<Rightarrow> None
      | Some declaration \<Rightarrow>
          if declaration_kind declaration \<noteq> BranchNode \<and> declaration_kind declaration \<noteq> ParallelNode then None
          else
            (let key = (case parseChildKey nu (cmd_childKey command) of
                          Some (ParsedCase caseKey) \<Rightarrow> Some caseKey
                        | Some (ParsedMember memberKey) \<Rightarrow> Some memberKey
                        | _ \<Rightarrow> None)
             in case Option.bind key (map_get (decl_cases declaration)) of
                  Some (ActivityCaseDefinition i out t) \<Rightarrow> Some (ActivityCaseDefinition i out t)
                | _ \<Rightarrow> None))"

definition resolveActivityAttemptTimeoutMs :: "numerics \<Rightarrow> 'ctx WorkflowImplementation \<Rightarrow> AttemptCommand \<Rightarrow> jsnum option" where
  "resolveActivityAttemptTimeoutMs nu workflow command =
     (case find (\<lambda>candidate. decl_name candidate = cmd_nodeName command) (wd_nodes (wi_workflow workflow)) of
        None \<Rightarrow> None
      | Some declaration \<Rightarrow>
          if declaration_kind declaration = ActivityNode then parseDurationMs nu (decl_timeout declaration)
          else
            (case resolveActivityAttemptCaseDeclaration nu workflow command of
               None \<Rightarrow> None
             | Some caseDeclaration \<Rightarrow> parseDurationMs nu (cd_timeout caseDeclaration)))"

definition resolveActivityAttemptOutputSchema ::
  "numerics \<Rightarrow> 'ctx WorkflowImplementation \<Rightarrow> AttemptCommand \<Rightarrow> (Schema \<times> string) option" where
  "resolveActivityAttemptOutputSchema nu workflow command =
     (case find (\<lambda>candidate. decl_name candidate = cmd_nodeName command) (wd_nodes (wi_workflow workflow)) of
        None \<Rightarrow> None
      | Some declaration \<Rightarrow>
          if declaration_kind declaration = ActivityNode
          then Some (decl_output declaration,
                     ''activity output ['' @ wd_name (wi_workflow workflow) @ ''.'' @ cmd_nodeName command @ '']'')
          else
            (case resolveActivityAttemptCaseDeclaration nu workflow command of
               None \<Rightarrow> None
             | Some caseDeclaration \<Rightarrow>
                 Some (cd_output caseDeclaration,
                       ''activity output ['' @ wd_name (wi_workflow workflow) @ ''.'' @ cmd_nodeName command @ ''.''
                         @ cmd_childKey command @ '']'')))"

definition execute_activity ::
  "WorkerInput \<Rightarrow> AttemptCommand Claim \<Rightarrow> ('ctx ActivityNodeImplementation \<Rightarrow> thrown + 'ctx) \<Rightarrow> 'ctx WorkflowImplementation
     \<Rightarrow> 'ctx ActivityNodeImplementation \<Rightarrow> race \<Rightarrow> jsval op" where
  "execute_activity input claimed createContext workflow node race =
     (let command = claim_command claimed in
      await (reading rt_host) (\<lambda>host.
      await (runWithAttemptHeartbeat input claimed
               (await (sync (createContext node)) (\<lambda>ctx. sync (act_handler node ctx (cmd_input command))))
               (resolveActivityAttemptTimeoutMs (nums host) workflow command) race) (\<lambda>output.
      case resolveActivityAttemptOutputSchema (nums host) workflow command of
        None \<Rightarrow> ret output
      | Some (schema, label) \<Rightarrow> sync (decodeSchemaValue schema output label))))"

definition complete_activity_attempt ::
  "AttemptCommand Claim \<Rightarrow> jsval \<Rightarrow> RuntimeDeps \<Rightarrow> WorkerCommandResult op" where
  "complete_activity_attempt claimed output deps =
     (let command = claim_command claimed in
      await (st_completeCurrentAttempt (store deps) (cmd_attemptId command) (cmd_leaseToken command) output) (\<lambda>attempt.
      case attempt of
        None \<Rightarrow> ack_processed deps claimed
      | Some _ \<Rightarrow>
          await (complete_node_from deps command output) (\<lambda>_.
          continue_and_ack deps claimed)))"

definition runActivityAttempt ::
  "WorkerInput \<Rightarrow> ('ctx ActivityNodeImplementation \<Rightarrow> thrown + 'ctx) \<Rightarrow> 'ctx WorkflowImplementation list \<Rightarrow> AttemptCommand Claim
     \<Rightarrow> race \<Rightarrow> WorkerCommandResult op" where
  "runActivityAttempt input createContext workflows claimed race =
     (case claim_command claimed of
        TaskAttempt _ _ _ _ _ _ _ _ _ _ \<Rightarrow>
          raise (Thrown (new_Error ''Unsupported attempt command kind [taskAttempt]''))
      | ActivityAttempt workflowName _ _ nodeName key _ _ _ _ \<Rightarrow>
          with_fresh_attempt input claimed (\<lambda>snapshot.
          await (pureRes (createWorkflowMap workflows)) (\<lambda>registry.
          case map_get registry workflowName of
            None \<Rightarrow> release_unroutable input claimed (''No registered workflow implementation ['' @ workflowName @ '']'')
          | Some workflow \<Rightarrow>
              await (reading rt_host) (\<lambda>host.
              case resolveActivityAttemptNode (nums host) workflow (claim_command claimed) of
                None \<Rightarrow>
                  release_unroutable input claimed
                    (''No activity implementation for ['' @ workflowName @ ''.'' @ nodeName @ ''.'' @ key @ '']'')
              | Some node \<Rightarrow>
                  await (settled_result (execute_activity input claimed createContext workflow node race)) (\<lambda>result.
                  case result of
                    Inl error \<Rightarrow>
                      fail_attempt input claimed (Some snapshot)
                        (\<lambda>deps failedAttempt. retryActivityAttempt deps (claim_command claimed) failedAttempt (act_retry node)) error
                  | Inr output \<Rightarrow> runAtomicCompletion input (complete_activity_attempt claimed output))))))"

section \<open>What a worker does with a claimed attempt\<close>

text \<open>\<open>execute\<close> of the execution driver (\<open>entry.ts\<close>): whether the command was processed.\<close>

definition execute_attempt ::
  "WorkerInput \<Rightarrow> ('ctx ActivityNodeImplementation \<Rightarrow> thrown + 'ctx) \<Rightarrow> ('ctx TaskImplementation \<Rightarrow> thrown + 'ctx)
     \<Rightarrow> 'ctx WorkflowImplementation list \<Rightarrow> 'ctx TaskImplementation list \<Rightarrow> AttemptCommand Claim \<Rightarrow> race \<Rightarrow> bool op" where
  "execute_attempt input activityContext taskContext workflows tasks claimed race =
     catch
       (await (case claim_command claimed of
                 ActivityAttempt _ _ _ _ _ _ _ _ _ \<Rightarrow> runActivityAttempt input activityContext workflows claimed race
               | TaskAttempt _ _ _ _ _ _ _ _ _ _ \<Rightarrow> runTaskAttempt input taskContext tasks claimed race) (\<lambda>result.
        ret (result = CommandProcessed)))
       (\<lambda>error.
          if isStaleWorkflowCommandAck error \<or> isAttemptHeartbeatLeaseLost error \<or> isAttemptShutdown error then
            await (ae_release (attemptExecutor (wk_deps input)) claimed \<lparr>ro_error = None, ro_unroutable = False\<rparr>) (\<lambda>_. ret False)
          else
            await (reading rt_host) (\<lambda>host.
            await (ae_release (attemptExecutor (wk_deps input)) claimed
                     \<lparr>ro_error = Some (error_object host error), ro_unroutable = False\<rparr>) (\<lambda>_.
            raise error)))"

text \<open>\<open>execute\<close> of the workflow driver, without an atomic continuation.\<close>

definition execute_continuation ::
  "WorkerInput \<Rightarrow> ('ctx WorkflowImplementation \<Rightarrow> thrown + 'ctx) \<Rightarrow> 'ctx WorkflowImplementation list \<Rightarrow> ContinueRunCommand Claim
     \<Rightarrow> bool op" where
  "execute_continuation input createContext workflows claimed =
     (let deps = wk_deps input;
          release = (\<lambda>error. rce_release (runCoordinationExecutor deps) claimed \<lparr>ro_error = error, ro_unroutable = False\<rparr>)
      in catch
           (await (continueWorkflowRun deps createContext workflows (claim_command claimed)
                     (Some (case wk_leaseMs input of None \<Rightarrow> DEFAULT_LEASE_MS | Some ms \<Rightarrow> ms))) (\<lambda>result.
            if result \<noteq> Processed then await (release None) (\<lambda>_. ret False)
            else await (rce_ack (runCoordinationExecutor deps) claimed) (\<lambda>_. ret True)))
           (\<lambda>error.
              if isStaleWorkflowCommandAck error then await (release None) (\<lambda>_. ret False)
              else
                await (reading rt_host) (\<lambda>host.
                await (release (Some (error_object host error))) (\<lambda>_.
                raise error))))"

end
