(* ===== verification/AttemptSteps.thy ===== *)
theory AttemptSteps
  imports Attempts AdvanceSteps
begin

text \<open>
  Workers take steps of the runtime. The locale \<open>execution\<close> adds to what a coordinator relies on the
  operations of claimed commands: heartbeats, acknowledgements and releases.
\<close>

lemma works_settled: "works P m anything \<Longrightarrow> works P (settled_result m) anything"
  unfolding works_def settled_result_def by (auto split: prod.splits)

text \<open>What others do while a handler runs is a sequence of steps, too.\<close>

primrec race_ok :: "race \<Rightarrow> bool" where
  "race_ok HandlerSettles = True"
| "race_ok (TimerFires rest) = race_ok rest"
| "race_ok (ShutdownSignalled rest) = race_ok rest"
| "race_ok (HeartbeatDue rest) = race_ok rest"
| "race_ok (Elsewhere change rest) = ((\<forall>s. reachable s \<longrightarrow> work_step\<^sup>*\<^sup>* s (change s)) \<and> race_ok rest)"

lemma works_elsewhere: "\<forall>s. reachable s \<longrightarrow> work_step\<^sup>*\<^sup>* s (change s) \<Longrightarrow> works any (doing change) anything"
  by (simp add: works_def doing_def)

text \<open>
  An atomic completion of an adapter is a transaction: the final writes happen as they would on the
  runtime's own interfaces, or the transaction fails and nothing is written.
\<close>

definition transactional :: "RuntimeDeps \<Rightarrow> WorkflowRuntimeAtomicCompletion option \<Rightarrow> bool" where
  "transactional deps completion \<longleftrightarrow> (\<forall>run. completion = Some run \<longrightarrow>
     (\<forall>body s. run body s = body deps s \<or> (\<exists>error. run body s = (Inl error, s))))"

lemma runAtomicCompletion_works:
  assumes "wk_deps input = deps" and "transactional deps (wk_atomicCompletion input)" and "works any (body deps) anything"
  shows "works any (runAtomicCompletion input body) anything"
proof (cases "wk_atomicCompletion input")
  case None
  with assms show ?thesis by (simp add: runAtomicCompletion_def)
next
  case (Some run)
  then have "runAtomicCompletion input body s = body deps s \<or> (\<exists>error. runAtomicCompletion input body s = (Inl error, s))" for s
    using assms(2) by (simp add: transactional_def runAtomicCompletion_def)
  then show ?thesis using assms(3) unfolding works_def by (metis rtranclp.rtrancl_refl snd_conv)
qed

locale execution = coordination +
  assumes works_heartbeat: "works any (ae_heartbeat (attemptExecutor deps) claim ms) anything"
    and works_continue_ack: "works any (rce_ack (runCoordinationExecutor deps) cclaim) anything"
    and works_continue_release: "works any (rce_release (runCoordinationExecutor deps) cclaim opts) anything"
begin

lemmas claim_works = works_heartbeat works_continue_ack works_continue_release

lemma now_works: "works any (total Date_now) anything"
  by (rule works_total) (auto intro: clock_read)

lemmas worker_works =
  works_free store_works claim_works now_works works_reading_any works_sync_any works_raise works_pureRes works_settled
  wakeParentRun_works works_case_prod

lemma finish_works:
  "works any (ack_processed deps claimed) anything" "works any (continue_and_ack deps claimed) anything"
  "works any (complete_node_from deps command v) anything" "works any (fail_node_from deps command e) anything"
  "works any (complete_task_run deps claimed v) anything"
  unfolding ack_processed_def continue_and_ack_def enqueueContinueRun_def complete_node_from_def fail_node_from_def
    complete_task_run_def Let_def
  by (auto intro!: worker_works)

lemma reconcileStaleAttempt_works: "works any (reconcileStaleAttempt deps claimed child attempt) anything"
  unfolding reconcileStaleAttempt_def replay_completion_def replay_failure_def Let_def
  by (auto intro!: worker_works finish_works split: option.split)

lemma retry_works:
  "works any (retryActivityAttempt deps command failedAttempt retry) anything"
  "works any (retryTaskAttempt deps command failedAttempt retry) anything"
  unfolding retryActivityAttempt_def retryTaskAttempt_def retryAttemptCore_def retryDispatchOptions_def Let_def
  by (auto intro!: worker_works)

lemma fail_attempt_writes_works:
  assumes "\<And>a. works any (retry deps a) anything"
  shows "works any (fail_attempt_writes input claimed snapshot retry e deps) anything"
  unfolding fail_attempt_writes_def Let_def
  by (auto intro!: worker_works finish_works assms split: option.split)

lemma complete_attempt_works:
  "works any (complete_task_attempt claimed snapshot v deps) anything"
  "works any (complete_activity_attempt claimed v deps) anything"
  unfolding complete_task_attempt_def complete_activity_attempt_def Let_def
  by (auto intro!: worker_works finish_works split: option.split)

lemma heartbeat_works:
  assumes "wk_deps input = deps" and "race_ok race" and "works any handler anything"
  shows "works any (runWithAttemptHeartbeat input claimed handler timeout race) anything"
  using assms(2)
  by (induction race)
     (auto simp: assms(1) beat_def Let_def intro!: worker_works assms(3) works_elsewhere split: option.split sum.split)

lemma execute_works:
  assumes "wk_deps input = deps" and "race_ok race"
  shows "works any (execute_task input claimed taskContext task race) anything"
    and "works any (execute_activity input claimed activityContext workflow node race) anything"
  unfolding execute_task_def execute_activity_def Let_def
  by (auto intro!: worker_works heartbeat_works[OF assms] split: option.split)

lemma fail_attempt_works:
  assumes "wk_deps input = deps" and "transactional deps (wk_atomicCompletion input)" and "\<And>a. works any (retry deps a) anything"
  shows "works any (fail_attempt input claimed snapshot retry e) anything"
  unfolding fail_attempt_def ackTerminalAttempt_def
  by (auto simp: assms(1) intro!: runAtomicCompletion_works[OF assms(1,2)] worker_works finish_works fail_attempt_writes_works assms(3))

lemma with_fresh_attempt_works:
  assumes "wk_deps input = deps" and "transactional deps (wk_atomicCompletion input)" and "\<And>sn. works any (continue sn) anything"
  shows "works any (with_fresh_attempt input claimed continue) anything"
  unfolding with_fresh_attempt_def ackTerminalAttempt_def release_unroutable_def Let_def
  by (auto simp: assms(1) intro!: runAtomicCompletion_works[OF assms(1,2)] worker_works finish_works reconcileStaleAttempt_works assms(3) split: option.split)

lemma run_attempt_works:
  assumes "wk_deps input = deps" and "transactional deps (wk_atomicCompletion input)" and "race_ok race"
  shows "works any (runTaskAttempt input taskContext tasks claimed race) anything"
    and "works any (runActivityAttempt input activityContext workflows claimed race) anything"
  unfolding runTaskAttempt_def runActivityAttempt_def
  by (auto intro!: runAtomicCompletion_works[OF assms(1,2)] worker_works with_fresh_attempt_works assms(1,2) fail_attempt_works
      retry_works execute_works[OF assms(1,3)] complete_attempt_works simp: assms(1) release_unroutable_def split: AttemptCommand.split option.split sum.split)

lemma execute_attempt_works:
  assumes "wk_deps input = deps" and "transactional deps (wk_atomicCompletion input)" and "race_ok race"
  shows "works any (execute_attempt input activityContext taskContext workflows tasks claimed race) anything"
  unfolding execute_attempt_def
  by (rule works_catch)
     (auto intro!: worker_works run_attempt_works[OF assms] simp: assms(1) split: AttemptCommand.split)

end

lemma memory_claims:
  "works any (ae_heartbeat (attemptExecutor in_memory_deps) claim ms) anything"
  "works any (rce_ack (runCoordinationExecutor in_memory_deps) cclaim) anything"
  "works any (rce_release (runCoordinationExecutor in_memory_deps) cclaim opts) anything"
  unfolding in_memory_deps_def in_memory_attempts_def in_memory_coordination_def record_fields
  by (auto intro: works_op works_doing heartbeat ack_continue release_continue)

interpretation worker: execution in_memory_deps
  by unfold_locales (rule memory_claims)+

lemma execute_continuation_works:
  assumes "wk_deps input = in_memory_deps" and "\<forall>w \<in> set workflows. implementation_ok w"
  shows "works any (execute_continuation input createContext workflows claimed) anything"
  unfolding execute_continuation_def assms(1) Let_def
  by (rule works_catch) (auto intro!: worker.worker_works continueWorkflowRun_works[OF assms(2)])


definition memory_worker :: WorkerInput where
  "memory_worker = \<lparr>wk_deps = in_memory_deps, wk_atomicCompletion = None, wk_leaseMs = None, wk_signal = True\<rparr>"

definition charge_claim :: "AttemptCommand Claim" where
  "charge_claim = \<lparr>claim_id = ''activity-command-4'', claim_command = charge_command, claim_leaseToken = ''attempt-claim-lease-5''\<rparr>"

definition order_claim :: "ContinueRunCommand Claim" where
  "order_claim = \<lparr>claim_id = ''continue-9'', claim_command = continue_order, claim_leaseToken = ''continue-lease-10''\<rparr>"

definition cancelled_meanwhile :: race where
  "cancelled_meanwhile = HeartbeatDue (Elsewhere (\<lambda>s. snd (requestRunCancellation ''run-1'' s)) (HeartbeatDue HandlerSettles))"

text \<open>An adapter that rolls back when the final writes throw.\<close>

definition rolling_back :: WorkflowRuntimeAtomicCompletion where
  "rolling_back body s = (case body in_memory_deps s of (Inl error, _) \<Rightarrow> (Inl error, s) | (Inr x, s') \<Rightarrow> (Inr x, s'))"

definition transactional_worker :: WorkerInput where
  "transactional_worker = memory_worker\<lparr>wk_atomicCompletion := Some rolling_back\<rparr>"

lemma rolling_back_transactional: "transactional in_memory_deps (Some rolling_back)"
  by (auto simp: transactional_def rolling_back_def split: prod.split sum.split)


end
