(* ===== verification/AttemptProperties.thy ===== *)
theory AttemptProperties
  imports AttemptSteps AdvanceProperties
begin

text \<open>
  What the execution of an attempt achieves: a task that returns completes its run, a task that
  throws is retried or fails its run, and a command delivered again after a crash finishes what
  was started.
\<close>

section \<open>The rows of a command\<close>

text \<open>The claim is the one stored in the table of claimed commands.\<close>

definition delivered :: "AttemptCommand Claim \<Rightarrow> runtime \<Rightarrow> bool" where
  "delivered claimed s \<longleftrightarrow> wf_map (claimedAttemptCommands s) \<and> (\<exists>stored. map_get (claimedAttemptCommands s) (claim_id claimed) = Some stored
     \<and> ci_leaseToken stored = claim_leaseToken claimed \<and> qi_payload (ci_item stored) = claim_command claimed)"

definition current_rows :: "AttemptCommand \<Rightarrow> StoredNodeChild \<Rightarrow> StoredAttempt \<Rightarrow> runtime \<Rightarrow> bool" where
  "current_rows command c a s \<longleftrightarrow> map_get (children s) (childKey (child_runId c) (child_nodeName c) (child_childKey c)) = Some c
     \<and> child_runId c = cmd_runId command \<and> child_nodeName c = cmd_nodeName command \<and> child_childKey c = cmd_childKey command
     \<and> child_currentAttemptId c = Some (cmd_attemptId command) \<and> map_get (attempts s) (cmd_attemptId command) = Some a"

lemma find_unique:
  assumes "x \<in> set xs" and "P x" and "\<And>y. y \<in> set xs \<Longrightarrow> P y \<Longrightarrow> y = x"
  shows "find P xs = Some x"
proof (cases "find P xs")
  case None
  with assms(1,2) show ?thesis by (auto simp: find_None_iff)
next
  case (Some y)
  then obtain i where "i < length xs" "P (xs ! i)" "y = xs ! i" unfolding find_Some_iff by (elim exE conjE)
  with assms(3)[of y] Some show ?thesis by simp
qed

lemma snapshot_finds:
  assumes "wf_map m" and "map_get m k = Some x" and "P x" and "Q x"
    and "\<And>k' y. map_get m k' = Some y \<Longrightarrow> Q y \<Longrightarrow> P y \<Longrightarrow> k' = k"
  shows "find P (filter Q (map_values m)) = Some x"
proof (rule find_unique)
  show "x \<in> set (filter Q (map_values m))"
    using assms(2,4) in_map_values[OF assms(1)] unfolding set_filter by blast
  show "y = x" if y: "y \<in> set (filter Q (map_values m))" "P y" for y
  proof -
    from y(1) obtain k' where k': "map_get m k' = Some y" "Q y"
      using in_map_values[OF assms(1)] unfolding set_filter by blast
    from assms(5)[OF this y(2)] k'(1) assms(2) show ?thesis by simp
  qed
qed (rule assms(3))

lemma current_rows_fields:
  assumes "node_inv s" and "current_rows command c a s"
  shows "attempt_id a = cmd_attemptId command" "attempt_runId a = cmd_runId command"
    "attempt_nodeName a = cmd_nodeName command" "attempt_childKey a = cmd_childKey command"
proof -
  obtain k where c: "map_get (children s) k = Some c" "map_get (attempts s) (cmd_attemptId command) = Some a"
      "child_currentAttemptId c = Some (cmd_attemptId command)" "child_runId c = cmd_runId command"
      "child_nodeName c = cmd_nodeName command" "child_childKey c = cmd_childKey command"
    using assms(2) unfolding current_rows_def by (elim conjE) metis
  from node_inv_rows(2)[OF assms(1) c(1)] c(2,3) have "attempt_of a c" by (auto simp: child_row_ok_def current_ok_def)
  with c(4,5,6) show "attempt_runId a = cmd_runId command" "attempt_nodeName a = cmd_nodeName command" "attempt_childKey a = cmd_childKey command"
    by (simp_all add: attempt_of_def)
  show "attempt_id a = cmd_attemptId command" using node_inv_rows(3)[OF assms(1) c(2)] by (simp add: attempt_row_ok_def)
qed

lemma snapshot_rows:
  assumes "reachable s" and "loadRunSnapshot (cmd_runId command) s = Some sn" and "current_rows command c a s"
  shows "find (\<lambda>child. child_nodeName child = cmd_nodeName command \<and> child_childKey child = cmd_childKey command) (snap_children sn) = Some c"
    and "find (\<lambda>attempt. attempt_id attempt = cmd_attemptId command) (snap_attempts sn) = Some a"
proof -
  have inv: "node_inv s" using node_invariant.holds[OF assms(1)] by simp
  then have wf: "wf_map (children s)" "wf_map (attempts s)" by (simp_all add: node_inv_def)
  have sn: "snap_children sn = filter (\<lambda>child. child_runId child = cmd_runId command) (map_values (children s))"
    "snap_attempts sn = filter (\<lambda>attempt. attempt_runId attempt = cmd_runId command) (map_values (attempts s))"
    using assms(2) by (auto simp: loadRunSnapshot_def split: option.splits)
  note rows = assms(3)[unfolded current_rows_def]
  show "find (\<lambda>child. child_nodeName child = cmd_nodeName command \<and> child_childKey child = cmd_childKey command) (snap_children sn) = Some c"
    unfolding sn
  proof (rule snapshot_finds[OF wf(1)])
    show "k = childKey (child_runId c) (child_nodeName c) (child_childKey c)" if "map_get (children s) k = Some y"
      "child_runId y = cmd_runId command" "child_nodeName y = cmd_nodeName command \<and> child_childKey y = cmd_childKey command" for k y
      using node_inv_rows(2)[OF inv that(1)] that(2,3) rows by (simp add: child_row_ok_def)
  qed (use rows in auto)
  show "find (\<lambda>attempt. attempt_id attempt = cmd_attemptId command) (snap_attempts sn) = Some a"
    unfolding sn
  proof (rule snapshot_finds[OF wf(2)])
    show "k = cmd_attemptId command" if "map_get (attempts s) k = Some y" "attempt_id y = cmd_attemptId command" for k y
      using node_inv_rows(3)[OF inv that(1)] that(2) by (simp add: attempt_row_ok_def)
  qed (use rows current_rows_fields[OF inv assms(3)] in auto)
qed

section \<open>What the last writes do\<close>

lemma worker_fields:
  "st_loadRunSnapshot (store in_memory_deps) = (\<lambda>r. reading (loadRunSnapshot r))"
  "st_markRunRunning (store in_memory_deps) = (\<lambda>r. total (markRunRunning r))"
  "st_completeNode (store in_memory_deps) = (\<lambda>r n v. total (completeNode r n v))"
  "st_failNode (store in_memory_deps) = (\<lambda>r n e. total (failNode r n e))"
  "st_completeNodeChild (store in_memory_deps) = (\<lambda>r n k v. total (completeNodeChild r n k v))"
  "st_failNodeChild (store in_memory_deps) = (\<lambda>r n k e. total (failNodeChild r n k e))"
  "st_completeRun (store in_memory_deps) = (\<lambda>r v. total (completeRun r v))"
  "st_failRun (store in_memory_deps) = (\<lambda>r e. total (failRun r e))"
  "st_completeCurrentAttempt (store in_memory_deps) = (\<lambda>a l v. total (completeCurrentAttempt a l v))"
  "st_failCurrentAttempt (store in_memory_deps) = (\<lambda>a l e. total (failCurrentAttempt a l e))"
  "st_createAttempt (store in_memory_deps) = createAttempt"
  "rce_enqueue (runCoordinationExecutor in_memory_deps) = (\<lambda>c. doing (enqueue c))"
  "ae_ack (attemptExecutor in_memory_deps) = ackAttempt"
  "ae_heartbeat (attemptExecutor in_memory_deps) = heartbeat"
  "ae_dispatchTask (attemptExecutor in_memory_deps) = (\<lambda>c t. doing (dispatchTask c t))"
  by (simp_all add: in_memory_deps_def in_memory_store_def in_memory_coordination_def in_memory_attempts_def)

lemma acknowledged:
  assumes "delivered claimed s"
  shows "ack_processed in_memory_deps claimed s
    = (Inr CommandProcessed, s\<lparr>claimedAttemptCommands := map_delete (claim_id claimed) (claimedAttemptCommands s)\<rparr>)"
  using assms by (auto simp: ack_processed_def worker_fields await_def ackAttempt_def delivered_def matchesClaim_def)

lemma calm_claims: "calm s t \<Longrightarrow> claimedAttemptCommands t = claimedAttemptCommands s"
  by (simp add: calm_def view_defs)

lemma enqueue_claims: "claimedAttemptCommands (enqueueContinue c at' s) = claimedAttemptCommands s"
  by (simp add: enqueueContinue_def prim_simps calm_claims[OF calm_wakeCommand] calm_claims[OF calm_queueItem] split: option.split)

lemma woken: "\<exists>t. wakeParentRun in_memory_deps run s = (Inr (), t) \<and> runs t = runs s \<and> claimedAttemptCommands t = claimedAttemptCommands s
    \<and> node_view t = node_view s"
  by (auto simp: wakeParentRun_def worker_fields effect_defs enqueue_def enqueue_runs enqueue_claims frame_simps split: option.split)

text \<open>Writing nodes and attempts changes no run and no claim, writing runs no claim.\<close>

lemma node_writes_keep:
  "runs (snd (completeNode r n v s)) = runs s" "runs (snd (failNode r n e s)) = runs s"
  "runs (snd (completeNodeChild r n k v s)) = runs s" "runs (snd (failNodeChild r n k e s)) = runs s"
  "runs (snd (completeCurrentAttempt a l v s)) = runs s" "runs (snd (failCurrentAttempt a l e s)) = runs s"
  "claimedAttemptCommands (snd (completeNode r n v s)) = claimedAttemptCommands s" "claimedAttemptCommands (snd (failNode r n e s)) = claimedAttemptCommands s"
  "claimedAttemptCommands (snd (completeNodeChild r n k v s)) = claimedAttemptCommands s"
  "claimedAttemptCommands (snd (failNodeChild r n k e s)) = claimedAttemptCommands s"
  "claimedAttemptCommands (snd (completeCurrentAttempt a l v s)) = claimedAttemptCommands s"
  "claimedAttemptCommands (snd (failCurrentAttempt a l e s)) = claimedAttemptCommands s"
  using node_run_frames current_attempt_frames node_queue_frames by (simp_all add: view_defs)

lemma run_writes_keep:
  "claimedAttemptCommands (snd (completeRun r v s)) = claimedAttemptCommands s" "claimedAttemptCommands (snd (failRun r e s)) = claimedAttemptCommands s"
  "claimedAttemptCommands (snd (markRunRunning r s)) = claimedAttemptCommands s"
  using run_status_frames by (simp_all add: view_defs)

text \<open>
  What a row becomes when the work below it ends with a value (\<open>Inr\<close>) or a stored error (\<open>Inl\<close>): a row
  that was final already stays as it is.
\<close>

fun child_settled_as :: "jsval + jsval \<Rightarrow> StoredNodeChild \<Rightarrow> StoredNodeChild \<Rightarrow> bool" where
  "child_settled_as (Inr v) c c' = (if isTerminalNodeStatus (child_status c) then c' = c else child_status c' = NCompleted \<and> child_output c' = Some v)"
| "child_settled_as (Inl e) c c' = (if isTerminalNodeStatus (child_status c) then c' = c else child_status c' = NFailed \<and> child_error c' = Some e)"

fun node_settled_as :: "jsval + jsval \<Rightarrow> StoredNode \<Rightarrow> StoredNode \<Rightarrow> bool" where
  "node_settled_as (Inr v) n n' = (if isTerminalNodeStatus (node_status n) then n' = n else node_status n' = NCompleted \<and> node_output n' = Some v)"
| "node_settled_as (Inl e) n n' = (if isTerminalNodeStatus (node_status n) then n' = n else node_status n' = NFailed \<and> node_error n' = Some e)"

fun run_settled_as :: "jsval + jsval \<Rightarrow> StoredRun \<Rightarrow> bool" where
  "run_settled_as (Inr v) run \<longleftrightarrow> run_status run = RCompleted \<and> run_output run = Some v"
| "run_settled_as (Inl e) run \<longleftrightarrow> run_status run = RFailed \<and> run_error run = Some e"

definition child_row_settled :: "AttemptCommand \<Rightarrow> jsval + jsval \<Rightarrow> runtime \<Rightarrow> runtime \<Rightarrow> bool" where
  "child_row_settled command result s t \<longleftrightarrow>
     (\<forall>c. map_get (children s) (childKey (cmd_runId command) (cmd_nodeName command) (cmd_childKey command)) = Some c \<longrightarrow>
        (\<exists>c'. map_get (children t) (childKey (cmd_runId command) (cmd_nodeName command) (cmd_childKey command)) = Some c'
           \<and> child_settled_as result c c'))"

definition node_row_settled :: "AttemptCommand \<Rightarrow> jsval + jsval \<Rightarrow> runtime \<Rightarrow> runtime \<Rightarrow> bool" where
  "node_row_settled command result s t \<longleftrightarrow>
     (\<forall>n. map_get (nodes s) (nodeKey (cmd_runId command) (cmd_nodeName command)) = Some n \<longrightarrow>
        (\<exists>n'. map_get (nodes t) (nodeKey (cmd_runId command) (cmd_nodeName command)) = Some n' \<and> node_settled_as result n n'))"

lemma node_row_written:
  "node_row_settled command (Inr v) s (snd (completeNode (cmd_runId command) (cmd_nodeName command) v s))"
  "node_row_settled command (Inl (toStoredError (rt_host s) e)) s (snd (failNode (cmd_runId command) (cmd_nodeName command) e s))"
  by (simp_all add: node_row_settled_def completeNode_def failNode_def case_prod_beta Let_def)

lemma child_row_written:
  "child_row_settled command (Inr v) s (snd (completeNodeChild (cmd_runId command) (cmd_nodeName command) (cmd_childKey command) v s))"
  "child_row_settled command (Inl (toStoredError (rt_host s) e)) s (snd (failNodeChild (cmd_runId command) (cmd_nodeName command) (cmd_childKey command) e s))"
  by (simp_all add: child_row_settled_def completeNodeChild_def failNodeChild_def case_prod_beta Let_def)

lemma row_writes_apart:
  "attempts (snd (completeNode r n v s)) = attempts s" "attempts (snd (failNode r n e s)) = attempts s"
  "nodes (snd (completeNodeChild r n k v s)) = nodes s" "nodes (snd (failNodeChild r n k e s)) = nodes s"
  "attempts (snd (completeNodeChild r n k v s)) = attempts s" "attempts (snd (failNodeChild r n k e s)) = attempts s"
  by (simp_all add: completeNode_def failNode_def completeNodeChild_def failNodeChild_def case_prod_beta Let_def split: option.split)

lemma rows_settled_cong:
  "node_view t = node_view t' \<Longrightarrow> node_row_settled command result s t = node_row_settled command result s t'"
  "node_view t = node_view t' \<Longrightarrow> child_row_settled command result s t = child_row_settled command result s t'"
  by (simp_all add: node_row_settled_def child_row_settled_def view_defs)

text \<open>A command that is done: acknowledged, its run completed with the value.\<close>

definition run_completed :: "AttemptCommand Claim \<Rightarrow> jsval \<Rightarrow> runtime \<Rightarrow> bool" where
  "run_completed claimed v t \<longleftrightarrow> (\<exists>run. map_get (runs t) (cmd_runId (claim_command claimed)) = Some run
     \<and> run_status run = RCompleted \<and> run_output run = Some v) \<and> map_get (claimedAttemptCommands t) (claim_id claimed) = None"

lemma completeRun_row:
  assumes "map_get (runs s) r = Some run" and "\<not> isTerminalRunStatus (run_status run)"
  shows "\<exists>run'. map_get (runs (snd (completeRun r v s))) r = Some run' \<and> run_status run' = RCompleted \<and> run_output run' = Some v"
  using completeRun_writes[OF assms, of v] by (auto simp: writes_run_def)

lemma task_run_completed:
  assumes "delivered claimed s" and "map_get (runs s) (cmd_runId (claim_command claimed)) = Some run"
    and "\<not> isTerminalRunStatus (run_status run)"
  shows "\<exists>t. complete_task_run in_memory_deps claimed v s = (Inr CommandProcessed, t) \<and> run_completed claimed v t
    \<and> node_view t = node_view (snd (completeNode (cmd_runId (claim_command claimed)) (cmd_nodeName (claim_command claimed)) v s))"
proof -
  let ?r = "cmd_runId (claim_command claimed)" and ?n = "cmd_nodeName (claim_command claimed)"
  let ?s1 = "snd (completeNode ?r ?n v s)"
  let ?s2 = "snd (completeRun ?r v ?s1)"
  obtain t where t: "wakeParentRun in_memory_deps (fst (completeRun ?r v ?s1)) ?s2 = (Inr (), t)" "runs t = runs ?s2"
      "claimedAttemptCommands t = claimedAttemptCommands ?s2" "node_view t = node_view ?s2"
    using woken by blast
  have "delivered claimed t" using assms(1) by (simp add: delivered_def t(3) run_writes_keep node_writes_keep)
  from acknowledged[OF this] have "complete_task_run in_memory_deps claimed v s
      = (Inr CommandProcessed, t\<lparr>claimedAttemptCommands := map_delete (claim_id claimed) (claimedAttemptCommands t)\<rparr>)"
    using t(1) by (simp add: complete_task_run_def Let_def worker_fields await_def total_def)
  moreover have "map_get (runs ?s1) ?r = Some run" using assms(2) by (simp add: node_writes_keep)
  from completeRun_row[OF this assms(3), of v] t(2) have "run_completed claimed v
      (t\<lparr>claimedAttemptCommands := map_delete (claim_id claimed) (claimedAttemptCommands t)\<rparr>)"
    by (simp add: run_completed_def)
  moreover have "node_view (t\<lparr>claimedAttemptCommands := map_delete (claim_id claimed) (claimedAttemptCommands t)\<rparr>) = node_view ?s1"
    using t(4) run_status_frames by (simp add: view_defs)
  ultimately show ?thesis by blast
qed

text \<open>The route of a delivered command of a task, on the store of the runtime.\<close>

lemma with_fresh_attempt_routes:
  assumes "reachable s" and "wk_deps input = in_memory_deps" "wk_atomicCompletion input = None"
    and run: "map_get (runs s) (cmd_runId (claim_command claimed)) = Some run" "\<not> isTerminalRunStatus (run_status run)"
    and rows: "current_rows (claim_command claimed) c a s"
  shows "attempt_status a \<noteq> AStarted \<Longrightarrow>
      with_fresh_attempt input claimed continue s = reconcileStaleAttempt in_memory_deps claimed (Some c) (Some a) s"
    and "attempt_status a = AStarted \<Longrightarrow> attempt_leaseToken a = cmd_leaseToken (claim_command claimed) \<Longrightarrow>
      run_workflowName run = cmd_workflowName (claim_command claimed) \<Longrightarrow>
      \<exists>sn. snap_run sn = run \<and> with_fresh_attempt input claimed continue s = continue sn s"
proof -
  obtain sn where sn: "loadRunSnapshot (cmd_runId (claim_command claimed)) s = Some sn" "snap_run sn = run"
    using run(1) by (simp add: loadRunSnapshot_def)
  note found = snapshot_rows[OF assms(1) sn(1) rows]
  have current: "child_currentAttemptId c = Some (cmd_attemptId (claim_command claimed))"
    using rows by (simp add: current_rows_def)
  show "with_fresh_attempt input claimed continue s = reconcileStaleAttempt in_memory_deps claimed (Some c) (Some a) s"
    if "attempt_status a \<noteq> AStarted"
    using that sn run(2) found
    by (simp add: with_fresh_attempt_def Let_def assms(2,3) worker_fields await_def reading_def isFreshAttempt_def runAtomicCompletion_def)
  show "\<exists>sn. snap_run sn = run \<and> with_fresh_attempt input claimed continue s = continue sn s"
    if "attempt_status a = AStarted" "attempt_leaseToken a = cmd_leaseToken (claim_command claimed)"
      "run_workflowName run = cmd_workflowName (claim_command claimed)"
    using that sn run(2) found current
    by (intro exI[of _ sn])
       (simp add: with_fresh_attempt_def Let_def assms(2,3) worker_fields await_def reading_def isFreshAttempt_def)
qed

definition run_failed :: "AttemptCommand Claim \<Rightarrow> jsval \<Rightarrow> runtime \<Rightarrow> bool" where
  "run_failed claimed e t \<longleftrightarrow> (\<exists>run. map_get (runs t) (cmd_runId (claim_command claimed)) = Some run
     \<and> run_status run = RFailed \<and> run_error run = Some e) \<and> map_get (claimedAttemptCommands t) (claim_id claimed) = None"

lemma task_run_failed:
  assumes "delivered claimed s" and "map_get (runs s) (cmd_runId (claim_command claimed)) = Some run"
    and "\<not> isTerminalRunStatus (run_status run)"
  shows "\<exists>t. await (st_failRun (store in_memory_deps) (cmd_runId (claim_command claimed)) e) (\<lambda>failed.
      await (wakeParentRun in_memory_deps failed) (\<lambda>_. ack_processed in_memory_deps claimed)) s = (Inr CommandProcessed, t)
    \<and> run_failed claimed (toStoredError (rt_host s) e) t \<and> node_view t = node_view s"
proof -
  let ?r = "cmd_runId (claim_command claimed)"
  let ?s1 = "snd (failRun ?r e s)"
  obtain t where t: "wakeParentRun in_memory_deps (fst (failRun ?r e s)) ?s1 = (Inr (), t)" "runs t = runs ?s1"
      "claimedAttemptCommands t = claimedAttemptCommands ?s1" "node_view t = node_view ?s1"
    using woken by blast
  have "delivered claimed t" using assms(1) by (simp add: delivered_def t(3) run_writes_keep)
  note acknowledged[OF this]
  moreover have "run_failed claimed (toStoredError (rt_host s) e)
      (t\<lparr>claimedAttemptCommands := map_delete (claim_id claimed) (claimedAttemptCommands t)\<rparr>)"
    using failRun_writes[OF assms(2,3), of e] by (auto simp: run_failed_def writes_run_def t(2))
  moreover have "node_view (t\<lparr>claimedAttemptCommands := map_delete (claim_id claimed) (claimedAttemptCommands t)\<rparr>) = node_view s"
    using t(4) run_status_frames by (simp add: view_defs)
  ultimately show ?thesis using t(1) by (simp add: worker_fields await_def total_def)
qed

section \<open>A command delivered again\<close>

lemma executed_attempt:
  assumes "claim_command claimed = TaskAttempt w task r n k i l v idem timeout \<Longrightarrow>
      runTaskAttempt input taskContext tasks claimed race s = (Inr result, t)"
    and "claim_command claimed = ActivityAttempt w task r n k i l v idem \<Longrightarrow>
      runActivityAttempt input activityContext workflows claimed race s = (Inr result, t)"
    and "claim_command claimed = TaskAttempt w task r n k i l v idem timeout \<or> claim_command claimed = ActivityAttempt w task r n k i l v idem"
  shows "execute_attempt input activityContext taskContext workflows tasks claimed race s = (Inr (result = CommandProcessed), t)"
  using assms by (auto simp: execute_attempt_def catch_def await_def)

lemma executed_task:
  assumes "claim_command claimed = TaskAttempt w task r n k i l v idem timeout"
    and "runTaskAttempt input taskContext tasks claimed race s = (Inr result, t)"
  shows "execute_attempt input activityContext taskContext workflows tasks claimed race s = (Inr (result = CommandProcessed), t)"
  using assms by (intro executed_attempt) auto

text \<open>
  Everything that is left to do for a settled attempt: the child and, unless the node collects several
  children, the node are settled the same way; the run of a task is settled, the run of a workflow
  has a continue command; the command is acknowledged.
\<close>

definition replayed :: "AttemptCommand Claim \<Rightarrow> jsval + jsval \<Rightarrow> StoredRun \<Rightarrow> runtime \<Rightarrow> runtime \<Rightarrow> bool" where
  "replayed claimed result run s t \<longleftrightarrow>
     map_get (claimedAttemptCommands t) (claim_id claimed) = None \<and> attempts t = attempts s
     \<and> child_row_settled (claim_command claimed) result s t
     \<and> (if run_kind run = TaskRun \<or> shouldCompleteNodeFromAttempt (nums (rt_host s)) (cmd_childKey (claim_command claimed))
        then node_row_settled (claim_command claimed) result s t else nodes t = nodes s)
     \<and> (\<exists>run'. map_get (runs t) (cmd_runId (claim_command claimed)) = Some run'
          \<and> (if run_kind run = TaskRun then run_settled_as result run'
             else run' = run \<and> (\<exists>item \<in> set (continueRunCommands t). qi_deadAt item = None
                                  \<and> cont_runId (qi_payload item) = cmd_runId (claim_command claimed))))"

lemma continued:
  assumes "delivered claimed s"
  shows "\<exists>t. continue_and_ack in_memory_deps claimed s = (Inr CommandProcessed, t) \<and> node_view t = node_view s \<and> runs t = runs s
    \<and> map_get (claimedAttemptCommands t) (claim_id claimed) = None
    \<and> (\<exists>item \<in> set (continueRunCommands t). qi_deadAt item = None \<and> cont_runId (qi_payload item) = cmd_runId (claim_command claimed))"
proof -
  let ?cc = "\<lparr>cont_runId = cmd_runId (claim_command claimed), cont_workflowName = cmd_workflowName (claim_command claimed)\<rparr>"
  let ?u = "enqueueContinue ?cc None s"
  have "delivered claimed ?u" using assms by (simp add: delivered_def enqueue_claims)
  from acknowledged[OF this] have "continue_and_ack in_memory_deps claimed s
      = (Inr CommandProcessed, ?u\<lparr>claimedAttemptCommands := map_delete (claim_id claimed) (claimedAttemptCommands ?u)\<rparr>)"
    by (simp add: continue_and_ack_def enqueueContinueRun_def worker_fields await_def doing_def enqueue_def)
  moreover have "node_view ?u = node_view s" "runs ?u = runs s" by (simp_all add: frame_simps enqueue_runs)
  ultimately show ?thesis
    using enqueueContinue_queued[of ?cc None s] by (auto simp: view_defs)
qed

lemma settled_then_continued:
  assumes "delivered claimed s" and "map_get (runs s) (cmd_runId (claim_command claimed)) = Some run" and "run_kind run \<noteq> TaskRun"
    and "rt_host u = rt_host s" "runs u = runs s" "claimedAttemptCommands u = claimedAttemptCommands s" "attempts u = attempts s"
    and "child_row_settled (claim_command claimed) result s u"
    and "if shouldCompleteNodeFromAttempt (nums (rt_host s)) (cmd_childKey (claim_command claimed))
      then node_row_settled (claim_command claimed) result s u else nodes u = nodes s"
  shows "\<exists>t. continue_and_ack in_memory_deps claimed u = (Inr CommandProcessed, t) \<and> replayed claimed result run s t"
proof -
  have "delivered claimed u" using assms(1,6) by (simp add: delivered_def)
  from continued[OF this] obtain t where t: "continue_and_ack in_memory_deps claimed u = (Inr CommandProcessed, t)"
      "node_view t = node_view u" "runs t = runs u" "map_get (claimedAttemptCommands t) (claim_id claimed) = None"
      "\<exists>item \<in> set (continueRunCommands t). qi_deadAt item = None \<and> cont_runId (qi_payload item) = cmd_runId (claim_command claimed)"
    by (elim exE conjE) (rule that)
  have "attempts t = attempts s" "nodes t = nodes u" using t(2) assms(7) by (simp_all add: view_defs)
  then have "replayed claimed result run s t"
    using assms(2,3,5,8,9) t(3-5) rows_settled_cong[OF t(2)] by (simp add: replayed_def)
  with t(1) show ?thesis by blast
qed

lemma node_writes_host:
  "rt_host (snd (completeNode r n v s)) = rt_host s" "rt_host (snd (completeNodeChild r n k v s)) = rt_host s"
  "rt_host (snd (failNode r n e s)) = rt_host s" "rt_host (snd (failNodeChild r n k e s)) = rt_host s"
  "rt_host (snd (failCurrentAttempt a l e s)) = rt_host s"
  using node_run_frames current_attempt_frames by (simp_all add: view_defs)

text \<open>Settling the child and then the node: each write leaves the other row alone.\<close>

lemma settled_in_turn:
  assumes "child_row_settled command result s u" "nodes u = nodes s" and "node_row_settled command result u w" "children w = children u"
  shows "child_row_settled command result s w" "node_row_settled command result s w"
  using assms by (simp_all add: child_row_settled_def node_row_settled_def)

lemma completion_replayed:
  assumes "delivered claimed s" and run: "map_get (runs s) (cmd_runId (claim_command claimed)) = Some run" "\<not> isTerminalRunStatus (run_status run)"
  shows "\<exists>t. replay_completion in_memory_deps claimed v s = (Inr CommandProcessed, t) \<and> replayed claimed (Inr v) run s t"
proof -
  let ?c = "claim_command claimed"
  let ?u = "snd (completeNodeChild (cmd_runId ?c) (cmd_nodeName ?c) (cmd_childKey ?c) v s)"
  let ?w = "snd (completeNode (cmd_runId ?c) (cmd_nodeName ?c) v ?u)"
  note child = child_row_written(1)[of ?c v s]
  note both = settled_in_turn[OF child row_writes_apart(3) node_row_written(1)[of ?c v ?u] node_ops_children(4)]
  have kind: "is_task_run (loadRunSnapshot (cmd_runId ?c) ?u) \<longleftrightarrow> run_kind run = TaskRun"
    using run(1) by (simp add: is_task_run_def loadRunSnapshot_def node_writes_keep)
  show ?thesis
  proof (cases "run_kind run = TaskRun")
    case True
    have "delivered claimed ?u" "map_get (runs ?u) (cmd_runId ?c) = Some run" using assms(1) run(1) by (simp_all add: delivered_def node_writes_keep)
    from task_run_completed[OF this run(2), of v] obtain t where
      t: "complete_task_run in_memory_deps claimed v ?u = (Inr CommandProcessed, t)" "run_completed claimed v t" "node_view t = node_view ?w" by blast
    have "attempts t = attempts s" using t(3) by (simp add: view_defs row_writes_apart)
    with t(2) True both have "replayed claimed (Inr v) run s t"
      unfolding replayed_def rows_settled_cong[OF t(3)] by (simp add: run_completed_def)
    moreover have "replay_completion in_memory_deps claimed v s = complete_task_run in_memory_deps claimed v ?u"
      using kind True by (simp add: replay_completion_def Let_def worker_fields await_def total_def reading_def)
    ultimately show ?thesis using t(1) by auto
  next
    case False
    let ?x = "if shouldCompleteNodeFromAttempt (nums (rt_host s)) (cmd_childKey ?c) then ?w else ?u"
    have "replay_completion in_memory_deps claimed v s = continue_and_ack in_memory_deps claimed ?x"
      using kind False
      by (simp add: replay_completion_def complete_node_from_def Let_def worker_fields await_def total_def reading_def node_writes_host)
    moreover have "\<exists>t. continue_and_ack in_memory_deps claimed ?x = (Inr CommandProcessed, t) \<and> replayed claimed (Inr v) run s t"
      by (rule settled_then_continued[OF assms(1) run(1) False])
         (simp_all add: node_writes_host node_writes_keep row_writes_apart both child)
    ultimately show ?thesis by simp
  qed
qed

lemma failure_replayed:
  assumes "delivered claimed s" and run: "map_get (runs s) (cmd_runId (claim_command claimed)) = Some run" "\<not> isTerminalRunStatus (run_status run)"
  shows "\<exists>t. replay_failure in_memory_deps claimed e s = (Inr CommandProcessed, t) \<and> replayed claimed (Inl (toStoredError (rt_host s) e)) run s t"
proof -
  let ?c = "claim_command claimed" and ?e = "toStoredError (rt_host s) e"
  let ?u = "snd (failNodeChild (cmd_runId ?c) (cmd_nodeName ?c) (cmd_childKey ?c) e s)"
  let ?w = "snd (failNode (cmd_runId ?c) (cmd_nodeName ?c) e ?u)"
  note child = child_row_written(2)[of ?c s e]
  have node: "node_row_settled ?c (Inl ?e) ?u ?w" using node_row_written(2)[of ?c ?u e] by (simp add: node_writes_host)
  note both = settled_in_turn[OF child row_writes_apart(4) node node_ops_children(5)]
  have kind: "is_task_run (loadRunSnapshot (cmd_runId ?c) ?u) \<longleftrightarrow> run_kind run = TaskRun"
    using run(1) by (simp add: is_task_run_def loadRunSnapshot_def node_writes_keep)
  show ?thesis
  proof (cases "run_kind run = TaskRun")
    case True
    have "delivered claimed ?w" "map_get (runs ?w) (cmd_runId ?c) = Some run" using assms(1) run(1) by (simp_all add: delivered_def node_writes_keep)
    from task_run_failed[OF this run(2), of e] obtain t where
      t: "await (st_failRun (store in_memory_deps) (cmd_runId ?c) e) (\<lambda>failed.
        await (wakeParentRun in_memory_deps failed) (\<lambda>_. ack_processed in_memory_deps claimed)) ?w = (Inr CommandProcessed, t)"
        "run_failed claimed ?e t" "node_view t = node_view ?w"
      by (auto simp: node_writes_host)
    have "attempts t = attempts s" using t(3) by (simp add: view_defs row_writes_apart)
    with t(2) True both have "replayed claimed (Inl ?e) run s t"
      unfolding replayed_def rows_settled_cong[OF t(3)] by (simp add: run_failed_def)
    moreover have "replay_failure in_memory_deps claimed e s = await (st_failRun (store in_memory_deps) (cmd_runId ?c) e) (\<lambda>failed.
        await (wakeParentRun in_memory_deps failed) (\<lambda>_. ack_processed in_memory_deps claimed)) ?w"
      using kind True by (simp add: replay_failure_def Let_def worker_fields await_def total_def reading_def)
    ultimately show ?thesis using t(1) by auto
  next
    case False
    let ?x = "if shouldCompleteNodeFromAttempt (nums (rt_host s)) (cmd_childKey ?c) then ?w else ?u"
    have "replay_failure in_memory_deps claimed e s = continue_and_ack in_memory_deps claimed ?x"
      using kind False
      by (simp add: replay_failure_def fail_node_from_def Let_def worker_fields await_def total_def reading_def node_writes_host)
    moreover have "\<exists>t. continue_and_ack in_memory_deps claimed ?x = (Inr CommandProcessed, t) \<and> replayed claimed (Inl ?e) run s t"
      by (rule settled_then_continued[OF assms(1) run(1) False])
         (simp_all add: node_writes_host node_writes_keep row_writes_apart both child)
    ultimately show ?thesis by simp
  qed
qed

text \<open>What the settled attempt \<open>a\<close> of command \<open>i\<close> came to: its output, or its error as it is stored again.\<close>

definition attempt_result :: "host \<Rightarrow> string \<Rightarrow> StoredAttempt \<Rightarrow> jsval + jsval" where
  "attempt_result h i a =
     (if attempt_status a = ACompleted then Inr (or_undefined (attempt_output a))
      else Inl (toStoredError h (error_or (attempt_error a) (''Workflow attempt ['' @ i @ ''] failed''))))"

lemma reconciled:
  assumes "delivered claimed s" and "map_get (runs s) (cmd_runId (claim_command claimed)) = Some run" "\<not> isTerminalRunStatus (run_status run)"
    and "child_currentAttemptId c = Some (cmd_attemptId (claim_command claimed))" and "attempt_status a \<in> {ACompleted, AFailed, ATimedOut}"
  shows "\<exists>t. reconcileStaleAttempt in_memory_deps claimed (Some c) (Some a) s = (Inr CommandProcessed, t)
    \<and> replayed claimed (attempt_result (rt_host s) (cmd_attemptId (claim_command claimed)) a) run s t"
proof (cases "attempt_status a = ACompleted")
  case True
  with completion_replayed[OF assms(1-3), of "or_undefined (attempt_output a)"] assms(4) show ?thesis
    by (simp add: reconcileStaleAttempt_def attempt_result_def Let_def)
next
  case False
  with assms(5) have "isFailedAttemptStatus (attempt_status a)" by (auto simp: isFailedAttemptStatus_def)
  with False failure_replayed[OF assms(1-3)] assms(4) show ?thesis
    by (simp add: reconcileStaleAttempt_def attempt_result_def Let_def)
qed

text \<open>
  C35: a crash after an attempt was settled is repaired. When the command of an attempt, of a task or an
  activity, is delivered again while the attempt is already completed, failed or timed out and its
  run is still active, executing the command finishes what was left to do with the output or the
  error of the attempt: the child, the node (unless it collects several children) and, for a task
  run, the run are settled the same way wherever they were not final yet, the run of a workflow
  gets a continue command, the attempt stays as it is, and the command is acknowledged.
\<close>

theorem settled_attempt_is_replayed:
  assumes "reachable s" and "wk_deps input = in_memory_deps" "wk_atomicCompletion input = None"
    and "claim_command claimed = TaskAttempt w name r n k i l v idem timeout \<or> claim_command claimed = ActivityAttempt w name r n k i l v idem"
    and "delivered claimed s" and "map_get (runs s) r = Some run" "\<not> isTerminalRunStatus (run_status run)"
    and "current_rows (claim_command claimed) c a s" and "attempt_status a \<in> {ACompleted, AFailed, ATimedOut}"
  shows "\<exists>t. execute_attempt input activityContext taskContext workflows tasks claimed race s = (Inr True, t)
    \<and> replayed claimed (attempt_result (rt_host s) i a) run s t"
proof -
  have ids: "cmd_runId (claim_command claimed) = r" "cmd_attemptId (claim_command claimed) = i" using assms(4) by auto
  have run: "map_get (runs s) (cmd_runId (claim_command claimed)) = Some run" using assms(6) ids(1) by simp
  have current: "child_currentAttemptId c = Some (cmd_attemptId (claim_command claimed))" using assms(8) by (simp add: current_rows_def)
  from reconciled[OF assms(5) run assms(7) current assms(9)] obtain t where
    t: "reconcileStaleAttempt in_memory_deps claimed (Some c) (Some a) s = (Inr CommandProcessed, t)"
      "replayed claimed (attempt_result (rt_host s) i a) run s t" unfolding ids(2) by blast
  have "attempt_status a \<noteq> AStarted" using assms(9) by auto
  note routed = with_fresh_attempt_routes(1)[OF assms(1,2,3) run assms(7,8) this]
  have "execute_attempt input activityContext taskContext workflows tasks claimed race s = (Inr (CommandProcessed = CommandProcessed), t)"
    by (rule executed_attempt[OF _ _ assms(4)]) (simp_all add: runTaskAttempt_def runActivityAttempt_def routed t(1))
  with t(2) show ?thesis by auto
qed

section \<open>A fresh execution\<close>

text \<open>A race in which nothing but heartbeats comes before the handler settles.\<close>

primrec undisturbed :: "race \<Rightarrow> bool" where
  "undisturbed HandlerSettles = True"
| "undisturbed (TimerFires rest) = False"
| "undisturbed (ShutdownSignalled rest) = False"
| "undisturbed (HeartbeatDue rest) = undisturbed rest"
| "undisturbed (Elsewhere change rest) = False"

definition live_run :: "AttemptCommand Claim \<Rightarrow> StoredRun \<Rightarrow> runtime \<Rightarrow> bool" where
  "live_run claimed run s \<longleftrightarrow> map_get (runs s) (cmd_runId (claim_command claimed)) = Some run
     \<and> \<not> isTerminalRunStatus (run_status run) \<and> run_status run \<noteq> RCancelling"

lemma beat_goes_on:
  assumes "wk_deps input = in_memory_deps" and "delivered claimed s" and "live_run claimed run s"
  shows "\<exists>t. beat input claimed continue s = continue t \<and> delivered claimed t \<and> same_rows s t"
proof -
  obtain stored where stored: "map_get (claimedAttemptCommands s) (claim_id claimed) = Some stored"
      "ci_leaseToken stored = claim_leaseToken claimed"
      "qi_payload (ci_item stored) = claim_command claimed" "wf_map (claimedAttemptCommands s)"
    using assms(2) by (auto simp: delivered_def)
  let ?ms = "case wk_leaseMs input of None \<Rightarrow> DEFAULT_LEASE_MS | Some ms \<Rightarrow> ms"
  let ?t = "snd (heartbeat claimed (Some ?ms) s)"
  have "fst (heartbeat claimed (Some ?ms) s) = Inr (run_status run)"
    using stored assms(3) by (simp add: heartbeat_def matchesClaim_def Let_def case_prod_beta live_run_def)
  then have "beat input claimed continue s = continue ?t"
    using assms(3) by (simp add: beat_def Let_def assms(1) worker_fields await_def settled_result_def case_prod_beta live_run_def)
  moreover have "delivered claimed ?t"
    using stored by (simp add: delivered_def matchesClaim_def heartbeat_def Let_def case_prod_beta)
  moreover have "same_rows s ?t" using executor_later(6)[of s claimed "Some ?ms"] by (simp add: same_rows_def frame_simps later_def)
  ultimately show ?thesis by blast
qed

lemma same_rows_refl: "same_rows s s" and same_rows_trans: "same_rows s t \<Longrightarrow> same_rows t u \<Longrightarrow> same_rows s u"
  by (simp_all add: same_rows_def)

lemma same_rows_live: "same_rows s t \<Longrightarrow> live_run claimed run s \<Longrightarrow> live_run claimed run t"
  by (simp add: same_rows_def live_run_def view_defs)

lemma undisturbed_settles:
  assumes "wk_deps input = in_memory_deps" and "undisturbed race" and "delivered claimed s" and "live_run claimed run s"
  shows "\<exists>t. runWithAttemptHeartbeat input claimed handler timeout race s = handler t \<and> delivered claimed t \<and> same_rows s t"
  using assms(2,3,4)
proof (induction race arbitrary: s)
  case HandlerSettles
  then show ?case by (auto intro: same_rows_refl)
next
  case (HeartbeatDue rest)
  from beat_goes_on[OF assms(1) HeartbeatDue.prems(2,3)] obtain t where
    t: "beat input claimed (runWithAttemptHeartbeat input claimed handler timeout rest) s = runWithAttemptHeartbeat input claimed handler timeout rest t"
      "delivered claimed t" "same_rows s t" by blast
  from HeartbeatDue.IH[OF _ t(2) same_rows_live[OF t(3) HeartbeatDue.prems(3)]] HeartbeatDue.prems(1) t(1,3) show ?case
    by (auto intro: same_rows_trans)
qed simp_all

text \<open>What a task returns: its context, its handler, and its output schema.\<close>

definition task_result :: "('ctx TaskImplementation \<Rightarrow> thrown + 'ctx) \<Rightarrow> 'ctx TaskImplementation \<Rightarrow> jsval \<Rightarrow> thrown + jsval" where
  "task_result createContext task v =
     (case createContext task of
        Inl e \<Rightarrow> Inl e
      | Inr ctx \<Rightarrow>
          (case ti_handler task ctx v of
             Inl e \<Rightarrow> Inl e
           | Inr output \<Rightarrow> decodeSchemaValue (task_output (ti_task task)) output (''task output ['' @ task_name (ti_task task) @ '']'')))"

lemma task_executed:
  assumes "wk_deps input = in_memory_deps" and "undisturbed race" and "delivered claimed s" and "live_run claimed run s"
  shows "\<exists>t. settled_result (execute_task input claimed createContext task race) s
      = (Inr (map_sum Thrown id (task_result createContext task (cmd_input (claim_command claimed)))), t) \<and> delivered claimed t \<and> same_rows s t"
proof -
  let ?handler = "await (sync (createContext task)) (\<lambda>ctx. sync (ti_handler task ctx (cmd_input (claim_command claimed))))"
  let ?timeout = "parseDurationMs (nums (rt_host s)) (option_or (cmd_timeout (claim_command claimed)) (task_timeout (ti_task task)))"
  from undisturbed_settles[OF assms, of ?handler ?timeout] obtain t where
    t: "runWithAttemptHeartbeat input claimed ?handler ?timeout race s = ?handler t" "delivered claimed t" "same_rows s t" by blast
  then show ?thesis
    by (intro exI[of _ t])
       (auto simp: settled_result_def execute_task_def await_def reading_def sync_def task_result_def split: sum.split)
qed

lemma fenced_current:
  assumes "reachable s" and "current_rows (claim_command claimed) c a s"
    and "attempt_status a = AStarted" "attempt_leaseToken a = cmd_leaseToken (claim_command claimed)" "\<not> isTerminalNodeStatus (child_status c)"
  shows "fencedCurrentAttempt (cmd_attemptId (claim_command claimed)) (cmd_leaseToken (claim_command claimed)) s = Some (a, c)"
proof -
  have "node_inv s" using node_invariant.holds[OF assms(1)] by simp
  note fields = current_rows_fields[OF this assms(2)]
  note rows = assms(2)[unfolded current_rows_def]
  have "map_get (children s) (childKey (attempt_runId a) (attempt_nodeName a) (attempt_childKey a)) = Some c"
    using rows fields by metis
  with rows assms(3,4,5) show ?thesis by (simp add: fencedCurrentAttempt_def)
qed

lemma fenced_cong: "node_view t = node_view s \<Longrightarrow> fencedCurrentAttempt i l t = fencedCurrentAttempt i l s"
  by (auto simp: fencedCurrentAttempt_def view_defs split: option.split)

lemma marked_running:
  assumes "live_run claimed run s" and "delivered claimed s"
  shows "\<exists>run'. live_run claimed run' (snd (markRunRunning (cmd_runId (claim_command claimed)) s)) \<and> run_kind run' = run_kind run"
    and "delivered claimed (snd (markRunRunning (cmd_runId (claim_command claimed)) s))"
    and "node_view (snd (markRunRunning (cmd_runId (claim_command claimed)) s)) = node_view s"
proof -
  let ?r = "cmd_runId (claim_command claimed)"
  have row: "map_get (runs s) ?r = Some run" using assms(1) by (simp add: live_run_def)
  show "\<exists>run'. live_run claimed run' (snd (markRunRunning ?r s)) \<and> run_kind run' = run_kind run"
  proof (cases "canTransition RUN_TRANSITIONS (run_status run) RRunning")
    case True
    from markRunRunning_writes[OF row True] show ?thesis by (auto simp: writes_run_def live_run_def isTerminalRunStatus_def)
  next
    case False
    then have "snd (markRunRunning ?r s) = s" using row by (intro run_status_quiet(1)) simp
    with assms(1) show ?thesis by auto
  qed
qed (use assms(2) in \<open>simp_all add: delivered_def run_writes_keep frame_simps\<close>)

text \<open>A task command whose attempt is fresh reaches the handler.\<close>

lemma fresh_task_executes:
  assumes "reachable s" and "wk_deps input = in_memory_deps" "wk_atomicCompletion input = None"
    and "claim_command claimed = TaskAttempt w task r n k i l v idem timeout" and "delivered claimed s"
    and "live_run claimed run s" "run_kind run = TaskRun" "run_workflowName run = w"
    and "current_rows (claim_command claimed) c a s" "attempt_status a = AStarted" "attempt_leaseToken a = l"
    and "\<not> isTerminalNodeStatus (child_status c)"
    and "createTaskMap tasks = Inr registry" "map_get registry task = Some impl" and "undisturbed race"
  shows "\<exists>t sn run'. delivered claimed t \<and> live_run claimed run' t \<and> fencedCurrentAttempt i l t = Some (a, c)
    \<and> node_view t = node_view s \<and> rt_host t = rt_host s \<and> nextId s \<le> nextId t \<and> snap_run sn = run
    \<and> runTaskAttempt input taskContext tasks claimed race s =
        (case task_result taskContext impl v of
           Inl e \<Rightarrow> fail_attempt input claimed (Some sn)
             (\<lambda>deps failedAttempt. retryTaskAttempt deps (claim_command claimed) failedAttempt (task_retry (ti_task impl))) (Thrown e) t
         | Inr output \<Rightarrow> complete_task_attempt claimed sn output in_memory_deps t)"
proof -
  have row: "map_get (runs s) (cmd_runId (claim_command claimed)) = Some run" "\<not> isTerminalRunStatus (run_status run)"
    using assms(6) by (simp_all add: live_run_def)
  let ?s1 = "snd (markRunRunning (cmd_runId (claim_command claimed)) s)"
  obtain run1 where run1: "live_run claimed run1 ?s1" using marked_running(1)[OF assms(6,5)] by blast
  from task_executed[OF assms(2,15) marked_running(2)[OF assms(6,5)] run1, of taskContext impl] obtain t where
    t: "settled_result (execute_task input claimed taskContext impl race) ?s1 = (Inr (map_sum Thrown id (task_result taskContext impl v)), t)"
      "delivered claimed t" "same_rows ?s1 t" using assms(4) by auto
  have views: "node_view t = node_view s" "rt_host t = rt_host s" "nextId s \<le> nextId t"
    using t(3) marked_running(3)[OF assms(6,5)]
    by (auto simp: same_rows_def view_defs markRunRunning_def prim_simps split: option.splits if_splits)
  have "fencedCurrentAttempt i l t = Some (a, c)"
    using fenced_current[OF assms(1,9,10)] assms(4,11,12) fenced_cong[OF views(1)] by simp
  moreover define continue where "continue = (\<lambda>snapshot.
          await (pureRes (createTaskMap tasks)) (\<lambda>registry.
          case map_get registry task of
            None \<Rightarrow> release_unroutable input claimed (''No registered task implementation ['' @ task @ '']'')
          | Some task \<Rightarrow>
              await (if run_kind (snap_run snapshot) = TaskRun
                     then await (st_markRunRunning (store (wk_deps input)) r) (\<lambda>_. ret ())
                     else ret ()) (\<lambda>_.
              await (settled_result (execute_task input claimed taskContext task race)) (\<lambda>result.
              case result of
                Inl error \<Rightarrow>
                  fail_attempt input claimed (Some snapshot)
                    (\<lambda>deps failedAttempt. retryTaskAttempt deps (claim_command claimed) failedAttempt (task_retry (ti_task task))) error
              | Inr output \<Rightarrow> runAtomicCompletion input (complete_task_attempt claimed snapshot output)))))"
  have "runTaskAttempt input taskContext tasks claimed race s = with_fresh_attempt input claimed continue s"
    using assms(4) by (simp add: runTaskAttempt_def continue_def)
  moreover obtain sn where sn: "snap_run sn = run" "with_fresh_attempt input claimed continue s = continue sn s"
    using with_fresh_attempt_routes(2)[OF assms(1,2,3) row assms(9,10)] assms(4,8,11) by auto
  moreover have "continue sn s = (case task_result taskContext impl v of
           Inl e \<Rightarrow> fail_attempt input claimed (Some sn)
             (\<lambda>deps failedAttempt. retryTaskAttempt deps (claim_command claimed) failedAttempt (task_retry (ti_task impl))) (Thrown e) t
         | Inr output \<Rightarrow> complete_task_attempt claimed sn output in_memory_deps t)"
    using t(1) assms(4,7,14) sn(1)
    by (cases "task_result taskContext impl v")
       (simp_all add: continue_def pure_await assms(2,3,13) worker_fields await_def total_def runAtomicCompletion_def)
  ultimately show ?thesis using t(2) same_rows_live[OF t(3) run1] views by auto
qed

lemma completed_attempt_rows:
  assumes "fencedCurrentAttempt i l s = Some (a, c)" and "map_get (children s) (childKey (child_runId c) (child_nodeName c) (child_childKey c)) = Some c"
    and "child_runId c = cmd_runId command" "child_nodeName c = cmd_nodeName command" "child_childKey c = cmd_childKey command"
    and "\<not> isTerminalNodeStatus (child_status c)"
  shows "\<exists>a'. map_get (attempts (snd (completeCurrentAttempt i l v s))) i = Some a' \<and> attempt_status a' = ACompleted \<and> attempt_output a' = Some v"
    and "\<exists>c'. map_get (children (snd (completeCurrentAttempt i l v s))) (childKey (cmd_runId command) (cmd_nodeName command) (cmd_childKey command)) = Some c'
      \<and> child_status c' = NCompleted \<and> child_output c' = Some v"
    and "nodes (snd (completeCurrentAttempt i l v s)) = nodes s"
  using assms by (simp_all add: completeCurrentAttempt_def Let_def case_prod_beta)

text \<open>
  Everything a returning task leaves behind: the attempt, its child and its node (unless that was
  final already) are completed with the value, so is the run, and the command is acknowledged.
\<close>

definition task_completed :: "AttemptCommand Claim \<Rightarrow> jsval \<Rightarrow> runtime \<Rightarrow> runtime \<Rightarrow> bool" where
  "task_completed claimed v s t \<longleftrightarrow> (let command = claim_command claimed in
     run_completed claimed v t
     \<and> (\<exists>a'. map_get (attempts t) (cmd_attemptId command) = Some a' \<and> attempt_status a' = ACompleted \<and> attempt_output a' = Some v)
     \<and> (\<exists>c'. map_get (children t) (childKey (cmd_runId command) (cmd_nodeName command) (cmd_childKey command)) = Some c'
          \<and> child_status c' = NCompleted \<and> child_output c' = Some v)
     \<and> node_row_settled command (Inr v) s t)"

text \<open>
  C33: a task that returns completes its attempt, its child, its node and its run. When the command of a
  fresh attempt of an active task run is executed by a worker that has the task, its handler
  returns a value its output schema accepts, and nothing but heartbeats comes between, then the
  attempt, its child, the node (wherever it was not final before) and the run are completed with the
  decoded value and the command is acknowledged.
\<close>

theorem executed_task_completes_run:
  assumes "reachable s" and "wk_deps input = in_memory_deps" "wk_atomicCompletion input = None"
    and "claim_command claimed = TaskAttempt w task r n k i l v idem timeout" and "delivered claimed s"
    and "live_run claimed run s" "run_kind run = TaskRun" "run_workflowName run = w"
    and "current_rows (claim_command claimed) c a s" "attempt_status a = AStarted" "attempt_leaseToken a = l"
    and "\<not> isTerminalNodeStatus (child_status c)"
    and "createTaskMap tasks = Inr registry" "map_get registry task = Some impl" and "undisturbed race"
    and "task_result taskContext impl v = Inr output"
  shows "\<exists>t. execute_attempt input activityContext taskContext workflows tasks claimed race s = (Inr True, t)
    \<and> task_completed claimed output s t"
proof -
  let ?c = "claim_command claimed"
  from fresh_task_executes[OF assms(1-15), of taskContext] assms(16) obtain t sn run' where
    t: "delivered claimed t" "live_run claimed run' t" "fencedCurrentAttempt i l t = Some (a, c)" "snap_run sn = run"
      "runTaskAttempt input taskContext tasks claimed race s = complete_task_attempt claimed sn output in_memory_deps t"
      "node_view t = node_view s"
    by auto
  let ?u = "snd (completeCurrentAttempt i l output t)"
  let ?w = "snd (completeNode (cmd_runId ?c) (cmd_nodeName ?c) output ?u)"
  have same: "nodes t = nodes s" "children t = children s" using t(6) by (simp_all add: view_defs)
  have "map_get (children t) (childKey (child_runId c) (child_nodeName c) (child_childKey c)) = Some c"
      "child_runId c = cmd_runId ?c" "child_nodeName c = cmd_nodeName ?c" "child_childKey c = cmd_childKey ?c"
    unfolding same using assms(9) unfolding current_rows_def by blast+
  note rows = completed_attempt_rows[OF t(3) this assms(12), of "output"]
  have "delivered claimed ?u" "map_get (runs ?u) (cmd_runId ?c) = Some run'" "\<not> isTerminalRunStatus (run_status run')"
    using t(1,2) by (simp_all add: delivered_def live_run_def node_writes_keep)
  from task_run_completed[OF this, of "output"] obtain u where
    u: "complete_task_run in_memory_deps claimed output ?u = (Inr CommandProcessed, u)" "run_completed claimed output u"
      "node_view u = node_view ?w" by blast
  have "node_row_settled ?c (Inr output) s u"
    using node_row_written(1)[of ?c "output" ?u] rows(3) same(1) unfolding rows_settled_cong(1)[OF u(3)] by (simp add: node_row_settled_def)
  moreover have "attempts u = attempts ?u" "children u = children ?u"
    using u(3) by (simp_all add: view_defs row_writes_apart node_ops_children)
  ultimately have "task_completed claimed output s u"
    using u(2) rows(1,2) assms(4) by (simp add: task_completed_def Let_def)
  moreover have "complete_task_attempt claimed sn output in_memory_deps t = (Inr CommandProcessed, u)"
    using t(3,4) u(1) assms(4,7)
    by (simp add: complete_task_attempt_def Let_def worker_fields await_def total_def completeCurrentAttempt_def case_prod_beta)
  ultimately show ?thesis using executed_task[OF assms(4)] t(5) by fastforce
qed

section \<open>Failures and retries\<close>

text \<open>A new attempt of a child with its command, after the failed one.\<close>

definition retried :: "AttemptCommand \<Rightarrow> StoredAttempt \<Rightarrow> runtime \<Rightarrow> bool" where
  "retried command a t \<longleftrightarrow> (\<exists>c' a'. map_get (children t) (childKey (cmd_runId command) (cmd_nodeName command) (cmd_childKey command)) = Some c'
     \<and> child_currentAttemptId c' = Some (attempt_id a') \<and> map_get (attempts t) (attempt_id a') = Some a' \<and> attempt_id a' \<noteq> attempt_id a
     \<and> attempt_status a' = AStarted \<and> attempt_attemptNumber a' = Suc (attempt_attemptNumber a)
     \<and> attempt_input a' = attempt_input a \<and> attemptCommandExists (attempt_id a') t)"

lemma createChildAttempt_rows:
  assumes "createChildAttempt c v key s = (a, s')"
  shows "attempt_id a = mk_id ''attempt'' (nextId s)" "attempt_status a = AStarted"
    "attempt_attemptNumber a = Suc (child_attemptCount c)" "attempt_input a = v"
    "runs s' = runs s" "claimedAttemptCommands s' = claimedAttemptCommands s"
proof -
  show "attempt_id a = mk_id ''attempt'' (nextId s)" "attempt_status a = AStarted"
    "attempt_attemptNumber a = Suc (child_attemptCount c)" "attempt_input a = v"
    using assms by (auto simp: createChildAttempt_def insertChildAttempt_def Let_def case_prod_beta fresh_id_def)
  show "runs s' = runs s" "claimedAttemptCommands s' = claimedAttemptCommands s"
    using createChildAttempt_frames(1,2)[of c v key s] assms by (auto simp: view_defs)
qed

lemma dispatchTask_keeps: "runs (dispatchTask c at' s) = runs s" "claimedAttemptCommands (dispatchTask c at' s) = claimedAttemptCommands s"
  by (simp_all add: dispatchTask_def dispatchAttempt_def queueItem_def Let_def case_prod_beta)

lemma retry_time: "\<exists>runAt t. retryDispatchOptions retry m s = (Inr runAt, t) \<and> (t = s \<or> t = snd (Date_now s))"
  by (auto simp: retryDispatchOptions_def effect_defs Let_def)

lemma task_retried:
  assumes c: "map_get (children s) (childKey (cmd_runId command) (cmd_nodeName command) (cmd_childKey command)) = Some c"
      "\<not> isTerminalNodeStatus (child_status c)" "childKey (child_runId c) (child_nodeName c) (child_childKey c)
        = childKey (cmd_runId command) (cmd_nodeName command) (cmd_childKey command)"
    and "shouldRetryAttempt failedAttempt policy" "attempt_attemptNumber failedAttempt = child_attemptCount c"
    and "attempt_id failedAttempt = mk_id ''attempt'' m" "m < nextId s"
  shows "\<exists>t. retryTaskAttempt in_memory_deps command failedAttempt policy s = (Inr True, t) \<and> retried command failedAttempt t
    \<and> runs t = runs s \<and> claimedAttemptCommands t = claimedAttemptCommands s"
proof -
  obtain a u where u: "createChildAttempt c (attempt_input failedAttempt) (attempt_idempotencyKey failedAttempt) s = (a, u)" by fastforce
  note rows = createChildAttempt_rows[OF u] and current = createChildAttempt_current[OF u, unfolded c(3)]
  obtain runAt w where w: "retryDispatchOptions policy (attempt_attemptNumber failedAttempt) u = (Inr runAt, w)" "w = u \<or> w = snd (Date_now u)"
    using retry_time by blast
  have keep: "children w = children u" "attempts w = attempts u" "runs w = runs u" "claimedAttemptCommands w = claimedAttemptCommands u"
    using w(2) by (auto simp: Date_now_def)
  let ?cmd = "retry_command command a"
  let ?t = "dispatchTask ?cmd runAt w"
  have "createAttempt \<lparr>ca_runId = cmd_runId command, ca_nodeName = cmd_nodeName command, ca_childKey = cmd_childKey command,
      ca_input = attempt_input failedAttempt, ca_idempotencyKey = attempt_idempotencyKey failedAttempt\<rparr> s = (Inr a, u)"
    using c(1,2) u by (simp add: createAttempt_def)
  then have "retryTaskAttempt in_memory_deps command failedAttempt policy s = (Inr True, ?t)"
    using w(1) assms(4) by (simp add: retryTaskAttempt_def retryAttemptCore_def worker_fields await_def doing_def)
  moreover have "attemptCommandExists (attempt_id a) ?t"
    using dispatchTask_queued[of ?cmd runAt w] by (simp add: retry_command_def split: AttemptCommand.splits)
  moreover have "attempt_id a \<noteq> attempt_id failedAttempt" using rows(1) assms(6,7) by simp
  moreover obtain c' where "map_get (children u) (childKey (cmd_runId command) (cmd_nodeName command) (cmd_childKey command)) = Some c'"
      "child_currentAttemptId c' = Some (attempt_id a)" using current by blast
  ultimately have "retried command failedAttempt ?t"
    using rows(2-4) current assms(5) unfolding retried_def
    by (intro exI[of _ c'] exI[of _ a]) (simp add: dispatchTask_rows keep)
  with \<open>retryTaskAttempt in_memory_deps command failedAttempt policy s = (Inr True, ?t)\<close> rows(5,6) show ?thesis
    by (auto simp: dispatchTask_keeps keep)
qed

lemma command_kept:
  assumes "delivered claimed s" and "attemptCommandExists x s" and "x \<noteq> cmd_attemptId (claim_command claimed)"
  shows "attemptCommandExists x (s\<lparr>claimedAttemptCommands := map_delete (claim_id claimed) (claimedAttemptCommands s)\<rparr>)"
proof (cases "list_ex (\<lambda>item. cmd_attemptId (qi_payload item) = x) (attemptCommands s)")
  case False
  with assms(2) obtain item where item: "item \<in> set (map_values (claimedAttemptCommands s))" "cmd_attemptId (qi_payload (ci_item item)) = x"
    unfolding attemptCommandExists_def list_ex_iff by blast
  have wf: "wf_map (claimedAttemptCommands s)" using assms(1) by (simp add: delivered_def)
  from item(1) obtain k where k: "map_get (claimedAttemptCommands s) k = Some item" unfolding in_map_values[OF wf] ..
  have "k \<noteq> claim_id claimed" using k item(2) assms(1,3) by (auto simp: delivered_def)
  with k have "map_get (map_delete (claim_id claimed) (claimedAttemptCommands s)) k = Some item" by simp
  then have "item \<in> set (map_values (map_delete (claim_id claimed) (claimedAttemptCommands s)))"
    using in_map_values[OF wf_map_delete[OF wf]] by blast
  with item(2) show ?thesis unfolding attemptCommandExists_def list_ex_iff by auto
qed (simp add: attemptCommandExists_def)

lemma failed_attempt_writes:
  assumes "fencedCurrentAttempt i l s = Some (a, c)"
  shows "\<exists>failed u. failCurrentAttempt i l e s = (Some failed, u) \<and> attempt_status failed = AFailed
    \<and> attempt_attemptNumber failed = attempt_attemptNumber a \<and> attempt_id failed = attempt_id a \<and> attempt_input failed = attempt_input a
    \<and> children u = children s \<and> nextId u = nextId s \<and> rt_host u = rt_host s \<and> runs u = runs s
    \<and> claimedAttemptCommands u = claimedAttemptCommands s"
  using assms by (auto simp: failCurrentAttempt_def Let_def case_prod_beta)

lemma retried_same: "attempt_id b = attempt_id a \<Longrightarrow> attempt_attemptNumber b = attempt_attemptNumber a \<Longrightarrow> attempt_input b = attempt_input a \<Longrightarrow>
    retried command b t = retried command a t"
  by (simp add: retried_def)

lemma failing_node_keeps:
  "\<exists>t. fail_node_from in_memory_deps command e s = (Inr (), t) \<and> runs t = runs s \<and> rt_host t = rt_host s
    \<and> claimedAttemptCommands t = claimedAttemptCommands s"
  by (auto simp: fail_node_from_def worker_fields effect_defs node_writes_keep node_writes_host)

text \<open>The writes after a failure, when there is no retry.\<close>

lemma failure_fails_run:
  assumes fenced: "fencedCurrentAttempt (cmd_attemptId (claim_command claimed)) (cmd_leaseToken (claim_command claimed)) s = Some (a, c)"
    and "delivered claimed s" and "live_run claimed run s" and "is_task_run snapshot"
    and no_retry: "\<And>failed u. attempt_status failed = AFailed \<Longrightarrow> attempt_attemptNumber failed = attempt_attemptNumber a \<Longrightarrow> retry in_memory_deps failed u = (Inr False, u)"
  shows "\<exists>t. fail_attempt_writes input claimed snapshot retry (Thrown e) in_memory_deps s = (Inr CommandProcessed, t)
    \<and> run_failed claimed (toStoredError (rt_host s) e) t"
proof -
  let ?c = "claim_command claimed"
  obtain failed u where u: "failCurrentAttempt (cmd_attemptId ?c) (cmd_leaseToken ?c) e s = (Some failed, u)" "attempt_status failed = AFailed"
      "attempt_attemptNumber failed = attempt_attemptNumber a" "rt_host u = rt_host s" "runs u = runs s"
      "claimedAttemptCommands u = claimedAttemptCommands s"
    using failed_attempt_writes[OF fenced, of e] by (elim exE conjE) (rule that)
  let ?u1 = "snd (failNodeChild (cmd_runId ?c) (cmd_nodeName ?c) (cmd_childKey ?c) e u)"
  obtain u2 where u2: "fail_node_from in_memory_deps ?c e ?u1 = (Inr (), u2)" "runs u2 = runs ?u1" "rt_host u2 = rt_host ?u1"
      "claimedAttemptCommands u2 = claimedAttemptCommands ?u1"
    using failing_node_keeps by blast
  have "delivered claimed u2" "map_get (runs u2) (cmd_runId ?c) = Some run" "\<not> isTerminalRunStatus (run_status run)"
    using assms(2,3) by (simp_all add: delivered_def live_run_def u2 u node_writes_keep)
  from task_run_failed[OF this, of e] obtain t where
    t: "await (st_failRun (store in_memory_deps) (cmd_runId ?c) e) (\<lambda>failed.
      await (wakeParentRun in_memory_deps failed) (\<lambda>_. ack_processed in_memory_deps claimed)) u2 = (Inr CommandProcessed, t)"
      "run_failed claimed (toStoredError (rt_host s) e) t"
    by (auto simp: u2(3) u(4) node_writes_host)
  have "fail_attempt_writes input claimed snapshot retry (Thrown e) in_memory_deps s =
      await (st_failRun (store in_memory_deps) (cmd_runId ?c) e) (\<lambda>failed.
        await (wakeParentRun in_memory_deps failed) (\<lambda>_. ack_processed in_memory_deps claimed)) u2"
    using u(1) u2(1) assms(4) no_retry[OF u(2,3)]
    by (simp add: fail_attempt_writes_def Let_def isAttemptTimeout_def worker_fields await_def total_def reading_def)
  with t show ?thesis by auto
qed

lemma failure_retries:
  assumes "reachable s0" "current_rows (claim_command claimed) c a s0" "node_view s = node_view s0" "nextId s0 \<le> nextId s"
    and fenced: "fencedCurrentAttempt (cmd_attemptId (claim_command claimed)) (cmd_leaseToken (claim_command claimed)) s = Some (a, c)"
    and "delivered claimed s" and "live_run claimed run s" and "attempt_attemptNumber a < rp_attempts policy"
    and "\<not> isTerminalNodeStatus (child_status c)"
  shows "\<exists>t. fail_attempt_writes input claimed snapshot
       (\<lambda>deps failedAttempt. retryTaskAttempt deps (claim_command claimed) failedAttempt (Some policy)) (Thrown e) in_memory_deps s
       = (Inr CommandProcessed, t)
    \<and> retried (claim_command claimed) a t \<and> live_run claimed run t \<and> map_get (claimedAttemptCommands t) (claim_id claimed) = None"
proof -
  let ?c = "claim_command claimed" and ?key = "childKey (cmd_runId (claim_command claimed)) (cmd_nodeName (claim_command claimed)) (cmd_childKey (claim_command claimed))"
  have inv: "node_inv s0" using node_invariant.holds[OF assms(1)] by simp
  note fields = current_rows_fields[OF inv assms(2)] and rows = assms(2)[unfolded current_rows_def]
  obtain failed u where u: "failCurrentAttempt (cmd_attemptId ?c) (cmd_leaseToken ?c) e s = (Some failed, u)" "attempt_status failed = AFailed"
      "attempt_attemptNumber failed = attempt_attemptNumber a" "attempt_id failed = attempt_id a" "attempt_input failed = attempt_input a"
      "children u = children s" "nextId u = nextId s" "runs u = runs s" "claimedAttemptCommands u = claimedAttemptCommands s"
    using failed_attempt_writes[OF fenced, of e] by (elim exE conjE) (rule that)
  have stored: "map_get (children s0) ?key = Some c" "childKey (child_runId c) (child_nodeName c) (child_childKey c) = ?key"
    using rows by metis+
  have number: "attempt_attemptNumber a = child_attemptCount c"
    using node_inv_rows(2)[OF inv stored(1)] rows by (auto simp: child_row_ok_def current_ok_def)
  obtain m where m: "attempt_id a = mk_id ''attempt'' m" "Suc m < nextId s0"
    using node_inv_rows(3)[OF inv, of "cmd_attemptId ?c" a] rows by (auto simp: attempt_row_ok_def)
  have "children s = children s0" using assms(3) by (simp add: view_defs)
  then have "map_get (children u) ?key = Some c" using stored(1) u(6) by simp
  from task_retried[OF this assms(9) stored(2), of failed "Some policy" m] obtain t where
    t: "retryTaskAttempt in_memory_deps ?c failed (Some policy) u = (Inr True, t)" "retried ?c failed t" "runs t = runs u"
      "claimedAttemptCommands t = claimedAttemptCommands u"
    using u m number assms(4,8) by (auto simp: shouldRetryAttempt_def)
  have held: "delivered claimed t" using assms(6) by (simp add: delivered_def t(4) u(9))
  let ?t = "t\<lparr>claimedAttemptCommands := map_delete (claim_id claimed) (claimedAttemptCommands t)\<rparr>"
  have "retried ?c a t" using t(2) retried_same[of failed a] u(3-5) by simp
  then have "retried ?c a ?t" unfolding retried_def using command_kept[OF held] fields(1) by fastforce
  moreover have "fail_attempt_writes input claimed snapshot
       (\<lambda>deps failedAttempt. retryTaskAttempt deps ?c failedAttempt (Some policy)) (Thrown e) in_memory_deps s = (Inr CommandProcessed, ?t)"
    using u(1) t(1) acknowledged[OF held]
    by (simp add: fail_attempt_writes_def Let_def isAttemptTimeout_def worker_fields await_def total_def reading_def)
  ultimately show ?thesis using assms(7) t(3) u(8) by (auto simp: live_run_def)
qed

text \<open>
  C34: a task that throws is retried or fails its run. Executing the command of a fresh attempt whose
  handler throws settles the command; while the attempts made are fewer than the retry policy
  allows, the child has a new started attempt with the next number, the same input and a command
  of its own, and the run stays active; else the run is failed with the stored error.
\<close>

theorem failed_task_is_retried_or_fails:
  assumes "reachable s" and "wk_deps input = in_memory_deps" "wk_atomicCompletion input = None"
    and "claim_command claimed = TaskAttempt w task r n k i l v idem timeout" and "delivered claimed s"
    and "live_run claimed run s" "run_kind run = TaskRun" "run_workflowName run = w"
    and "current_rows (claim_command claimed) c a s" "attempt_status a = AStarted" "attempt_leaseToken a = l"
    and "\<not> isTerminalNodeStatus (child_status c)"
    and "createTaskMap tasks = Inr registry" "map_get registry task = Some impl" and "undisturbed race"
    and "task_result taskContext impl v = Inl e" and "\<not> isAttemptHeartbeatLeaseLost (Thrown e)"
  shows "\<exists>t. execute_attempt input activityContext taskContext workflows tasks claimed race s = (Inr True, t)
    \<and> (if \<exists>policy. task_retry (ti_task impl) = Some policy \<and> attempt_attemptNumber a < rp_attempts policy
       then retried (claim_command claimed) a t \<and> (\<exists>run'. live_run claimed run' t)
         \<and> map_get (claimedAttemptCommands t) (claim_id claimed) = None
       else run_failed claimed (toStoredError (rt_host s) e) t)"
proof -
  let ?retry = "\<lambda>deps failedAttempt. retryTaskAttempt deps (claim_command claimed) failedAttempt (task_retry (ti_task impl))"
  from fresh_task_executes[OF assms(1-15), of taskContext] assms(16) obtain t sn run' where
    t: "delivered claimed t" "live_run claimed run' t" "fencedCurrentAttempt i l t = Some (a, c)" "node_view t = node_view s"
      "rt_host t = rt_host s" "nextId s \<le> nextId t" "snap_run sn = run"
      "runTaskAttempt input taskContext tasks claimed race s = fail_attempt input claimed (Some sn) ?retry (Thrown e) t"
    by auto
  have fenced: "fencedCurrentAttempt (cmd_attemptId (claim_command claimed)) (cmd_leaseToken (claim_command claimed)) t = Some (a, c)"
    using t(3) assms(4) by simp
  have failing: "runTaskAttempt input taskContext tasks claimed race s = fail_attempt_writes input claimed (Some sn) ?retry (Thrown e) in_memory_deps t"
    using t(8) assms(2,3,17) by (simp add: fail_attempt_def isAttemptShutdown_def isAttemptCancellationObserved_def runAtomicCompletion_def)
  show ?thesis
  proof (cases "\<exists>policy. task_retry (ti_task impl) = Some policy \<and> attempt_attemptNumber a < rp_attempts policy")
    case True
    then obtain policy where policy: "task_retry (ti_task impl) = Some policy" "attempt_attemptNumber a < rp_attempts policy" by blast
    from failure_retries[OF assms(1,9) t(4,6) fenced t(1,2) policy(2) assms(12), of input "Some sn" e] obtain u where
      u: "runTaskAttempt input taskContext tasks claimed race s = (Inr CommandProcessed, u)" "retried (claim_command claimed) a u"
        "live_run claimed run' u" "map_get (claimedAttemptCommands u) (claim_id claimed) = None"
      unfolding failing policy(1) by blast
    from executed_task[OF assms(4) u(1)] u(2-4) True show ?thesis by auto
  next
    case False
    have "?retry in_memory_deps failed u = (Inr False, u)"
      if "attempt_attemptNumber failed = attempt_attemptNumber a" for failed u
      using False that by (auto simp: retryTaskAttempt_def retryAttemptCore_def shouldRetryAttempt_def split: option.split)
    from failure_fails_run[OF fenced t(1,2), of "Some sn" ?retry input e] this t(7) assms(7) obtain u where
      u: "runTaskAttempt input taskContext tasks claimed race s = (Inr CommandProcessed, u)" "run_failed claimed (toStoredError (rt_host s) e) u"
      unfolding failing t(5) by (auto simp: is_task_run_def)
    from executed_task[OF assms(4) u(1)] u(2) False show ?thesis by auto
  qed
qed

section \<open>A sample task\<close>

definition ship_input :: CreateRunInput where
  "ship_input = (root_workflow None None)\<lparr>cr_kind := Some TaskRun, cr_workflowName := ''ship'', cr_taskName := Some ''ship''\<rparr>"

definition ship_started :: runtime where
  "ship_started = snd (ensureNodeChildren ''run-1'' TASK_RUN_NODE_NAME
     [self_child\<lparr>ec_kind := TaskChild\<rparr>] (snd (createNode ''run-1'' TASK_RUN_NODE_NAME TaskNode (snd (createRunWithState ship_input empty_runtime)))))"

definition ship_attempt :: runtime where
  "ship_attempt = snd (createAttempt (self_attempt\<lparr>ca_nodeName := TASK_RUN_NODE_NAME\<rparr>) ship_started)"

definition ship_command :: AttemptCommand where
  "ship_command = TaskAttempt ''ship'' ''ship'' ''run-1'' TASK_RUN_NODE_NAME SELF_CHILD_KEY ''attempt-2'' (Some ''attempt-lease-3'') JNull None None"

definition ship_claimed :: runtime where
  "ship_claimed = snd (claimAttempt (sample_worker\<lparr>ew_taskNames := [''ship'']\<rparr>) (dispatchTask ship_command None ship_attempt))"

definition ship_claim :: "AttemptCommand Claim" where
  "ship_claim = \<lparr>claim_id = ''task-command-4'', claim_command = ship_command, claim_leaseToken = ''attempt-claim-lease-5''\<rparr>"

lemmas ship_defs = ship_claimed_def ship_command_def ship_attempt_def ship_started_def ship_input_def TASK_RUN_NODE_NAME_def
  dispatchTask_def sample_defs

lemma ship_delivered: "delivered ship_claim ship_claimed"
  by (simp add: delivered_def ship_claim_def ship_defs sample_eval)

lemma ship_next: "nextId (snd (createRunWithState ship_input empty_runtime)) = 2"
  "nextId (snd (createNode ''run-1'' TASK_RUN_NODE_NAME TaskNode (snd (createRunWithState ship_input empty_runtime)))) = 2"
  by (simp_all add: ship_defs sample_eval)

lemma reachable_ship: "reachable ship_claimed"
proof -
  have "reachable (snd (createRunWithState ship_input empty_runtime))"
    by (rule reachable_work[OF reachable_empty create_run]) (simp add: root_input_def ship_input_def root_workflow_def)
  then have "reachable (snd (createNode ''run-1'' TASK_RUN_NODE_NAME TaskNode (snd (createRunWithState ship_input empty_runtime))))"
    by (rule reachable_work[OF _ create_node]) (simp_all add: known_run_1 ship_next)
  then have "reachable ship_started"
    unfolding ship_started_def by (rule reachable_work[OF _ ensure_children]) (simp_all add: known_run_1 ship_next)
  then have "reachable ship_attempt" unfolding ship_attempt_def by (rule reachable_work[OF _ create_attempt])
  then have "reachable (dispatchTask ship_command None ship_attempt)" by (rule reachable_work[OF _ dispatch_task])
  then show ?thesis unfolding ship_claimed_def by (rule reachable_work[OF _ claim_attempt])
qed

lemma ship_run: "\<exists>run. live_run ship_claim run ship_claimed \<and> run_kind run = TaskRun \<and> run_workflowName run = ''ship''"
  by (simp add: live_run_def ship_claim_def ship_defs sample_eval isTerminalRunStatus_def)

lemma ship_rows: "\<exists>c a. current_rows ship_command c a ship_claimed \<and> attempt_status a = AStarted \<and> attempt_leaseToken a = Some ''attempt-lease-3''
    \<and> \<not> isTerminalNodeStatus (child_status c) \<and> attempt_attemptNumber a = 1"
proof -
  have "\<exists>c. map_get (children ship_claimed) (childKey ''run-1'' ''$task'' ''$self'') = Some c \<and> child_runId c = ''run-1''
      \<and> child_nodeName c = ''$task'' \<and> child_childKey c = ''$self'' \<and> child_currentAttemptId c = Some ''attempt-2'' \<and> child_status c = NRunning"
    by (simp add: ship_defs sample_eval)
  moreover have "\<exists>a. map_get (attempts ship_claimed) ''attempt-2'' = Some a \<and> attempt_status a = AStarted
      \<and> attempt_leaseToken a = Some ''attempt-lease-3'' \<and> attempt_attemptNumber a = 1"
    by (simp add: ship_defs sample_eval)
  ultimately obtain c a where "map_get (children ship_claimed) (childKey ''run-1'' ''$task'' ''$self'') = Some c" "child_runId c = ''run-1''"
      "child_nodeName c = ''$task''" "child_childKey c = ''$self''" "child_currentAttemptId c = Some ''attempt-2''" "child_status c = NRunning"
      "map_get (attempts ship_claimed) ''attempt-2'' = Some a" "attempt_status a = AStarted"
      "attempt_leaseToken a = Some ''attempt-lease-3''" "attempt_attemptNumber a = 1" by (elim exE conjE)
  then show ?thesis
    by (intro exI[of _ c] exI[of _ a])
       (simp add: current_rows_def ship_command_def TASK_RUN_NODE_NAME_def SELF_CHILD_KEY_def isTerminalNodeStatus_def)
qed

definition ship_task :: "(unit \<Rightarrow> jsval \<Rightarrow> thrown + jsval) \<Rightarrow> unit TaskImplementation" where
  "ship_task handler = \<lparr>ti_task = \<lparr>task_name = ''ship'', task_input = any_schema, task_output = any_schema,
     task_retry = Some \<lparr>rp_attempts = 2, rp_backoff = None, rp_delay = None\<rparr>, task_timeout = None, task_tags = NoTags,
     task_idempotency = NoIdempotency, task_unique = NoUnique\<rparr>, ti_handler = handler\<rparr>"

lemma ship_registry: "createTaskMap [ship_task h] = Inr [(''ship'', ship_task h)]"
  by (simp add: createTaskMap_def ship_task_def)

lemma ship_claim_command:
  "claim_command ship_claim = TaskAttempt ''ship'' ''ship'' ''run-1'' TASK_RUN_NODE_NAME SELF_CHILD_KEY ''attempt-2'' (Some ''attempt-lease-3'') JNull None None"
  by (simp add: ship_claim_def ship_command_def)

theorem executed_task_completes_run_witness:
  "\<exists>t. execute_attempt memory_worker (\<lambda>_. Inr ()) (\<lambda>_. Inr ()) [] [ship_task (\<lambda>_ _. Inr (JStr ''sent''))] ship_claim
       (HeartbeatDue HandlerSettles) ship_claimed = (Inr True, t) \<and> task_completed ship_claim (JStr ''sent'') ship_claimed t"
proof -
  obtain run where run: "live_run ship_claim run ship_claimed" "run_kind run = TaskRun" "run_workflowName run = ''ship''"
    using ship_run by (elim exE conjE)
  obtain c a where rows: "current_rows ship_command c a ship_claimed" "attempt_status a = AStarted"
      "attempt_leaseToken a = Some ''attempt-lease-3''" "\<not> isTerminalNodeStatus (child_status c)"
    using ship_rows by (elim exE conjE)
  from executed_task_completes_run[OF reachable_ship _ _ ship_claim_command ship_delivered run _ rows(2,3,4) ship_registry, of memory_worker]
  show ?thesis
    using rows(1) by (simp add: memory_worker_def ship_claim_def task_result_def ship_task_def any_schema_def decodeSchemaValue_def)
qed

theorem failed_task_is_retried_or_fails_witness:
  "\<exists>t c a. execute_attempt memory_worker (\<lambda>_. Inr ()) (\<lambda>_. Inr ()) [] [ship_task (\<lambda>_ _. Inl (Plain (JStr ''lost'')))] ship_claim
       HandlerSettles ship_claimed = (Inr True, t) \<and> current_rows ship_command c a ship_claimed \<and> retried ship_command a t"
proof -
  obtain run where run: "live_run ship_claim run ship_claimed" "run_kind run = TaskRun" "run_workflowName run = ''ship''"
    using ship_run by (elim exE conjE)
  obtain c a where rows: "current_rows ship_command c a ship_claimed" "attempt_status a = AStarted"
      "attempt_leaseToken a = Some ''attempt-lease-3''" "\<not> isTerminalNodeStatus (child_status c)" "attempt_attemptNumber a = 1"
    using ship_rows by (elim exE conjE)
  from failed_task_is_retried_or_fails[OF reachable_ship _ _ ship_claim_command ship_delivered run _ rows(2,3,4) ship_registry[of "\<lambda>_ _. Inl (Plain (JStr ''lost''))"],
      where input = memory_worker and e = "Plain (JStr ''lost'')" and race = HandlerSettles and taskContext = "\<lambda>_. Inr ()"
        and impl = "ship_task (\<lambda>_ _. Inl (Plain (JStr ''lost'')))"
        and activityContext = "\<lambda>_. Inr ()" and workflows = "[]"]
  show ?thesis
    using rows(1,5)
    by (auto simp: memory_worker_def ship_claim_def task_result_def ship_task_def isAttemptHeartbeatLeaseLost_def has_message_def)
qed

definition ship_settled :: runtime where
  "ship_settled = snd (completeCurrentAttempt ''attempt-2'' (Some ''attempt-lease-3'') (JStr ''sent'') ship_claimed)"

lemma ship_settled_rows:
  "\<exists>c a. current_rows ship_command c a ship_settled \<and> attempt_status a = ACompleted \<and> attempt_output a = Some (JStr ''sent'')"
  "delivered ship_claim ship_settled" "\<exists>run. map_get (runs ship_settled) ''run-1'' = Some run \<and> run_kind run = TaskRun \<and> run_status run = RQueued"
proof -
  obtain c a where rows: "current_rows ship_command c a ship_claimed" "attempt_status a = AStarted"
      "attempt_leaseToken a = Some ''attempt-lease-3''" "\<not> isTerminalNodeStatus (child_status c)"
    using ship_rows by (elim exE conjE)
  have "fencedCurrentAttempt ''attempt-2'' (Some ''attempt-lease-3'') ship_claimed = Some (a, c)"
    using fenced_current[OF reachable_ship, of ship_claim c a] rows by (simp add: ship_claim_def ship_command_def)
  with rows(1) show "\<exists>c a. current_rows ship_command c a ship_settled \<and> attempt_status a = ACompleted \<and> attempt_output a = Some (JStr ''sent'')"
    unfolding ship_settled_def completeCurrentAttempt_def
    by (intro exI) (auto simp: Let_def case_prod_beta current_rows_def ship_command_def)
  show "delivered ship_claim ship_settled"
    using ship_delivered by (simp add: ship_settled_def delivered_def node_writes_keep)
  show "\<exists>run. map_get (runs ship_settled) ''run-1'' = Some run \<and> run_kind run = TaskRun \<and> run_status run = RQueued"
    by (simp add: ship_settled_def node_writes_keep) (simp add: ship_defs sample_eval)
qed

lemma ship_settled_node: "\<exists>n. map_get (nodes ship_settled) ''run-1:$task'' = Some n \<and> node_status n = NRunning"
proof -
  have "nodes ship_settled = nodes ship_claimed"
    by (auto simp: ship_settled_def completeCurrentAttempt_def case_prod_beta Let_def split: option.split)
  then show ?thesis by (simp add: ship_defs sample_eval)
qed

theorem settled_attempt_is_replayed_witness:
  "\<exists>t. execute_attempt memory_worker (\<lambda>_. Inr ()) (\<lambda>_. Inr ()) [] ([] :: unit TaskImplementation list) ship_claim
       HandlerSettles ship_settled = (Inr True, t)
     \<and> (\<exists>n. map_get (nodes t) ''run-1:$task'' = Some n \<and> node_status n = NCompleted \<and> node_output n = Some (JStr ''sent''))
     \<and> (\<exists>run. map_get (runs t) ''run-1'' = Some run \<and> run_status run = RCompleted \<and> run_output run = Some (JStr ''sent''))"
proof -
  obtain run where run: "map_get (runs ship_settled) ''run-1'' = Some run" "run_kind run = TaskRun" "run_status run = RQueued"
    using ship_settled_rows(3) by (elim exE conjE)
  then have live: "\<not> isTerminalRunStatus (run_status run)" by (simp add: isTerminalRunStatus_def)
  obtain c a where rows: "current_rows (claim_command ship_claim) c a ship_settled" "attempt_status a = ACompleted" "attempt_output a = Some (JStr ''sent'')"
    using ship_settled_rows(1) by (auto simp: ship_claim_def)
  have "reachable ship_settled" unfolding ship_settled_def by (rule reachable_work[OF reachable_ship complete_attempt])
  from settled_attempt_is_replayed[OF this _ _ disjI1[OF ship_claim_command] ship_settled_rows(2) run(1) live rows(1), where input = memory_worker
      and taskContext = "\<lambda>_. Inr ()" and activityContext = "\<lambda>_. Inr ()" and tasks = "[] :: unit TaskImplementation list" and workflows = "[]" and race = HandlerSettles]
  obtain t where t: "execute_attempt memory_worker (\<lambda>_. Inr ()) (\<lambda>_. Inr ()) [] ([] :: unit TaskImplementation list) ship_claim
       HandlerSettles ship_settled = (Inr True, t)" "replayed ship_claim (Inr (JStr ''sent'')) run ship_settled t"
    using rows(2,3) by (auto simp: memory_worker_def attempt_result_def or_undefined_def)
  moreover have "nodeKey ''run-1'' TASK_RUN_NODE_NAME = ''run-1:$task''" by (simp add: nodeKey_def TASK_RUN_NODE_NAME_def)
  ultimately show ?thesis
    using ship_settled_node run(2) by (fastforce simp: replayed_def node_row_settled_def ship_claim_command isTerminalNodeStatus_def)
qed

end
