(* ===== verification/Maintenance.thy ===== *)
theory Maintenance
  imports Attempts
begin

text \<open>
  The periodic work of the workers (\<open>runtime/worker/maintenance.ts\<close>): giving the runs of
  dead-lettered commands the outcome a final failure has, and failing runs that are older
  than the timeout of their workflow.
\<close>

section \<open>Giving up a run\<close>

definition cancelDescendants :: "RuntimeDeps \<Rightarrow> string \<Rightarrow> unit op" where
  "cancelDescendants deps runId =
     await (st_loadRunSnapshot (store deps) runId) (\<lambda>snapshot.
     await (each (case snapshot of None \<Rightarrow> [] | Some sn \<Rightarrow> snap_children sn)
              (\<lambda>child. case child_childRunId child of
                 None \<Rightarrow> ret ()
               | Some childRunId \<Rightarrow> await (cancelRunTree deps childRunId) (\<lambda>_. ret ()))) (\<lambda>_.
     await (ae_deleteUnclaimed (attemptExecutor deps) runId) (\<lambda>_.
     await (st_cancelNonTerminalRunNodes (store deps) runId) (\<lambda>_.
     ret ()))))"

text \<open>What both sweeps do to a run that no coordination will finish.\<close>

definition give_up_run :: "RuntimeDeps \<Rightarrow> string \<Rightarrow> thrown \<Rightarrow> unit op" where
  "give_up_run deps runId error =
     await (cancelDescendants deps runId) (\<lambda>_.
     await (st_failRun (store deps) runId error) (\<lambda>failed.
     wakeParentRun deps failed))"

section \<open>Dead commands\<close>

definition attemptCommandChildKey :: "DeadWorkflowCommand \<Rightarrow> string option" where
  "attemptCommandChildKey command =
     (case dc_payload command of
        ContinuePayload _ \<Rightarrow> None
      | AttemptPayload c \<Rightarrow> Some (cmd_childKey c))"

definition dead_error :: "host \<Rightarrow> DeadWorkflowCommand \<Rightarrow> thrown" where
  "dead_error host command =
     (case dc_lastError command of
        Some v \<Rightarrow>
          if v = JNull \<or> v = JUndefined
          then Plain (toStoredError host (new_Error (''Workflow command ['' @ dc_id command @ ''] was dead-lettered'')))
          else Plain v
      | None \<Rightarrow> Plain (toStoredError host (new_Error (''Workflow command ['' @ dc_id command @ ''] was dead-lettered''))))"

definition fail_dead_attempt :: "RuntimeDeps \<Rightarrow> DeadWorkflowCommand \<Rightarrow> thrown \<Rightarrow> unit op" where
  "fail_dead_attempt deps command error =
     (case dc_nodeName command of
        Some nodeName \<Rightarrow>
          if dc_kind command = DeadActivity \<or> dc_kind command = DeadTask then
            await (case attemptCommandChildKey command of
                     None \<Rightarrow> ret ()
                   | Some key \<Rightarrow> await (st_failNodeChild (store deps) (dc_runId command) nodeName key error) (\<lambda>_. ret ())) (\<lambda>_.
            await (reading rt_host) (\<lambda>host.
            if (case attemptCommandChildKey command of None \<Rightarrow> True | Some key \<Rightarrow> shouldCompleteNodeFromAttempt (nums host) key)
            then await (st_failNode (store deps) (dc_runId command) nodeName error) (\<lambda>_. ret ())
            else ret ()))
          else ret ()
      | None \<Rightarrow> ret ())"

definition reapDeadCommand :: "RuntimeDeps \<Rightarrow> DeadWorkflowCommand \<Rightarrow> unit op" where
  "reapDeadCommand deps command =
     await (reading rt_host) (\<lambda>host.
     let error = dead_error host command in
     await (fail_dead_attempt deps command error) (\<lambda>_.
     await (st_loadRuns (store deps) [dc_runId command]) (\<lambda>found.
     case found of
       [] \<Rightarrow> st_markDeadCommandReaped (store deps) (dc_id command)
     | run # _ \<Rightarrow>
         await (if run_kind run = TaskRun \<or> dc_kind command = DeadContinue
                then give_up_run deps (dc_runId command) error
                else rce_enqueue (runCoordinationExecutor deps)
                       \<lparr>cont_runId = dc_runId command, cont_workflowName = dc_workflowName command\<rparr>) (\<lambda>_.
         st_markDeadCommandReaped (store deps) (dc_id command)))))"

definition reapDeadWorkflowCommands :: "RuntimeDeps \<Rightarrow> int option \<Rightarrow> nat op" where
  "reapDeadWorkflowCommands deps batchSize =
     await (st_listUnreapedDeadCommands (store deps) batchSize) (\<lambda>dead.
     await (each dead (reapDeadCommand deps)) (\<lambda>_.
     ret (length dead)))"

section \<open>Runs past their timeout\<close>

text \<open>No run was created before an invalid \<open>Date\<close>, as none was before the first time value.\<close>

definition cutoff :: "numerics \<Rightarrow> int \<Rightarrow> jsnum \<Rightarrow> int" where
  "cutoff nu date timeoutMs =
     (case timeoutMs of
        Fin r \<Rightarrow> (case new_Date (roundDouble nu (of_int date - r)) of None \<Rightarrow> - MAX_TIME - 1 | Some d \<Rightarrow> d)
      | _ \<Rightarrow> - MAX_TIME - 1)"

definition expired_filter :: "string \<Rightarrow> int \<Rightarrow> jsnum option \<Rightarrow> ListRunsFilter" where
  "expired_filter name createdBefore limit =
     \<lparr>fl_kind = Some WorkflowRun, fl_name = Some name, fl_status = Some [RQueued, RRunning, RWaiting, RCancelling],
      fl_createdBefore = Some createdBefore, fl_parentRunId = None, fl_rootRunId = None, fl_tags = None,
      fl_input = None, fl_limit = limit, fl_cursor = None\<rparr>"

definition timeoutWorkflow :: "RuntimeDeps \<Rightarrow> jsnum option \<Rightarrow> int \<Rightarrow> 'ctx WorkflowImplementation \<Rightarrow> nat op" where
  "timeoutWorkflow deps batchSize date implementation =
     await (reading rt_host) (\<lambda>host.
     case parseDurationMs (nums host) (wd_timeout (wi_workflow implementation)) of
       None \<Rightarrow> ret 0
     | Some timeoutMs \<Rightarrow>
         await (st_listRuns (store deps)
                  (expired_filter (wd_name (wi_workflow implementation)) (cutoff (nums host) date timeoutMs) batchSize)) (\<lambda>listed.
         await (each (lr_runs listed) (\<lambda>run.
                  give_up_run deps (run_id run)
                    (new_Error (''Workflow run ['' @ run_id run @ ''] timed out after [''
                       @ (case wd_timeout (wi_workflow implementation) of None \<Rightarrow> ''undefined'' | Some t \<Rightarrow> t) @ '']'')))) (\<lambda>_.
         ret (length (lr_runs listed)))))"

primrec timeoutExpiredWorkflowRuns ::
  "RuntimeDeps \<Rightarrow> jsnum option \<Rightarrow> int \<Rightarrow> 'ctx WorkflowImplementation list \<Rightarrow> nat op" where
  "timeoutExpiredWorkflowRuns deps batchSize date [] = ret 0"
| "timeoutExpiredWorkflowRuns deps batchSize date (implementation # rest) =
     await (timeoutWorkflow deps batchSize date implementation) (\<lambda>n.
     await (timeoutExpiredWorkflowRuns deps batchSize date rest) (\<lambda>m.
     ret (n + m)))"

end
