(* ===== verification/MaintenanceProperties.thy ===== *)
theory MaintenanceProperties
  imports Maintenance AttemptProperties CancelTree DeadCommands
begin

text \<open>
  The maintenance sweeps return and leave no zombie: every run of a dead command that no
  coordination will finish, and every expired run, is settled. \<open>safe m\<close> says that a program takes steps
  and returns; there is one rule per construct and operation.
\<close>

section \<open>Programs that return\<close>

definition safe :: "'a op \<Rightarrow> bool" where
  "safe m \<longleftrightarrow> (\<forall>s. reachable s \<longrightarrow> (\<exists>x t. m s = (Inr x, t) \<and> work_step\<^sup>*\<^sup>* s t))"

named_theorems safe_intros \<open>one rule per construct and operation\<close>

lemma safe_steps:
  assumes "safe m" and "reachable s"
  obtains x t where "m s = (Inr x, t)" "work_step\<^sup>*\<^sup>* s t" "reachable t"
  using assms work_steps_reachable unfolding safe_def by blast

lemma safe_await [safe_intros]:
  assumes "safe m" and "\<And>x. safe (k x)"
  shows "safe (await m k)"
  unfolding safe_def
proof (intro allI impI)
  fix s assume "reachable s"
  from assms(1) this obtain x t where t: "m s = (Inr x, t)" "work_step\<^sup>*\<^sup>* s t" "reachable t" by (rule safe_steps)
  from assms(2) t(3) obtain y u where "k x t = (Inr y, u)" "work_step\<^sup>*\<^sup>* t u" by (rule safe_steps)
  with t show "\<exists>x t. await m k s = (Inr x, t) \<and> work_step\<^sup>*\<^sup>* s t" by (auto simp: await_def)
qed

lemma safe_plain [safe_intros]:
  "safe (ret x)" "safe (reading f)"
  by (auto simp: safe_def reading_def)

lemma safe_total: "(\<And>s. work_step s (snd (f s))) \<Longrightarrow> safe (total f)"
  by (auto simp: safe_def total_def)

lemma safe_doing: "(\<And>s. work_step s (f s)) \<Longrightarrow> safe (doing f)"
  by (auto simp: safe_def doing_def)

lemma safe_each [safe_intros]: "(\<And>x. x \<in> set xs \<Longrightarrow> safe (f x)) \<Longrightarrow> safe (each xs f)"
  by (induction xs) (auto intro: safe_intros)

lemma memory_ops_safe [safe_intros]:
  "safe (st_loadRunSnapshot (store in_memory_deps) r)" "safe (st_loadRuns (store in_memory_deps) rs)"
  "safe (st_failNodeChild (store in_memory_deps) r n k e)" "safe (st_failNode (store in_memory_deps) r n e)"
  "safe (st_failRun (store in_memory_deps) r e)" "safe (st_cancelNonTerminalRunNodes (store in_memory_deps) r)"
  "safe (st_markDeadCommandReaped (store in_memory_deps) i)" "safe (st_listUnreapedDeadCommands (store in_memory_deps) l)"
  "safe (rce_enqueue (runCoordinationExecutor in_memory_deps) c)" "safe (ae_deleteUnclaimed (attemptExecutor in_memory_deps) r)"
  unfolding in_memory_deps_def in_memory_store_def in_memory_coordination_def in_memory_attempts_def record_fields
  by (auto intro!: safe_plain safe_total safe_doing fail_child fail_node fail_run cancel_nodes mark_reaped delete_unclaimed
      simp: enqueue_def enqueue_continue)

lemma cancelRunTree_safe [safe_intros]: "safe (cancelRunTree in_memory_deps r)"
  unfolding safe_def
proof (intro allI impI)
  fix s assume s: "reachable s"
  obtain t where "cancelRunTree in_memory_deps r s = (Inr (map_get (runs t) r), t)"
    using cancelRunTree_settles[OF s, of r] by (auto simp: tree_cancelled_def)
  with works_steps[OF in_memory.cancelRunTree_works s, of r]
  show "\<exists>x t. cancelRunTree in_memory_deps r s = (Inr x, t) \<and> work_step\<^sup>*\<^sup>* s t" by simp
qed

lemma wakeParentRun_safe [safe_intros]: "safe (wakeParentRun in_memory_deps run)"
  unfolding wakeParentRun_def by (auto intro!: safe_intros split: option.split)

lemma cancelDescendants_safe [safe_intros]: "safe (cancelDescendants in_memory_deps r)"
  unfolding cancelDescendants_def by (auto intro!: safe_intros split: option.split)

lemma give_up_run_safe [safe_intros]: "safe (give_up_run in_memory_deps r e)"
  unfolding give_up_run_def by (auto intro!: safe_intros)

lemma reapDeadCommand_safe [safe_intros]: "safe (reapDeadCommand in_memory_deps command)"
  unfolding reapDeadCommand_def fail_dead_attempt_def Let_def
  by (auto intro!: safe_intros split: option.split list.split)

section \<open>Settled runs stay settled\<close>

lemma settled_kept:
  assumes "reachable s" and "work_step\<^sup>*\<^sup>* s t" and "settled s r" and "issued (nextId s) r"
  shows "settled t r"
proof -
  have steps: "step\<^sup>*\<^sup>* s t" using assms(2) by (rule work_steps_steps)
  show ?thesis
  proof (cases "map_get (runs s) r")
    case None
    with run_table.gone_stays[OF steps assms(1,4)] show ?thesis by (simp add: settled_def)
  next
    case (Some run)
    then have terminal: "isTerminalRunStatus (run_status run)" using assms(3) by (simp add: settled_def finished_def)
    show ?thesis
    proof (cases "map_get (runs t) r")
      case (Some run')
      with run_evolves_closure(4)[OF run_table.row_steps[OF steps assms(1) \<open>map_get (runs s) r = Some run\<close> Some] terminal] terminal
      show ?thesis by (simp add: settled_def finished_def)
    qed (simp add: settled_def)
  qed
qed

lemma issued_later: "work_step\<^sup>*\<^sup>* s t \<Longrightarrow> issued (nextId s) r \<Longrightarrow> issued (nextId t) r"
  using steps_later[OF work_steps_steps] by (auto simp: later_def intro: issued_mono)

lemma settled_row: "settled s r \<Longrightarrow> map_get (runs s) r = Some run \<Longrightarrow> isTerminalRunStatus (run_status run)"
  by (simp add: settled_def finished_def)

lemma failRun_settles: "settled (snd (failRun r e s)) r"
proof (cases "map_get (runs s) r")
  case (Some run)
  show ?thesis
  proof (cases "isTerminalRunStatus (run_status run)")
    case True
    then have "snd (failRun r e s) = s" using Some by (intro run_status_quiet(4)) simp
    with Some True show ?thesis by (simp add: settled_def finished_def)
  next
    case False
    from failRun_writes[OF Some False, of e] show ?thesis by (auto simp: writes_run_def settled_def finished_def isTerminalRunStatus_def)
  qed
qed (simp add: failRun_def settled_def)

text \<open>A program that ends in \<open>m\<close> settles what \<open>m\<close> settles; what it settled before stays so.\<close>

definition settles :: "string \<Rightarrow> 'a op \<Rightarrow> bool" where
  "settles r m \<longleftrightarrow> (\<forall>s x t. reachable s \<longrightarrow> issued (nextId s) r \<longrightarrow> m s = (Inr x, t) \<longrightarrow> settled t r)"

lemma settles_last:
  assumes "safe m" and "\<And>x. settles r (k x)"
  shows "settles r (await m k)"
  unfolding settles_def
proof (intro allI impI)
  fix s x t assume s: "reachable s" "issued (nextId s) r" "await m k s = (Inr x, t)"
  from assms(1) s(1) obtain y u where u: "m s = (Inr y, u)" "work_step\<^sup>*\<^sup>* s u" "reachable u" by (rule safe_steps)
  with s(3) have "k y u = (Inr x, t)" by (simp add: await_def)
  with assms(2)[of y] u(3) issued_later[OF u(2) s(2)] show "settled t r" unfolding settles_def by blast
qed

lemma settles_first:
  assumes "settles r m" and "safe m" and "\<And>x. safe (k x)"
  shows "settles r (await m k)"
  unfolding settles_def
proof (intro allI impI)
  fix s x t assume s: "reachable s" "issued (nextId s) r" "await m k s = (Inr x, t)"
  from assms(2) s(1) obtain y u where u: "m s = (Inr y, u)" "work_step\<^sup>*\<^sup>* s u" "reachable u" by (rule safe_steps)
  have "settled u r" using assms(1) s(1,2) u(1) unfolding settles_def by blast
  moreover from s(3) u(1) have k: "k y u = (Inr x, t)" by (simp add: await_def)
  from assms(3)[of y] u(3) obtain z w where "k y u = (Inr z, w)" "work_step\<^sup>*\<^sup>* u w" by (rule safe_steps)
  with k have "work_step\<^sup>*\<^sup>* u t" by simp
  ultimately show "settled t r" using settled_kept[OF u(3)] issued_later[OF u(2) s(2)] by blast
qed

lemma give_up_settles: "settles r (give_up_run in_memory_deps r e)"
proof -
  have "settles r (st_failRun (store in_memory_deps) r e)"
    unfolding settles_def using failRun_settles by (auto simp: worker_fields total_def)
  then show ?thesis unfolding give_up_run_def by (intro settles_last settles_first safe_intros)
qed

section \<open>Dead commands\<close>

lemma run_kept_kind:
  assumes "reachable s" and "work_step\<^sup>*\<^sup>* s t" and "map_get (runs s) r = Some run" and "map_get (runs t) r = Some run'"
  shows "run_identity run' = run_identity run"
  using run_evolves_closure(3)[OF run_table.row_steps[OF work_steps_steps[OF assms(2)] assms(1,3,4)]] .

lemma stored_issued: "reachable s \<Longrightarrow> map_get (runs s) r = Some run \<Longrightarrow> issued (nextId s) r"
  by (rule run_table.row_issued)

lemma load_one: "loadRuns [r] s = (case map_get (runs s) r of None \<Rightarrow> [] | Some run \<Rightarrow> [run])"
  by (simp add: loadRuns_def js_set_of_def set_add_def)

lemma reap_settles:
  assumes "reachable s" and "issued (nextId s) (dc_runId command)" and "reapDeadCommand in_memory_deps command s = (Inr x, t)"
    and kind: "dc_kind command = DeadContinue \<or> (\<forall>u run. work_step\<^sup>*\<^sup>* s u \<longrightarrow> map_get (runs u) (dc_runId command) = Some run \<longrightarrow> run_kind run = TaskRun)"
  shows "settled t (dc_runId command)"
proof -
  let ?r = "dc_runId command" and ?e = "dead_error (rt_host s) command"
  have "safe (fail_dead_attempt in_memory_deps command ?e)"
    unfolding fail_dead_attempt_def by (auto intro!: safe_intros split: option.split)
  from this assms(1) obtain y u where u: "fail_dead_attempt in_memory_deps command ?e s = (Inr y, u)" "work_step\<^sup>*\<^sup>* s u" "reachable u"
    by (rule safe_steps)
  have loaded: "st_loadRuns (store in_memory_deps) [?r] = reading (loadRuns [?r])" by (simp add: in_memory_deps_def in_memory_store_def)
  have rest: "(case loadRuns [?r] u of
       [] \<Rightarrow> st_markDeadCommandReaped (store in_memory_deps) (dc_id command)
     | run # _ \<Rightarrow>
         await (if run_kind run = TaskRun \<or> dc_kind command = DeadContinue then give_up_run in_memory_deps ?r ?e
                else rce_enqueue (runCoordinationExecutor in_memory_deps)
                       \<lparr>cont_runId = ?r, cont_workflowName = dc_workflowName command\<rparr>) (\<lambda>_.
         st_markDeadCommandReaped (store in_memory_deps) (dc_id command))) u = (Inr x, t)"
    using assms(3) u(1) by (simp add: reapDeadCommand_def Let_def loaded await_def reading_def)
  show ?thesis
  proof (cases "map_get (runs u) ?r")
    case None
    have "safe (st_markDeadCommandReaped (store in_memory_deps) (dc_id command))" by (rule safe_intros)
    from this u(3) obtain z w where "st_markDeadCommandReaped (store in_memory_deps) (dc_id command) u = (Inr z, w)" "work_step\<^sup>*\<^sup>* u w"
      by (rule safe_steps)
    with rest None have "work_step\<^sup>*\<^sup>* u t" by (simp add: load_one)
    moreover have "settled u ?r" using None by (simp add: settled_def)
    ultimately show ?thesis using settled_kept[OF u(3)] issued_later[OF u(2) assms(2)] by blast
  next
    case (Some run)
    with kind u(2) have "run_kind run = TaskRun \<or> dc_kind command = DeadContinue" by blast
    with rest Some have "await (give_up_run in_memory_deps ?r ?e) (\<lambda>_. st_markDeadCommandReaped (store in_memory_deps) (dc_id command)) u = (Inr x, t)"
      by (simp add: load_one)
    moreover have "settles ?r (await (give_up_run in_memory_deps ?r ?e) (\<lambda>_. st_markDeadCommandReaped (store in_memory_deps) (dc_id command)))"
      by (intro settles_first give_up_settles safe_intros)
    ultimately show ?thesis using u(3) issued_later[OF u(2) assms(2)] unfolding settles_def by blast
  qed
qed

text \<open>
  In a loop of programs that return, what a round achieves holds at the end, when the other rounds keep
  it; \<open>R\<close> is what is known of every round.
\<close>

lemma each_leaves:
  assumes "reachable s" and "\<And>x. safe (f x)" and "\<And>x u. reachable u \<Longrightarrow> R u (snd (f x u))"
    and "each xs f s = (Inr y, t)" and "x \<in> set xs"
    and "\<And>u w z. reachable u \<Longrightarrow> work_step\<^sup>*\<^sup>* s u \<Longrightarrow> f x u = (Inr z, w) \<Longrightarrow> Q w"
    and "\<And>u w. reachable u \<Longrightarrow> work_step\<^sup>*\<^sup>* s u \<Longrightarrow> work_step\<^sup>*\<^sup>* u w \<Longrightarrow> R u w \<Longrightarrow> Q u \<Longrightarrow> Q w"
  shows "Q t"
proof -
  have "(x \<in> set xs \<or> Q u) \<Longrightarrow> Q t" if "reachable u" "work_step\<^sup>*\<^sup>* s u" "each xs f u = (Inr y, t)" for u
    using that
  proof (induction xs arbitrary: u)
    case (Cons a xs)
    from assms(2)[of a] Cons.prems(2) obtain z w where w: "f a u = (Inr z, w)" "work_step\<^sup>*\<^sup>* u w" "reachable w" by (rule safe_steps)
    have rest: "each xs f w = (Inr y, t)" using Cons.prems(4) w(1) by (simp add: await_def)
    have "work_step\<^sup>*\<^sup>* s w" by (rule rtranclp_trans[OF Cons.prems(3) w(2)])
    moreover have "x \<in> set xs \<or> Q w"
      using Cons.prems(1) assms(6)[OF Cons.prems(2,3)] assms(7)[OF Cons.prems(2,3) w(2)] assms(3)[OF Cons.prems(2), of a] w(1) by auto
    ultimately show ?case using Cons.IH[OF _ w(3) _ rest] by blast
  qed auto
  with assms(1,4,5) show ?thesis by blast
qed

lemma each_settles:
  assumes "reachable s" and "\<And>x. safe (f x)" and "each xs f s = (Inr y, t)" and "x \<in> set xs" and "issued (nextId s) r"
    and "\<And>u w z. reachable u \<Longrightarrow> work_step\<^sup>*\<^sup>* s u \<Longrightarrow> f x u = (Inr z, w) \<Longrightarrow> settled w r"
  shows "settled t r"
  by (rule each_leaves[where R = "\<lambda>_ _. True" and Q = "\<lambda>w. settled w r", OF assms(1,2) _ assms(3,4,6)])
     (use settled_kept issued_later[OF _ assms(5)] in \<open>blast+\<close>)

text \<open>Every part of a sweep leaves the queues tidy.\<close>

definition tidies :: "'a op \<Rightarrow> bool" where
  "tidies m \<longleftrightarrow> (\<forall>s. reachable s \<longrightarrow> tidy s (snd (m s)))"

named_theorems tidy_intros \<open>one rule per construct and operation\<close>

lemma tidies_await [tidy_intros]:
  assumes "safe m" and "tidies m" and "\<And>x. tidies (k x)"
  shows "tidies (await m k)"
  unfolding tidies_def
proof (intro allI impI)
  fix s assume s: "reachable s"
  from assms(1) s obtain x t where t: "m s = (Inr x, t)" "reachable t" by (rule safe_steps)
  have "tidy s t" "tidy t (snd (k x t))" using assms(2,3) s t unfolding tidies_def by (metis snd_conv)+
  with t(1) show "tidy s (snd (await m k s))" by (auto simp: await_def intro: tidy_trans)
qed

lemma tidies_plain [tidy_intros]: "tidies (ret x)" "tidies (reading f)"
  by (simp_all add: tidies_def reading_def tidy_refl)

lemma tidies_each [tidy_intros]: "(\<And>x. safe (f x)) \<Longrightarrow> (\<And>x. tidies (f x)) \<Longrightarrow> tidies (each xs f)"
  by (induction xs) (auto intro: tidy_intros)

lemma memory_ops_tidy [tidy_intros]:
  "tidies (st_loadRunSnapshot (store in_memory_deps) r)" "tidies (st_loadRuns (store in_memory_deps) rs)"
  "tidies (st_failNodeChild (store in_memory_deps) r n k e)" "tidies (st_failNode (store in_memory_deps) r n e)"
  "tidies (st_failRun (store in_memory_deps) r e)" "tidies (st_cancelNonTerminalRunNodes (store in_memory_deps) r)"
  "tidies (st_markDeadCommandReaped (store in_memory_deps) i)"
  "tidies (rce_enqueue (runCoordinationExecutor in_memory_deps) c)" "tidies (ae_deleteUnclaimed (attemptExecutor in_memory_deps) r)"
  unfolding in_memory_deps_def in_memory_store_def in_memory_coordination_def in_memory_attempts_def record_fields tidies_def
  by (auto simp: reading_def total_def doing_def case_prod_beta tidy_refl tidy_frame frame_simps enqueue_def tidy_enqueue tidy_unclaimed mark_reaps)

lemma cancelRunTree_tidy [tidy_intros]: "tidies (cancelRunTree in_memory_deps r)"
  using cancelRunTree_settles unfolding tidies_def tree_cancelled_def cancels_def by (metis snd_conv)

lemma give_up_run_tidy [tidy_intros]: "tidies (give_up_run in_memory_deps r e)"
  unfolding give_up_run_def cancelDescendants_def wakeParentRun_def
  by (auto intro!: tidy_intros safe_intros split: option.split)

lemma fail_dead_attempt_safe [safe_intros]: "safe (fail_dead_attempt in_memory_deps command e)"
  unfolding fail_dead_attempt_def by (auto intro!: safe_intros split: option.split)

lemma reapDeadCommand_tidy [tidy_intros]: "tidies (reapDeadCommand in_memory_deps command)"
  unfolding reapDeadCommand_def fail_dead_attempt_def Let_def
  by (auto intro!: tidy_intros safe_intros split: option.split list.split)

section \<open>What a sweep leaves\<close>

text \<open>No step but a deletion removes a run.\<close>

definition runs_stay :: "runtime \<Rightarrow> runtime \<Rightarrow> bool" where
  "runs_stay s s' \<longleftrightarrow> (\<forall>k. map_get (runs s) k \<noteq> None \<longrightarrow> map_get (runs s') k \<noteq> None)"

lemma runs_stay_view: "run_view s' = run_view s \<Longrightarrow> runs_stay s s'"
  by (simp add: runs_stay_def view_defs)

lemma runs_stay_status: "run_status_step s s' \<Longrightarrow> runs_stay s s'"
  by (erule run_status_step.cases) (auto simp: runs_stay_def writes_run_def)

lemma runs_stay_create: "runs_stay s (snd (createRunWithState i s))"
  by (cases "may_create i s") (auto simp: runs_stay_def createRunWithState_new createRunWithState_old after_create_def)

lemma runs_stay_child: "runs_stay s (snd (ensureChildRun p s))"
  using runs_ensureChildRun[of p s] runs_stay_create[of s "childRunInput p"] by (auto simp: runs_stay_def)

lemma work_step_keeps_run: "work_step s s' \<Longrightarrow> runs_stay s s'"
  by (induction rule: work_step.induct)
     (simp_all add: runs_stay_create runs_stay_child run_status_steps[THEN runs_stay_status] runs_stay_view frame_simps
        dispatchActivity_def dispatchTask_def calm_steps)

lemma work_steps_keep_run: "work_step\<^sup>*\<^sup>* s s' \<Longrightarrow> map_get (runs s) k \<noteq> None \<Longrightarrow> map_get (runs s') k \<noteq> None"
  by (induction rule: rtranclp_induct) (auto dest!: work_step_keeps_run simp: runs_stay_def)

text \<open>A child and a node that are final, and that they stay so.\<close>

definition child_ended :: "string \<Rightarrow> runtime \<Rightarrow> bool" where
  "child_ended k s \<longleftrightarrow> (\<exists>c. map_get (children s) k = Some c \<and> isTerminalNodeStatus (child_status c))"

definition node_ended :: "string \<Rightarrow> runtime \<Rightarrow> bool" where
  "node_ended k s \<longleftrightarrow> (\<exists>n. map_get (nodes s) k = Some n \<and> isTerminalNodeStatus (node_status n))"

lemma ended_stays:
  assumes "reachable s" and "work_step\<^sup>*\<^sup>* s t"
  shows "child_ended k s \<Longrightarrow> child_ended k t" "node_ended k s \<Longrightarrow> node_ended k t"
    "map_get (children s) k \<noteq> None \<Longrightarrow> map_get (children t) k \<noteq> None" "map_get (nodes s) k \<noteq> None \<Longrightarrow> map_get (nodes t) k \<noteq> None"
proof -
  have w: "row_writes s t" using work_steps_writes[OF assms(2)] node_invariant.holds[OF assms(1)] by simp
  show "child_ended k s \<Longrightarrow> child_ended k t" unfolding child_ended_def using row_writes_children[OF w] child_evolves_closure(4) by metis
  show "node_ended k s \<Longrightarrow> node_ended k t" unfolding node_ended_def using row_writes_nodes[OF w] node_evolves_closure(3) by metis
  show "map_get (children s) k \<noteq> None \<Longrightarrow> map_get (children t) k \<noteq> None" using row_writes_children[OF w] by blast
  show "map_get (nodes s) k \<noteq> None \<Longrightarrow> map_get (nodes t) k \<noteq> None" using row_writes_nodes[OF w] by blast
qed

text \<open>What a dead attempt command carries agrees with its payload.\<close>

definition of_attempt :: "DeadWorkflowCommand \<Rightarrow> AttemptCommand \<Rightarrow> bool" where
  "of_attempt command c \<longleftrightarrow> dc_payload command = AttemptPayload c \<and> dc_runId command = cmd_runId c
     \<and> dc_nodeName command = Some (cmd_nodeName c) \<and> (dc_kind command = DeadActivity \<or> dc_kind command = DeadTask)"

lemma listed_attempt:
  assumes "command \<in> set (listUnreapedDeadCommands limit s)" and "dc_payload command = AttemptPayload c"
  shows "of_attempt command c"
proof -
  have "command \<in> set (List.map_filter mapDeadContinue (filter unreaped (continueRunCommands s))
      @ List.map_filter mapDeadAttempt (filter unreaped (attemptCommands s)))"
    using assms(1) by (auto simp: listUnreapedDeadCommands_def js_prefix_def split: option.splits dest: in_set_takeD)
  then consider item where "mapDeadContinue item = Some command" | item where "mapDeadAttempt item = Some command"
    unfolding set_append Un_iff by (auto simp: List.map_filter_def)
  then show ?thesis
    using assms(2) by cases (auto simp: of_attempt_def mapDeadContinue_def mapDeadAttempt_def Let_def split: option.splits AttemptCommand.splits)
qed

lemma dead_attempt_failed:
  assumes "of_attempt command c" and "fail_dead_attempt in_memory_deps command e s = (Inr x, t)"
  shows "map_get (children s) (childKey (cmd_runId c) (cmd_nodeName c) (cmd_childKey c)) \<noteq> None
      \<Longrightarrow> child_ended (childKey (cmd_runId c) (cmd_nodeName c) (cmd_childKey c)) t"
    and "shouldCompleteNodeFromAttempt (nums (rt_host s)) (cmd_childKey c) \<Longrightarrow> map_get (nodes s) (nodeKey (cmd_runId c) (cmd_nodeName c)) \<noteq> None
      \<Longrightarrow> node_ended (nodeKey (cmd_runId c) (cmd_nodeName c)) t"
proof -
  let ?u = "snd (failNodeChild (cmd_runId c) (cmd_nodeName c) (cmd_childKey c) e s)"
  have t: "t = (if shouldCompleteNodeFromAttempt (nums (rt_host s)) (cmd_childKey c) then snd (failNode (cmd_runId c) (cmd_nodeName c) e ?u) else ?u)"
    using assms by (auto simp: of_attempt_def fail_dead_attempt_def attemptCommandChildKey_def worker_fields await_def total_def reading_def
        node_writes_host split: if_splits)
  have "child_ended (childKey (cmd_runId c) (cmd_nodeName c) (cmd_childKey c)) ?u"
    if "map_get (children s) (childKey (cmd_runId c) (cmd_nodeName c) (cmd_childKey c)) \<noteq> None"
    using that by (auto simp: child_ended_def failNodeChild_def case_prod_beta Let_def isTerminalNodeStatus_def)
  then show "map_get (children s) (childKey (cmd_runId c) (cmd_nodeName c) (cmd_childKey c)) \<noteq> None
      \<Longrightarrow> child_ended (childKey (cmd_runId c) (cmd_nodeName c) (cmd_childKey c)) t"
    by (simp add: t child_ended_def node_ops_children)
  have "node_ended (nodeKey (cmd_runId c) (cmd_nodeName c)) (snd (failNode (cmd_runId c) (cmd_nodeName c) e ?u))"
    if "map_get (nodes s) (nodeKey (cmd_runId c) (cmd_nodeName c)) \<noteq> None"
  proof -
    have "map_get (nodes ?u) (nodeKey (cmd_runId c) (cmd_nodeName c)) \<noteq> None" using that by (simp add: row_writes_apart)
    then show ?thesis by (auto simp: node_ended_def failNode_def case_prod_beta Let_def isTerminalNodeStatus_def)
  qed
  then show "shouldCompleteNodeFromAttempt (nums (rt_host s)) (cmd_childKey c) \<Longrightarrow> map_get (nodes s) (nodeKey (cmd_runId c) (cmd_nodeName c)) \<noteq> None
      \<Longrightarrow> node_ended (nodeKey (cmd_runId c) (cmd_nodeName c)) t"
    by (simp add: t)
qed

text \<open>One round: the rows of the attempt fail, the run is given up or continued, the command is marked last.\<close>

lemma reap_round:
  assumes "reachable s" and "reapDeadCommand in_memory_deps command s = (Inr x, t)"
  obtains u w where "fail_dead_attempt in_memory_deps command (dead_error (rt_host s) command) s = (Inr (), u)"
    "work_step\<^sup>*\<^sup>* s u" "reachable u" "work_step\<^sup>*\<^sup>* u w" "reachable w" "t = markDeadCommandReaped (dc_id command) w"
    "\<forall>run. map_get (runs u) (dc_runId command) = Some run \<longrightarrow> run_kind run \<noteq> TaskRun \<longrightarrow> dc_kind command \<noteq> DeadContinue
       \<longrightarrow> queued_for (dc_runId command) w"
proof -
  let ?r = "dc_runId command" and ?e = "dead_error (rt_host s) command"
  from fail_dead_attempt_safe assms(1) obtain y u where u: "fail_dead_attempt in_memory_deps command ?e s = (Inr y, u)" "work_step\<^sup>*\<^sup>* s u" "reachable u"
    by (rule safe_steps)
  have fields: "st_loadRuns (store in_memory_deps) = (\<lambda>rs. reading (loadRuns rs))"
      "st_markDeadCommandReaped (store in_memory_deps) = (\<lambda>i. doing (markDeadCommandReaped i))"
    by (simp_all add: in_memory_deps_def in_memory_store_def fun_eq_iff)
  let ?work = "case map_get (runs u) ?r of
       None \<Rightarrow> ret ()
     | Some run \<Rightarrow> if run_kind run = TaskRun \<or> dc_kind command = DeadContinue then give_up_run in_memory_deps ?r ?e
                else rce_enqueue (runCoordinationExecutor in_memory_deps) \<lparr>cont_runId = ?r, cont_workflowName = dc_workflowName command\<rparr>"
  have "safe ?work" by (auto intro!: safe_intros split: option.split)
  from this u(3) obtain z w where w: "?work u = (Inr z, w)" "work_step\<^sup>*\<^sup>* u w" "reachable w" by (rule safe_steps)
  have "t = markDeadCommandReaped (dc_id command) w"
    using assms(2) u(1) w(1) by (simp add: reapDeadCommand_def Let_def fields await_def reading_def doing_def load_one split: option.splits)
  moreover have "queued_for ?r w"
    if "map_get (runs u) ?r = Some run" "run_kind run \<noteq> TaskRun" "dc_kind command \<noteq> DeadContinue" for run
  proof -
    have "w = enqueueContinue \<lparr>cont_runId = ?r, cont_workflowName = dc_workflowName command\<rparr> None u"
      using w(1) that by (simp add: worker_fields doing_def enqueue_def)
    then show ?thesis using enqueueContinue_queued[of "\<lparr>cont_runId = ?r, cont_workflowName = dc_workflowName command\<rparr>" None u]
      by (auto simp: queued_for_def)
  qed
  ultimately show thesis using that[of u w] u w by simp
qed

text \<open>
  What is left of a dead command: it is marked, its run is terminal when no coordination will continue
  it and has a continue command waiting otherwise, and the child and the node (unless it collects
  several children) of a dead attempt are final.
\<close>

definition reaped :: "runtime \<Rightarrow> DeadWorkflowCommand \<Rightarrow> runtime \<Rightarrow> bool" where
  "reaped s command t \<longleftrightarrow> dc_id command \<notin> dc_id ` set (listUnreapedDeadCommands None t)
     \<and> (\<forall>run. map_get (runs s) (dc_runId command) = Some run \<longrightarrow>
          (\<exists>run'. map_get (runs t) (dc_runId command) = Some run' \<and>
             (if run_kind run = TaskRun \<or> dc_kind command = DeadContinue then isTerminalRunStatus (run_status run')
              else \<exists>item \<in> set (continueRunCommands t). qi_deadAt item = None \<and> cont_runId (qi_payload item) = dc_runId command)))
     \<and> (\<forall>c. dc_payload command = AttemptPayload c \<longrightarrow>
          (map_get (children s) (childKey (cmd_runId c) (cmd_nodeName c) (cmd_childKey c)) \<noteq> None
             \<longrightarrow> child_ended (childKey (cmd_runId c) (cmd_nodeName c) (cmd_childKey c)) t)
          \<and> (shouldCompleteNodeFromAttempt (nums (rt_host s)) (cmd_childKey c)
             \<longrightarrow> map_get (nodes s) (nodeKey (cmd_runId c) (cmd_nodeName c)) \<noteq> None
             \<longrightarrow> node_ended (nodeKey (cmd_runId c) (cmd_nodeName c)) t))"

lemma sweep_leaves:
  assumes "reachable s" and "each dead (reapDeadCommand in_memory_deps) s = (Inr y, t)" and "command \<in> set dead"
    and "\<And>u w z. reachable u \<Longrightarrow> work_step\<^sup>*\<^sup>* s u \<Longrightarrow> reapDeadCommand in_memory_deps command u = (Inr z, w) \<Longrightarrow> Q w"
    and "\<And>u w. reachable u \<Longrightarrow> work_step\<^sup>*\<^sup>* u w \<Longrightarrow> tidy u w \<Longrightarrow> Q u \<Longrightarrow> Q w"
  shows "Q t"
  by (rule each_leaves[where R = tidy and Q = Q, OF assms(1) reapDeadCommand_safe _ assms(2-4)])
     (use reapDeadCommand_tidy assms(5) in \<open>auto simp: tidies_def\<close>)

lemma command_reaped:
  assumes "reachable s" and "each dead (reapDeadCommand in_memory_deps) s = (Inr y, t)" and "command \<in> set dead"
  shows "\<not> unreaped_id (dc_id command) t"
proof (rule sweep_leaves[where Q = "\<lambda>t. \<not> unreaped_id (dc_id command) t", OF assms])
  fix u w z assume u: "reachable u" "reapDeadCommand in_memory_deps command u = (Inr z, w)"
  show "\<not> unreaped_id (dc_id command) w" by (rule reap_round[OF u]) (use mark_reaps(1) in blast)
qed (auto simp: tidy_def)

lemma run_continued:
  assumes "reachable s" and "each dead (reapDeadCommand in_memory_deps) s = (Inr y, t)" and "command \<in> set dead"
    and run: "map_get (runs s) (dc_runId command) = Some run" "run_kind run \<noteq> TaskRun" "dc_kind command \<noteq> DeadContinue"
  shows "queued_for (dc_runId command) t"
proof (rule sweep_leaves[where Q = "queued_for (dc_runId command)", OF assms(1-3)])
  fix u w z assume u: "reachable u" "work_step\<^sup>*\<^sup>* s u" "reapDeadCommand in_memory_deps command u = (Inr z, w)"
  obtain v x where v: "work_step\<^sup>*\<^sup>* u v" "reachable x" "w = markDeadCommandReaped (dc_id command) x"
      "\<forall>run. map_get (runs v) (dc_runId command) = Some run \<longrightarrow> run_kind run \<noteq> TaskRun \<longrightarrow> dc_kind command \<noteq> DeadContinue
         \<longrightarrow> queued_for (dc_runId command) x"
    by (rule reap_round[OF u(1,3)]) (rule that)
  have steps: "work_step\<^sup>*\<^sup>* s v" by (rule rtranclp_trans[OF u(2) v(1)])
  obtain run' where run': "map_get (runs v) (dc_runId command) = Some run'" using work_steps_keep_run[OF steps] run(1) by blast
  have "run_kind run' \<noteq> TaskRun" using run_identity_keys(7)[OF run_kept_kind[OF assms(1) steps run(1) run']] run(2) by simp
  from v(4)[rule_format, OF run' this run(3)] mark_reaps(2)[OF v(2)] show "queued_for (dc_runId command) w" by (simp add: v(3) tidy_def)
qed (auto simp: tidy_def)

lemma run_given_up:
  assumes "reachable s" and "each dead (reapDeadCommand in_memory_deps) s = (Inr y, t)" and "command \<in> set dead"
    and run: "map_get (runs s) (dc_runId command) = Some run" "run_kind run = TaskRun \<or> dc_kind command = DeadContinue"
  shows "settled t (dc_runId command)"
proof (rule each_settles[OF assms(1) reapDeadCommand_safe assms(2,3) stored_issued[OF assms(1) run(1)]])
  fix u w z assume u: "reachable u" "work_step\<^sup>*\<^sup>* s u" "reapDeadCommand in_memory_deps command u = (Inr z, w)"
  have "run_kind run' = TaskRun" if "run_kind run = TaskRun" "work_step\<^sup>*\<^sup>* u v" "map_get (runs v) (dc_runId command) = Some run'" for v run'
    using run_identity_keys(7)[OF run_kept_kind[OF assms(1) rtranclp_trans[OF u(2) that(2)] run(1) that(3)]] that(1) by simp
  with run(2) show "settled w (dc_runId command)"
    by (intro reap_settles[OF u(1) issued_later[OF u(2) stored_issued[OF assms(1) run(1)]] u(3)]) blast
qed

lemma attempt_rows_ended:
  assumes "reachable s" and "each dead (reapDeadCommand in_memory_deps) s = (Inr y, t)" and "command \<in> set dead" and "of_attempt command c"
  shows "map_get (children s) (childKey (cmd_runId c) (cmd_nodeName c) (cmd_childKey c)) \<noteq> None
      \<Longrightarrow> child_ended (childKey (cmd_runId c) (cmd_nodeName c) (cmd_childKey c)) t"
    and "shouldCompleteNodeFromAttempt (nums (rt_host s)) (cmd_childKey c) \<Longrightarrow> map_get (nodes s) (nodeKey (cmd_runId c) (cmd_nodeName c)) \<noteq> None
      \<Longrightarrow> node_ended (nodeKey (cmd_runId c) (cmd_nodeName c)) t"
proof -
  have host: "rt_host u = rt_host s" if "work_step\<^sup>*\<^sup>* s u" for u using steps_later[OF work_steps_steps[OF that]] by (simp add: later_def)
  have round: thesis if "reachable u" "reapDeadCommand in_memory_deps command u = (Inr z, w)"
      "\<And>v. fail_dead_attempt in_memory_deps command (dead_error (rt_host u) command) u = (Inr (), v) \<Longrightarrow> reachable v \<Longrightarrow> work_step\<^sup>*\<^sup>* v w \<Longrightarrow> thesis"
    for u w z thesis
    by (rule reap_round[OF that(1,2)]) (use that(3) work_step.mark_reaped rtranclp.rtrancl_into_rtrancl in metis)
  show "child_ended (childKey (cmd_runId c) (cmd_nodeName c) (cmd_childKey c)) t"
    if "map_get (children s) (childKey (cmd_runId c) (cmd_nodeName c) (cmd_childKey c)) \<noteq> None"
  proof (rule sweep_leaves[where Q = "child_ended (childKey (cmd_runId c) (cmd_nodeName c) (cmd_childKey c))", OF assms(1-3)])
    fix u w z assume u: "reachable u" "work_step\<^sup>*\<^sup>* s u" "reapDeadCommand in_memory_deps command u = (Inr z, w)"
    from u(1,3) obtain v where v: "fail_dead_attempt in_memory_deps command (dead_error (rt_host u) command) u = (Inr (), v)"
      "reachable v" "work_step\<^sup>*\<^sup>* v w" by (rule round)
    from dead_attempt_failed(1)[OF assms(4) v(1) ended_stays(3)[OF assms(1) u(2) that]]
    show "child_ended (childKey (cmd_runId c) (cmd_nodeName c) (cmd_childKey c)) w" by (rule ended_stays(1)[OF v(2,3)])
  qed (rule ended_stays(1))
  show "node_ended (nodeKey (cmd_runId c) (cmd_nodeName c)) t"
    if "shouldCompleteNodeFromAttempt (nums (rt_host s)) (cmd_childKey c)" "map_get (nodes s) (nodeKey (cmd_runId c) (cmd_nodeName c)) \<noteq> None"
  proof (rule sweep_leaves[where Q = "node_ended (nodeKey (cmd_runId c) (cmd_nodeName c))", OF assms(1-3)])
    fix u w z assume u: "reachable u" "work_step\<^sup>*\<^sup>* s u" "reapDeadCommand in_memory_deps command u = (Inr z, w)"
    have "shouldCompleteNodeFromAttempt (nums (rt_host u)) (cmd_childKey c)" using that(1) host[OF u(2)] by simp
    moreover from u(1,3) obtain v where v: "fail_dead_attempt in_memory_deps command (dead_error (rt_host u) command) u = (Inr (), v)"
      "reachable v" "work_step\<^sup>*\<^sup>* v w" by (rule round)
    ultimately have "node_ended (nodeKey (cmd_runId c) (cmd_nodeName c)) v"
      using dead_attempt_failed(2)[OF assms(4) v(1)] ended_stays(4)[OF assms(1) u(2) that(2)] by blast
    then show "node_ended (nodeKey (cmd_runId c) (cmd_nodeName c)) w" by (rule ended_stays(2)[OF v(2,3)])
  qed (rule ended_stays(2))
qed

text \<open>
  C36: no dead command leaves a zombie. Reaping the dead-lettered commands returns, without an error,
  the number of commands it listed, and afterwards none of them is listed any more. The run of each, where
  it is stored, is terminal when no coordination will continue it (a task run, or a run whose own continue
  command died) and has a continue command waiting otherwise. The child of a dead attempt, and its node
  unless that collects several children, are final.
\<close>

theorem dead_commands_are_reaped:
  assumes "reachable s"
  shows "\<exists>t. reapDeadWorkflowCommands in_memory_deps limit s = (Inr (length (listUnreapedDeadCommands limit s)), t)
    \<and> (\<forall>command \<in> set (listUnreapedDeadCommands limit s). reaped s command t)"
proof -
  let ?dead = "listUnreapedDeadCommands limit s"
  have "safe (each ?dead (reapDeadCommand in_memory_deps))" by (intro safe_intros)
  from this assms obtain x t where t: "each ?dead (reapDeadCommand in_memory_deps) s = (Inr x, t)" "work_step\<^sup>*\<^sup>* s t" by (rule safe_steps)
  have "reapDeadWorkflowCommands in_memory_deps limit s = (Inr (length ?dead), t)"
    using t(1) by (simp add: reapDeadWorkflowCommands_def in_memory_deps_def in_memory_store_def await_def reading_def)
  moreover have "reaped s command t" if listed: "command \<in> set ?dead" for command
    unfolding reaped_def
  proof (intro conjI allI impI)
    show "dc_id command \<notin> dc_id ` set (listUnreapedDeadCommands None t)"
      using command_reaped[OF assms t(1) listed] listed_unreaped by fastforce
    show "\<exists>run'. map_get (runs t) (dc_runId command) = Some run' \<and>
        (if run_kind run = TaskRun \<or> dc_kind command = DeadContinue then isTerminalRunStatus (run_status run')
         else \<exists>item \<in> set (continueRunCommands t). qi_deadAt item = None \<and> cont_runId (qi_payload item) = dc_runId command)"
      if stored: "map_get (runs s) (dc_runId command) = Some run" for run
    proof -
      obtain run' where "map_get (runs t) (dc_runId command) = Some run'" using work_steps_keep_run[OF t(2)] stored by blast
      then show ?thesis
        using run_given_up[OF assms t(1) listed stored] run_continued[OF assms t(1) listed stored] settled_row by (auto simp: queued_for_def)
    qed
  qed (use attempt_rows_ended[OF assms t(1) listed listed_attempt[OF listed]] in \<open>blast+\<close>)
  ultimately show ?thesis by blast
qed

definition doomed :: runtime where
  "doomed = snd (createRunWithState (root_workflow None None) (createInMemoryWorkflowRuntime sample_host (Some 1)))"

definition doomed_command :: runtime where
  "doomed_command = releaseContinue \<lparr>claim_id = ''continue-2'', claim_command = continue_order, claim_leaseToken = ''continue-lease-3''\<rparr>
     \<lparr>ro_error = Some (Plain JNull), ro_unroutable = False\<rparr>
     (snd (claimContinue \<lparr>rcw_workerId = ''w'', rcw_workflowNames = [''order''], rcw_leaseMs = 5\<rparr> (enqueueContinue continue_order None doomed)))"

lemma doomed_listed:
  "\<exists>command. command \<in> set (listUnreapedDeadCommands None doomed_command) \<and> dc_runId command = ''run-1'' \<and> dc_kind command = DeadContinue"
  "\<exists>run. map_get (runs doomed_command) ''run-1'' = Some run"
  by (simp_all add: doomed_command_def doomed_def root_workflow_def continue_order_def listUnreapedDeadCommands_def js_prefix_def
      enqueueContinue_def claimContinue_def releaseContinue_def matchesClaim_def releaseQueueItem_def countFailedDelivery_def
      mapDeadContinue_def unreaped_def map_filter_simps sort_by_def sample_eval)

lemma reachable_doomed: "reachable doomed_command"
proof -
  have "reachable (createInMemoryWorkflowRuntime sample_host (Some 1))" unfolding reachable_def by blast
  then have "reachable doomed" unfolding doomed_def by (rule reachable_work[OF _ create_run[OF root_workflow_root]])
  then have "reachable (enqueueContinue continue_order None doomed)" by (rule reachable_work[OF _ enqueue_continue])
  then show ?thesis unfolding doomed_command_def by (intro reachable_work[OF _ release_continue] reachable_work[OF _ claim_continue])
qed

theorem dead_commands_are_reaped_witness:
  "\<exists>n t command run. reapDeadWorkflowCommands in_memory_deps None doomed_command = (Inr n, t)
     \<and> command \<in> set (listUnreapedDeadCommands None doomed_command) \<and> dc_id command \<notin> dc_id ` set (listUnreapedDeadCommands None t)
     \<and> map_get (runs t) ''run-1'' = Some run \<and> isTerminalRunStatus (run_status run)"
proof -
  obtain command where command: "command \<in> set (listUnreapedDeadCommands None doomed_command)" "dc_runId command = ''run-1''" "dc_kind command = DeadContinue"
    using doomed_listed(1) by (elim exE conjE)
  obtain run where run: "map_get (runs doomed_command) ''run-1'' = Some run" using doomed_listed(2) ..
  obtain t where "reapDeadWorkflowCommands in_memory_deps None doomed_command = (Inr (length (listUnreapedDeadCommands None doomed_command)), t)"
      "reaped doomed_command command t"
    using dead_commands_are_reaped[OF reachable_doomed, of None] command(1) by blast
  with command run show ?thesis unfolding reaped_def by auto
qed

section \<open>Expired runs\<close>

lemma listed_runs:
  "st_listRuns (store in_memory_deps) (expired_filter name before None) s
    = (Inr \<lparr>lr_runs = filteredRuns (expired_filter name before None) s, lr_nextCursor = None\<rparr>, s)"
  using rat_integral_of_int[of 0]
  by (simp add: in_memory_deps_def in_memory_store_def listRuns_def expired_filter_def truthy_def Let_def js_slice_def)

lemma expired_listed:
  assumes "reachable s" and "map_get (runs s) r = Some run" and "\<not> isTerminalRunStatus (run_status run)"
    and "run_kind run = WorkflowRun" "run_name run = name" "run_createdAt run < before"
  shows "run \<in> set (filteredRuns (expired_filter name before None) s)"
proof -
  have "run \<in> set (map_values (runs s))" using assms(2) by (force dest: map_of_SomeD)
  moreover have "runMatchesFilter run (expired_filter name before None)"
    using assms(3-6) by (cases "run_status run") (simp_all add: runMatchesFilter_def expired_filter_def isTerminalRunStatus_def)
  ultimately show ?thesis by (simp add: filteredRuns_def)
qed

lemma safe_at: "(\<And>t. safe (m t)) \<Longrightarrow> safe (\<lambda>s. m s s)"
  by (simp add: safe_def)

lemma listRuns_safe [safe_intros]: "safe (st_listRuns (store in_memory_deps) (expired_filter name before None))"
  by (simp add: safe_def listed_runs)

lemma timeoutWorkflow_safe [safe_intros]: "safe (timeoutWorkflow in_memory_deps None date w)"
  unfolding timeoutWorkflow_def by (auto intro!: safe_intros split: option.split)

lemma timeoutExpired_safe [safe_intros]: "safe (timeoutExpiredWorkflowRuns in_memory_deps None date ws)"
  by (induction ws) (auto intro!: safe_intros)

lemma timeoutWorkflow_settles:
  assumes "reachable s" and "map_get (runs s) r = Some run" "run_kind run = WorkflowRun"
    "run_name run = wd_name (wi_workflow w)" "run_createdAt run < cutoff (nums (rt_host s)) date ms"
    and "parseDurationMs (nums (rt_host s)) (wd_timeout (wi_workflow w)) = Some ms"
    and "timeoutWorkflow in_memory_deps None date w s = (Inr n, t)"
  shows "settled t r"
proof (cases "isTerminalRunStatus (run_status run)")
  case True
  have "safe (timeoutWorkflow in_memory_deps None date w)" by (rule safe_intros)
  from this assms(1) obtain x u where "timeoutWorkflow in_memory_deps None date w s = (Inr x, u)" "work_step\<^sup>*\<^sup>* s u" by (rule safe_steps)
  with assms(7) have "work_step\<^sup>*\<^sup>* s t" by simp
  moreover have "settled s r" using True assms(2) by (simp add: settled_def finished_def)
  ultimately show ?thesis using settled_kept[OF assms(1)] stored_issued[OF assms(1,2)] by blast
next
  case False
  let ?before = "cutoff (nums (rt_host s)) date ms"
  let ?listed = "filteredRuns (expired_filter (wd_name (wi_workflow w)) ?before None) s"
  let ?f = "\<lambda>run. give_up_run in_memory_deps (run_id run)
                    (new_Error (''Workflow run ['' @ run_id run @ ''] timed out after [''
                       @ (case wd_timeout (wi_workflow w) of None \<Rightarrow> ''undefined'' | Some t \<Rightarrow> t) @ '']''))"
  have "safe (each ?listed ?f)" by (intro safe_intros)
  from this assms(1) obtain y u where u: "each ?listed ?f s = (Inr y, u)" by (rule safe_steps)
  then have "t = u" using assms(6,7) by (simp add: timeoutWorkflow_def await_def reading_def listed_runs)
  moreover have "run \<in> set ?listed" using expired_listed[OF assms(1,2) False assms(3,4,5)] .
  moreover have "run_id run = r" using stored_run_known[OF assms(1,2)] by simp
  ultimately show ?thesis
    using each_settles[OF assms(1) give_up_run_safe u, of run r] stored_issued[OF assms(1,2)] give_up_settles
      issued_later unfolding settles_def by blast
qed

lemma timeouts_settle:
  assumes "reachable s" and "timeoutExpiredWorkflowRuns in_memory_deps None date ws s = (Inr n, t)" and "w \<in> set ws"
    and "map_get (runs s) r = Some run" "run_kind run = WorkflowRun"
    "run_name run = wd_name (wi_workflow w)" "run_createdAt run < cutoff (nums (rt_host s)) date ms"
    and "parseDurationMs (nums (rt_host s)) (wd_timeout (wi_workflow w)) = Some ms"
  shows "settled t r"
  using assms
proof (induction ws arbitrary: s run n)
  case (Cons a ws)
  have "safe (timeoutWorkflow in_memory_deps None date a)" by (rule safe_intros)
  from this Cons.prems(1) obtain m u where u: "timeoutWorkflow in_memory_deps None date a s = (Inr m, u)" "work_step\<^sup>*\<^sup>* s u" "reachable u"
    by (rule safe_steps)
  have "safe (timeoutExpiredWorkflowRuns in_memory_deps None date ws)" by (rule safe_intros)
  from this u(3) obtain k v where v: "timeoutExpiredWorkflowRuns in_memory_deps None date ws u = (Inr k, v)" "work_step\<^sup>*\<^sup>* u v"
    by (rule safe_steps)
  have t: "t = v" using Cons.prems(2) u(1) v(1) by (simp add: await_def)
  note issued = issued_later[OF u(2) stored_issued[OF Cons.prems(1,4)]]
  have kept: "settled t r" if "settled u r" using settled_kept[OF u(3) v(2) that issued] t by simp
  show ?case
  proof (cases "w = a \<or> map_get (runs u) r = None")
    case True
    then show ?thesis
      using timeoutWorkflow_settles[OF Cons.prems(1,4,5,6,7,8)] u(1) kept by (auto simp: settled_def)
  next
    case False
    then obtain run' where run': "map_get (runs u) r = Some run'" by blast
    have host: "rt_host u = rt_host s" using steps_later[OF work_steps_steps[OF u(2)]] by (simp add: later_def)
    from run_identity_keys[OF run_kept_kind[OF Cons.prems(1) u(2) Cons.prems(4) run']]
    have "run_kind run' = WorkflowRun" "run_name run' = wd_name (wi_workflow w)" "run_createdAt run' < cutoff (nums (rt_host u)) date ms"
      using Cons.prems(5-7) host by simp_all
    from Cons.IH[OF u(3) v(1)[folded t] _ run' this] Cons.prems(3,8) False host show ?thesis by simp
  qed
qed simp

text \<open>
  No run outlives the timeout of its workflow. A sweep without a batch limit returns, and every
  stored run of a workflow with a timeout that was created before the cutoff is terminal
  afterwards, in whatever state its nodes, children and commands were.
\<close>

theorem expired_runs_time_out:
  assumes "reachable s" and "w \<in> set workflows" and "parseDurationMs (nums (rt_host s)) (wd_timeout (wi_workflow w)) = Some ms"
    and "map_get (runs s) r = Some run" "run_kind run = WorkflowRun" "run_name run = wd_name (wi_workflow w)"
    and "run_createdAt run < cutoff (nums (rt_host s)) date ms"
  shows "\<exists>n t. timeoutExpiredWorkflowRuns in_memory_deps None date workflows s = (Inr n, t)
    \<and> (\<forall>run'. map_get (runs t) r = Some run' \<longrightarrow> isTerminalRunStatus (run_status run'))"
proof -
  have "safe (timeoutExpiredWorkflowRuns in_memory_deps None date workflows)" by (rule safe_intros)
  from this assms(1) obtain n t where t: "timeoutExpiredWorkflowRuns in_memory_deps None date workflows s = (Inr n, t)" by (rule safe_steps)
  with timeouts_settle[OF assms(1) t assms(2,4-7,3)] show ?thesis using settled_row by blast
qed

lemma order_timeout: "parseDurationMs decimal_numerics (Some ''1m'') = Some (Fin 60000)"
  by (simp add: parseDurationMs_def duration_number_def is_digit_def read_nat_def digit_value_def decimal_numerics_def Let_def)

theorem expired_runs_time_out_witness:
  "\<exists>n t. timeoutExpiredWorkflowRuns in_memory_deps None 100000 [order_implementation] one_run = (Inr n, t)
    \<and> (\<forall>run'. map_get (runs t) ''run-1'' = Some run' \<longrightarrow> isTerminalRunStatus (run_status run'))"
proof -
  have "\<exists>run. map_get (runs one_run) ''run-1'' = Some run \<and> run_kind run = WorkflowRun \<and> run_name run = ''order'' \<and> run_createdAt run = 1000"
    by (simp add: sample_defs sample_eval)
  then obtain run where run: "map_get (runs one_run) ''run-1'' = Some run" "run_kind run = WorkflowRun" "run_name run = ''order''" "run_createdAt run = 1000"
    by (elim exE conjE)
  have "rt_host one_run = sample_host" by (simp add: sample_defs sample_eval)
  then have host: "nums (rt_host one_run) = decimal_numerics" by simp
  have "cutoff decimal_numerics 100000 (Fin 60000) = 40000"
    by (simp add: cutoff_def decimal_numerics_def MAX_TIME_def trunc_rat_def)
  then show ?thesis
    using expired_runs_time_out[OF reachable_one_run, of order_implementation "[order_implementation]" "Fin 60000" "''run-1''" run 100000]
      run order_timeout host by (simp add: order_implementation_def order_definition_def)
qed

end
