(* ===== verification/Client.thy ===== *)
theory Client
  imports Advance
begin

text \<open>
  The client of the runtime (\<open>runtime/client.ts\<close>): starting and retrying runs, cancelling, and
  pruning in batches; the other operations hand their arguments to the store. The client is built
  from an adapter alone, without registered implementations; the definitions that \<open>retry\<close>
  looks up by name are a parameter. Watching a run is a generator of events and is left out.
\<close>

section \<open>Starting\<close>

record 'conn ClientStartOptions =
  co_tags :: "(string \<times> string) list option"
  co_idempotencyKey :: "jsval list option"
  co_unique :: "RunUniqueConstraint option"
  co_startAt :: "int option"
  co_connection :: "'conn option"

definition start_options ::
  "'conn WorkflowRuntimeAtomicStart option \<Rightarrow> jsval \<Rightarrow> 'conn ClientStartOptions \<Rightarrow> 'conn StartOptions" where
  "start_options atomicStart runnableInput options =
     \<lparr>so_atomicStart = atomicStart, so_implementation = None, so_input = runnableInput, so_tags = co_tags options,
      so_idempotencyKey = co_idempotencyKey options, so_unique = co_unique options, so_startAt = co_startAt options,
      so_connection = co_connection options\<rparr>"

datatype runnable = WorkflowRunnable WorkflowDefinition | TaskRunnable TaskDefinition

definition client_start ::
  "RuntimeDeps \<Rightarrow> 'conn WorkflowRuntimeAtomicStart option \<Rightarrow> runnable \<Rightarrow> jsval \<Rightarrow> 'conn ClientStartOptions \<Rightarrow> StoredRun op" where
  "client_start deps atomicStart runnable runnableInput options =
     (case runnable of
        WorkflowRunnable workflow \<Rightarrow> startWorkflowRun deps workflow (start_options atomicStart runnableInput options)
      | TaskRunnable task \<Rightarrow> startTaskRun deps task (start_options atomicStart runnableInput options))"

section \<open>Retrying\<close>

text \<open>The constraint of the stored run, the options of the caller before it.\<close>

definition retry_options :: "StoredRun \<Rightarrow> 'conn ClientStartOptions \<Rightarrow> 'conn ClientStartOptions" where
  "retry_options run options =
     options\<lparr>co_tags := option_or (co_tags options) (Some (run_tags run)),
             co_unique := option_or (co_unique options)
               (map_option (\<lambda>u. \<lparr>uc_key = uq_key u, uc_scope = Some (uq_scope u), uc_behavior = Some (uq_behavior u)\<rparr>)
                  (run_unique run))\<rparr>"

definition refuse :: "string \<Rightarrow> 'a op" where
  "refuse message = raise (Thrown (new_Error message))"

text \<open>The dash of the message is written as a hyphen, its quotes by their code.\<close>

definition quoted :: "string \<Rightarrow> string" where
  "quoted name = [CHR 0x27] @ name @ [CHR 0x27]"

definition unknown_definition :: "string \<Rightarrow> string \<Rightarrow> string \<Rightarrow> string \<Rightarrow> string" where
  "unknown_definition runId kind name option =
     ''Cannot retry run ['' @ runId @ '']: no '' @ kind @ '' definition ['' @ name
       @ ''] is known to this client - pass it via '' @ quoted ''definitions''
       @ '' (or its implementation via '' @ quoted option @ '') to createWorkflowRuntimeClient''"

definition retryRun ::
  "RuntimeDeps \<Rightarrow> 'conn WorkflowRuntimeAtomicStart option \<Rightarrow> (string \<Rightarrow> WorkflowDefinition option)
     \<Rightarrow> (string \<Rightarrow> TaskDefinition option) \<Rightarrow> string \<Rightarrow> 'conn ClientStartOptions \<Rightarrow> StoredRun op" where
  "retryRun deps atomicStart workflows tasks runId options =
     await (st_loadRuns (store deps) [runId]) (\<lambda>found.
     case found of
       [] \<Rightarrow> refuse (''Run ['' @ runId @ ''] not found'')
     | run # _ \<Rightarrow>
         if \<not> isTerminalRunStatus (run_status run) then refuse (''Run ['' @ runId @ ''] is not terminal'')
         else if run_parentRunId run \<noteq> None then refuse (''Run ['' @ runId @ ''] is not a root run'')
         else case run_kind run of
           WorkflowRun \<Rightarrow>
             (case workflows (run_workflowName run) of
                None \<Rightarrow> refuse (unknown_definition runId ''workflow'' (run_workflowName run) ''workflows'')
              | Some workflow \<Rightarrow>
                  client_start deps atomicStart (WorkflowRunnable workflow) (run_input run) (retry_options run options))
         | TaskRun \<Rightarrow>
             (let taskName = (case run_taskName run of None \<Rightarrow> run_name run | Some n \<Rightarrow> n) in
              case tasks taskName of
                None \<Rightarrow> refuse (unknown_definition runId ''task'' taskName ''tasks'')
              | Some task \<Rightarrow>
                  client_start deps atomicStart (TaskRunnable task) (run_input run) (retry_options run options)))"

section \<open>Cancelling\<close>

definition client_cancel :: "RuntimeDeps \<Rightarrow> string \<Rightarrow> StoredRun option op" where
  "client_cancel deps runId =
     await (st_requestRunCancellation (store deps) runId) (\<lambda>found.
     case found of
       None \<Rightarrow> ret None
     | Some run \<Rightarrow>
         if isTerminalRunStatus (run_status run) then ret (Some run)
         else
           await (rce_enqueue (runCoordinationExecutor deps)
                    \<lparr>cont_runId = run_id run, cont_workflowName = run_workflowName run\<rparr>) (\<lambda>_.
           ret (Some run)))"

section \<open>Pruning\<close>

text \<open>
  The loop ends because every full batch removes a stored run; the first argument bounds the
  rounds and starts at the number of stored runs.
\<close>

primrec prune_loop ::
  "nat \<Rightarrow> RuntimeDeps \<Rightarrow> int \<Rightarrow> RuntimeRunStatus list option \<Rightarrow> jsnum option \<Rightarrow> nat \<Rightarrow> nat op" where
  "prune_loop 0 deps olderThan statuses batchSize deleted = refuse ''Maximum depth exceeded''"
| "prune_loop (Suc rounds) deps olderThan statuses batchSize deleted =
     await (st_pruneTerminalRuns (store deps) olderThan statuses batchSize) (\<lambda>n.
     if int n < normalizePruneBatchSize batchSize then ret (deleted + n)
     else prune_loop rounds deps olderThan statuses batchSize (deleted + n))"

text \<open>The size that is passed on is the normalised one.\<close>

definition pruneRuns :: "RuntimeDeps \<Rightarrow> int \<Rightarrow> RuntimeRunStatus list option \<Rightarrow> jsnum option \<Rightarrow> nat op" where
  "pruneRuns deps olderThan statuses opt_batchSize =
     (let batchSize = normalizePruneBatchSize opt_batchSize in
      if batchSize < 1 then ret 0
      else (\<lambda>s. prune_loop (Suc (length (runs s))) deps olderThan statuses (Some (Fin (of_int batchSize))) 0 s))"

end
