(* ===== verification/ClientProperties.thy ===== *)
theory ClientProperties
  imports Client CoordinatorProperties
begin

text \<open>
  What the client promises: pruning ends and removes every run it should, cancelling an active run
  is delivered to a coordinator.
\<close>

section \<open>Pruning\<close>

definition prunable :: "int \<Rightarrow> RuntimeRunStatus list option \<Rightarrow> StoredRun \<Rightarrow> bool" where
  "prunable olderThan statuses run \<longleftrightarrow> run_parentRunId run = None
     \<and> run_status run \<in> set (normalizePruneStatuses statuses) \<and> run_updatedAt run < olderThan"

lemma batch_size [simp]: "1 \<le> b \<Longrightarrow> normalizePruneBatchSize (Some (Fin (of_int b))) = b"
  by (simp add: normalizePruneBatchSize_def)

lemma tree_contains: "set ids \<subseteq> set (collectRunTreeIds ids s)"
  by (auto simp: collectRunTreeIds_def closure_loop_reaches)

lemma pruned_runs:
  "runs (snd (pruneTerminalRuns older statuses batch s)) =
    (if normalizePruneBatchSize batch < 1 \<or> normalizePruneStatuses statuses = [] then runs s
     else map_remove_where (\<lambda>i _. i \<in> set (collectRunTreeIds (map run_id
       (prunableRoots older (normalizePruneStatuses statuses) (normalizePruneBatchSize batch) s)) s)) (runs s))"
  by (simp add: pruneTerminalRuns_def Let_def sweepDeadCommands_def deleteRunTrees_runs)

lemma prune_round:
  assumes "reachable s" and "1 \<le> b" and "pruneTerminalRuns older statuses (Some (Fin (of_int b))) s = (n, t)"
  shows "map_get (runs t) i = Some run \<Longrightarrow> map_get (runs s) i = Some run"
    and "int n < b \<Longrightarrow> map_get (runs t) i = Some run \<Longrightarrow> \<not> prunable older statuses run"
    and "b \<le> int n \<Longrightarrow> length (runs t) < length (runs s)"
proof -
  let ?sts = "normalizePruneStatuses statuses"
  let ?all = "sort_by (compareRunsUpdated (rt_host s)) (filter (prunable older statuses) (map_values (runs s)))"
  let ?roots = "take (nat b) ?all" and ?tree = "collectRunTreeIds (map run_id (take (nat b) ?all)) s"
  have wf: "wf_map (runs s)" and ids: "\<And>k r. map_get (runs s) k = Some r \<Longrightarrow> run_id r = k"
    using run_invariant.holds[OF assms(1)] stored_run_known[OF assms(1)] by (auto simp: run_inv_def)
  have roots: "prunableRoots older ?sts b s = ?roots"
    by (simp add: prunableRoots_def prunable_def[abs_def])
  have t: "runs t = (if ?sts = [] then runs s else map_remove_where (\<lambda>i _. i \<in> set ?tree) (runs s))"
    using pruned_runs[of older statuses "Some (Fin (of_int b))" s] assms(2,3) by (simp add: roots)
  have n: "n = (if ?sts = [] then 0 else length ?roots)"
    using assms(2,3) by (auto simp: pruneTerminalRuns_def Let_def roots)
  show kept: "map_get (runs s) i = Some run" if "map_get (runs t) i = Some run" for i run
    using that wf by (auto simp: t map_get_filter split: if_splits option.splits)
  show "\<not> prunable older statuses run" if less: "int n < b" and row: "map_get (runs t) i = Some run"
  proof
    assume p: "prunable older statuses run"
    then have sts: "?sts \<noteq> []" by (auto simp: prunable_def)
    have stored: "map_get (runs s) i = Some run" by (rule kept[OF row])
    have "run \<in> set ?all" using p stored in_map_values[OF wf, of run] unfolding set_sort_by set_filter by blast
    moreover have "?roots = ?all" using less n sts by simp
    ultimately have "run_id run \<in> set (map run_id ?roots)" by (metis image_eqI list.set_map)
    then have "i \<in> set ?tree" using tree_contains[of "map run_id ?roots" s] ids[OF stored] by blast
    with row sts wf show False by (auto simp: t map_get_filter split: option.splits)
  qed
  show "length (runs t) < length (runs s)" if "b \<le> int n"
  proof -
    have sts: "?sts \<noteq> []" using that assms(2) n by (metis int_ops(1) linorder_not_le zero_less_one order_less_le_trans)
    have "0 < length ?roots" using that assms(2) unfolding n by (simp only: sts if_False)
    then have "?roots \<noteq> []" unfolding length_greater_0_conv .
    then obtain root where root: "root \<in> set ?roots" by (metis list.set_sel(1))
    have "root \<in> set ?all" by (rule in_set_takeD[OF root])
    then have "root \<in> set (map_values (runs s))" unfolding set_sort_by set_filter by (elim CollectE conjE)
    then obtain k where k: "map_get (runs s) k = Some root" unfolding in_map_values[OF wf] ..
    have "k \<in> set ?tree" using root ids[OF k] tree_contains[of "map run_id ?roots" s] by auto
    moreover have "(k, root) \<in> set (runs s)" using k by (rule map_of_SomeD)
    ultimately show ?thesis using sts unfolding t by (auto intro!: length_filter_less)
  qed
qed

lemma prune_loop_finishes:
  assumes "reachable s" and "1 \<le> b" and "length (runs s) < rounds"
  shows "\<exists>n t. prune_loop rounds in_memory_deps older statuses (Some (Fin (of_int b))) deleted s = (Inr n, t)
    \<and> (\<forall>i run. map_get (runs t) i = Some run \<longrightarrow> map_get (runs s) i = Some run \<and> \<not> prunable older statuses run)"
  using assms(1,3)
proof (induction rounds arbitrary: s deleted)
  case (Suc rounds)
  obtain n t where t: "pruneTerminalRuns older statuses (Some (Fin (of_int b))) s = (n, t)" by fastforce
  note round = prune_round[OF Suc.prems(1) assms(2) t]
  have op: "st_pruneTerminalRuns (store in_memory_deps) older statuses (Some (Fin (of_int b))) s = (Inr n, t)"
    by (simp add: in_memory_deps_def in_memory_store_def total_def t)
  show ?case
  proof (cases "int n < b")
    case True
    with op round assms(2) show ?thesis by (auto simp: await_def)
  next
    case False
    have "reachable t" using reachable_step[OF Suc.prems(1)] prune[of s older statuses "Some (Fin (of_int b))"] t by (simp add: step_def)
    moreover have "length (runs t) < rounds" using round(3) False Suc.prems(2) by simp
    ultimately show ?thesis using Suc.IH[of t "deleted + n"] op False assms(2) round(1) by (auto simp: await_def)
  qed
qed simp

text \<open>
  C37: pruning ends and is complete. For a batch size of at least one, \<open>pruneRuns\<close> returns, and
  afterwards no stored root run has one of the statuses and was last updated before the given
  date; a run that is still stored is unchanged.
\<close>

theorem prune_runs_is_complete:
  assumes "reachable s" and "1 \<le> normalizePruneBatchSize batchSize"
  shows "\<exists>n t. pruneRuns in_memory_deps olderThan statuses batchSize s = (Inr n, t)
    \<and> (\<forall>i run. map_get (runs t) i = Some run \<longrightarrow> map_get (runs s) i = Some run
         \<and> \<not> (run_parentRunId run = None \<and> run_status run \<in> set (normalizePruneStatuses statuses) \<and> run_updatedAt run < olderThan))"
  using prune_loop_finishes[OF assms, of "Suc (length (runs s))" olderThan statuses 0] assms(2)
  by (auto simp: pruneRuns_def Let_def prunable_def)

theorem prune_runs_is_complete_witness:
  "\<exists>n t. pruneRuns in_memory_deps 2000 None None finished_run = (Inr n, t) \<and> map_get (runs t) ''run-1'' = None"
proof -
  have row: "\<exists>run. map_get (runs finished_run) ''run-1'' = Some run \<and> run_parentRunId run = None
      \<and> run_status run = RCompleted \<and> run_updatedAt run < 2000"
    by (simp add: finished_run_def completeRun_def releaseActiveUniqueKey_def sample_defs sample_eval)
  have "1 \<le> normalizePruneBatchSize None" and "RCompleted \<in> set (normalizePruneStatuses None)"
    by (simp_all add: normalizePruneBatchSize_def normalizePruneStatuses_def DEFAULT_PRUNE_BATCH_SIZE_def DEFAULT_PRUNE_STATUSES_def)
  with prune_runs_is_complete[OF reachable_finished_run, of None 2000 None] row show ?thesis
    by (metis option.exhaust option.inject)
qed

end
