(* ===== verification/WorkerPool.thy ===== *)
theory WorkerPool
  imports Maintenance
begin

text \<open>
  The pool of a worker (\<open>runtime/worker/loop.ts\<close>): one loop claims commands and starts their
  executions, at most \<open>concurrency\<close> of them at a time; executions settle, wake hints and the
  shutdown signal arrive, and in serve mode periodic tasks run, all at moments of their own. Code
  between two awaits runs undivided, so the pool is a machine whose state is what the loop
  knows at an await and whose events are the ways an await ends or another callback runs.
\<close>

section \<open>Periodic tasks\<close>

record PeriodicTask =
  pt_everyMs :: jsnum
  pt_nextAt :: jsnum
  pt_run :: "int \<Rightarrow> unit op"

record WorkerMaintenanceHook =
  mh_everyMs :: jsnum
  mh_run :: "int \<Rightarrow> unit op"

record WorkerRetentionOptions =
  ret_olderThan :: string
  ret_everyMs :: "jsnum option"
  ret_batchSize :: "jsnum option"
  ret_statuses :: "RuntimeRunStatus list option"

record WorkerSchedulingOptions =
  sch_everyMs :: "jsnum option"
  sch_batchSize :: "jsnum option"

record WorkerLoopOptions =
  lo_concurrency :: "jsnum option"
  lo_idleDelayMs :: "jsnum option"
  lo_retention :: "WorkerRetentionOptions option"
  lo_retentionPruner :: "(int \<Rightarrow> RuntimeRunStatus list option \<Rightarrow> jsnum option \<Rightarrow> nat op) option"
  lo_scheduling :: "WorkerSchedulingOptions option"
  lo_scheduler :: "(int \<Rightarrow> jsnum option \<Rightarrow> nat op) option"
  lo_maintenance :: "WorkerMaintenanceHook list"

definition assertPositiveInteger :: "jsnum \<Rightarrow> string \<Rightarrow> unit res" where
  "assertPositiveInteger value label =
     (if \<not> isInteger value \<or> num_value value < 1
      then Inl (Thrown (new_Error (label @ '' must be a positive integer''))) else Inr ())"

definition assertNonNegative :: "jsnum \<Rightarrow> string \<Rightarrow> unit res" where
  "assertNonNegative value label =
     (if \<not> isFinite value \<or> num_value value < 0
      then Inl (Thrown (new_Error (label @ '' must be a non-negative number''))) else Inr ())"

definition ignoring :: "'a op \<Rightarrow> unit op" where
  "ignoring m = await m (\<lambda>_. ret ())"

definition retention_task :: "numerics \<Rightarrow> WorkerLoopOptions \<Rightarrow> PeriodicTask list res" where
  "retention_task nu options =
     (case (lo_retention options, lo_retentionPruner options) of
        (Some retention, Some prune) \<Rightarrow>
          (let everyMs = (case ret_everyMs retention of None \<Rightarrow> Fin 60000 | Some ms \<Rightarrow> ms) in
           case assertNonNegative everyMs ''Retention everyMs'' of
             Inl e \<Rightarrow> Inl e
           | Inr _ \<Rightarrow>
               (case parseDurationMs nu (Some (ret_olderThan retention)) of
                  None \<Rightarrow> Inl (Thrown (new_Error (''Invalid retention olderThan duration ['' @ ret_olderThan retention @ '']'')))
                | Some olderThanMs \<Rightarrow>
                    Inr [\<lparr>pt_everyMs = everyMs, pt_nextAt = Fin 0,
                          pt_run = (\<lambda>date. ignoring (prune (cutoff nu date olderThanMs) (ret_statuses retention) (ret_batchSize retention)))\<rparr>]))
      | _ \<Rightarrow> Inr [])"

definition scheduling_task :: "WorkerLoopOptions \<Rightarrow> PeriodicTask list res" where
  "scheduling_task options =
     (case (lo_scheduling options, lo_scheduler options) of
        (Some scheduling, Some fire) \<Rightarrow>
          (let everyMs = (case sch_everyMs scheduling of None \<Rightarrow> Fin 1000 | Some ms \<Rightarrow> ms) in
           case assertNonNegative everyMs ''Scheduling everyMs'' of
             Inl e \<Rightarrow> Inl e
           | Inr _ \<Rightarrow>
               Inr [\<lparr>pt_everyMs = everyMs, pt_nextAt = Fin 0,
                     pt_run = (\<lambda>date. ignoring (fire date (sch_batchSize scheduling)))\<rparr>])
      | _ \<Rightarrow> Inr [])"

primrec maintenance_tasks :: "WorkerMaintenanceHook list \<Rightarrow> PeriodicTask list res" where
  "maintenance_tasks [] = Inr []"
| "maintenance_tasks (hook # hooks) =
     (case assertNonNegative (mh_everyMs hook) ''Maintenance everyMs'' of
        Inl e \<Rightarrow> Inl e
      | Inr _ \<Rightarrow>
          map_sum id (Cons \<lparr>pt_everyMs = mh_everyMs hook, pt_nextAt = Fin 0, pt_run = mh_run hook\<rparr>) (maintenance_tasks hooks))"

definition resolvePeriodicTasks :: "numerics \<Rightarrow> WorkerLoopOptions \<Rightarrow> PeriodicTask list res" where
  "resolvePeriodicTasks nu options =
     (case retention_task nu options of
        Inl e \<Rightarrow> Inl e
      | Inr retention \<Rightarrow>
          (case scheduling_task options of
             Inl e \<Rightarrow> Inl e
           | Inr scheduling \<Rightarrow> map_sum id (\<lambda>hooks. retention @ scheduling @ hooks) (maintenance_tasks (lo_maintenance options))))"

fun before :: "int \<Rightarrow> jsnum \<Rightarrow> bool" where
  "before date (Fin r) = (of_int date < r)"
| "before date NegZero = (date < 0)"
| "before date PosInfinity = True"
| "before date _ = False"

text \<open>
  The tasks are objects that change: the pass returns them with their next times, also when one
  of them throws.
\<close>

primrec runDuePeriodicTasks :: "PeriodicTask list \<Rightarrow> runtime \<Rightarrow> unit res \<times> PeriodicTask list \<times> runtime" where
  "runDuePeriodicTasks [] s = (Inr (), [], s)"
| "runDuePeriodicTasks (task # tasks) s =
     (let (date, s1) = Date_now s in
      if before date (pt_nextAt task)
      then (case runDuePeriodicTasks tasks s1 of (r, rest, s2) \<Rightarrow> (r, task # rest, s2))
      else
        (let task' = task\<lparr>pt_nextAt := plus_double (nums (rt_host s)) (pt_everyMs task) (of_int date)\<rparr> in
         case pt_run task date s1 of
           (Inl e, s2) \<Rightarrow> (Inl e, task' # tasks, s2)
         | (Inr _, s2) \<Rightarrow> (case runDuePeriodicTasks tasks s2 of (r, rest, s3) \<Rightarrow> (r, task' # rest, s3))))"

section \<open>The hooks and drivers of the workers\<close>

record WorkerReapingOptions =
  ro_everyMs :: "jsnum option"
  ro_batchSize :: "int option"

record WorkerRunTimeoutsOptions =
  to_everyMs :: "jsnum option"
  to_batchSize :: "jsnum option"

text \<open>\<open>None\<close> is the option \<open>false\<close>; an option left out is \<open>Some\<close> of empty options.\<close>

definition withReapingHook ::
  "RuntimeDeps \<Rightarrow> WorkerMaintenanceHook list \<Rightarrow> WorkerReapingOptions option \<Rightarrow> WorkerMaintenanceHook list" where
  "withReapingHook deps maintenance reaping =
     (case reaping of
        None \<Rightarrow> maintenance
      | Some options \<Rightarrow>
          maintenance @ [\<lparr>mh_everyMs = (case ro_everyMs options of None \<Rightarrow> Fin 30000 | Some ms \<Rightarrow> ms),
                          mh_run = (\<lambda>_. ignoring (reapDeadWorkflowCommands deps (ro_batchSize options)))\<rparr>])"

definition withRunTimeoutsHook ::
  "RuntimeDeps \<Rightarrow> 'ctx WorkflowImplementation list \<Rightarrow> WorkerRunTimeoutsOptions option \<Rightarrow> WorkerMaintenanceHook list
     \<Rightarrow> WorkerMaintenanceHook list" where
  "withRunTimeoutsHook deps workflows runTimeouts hooks =
     (case runTimeouts of
        None \<Rightarrow> hooks
      | Some options \<Rightarrow>
          hooks @ [\<lparr>mh_everyMs = (case to_everyMs options of None \<Rightarrow> Fin 60000 | Some ms \<Rightarrow> ms),
                    mh_run = (\<lambda>date. ignoring (timeoutExpiredWorkflowRuns deps (to_batchSize options) date workflows))\<rparr>])"

text \<open>The names are collected in a \<open>Set\<close>, which keeps the first occurrence of each.\<close>

definition set_of_names :: "string list \<Rightarrow> string list" where
  "set_of_names names = rev (remdups (rev names))"

definition case_names ::
  "('ctx WorkflowCaseImplementation \<Rightarrow> string option) \<Rightarrow> (string \<times> 'ctx WorkflowCaseImplementation) list \<Rightarrow> string list" where
  "case_names name cases = List.map_filter (\<lambda>(_, member). name member) cases"

definition collectWorkflowActivityNames :: "'ctx WorkflowImplementation list \<Rightarrow> string list" where
  "collectWorkflowActivityNames workflows =
     (let activity_case = (\<lambda>member. case member of ActivityCase a \<Rightarrow> Some (act_activity a) | RunnableCase _ \<Rightarrow> None) in
      set_of_names (concat (map (\<lambda>node.
        case node of
          ActivityImpl a \<Rightarrow> [act_activity a]
        | BranchImpl n \<Rightarrow> case_names activity_case (br_cases n)
        | ParallelImpl n \<Rightarrow> case_names activity_case (par_cases n)
        | _ \<Rightarrow> []) (concat (map wi_nodes workflows)))))"

text \<open>The targets of tasks and of child workflows are collected the same way.\<close>

definition collect_targets :: "RunKind \<Rightarrow> 'ctx WorkflowImplementation list \<Rightarrow> string list" where
  "collect_targets kind workflows =
     (let target_case = (\<lambda>member. case member of
             RunnableCase n \<Rightarrow> if rnn_kind n = kind then Some (rn_name (rnn_target n)) else None
           | ActivityCase _ \<Rightarrow> None) in
      set_of_names (concat (map (\<lambda>node.
        case node of
          RunnableImpl n \<Rightarrow> if rnn_kind n = kind then [rn_name (rnn_target n)] else []
        | MapImpl n \<Rightarrow> if mapn_kind n = kind then [rn_name (mapn_target n)] else []
        | BranchImpl n \<Rightarrow> case_names target_case (br_cases n)
        | ParallelImpl n \<Rightarrow> case_names target_case (par_cases n)
        | ActivityImpl _ \<Rightarrow> []) (concat (map wi_nodes workflows)))))"

definition collectWorkflowTaskNames :: "'ctx WorkflowImplementation list \<Rightarrow> string list" where
  "collectWorkflowTaskNames workflows = collect_targets TaskRun workflows"

definition collectChildWorkflowNames :: "'ctx WorkflowImplementation list \<Rightarrow> string list" where
  "collectChildWorkflowNames workflows = collect_targets WorkflowRun workflows"

text \<open>\<open>claim\<close> of the two drivers.\<close>

definition workflow_claim ::
  "WorkerInput \<Rightarrow> string \<Rightarrow> 'ctx WorkflowImplementation list \<Rightarrow> ContinueRunCommand Claim option op" where
  "workflow_claim input workerId workflows =
     rce_claim (runCoordinationExecutor (wk_deps input))
       \<lparr>rcw_workerId = workerId, rcw_workflowNames = map (\<lambda>w. wd_name (wi_workflow w)) workflows,
        rcw_leaseMs = (case wk_leaseMs input of None \<Rightarrow> DEFAULT_LEASE_MS | Some ms \<Rightarrow> ms)\<rparr>"

definition execution_worker ::
  "WorkerInput \<Rightarrow> string \<Rightarrow> 'ctx WorkflowImplementation list \<Rightarrow> string list option \<Rightarrow> 'ctx TaskImplementation list
     \<Rightarrow> string list option \<Rightarrow> ExecutionWorkerClaim" where
  "execution_worker input workerId workflows activityNames tasks taskNames =
     \<lparr>ew_workerId = workerId, ew_workflowNames = map (\<lambda>w. wd_name (wi_workflow w)) workflows,
      ew_activityNames = Some (case activityNames of None \<Rightarrow> collectWorkflowActivityNames workflows | Some ns \<Rightarrow> ns),
      ew_taskNames = (case taskNames of None \<Rightarrow> map (\<lambda>t. task_name (ti_task t)) tasks | Some ns \<Rightarrow> ns),
      ew_leaseMs = (case wk_leaseMs input of None \<Rightarrow> DEFAULT_LEASE_MS | Some ms \<Rightarrow> ms)\<rparr>"

definition execution_claim ::
  "WorkerInput \<Rightarrow> string \<Rightarrow> 'ctx WorkflowImplementation list \<Rightarrow> string list option \<Rightarrow> 'ctx TaskImplementation list
     \<Rightarrow> string list option \<Rightarrow> AttemptCommand Claim option op" where
  "execution_claim input workerId workflows activityNames tasks taskNames =
     ae_claim (attemptExecutor (wk_deps input)) (execution_worker input workerId workflows activityNames tasks taskNames)"

section \<open>Options and state\<close>

datatype WorkerMode = Drain | Serve

text \<open>The checked concurrency, the mode, and whether there are periodic tasks.\<close>

record pool_options =
  wl_concurrency :: nat
  wl_mode :: WorkerMode
  wl_periodic :: bool

text \<open>
  Where the loop awaits. \<open>AwaitWait timed\<close> waits for a notification, the timer of an idle delay if
  \<open>timed\<close>, or the abort; \<open>AwaitResume notified\<close> is the moment between the end of a wait and the code
  after it.
\<close>

datatype 'e phase =
    AwaitClaim
  | AwaitAbandon
  | AwaitWait bool
  | AwaitResume bool
  | AwaitPeriodicTasks
  | AwaitExecutions
  | AwaitPeriodicLoop
  | PoolReturned "'e + nat"

text \<open>The periodic loop of serve mode: running its tasks, sleeping, or over.\<close>

datatype periodic = PeriodicRunning | PeriodicSleeping | PeriodicOver

text \<open>An active execution is one whose \<open>finally\<close> has not run; the flag says that it has settled.\<close>

record ('c, 'e) pool =
  pl_phase :: "'e phase"
  pl_active :: "('c \<times> bool) list"
  pl_processed :: nat
  pl_firstError :: "'e option"
  pl_aborted :: bool
  pl_executionsAborted :: bool
  pl_pending :: bool
  pl_drainPeriodicPending :: bool
  pl_periodicLoop :: periodic

section \<open>The wake signal\<close>

text \<open>A notification is latched, and ends a wait; the abort of the lifecycle ends a wait too.\<close>

definition notify :: "('c, 'e) pool \<Rightarrow> ('c, 'e) pool" where
  "notify p =
     (case pl_phase p of
        AwaitWait _ \<Rightarrow> p\<lparr>pl_pending := True, pl_phase := AwaitResume True\<rparr>
      | _ \<Rightarrow> p\<lparr>pl_pending := True\<rparr>)"

definition abort_lifecycle :: "('c, 'e) pool \<Rightarrow> ('c, 'e) pool" where
  "abort_lifecycle p =
     (case pl_phase p of
        AwaitWait _ \<Rightarrow> p\<lparr>pl_aborted := True, pl_phase := AwaitResume False\<rparr>
      | _ \<Rightarrow> p\<lparr>pl_aborted := True\<rparr>)"

text \<open>\<open>wait\<close> returns at once when the signal is aborted or a notification is pending.\<close>

definition wake_wait :: "bool \<Rightarrow> ('c, 'e) pool \<Rightarrow> ('c, 'e) pool" where
  "wake_wait timed p =
     (if pl_aborted p then p\<lparr>pl_phase := AwaitResume False\<rparr>
      else if pl_pending p then p\<lparr>pl_pending := False, pl_phase := AwaitResume False\<rparr>
      else p\<lparr>pl_phase := AwaitWait timed\<rparr>)"

section \<open>The loop between two awaits\<close>

definition fail_pool :: "'e \<Rightarrow> ('c, 'e) pool \<Rightarrow> ('c, 'e) pool" where
  "fail_pool error p =
     notify (abort_lifecycle
       (p\<lparr>pl_firstError := (case pl_firstError p of None \<Rightarrow> Some error | Some first \<Rightarrow> Some first)\<rparr>))"

definition forwardAbort :: "('c, 'e) pool \<Rightarrow> ('c, 'e) pool" where
  "forwardAbort p = notify ((abort_lifecycle p)\<lparr>pl_executionsAborted := True\<rparr>)"

text \<open>The \<open>finally\<close> of the loop.\<close>

definition leave_loop :: "('c, 'e) pool \<Rightarrow> ('c, 'e) pool" where
  "leave_loop p = (notify (abort_lifecycle p))\<lparr>pl_phase := AwaitExecutions\<rparr>"

definition claim_or_wait :: "pool_options \<Rightarrow> ('c, 'e) pool \<Rightarrow> ('c, 'e) pool" where
  "claim_or_wait options p =
     (if pl_aborted p then leave_loop p
      else if length (pl_active p) < wl_concurrency options then p\<lparr>pl_phase := AwaitClaim\<rparr>
      else wake_wait False p)"

definition queue_empty :: "pool_options \<Rightarrow> ('c, 'e) pool \<Rightarrow> ('c, 'e) pool" where
  "queue_empty options p =
     (if pl_aborted p then leave_loop p
      else if pl_active p \<noteq> [] then wake_wait True p
      else if pl_pending p then claim_or_wait options (p\<lparr>pl_pending := False\<rparr>)
      else case wl_mode options of
        Drain \<Rightarrow>
          if \<not> pl_drainPeriodicPending p then leave_loop p
          else p\<lparr>pl_drainPeriodicPending := False, pl_phase := AwaitPeriodicTasks\<rparr>
      | Serve \<Rightarrow> wake_wait True p)"

definition startExecution :: "'c \<Rightarrow> ('c, 'e) pool \<Rightarrow> ('c, 'e) pool" where
  "startExecution claimed p = p\<lparr>pl_active := pl_active p @ [(claimed, False)]\<rparr>"

text \<open>The pool before its first await.\<close>

definition new_pool :: "pool_options \<Rightarrow> bool \<Rightarrow> ('c, 'e) pool" where
  "new_pool options signalled =
     (let p = \<lparr>pl_phase = AwaitClaim, pl_active = [], pl_processed = 0, pl_firstError = None, pl_aborted = False,
               pl_executionsAborted = False, pl_pending = False,
               pl_drainPeriodicPending = (wl_mode options = Drain \<and> wl_periodic options),
               pl_periodicLoop = (if wl_mode options = Serve \<and> wl_periodic options \<and> \<not> signalled then PeriodicRunning else PeriodicOver)\<rparr>
      in claim_or_wait options (if signalled then forwardAbort p else p))"

section \<open>Events\<close>

datatype ('c, 'e) event =
    Claimed "'c option"
  | ClaimFailed 'e
  | Abandoned
  | AbandonFailed 'e
  | Settled nat "'e + bool"
  | Removed nat
  | SignalAborted
  | WakeHint
  | TimerFired
  | Resumed
  | PeriodicTasksRan
  | PeriodicTasksFailed 'e
  | PeriodicWoke
  | DrainTasksRan
  | DrainTasksFailed 'e
  | ExecutionsSettled
  | PeriodicLoopSettled

definition outcome :: "('c, 'e) pool \<Rightarrow> 'e + nat" where
  "outcome p = (case pl_firstError p of Some e \<Rightarrow> Inl e | None \<Rightarrow> Inr (pl_processed p))"

fun pool_step :: "pool_options \<Rightarrow> ('c, 'e) event \<Rightarrow> ('c, 'e) pool \<Rightarrow> ('c, 'e) pool option" where
  "pool_step options (Claimed claim) p =
     (if pl_phase p \<noteq> AwaitClaim then None
      else case claim of
        None \<Rightarrow> Some (queue_empty options p)
      | Some claimed \<Rightarrow>
          if pl_aborted p then Some (p\<lparr>pl_phase := AwaitAbandon\<rparr>)
          else Some (claim_or_wait options (startExecution claimed p)))"
| "pool_step options (ClaimFailed error) p =
     (if pl_phase p \<noteq> AwaitClaim then None else Some (leave_loop (fail_pool error p)))"
| "pool_step options Abandoned p =
     (if pl_phase p \<noteq> AwaitAbandon then None else Some (leave_loop p))"
| "pool_step options (AbandonFailed error) p =
     (if pl_phase p \<noteq> AwaitAbandon then None else Some (leave_loop (fail_pool error p)))"
| "pool_step options (Settled i result) p =
     (if i < length (pl_active p) \<and> \<not> snd (pl_active p ! i) then
        (let settled = p\<lparr>pl_active := (pl_active p)[i := (fst (pl_active p ! i), True)]\<rparr> in
         case result of
           Inl error \<Rightarrow> Some (fail_pool error settled)
         | Inr didProcess \<Rightarrow> Some (settled\<lparr>pl_processed := pl_processed p + (if didProcess then 1 else 0)\<rparr>))
      else None)"
| "pool_step options (Removed i) p =
     (if i < length (pl_active p) \<and> snd (pl_active p ! i)
      then Some (notify (p\<lparr>pl_active := take i (pl_active p) @ drop (Suc i) (pl_active p)\<rparr>))
      else None)"
| "pool_step options SignalAborted p =
     (case pl_phase p of
        PoolReturned _ \<Rightarrow> None
      | _ \<Rightarrow> if pl_executionsAborted p then None else Some (forwardAbort p))"
| "pool_step options WakeHint p =
     (case pl_phase p of PoolReturned _ \<Rightarrow> None | _ \<Rightarrow> Some (notify p))"
| "pool_step options TimerFired p =
     (if pl_phase p = AwaitWait True then Some (p\<lparr>pl_phase := AwaitResume False\<rparr>) else None)"
| "pool_step options Resumed p =
     (case pl_phase p of
        AwaitResume notified \<Rightarrow> Some (claim_or_wait options (if notified then p\<lparr>pl_pending := False\<rparr> else p))
      | _ \<Rightarrow> None)"
| "pool_step options PeriodicTasksRan p =
     (if pl_periodicLoop p = PeriodicRunning then Some (notify (p\<lparr>pl_periodicLoop := PeriodicSleeping\<rparr>)) else None)"
| "pool_step options (PeriodicTasksFailed error) p =
     (if pl_periodicLoop p = PeriodicRunning then Some (fail_pool error (p\<lparr>pl_periodicLoop := PeriodicOver\<rparr>)) else None)"
| "pool_step options PeriodicWoke p =
     (if pl_periodicLoop p = PeriodicSleeping
      then Some (p\<lparr>pl_periodicLoop := (if pl_aborted p then PeriodicOver else PeriodicRunning)\<rparr>)
      else None)"
| "pool_step options DrainTasksRan p =
     (if pl_phase p = AwaitPeriodicTasks then Some (claim_or_wait options p) else None)"
| "pool_step options (DrainTasksFailed error) p =
     (if pl_phase p = AwaitPeriodicTasks then Some (leave_loop (fail_pool error p)) else None)"
| "pool_step options ExecutionsSettled p =
     (if pl_phase p = AwaitExecutions \<and> pl_active p = [] then Some (p\<lparr>pl_phase := AwaitPeriodicLoop\<rparr>) else None)"
| "pool_step options PeriodicLoopSettled p =
     (if pl_phase p = AwaitPeriodicLoop \<and> pl_periodicLoop p = PeriodicOver
      then Some (p\<lparr>pl_phase := PoolReturned (outcome p)\<rparr>) else None)"

text \<open>The pool after a sequence of events.\<close>

primrec pool_run :: "pool_options \<Rightarrow> ('c, 'e) event list \<Rightarrow> ('c, 'e) pool \<Rightarrow> ('c, 'e) pool option" where
  "pool_run options [] p = Some p"
| "pool_run options (ev # evs) p = Option.bind (pool_step options ev p) (pool_run options evs)"

text \<open>The options are checked first.\<close>

definition check_options :: "numerics \<Rightarrow> WorkerLoopOptions \<Rightarrow> WorkerMode \<Rightarrow> pool_options res" where
  "check_options nu options mode =
     (let concurrency = (case lo_concurrency options of None \<Rightarrow> Fin 1 | Some n \<Rightarrow> n) in
      case assertPositiveInteger concurrency ''Concurrency'' of
        Inl e \<Rightarrow> Inl e
      | Inr _ \<Rightarrow>
          (case (case lo_idleDelayMs options of None \<Rightarrow> Inr () | Some ms \<Rightarrow> assertNonNegative ms ''Idle delay'') of
             Inl e \<Rightarrow> Inl e
           | Inr _ \<Rightarrow>
               map_sum id (\<lambda>tasks. \<lparr>wl_concurrency = nat \<lfloor>num_value concurrency\<rfloor>, wl_mode = mode, wl_periodic = (tasks \<noteq> [])\<rparr>)
                 (resolvePeriodicTasks nu options)))"

definition runWorkerPool :: "pool_options \<Rightarrow> bool \<Rightarrow> ('c, 'e) event list \<Rightarrow> ('c, 'e) pool option" where
  "runWorkerPool options signalled evs = pool_run options evs (new_pool options signalled)"

end
