(* ===== verification/WorkerPoolProperties.thy ===== *)
theory WorkerPoolProperties
  imports WorkerPool
begin

text \<open>
  What the pool of a worker guarantees whatever the order of its events: no command is lost
  between claim and execution, the pool is never stuck and ends once it is aborted, and a drain ends
  only after the queue was empty.
\<close>

section \<open>The invariant of the pool\<close>

definition left_loop :: "'e phase \<Rightarrow> bool" where
  "left_loop ph \<longleftrightarrow> ph = AwaitExecutions \<or> ph = AwaitPeriodicLoop \<or> (\<exists>r. ph = PoolReturned r)"

definition pool_ok :: "pool_options \<Rightarrow> ('c, 'e) pool \<Rightarrow> bool" where
  "pool_ok options p \<longleftrightarrow>
     length (pl_active p) \<le> wl_concurrency options
   \<and> (pl_phase p = AwaitClaim \<longrightarrow> length (pl_active p) < wl_concurrency options)
   \<and> (\<forall>timed. pl_phase p = AwaitWait timed \<longrightarrow> \<not> pl_aborted p \<and> \<not> pl_pending p)
   \<and> (pl_phase p = AwaitWait False \<longrightarrow> length (pl_active p) = wl_concurrency options)
   \<and> (pl_phase p = AwaitAbandon \<or> left_loop (pl_phase p) \<longrightarrow> pl_aborted p)
   \<and> (pl_phase p = AwaitPeriodicTasks \<longrightarrow> pl_active p = [])
   \<and> (pl_phase p = AwaitPeriodicLoop \<longrightarrow> pl_active p = [])
   \<and> (pl_firstError p \<noteq> None \<or> pl_executionsAborted p \<longrightarrow> pl_aborted p)
   \<and> (pl_aborted p \<and> \<not> left_loop (pl_phase p) \<longrightarrow> pl_firstError p \<noteq> None \<or> pl_executionsAborted p)
   \<and> (\<forall>r. pl_phase p = PoolReturned r \<longrightarrow> pl_active p = [] \<and> pl_periodicLoop p = PeriodicOver \<and> r = outcome p)"

lemmas pool_defs = notify_def abort_lifecycle_def wake_wait_def fail_pool_def forwardAbort_def leave_loop_def
  claim_or_wait_def queue_empty_def startExecution_def

lemma left_loop_simps [simp]:
  "left_loop AwaitExecutions" "left_loop AwaitPeriodicLoop" "left_loop (PoolReturned r)"
  "\<not> left_loop AwaitClaim" "\<not> left_loop AwaitAbandon" "\<not> left_loop (AwaitWait b)" "\<not> left_loop (AwaitResume b)"
  "\<not> left_loop AwaitPeriodicTasks"
  by (auto simp: left_loop_def)

lemma effects [simp]:
  "pl_active (notify p) = pl_active p" "pl_active (abort_lifecycle p) = pl_active p"
  "pl_active (fail_pool e p) = pl_active p" "pl_active (forwardAbort p) = pl_active p"
  "pl_active (leave_loop p) = pl_active p" "pl_active (wake_wait b p) = pl_active p"
  "pl_active (claim_or_wait options p) = pl_active p" "pl_active (queue_empty options p) = pl_active p"
  "pl_processed (notify p) = pl_processed p" "pl_processed (abort_lifecycle p) = pl_processed p"
  "pl_processed (fail_pool e p) = pl_processed p" "pl_processed (forwardAbort p) = pl_processed p"
  "pl_processed (leave_loop p) = pl_processed p" "pl_processed (wake_wait b p) = pl_processed p"
  "pl_processed (claim_or_wait options p) = pl_processed p" "pl_processed (queue_empty options p) = pl_processed p"
  "pl_firstError (notify p) = pl_firstError p" "pl_firstError (abort_lifecycle p) = pl_firstError p"
  "pl_firstError (forwardAbort p) = pl_firstError p"
  "pl_firstError (leave_loop p) = pl_firstError p" "pl_firstError (wake_wait b p) = pl_firstError p"
  "pl_firstError (claim_or_wait options p) = pl_firstError p" "pl_firstError (queue_empty options p) = pl_firstError p"
  by (simp_all add: pool_defs split: phase.split WorkerMode.split)

lemma first_error_kept [simp]: "pl_firstError (fail_pool e p) = (case pl_firstError p of None \<Rightarrow> Some e | Some f \<Rightarrow> Some f)"
  by (simp add: fail_pool_def)

lemma outcome_updates [simp]:
  "outcome (p\<lparr>pl_phase := ph\<rparr>) = outcome p" "outcome (p\<lparr>pl_active := as\<rparr>) = outcome p"
  "outcome (p\<lparr>pl_pending := b\<rparr>) = outcome p" "outcome (p\<lparr>pl_periodicLoop := x\<rparr>) = outcome p"
  by (simp_all add: outcome_def cong: option.case_cong)

text \<open>What holds inside the loop, whatever the phase, and what is established from it.\<close>

definition in_loop :: "pool_options \<Rightarrow> ('c, 'e) pool \<Rightarrow> bool" where
  "in_loop options p \<longleftrightarrow> length (pl_active p) \<le> wl_concurrency options
     \<and> (pl_aborted p \<longleftrightarrow> pl_firstError p \<noteq> None \<or> pl_executionsAborted p)"

lemma ok_in_loop: "pool_ok options p \<Longrightarrow> \<not> left_loop (pl_phase p) \<Longrightarrow> in_loop options p"
  by (auto simp: pool_ok_def in_loop_def)

lemma leave_ok: "length (pl_active p) \<le> wl_concurrency options \<Longrightarrow> pool_ok options (leave_loop p)"
  by (simp add: pool_ok_def pool_defs split: phase.split)

lemma wait_ok:
  "in_loop options p \<Longrightarrow> (\<not> timed \<Longrightarrow> length (pl_active p) = wl_concurrency options) \<Longrightarrow> pool_ok options (wake_wait timed p)"
  by (auto simp: pool_ok_def in_loop_def wake_wait_def)

lemma claim_ok: "in_loop options p \<Longrightarrow> pool_ok options (claim_or_wait options p)"
proof (cases "pl_aborted p")
  case True
  assume "in_loop options p"
  with True show ?thesis by (simp add: claim_or_wait_def leave_ok in_loop_def)
next
  case False
  assume loop: "in_loop options p"
  show ?thesis
  proof (cases "length (pl_active p) < wl_concurrency options")
    case True
    with loop False show ?thesis by (simp add: claim_or_wait_def pool_ok_def in_loop_def)
  next
    case less: False
    with loop have "length (pl_active p) = wl_concurrency options" by (simp add: in_loop_def)
    with less False wait_ok[OF loop] show ?thesis by (simp add: claim_or_wait_def)
  qed
qed

lemma empty_ok: "in_loop options p \<Longrightarrow> pool_ok options (queue_empty options p)"
proof -
  assume loop: "in_loop options p"
  then have "in_loop options (p\<lparr>pl_pending := False\<rparr>)" by (simp add: in_loop_def)
  note claim = claim_ok[OF this]
  have "pool_ok options (leave_loop p)" by (rule leave_ok) (use loop in \<open>simp add: in_loop_def\<close>)
  moreover have "pool_ok options (wake_wait True p)" by (rule wait_ok[OF loop]) simp
  moreover have "\<not> pl_aborted p \<Longrightarrow> pl_active p = [] \<Longrightarrow> pool_ok options (p\<lparr>pl_drainPeriodicPending := False, pl_phase := AwaitPeriodicTasks\<rparr>)"
    using loop by (simp add: pool_ok_def in_loop_def)
  ultimately show ?thesis using claim by (simp add: queue_empty_def split: WorkerMode.split)
qed

lemma notify_ok: "pool_ok options p \<Longrightarrow> pool_ok options (notify p)"
  by (cases "pl_phase p") (auto simp: pool_ok_def notify_def)

lemma fail_ok: "pool_ok options p \<Longrightarrow> (\<And>r. pl_phase p \<noteq> PoolReturned r) \<Longrightarrow> pool_ok options (fail_pool e p)"
  by (cases "pl_phase p") (simp_all add: pool_ok_def fail_pool_def notify_def abort_lifecycle_def split: option.split)

lemma abort_ok: "pool_ok options p \<Longrightarrow> (\<And>r. pl_phase p \<noteq> PoolReturned r) \<Longrightarrow> pool_ok options (forwardAbort p)"
  by (cases "pl_phase p") (simp_all add: pool_ok_def forwardAbort_def notify_def abort_lifecycle_def)

lemma new_pool_ok: "pool_ok options (new_pool options signalled)"
  by (simp add: new_pool_def Let_def, intro conjI impI; rule claim_ok)
    (simp_all add: in_loop_def forwardAbort_def notify_def abort_lifecycle_def)

text \<open>Marking and removing an execution, and a change of the periodic loop, keep the invariant.\<close>

lemma settle_ok: "pool_ok options p \<Longrightarrow> pl_active p \<noteq> [] \<Longrightarrow> length as = length (pl_active p) \<Longrightarrow> pool_ok options (p\<lparr>pl_active := as\<rparr>)"
  by (auto simp: pool_ok_def)

lemma count_ok: "pool_ok options p \<Longrightarrow> pl_active p \<noteq> [] \<Longrightarrow> pool_ok options (p\<lparr>pl_processed := n\<rparr>)"
  by (auto simp: pool_ok_def)

lemma remove_ok:
  "pool_ok options p \<Longrightarrow> length as < length (pl_active p) \<Longrightarrow> pool_ok options (notify (p\<lparr>pl_active := as\<rparr>))"
  by (cases "pl_phase p") (auto simp: pool_ok_def notify_def)

lemma periodic_ok: "pool_ok options p \<Longrightarrow> pl_periodicLoop p \<noteq> PeriodicOver \<Longrightarrow> pool_ok options (p\<lparr>pl_periodicLoop := x\<rparr>)"
  by (auto simp: pool_ok_def)

lemma not_returned: "pool_ok options p \<Longrightarrow> pl_active p \<noteq> [] \<or> pl_periodicLoop p \<noteq> PeriodicOver \<Longrightarrow> pl_phase p \<noteq> PoolReturned r"
  by (auto simp: pool_ok_def)

lemma claimed_ok:
  assumes "pool_ok options p" and "pool_step options (Claimed claim) p = Some p'"
  shows "pool_ok options p'"
proof -
  have claiming: "pl_phase p = AwaitClaim" using assms(2) by (simp split: if_splits)
  then have loop: "in_loop options p" and less: "length (pl_active p) < wl_concurrency options"
    using assms(1) ok_in_loop by (fastforce simp: pool_ok_def)+
  show ?thesis
  proof (cases claim)
    case None
    with assms(2) claiming empty_ok[OF loop] show ?thesis by auto
  next
    case (Some c)
    have "in_loop options (startExecution c p)" using loop less by (simp add: in_loop_def startExecution_def)
    note claim_ok[OF this]
    moreover have "pl_aborted p \<Longrightarrow> pool_ok options (p\<lparr>pl_phase := AwaitAbandon\<rparr>)"
      using loop by (simp add: pool_ok_def in_loop_def)
    ultimately show ?thesis using assms(2) claiming Some by (auto split: if_splits)
  qed
qed

lemma settled_ok:
  assumes "pool_ok options p" and "pool_step options (Settled i result) p = Some p'"
  shows "pool_ok options p'"
proof -
  have i: "i < length (pl_active p)" using assms(2) by (auto split: if_splits)
  let ?q = "p\<lparr>pl_active := (pl_active p)[i := (fst (pl_active p ! i), True)]\<rparr>"
  have ok: "pool_ok options ?q" by (rule settle_ok[OF assms(1)]) (use i in auto)
  moreover have "pl_active ?q \<noteq> []" using i by auto
  ultimately show ?thesis using assms(2) i fail_ok[OF ok not_returned[OF ok]] count_ok[OF ok]
    by (auto simp: Let_def split: if_splits sum.splits)
qed

lemma pool_step_ok:
  assumes "pool_ok options p" and "pool_step options ev p = Some p'"
  shows "pool_ok options p'"
proof -
  have len: "length (pl_active p) \<le> wl_concurrency options" using assms(1) by (simp add: pool_ok_def)
  show ?thesis
  proof (cases ev)
  case (Claimed claim)
  with assms show ?thesis using claimed_ok by blast
next
  case (Settled i result)
  with assms show ?thesis using settled_ok by blast
next
  case (Removed i)
  then show ?thesis using assms remove_ok[OF assms(1)] by (auto split: if_splits)
next
  case (PeriodicTasksFailed e)
  then have run: "pl_periodicLoop p = PeriodicRunning" and p': "p' = fail_pool e (p\<lparr>pl_periodicLoop := PeriodicOver\<rparr>)"
    using assms(2) by (auto split: if_splits)
  show ?thesis unfolding p' using not_returned[OF assms(1)] run
    by (intro fail_ok periodic_ok[OF assms(1)]) simp_all
next
  case ExecutionsSettled
  with assms show ?thesis by (auto simp: pool_ok_def split: if_splits)
next
  case PeriodicLoopSettled
  with assms show ?thesis by (auto simp: pool_ok_def split: if_splits)
next
  case TimerFired
  with assms show ?thesis by (auto simp: pool_ok_def split: if_splits)
next
  case Resumed
  then obtain b where b: "pl_phase p = AwaitResume b" and p': "p' = claim_or_wait options (if b then p\<lparr>pl_pending := False\<rparr> else p)"
    using assms(2) by (auto split: phase.splits)
  have "in_loop options p" using ok_in_loop[OF assms(1)] b by simp
  then show ?thesis unfolding p' by (intro claim_ok) (simp add: in_loop_def)
next
  case (ClaimFailed e)
  with assms(2) len show ?thesis by (auto split: if_splits intro!: leave_ok)
next
  case Abandoned
  with assms(2) len show ?thesis by (auto split: if_splits intro!: leave_ok)
next
  case (AbandonFailed e)
  with assms(2) len show ?thesis by (auto split: if_splits intro!: leave_ok)
next
  case (DrainTasksFailed e)
  with assms(2) len show ?thesis by (auto split: if_splits intro!: leave_ok)
next
  case DrainTasksRan
  then have "pl_phase p = AwaitPeriodicTasks" "p' = claim_or_wait options p" using assms(2) by (auto split: if_splits)
  with claim_ok[OF ok_in_loop[OF assms(1)]] show ?thesis by simp
next
  case SignalAborted
  then have "\<And>r. pl_phase p \<noteq> PoolReturned r" "p' = forwardAbort p" using assms(2) by (auto split: phase.splits if_splits)
  with abort_ok[OF assms(1)] show ?thesis by simp
next
  case WakeHint
  then have "p' = notify p" using assms(2) by (auto split: phase.splits)
  with notify_ok[OF assms(1)] show ?thesis by simp
next
  case PeriodicTasksRan
  with assms(2) notify_ok[OF periodic_ok[OF assms(1)]] show ?thesis by (simp split: if_splits) blast
next
  case PeriodicWoke
  with assms(2) periodic_ok[OF assms(1)] show ?thesis by (simp split: if_splits) blast+
  qed
qed

text \<open>The history of a pool.\<close>

lemma pool_run_append: "pool_run options (evs @ evs') p = Option.bind (pool_run options evs p) (pool_run options evs')"
  by (induction evs arbitrary: p) (auto split: bind_splits)

lemma pool_run_snoc:
  "runWorkerPool options signalled (evs @ [ev]) = Option.bind (runWorkerPool options signalled evs) (pool_step options ev)"
  by (auto simp: runWorkerPool_def pool_run_append split: bind_splits)

lemma pool_history [consumes 1, case_names start event]:
  assumes "runWorkerPool options signalled evs = Some p"
    and "Q [] (new_pool options signalled)"
    and "\<And>evs ev p p'. runWorkerPool options signalled evs = Some p \<Longrightarrow> Q evs p \<Longrightarrow> pool_step options ev p = Some p' \<Longrightarrow> Q (evs @ [ev]) p'"
  shows "Q evs p"
  using assms(1)
proof (induction evs arbitrary: p rule: rev_induct)
  case Nil
  with assms(2) show ?case by (simp add: runWorkerPool_def)
next
  case (snoc ev evs)
  then obtain q where "runWorkerPool options signalled evs = Some q" "pool_step options ev q = Some p"
    by (auto simp: pool_run_snoc bind_eq_Some_conv)
  with snoc.IH assms(3) show ?case by blast
qed

lemma pool_ok_reached: "runWorkerPool options signalled evs = Some p \<Longrightarrow> pool_ok options p"
  by (induction rule: pool_history) (auto intro: new_pool_ok pool_step_ok)

section \<open>Every claimed command is accounted for\<close>

fun takes :: "('c, 'e) event \<Rightarrow> nat" where
  "takes (Claimed (Some c)) = 1"
| "takes _ = 0"

fun gives_back :: "('c, 'e) event \<Rightarrow> nat" where
  "gives_back (Removed i) = 1"
| "gives_back Abandoned = 1"
| "gives_back (AbandonFailed e) = 1"
| "gives_back _ = 0"

fun processes :: "('c, 'e) event \<Rightarrow> nat" where
  "processes (Settled i (Inr True)) = 1"
| "processes _ = 0"

fun error_of :: "('c, 'e) event \<Rightarrow> 'e option" where
  "error_of (ClaimFailed e) = Some e"
| "error_of (AbandonFailed e) = Some e"
| "error_of (Settled i (Inl e)) = Some e"
| "error_of (PeriodicTasksFailed e) = Some e"
| "error_of (DrainTasksFailed e) = Some e"
| "error_of _ = None"

definition first_error :: "('c, 'e) event list \<Rightarrow> 'e option" where
  "first_error evs = (case List.map_filter error_of evs of [] \<Rightarrow> None | e # _ \<Rightarrow> Some e)"

definition total_of :: "('a \<Rightarrow> nat) \<Rightarrow> 'a list \<Rightarrow> nat" where
  "total_of f xs = sum_list (map f xs)"

lemma total_of_simps [simp]: "total_of f [] = 0" "total_of f (xs @ [x]) = total_of f xs + f x"
  by (simp_all add: total_of_def)

lemma first_error_simps [simp]:
  "first_error [] = None"
  "first_error (evs @ [ev]) = (case first_error evs of None \<Rightarrow> error_of ev | Some e \<Rightarrow> Some e)"
  by (auto simp: first_error_def map_filter_def split: list.split option.split)

text \<open>The commands the pool has in hand.\<close>

definition in_hand :: "('c, 'e) pool \<Rightarrow> nat" where
  "in_hand p = length (pl_active p) + (if pl_phase p = AwaitAbandon then 1 else 0)"

lemma not_abandoning [simp]:
  "pl_phase (claim_or_wait options p) \<noteq> AwaitAbandon" "pl_phase (queue_empty options p) \<noteq> AwaitAbandon"
  "pl_phase (leave_loop p) \<noteq> AwaitAbandon"
  "pl_phase (notify p) = AwaitAbandon \<longleftrightarrow> pl_phase p = AwaitAbandon"
  "pl_phase (fail_pool e p) = AwaitAbandon \<longleftrightarrow> pl_phase p = AwaitAbandon"
  "pl_phase (forwardAbort p) = AwaitAbandon \<longleftrightarrow> pl_phase p = AwaitAbandon"
  by (auto simp: pool_defs split: phase.split WorkerMode.split)

lemma step_accounts:
  assumes "pool_step options ev p = Some p'"
  shows "in_hand p' + gives_back ev = in_hand p + takes ev"
    and "pl_processed p' = pl_processed p + processes ev"
    and "pl_firstError p' = (case pl_firstError p of None \<Rightarrow> error_of ev | Some e \<Rightarrow> Some e)"
  using assms
  by (cases "(options, ev, p)" rule: pool_step.cases;
      auto simp: in_hand_def startExecution_def Let_def split: if_splits option.splits sum.splits bool.splits phase.splits)+

text \<open>
  C38: the pool never executes more commands than its concurrency allows and loses none: every
  command it claimed is in hand, has been executed, or was given back. When the pool returns it has
  none in hand, and its result is the first error of any of its parts or, without one, the
  number of executions that processed their command.
\<close>

theorem pool_accounts_for_claims:
  assumes "runWorkerPool options signalled evs = Some p"
  shows "length (pl_active p) \<le> wl_concurrency options
    \<and> total_of takes evs = in_hand p + total_of gives_back evs
    \<and> (\<forall>r. pl_phase p = PoolReturned r \<longrightarrow> in_hand p = 0
         \<and> r = (case first_error evs of Some e \<Rightarrow> Inl e | None \<Rightarrow> Inr (total_of processes evs)))"
proof -
  have history: "total_of takes evs = in_hand p + total_of gives_back evs \<and> pl_processed p = total_of processes evs
      \<and> pl_firstError p = first_error evs"
    using assms
  proof (induction rule: pool_history)
    case start
    show ?case by (auto simp: new_pool_def Let_def in_hand_def)
  next
    case (event evs ev p p')
    then show ?case using step_accounts[OF event(2)] by simp
  qed
  have ok: "pool_ok options p" by (rule pool_ok_reached[OF assms])
  then have len: "length (pl_active p) \<le> wl_concurrency options" by (simp add: pool_ok_def)
  have "in_hand p = 0 \<and> r = (case first_error evs of Some e \<Rightarrow> Inl e | None \<Rightarrow> Inr (total_of processes evs))"
    if "pl_phase p = PoolReturned r" for r
    using ok that history by (simp add: pool_ok_def in_hand_def outcome_def cong: option.case_cong)
  with len history show ?thesis by blast
qed

definition sample_pool_options :: pool_options where
  "sample_pool_options = \<lparr>wl_concurrency = 1, wl_mode = Drain, wl_periodic = True\<rparr>"

definition sample_drain :: "(nat, string) event list" where
  "sample_drain = [Claimed (Some 7), Settled 0 (Inr True), Removed 0, Resumed, Claimed None, DrainTasksRan,
     Claimed None, ExecutionsSettled, PeriodicLoopSettled]"

lemma sample_drain_returns:
  "\<exists>p. runWorkerPool sample_pool_options False sample_drain = Some p \<and> pl_phase p = PoolReturned (Inr 1)"
  by (simp add: runWorkerPool_def sample_pool_options_def sample_drain_def new_pool_def pool_defs outcome_def Let_def)

theorem pool_accounts_for_claims_witness:
  "\<exists>p. runWorkerPool sample_pool_options False sample_drain = Some p \<and> in_hand p = 0
     \<and> total_of takes sample_drain = total_of gives_back sample_drain"
proof -
  obtain p where p: "runWorkerPool sample_pool_options False sample_drain = Some p" "pl_phase p = PoolReturned (Inr 1)"
    using sample_drain_returns by blast
  with pool_accounts_for_claims[OF p(1)] show ?thesis by simp
qed

section \<open>The pool goes on until it returns\<close>

text \<open>Events that come from outside of the pool and its driver: nothing may rely on them.\<close>

definition external :: "('c, 'e) event \<Rightarrow> bool" where
  "external ev \<longleftrightarrow> ev = SignalAborted \<or> ev = WakeHint"

text \<open>What is left to do for a pool that is aborted.\<close>

fun phase_weight :: "'e phase \<Rightarrow> nat" where
  "phase_weight (PoolReturned r) = 0"
| "phase_weight AwaitPeriodicLoop = 1"
| "phase_weight AwaitExecutions = 2"
| "phase_weight AwaitAbandon = 3"
| "phase_weight _ = 4"

fun periodic_weight :: "periodic \<Rightarrow> nat" where
  "periodic_weight PeriodicOver = 0"
| "periodic_weight PeriodicSleeping = 1"
| "periodic_weight PeriodicRunning = 2"

definition weight :: "('c, 'e) pool \<Rightarrow> nat" where
  "weight p = phase_weight (pl_phase p) + sum_list (map (\<lambda>(_, settled). if settled then 1 else 2) (pl_active p))
     + periodic_weight (pl_periodicLoop p)"

lemma weight_settle:
  "i < length as \<Longrightarrow> \<not> snd (as ! i) \<Longrightarrow>
   sum_list (map (\<lambda>(_, settled). if settled then 1 else 2) (as[i := (c, True)]))
     < (sum_list (map (\<lambda>(_, settled). if settled then 1 else 2) as) :: nat)"
  by (induction as arbitrary: i) (auto simp: nth_Cons split: nat.splits)

lemma weight_remove:
  "i < length as \<Longrightarrow>
   sum_list (map (\<lambda>(_, settled). if settled then 1 else 2) (take i as @ drop (Suc i) as))
     < (sum_list (map (\<lambda>(_, settled). if settled then 1 else 2) as) :: nat)"
  by (induction as arbitrary: i) (auto simp: take_Cons drop_Cons split: nat.splits)

lemma aborted_phases:
  assumes "pl_aborted p"
  shows "claim_or_wait options p = leave_loop p" "queue_empty options p = leave_loop p"
  using assms by (simp_all add: claim_or_wait_def queue_empty_def)

lemma aborted_effects [simp]:
  "pl_aborted (notify p) = pl_aborted p" "pl_aborted (fail_pool e p)" "pl_aborted (forwardAbort p)" "pl_aborted (leave_loop p)"
  "pl_periodicLoop (notify p) = pl_periodicLoop p" "pl_periodicLoop (leave_loop p) = pl_periodicLoop p"
  "pl_periodicLoop (fail_pool e p) = pl_periodicLoop p" "pl_phase (leave_loop p) = AwaitExecutions"
  by (simp_all add: pool_defs split: phase.split)

lemma phase_weight_kept [simp]:
  "phase_weight (pl_phase (notify p)) = phase_weight (pl_phase p)"
  "phase_weight (pl_phase (fail_pool e p)) = phase_weight (pl_phase p)"
  by (simp_all add: fail_pool_def notify_def abort_lifecycle_def split: phase.split)

lemma aborted_weight:
  assumes "pool_ok options p" and "pl_aborted p" and "pool_step options ev p = Some p'" and "\<not> external ev"
  shows "pl_aborted p' \<and> weight p' < weight p"
proof -
  have "pl_phase p \<noteq> AwaitWait b" for b using assms(1,2) by (auto simp: pool_ok_def)
  then show ?thesis
    using assms(2-) weight_settle[of _ "pl_active p"] weight_remove[of _ "pl_active p"]
    by (cases "(options, ev, p)" rule: pool_step.cases;
        auto simp: external_def aborted_phases weight_def Let_def split: if_splits option.splits sum.splits phase.splits)
qed

text \<open>In every phase something of its own ends the await.\<close>

lemma active_progress:
  assumes "pl_active p \<noteq> []"
  shows "\<exists>ev p'. \<not> external ev \<and> pool_step options ev p = Some p'"
proof (cases "snd (pl_active p ! 0)")
  case True
  with assms have "pool_step options (Removed 0) p \<noteq> None" by simp
  then show ?thesis by (metis external_def event.distinct option.exhaust)
next
  case False
  with assms have "pool_step options (Settled 0 (Inr True)) p \<noteq> None" by (simp add: Let_def)
  then show ?thesis by (metis external_def event.distinct option.exhaust)
qed

lemma some_step: "pool_step options ev p \<noteq> None \<Longrightarrow> \<not> external ev \<Longrightarrow> \<exists>ev p'. \<not> external ev \<and> pool_step options ev p = Some p'"
  by blast

lemma pool_progress:
  assumes "pool_ok options p" and "0 < wl_concurrency options" and "\<And>r. pl_phase p \<noteq> PoolReturned r"
  shows "\<exists>ev p'. \<not> external ev \<and> pool_step options ev p = Some p'"
proof (cases "pl_phase p")
  case AwaitClaim
  then show ?thesis by (intro some_step[of _ "ClaimFailed undefined"]) (simp_all add: external_def)
next
  case AwaitAbandon
  then show ?thesis by (intro some_step[of _ Abandoned]) (simp_all add: external_def)
next
  case (AwaitWait timed)
  show ?thesis
  proof (cases timed)
    case True
    with AwaitWait show ?thesis by (intro some_step[of _ TimerFired]) (simp_all add: external_def)
  next
    case False
    with AwaitWait assms(1,2) have "pl_active p \<noteq> []" by (auto simp: pool_ok_def)
    then show ?thesis by (rule active_progress)
  qed
next
  case (AwaitResume notified)
  then show ?thesis by (intro some_step[of _ Resumed]) (simp_all add: external_def)
next
  case AwaitPeriodicTasks
  then show ?thesis by (intro some_step[of _ DrainTasksRan]) (simp_all add: external_def)
next
  case AwaitExecutions
  show ?thesis
  proof (cases "pl_active p = []")
    case True
    with AwaitExecutions show ?thesis by (intro some_step[of _ ExecutionsSettled]) (simp_all add: external_def)
  qed (rule active_progress)
next
  case AwaitPeriodicLoop
  then show ?thesis
    by (cases "pl_periodicLoop p")
      (auto intro: some_step[of _ PeriodicTasksRan] some_step[of _ PeriodicWoke] some_step[of _ PeriodicLoopSettled] simp: external_def)
qed (use assms(3) in simp)

text \<open>
  C39: the pool is never stuck: until it returns, some event that does not come from outside is
  possible, so a full pool never waits for a wake hint. Once it is aborted, by a shutdown or
  by its first error, each of these events brings it closer to its return, and \<open>weight\<close> bounds their number.
\<close>

theorem pool_goes_on_until_it_returns:
  assumes "runWorkerPool options signalled evs = Some p" and "0 < wl_concurrency options"
    and "\<And>r. pl_phase p \<noteq> PoolReturned r"
  shows "(\<exists>ev p'. \<not> external ev \<and> pool_step options ev p = Some p')
    \<and> (pl_aborted p \<longrightarrow> (\<forall>ev p'. \<not> external ev \<longrightarrow> pool_step options ev p = Some p' \<longrightarrow> pl_aborted p' \<and> weight p' < weight p))"
  using pool_progress[OF pool_ok_reached[OF assms(1)] assms(2,3)] aborted_weight[OF pool_ok_reached[OF assms(1)]] by blast

theorem pool_goes_on_until_it_returns_witness:
  "\<exists>p ev p'. runWorkerPool sample_pool_options False [Claimed (Some (7 :: nat))] = Some (p :: (nat, string) pool) \<and> pl_phase p = AwaitWait False
     \<and> \<not> external ev \<and> pool_step sample_pool_options ev p = Some p'"
proof -
  obtain p :: "(nat, string) pool" where p: "runWorkerPool sample_pool_options False [Claimed (Some 7)] = Some p" "pl_phase p = AwaitWait False"
    by (simp add: runWorkerPool_def sample_pool_options_def new_pool_def pool_defs Let_def)
  have "0 < wl_concurrency sample_pool_options" by (simp add: sample_pool_options_def)
  with pool_goes_on_until_it_returns[OF p(1)] p show ?thesis by auto
qed

section \<open>A drain ends with an empty queue\<close>

fun is_claim :: "('c, 'e) event \<Rightarrow> bool" where
  "is_claim (Claimed c) = True"
| "is_claim (ClaimFailed e) = True"
| "is_claim _ = False"

text \<open>The last claim found nothing while nothing was executing, after the periodic tasks had run.\<close>

definition drained :: "pool_options \<Rightarrow> bool \<Rightarrow> ('c, 'e) event list \<Rightarrow> bool" where
  "drained options signalled evs \<longleftrightarrow> (\<exists>before after p. evs = before @ Claimed None # after
     \<and> \<not> list_ex is_claim after \<and> runWorkerPool options signalled before = Some p \<and> pl_active p = []
     \<and> (wl_periodic options \<longrightarrow> DrainTasksRan \<in> set before))"

definition tasks_ran :: "('c, 'e) pool \<Rightarrow> bool" where
  "tasks_ran p \<longleftrightarrow> \<not> pl_drainPeriodicPending p \<and> pl_phase p \<noteq> AwaitPeriodicTasks \<and> \<not> pl_aborted p"

lemma drained_snoc:
  assumes "drained options signalled evs" and "\<not> is_claim ev"
  shows "drained options signalled (evs @ [ev])"
proof -
  obtain before after p where "evs = before @ Claimed None # after" "\<not> list_ex is_claim after"
      "runWorkerPool options signalled before = Some p" "pl_active p = []" "wl_periodic options \<longrightarrow> DrainTasksRan \<in> set before"
    using assms(1) unfolding drained_def by blast
  with assms(2) show ?thesis unfolding drained_def
    by (intro exI[of _ before] exI[of _ "after @ [ev]"] exI[of _ p]) simp
qed

lemma drain_effects [simp]:
  "pl_executionsAborted (notify p) = pl_executionsAborted p" "pl_executionsAborted (fail_pool e p) = pl_executionsAborted p"
  "pl_executionsAborted (leave_loop p) = pl_executionsAborted p" "pl_executionsAborted (claim_or_wait options p) = pl_executionsAborted p"
  "pl_executionsAborted (queue_empty options p) = pl_executionsAborted p" "pl_executionsAborted (forwardAbort p)"
  "pl_drainPeriodicPending (notify p) = pl_drainPeriodicPending p" "pl_drainPeriodicPending (fail_pool e p) = pl_drainPeriodicPending p"
  "pl_drainPeriodicPending (forwardAbort p) = pl_drainPeriodicPending p"
  "pl_drainPeriodicPending (leave_loop p) = pl_drainPeriodicPending p"
  "pl_drainPeriodicPending (claim_or_wait options p) = pl_drainPeriodicPending p"
  by (simp_all add: pool_defs split: phase.split WorkerMode.split)

lemma left_loop_kept [simp]:
  "left_loop (pl_phase (notify p)) = left_loop (pl_phase p)" "left_loop (pl_phase (fail_pool e p)) = left_loop (pl_phase p)"
  "left_loop (pl_phase (forwardAbort p)) = left_loop (pl_phase p)"
  "left_loop (pl_phase (claim_or_wait options p)) = pl_aborted p"
  by (simp_all add: pool_defs split: phase.split)

lemma aborted_by_step:
  assumes "pool_step options ev p = Some p'"
  shows "pl_executionsAborted p' \<longleftrightarrow> pl_executionsAborted p \<or> ev = SignalAborted"
  using assms
  by (cases "(options, ev, p)" rule: pool_step.cases;
      auto simp: startExecution_def Let_def split: if_splits option.splits sum.splits phase.splits)

lemma left_loop_stays:
  assumes "pool_step options ev p = Some p'" and "left_loop (pl_phase p)"
  shows "\<not> is_claim ev"
  using assms by (cases ev) (auto split: if_splits)

lemma leaves_loop:
  assumes "pool_ok options p" and "pool_step options ev p = Some p'" and "\<not> left_loop (pl_phase p)" and "left_loop (pl_phase p')"
    and "pl_firstError p' = None" and "\<not> pl_executionsAborted p'" and "wl_mode options = Drain"
  shows "ev = Claimed None \<and> pl_phase p = AwaitClaim \<and> pl_active p = [] \<and> \<not> pl_aborted p \<and> \<not> pl_drainPeriodicPending p"
proof -
  have "pl_firstError p = None" "\<not> pl_executionsAborted p"
    using assms(5,6) step_accounts(3)[OF assms(2)] aborted_by_step[OF assms(2)] by (auto split: option.splits)
  then have "\<not> pl_aborted p" using assms(1,3) by (auto simp: pool_ok_def)
  moreover have "pl_phase p \<noteq> AwaitAbandon" using assms(1) calculation by (auto simp: pool_ok_def)
  ultimately show ?thesis using assms(2-)
    by (cases "(options, ev, p)" rule: pool_step.cases;
        auto simp: startExecution_def queue_empty_def wake_wait_def Let_def split: if_splits option.splits sum.splits phase.splits)
qed

lemma aborted_effects' [simp]:
  "pl_aborted (claim_or_wait options p) = pl_aborted p" "pl_aborted (queue_empty options p) \<longleftrightarrow> pl_aborted p \<or> pl_phase (queue_empty options p) = AwaitExecutions"
  by (simp_all add: pool_defs split: phase.split WorkerMode.split)

lemma periodic_phase [simp]:
  "pl_phase (notify p) = AwaitPeriodicTasks \<longleftrightarrow> pl_phase p = AwaitPeriodicTasks"
  "pl_phase (claim_or_wait options p) \<noteq> AwaitPeriodicTasks"
  by (simp_all add: pool_defs split: phase.split)

lemma tasks_ran_before:
  assumes "pool_step options ev p = Some p'" and "tasks_ran p'"
  shows "tasks_ran p \<or> ev = DrainTasksRan"
  using assms
  by (cases "(options, ev, p)" rule: pool_step.cases;
      auto simp: tasks_ran_def startExecution_def queue_empty_def wake_wait_def Let_def
        split: if_splits option.splits sum.splits phase.splits WorkerMode.splits)

lemma drain_history:
  assumes "runWorkerPool options signalled evs = Some p" and "wl_mode options = Drain"
  shows "(pl_executionsAborted p \<longleftrightarrow> signalled \<or> SignalAborted \<in> set evs)
    \<and> (wl_periodic options \<and> tasks_ran p \<longrightarrow> DrainTasksRan \<in> set evs)
    \<and> (left_loop (pl_phase p) \<longrightarrow> pl_firstError p \<noteq> None \<or> pl_executionsAborted p \<or> drained options signalled evs)"
  using assms(1)
proof (induction rule: pool_history)
  case start
  show ?case using assms(2)
    by (auto simp: new_pool_def tasks_ran_def Let_def forwardAbort_def notify_def abort_lifecycle_def)
next
  case (event evs ev p p')
  note step = event(2) and IH = event(3)
  have ok: "pool_ok options p" by (rule pool_ok_reached[OF event(1)])
  have ran: "wl_periodic options \<and> tasks_ran p' \<longrightarrow> DrainTasksRan \<in> set (evs @ [ev])"
    using tasks_ran_before[OF step] IH by auto
  have "drained options signalled (evs @ [ev])"
    if left: "left_loop (pl_phase p')" and none: "pl_firstError p' = None" "\<not> pl_executionsAborted p'"
  proof (cases "left_loop (pl_phase p)")
    case True
    have "pl_firstError p = None" "\<not> pl_executionsAborted p"
      using none step_accounts(3)[OF step] aborted_by_step[OF step] by (auto split: option.splits)
    with IH True drained_snoc[OF _ left_loop_stays[OF step True]] show ?thesis by blast
  next
    case False
    note claim = leaves_loop[OF ok step False left none assms(2)]
    then have "wl_periodic options \<longrightarrow> DrainTasksRan \<in> set evs" using IH by (simp add: tasks_ran_def)
    with claim event(1) show ?thesis unfolding drained_def
      by (intro exI[of _ evs] exI[of _ "[]"] exI[of _ p]) simp
  qed
  with ran IH aborted_by_step[OF step] show ?case by (auto simp: eq_commute[of SignalAborted])
qed

text \<open>
  C40: a worker that drains its queue returns only after a claim found nothing while none of its
  executions was left and, when there are periodic tasks, after these have run, since they may
  enqueue commands. After this claim it claims no more. The exceptions are a shutdown and an error.
\<close>

theorem drain_ends_with_empty_queue:
  assumes "runWorkerPool options False evs = Some p" and "wl_mode options = Drain" and "pl_phase p = PoolReturned (Inr n)"
    and "SignalAborted \<notin> set evs"
  shows "\<exists>before after q. evs = before @ Claimed None # after \<and> \<not> list_ex is_claim after
    \<and> runWorkerPool options False before = Some q \<and> pl_active q = []
    \<and> (wl_periodic options \<longrightarrow> DrainTasksRan \<in> set before)"
proof -
  have "pool_ok options p" by (rule pool_ok_reached[OF assms(1)])
  then have "outcome p = Inr n" using assms(3) by (simp add: pool_ok_def)
  then have "pl_firstError p = None" by (simp add: outcome_def split: option.splits)
  with drain_history[OF assms(1,2)] assms(3,4) have "drained options False evs" by auto
  then show ?thesis by (simp only: drained_def)
qed

theorem drain_ends_with_empty_queue_witness:
  "\<exists>before after q. sample_drain = before @ Claimed None # after \<and> \<not> list_ex is_claim after
    \<and> runWorkerPool sample_pool_options False before = Some q \<and> pl_active q = [] \<and> DrainTasksRan \<in> set before"
proof -
  obtain p where p: "runWorkerPool sample_pool_options False sample_drain = Some p" "pl_phase p = PoolReturned (Inr 1)"
    using sample_drain_returns by blast
  have "wl_mode sample_pool_options = Drain" "wl_periodic sample_pool_options" "SignalAborted \<notin> set sample_drain"
    by (simp_all add: sample_pool_options_def sample_drain_def)
  with drain_ends_with_empty_queue[OF p(1) _ p(2)] show ?thesis by simp
qed

section \<open>What an execution worker claims\<close>

lemma set_set_of_names [simp]: "set (set_of_names names) = set names"
  by (simp add: set_of_names_def)

lemma in_case_names: "(k, member) \<in> set cases \<Longrightarrow> name member = Some n \<Longrightarrow> n \<in> set (case_names name cases)"
  by (force simp: case_names_def map_filter_def)

lemma find_in: "find P xs = Some x \<Longrightarrow> x \<in> set xs \<and> P x"
  by (metis find_Some_iff nth_mem)

text \<open>The implementation that executes a command is one of the nodes or of their cases.\<close>

lemma resolved_activity:
  assumes "resolveActivityAttemptNode nu w command = Some a"
  shows "act_activity a = cmd_activityName command
    \<and> (ActivityImpl a \<in> set (wi_nodes w)
       \<or> (\<exists>n k. BranchImpl n \<in> set (wi_nodes w) \<and> (k, ActivityCase a) \<in> set (br_cases n))
       \<or> (\<exists>n k. ParallelImpl n \<in> set (wi_nodes w) \<and> (k, ActivityCase a) \<in> set (par_cases n)))"
  using assms unfolding resolveActivityAttemptNode_def
  by (auto simp: named_activity_def find_activity_def branch_cases_def parallel_cases_def cases_of_def bind_eq_Some_conv
      split: option.splits ParsedChildKey.splits WorkflowNodeImplementation.splits WorkflowCaseImplementation.splits if_splits
      dest!: find_in map_of_SomeD)

text \<open>
  A worker asks for every activity it can execute: a command for which one of its workflows has an
  implementation is eligible for the claim of the worker, unless the names were restricted.
\<close>

lemma worker_claims_what_it_executes:
  assumes "w \<in> set workflows" and "resolveActivityAttemptNode nu w command = Some a"
    and "command = ActivityAttempt (wd_name (wi_workflow w)) activityName runId nodeName key attemptId token value idempotencyKey"
  shows "attemptEligible (execution_worker input workerId workflows None tasks None) command"
proof -
  have "act_activity a \<in> set (collectWorkflowActivityNames workflows)"
    using resolved_activity[OF assms(2)] assms(1)
    by (force simp: collectWorkflowActivityNames_def Let_def intro: in_case_names)
  moreover have "act_activity a = activityName" using resolved_activity[OF assms(2)] assms(3) by simp
  ultimately show ?thesis using assms(1,3) by (auto simp: attemptEligible_def execution_worker_def)
qed

end
