(* ===== verification/Injectables.thy ===== *)
theory Injectables
  imports Prelude
begin

text \<open>
  The declarations of the dependency container (\<open>packages/core/src/injectables.ts\<close>): scopes and
  their order, injectables with their dependencies, the scope an injectable requires, and the
  checks of the constructors. An injectable is an object: it has an identity, and its
  dependencies were frozen when it was made, so the graph of dependencies is a finite tree.
\<close>

section \<open>Scopes\<close>

text \<open>\<open>Exclude<Scope, Scope.Transient>\<close>: transient is a lifetime and has no position.\<close>

datatype position = GlobalScope | ConnectionScope | CallScope

datatype Scope = Positional position | TransientScope

primrec ScopeOrder :: "position \<Rightarrow> nat" where
  "ScopeOrder GlobalScope = 1"
| "ScopeOrder ConnectionScope = 2"
| "ScopeOrder CallScope = 3"

lemma ScopeOrder_inject [simp]: "ScopeOrder p = ScopeOrder q \<longleftrightarrow> p = q"
  by (cases p; cases q) simp_all

text \<open>The comparisons of \<open>compareScope\<close> on positions are the order of this instance.\<close>

instantiation position :: linorder
begin

definition less_eq_position :: "position \<Rightarrow> position \<Rightarrow> bool" where
  "less_eq_position p q \<longleftrightarrow> ScopeOrder p \<le> ScopeOrder q"

definition less_position :: "position \<Rightarrow> position \<Rightarrow> bool" where
  "less_position p q \<longleftrightarrow> ScopeOrder p < ScopeOrder q"

instance
  by standard (auto simp: less_eq_position_def less_position_def)

end

lemma GlobalScope_least [simp]: "GlobalScope \<le> p"
  by (cases p) (simp_all add: less_eq_position_def)

datatype scope_operator = OpGreater | OpLess | OpGreaterEqual | OpLessEqual | OpEqual | OpNotEqual

definition compare_positions :: "position \<Rightarrow> scope_operator \<Rightarrow> position \<Rightarrow> bool" where
  "compare_positions p operator q =
     (case operator of
        OpEqual \<Rightarrow> p = q | OpNotEqual \<Rightarrow> p \<noteq> q | OpGreater \<Rightarrow> q < p | OpLess \<Rightarrow> p < q
      | OpGreaterEqual \<Rightarrow> q \<le> p | OpLessEqual \<Rightarrow> p \<le> q)"

definition compareScope :: "Scope \<Rightarrow> scope_operator \<Rightarrow> Scope \<Rightarrow> string + bool" where
  "compareScope left operator right =
     (case (left, right) of
        (Positional p, Positional q) \<Rightarrow> Inr (compare_positions p operator q)
      | _ \<Rightarrow> Inl ''Transient scope is a lifetime, not a position - it cannot be compared'')"

section \<open>Injectables\<close>

text \<open>Values and instances are references to objects.\<close>

type_synonym ref = nat

text \<open>
  The identity of an object: one of a declaration, or of a clone made while the program runs. A
  dependency is a key, whether it is optional, and the injectable.
\<close>

datatype identity = Declared nat | Made nat

datatype injectable =
    LazyInjectable identity string Scope
  | ValueInjectable identity string Scope ref
  | FactoryInjectable identity string Scope bool "(string \<times> bool \<times> injectable) list"

type_synonym Dependencies = "(string \<times> bool \<times> injectable) list"

primrec inj_scope :: "injectable \<Rightarrow> Scope" where
  "inj_scope (LazyInjectable _ _ s) = s"
| "inj_scope (ValueInjectable _ _ s _) = s"
| "inj_scope (FactoryInjectable _ _ s _ _) = s"

primrec inj_label :: "injectable \<Rightarrow> string" where
  "inj_label (LazyInjectable _ l _) = l"
| "inj_label (ValueInjectable _ l _ _) = l"
| "inj_label (FactoryInjectable _ l _ _ _) = l"

fun inj_dependencies :: "injectable \<Rightarrow> Dependencies" where
  "inj_dependencies (FactoryInjectable _ _ _ _ deps) = deps"
| "inj_dependencies _ = []"

fun value_of :: "injectable \<Rightarrow> ref option" where
  "value_of (ValueInjectable _ _ _ v) = Some v"
| "value_of _ = None"

fun isDisposable :: "injectable \<Rightarrow> bool" where
  "isDisposable (FactoryInjectable _ _ _ disposable _) = disposable"
| "isDisposable _ = False"

text \<open>The position a scope asks for by itself.\<close>

primrec own_position :: "Scope \<Rightarrow> position" where
  "own_position (Positional p) = p"
| "own_position TransientScope = GlobalScope"

fun getEffectiveInjectableScope :: "injectable \<Rightarrow> position" where
  "getEffectiveInjectableScope (FactoryInjectable _ _ s _ deps) =
     foldl (\<lambda>scope d. if scope < d then d else scope) (own_position s)
       (map (\<lambda>(key, opt, dependency). getEffectiveInjectableScope dependency) deps)"
| "getEffectiveInjectableScope (LazyInjectable _ _ s) = own_position s"
| "getEffectiveInjectableScope (ValueInjectable _ _ s _) = own_position s"

definition getInjectableScope :: "injectable \<Rightarrow> Scope" where
  "getInjectableScope injectable =
     (if inj_scope injectable = TransientScope then TransientScope
      else Positional (getEffectiveInjectableScope injectable))"

text \<open>\<open>resolveInjectableScope\<close>: a declared scope must not be looser than what the dependencies ask for.\<close>

definition resolveInjectableScope :: "bool \<Rightarrow> injectable \<Rightarrow> string + Scope" where
  "resolveInjectableScope isDefaultScope injectable =
     (case inj_scope injectable of
        TransientScope \<Rightarrow> Inr TransientScope
      | Positional p \<Rightarrow>
          (let actualScope = getEffectiveInjectableScope injectable in
           if \<not> isDefaultScope \<and> p < actualScope
           then Inl ''Invalid scope for an injectable: dependencies have stricter scope''
           else Inr (Positional actualScope)))"

definition createFactoryInjectable ::
  "identity \<Rightarrow> string \<Rightarrow> Scope option \<Rightarrow> bool \<Rightarrow> Dependencies \<Rightarrow> string + injectable" where
  "createFactoryInjectable i label opt_scope disposable deps =
     (let scope = (case opt_scope of None \<Rightarrow> Positional GlobalScope | Some s \<Rightarrow> s) in
      map_sum id (\<lambda>resolved. FactoryInjectable i label resolved disposable deps)
        (resolveInjectableScope (opt_scope = None) (FactoryInjectable i label scope disposable deps)))"

section \<open>The scope an injectable requires\<close>

lemma foldl_max: "foldl (\<lambda>scope d. if scope < d then d else scope) p ds = foldl max (p :: position) ds"
proof -
  have "(\<lambda>scope d :: position. if scope < d then d else scope) = max" by (intro ext) (auto simp: max_def)
  then show ?thesis by simp
qed

lemma foldl_max_le: "foldl max p ds \<le> q \<longleftrightarrow> p \<le> q \<and> (\<forall>d \<in> set ds. d \<le> (q :: position))"
  by (induction ds arbitrary: p) auto

text \<open>The effective scope is the least position that suits the injectable and all it depends on.\<close>

lemma effective_scope_le:
  "getEffectiveInjectableScope i \<le> q \<longleftrightarrow>
     own_position (inj_scope i) \<le> q \<and> (\<forall>(k, opt, d) \<in> set (inj_dependencies i). getEffectiveInjectableScope d \<le> q)"
  by (cases i) (auto simp: foldl_max foldl_max_le)

lemma dependency_scope:
  "(k, opt, d) \<in> set (inj_dependencies i) \<Longrightarrow> getEffectiveInjectableScope d \<le> getEffectiveInjectableScope i"
  using effective_scope_le[of i "getEffectiveInjectableScope i"] by auto

end
