(* ===== verification/Container.thy ===== *)
theory Container
  imports Injectables
begin

text \<open>
  The dependency container (\<open>packages/core/src/container.ts\<close>). Resolving an injectable is
  synchronous code that returns a promise: it looks at provisions, instances and resolutions in
  flight, delegates to parent containers, and starts the resolution of what is missing together with its
  dependencies. What happens later, when dependencies settle, factories return or throw, and
  instances are disposed, comes as events in any order. Errors are constructors of \<open>container_error\<close>, one for
  each place that rejects; log messages and timings are left out.
\<close>

section \<open>State\<close>

datatype container_error =
    ResolveDuringDisposal
  | CircularDependency "injectable list"
  | InvalidDependencyScope injectable injectable
  | NoInstanceProvided injectable "injectable list"
  | ScopeStricterThanContainer injectable position "injectable list"
  | StackExceeded
  | UserError ref

datatype ProvisionEntry = ProvidedValue ref | ProvidedAlias injectable

record InstanceHandle =
  ih_id :: nat
  ih_injectable :: injectable
  ih_private :: ref
  ih_public :: ref
  ih_context :: "(string \<times> ref option) list"

record Container =
  ct_scope :: position
  ct_parent :: "nat option"
  ct_instances :: "(injectable \<times> InstanceHandle list) list"
  ct_provisions :: "(injectable \<times> ProvisionEntry) list"
  ct_transientHandles :: "InstanceHandle list"
  ct_resolving :: "(injectable \<times> nat) list"
  ct_pending :: "nat list"
  ct_dependants :: "(injectable \<times> injectable list) list"
  ct_disposing :: bool

text \<open>What a call gets: a value (\<open>None\<close> is \<open>undefined\<close>), an error, or the promise of a resolution.\<close>

datatype promise = Fulfilled "ref option" | Rejected container_error | Pending nat

text \<open>
  Where \<open>createResolution\<close> awaits: the context, the factory, the disposal after a failed \<open>pick\<close>; then
  it is settled, and over once the \<open>finally\<close> has run, which is when others see its result.
\<close>

datatype resolution_state =
    AwaitContext
  | AwaitCreate "(string \<times> ref option) list"
  | AwaitDiscard container_error
  | ResolutionSettled "container_error + ref"
  | ResolutionOver "container_error + ref"

record resolution =
  rs_container :: nat
  rs_injectable :: injectable
  rs_context :: "(string \<times> promise) list"
  rs_state :: resolution_state

text \<open>
  Disposals under way: a whole container waiting for what is in flight, the injectables still to be
  disposed with the one that is awaited, or single transient instances. The flag says whether the
  container is cleared at the end.
\<close>

datatype disposal =
    DrainResolutions
  | DisposeInjectables bool "injectable list"
  | AwaitInjectable bool injectable "injectable list"
  | DisposeTransients "InstanceHandle list"
  | AwaitTransient InstanceHandle "InstanceHandle list"
  | DisposalOver

record world =
  w_containers :: "Container list"
  w_resolutions :: "resolution list"
  w_disposals :: "(nat \<times> disposal) list"
  w_disposed :: "(nat \<times> InstanceHandle) list"
  w_made :: nat

definition container :: "world \<Rightarrow> nat \<Rightarrow> Container" where
  "container w c = w_containers w ! c"

definition update_container :: "nat \<Rightarrow> (Container \<Rightarrow> Container) \<Rightarrow> world \<Rightarrow> world" where
  "update_container c f w = w\<lparr>w_containers := (w_containers w)[c := f (w_containers w ! c)]\<rparr>"

section \<open>Containers\<close>

definition coreInject :: injectable where
  "coreInject = LazyInjectable (Declared 0) ''Inject function'' (Positional GlobalScope)"

definition coreDispose :: injectable where
  "coreDispose = LazyInjectable (Declared 1) ''Dispose function'' (Positional GlobalScope)"

definition new_container :: "position \<Rightarrow> nat option \<Rightarrow> ref \<Rightarrow> ref \<Rightarrow> Container" where
  "new_container scope parent injectFn disposeFn =
     \<lparr>ct_scope = scope, ct_parent = parent, ct_instances = [],
      ct_provisions = [(coreInject, ProvidedValue injectFn), (coreDispose, ProvidedValue disposeFn)],
      ct_transientHandles = [], ct_resolving = [], ct_pending = [], ct_dependants = [], ct_disposing = False\<rparr>"

definition owns :: "Container \<Rightarrow> injectable \<Rightarrow> bool" where
  "owns ct i \<longleftrightarrow> map_get (ct_provisions ct) i \<noteq> None \<or> map_get (ct_instances ct) i \<noteq> None \<or> map_get (ct_resolving ct) i \<noteq> None"

text \<open>A parent is older than its forks.\<close>

fun contains :: "world \<Rightarrow> nat \<Rightarrow> injectable \<Rightarrow> bool" where
  "contains w c i =
     (owns (container w c) i
      \<or> (case ct_parent (container w c) of None \<Rightarrow> False | Some p \<Rightarrow> if p < c then contains w p i else False))"

declare contains.simps [simp del]

fun find_container :: "world \<Rightarrow> nat \<Rightarrow> position \<Rightarrow> nat option" where
  "find_container w c scope =
     (if ct_scope (container w c) = scope then Some c
      else case ct_parent (container w c) of None \<Rightarrow> None | Some p \<Rightarrow> if p < c then find_container w p scope else None)"

declare find_container.simps [simp del]

definition satisfies :: "Container \<Rightarrow> injectable \<Rightarrow> bool" where
  "satisfies ct i \<longleftrightarrow> getEffectiveInjectableScope i \<le> ct_scope ct"

definition assertProvidable :: "Container \<Rightarrow> injectable \<Rightarrow> ProvisionEntry \<Rightarrow> bool" where
  "assertProvidable ct token entry \<longleftrightarrow> satisfies ct token
     \<and> (case entry of ProvidedValue _ \<Rightarrow> True | ProvidedAlias target \<Rightarrow> satisfies ct target)"

section \<open>Resolving\<close>

record ResolutionRequest =
  rq_dependant :: "injectable option"
  rq_optional :: bool
  rq_chain :: "injectable list"

definition createCircularityError :: "injectable \<Rightarrow> injectable list \<Rightarrow> container_error" where
  "createCircularityError i chain = CircularDependency (dropWhile (\<lambda>j. j \<noteq> i) chain @ [i])"

definition add_dependant :: "injectable \<Rightarrow> injectable option \<Rightarrow> Container \<Rightarrow> Container" where
  "add_dependant i dependant ct =
     (case dependant of
        None \<Rightarrow> ct
      | Some d \<Rightarrow>
          (let ds = (case map_get (ct_dependants ct) i of None \<Rightarrow> [] | Some ds \<Rightarrow> ds)
           in ct\<lparr>ct_dependants := map_set i (if d \<in> set ds then ds else ds @ [d]) (ct_dependants ct)\<rparr>))"

text \<open>The dependencies are requested one after the other, before any of them has settled.\<close>

primrec createDependencyContext ::
  "(injectable \<Rightarrow> bool \<Rightarrow> world \<Rightarrow> promise \<times> world) \<Rightarrow> Dependencies \<Rightarrow> world \<Rightarrow> (string \<times> promise) list \<times> world" where
  "createDependencyContext resolve [] w = ([], w)"
| "createDependencyContext resolve (dependency # rest) w =
     (let (key, opt, i) = dependency;
          (p, w1) = resolve i opt w;
          (ps, w2) = createDependencyContext resolve rest w1
      in ((key, p) # ps, w2))"

text \<open>The resolution starts after the requests for its dependencies.\<close>

definition start_resolution :: "nat \<Rightarrow> injectable \<Rightarrow> (string \<times> promise) list \<Rightarrow> world \<Rightarrow> promise \<times> world" where
  "start_resolution c i context w =
     (let t = length (w_resolutions w);
          w1 = w\<lparr>w_resolutions := w_resolutions w @ [\<lparr>rs_container = c, rs_injectable = i, rs_context = context, rs_state = AwaitContext\<rparr>]\<rparr>
      in (Pending t,
          update_container c (\<lambda>ct. ct\<lparr>ct_pending := ct_pending ct @ [t],
            ct_resolving := (if inj_scope i = TransientScope then ct_resolving ct else map_set i t (ct_resolving ct))\<rparr>) w1))"

text \<open>The parent that takes over: one that has the injectable, or a strictly looser one that can host it.\<close>

definition delegate :: "world \<Rightarrow> nat \<Rightarrow> injectable \<Rightarrow> nat option" where
  "delegate w c i =
     (case ct_parent (container w c) of
        None \<Rightarrow> None
      | Some p \<Rightarrow>
          if inj_scope i \<noteq> TransientScope
             \<and> (contains w p i \<or> (satisfies (container w p) i \<and> ct_scope (container w p) < ct_scope (container w c)))
          then Some p else None)"

text \<open>The container owns the resolution; \<open>resolve\<close> requests a dependency.\<close>

definition resolve_here ::
  "(injectable \<Rightarrow> bool \<Rightarrow> world \<Rightarrow> promise \<times> world) \<Rightarrow> nat \<Rightarrow> injectable \<Rightarrow> ResolutionRequest \<Rightarrow> world \<Rightarrow> promise \<times> world" where
  "resolve_here resolve c i request w =
     (let ct = container w c; isTransient = (inj_scope i = TransientScope);
          w1 = update_container c (add_dependant i (rq_dependant request)) w
      in case (if isTransient then None else map_get (ct_instances ct) i) of
           Some (handle # _) \<Rightarrow> (Fulfilled (Some (ih_public handle)), w1)
         | _ \<Rightarrow>
             (case (if isTransient then None else map_get (ct_resolving ct) i) of
                Some t \<Rightarrow> (Pending t, w1)
              | None \<Rightarrow>
                  (case i of
                     FactoryInjectable _ _ _ _ deps \<Rightarrow>
                       if \<not> satisfies ct i
                       then (Rejected (ScopeStricterThanContainer i (ct_scope ct) (rq_chain request)), w1)
                       else (case createDependencyContext resolve deps w1 of (ps, w2) \<Rightarrow> start_resolution c i ps w2)
                   | _ \<Rightarrow>
                       if rq_optional request then (Fulfilled None, w1)
                       else (Rejected (NoInstanceProvided i (rq_chain request)), w1))))"

definition invalid_dependant :: "ResolutionRequest \<Rightarrow> injectable \<Rightarrow> injectable option" where
  "invalid_dependant request i =
     (case rq_dependant request of
        None \<Rightarrow> None
      | Some d \<Rightarrow> if getEffectiveInjectableScope d < getEffectiveInjectableScope i then Some d else None)"

text \<open>The first argument is how deep the calls may nest; an engine throws beyond it.\<close>

primrec resolveInjectable :: "nat \<Rightarrow> nat \<Rightarrow> injectable \<Rightarrow> ResolutionRequest \<Rightarrow> world \<Rightarrow> promise \<times> world" where
  "resolveInjectable 0 c i request w = (Rejected StackExceeded, w)"
| "resolveInjectable (Suc depth) c i request w =
     (if ct_disposing (container w c) then (Rejected ResolveDuringDisposal, w)
      else if i \<in> set (rq_chain request) then (Rejected (createCircularityError i (rq_chain request)), w)
      else case invalid_dependant request i of
        Some d \<Rightarrow> (Rejected (InvalidDependencyScope d i), w)
      | None \<Rightarrow>
          (case map_get (ct_provisions (container w c)) i of
             Some (ProvidedValue v) \<Rightarrow> (Fulfilled (Some v), w)
           | Some (ProvidedAlias target) \<Rightarrow>
               resolveInjectable depth c target (request\<lparr>rq_chain := rq_chain request @ [i]\<rparr>) w
           | None \<Rightarrow>
               (case value_of i of
                  Some v \<Rightarrow> (Fulfilled (Some v), w)
                | None \<Rightarrow>
                    (case delegate w c i of
                       Some p \<Rightarrow> resolveInjectable depth p i request w
                     | None \<Rightarrow>
                         resolve_here (\<lambda>d opt. resolveInjectable depth c d
                           \<lparr>rq_dependant = Some i, rq_optional = opt, rq_chain = rq_chain request @ [i]\<rparr>) c i request w))))"

text \<open>What a promise has settled to, if it has.\<close>

definition promise_result :: "world \<Rightarrow> promise \<Rightarrow> (container_error + ref option) option" where
  "promise_result w p =
     (case p of
        Fulfilled v \<Rightarrow> Some (Inr v)
      | Rejected e \<Rightarrow> Some (Inl e)
      | Pending t \<Rightarrow>
          (case rs_state (w_resolutions w ! t) of
             ResolutionOver r \<Rightarrow> Some (map_sum id Some r)
           | _ \<Rightarrow> None))"

definition no_request :: ResolutionRequest where
  "no_request = \<lparr>rq_dependant = None, rq_optional = False, rq_chain = []\<rparr>"

definition resolve :: "nat \<Rightarrow> nat \<Rightarrow> injectable \<Rightarrow> world \<Rightarrow> promise \<times> world" where
  "resolve depth c i w = resolveInjectable depth c i no_request w"

definition createContext :: "nat \<Rightarrow> nat \<Rightarrow> Dependencies \<Rightarrow> world \<Rightarrow> (string \<times> promise) list \<times> world" where
  "createContext depth c deps w =
     createDependencyContext (\<lambda>d opt. resolveInjectable depth c d (no_request\<lparr>rq_optional := opt\<rparr>)) deps w"

text \<open>\<open>initialize\<close>: every dependency of the scope is resolved, as optional only if no dependant requires it.\<close>

lemma dependencies_smaller:
  "size_list (\<lambda>(k, opt, d). size d) (inj_dependencies i) < Suc (size i)"
proof (cases i)
  case (FactoryInjectable ident l sc disposable deps)
  have "size_list (\<lambda>(k, opt, d). size d) deps \<le> size_list (size_prod (\<lambda>x. 0) (size_prod (\<lambda>x. 0) size)) deps"
    by (induction deps) auto
  with FactoryInjectable show ?thesis by simp
qed simp_all

function traverse ::
  "position \<Rightarrow> Dependencies \<Rightarrow> (injectable \<times> bool) list \<times> injectable list \<Rightarrow> (injectable \<times> bool) list \<times> injectable list" where
  "traverse scope [] state = state"
| "traverse scope ((key, opt, i) # rest) (optionality, visited) =
     (let noted = (if inj_scope i = Positional scope
                   then map_set i ((case map_get optionality i of None \<Rightarrow> True | Some so_far \<Rightarrow> so_far) \<and> opt) optionality
                   else optionality)
      in traverse scope rest
           (if i \<in> set visited then (noted, visited)
            else traverse scope (inj_dependencies i) (noted, visited @ [i])))"
  by pat_completeness auto
termination
  by (relation "measure (\<lambda>(scope, deps, state). size_list (\<lambda>(k, opt, d). size d) deps)")
    (auto intro!: le_imp_less_Suc trans_le_add1 dependencies_smaller[unfolded less_Suc_eq_le] simp: less_Suc_eq_le)

definition preloads :: "position \<Rightarrow> Dependencies list \<Rightarrow> (injectable \<times> bool) list" where
  "preloads scope dependants = fst (foldl (\<lambda>state deps. traverse scope deps state) ([], []) dependants)"

definition initialize :: "nat \<Rightarrow> nat \<Rightarrow> Dependencies list \<Rightarrow> world \<Rightarrow> world" where
  "initialize depth c dependants w =
     foldl (\<lambda>w (i, opt). snd (resolveInjectable depth c i (no_request\<lparr>rq_optional := opt\<rparr>) w)) w
       (preloads (ct_scope (container w c)) dependants)"

section \<open>Provisions and clones\<close>

definition provide :: "nat \<Rightarrow> injectable \<Rightarrow> ProvisionEntry \<Rightarrow> world \<Rightarrow> world option" where
  "provide c token entry w =
     (if assertProvidable (container w c) token entry
      then Some (update_container c (\<lambda>ct. ct\<lparr>ct_provisions := map_set token entry (ct_provisions ct)\<rparr>) w)
      else None)"

definition withhold :: "nat \<Rightarrow> injectable \<Rightarrow> world \<Rightarrow> world" where
  "withhold c token w = update_container c (\<lambda>ct. ct\<lparr>ct_provisions := map_delete token (ct_provisions ct)\<rparr>) w"

definition fork :: "nat \<Rightarrow> position \<Rightarrow> ref \<Rightarrow> ref \<Rightarrow> world \<Rightarrow> world" where
  "fork c scope injectFn disposeFn w =
     w\<lparr>w_containers := w_containers w @ [new_container scope (Some c) injectFn disposeFn]\<rparr>"

text \<open>What the caller of \<open>inject\<close> passes for a dependency.\<close>

datatype inline_dependency = InlineInjectable bool injectable | InlineValue ref

primrec inline_dependencies :: "(string \<times> inline_dependency) list \<Rightarrow> Dependencies \<Rightarrow> nat \<Rightarrow> Dependencies \<times> nat" where
  "inline_dependencies [] deps n = (deps, n)"
| "inline_dependencies (entry # rest) deps n =
     (case entry of
        (key, InlineInjectable opt i) \<Rightarrow> inline_dependencies rest (map_set key (opt, i) deps) n
      | (key, InlineValue v) \<Rightarrow>
          inline_dependencies rest (map_set key (False, ValueInjectable (Made n) [] (Positional GlobalScope) v) deps) (Suc n))"

fun transient_clone :: "identity \<Rightarrow> Dependencies \<Rightarrow> injectable \<Rightarrow> injectable" where
  "transient_clone ident deps (FactoryInjectable _ l _ disposable _) = FactoryInjectable ident l TransientScope disposable deps"
| "transient_clone ident deps (LazyInjectable _ l _) = LazyInjectable ident l TransientScope"
| "transient_clone ident deps (ValueInjectable _ l _ v) = ValueInjectable ident l TransientScope v"

definition inject :: "nat \<Rightarrow> nat \<Rightarrow> injectable \<Rightarrow> (string \<times> inline_dependency) list \<Rightarrow> position \<Rightarrow> world \<Rightarrow> (promise \<times> world) option" where
  "inject depth c i context scope w =
     (case find_container w c scope of
        None \<Rightarrow> None
      | Some target \<Rightarrow>
          (let (deps, n) = inline_dependencies context (inj_dependencies i) (w_made w)
           in Some (resolve depth target (transient_clone (Made n) deps i) (w\<lparr>w_made := Suc n\<rparr>))))"

section \<open>Reading an instance\<close>

text \<open>\<open>get\<close> follows the aliases of the container to a value or to the injectable that holds the instance.\<close>

function follow_aliases :: "(injectable \<times> ProvisionEntry) list \<Rightarrow> injectable set \<Rightarrow> injectable \<Rightarrow> ref + injectable" where
  "follow_aliases provisions seen target =
     (if target \<in> seen then Inr target
      else case map_get provisions target of
        None \<Rightarrow> Inr target
      | Some (ProvidedValue v) \<Rightarrow> Inl v
      | Some (ProvidedAlias next_target) \<Rightarrow> follow_aliases provisions (insert target seen) next_target)"
  by pat_completeness auto
termination
proof (relation "measure (\<lambda>(provisions, seen, target). card (fst ` set provisions - seen))")
  show "((provisions, insert target seen, next_target), (provisions, seen, target))
      \<in> measure (\<lambda>(provisions, seen, target). card (fst ` set provisions - seen))"
    if "target \<notin> seen" "map_get provisions target = Some entry" "entry = ProvidedAlias next_target"
    for provisions :: "(injectable \<times> ProvisionEntry) list" and seen target entry next_target
  proof -
    have "target \<in> fst ` set provisions" using that(2) by (force dest: map_of_SomeD)
    with that(1) have "fst ` set provisions - insert target seen \<subset> fst ` set provisions - seen" by auto
    then show ?thesis by (simp add: psubset_card_mono del: Diff_insert)
  qed
qed simp

declare follow_aliases.simps [simp del]

datatype get_error = CannotGetTransient | NoInstanceFound

fun get_instance :: "world \<Rightarrow> nat \<Rightarrow> injectable \<Rightarrow> get_error + ref" where
  "get_instance w c i =
     (if inj_scope i = TransientScope then Inl CannotGetTransient
      else case follow_aliases (ct_provisions (container w c)) {} i of
        Inl v \<Rightarrow> Inr v
      | Inr target \<Rightarrow>
          (case value_of target of
             Some v \<Rightarrow> Inr v
           | None \<Rightarrow>
               (case map_get (ct_instances (container w c)) target of
                  Some (handle # _) \<Rightarrow> Inr (ih_public handle)
                | _ \<Rightarrow>
                    (case ct_parent (container w c) of
                       None \<Rightarrow> Inl NoInstanceFound
                     | Some p \<Rightarrow>
                         if p < c \<and> contains w p target then get_instance w p target else Inl NoInstanceFound))))"

declare get_instance.simps [simp del]

section \<open>Disposal\<close>

text \<open>
  \<open>visit\<close> of \<open>getDisposalOrder\<close>: dependants before what they depend on. Every nested call is for an
  injectable with an instance that was not visited, so the number of these bounds the nesting.
\<close>

primrec visit_upto ::
  "nat \<Rightarrow> (injectable \<Rightarrow> injectable list) \<Rightarrow> injectable list \<Rightarrow> injectable \<Rightarrow> injectable list \<times> injectable list
     \<Rightarrow> injectable list \<times> injectable list" where
  "visit_upto 0 dependants keys i state = state"
| "visit_upto (Suc depth) dependants keys i state =
     (if i \<in> set (fst state) then state
      else
        (let (visited, result) = foldl (\<lambda>st d. if d \<in> set keys then visit_upto depth dependants keys d st else st)
               (fst state @ [i], snd state) (dependants i)
         in (visited, if i \<in> set keys then result @ [i] else result)))"

definition getDisposalOrder :: "Container \<Rightarrow> injectable list" where
  "getDisposalOrder ct =
     (let keys = map fst (ct_instances ct);
          dependants = (\<lambda>i. case map_get (ct_dependants ct) i of None \<Rightarrow> [] | Some ds \<Rightarrow> ds)
      in snd (foldl (\<lambda>st i. visit_upto (Suc (length keys)) dependants keys i st) ([], []) keys))"

definition disposeHandle :: "nat \<Rightarrow> InstanceHandle \<Rightarrow> world \<Rightarrow> world" where
  "disposeHandle c handle w =
     (let w1 = update_container c (\<lambda>ct. ct\<lparr>ct_transientHandles := filter (\<lambda>h. h \<noteq> handle) (ct_transientHandles ct)\<rparr>) w
      in if isDisposable (ih_injectable handle) then w1\<lparr>w_disposed := w_disposed w1 @ [(c, handle)]\<rparr> else w1)"

text \<open>The synchronous part of \<open>disposeInjectableInstances\<close>: the hooks of all handles are called.\<close>

definition dispose_handles :: "nat \<Rightarrow> InstanceHandle list \<Rightarrow> world \<Rightarrow> world" where
  "dispose_handles c handles w = foldl (\<lambda>w h. disposeHandle c h w) w handles"

definition forget_instances :: "injectable \<Rightarrow> Container \<Rightarrow> Container" where
  "forget_instances i ct = ct\<lparr>ct_instances := map_delete i (ct_instances ct)\<rparr>"

definition forget_handle :: "InstanceHandle \<Rightarrow> Container \<Rightarrow> Container" where
  "forget_handle handle ct =
     (case map_get (ct_instances ct) (ih_injectable handle) of
        None \<Rightarrow> ct
      | Some handles \<Rightarrow>
          (let rest = remove1 handle handles
           in if rest = [] then forget_instances (ih_injectable handle) ct
              else ct\<lparr>ct_instances := map_set (ih_injectable handle) rest (ct_instances ct)\<rparr>))"

definition clear_container :: "Container \<Rightarrow> Container" where
  "clear_container ct =
     ct\<lparr>ct_instances := [], ct_transientHandles := [], ct_resolving := [], ct_dependants := [], ct_disposing := False\<rparr>"

definition set_disposal :: "nat \<Rightarrow> disposal \<Rightarrow> world \<Rightarrow> world" where
  "set_disposal k d w = w\<lparr>w_disposals := (w_disposals w)[k := (fst (w_disposals w ! k), d)]\<rparr>"

definition begin_disposal :: "nat \<Rightarrow> disposal \<Rightarrow> world \<Rightarrow> world" where
  "begin_disposal c d w = w\<lparr>w_disposals := w_disposals w @ [(c, d)]\<rparr>"

definition dispose :: "nat \<Rightarrow> world \<Rightarrow> world" where
  "dispose c w = begin_disposal c DrainResolutions (update_container c (\<lambda>ct. ct\<lparr>ct_disposing := True\<rparr>) w)"

text \<open>The function that \<open>createDisposeFunction\<close> makes: all instances, or the transient one given.\<close>

definition dispose_function :: "nat \<Rightarrow> injectable \<Rightarrow> ref option \<Rightarrow> world \<Rightarrow> world option" where
  "dispose_function c i instance_ref w =
     (if inj_scope i = TransientScope then
        (case instance_ref of
           None \<Rightarrow> None
         | Some v \<Rightarrow> Some (begin_disposal c (DisposeTransients
             (filter (\<lambda>h. ih_public h = v) (ct_transientHandles (container w c)))) w))
      else Some (begin_disposal c (DisposeInjectables False [i]) w))"

definition disposal_step :: "nat \<Rightarrow> world \<Rightarrow> world option" where
  "disposal_step k w =
     (let (c, d) = w_disposals w ! k in
      case d of
        DrainResolutions \<Rightarrow>
          if ct_pending (container w c) \<noteq> [] then None
          else Some (set_disposal k (DisposeInjectables True (getDisposalOrder (container w c))) w)
      | DisposeInjectables whole (i # rest) \<Rightarrow>
          (case map_get (ct_instances (container w c)) i of
             None \<Rightarrow> Some (set_disposal k (DisposeInjectables whole rest) w)
           | Some handles \<Rightarrow> Some (set_disposal k (AwaitInjectable whole i rest) (dispose_handles c handles w)))
      | AwaitInjectable whole i rest \<Rightarrow>
          Some (set_disposal k (DisposeInjectables whole rest) (update_container c (forget_instances i) w))
      | DisposeInjectables True [] \<Rightarrow> Some (set_disposal k DisposalOver (update_container c clear_container w))
      | DisposeInjectables False [] \<Rightarrow> Some (set_disposal k DisposalOver w)
      | DisposeTransients [] \<Rightarrow> Some (set_disposal k DisposalOver w)
      | DisposeTransients (h # rest) \<Rightarrow> Some (set_disposal k (AwaitTransient h rest) (disposeHandle c h w))
      | AwaitTransient h rest \<Rightarrow> Some (set_disposal k (DisposeTransients rest) (update_container c (forget_handle h) w))
      | DisposalOver \<Rightarrow> None)"

text \<open>The hook of a transient instance rejects: the function does too, and the rest is left as it is.\<close>

definition disposal_failure :: "nat \<Rightarrow> world \<Rightarrow> world option" where
  "disposal_failure k w =
     (case snd (w_disposals w ! k) of
        AwaitTransient h rest \<Rightarrow> Some (set_disposal k DisposalOver w)
      | _ \<Rightarrow> None)"

section \<open>What happens to a resolution\<close>

definition set_state :: "nat \<Rightarrow> resolution_state \<Rightarrow> world \<Rightarrow> world" where
  "set_state t st w = w\<lparr>w_resolutions := (w_resolutions w)[t := (w_resolutions w ! t)\<lparr>rs_state := st\<rparr>]\<rparr>"

text \<open>\<open>Promise.all\<close>: the values when all have settled to one, the error as soon as one has failed.\<close>

definition context_values :: "world \<Rightarrow> (string \<times> promise) list \<Rightarrow> (string \<times> ref option) list option" where
  "context_values w ps =
     (if list_all (\<lambda>(_, p). case promise_result w p of Some (Inr _) \<Rightarrow> True | _ \<Rightarrow> False) ps
      then Some (map (\<lambda>(key, p). (key, case promise_result w p of Some (Inr v) \<Rightarrow> v | _ \<Rightarrow> None)) ps)
      else None)"

definition context_error :: "world \<Rightarrow> (string \<times> promise) list \<Rightarrow> nat \<Rightarrow> container_error option" where
  "context_error w ps n =
     (if n < length ps then
        (case promise_result w (snd (ps ! n)) of Some (Inl e) \<Rightarrow> Some e | _ \<Rightarrow> None)
      else None)"

text \<open>The handle of a new instance; its identity is the number of the resolution.\<close>

definition register_instance :: "InstanceHandle \<Rightarrow> Container \<Rightarrow> Container" where
  "register_instance handle ct =
     (let i = ih_injectable handle; isTransient = (inj_scope i = TransientScope) in
      if \<not> isTransient \<or> isDisposable i then
        (let handles = (case map_get (ct_instances ct) i of None \<Rightarrow> [] | Some hs \<Rightarrow> hs);
             ct1 = ct\<lparr>ct_instances := map_set i (handles @ [handle]) (ct_instances ct)\<rparr>
         in if isTransient then ct1\<lparr>ct_transientHandles := ct_transientHandles ct1 @ [handle]\<rparr> else ct1)
      else ct)"

text \<open>The \<open>finally\<close> of a resolution.\<close>

definition unlist_resolution :: "nat \<Rightarrow> injectable \<Rightarrow> Container \<Rightarrow> Container" where
  "unlist_resolution t i ct =
     ct\<lparr>ct_resolving := map_delete i (ct_resolving ct), ct_pending := filter (\<lambda>u. u \<noteq> t) (ct_pending ct)\<rparr>"

datatype container_event =
    Resolve nat injectable
  | CreateContext nat Dependencies
  | Initialize nat "Dependencies list"
  | Inject nat injectable "(string \<times> inline_dependency) list" position
  | Provide nat injectable ProvisionEntry
  | Withhold nat injectable
  | Fork nat position ref ref
  | Dispose nat
  | DisposeFunction nat injectable "ref option"
  | DisposalGoesOn nat
  | DisposalFailed nat
  | ContextReady nat
  | ContextFailed nat nat
  | Created nat ref ref
  | CreateFailed nat container_error
  | PickFailed nat ref container_error
  | Discarded nat
  | Finally nat

text \<open>An event is \<open>None\<close> where it cannot happen, and where the call throws without any effect.\<close>

definition resolution_step :: "container_event \<Rightarrow> nat \<Rightarrow> world \<Rightarrow> world option" where
  "resolution_step ev t w =
     (if length (w_resolutions w) \<le> t then None
      else let r = w_resolutions w ! t; c = rs_container r in
        case (ev, rs_state r) of
          (ContextReady _, AwaitContext) \<Rightarrow>
            (case context_values w (rs_context r) of
               None \<Rightarrow> None
             | Some context \<Rightarrow> Some (set_state t (AwaitCreate context) w))
        | (ContextFailed _ n, AwaitContext) \<Rightarrow>
            (case context_error w (rs_context r) n of
               None \<Rightarrow> None
             | Some e \<Rightarrow> Some (set_state t (ResolutionSettled (Inl e)) w))
        | (Created _ private public, AwaitCreate context) \<Rightarrow>
            Some (update_container c (register_instance \<lparr>ih_id = t, ih_injectable = rs_injectable r, ih_private = private,
                    ih_public = public, ih_context = context\<rparr>)
                  (set_state t (ResolutionSettled (Inr public)) w))
        | (CreateFailed _ e, AwaitCreate context) \<Rightarrow> Some (set_state t (ResolutionSettled (Inl e)) w)
        | (PickFailed _ private e, AwaitCreate context) \<Rightarrow>
            (let handle = \<lparr>ih_id = t, ih_injectable = rs_injectable r, ih_private = private, ih_public = private, ih_context = context\<rparr>;
                 w1 = set_state t (AwaitDiscard e) w
             in Some (if isDisposable (rs_injectable r) then w1\<lparr>w_disposed := w_disposed w1 @ [(c, handle)]\<rparr> else w1))
        | (Discarded _, AwaitDiscard e) \<Rightarrow> Some (set_state t (ResolutionSettled (Inl e)) w)
        | (Finally _, ResolutionSettled result) \<Rightarrow>
            Some (update_container c (unlist_resolution t (rs_injectable r)) (set_state t (ResolutionOver result) w))
        | _ \<Rightarrow> None)"

fun container_step :: "nat \<Rightarrow> container_event \<Rightarrow> world \<Rightarrow> world option" where
  "container_step depth (Resolve c i) w =
     (if c < length (w_containers w) then Some (snd (resolve depth c i w)) else None)"
| "container_step depth (CreateContext c deps) w =
     (if c < length (w_containers w) then Some (snd (createContext depth c deps w)) else None)"
| "container_step depth (Initialize c dependants) w =
     (if c < length (w_containers w) then Some (initialize depth c dependants w) else None)"
| "container_step depth (Inject c i context scope) w =
     (if c < length (w_containers w) then map_option snd (inject depth c i context scope w) else None)"
| "container_step depth (Provide c token entry) w =
     (if c < length (w_containers w) then provide c token entry w else None)"
| "container_step depth (Withhold c token) w =
     (if c < length (w_containers w) then Some (withhold c token w) else None)"
| "container_step depth (Fork c scope injectFn disposeFn) w =
     (if c < length (w_containers w) then Some (fork c scope injectFn disposeFn w) else None)"
| "container_step depth (Dispose c) w = (if c < length (w_containers w) then Some (dispose c w) else None)"
| "container_step depth (DisposeFunction c i v) w =
     (if c < length (w_containers w) then dispose_function c i v w else None)"
| "container_step depth (DisposalGoesOn k) w = (if k < length (w_disposals w) then disposal_step k w else None)"
| "container_step depth (DisposalFailed k) w = (if k < length (w_disposals w) then disposal_failure k w else None)"
| "container_step depth (ContextReady t) w = resolution_step (ContextReady t) t w"
| "container_step depth (ContextFailed t n) w = resolution_step (ContextFailed t n) t w"
| "container_step depth (Created t private public) w = resolution_step (Created t private public) t w"
| "container_step depth (CreateFailed t e) w = resolution_step (CreateFailed t e) t w"
| "container_step depth (PickFailed t private e) w = resolution_step (PickFailed t private e) t w"
| "container_step depth (Discarded t) w = resolution_step (Discarded t) t w"
| "container_step depth (Finally t) w = resolution_step (Finally t) t w"

definition new_world :: "ref \<Rightarrow> ref \<Rightarrow> world" where
  "new_world injectFn disposeFn =
     \<lparr>w_containers = [new_container GlobalScope None injectFn disposeFn], w_resolutions = [], w_disposals = [], w_disposed = [], w_made = 0\<rparr>"

primrec container_run :: "nat \<Rightarrow> container_event list \<Rightarrow> world \<Rightarrow> world option" where
  "container_run depth [] w = Some w"
| "container_run depth (ev # evs) w = Option.bind (container_step depth ev w) (container_run depth evs)"

end
