(* ===== verification/DisposalOrder.thy ===== *)
theory DisposalOrder
  imports Container
begin

text \<open>
  The order in which a container disposes its instances: a depth-first search along the
  dependants. It lists every injectable with an instance once, and, the dependencies being
  acyclic, every dependant before what it depends on.
\<close>

section \<open>The depth-first search\<close>

locale dependants_graph =
  fixes dependants :: "injectable \<Rightarrow> injectable list" and keys :: "injectable list"
begin

definition edge :: "injectable \<Rightarrow> injectable \<Rightarrow> bool" where
  "edge i d \<longleftrightarrow> d \<in> set (dependants i) \<and> d \<in> set keys"

definition ordered :: "injectable list \<Rightarrow> bool" where
  "ordered R \<longleftrightarrow> (\<forall>xs i ys. R = xs @ i # ys \<longrightarrow> (\<forall>d. edge i d \<longrightarrow> d \<in> set xs))"

text \<open>
  What a call keeps: the visited injectables that are not in the result are those whose calls are
  still open, and they are the same before and after a call.
\<close>

definition search_ok :: "injectable list \<times> injectable list \<Rightarrow> bool" where
  "search_ok st \<longleftrightarrow> set (fst st) \<subseteq> set keys \<and> set (snd st) \<subseteq> set (fst st) \<and> distinct (snd st)"

definition open_calls :: "injectable list \<times> injectable list \<Rightarrow> injectable set" where
  "open_calls st = set (fst st) - set (snd st)"

abbreviation child :: "nat \<Rightarrow> injectable list \<times> injectable list \<Rightarrow> injectable \<Rightarrow> injectable list \<times> injectable list" where
  "child n \<equiv> (\<lambda>st d. if d \<in> set keys then visit_upto n dependants keys d st else st)"

lemma ordered_snoc: "ordered (R @ [i]) \<longleftrightarrow> ordered R \<and> (\<forall>d. edge i d \<longrightarrow> d \<in> set R)"
  unfolding ordered_def
  by (auto simp: append_eq_append_conv2 append_eq_Cons_conv Cons_eq_append_conv) blast+

definition unvisited :: "injectable list \<times> injectable list \<Rightarrow> nat" where
  "unvisited st = card (set keys - set (fst st))"

lemma unvisited_less: "i \<in> set keys \<Longrightarrow> i \<notin> set V \<Longrightarrow> unvisited (V @ [i], R) < unvisited (V, R)"
  unfolding unvisited_def by (intro psubset_card_mono) auto

lemma unvisited_mono: "set (fst st) \<subseteq> set (fst st') \<Longrightarrow> unvisited st' \<le> unvisited st"
  unfolding unvisited_def by (intro card_mono) auto

lemma visit_covers:
  assumes "search_ok st" and "i \<in> set keys" and "unvisited st < n"
  shows "search_ok (visit_upto n dependants keys i st) \<and> i \<in> set (fst (visit_upto n dependants keys i st))
    \<and> set (fst st) \<subseteq> set (fst (visit_upto n dependants keys i st))
    \<and> open_calls (visit_upto n dependants keys i st) = open_calls st"
  using assms
proof (induction n arbitrary: st i)
  case (Suc n)
  show ?case
  proof (cases "i \<in> set (fst st)")
    case True
    with Suc.prems show ?thesis by simp
  next
    case False
    let ?st0 = "(fst st @ [i], snd st)"
    have fold: "search_ok (foldl (child n) st' ds) \<and> set (fst st') \<subseteq> set (fst (foldl (child n) st' ds))
        \<and> open_calls (foldl (child n) st' ds) = open_calls st'"
      if "search_ok st'" "unvisited st' < n" for st' ds
      using that
    proof (induction ds arbitrary: st')
      case (Cons d ds)
      show ?case
      proof (cases "d \<in> set keys")
        case True
        note visit = Suc.IH[OF Cons.prems(1) True Cons.prems(2)]
        with Cons.prems(2) unvisited_mono have "unvisited (visit_upto n dependants keys d st') < n"
          by (meson order_le_less_trans)
        with visit Cons.IH[of "visit_upto n dependants keys d st'"] True show ?thesis by auto
      qed (use Cons in simp)
    qed simp
    have "search_ok ?st0" using Suc.prems(1,2) by (auto simp: search_ok_def)
    moreover have "unvisited ?st0 < n" using unvisited_less[OF Suc.prems(2) False, of "snd st"] Suc.prems(3) by simp
    ultimately have all: "search_ok (foldl (child n) ?st0 (dependants i))"
        "set (fst ?st0) \<subseteq> set (fst (foldl (child n) ?st0 (dependants i)))"
        "open_calls (foldl (child n) ?st0 (dependants i)) = open_calls ?st0" using fold by blast+
    moreover have "open_calls ?st0 = insert i (open_calls st)"
      using False Suc.prems(1) by (auto simp: open_calls_def search_ok_def)
    moreover have "i \<notin> open_calls st" using False by (simp add: open_calls_def)
    ultimately show ?thesis using False Suc.prems(2)
      by (auto simp: search_ok_def open_calls_def case_prod_beta Let_def)
  qed
qed simp

text \<open>One call more: without cycles an open call is never reached again.\<close>

lemma visit_ordered:
  assumes "\<And>x. \<not> edge\<^sup>+\<^sup>+ x x"
    and "search_ok st" and "i \<in> set keys" and "unvisited st < n" and "ordered (snd st)"
    and "\<And>g. g \<in> open_calls st \<Longrightarrow> edge\<^sup>+\<^sup>+ g i"
  shows "ordered (snd (visit_upto n dependants keys i st)) \<and> i \<in> set (snd (visit_upto n dependants keys i st))
    \<and> set (snd st) \<subseteq> set (snd (visit_upto n dependants keys i st))"
  using assms(2-)
proof (induction n arbitrary: st i)
  case (Suc n)
  show ?case
  proof (cases "i \<in> set (fst st)")
    case True
    then have "i \<in> set (snd st)" using Suc.prems(5)[of i] assms(1) by (auto simp: open_calls_def)
    with True Suc.prems(4) show ?thesis by simp
  next
    case False
    let ?st0 = "(fst st @ [i], snd st)"
    have fold: "ordered (snd (foldl (child n) st' ds)) \<and> (\<forall>d \<in> set ds. edge i d \<longrightarrow> d \<in> set (snd (foldl (child n) st' ds)))
        \<and> set (snd st') \<subseteq> set (snd (foldl (child n) st' ds))"
      if "search_ok st'" "unvisited st' < n" "ordered (snd st')" "open_calls st' = insert i (open_calls st)" "set ds \<subseteq> set (dependants i)"
      for st' ds
      using that
    proof (induction ds arbitrary: st')
      case (Cons d ds)
      show ?case
      proof (cases "d \<in> set keys")
        case True
        with Cons.prems(5) have "edge i d" by (simp add: edge_def)
        then have reach: "g \<in> open_calls st' \<Longrightarrow> edge\<^sup>+\<^sup>+ g d" for g
          using Suc.prems(5) Cons.prems(4) by (auto intro: tranclp.trancl_into_trancl)
        note covers = visit_covers[OF Cons.prems(1) True Cons.prems(2)]
        note visit = Suc.IH[OF Cons.prems(1) True Cons.prems(2,3) reach]
        have "unvisited (visit_upto n dependants keys d st') < n"
          using covers Cons.prems(2) unvisited_mono by (meson order_le_less_trans)
        with Cons.IH[of "visit_upto n dependants keys d st'"] covers visit Cons.prems(4,5) True show ?thesis by auto
      next
        case False
        with Cons show ?thesis by (auto simp: edge_def)
      qed
    qed simp
    have "search_ok ?st0" using Suc.prems(1,2) by (auto simp: search_ok_def)
    moreover have "unvisited ?st0 < n" using unvisited_less[OF Suc.prems(2) False, of "snd st"] Suc.prems(3) by simp
    moreover have "open_calls ?st0 = insert i (open_calls st)"
      using False Suc.prems(1) by (auto simp: open_calls_def search_ok_def)
    ultimately have all: "ordered (snd (foldl (child n) ?st0 (dependants i)))"
        "\<forall>d \<in> set (dependants i). edge i d \<longrightarrow> d \<in> set (snd (foldl (child n) ?st0 (dependants i)))"
        "set (snd st) \<subseteq> set (snd (foldl (child n) ?st0 (dependants i)))"
      using fold[of ?st0 "dependants i"] Suc.prems(4) by simp_all
    have "ordered (snd (foldl (child n) ?st0 (dependants i)) @ [i])"
      unfolding ordered_snoc using all(1,2) by (auto simp: edge_def)
    with False Suc.prems(2) all(3) show ?thesis by (auto simp: case_prod_beta Let_def)
  qed
qed simp

text \<open>The search from every key in turn.\<close>

abbreviation search :: "injectable list \<Rightarrow> injectable list \<times> injectable list \<Rightarrow> injectable list \<times> injectable list" where
  "search is st \<equiv> foldl (\<lambda>st i. visit_upto (Suc (length keys)) dependants keys i st) st is"

lemma unvisited_bound: "unvisited st < Suc (length keys)"
  unfolding unvisited_def by (metis card_length card_mono Diff_subset List.finite_set le_imp_less_Suc order_trans)

lemma search_covers:
  "search_ok st \<Longrightarrow> open_calls st = {} \<Longrightarrow> set is \<subseteq> set keys \<Longrightarrow>
   search_ok (search is st) \<and> open_calls (search is st) = {} \<and> set (fst st) \<union> set is \<subseteq> set (fst (search is st))"
proof (induction "is" arbitrary: st)
  case (Cons i "is")
  note visit = visit_covers[OF Cons.prems(1) _ unvisited_bound, of i]
  with Cons.prems Cons.IH[of "visit_upto (Suc (length keys)) dependants keys i st"] show ?case by auto
qed simp

lemma search_ordered:
  assumes "\<And>x. \<not> edge\<^sup>+\<^sup>+ x x"
  shows "search_ok st \<Longrightarrow> open_calls st = {} \<Longrightarrow> ordered (snd st) \<Longrightarrow> set is \<subseteq> set keys \<Longrightarrow> ordered (snd (search is st))"
proof (induction "is" arbitrary: st)
  case (Cons i "is")
  note covers = visit_covers[OF Cons.prems(1) _ unvisited_bound, of i]
  note visit = visit_ordered[OF assms Cons.prems(1) _ unvisited_bound Cons.prems(3), of i]
  with covers Cons.prems Cons.IH[of "visit_upto (Suc (length keys)) dependants keys i st"] show ?case by auto
qed simp

lemma search_result: "distinct (snd (search keys ([], []))) \<and> set (snd (search keys ([], []))) = set keys"
  using search_covers[of "([], [])" keys] by (auto simp: search_ok_def open_calls_def)

end

section \<open>The order of a container\<close>

definition dependants_of :: "Container \<Rightarrow> injectable \<Rightarrow> injectable list" where
  "dependants_of ct i = (case map_get (ct_dependants ct) i of None \<Rightarrow> [] | Some ds \<Rightarrow> ds)"

text \<open>A dependant that has an instance in the container itself.\<close>

definition owned_dependant :: "Container \<Rightarrow> injectable \<Rightarrow> injectable \<Rightarrow> bool" where
  "owned_dependant ct i d \<longleftrightarrow> d \<in> set (dependants_of ct i) \<and> map_get (ct_instances ct) d \<noteq> None"

interpretation graph: dependants_graph "dependants_of ct" "map fst (ct_instances ct)" for ct .

lemma owned_edges: "graph.edge ct = owned_dependant ct"
  by (intro ext) (simp add: graph.edge_def owned_dependant_def map_of_eq_None_iff)

lemma getDisposalOrder_search:
  "getDisposalOrder ct = snd (foldl (\<lambda>st i. visit_upto (Suc (length (map fst (ct_instances ct)))) (dependants_of ct) (map fst (ct_instances ct)) i st)
     ([], []) (map fst (ct_instances ct)))"
  unfolding getDisposalOrder_def dependants_of_def[abs_def] Let_def ..

text \<open>
  C18: disposing a container treats every injectable that has an instance exactly once, and, when
  no injectable depends on itself, every dependant before what it depends on, so that no instance is
  disposed while another one that uses it is still alive.
\<close>

theorem dependants_are_disposed_first:
  assumes "\<And>i. \<not> (owned_dependant ct)\<^sup>+\<^sup>+ i i"
  shows "distinct (getDisposalOrder ct) \<and> set (getDisposalOrder ct) = fst ` set (ct_instances ct)
    \<and> (\<forall>xs i ys d. getDisposalOrder ct = xs @ i # ys \<longrightarrow> owned_dependant ct i d \<longrightarrow> d \<in> set xs)"
proof -
  have "graph.ordered ct (getDisposalOrder ct)"
    unfolding getDisposalOrder_search
    by (rule graph.search_ordered) (use assms in \<open>auto simp: graph.search_ok_def graph.open_calls_def graph.ordered_def owned_edges\<close>)
  with graph.search_result[of ct] show ?thesis
    unfolding graph.ordered_def owned_edges getDisposalOrder_search by simp
qed

text \<open>A database and a repository that depends on it.\<close>

definition database :: injectable where
  "database = FactoryInjectable (Declared 10) ''database'' (Positional GlobalScope) True []"

definition repository :: injectable where
  "repository = FactoryInjectable (Declared 11) ''repository'' (Positional GlobalScope) True [(''db'', False, database)]"

definition connected :: Container where
  "connected = (new_container GlobalScope None 0 1)
     \<lparr>ct_instances := [(database, [\<lparr>ih_id = 0, ih_injectable = database, ih_private = 2, ih_public = 2, ih_context = []\<rparr>]),
        (repository, [\<lparr>ih_id = 1, ih_injectable = repository, ih_private = 3, ih_public = 3, ih_context = [(''db'', Some 2)]\<rparr>])],
      ct_dependants := [(database, [repository])]\<rparr>"

lemma connected_edges: "owned_dependant connected i d \<longleftrightarrow> i = database \<and> d = repository"
  by (auto simp: owned_dependant_def dependants_of_def connected_def new_container_def database_def repository_def)

theorem dependants_are_disposed_first_witness:
  "\<exists>xs ys. getDisposalOrder connected = xs @ database # ys \<and> repository \<in> set xs"
proof -
  have "\<not> (owned_dependant connected)\<^sup>+\<^sup>+ i i" for i
  proof
    assume "(owned_dependant connected)\<^sup>+\<^sup>+ i i"
    then show False
    proof (cases rule: tranclp.cases)
      case r_into_trancl
      then show False by (auto simp: connected_edges database_def repository_def)
    next
      case (trancl_into_trancl j)
      then have "j = database" "(owned_dependant connected)\<^sup>+\<^sup>+ repository database" by (auto simp: connected_edges)
      from this(2) show False by (rule converse_tranclpE) (auto simp: connected_edges database_def repository_def)
    qed
  qed
  note order = dependants_are_disposed_first[OF this]
  have "database \<in> set (getDisposalOrder connected)" using order by (simp add: connected_def)
  then obtain xs ys where split: "getDisposalOrder connected = xs @ database # ys" by (metis in_set_conv_decomp)
  with order show ?thesis by (meson connected_edges)
qed

end
