(* ===== verification/ContainerInvariant.thy ===== *)
theory ContainerInvariant
  imports DisposalOrder
begin

text \<open>
  The invariant of the containers and that every event keeps it: a resolution that is not over is
  listed in its container, at most one of them is under way for an injectable that is not
  transient, and never beside an instance.
\<close>

section \<open>The invariant\<close>

abbreviation transient :: "injectable \<Rightarrow> bool" where
  "transient i \<equiv> inj_scope i = TransientScope"

definition resolution_over :: "resolution \<Rightarrow> bool" where
  "resolution_over r \<longleftrightarrow> (\<exists>x. rs_state r = ResolutionOver x)"

text \<open>No instance has been registered by the resolution yet.\<close>

definition under_way :: "resolution \<Rightarrow> bool" where
  "under_way r \<longleftrightarrow> \<not> resolution_over r \<and> (\<nexists>x. rs_state r = ResolutionSettled x)"

definition instance_free :: "Container \<Rightarrow> injectable \<Rightarrow> bool" where
  "instance_free ct i \<longleftrightarrow> map_get (ct_instances ct) i = None \<or> map_get (ct_instances ct) i = Some []"

definition resolution_ok :: "world \<Rightarrow> nat \<Rightarrow> bool" where
  "resolution_ok w t \<longleftrightarrow> (let r = w_resolutions w ! t; ct = container w (rs_container r); i = rs_injectable r in
     rs_container r < length (w_containers w) \<and> satisfies ct i
   \<and> (\<not> resolution_over r \<longrightarrow> t \<in> set (ct_pending ct) \<and> (\<not> transient i \<longrightarrow> map_get (ct_resolving ct) i = Some t))
   \<and> (under_way r \<and> \<not> transient i \<longrightarrow> instance_free ct i))"

definition container_ok :: "world \<Rightarrow> nat \<Rightarrow> bool" where
  "container_ok w c \<longleftrightarrow> (let ct = container w c in
     (\<forall>p. ct_parent ct = Some p \<longrightarrow> p < c)
   \<and> wf_map (ct_instances ct)
   \<and> (\<forall>i t. map_get (ct_resolving ct) i = Some t \<longrightarrow> t < length (w_resolutions w) \<and> \<not> resolution_over (w_resolutions w ! t)
        \<and> rs_container (w_resolutions w ! t) = c \<and> rs_injectable (w_resolutions w ! t) = i \<and> \<not> transient i)
   \<and> (\<forall>i hs. map_get (ct_instances ct) i = Some hs \<longrightarrow> satisfies ct i \<and> (\<forall>h \<in> set hs. ih_injectable h = i)
        \<and> (\<not> transient i \<longrightarrow> length hs \<le> 1)))"

lemma container_okI:
  assumes "\<And>p. ct_parent (container w c) = Some p \<Longrightarrow> p < c" and "wf_map (ct_instances (container w c))"
    and "\<And>i t. map_get (ct_resolving (container w c)) i = Some t \<Longrightarrow> t < length (w_resolutions w) \<and> \<not> resolution_over (w_resolutions w ! t)
        \<and> rs_container (w_resolutions w ! t) = c \<and> rs_injectable (w_resolutions w ! t) = i \<and> \<not> transient i"
    and "\<And>i hs. map_get (ct_instances (container w c)) i = Some hs \<Longrightarrow> satisfies (container w c) i \<and> (\<forall>h \<in> set hs. ih_injectable h = i)
        \<and> (\<not> transient i \<longrightarrow> length hs \<le> 1)"
  shows "container_ok w c"
  unfolding container_ok_def Let_def using assms by blast

lemma container_okD:
  assumes "container_ok w c"
  shows "ct_parent (container w c) = Some p \<Longrightarrow> p < c" and "wf_map (ct_instances (container w c))"
    and "map_get (ct_resolving (container w c)) i = Some t \<Longrightarrow> t < length (w_resolutions w) \<and> \<not> resolution_over (w_resolutions w ! t)
        \<and> rs_container (w_resolutions w ! t) = c \<and> rs_injectable (w_resolutions w ! t) = i \<and> \<not> transient i"
    and "map_get (ct_instances (container w c)) i = Some hs \<Longrightarrow> satisfies (container w c) i \<and> (\<forall>h \<in> set hs. ih_injectable h = i)
        \<and> (\<not> transient i \<longrightarrow> length hs \<le> 1)"
  using assms unfolding container_ok_def Let_def by blast+

definition whole :: "disposal \<Rightarrow> bool" where
  "whole d \<longleftrightarrow> d = DrainResolutions \<or> (\<exists>is. d = DisposeInjectables True is) \<or> (\<exists>i is. d = AwaitInjectable True i is)"

definition disposals_ok :: "world \<Rightarrow> bool" where
  "disposals_ok w \<longleftrightarrow>
     (\<forall>k c d. k < length (w_disposals w) \<longrightarrow> w_disposals w ! k = (c, d) \<longrightarrow> c < length (w_containers w)
        \<and> (whole d \<longrightarrow> ct_disposing (container w c) \<and> (d \<noteq> DrainResolutions \<longrightarrow> ct_pending (container w c) = [])))
   \<and> (\<forall>k k' c d d'. k < length (w_disposals w) \<longrightarrow> k' < length (w_disposals w) \<longrightarrow> w_disposals w ! k = (c, d)
        \<longrightarrow> w_disposals w ! k' = (c, d') \<longrightarrow> whole d \<longrightarrow> whole d' \<longrightarrow> k = k')"

definition world_ok :: "world \<Rightarrow> bool" where
  "world_ok w \<longleftrightarrow> (\<forall>t < length (w_resolutions w). resolution_ok w t) \<and> (\<forall>c < length (w_containers w). container_ok w c) \<and> disposals_ok w"

section \<open>Updates of a container\<close>

lemma length_update [simp]: "length (w_containers (update_container c f w)) = length (w_containers w)"
  by (simp add: update_container_def)

lemma container_update:
  "container (update_container c f w) c' = (if c' = c \<and> c < length (w_containers w) then f (container w c) else container w c')"
  by (cases "c < length (w_containers w)") (auto simp: container_def update_container_def nth_list_update list_update_beyond not_less)

lemma update_other_fields [simp]:
  "w_resolutions (update_container c f w) = w_resolutions w" "w_disposals (update_container c f w) = w_disposals w"
  "w_disposed (update_container c f w) = w_disposed w"
  by (simp_all add: update_container_def)

section \<open>What resolving leaves alone\<close>

definition resolve_frame :: "world \<Rightarrow> world \<Rightarrow> bool" where
  "resolve_frame w w' \<longleftrightarrow> length (w_containers w') = length (w_containers w) \<and> w_disposals w' = w_disposals w \<and> w_disposed w' = w_disposed w
     \<and> (\<forall>c. ct_scope (container w' c) = ct_scope (container w c) \<and> ct_parent (container w' c) = ct_parent (container w c)
          \<and> ct_instances (container w' c) = ct_instances (container w c) \<and> ct_disposing (container w' c) = ct_disposing (container w c))"

definition same_resolving :: "injectable set \<Rightarrow> world \<Rightarrow> world \<Rightarrow> bool" where
  "same_resolving js w w' \<longleftrightarrow> (\<forall>c. \<forall>j \<in> js. map_get (ct_resolving (container w' c)) j = map_get (ct_resolving (container w c)) j)"

lemma frame_refl [simp]: "resolve_frame w w" "same_resolving js w w"
  by (simp_all add: resolve_frame_def same_resolving_def)

lemma frame_trans: "resolve_frame w w1 \<Longrightarrow> resolve_frame w1 w2 \<Longrightarrow> resolve_frame w w2"
  by (simp add: resolve_frame_def)

lemma same_resolving_trans: "same_resolving js w w1 \<Longrightarrow> same_resolving js w1 w2 \<Longrightarrow> same_resolving js w w2"
  by (simp add: same_resolving_def)

lemma same_resolving_mono: "same_resolving js w w' \<Longrightarrow> is \<subseteq> js \<Longrightarrow> same_resolving is w w'"
  by (auto simp: same_resolving_def)

text \<open>Recording a dependant touches only the dependants.\<close>

lemma add_dependant_fields [simp]:
  "ct_scope (add_dependant i d ct) = ct_scope ct" "ct_parent (add_dependant i d ct) = ct_parent ct"
  "ct_instances (add_dependant i d ct) = ct_instances ct" "ct_disposing (add_dependant i d ct) = ct_disposing ct"
  "ct_resolving (add_dependant i d ct) = ct_resolving ct" "ct_pending (add_dependant i d ct) = ct_pending ct"
  by (simp_all add: add_dependant_def Let_def split: option.split)

lemma satisfies_scope: "ct_scope ct = ct_scope ct' \<Longrightarrow> satisfies ct i = satisfies ct' i"
  by (simp add: satisfies_def)

text \<open>Two worlds that agree on everything the invariant reads.\<close>

definition same_entries :: "Container \<Rightarrow> Container \<Rightarrow> bool" where
  "same_entries ct ct' \<longleftrightarrow> ct_scope ct' = ct_scope ct \<and> ct_parent ct' = ct_parent ct \<and> ct_instances ct' = ct_instances ct
     \<and> ct_resolving ct' = ct_resolving ct \<and> ct_pending ct' = ct_pending ct"

lemma rows_cong:
  assumes "world_ok w" and "length (w_containers w') = length (w_containers w)" and "w_resolutions w' = w_resolutions w"
    and "\<And>c. c < length (w_containers w) \<Longrightarrow> same_entries (container w c) (container w' c)"
  shows "(\<forall>t < length (w_resolutions w'). resolution_ok w' t) \<and> (\<forall>c < length (w_containers w'). container_ok w' c)"
proof -
  have "resolution_ok w' t" if "t < length (w_resolutions w')" for t
  proof -
    from that assms(1,3) have r: "resolution_ok w t" by (simp add: world_ok_def)
    then have c: "rs_container (w_resolutions w ! t) < length (w_containers w)" by (simp add: resolution_ok_def Let_def)
    from r assms(4)[OF c] assms(2,3) show ?thesis
      by (simp add: same_entries_def resolution_ok_def Let_def instance_free_def satisfies_def)
  qed
  moreover have "container_ok w' c" if "c < length (w_containers w')" for c
    using that assms(1,2,3) assms(4)[of c] by (simp add: same_entries_def world_ok_def container_ok_def Let_def satisfies_def)
  ultimately show ?thesis by blast
qed

lemma world_ok_cong:
  assumes "world_ok w" and "length (w_containers w') = length (w_containers w)" and "w_resolutions w' = w_resolutions w"
    and "w_disposals w' = w_disposals w"
    and "\<And>c. c < length (w_containers w) \<Longrightarrow> same_entries (container w c) (container w' c) \<and> ct_disposing (container w' c) = ct_disposing (container w c)"
  shows "world_ok w'"
proof -
  have "disposals_ok w'"
    using assms(1,2,4,5) unfolding world_ok_def disposals_ok_def same_entries_def by metis
  with rows_cong[OF assms(1-3)] assms(5) show ?thesis by (simp add: world_ok_def)
qed

lemma add_dependant_ok: "world_ok w \<Longrightarrow> world_ok (update_container c (add_dependant i d) w)"
  by (erule world_ok_cong) (simp_all add: container_update same_entries_def)

lemma add_dependant_frame:
  "resolve_frame w (update_container c (add_dependant i d) w)" "same_resolving js w (update_container c (add_dependant i d) w)"
  by (simp_all add: resolve_frame_def same_resolving_def container_update)

section \<open>Starting a resolution\<close>

lemma container_append_resolution [simp]:
  "container (w\<lparr>w_resolutions := rs\<rparr>) c = container w c" "w_containers (w\<lparr>w_resolutions := rs\<rparr>) = w_containers w"
  by (simp_all add: container_def)

lemma start_frame:
  "resolve_frame w (snd (start_resolution c i context w))"
  "i \<notin> js \<Longrightarrow> same_resolving js w (snd (start_resolution c i context w))"
  by (auto simp: start_resolution_def Let_def resolve_frame_def same_resolving_def container_update)

lemma start_ok:
  assumes "world_ok w" and "c < length (w_containers w)" and "satisfies (container w c) i" and "\<not> ct_disposing (container w c)"
    and "\<not> transient i \<Longrightarrow> instance_free (container w c) i \<and> map_get (ct_resolving (container w c)) i = None"
  shows "world_ok (snd (start_resolution c i context w))"
proof -
  let ?w = "snd (start_resolution c i context w)"
  let ?n = "length (w_resolutions w)"
  have rs: "w_resolutions ?w = w_resolutions w @ [\<lparr>rs_container = c, rs_injectable = i, rs_context = context, rs_state = AwaitContext\<rparr>]"
    and len: "length (w_containers ?w) = length (w_containers w)" and disp: "w_disposals ?w = w_disposals w"
    by (simp_all add: start_resolution_def Let_def)
  have ct: "container ?w c' = (if c' = c then (container w c)\<lparr>ct_pending := ct_pending (container w c) @ [?n],
      ct_resolving := (if transient i then ct_resolving (container w c) else map_set i ?n (ct_resolving (container w c)))\<rparr> else container w c')" for c'
    using assms(2) by (simp add: start_resolution_def Let_def container_update)
  have "resolution_ok ?w t" if t: "t < length (w_resolutions ?w)" for t
  proof (cases "t = ?n")
    case True
    with assms(2-) show ?thesis
      by (simp add: resolution_ok_def Let_def rs ct len satisfies_def instance_free_def under_way_def resolution_over_def)
  next
    case False
    with t rs have t': "t < ?n" by simp
    with assms(1) have old: "resolution_ok w t" by (simp add: world_ok_def)
    have "\<not> resolution_over (w_resolutions w ! t) \<Longrightarrow> rs_container (w_resolutions w ! t) = c \<Longrightarrow> \<not> transient (rs_injectable (w_resolutions w ! t))
        \<Longrightarrow> rs_injectable (w_resolutions w ! t) \<noteq> i"
      using old assms(5) by (auto simp: resolution_ok_def Let_def)
    with old t' show ?thesis
      by (auto simp: resolution_ok_def Let_def rs ct len satisfies_def instance_free_def nth_append)
  qed
  moreover have "container_ok ?w c'" if "c' < length (w_containers ?w)" for c'
  proof -
    have ok: "container_ok w c'" using that assms(1) len by (simp add: world_ok_def)
    have listed: "t < length (w_resolutions ?w) \<and> \<not> resolution_over (w_resolutions ?w ! t) \<and> rs_container (w_resolutions ?w ! t) = c'
        \<and> rs_injectable (w_resolutions ?w ! t) = j \<and> \<not> transient j"
      if t: "map_get (ct_resolving (container ?w c')) j = Some t" for j t
    proof (cases "c' = c \<and> j = i \<and> \<not> transient i")
      case True
      with t show ?thesis by (auto simp: ct rs resolution_over_def nth_append)
    next
      case False
      with t have "map_get (ct_resolving (container w c')) j = Some t" by (simp add: ct split: if_splits)
      with ok have "t < ?n \<and> \<not> resolution_over (w_resolutions w ! t) \<and> rs_container (w_resolutions w ! t) = c'
          \<and> rs_injectable (w_resolutions w ! t) = j \<and> \<not> transient j" by (simp add: container_ok_def Let_def)
      then show ?thesis by (simp add: rs nth_append)
    qed
    have "ct_parent (container ?w c') = ct_parent (container w c')" "ct_instances (container ?w c') = ct_instances (container w c')"
        "ct_scope (container ?w c') = ct_scope (container w c')" by (simp_all add: ct)
    note same = this
    show ?thesis
    proof (rule container_okI)
      show "p < c'" if "ct_parent (container ?w c') = Some p" for p using container_okD(1)[OF ok] that same(1) by simp
      show "wf_map (ct_instances (container ?w c'))" using container_okD(2)[OF ok] same(2) by simp
      show "satisfies (container ?w c') j \<and> (\<forall>h \<in> set hs. ih_injectable h = j) \<and> (\<not> transient j \<longrightarrow> length hs \<le> 1)"
        if "map_get (ct_instances (container ?w c')) j = Some hs" for j hs
        using container_okD(4)[OF ok, of j hs] that same(2,3) by (simp add: satisfies_def)
    qed (rule listed)
  qed
  moreover have "disposals_ok ?w"
  proof -
    have "ct_disposing (container ?w c') = ct_disposing (container w c')" for c' by (simp add: ct)
    moreover have "ct_disposing (container w c') \<Longrightarrow> ct_pending (container ?w c') = ct_pending (container w c')" for c'
      using assms(4) by (auto simp: ct)
    ultimately show ?thesis using assms(1) unfolding world_ok_def disposals_ok_def disp len by metis
  qed
  ultimately show ?thesis by (simp add: world_ok_def)
qed

section \<open>Resolving keeps the invariant\<close>

definition resolves_well :: "world \<Rightarrow> injectable set \<Rightarrow> world \<Rightarrow> bool" where
  "resolves_well w js w' \<longleftrightarrow> world_ok w' \<and> resolve_frame w w' \<and> same_resolving js w w'"

lemma resolves_well_refl: "world_ok w \<Longrightarrow> resolves_well w js w"
  by (simp add: resolves_well_def)

lemma resolves_well_trans: "resolves_well w js w1 \<Longrightarrow> resolves_well w1 js w2 \<Longrightarrow> resolves_well w js w2"
  unfolding resolves_well_def using frame_trans same_resolving_trans by blast

lemma resolves_well_mono: "resolves_well w js w' \<Longrightarrow> is \<subseteq> js \<Longrightarrow> resolves_well w is w'"
  unfolding resolves_well_def using same_resolving_mono by blast

lemma resolves_well_length: "resolves_well w js w' \<Longrightarrow> length (w_containers w') = length (w_containers w)"
  by (simp add: resolves_well_def resolve_frame_def)

lemma context_well:
  assumes "\<And>i opt w. (\<exists>k. (k, opt, i) \<in> set deps) \<Longrightarrow> world_ok w \<Longrightarrow> c < length (w_containers w) \<Longrightarrow> resolves_well w js (snd (f i opt w))"
    and "world_ok w" and "c < length (w_containers w)"
  shows "resolves_well w js (snd (createDependencyContext f deps w))"
  using assms
proof (induction deps arbitrary: w)
  case Nil
  then show ?case by (simp add: resolves_well_refl)
next
  case (Cons dep deps)
  obtain k opt i where dep: "dep = (k, opt, i)" by (cases dep)
  have step: "resolves_well w js (snd (f i opt w))" using Cons.prems dep by auto
  then have "world_ok (snd (f i opt w))" "c < length (w_containers (snd (f i opt w)))"
    using resolves_well_length[OF step] Cons.prems(3) by (simp_all add: resolves_well_def)
  with Cons.IH[of "snd (f i opt w)"] Cons.prems(1) have "resolves_well (snd (f i opt w)) js (snd (createDependencyContext f deps (snd (f i opt w))))"
    by auto
  with resolves_well_trans[OF step] show ?case by (simp add: dep case_prod_beta Let_def)
qed

text \<open>The case that creates an instance: nothing of the request itself is started in between.\<close>

lemma create_well:
  assumes ok: "world_ok w" and c: "c < length (w_containers w)" and sat: "satisfies (container w c) i"
    and free: "\<not> ct_disposing (container w c)" "\<not> transient i \<Longrightarrow> instance_free (container w c) i \<and> map_get (ct_resolving (container w c)) i = None"
    and deps: "\<And>d opt w. world_ok w \<Longrightarrow> c < length (w_containers w) \<Longrightarrow> resolves_well w (insert i js) (snd (f d opt w))"
    and "i \<notin> js"
  shows "resolves_well w js (snd (case createDependencyContext f ds w of (ps, w2) \<Rightarrow> start_resolution c i ps w2))"
proof -
  obtain ps w2 where w2: "createDependencyContext f ds w = (ps, w2)" by fastforce
  have well: "resolves_well w (insert i js) w2" using context_well[of ds c "insert i js" f w] deps ok c w2 by simp
  then have frame: "resolve_frame w w2" and same: "same_resolving (insert i js) w w2" and ok2: "world_ok w2"
    by (simp_all add: resolves_well_def)
  have "world_ok (snd (start_resolution c i ps w2))"
  proof (rule start_ok[OF ok2])
    show "c < length (w_containers w2)" using c resolves_well_length[OF well] by simp
    show "satisfies (container w2 c) i" "\<not> ct_disposing (container w2 c)"
      using sat free(1) frame by (simp_all add: satisfies_def resolve_frame_def)
    show "instance_free (container w2 c) i \<and> map_get (ct_resolving (container w2 c)) i = None" if "\<not> transient i"
      using free(2)[OF that] frame same by (simp add: instance_free_def resolve_frame_def same_resolving_def)
  qed
  then have "resolves_well w2 js (snd (start_resolution c i ps w2))"
    using start_frame assms(7) by (simp add: resolves_well_def)
  with resolves_well_mono[OF well, of js] show ?thesis by (auto simp: w2 intro: resolves_well_trans)
qed

lemma here_well:
  assumes "world_ok w" and "c < length (w_containers w)" and "\<not> ct_disposing (container w c)" and "i \<notin> set (rq_chain request)"
    and deps: "\<And>d opt w. world_ok w \<Longrightarrow> c < length (w_containers w) \<Longrightarrow> resolves_well w (insert i (set (rq_chain request))) (snd (f d opt w))"
  shows "resolves_well w (set (rq_chain request)) (snd (resolve_here f c i request w))"
proof -
  let ?ct = "container w c" and ?w1 = "update_container c (add_dependant i (rq_dependant request)) w"
  have edge: "resolves_well w js ?w1" for js
    unfolding resolves_well_def using add_dependant_ok[OF assms(1)] add_dependant_frame by blast
  have create: "resolves_well w (set (rq_chain request)) (snd (case createDependencyContext f ds ?w1 of (ps, w2) \<Rightarrow> start_resolution c i ps w2))"
    if "satisfies ?ct i" "\<not> transient i \<Longrightarrow> instance_free ?ct i \<and> map_get (ct_resolving ?ct) i = None" for ds
  proof (rule resolves_well_trans[OF edge create_well[OF _ _ _ _ _ deps assms(4)]])
    show "world_ok ?w1" "c < length (w_containers ?w1)" using edge[of "{}"] assms(2) by (simp_all add: resolves_well_def)
  qed (use that assms(2,3) in \<open>auto simp: container_update satisfies_def instance_free_def\<close>)
  consider (cached) handle rest where "\<not> transient i" "map_get (ct_instances ?ct) i = Some (handle # rest)"
    | (flying) t where "\<not> transient i" "instance_free ?ct i" "map_get (ct_resolving ?ct) i = Some t"
    | (missing) "\<not> transient i \<Longrightarrow> instance_free ?ct i \<and> map_get (ct_resolving ?ct) i = None"
    by (metis instance_free_def neq_Nil_conv option.exhaust)
  then show ?thesis
  proof cases
    case cached
    with edge show ?thesis by (simp add: resolve_here_def Let_def)
  next
    case flying
    with edge show ?thesis by (auto simp: resolve_here_def Let_def instance_free_def)
  next
    case missing
    then have "(if transient i then None else map_get (ct_resolving ?ct) i) = None"
        "(if transient i then None else map_get (ct_instances ?ct) i) \<in> {None, Some []}" by (auto simp: instance_free_def)
    then have "resolve_here f c i request w = (case i of
          FactoryInjectable _ _ _ _ ds \<Rightarrow>
            if \<not> satisfies ?ct i then (Rejected (ScopeStricterThanContainer i (ct_scope ?ct) (rq_chain request)), ?w1)
            else (case createDependencyContext f ds ?w1 of (ps, w2) \<Rightarrow> start_resolution c i ps w2)
        | _ \<Rightarrow> if rq_optional request then (Fulfilled None, ?w1) else (Rejected (NoInstanceProvided i (rq_chain request)), ?w1))"
      unfolding resolve_here_def Let_def by (elim insertE emptyE) (simp_all only: option.case list.case)
    with edge create[OF _ missing] show ?thesis by (cases i) simp_all
  qed
qed

lemma resolve_well:
  assumes "world_ok w" and "c < length (w_containers w)"
  shows "resolves_well w (set (rq_chain request)) (snd (resolveInjectable depth c i request w))"
  using assms
proof (induction depth arbitrary: c i request w)
  case 0
  then show ?case by (simp add: resolves_well_refl)
next
  case (Suc depth)
  have refl: "resolves_well w js w" for js by (rule resolves_well_refl[OF Suc.prems(1)])
  have aliased: "resolves_well w (set (rq_chain request)) (snd (resolveInjectable depth c target (request\<lparr>rq_chain := rq_chain request @ [i]\<rparr>) w))" for target
    by (rule resolves_well_mono[OF Suc.IH[OF Suc.prems]]) auto
  have parent: "resolves_well w (set (rq_chain request)) (snd (resolveInjectable depth p i request w))" if "delegate w c i = Some p" for p
  proof (rule Suc.IH[OF Suc.prems(1)])
    have "container_ok w c" using Suc.prems by (simp add: world_ok_def)
    moreover have "ct_parent (container w c) = Some p" using that by (auto simp: delegate_def split: option.splits if_splits)
    ultimately show "p < length (w_containers w)" using container_okD(1) Suc.prems(2) less_trans by blast
  qed
  have here: "resolves_well w (set (rq_chain request)) (snd (resolve_here (\<lambda>d opt. resolveInjectable depth c d
        \<lparr>rq_dependant = Some i, rq_optional = opt, rq_chain = rq_chain request @ [i]\<rparr>) c i request w))"
    if "\<not> ct_disposing (container w c)" "i \<notin> set (rq_chain request)"
    using Suc.IH[where request = "\<lparr>rq_dependant = Some i, rq_optional = _, rq_chain = rq_chain request @ [i]\<rparr>"]
    by (intro here_well[OF Suc.prems that]) simp
  show ?case
    using refl aliased parent here
    by (simp del: contains.simps split: option.split ProvisionEntry.split)
qed

lemma well_ok: "resolves_well w js w' \<Longrightarrow> world_ok w'"
  by (simp add: resolves_well_def)

lemma create_context_well:
  "world_ok w \<Longrightarrow> c < length (w_containers w) \<Longrightarrow> resolves_well w {} (snd (createContext depth c deps w))"
  unfolding createContext_def by (rule context_well[where c = c]) (auto intro: resolves_well_mono[OF resolve_well])

lemma preload_well:
  "world_ok w \<Longrightarrow> c < length (w_containers w) \<Longrightarrow>
   resolves_well w {} (foldl (\<lambda>w (i, opt). snd (resolveInjectable depth c i (no_request\<lparr>rq_optional := opt\<rparr>) w)) w entries)"
proof (induction entries arbitrary: w)
  case Nil
  then show ?case by (simp add: resolves_well_refl)
next
  case (Cons entry entries)
  obtain i opt where entry: "entry = (i, opt)" by (cases entry)
  let ?w = "snd (resolveInjectable depth c i (no_request\<lparr>rq_optional := opt\<rparr>) w)"
  have step: "resolves_well w {} ?w" using resolves_well_mono[OF resolve_well[OF Cons.prems]] by blast
  with Cons.IH[of ?w] Cons.prems(2) resolves_well_length[OF step] show ?case
    by (auto simp: entry well_ok intro: resolves_well_trans[OF step])
qed

lemma initialize_well: "world_ok w \<Longrightarrow> c < length (w_containers w) \<Longrightarrow> resolves_well w {} (initialize depth c dependants w)"
  by (simp add: initialize_def preload_well)

lemma find_container_valid: "world_ok w \<Longrightarrow> c < length (w_containers w) \<Longrightarrow> find_container w c scope = Some c' \<Longrightarrow> c' < length (w_containers w)"
proof (induction w c scope rule: find_container.induct)
  case (1 w c scope)
  from "1.prems"(3) have "(if ct_scope (container w c) = scope then Some c
      else case ct_parent (container w c) of None \<Rightarrow> None | Some p \<Rightarrow> if p < c then find_container w p scope else None) = Some c'"
    by (subst (asm) find_container.simps)
  with "1.IH" "1.prems"(1,2) show ?case by (auto split: if_splits option.splits)
qed

lemma inject_well:
  assumes "world_ok w" and "c < length (w_containers w)" and "inject depth c i args scope w = Some (p, w')"
  shows "resolves_well w {} w'"
proof -
  obtain target deps n where target: "find_container w c scope = Some target"
      and w': "resolve depth target (transient_clone (Made n) deps i) (w\<lparr>w_made := Suc n\<rparr>) = (p, w')"
    using assms(3) by (auto simp: inject_def Let_def split: option.splits prod.splits)
  have "target < length (w_containers w)" by (rule find_container_valid[OF assms(1,2) target])
  moreover have made: "world_ok (w\<lparr>w_made := Suc n\<rparr>)" by (rule world_ok_cong[OF assms(1)]) (simp_all add: container_def same_entries_def)
  ultimately have "resolves_well (w\<lparr>w_made := Suc n\<rparr>) {} w'"
    using resolves_well_mono[OF resolve_well[OF made, of target no_request depth "transient_clone (Made n) deps i"]] w'
    by (simp add: resolve_def)
  moreover have "resolves_well w {} (w\<lparr>w_made := Suc n\<rparr>)"
    using made by (simp add: resolves_well_def resolve_frame_def same_resolving_def container_def)
  ultimately show ?thesis using resolves_well_trans by blast
qed

section \<open>Provisions and forks\<close>

lemma provisions_ok:
  "world_ok w \<Longrightarrow> world_ok (update_container c (\<lambda>ct. ct\<lparr>ct_provisions := f ct\<rparr>) w)"
  by (erule world_ok_cong) (simp_all add: container_update same_entries_def)

lemma container_fork: "c' < length (w_containers w) \<Longrightarrow> container (fork c scope a b w) c' = container w c'"
  by (simp add: container_def fork_def nth_append)

lemma fork_ok:
  assumes "world_ok w" and "c < length (w_containers w)"
  shows "world_ok (fork c scope a b w)"
proof -
  let ?w = "fork c scope a b w" and ?n = "length (w_containers w)"
  have len: "length (w_containers ?w) = Suc ?n" and rest: "w_resolutions ?w = w_resolutions w" "w_disposals ?w = w_disposals w"
    by (simp_all add: fork_def)
  have new: "container ?w ?n = new_container scope (Some c) a b" by (simp add: container_def fork_def)
  have "resolution_ok ?w t" if "t < length (w_resolutions ?w)" for t
  proof -
    have "resolution_ok w t" using that assms(1) rest by (simp add: world_ok_def)
    moreover from this have "rs_container (w_resolutions w ! t) < ?n" by (simp add: resolution_ok_def Let_def)
    ultimately show ?thesis by (simp add: resolution_ok_def Let_def rest len container_fork)
  qed
  moreover have "container_ok ?w c'" if "c' < length (w_containers ?w)" for c'
  proof (cases "c' = ?n")
    case True
    show ?thesis unfolding True by (rule container_okI) (use assms(2) in \<open>simp_all add: new new_container_def\<close>)
  next
    case False
    then have "c' < ?n" using that len by simp
    with assms(1) show ?thesis by (simp add: world_ok_def container_ok_def container_fork rest)
  qed
  moreover have "disposals_ok ?w"
    using assms(1) unfolding world_ok_def disposals_ok_def rest len by (metis container_fork less_SucI)
  ultimately show ?thesis by (simp add: world_ok_def)
qed

section \<open>Disposal\<close>

text \<open>A change that only takes instances away.\<close>

definition fewer_instances :: "Container \<Rightarrow> Container \<Rightarrow> bool" where
  "fewer_instances ct ct' \<longleftrightarrow> ct_scope ct' = ct_scope ct \<and> ct_parent ct' = ct_parent ct \<and> ct_disposing ct' = ct_disposing ct
     \<and> ct_resolving ct' = ct_resolving ct \<and> ct_pending ct' = ct_pending ct \<and> wf_map (ct_instances ct')
     \<and> (\<forall>i hs'. map_get (ct_instances ct') i = Some hs' \<longrightarrow>
          (\<exists>hs. map_get (ct_instances ct) i = Some hs \<and> set hs' \<subseteq> set hs \<and> length hs' \<le> length hs))"

lemma fewer_free: "fewer_instances ct ct' \<Longrightarrow> instance_free ct i \<Longrightarrow> instance_free ct' i"
  unfolding fewer_instances_def instance_free_def by (metis length_0_conv le_zero_eq option.distinct(1) option.exhaust option.inject)

lemma fewer_ok:
  assumes ok: "world_ok w" and few: "fewer_instances (container w c) (f (container w c))"
  shows "world_ok (update_container c f w)"
proof (cases "c < length (w_containers w)")
  case True
  let ?w = "update_container c f w"
  have same: "ct_scope (container ?w c') = ct_scope (container w c')" "ct_parent (container ?w c') = ct_parent (container w c')"
      "ct_disposing (container ?w c') = ct_disposing (container w c')" "ct_resolving (container ?w c') = ct_resolving (container w c')"
      "ct_pending (container ?w c') = ct_pending (container w c')" for c'
    using few by (auto simp: container_update fewer_instances_def)
  have free: "instance_free (container w c') i \<Longrightarrow> instance_free (container ?w c') i" for c' i
    using fewer_free[OF few] by (auto simp: container_update)
  have "resolution_ok ?w t" if "t < length (w_resolutions ?w)" for t
  proof -
    have "resolution_ok w t" using that ok by (simp add: world_ok_def)
    then show ?thesis using free by (simp add: resolution_ok_def Let_def same satisfies_def)
  qed
  moreover have "container_ok ?w c'" if "c' < length (w_containers ?w)" for c'
  proof -
    have old: "container_ok w c'" using that ok by (simp add: world_ok_def)
    show ?thesis
    proof (cases "c' = c")
      case False
      with old show ?thesis by (simp add: container_ok_def container_update)
    next
      case eq: True
      show ?thesis unfolding eq
      proof (rule container_okI)
        show "wf_map (ct_instances (container ?w c))" using few True by (simp add: container_update fewer_instances_def)
        show "satisfies (container ?w c) i \<and> (\<forall>h\<in>set hs. ih_injectable h = i) \<and> (\<not> transient i \<longrightarrow> length hs \<le> 1)"
          if "map_get (ct_instances (container ?w c)) i = Some hs" for i hs
        proof -
          have "container ?w c = f (container w c)" using True by (simp add: container_update)
          with that obtain hs0 where "map_get (ct_instances (container w c)) i = Some hs0" "set hs \<subseteq> set hs0" "length hs \<le> length hs0"
            using few unfolding fewer_instances_def by metis
          with container_okD(4)[OF old[unfolded eq], of i hs0] show ?thesis by (auto simp: satisfies_def same)
        qed
      qed (use container_okD(1,3)[OF old[unfolded eq]] same in auto)
    qed
  qed
  moreover have "disposals_ok ?w" using ok same unfolding world_ok_def disposals_ok_def by simp
  ultimately show ?thesis by (simp add: world_ok_def)
next
  case False
  then show ?thesis using ok by (simp add: update_container_def list_update_beyond not_less)
qed

lemma transients_ok: "world_ok w \<Longrightarrow> world_ok (update_container c (\<lambda>ct. ct\<lparr>ct_transientHandles := f ct\<rparr>) w)"
  by (erule world_ok_cong) (simp_all add: container_update same_entries_def)

lemma disposed_ok: "world_ok w \<Longrightarrow> world_ok (w\<lparr>w_disposed := ds\<rparr>)"
  by (erule world_ok_cong) (simp_all add: container_def same_entries_def)

lemma disposeHandle_ok: "world_ok w \<Longrightarrow> world_ok (disposeHandle c h w)"
  by (simp add: disposeHandle_def Let_def transients_ok disposed_ok)

lemma dispose_handles_ok: "world_ok w \<Longrightarrow> world_ok (dispose_handles c hs w)"
  unfolding dispose_handles_def by (induction hs arbitrary: w) (simp_all add: disposeHandle_ok)

lemma forget_instances_fewer: "wf_map (ct_instances ct) \<Longrightarrow> fewer_instances ct (forget_instances i ct)"
  by (auto simp: fewer_instances_def forget_instances_def)

lemma forget_handle_fewer: "wf_map (ct_instances ct) \<Longrightarrow> fewer_instances ct (forget_handle h ct)"
proof (cases "map_get (ct_instances ct) (ih_injectable h)")
  case None
  then show "wf_map (ct_instances ct) \<Longrightarrow> fewer_instances ct (forget_handle h ct)"
    by (simp add: forget_handle_def fewer_instances_def)
next
  case (Some hs)
  have "set (remove1 h hs) \<subseteq> set hs" "length (remove1 h hs) \<le> length hs" by (auto simp: set_remove1_subset length_remove1)
  with Some forget_instances_fewer[of ct "ih_injectable h"]
  show "wf_map (ct_instances ct) \<Longrightarrow> fewer_instances ct (forget_handle h ct)"
    by (simp add: forget_handle_def Let_def) (auto simp: fewer_instances_def)
qed

text \<open>A change of the disposals alone.\<close>

lemma disposals_change:
  assumes "world_ok w" and "disposals_ok (w\<lparr>w_disposals := ds\<rparr>)"
  shows "world_ok (w\<lparr>w_disposals := ds\<rparr>)"
  using assms by (simp add: world_ok_def resolution_ok_def container_ok_def container_def)

lemma begin_ok:
  assumes "world_ok w" and "c < length (w_containers w)"
    and "whole d \<Longrightarrow> d = DrainResolutions \<and> ct_disposing (container w c)
      \<and> (\<forall>k < length (w_disposals w). \<forall>d'. w_disposals w ! k = (c, d') \<longrightarrow> \<not> whole d')"
  shows "world_ok (begin_disposal c d w)"
  unfolding begin_disposal_def
proof (rule disposals_change[OF assms(1)])
  have old: "disposals_ok w" using assms(1) by (simp add: world_ok_def)
  show "disposals_ok (w\<lparr>w_disposals := w_disposals w @ [(c, d)]\<rparr>)"
    unfolding disposals_ok_def
  proof (intro conjI allI impI)
    fix k c' d'
    assume k: "k < length (w_disposals (w\<lparr>w_disposals := w_disposals w @ [(c, d)]\<rparr>))"
      "w_disposals (w\<lparr>w_disposals := w_disposals w @ [(c, d)]\<rparr>) ! k = (c', d')"
    show "c' < length (w_containers (w\<lparr>w_disposals := w_disposals w @ [(c, d)]\<rparr>))"
      using k old assms(2) by (cases "k < length (w_disposals w)") (auto simp: disposals_ok_def nth_append)
    assume "whole d'"
    then show "ct_disposing (container (w\<lparr>w_disposals := w_disposals w @ [(c, d)]\<rparr>) c')"
      and "d' \<noteq> DrainResolutions \<Longrightarrow> ct_pending (container (w\<lparr>w_disposals := w_disposals w @ [(c, d)]\<rparr>) c') = []"
      using k old assms(3) by (cases "k < length (w_disposals w)", auto simp: disposals_ok_def nth_append container_def)+
  next
    fix k k' c' e e'
    assume "k < length (w_disposals (w\<lparr>w_disposals := w_disposals w @ [(c, d)]\<rparr>))"
      "k' < length (w_disposals (w\<lparr>w_disposals := w_disposals w @ [(c, d)]\<rparr>))"
      "w_disposals (w\<lparr>w_disposals := w_disposals w @ [(c, d)]\<rparr>) ! k = (c', e)"
      "w_disposals (w\<lparr>w_disposals := w_disposals w @ [(c, d)]\<rparr>) ! k' = (c', e')" "whole e" "whole e'"
    then show "k = k'" using old assms(3)
      by (cases "k < length (w_disposals w)"; cases "k' < length (w_disposals w)") (auto simp: disposals_ok_def nth_append less_Suc_eq)
  qed
qed

text \<open>A disposal goes on: it is whole only if it was, and past the drain only with nothing pending.\<close>

lemma advance_ok:
  assumes "world_ok w" and "k < length (w_disposals w)" and "w_disposals w ! k = (c, d)"
    and "whole d' \<Longrightarrow> whole d" and "whole d' \<Longrightarrow> d' \<noteq> DrainResolutions \<Longrightarrow> d = DrainResolutions \<Longrightarrow> ct_pending (container w c) = []"
  shows "world_ok (set_disposal k d' w)"
  unfolding set_disposal_def
proof (rule disposals_change[OF assms(1)])
  let ?ds = "(w_disposals w)[k := (fst (w_disposals w ! k), d')]"
  have old: "disposals_ok w" using assms(1) by (simp add: world_ok_def)
  show "disposals_ok (w\<lparr>w_disposals := ?ds\<rparr>)"
    unfolding disposals_ok_def
  proof (intro conjI allI impI)
    fix j c' e
    assume j: "j < length (w_disposals (w\<lparr>w_disposals := ?ds\<rparr>))" "w_disposals (w\<lparr>w_disposals := ?ds\<rparr>) ! j = (c', e)"
    then show "c' < length (w_containers (w\<lparr>w_disposals := ?ds\<rparr>))"
      using old assms(2,3) by (auto simp: disposals_ok_def nth_list_update split: if_splits)
    assume "whole e"
    with j show "ct_disposing (container (w\<lparr>w_disposals := ?ds\<rparr>) c')"
      and "e \<noteq> DrainResolutions \<Longrightarrow> ct_pending (container (w\<lparr>w_disposals := ?ds\<rparr>) c') = []"
      using old assms(2-) by (auto simp: disposals_ok_def nth_list_update container_def split: if_splits)
  next
    fix j j' c' e e'
    assume "j < length (w_disposals (w\<lparr>w_disposals := ?ds\<rparr>))" "j' < length (w_disposals (w\<lparr>w_disposals := ?ds\<rparr>))"
      "w_disposals (w\<lparr>w_disposals := ?ds\<rparr>) ! j = (c', e)" "w_disposals (w\<lparr>w_disposals := ?ds\<rparr>) ! j' = (c', e')" "whole e" "whole e'"
    then show "j = j'" using old assms(2-4) by (auto simp: disposals_ok_def nth_list_update split: if_splits)
  qed
qed

lemma whole_simps [simp]:
  "whole DrainResolutions" "whole (DisposeInjectables b is) \<longleftrightarrow> b" "whole (AwaitInjectable b i is) \<longleftrightarrow> b"
  "\<not> whole (DisposeTransients hs)" "\<not> whole (AwaitTransient h hs)" "\<not> whole DisposalOver"
  by (auto simp: whole_def)

lemma disposals_okD:
  assumes "world_ok w" and "k < length (w_disposals w)" and "w_disposals w ! k = (c, d)"
  shows "c < length (w_containers w)" and "whole d \<Longrightarrow> ct_disposing (container w c)"
    and "whole d \<Longrightarrow> d \<noteq> DrainResolutions \<Longrightarrow> ct_pending (container w c) = []"
    and "whole d \<Longrightarrow> k' < length (w_disposals w) \<Longrightarrow> w_disposals w ! k' = (c, d') \<Longrightarrow> whole d' \<Longrightarrow> k' = k"
  using assms unfolding world_ok_def disposals_ok_def by blast+

text \<open>The end of the disposal of a container: nothing is in flight, so nothing is forgotten.\<close>

lemma nothing_in_flight:
  assumes "world_ok w" and "ct_pending (container w c) = []" and "t < length (w_resolutions w)" and "rs_container (w_resolutions w ! t) = c"
  shows "resolution_over (w_resolutions w ! t)"
  using assms by (auto simp: world_ok_def resolution_ok_def Let_def)

lemma clear_ok:
  assumes ok: "world_ok w" and c: "c < length (w_containers w)" and pending: "ct_pending (container w c) = []"
    and over: "\<And>k d. k < length (w_disposals w) \<Longrightarrow> w_disposals w ! k = (c, d) \<Longrightarrow> \<not> whole d"
  shows "world_ok (update_container c clear_container w)"
proof -
  let ?w = "update_container c clear_container w"
  have ct: "container ?w c' = (if c' = c then clear_container (container w c) else container w c')" for c'
    using c by (simp add: container_update)
  have "resolution_ok ?w t" if "t < length (w_resolutions ?w)" for t
  proof -
    have t: "t < length (w_resolutions w)" using that by simp
    then have "resolution_ok w t" using ok by (simp add: world_ok_def)
    with nothing_in_flight[OF ok pending t] show ?thesis
      by (auto simp: resolution_ok_def Let_def ct clear_container_def satisfies_def under_way_def)
  qed
  moreover have "container_ok ?w c'" if "c' < length (w_containers ?w)" for c'
  proof -
    have old: "container_ok w c'" using that ok by (simp add: world_ok_def)
    show ?thesis
    proof (cases "c' = c")
      case True
      with container_okD(1)[OF old] show ?thesis by (intro container_okI) (simp_all add: ct clear_container_def)
    next
      case False
      with old show ?thesis by (simp add: container_ok_def ct)
    qed
  qed
  moreover have "disposals_ok ?w"
    unfolding disposals_ok_def
  proof (intro conjI allI impI)
    fix k c' d
    assume k: "k < length (w_disposals ?w)" "w_disposals ?w ! k = (c', d)"
    then have k': "k < length (w_disposals w)" "w_disposals w ! k = (c', d)" by simp_all
    show "c' < length (w_containers ?w)" using disposals_okD(1)[OF ok k'] by simp
    assume "whole d"
    with over[of k d] k' have "c' \<noteq> c" by auto
    with disposals_okD(2,3)[OF ok k' \<open>whole d\<close>] show "ct_disposing (container ?w c')"
      and "d \<noteq> DrainResolutions \<Longrightarrow> ct_pending (container ?w c') = []" by (simp_all add: ct)
  next
    fix k k' c' d d'
    assume "k < length (w_disposals ?w)" "k' < length (w_disposals ?w)" "w_disposals ?w ! k = (c', d)"
      "w_disposals ?w ! k' = (c', d')" "whole d" "whole d'"
    then show "k = k'" using disposals_okD(4)[OF ok, of k c' d k' d'] by simp
  qed
  ultimately show ?thesis by (simp add: world_ok_def)
qed

lemma set_disposal_fields [simp]:
  "w_containers (set_disposal k d w) = w_containers w" "container (set_disposal k d w) c = container w c"
  "length (w_disposals (set_disposal k d w)) = length (w_disposals w)"
  "update_container c f (set_disposal k d w) = set_disposal k d (update_container c f w)"
  by (simp_all add: set_disposal_def container_def update_container_def)

lemma disposal_frames [simp]:
  "w_disposals (disposeHandle c h w) = w_disposals w" "w_disposals (dispose_handles c hs w) = w_disposals w"
  "ct_pending (container (disposeHandle c h w) c') = ct_pending (container w c')"
proof -
  show handle: "w_disposals (disposeHandle c h w) = w_disposals w" for c h w
    by (simp add: disposeHandle_def Let_def)
  have "w_disposals (foldl (\<lambda>w h. disposeHandle c h w) w hs) = w_disposals w" for hs w
    by (induction hs arbitrary: w) (simp_all add: handle)
  then show "w_disposals (dispose_handles c hs w) = w_disposals w" by (simp add: dispose_handles_def)
  show "ct_pending (container (disposeHandle c h w) c') = ct_pending (container w c')"
    by (auto simp: disposeHandle_def Let_def container_update container_def[of "_\<lparr>w_disposed := _\<rparr>"] simp flip: container_def)
qed

lemma finish_ok:
  assumes "world_ok w" and "k < length (w_disposals w)" and "w_disposals w ! k = (c, DisposeInjectables True [])"
  shows "world_ok (set_disposal k DisposalOver (update_container c clear_container w))"
proof -
  let ?w = "set_disposal k DisposalOver w"
  have "world_ok ?w" by (rule advance_ok[OF assms]) simp_all
  moreover have "\<not> whole d" if k': "k' < length (w_disposals ?w)" "w_disposals ?w ! k' = (c, d)" for k' d
  proof (cases "k' = k")
    case True
    with k'(2) assms(2) have "d = DisposalOver" by (simp add: set_disposal_def)
    then show ?thesis by simp
  next
    case False
    with k' have "k' < length (w_disposals w)" "w_disposals w ! k' = (c, d)" by (simp_all add: set_disposal_def)
    with False disposals_okD(4)[OF assms, of k' d] show ?thesis by auto
  qed
  ultimately have "world_ok (update_container c clear_container ?w)"
    using disposals_okD(1,3)[OF assms] by (intro clear_ok) simp_all
  then show ?thesis by simp
qed

lemma disposal_step_ok:
  assumes ok: "world_ok w" and k: "k < length (w_disposals w)" and step: "disposal_step k w = Some w'"
  shows "world_ok w'"
proof -
  obtain c d where d: "w_disposals w ! k = (c, d)" by (cases "w_disposals w ! k")
  note advance = advance_ok[OF ok k d]
  have wf: "wf_map (ct_instances (container w c))"
    using container_okD(2) ok disposals_okD(1)[OF ok k d] by (simp add: world_ok_def)
  show ?thesis
  proof (cases d)
    case DrainResolutions
    then have "w' = set_disposal k (DisposeInjectables True (getDisposalOrder (container w c))) w" "ct_pending (container w c) = []"
      using step d by (auto simp: disposal_step_def split: if_splits)
    then show ?thesis using DrainResolutions by (simp add: advance)
  next
    case (DisposeInjectables b order)
    show ?thesis
    proof (cases order)
      case Nil
      then show ?thesis using step d DisposeInjectables finish_ok[OF ok k] advance[of DisposalOver]
        by (cases b) (simp_all add: disposal_step_def)
    next
      case (Cons i rest)
      show ?thesis
      proof (cases "map_get (ct_instances (container w c)) i")
        case None
        then have "w' = set_disposal k (DisposeInjectables b rest) w"
          using step d DisposeInjectables Cons by (simp add: disposal_step_def split: bool.splits)
        with DisposeInjectables show ?thesis using advance[of "DisposeInjectables b rest"] by simp
      next
        case (Some handles)
        then have w': "w' = set_disposal k (AwaitInjectable b i rest) (dispose_handles c handles w)"
          using step d DisposeInjectables Cons by (simp add: disposal_step_def split: bool.splits)
        show ?thesis unfolding w'
          by (rule advance_ok[OF dispose_handles_ok[OF ok], where c = c and d = d]) (use k d DisposeInjectables in simp_all)
      qed
    qed
  next
    case (AwaitInjectable b i rest)
    then have w': "w' = set_disposal k (DisposeInjectables b rest) (update_container c (forget_instances i) w)"
      using step d by (simp add: disposal_step_def)
    show ?thesis unfolding w'
      by (rule advance_ok[OF fewer_ok[where c = c and f = "forget_instances i", OF ok forget_instances_fewer[OF wf]], where c = c and d = d])
        (use k d AwaitInjectable in simp_all)
  next
    case (DisposeTransients hs)
    show ?thesis
    proof (cases hs)
      case Nil
      then show ?thesis using step d DisposeTransients advance[of DisposalOver] by (simp add: disposal_step_def)
    next
      case (Cons h rest)
      then have w': "w' = set_disposal k (AwaitTransient h rest) (disposeHandle c h w)"
        using step d DisposeTransients by (simp add: disposal_step_def)
      show ?thesis unfolding w' by (rule advance_ok[OF disposeHandle_ok[OF ok]]) (use k d in simp_all)
    qed
  next
    case (AwaitTransient h rest)
    then have w': "w' = set_disposal k (DisposeTransients rest) (update_container c (forget_handle h) w)"
      using step d by (simp add: disposal_step_def)
    show ?thesis unfolding w'
      by (rule advance_ok[OF fewer_ok[where c = c and f = "forget_handle h", OF ok forget_handle_fewer[OF wf]], where c = c and d = d]) (use k d in simp_all)
  next
    case DisposalOver
    then show ?thesis using step d by (simp add: disposal_step_def)
  qed
qed

lemma disposal_failure_ok:
  assumes "world_ok w" and "k < length (w_disposals w)" and "disposal_failure k w = Some w'"
  shows "world_ok w'"
  using assms advance_ok[OF assms(1,2) surjective_pairing, of DisposalOver]
  by (auto simp: disposal_failure_def split: disposal.splits)

lemma dispose_ok:
  assumes "world_ok w" and "c < length (w_containers w)" and "\<not> ct_disposing (container w c)"
  shows "world_ok (dispose c w)"
proof -
  let ?w = "update_container c (\<lambda>ct. ct\<lparr>ct_disposing := True\<rparr>) w"
  have none: "\<not> whole d" if "k < length (w_disposals w)" "w_disposals w ! k = (c, d)" for k d
    using disposals_okD(2)[OF assms(1) that] assms(3) by blast
  have "(\<forall>t < length (w_resolutions ?w). resolution_ok ?w t) \<and> (\<forall>c' < length (w_containers ?w). container_ok ?w c')"
    by (rule rows_cong[OF assms(1)]) (simp_all add: container_update same_entries_def)
  moreover have "disposals_ok ?w"
    using assms(1) unfolding world_ok_def disposals_ok_def by (auto simp: container_update)
  ultimately have "world_ok ?w" by (simp add: world_ok_def)
  then show ?thesis unfolding dispose_def by (rule begin_ok) (use assms(2) none in \<open>auto simp: container_update\<close>)
qed

section \<open>Resolutions\<close>

lemma set_state_fields [simp]:
  "w_containers (set_state t st w) = w_containers w" "container (set_state t st w) c = container w c"
  "w_disposals (set_state t st w) = w_disposals w" "length (w_resolutions (set_state t st w)) = length (w_resolutions w)"
  by (simp_all add: set_state_def container_def)

lemma set_state_nth:
  "t < length (w_resolutions w) \<Longrightarrow>
   w_resolutions (set_state t st w) ! u = (if u = t then (w_resolutions w ! t)\<lparr>rs_state := st\<rparr> else w_resolutions w ! u)"
  by (simp add: set_state_def nth_list_update)

lemma set_state_ok:
  assumes "world_ok w" and "t < length (w_resolutions w)" and "\<not> resolution_over (w_resolutions w ! t)" and "\<nexists>x. st = ResolutionOver x"
    and "(\<nexists>x. st = ResolutionSettled x) \<Longrightarrow> under_way (w_resolutions w ! t)"
  shows "world_ok (set_state t st w)"
proof -
  let ?w = "set_state t st w"
  note nth = set_state_nth[OF assms(2)]
  have "resolution_ok ?w u" if "u < length (w_resolutions ?w)" for u
  proof -
    have "resolution_ok w u" using that assms(1) by (simp add: world_ok_def)
    then show ?thesis using assms(3-) by (auto simp: resolution_ok_def Let_def nth resolution_over_def under_way_def)
  qed
  moreover have "container_ok ?w c" if "c < length (w_containers ?w)" for c
  proof -
    have "container_ok w c" using that assms(1) by (simp add: world_ok_def)
    then show ?thesis using assms(3,4) by (auto simp: container_ok_def Let_def nth resolution_over_def)
  qed
  moreover have "disposals_ok ?w" using assms(1) by (simp add: world_ok_def disposals_ok_def)
  ultimately show ?thesis by (simp add: world_ok_def)
qed

text \<open>A factory has returned: the instance is registered where there was none.\<close>

lemma register_fields [simp]:
  "ct_scope (register_instance h ct) = ct_scope ct" "ct_parent (register_instance h ct) = ct_parent ct"
  "ct_disposing (register_instance h ct) = ct_disposing ct" "ct_resolving (register_instance h ct) = ct_resolving ct"
  "ct_pending (register_instance h ct) = ct_pending ct"
  by (simp_all add: register_instance_def Let_def)

lemma register_instances:
  "ct_instances (register_instance h ct) =
     (if \<not> transient (ih_injectable h) \<or> isDisposable (ih_injectable h)
      then map_set (ih_injectable h) ((case map_get (ct_instances ct) (ih_injectable h) of None \<Rightarrow> [] | Some hs \<Rightarrow> hs) @ [h]) (ct_instances ct)
      else ct_instances ct)"
  by (simp add: register_instance_def Let_def)

lemma register_ok:
  assumes ok: "world_ok w" and t: "t < length (w_resolutions w)" and under: "under_way (w_resolutions w ! t)"
    and c: "rs_container (w_resolutions w ! t) = c" and h: "ih_injectable h = rs_injectable (w_resolutions w ! t)"
  shows "world_ok (update_container c (register_instance h) (set_state t (ResolutionSettled (Inr v)) w))"
proof -
  let ?v = "set_state t (ResolutionSettled (Inr v)) w" and ?i = "rs_injectable (w_resolutions w ! t)"
  let ?w = "update_container c (register_instance h) ?v"
  have row: "resolution_ok w t" using ok t by (simp add: world_ok_def)
  have clen: "c < length (w_containers w)" and sat: "satisfies (container w c) ?i"
    and free: "\<not> transient ?i \<Longrightarrow> instance_free (container w c) ?i"
    and listed: "\<not> transient ?i \<Longrightarrow> map_get (ct_resolving (container w c)) ?i = Some t"
    using row under c by (simp_all add: resolution_ok_def Let_def under_way_def)
  have ok_v: "world_ok ?v" using ok t under by (intro set_state_ok) (auto simp: under_way_def)
  have ct: "container ?w c' = (if c' = c then register_instance h (container w c) else container w c')" for c'
    using clen by (simp add: container_update)
  have "resolution_ok ?w u" if "u < length (w_resolutions ?w)" for u
  proof -
    have "resolution_ok ?v u" using that ok_v by (simp add: world_ok_def)
    moreover have "rs_injectable (w_resolutions ?v ! u) \<noteq> ?i"
      if "rs_container (w_resolutions ?v ! u) = c" "under_way (w_resolutions ?v ! u)" "\<not> transient (rs_injectable (w_resolutions ?v ! u))"
    proof
      assume same: "rs_injectable (w_resolutions ?v ! u) = ?i"
      with calculation that listed have "u = t" by (auto simp: resolution_ok_def Let_def under_way_def)
      with that(2) show False by (simp add: set_state_nth[OF t] under_way_def)
    qed
    ultimately show ?thesis
      by (auto simp: resolution_ok_def Let_def ct satisfies_def instance_free_def register_instances h)
  qed
  moreover have "container_ok ?w c'" if "c' < length (w_containers ?w)" for c'
  proof -
    have old: "container_ok ?v c'" using that ok_v by (simp add: world_ok_def)
    show ?thesis
    proof (cases "c' = c")
      case False
      with old show ?thesis by (simp add: container_ok_def ct)
    next
      case True
      note old = old[unfolded True, THEN container_okD(4)] old[unfolded True, THEN container_okD(1)]
        old[unfolded True, THEN container_okD(2)] old[unfolded True, THEN container_okD(3)]
      show ?thesis unfolding True
      proof (rule container_okI)
        show "satisfies (container ?w c) i \<and> (\<forall>h\<in>set hs. ih_injectable h = i) \<and> (\<not> transient i \<longrightarrow> length hs \<le> 1)"
          if "map_get (ct_instances (container ?w c)) i = Some hs" for i hs
        proof (cases "i = ?i \<and> (\<not> transient ?i \<or> isDisposable ?i)")
          case new: True
          with that have hs: "hs = (case map_get (ct_instances (container w c)) ?i of None \<Rightarrow> [] | Some hs \<Rightarrow> hs) @ [h]"
            by (simp add: ct register_instances h)
          have "\<forall>g \<in> set (case map_get (ct_instances (container w c)) ?i of None \<Rightarrow> [] | Some hs \<Rightarrow> hs). ih_injectable g = ?i"
            using old(1)[of ?i] by (cases "map_get (ct_instances (container w c)) ?i") simp_all
          then show ?thesis using new hs sat free h by (auto simp: ct satisfies_def instance_free_def)
        next
          case False
          then have "map_get (ct_instances (container w c)) i = Some hs" using that by (auto simp: ct register_instances h split: if_splits)
          with old(1)[of i hs] show ?thesis by (simp add: ct satisfies_def)
        qed
      qed (use old(2-) in \<open>auto simp: ct register_instances\<close>)
    qed
  qed
  moreover have "disposals_ok ?w" using ok unfolding world_ok_def disposals_ok_def by (auto simp: ct)
  ultimately show ?thesis by (simp add: world_ok_def)
qed


text \<open>The \<open>finally\<close> takes the resolution, and nothing else, off the lists.\<close>

lemma unlist_fields [simp]:
  "ct_scope (unlist_resolution t i ct) = ct_scope ct" "ct_parent (unlist_resolution t i ct) = ct_parent ct"
  "ct_disposing (unlist_resolution t i ct) = ct_disposing ct" "ct_instances (unlist_resolution t i ct) = ct_instances ct"
  "ct_resolving (unlist_resolution t i ct) = map_delete i (ct_resolving ct)"
  "ct_pending (unlist_resolution t i ct) = filter (\<lambda>u. u \<noteq> t) (ct_pending ct)"
  by (simp_all add: unlist_resolution_def)

lemma finally_ok:
  assumes ok: "world_ok w" and t: "t < length (w_resolutions w)" and live: "\<not> resolution_over (w_resolutions w ! t)"
    and c: "rs_container (w_resolutions w ! t) = c" and i: "rs_injectable (w_resolutions w ! t) = i"
  shows "world_ok (update_container c (unlist_resolution t i) (set_state t (ResolutionOver x) w))"
proof -
  let ?w = "update_container c (unlist_resolution t i) (set_state t (ResolutionOver x) w)"
  note nth = set_state_nth[OF t]
  have row: "resolution_ok w u" if "u < length (w_resolutions w)" for u using ok that by (simp add: world_ok_def)
  have clen: "c < length (w_containers w)" using row[OF t] c by (simp add: resolution_ok_def Let_def)
  have ct: "container ?w c' = (if c' = c then unlist_resolution t i (container w c) else container w c')" for c'
    using clen by (simp add: container_update)
  have listed: "u = t" if "map_get (ct_resolving (container w c)) i = Some u" for u
  proof -
    have "\<not> transient i" using container_okD(3)[of w c i u] that ok clen by (simp add: world_ok_def)
    with row[OF t] live c i that show "u = t" by (simp add: resolution_ok_def Let_def)
  qed
  have "resolution_ok ?w u" if u: "u < length (w_resolutions ?w)" for u
  proof (cases "u = t")
    case True
    with row[OF t] c i show ?thesis
      by (simp add: resolution_ok_def Let_def nth ct clen satisfies_def resolution_over_def under_way_def)
  next
    case False
    have old: "resolution_ok w u" using row u by simp
    have "rs_injectable (w_resolutions w ! u) \<noteq> i"
      if "rs_container (w_resolutions w ! u) = c" "\<not> resolution_over (w_resolutions w ! u)" "\<not> transient (rs_injectable (w_resolutions w ! u))"
      using old that False listed[of u] by (auto simp: resolution_ok_def Let_def)
    with old False show ?thesis
      by (auto simp: resolution_ok_def Let_def nth ct satisfies_def instance_free_def)
  qed
  moreover have "container_ok ?w c'" if c': "c' < length (w_containers ?w)" for c'
  proof -
    have old: "container_ok w c'" using c' ok by (simp add: world_ok_def)
    show ?thesis
    proof (rule container_okI)
      fix j u
      assume "map_get (ct_resolving (container ?w c')) j = Some u"
      then have new: "map_get (ct_resolving (container w c')) j = Some u" "c' = c \<Longrightarrow> j \<noteq> i" by (auto simp: ct split: if_splits)
      note res = container_okD(3)[OF old new(1)]
      have "u \<noteq> t" using res new(2) c i by auto
      with res show "u < length (w_resolutions ?w) \<and> \<not> resolution_over (w_resolutions ?w ! u)
        \<and> rs_container (w_resolutions ?w ! u) = c' \<and> rs_injectable (w_resolutions ?w ! u) = j \<and> \<not> transient j"
        by (simp add: nth)
    qed (use old in \<open>auto simp: container_ok_def Let_def ct satisfies_def split: if_splits\<close>)
  qed
  moreover have "disposals_ok ?w" using ok unfolding world_ok_def disposals_ok_def by (auto simp: ct)
  ultimately show ?thesis by (simp add: world_ok_def)
qed

lemma resolution_step_ok:
  assumes ok: "world_ok w" and step: "resolution_step ev t w = Some w'"
  shows "world_ok w'"
proof -
  let ?r = "w_resolutions w ! t"
  have t: "t < length (w_resolutions w)" using step by (auto simp: resolution_step_def split: if_splits)
  have live: "\<not> resolution_over ?r" using step
    by (auto simp: resolution_step_def Let_def resolution_over_def split: if_splits container_event.splits)
  have goes_on: "world_ok (set_state t st w)" if "\<nexists>x. st = ResolutionOver x" "under_way ?r" for st
    using set_state_ok[OF ok t live that(1)] that(2) by blast
  show ?thesis
  proof (cases "rs_state ?r")
    case AwaitContext
    then have "under_way ?r" by (simp add: under_way_def resolution_over_def)
    with goes_on step AwaitContext show ?thesis
      by (auto simp: resolution_step_def Let_def split: if_splits container_event.splits option.splits)
  next
    case (AwaitCreate vs)
    then have "under_way ?r" by (simp add: under_way_def resolution_over_def)
    with goes_on step AwaitCreate register_ok[OF ok t] disposed_ok show ?thesis
      by (auto simp: resolution_step_def Let_def split: if_splits container_event.splits)
  next
    case (AwaitDiscard e)
    then have "under_way ?r" by (simp add: under_way_def resolution_over_def)
    with goes_on step AwaitDiscard show ?thesis
      by (auto simp: resolution_step_def Let_def split: if_splits container_event.splits)
  next
    case (ResolutionSettled x)
    with step finally_ok[OF ok t live] show ?thesis
      by (auto simp: resolution_step_def Let_def split: if_splits container_event.splits)
  next
    case (ResolutionOver x)
    with live show ?thesis by (simp add: resolution_over_def)
  qed
qed

section \<open>Runs\<close>

text \<open>A call of \<open>dispose\<close> while the container is being disposed is left out.\<close>

fun careful :: "container_event \<Rightarrow> world \<Rightarrow> bool" where
  "careful (Dispose c) w = (\<not> ct_disposing (container w c))"
| "careful _ w = True"

lemma dispose_function_ok:
  assumes "world_ok w" and "c < length (w_containers w)" and "dispose_function c i v w = Some w'"
  shows "world_ok w'"
  using assms by (auto simp: dispose_function_def split: if_splits option.splits intro!: begin_ok)

lemma container_step_ok:
  assumes ok: "world_ok w" and step: "container_step depth ev w = Some w'" and careful: "careful ev w"
  shows "world_ok w'"
proof (cases ev)
  case (Resolve c i)
  with step show ?thesis using well_ok[OF resolve_well[OF ok]] by (auto simp: resolve_def split: if_splits)
next
  case (Inject c i args scope)
  with step obtain p where "inject depth c i args scope w = Some (p, w')" "c < length (w_containers w)" by (auto split: if_splits)
  with inject_well[OF ok] show ?thesis using well_ok by blast
next
  case (DisposalGoesOn k)
  with step disposal_step_ok[OF ok] show ?thesis by (auto split: if_splits)
next
  case (DisposalFailed k)
  with step disposal_failure_ok[OF ok] show ?thesis by (auto split: if_splits)
next
  case (Dispose c)
  with step careful dispose_ok[OF ok] show ?thesis by (auto split: if_splits)
next
  case (DisposeFunction c i v)
  with step dispose_function_ok[OF ok] show ?thesis by (auto split: if_splits)
qed (use step ok in \<open>auto simp: provide_def withhold_def split: if_splits
       intro: well_ok[OF create_context_well] well_ok[OF initialize_well] provisions_ok fork_ok resolution_step_ok\<close>)

inductive reaches :: "nat \<Rightarrow> world \<Rightarrow> bool" for depth where
  reaches_new: "reaches depth (new_world injectFn disposeFn)"
| reaches_step: "reaches depth w \<Longrightarrow> careful ev w \<Longrightarrow> container_step depth ev w = Some w' \<Longrightarrow> reaches depth w'"

lemma new_world_ok: "world_ok (new_world injectFn disposeFn)"
  by (auto simp: world_ok_def new_world_def disposals_ok_def intro!: container_okI)
    (simp_all add: container_def new_container_def)

lemma reaches_ok: "reaches depth w \<Longrightarrow> world_ok w"
  by (induction rule: reaches.induct) (auto intro: new_world_ok container_step_ok)

end
