(* ===== verification/ContainerProperties.thy ===== *)
theory ContainerProperties
  imports ContainerInvariant
begin

text \<open>
  What the containers promise: one instance for each injectable that is not transient, instances only in
  containers whose scope suits them, and a disposal that forgets an instance only after its hook
  was called. The last section has two interleavings in which an instance is forgotten without.
\<close>

section \<open>What a disposal has still to do\<close>

text \<open>
  While a container is disposed its instances are among those that are still to come, and the
  hooks of the one that is awaited have been called.
\<close>

definition disposal_covers :: "world \<Rightarrow> nat \<Rightarrow> disposal \<Rightarrow> bool" where
  "disposal_covers w c d \<longleftrightarrow>
     (\<forall>order i hs. d = DisposeInjectables True order \<longrightarrow> map_get (ct_instances (container w c)) i = Some hs \<longrightarrow> i \<in> set order)
   \<and> (\<forall>order i j hs. d = AwaitInjectable True i order \<longrightarrow> map_get (ct_instances (container w c)) j = Some hs \<longrightarrow>
        j \<in> set (i # order) \<and> (j = i \<longrightarrow> (\<forall>h \<in> set hs. isDisposable (ih_injectable h) \<longrightarrow> (c, h) \<in> set (w_disposed w))))"

definition covered :: "world \<Rightarrow> bool" where
  "covered w \<longleftrightarrow> (\<forall>(c, d) \<in> set (w_disposals w). disposal_covers w c d)"

definition settles_at :: "nat \<Rightarrow> world \<Rightarrow> world \<Rightarrow> bool" where
  "settles_at c w w' \<longleftrightarrow> set (w_disposed w) \<subseteq> set (w_disposed w')
     \<and> (\<forall>i hs'. map_get (ct_instances (container w' c)) i = Some hs' \<longrightarrow>
          (\<exists>hs. map_get (ct_instances (container w c)) i = Some hs \<and> set hs' \<subseteq> set hs))"

lemma settles_covers: "settles_at c w w' \<Longrightarrow> disposal_covers w c d \<Longrightarrow> disposal_covers w' c d"
  unfolding settles_at_def disposal_covers_def by (smt (verit, ccfv_threshold) subsetD)

lemma covers_other: "\<not> whole d \<or> d = DrainResolutions \<Longrightarrow> disposal_covers w c d"
  by (auto simp: disposal_covers_def)

lemma settles_same: "ct_instances (container w' c) = ct_instances (container w c) \<Longrightarrow> w_disposed w' = w_disposed w \<Longrightarrow> settles_at c w w'"
  by (simp add: settles_at_def)

lemma covered_change:
  assumes "covered w" and "\<And>c d. (c, d) \<in> set (w_disposals w') \<Longrightarrow> (c, d) \<in> set (w_disposals w) \<or> disposal_covers w' c d"
    and "\<And>c d. (c, d) \<in> set (w_disposals w) \<Longrightarrow> settles_at c w w' \<or> disposal_covers w' c d"
  shows "covered w'"
  unfolding covered_def using assms settles_covers unfolding covered_def by fastforce

lemma resolving_covered: "covered w \<Longrightarrow> resolves_well w js w' \<Longrightarrow> covered w'"
  by (rule covered_change) (auto simp: resolves_well_def resolve_frame_def settles_at_def)

lemma begun_covered: "covered w \<Longrightarrow> \<not> whole d \<or> d = DrainResolutions \<Longrightarrow> covered (begin_disposal c d w)"
  by (rule covered_change) (auto simp: begin_disposal_def settles_at_def container_def covers_other)

section \<open>Steps of a disposal\<close>

lemma disposeHandle_world:
  "ct_instances (container (disposeHandle c h w) c') = ct_instances (container w c')"
  "w_disposed (disposeHandle c h w) = w_disposed w @ (if isDisposable (ih_injectable h) then [(c, h)] else [])"
  by (auto simp: disposeHandle_def Let_def container_update container_def[of "_\<lparr>w_disposed := _\<rparr>"] simp flip: container_def)

lemma dispose_handles_world:
  "ct_instances (container (dispose_handles c hs w) c') = ct_instances (container w c')"
  "w_disposed (dispose_handles c hs w) = w_disposed w @ map (Pair c) (filter (\<lambda>h. isDisposable (ih_injectable h)) hs)"
  unfolding dispose_handles_def by (induction hs arbitrary: w) (simp_all add: disposeHandle_world)

text \<open>One disposal changes to \<open>d'\<close>, with instances only removed.\<close>

lemma advance_covered:
  assumes "covered w" and "k < length (w_disposals w)" and "w_disposals w ! k = (c, d)"
    and "w_disposals v = w_disposals w" and "\<And>c. settles_at c w v" and "disposal_covers v c d'"
  shows "covered (set_disposal k d' v)"
proof -
  have same: "settles_at c' w (set_disposal k d' v)" for c' using assms(5)[of c'] by (simp add: settles_at_def set_disposal_def container_def)
  have set: "set (w_disposals (set_disposal k d' v)) \<subseteq> insert (c, d') (set (w_disposals w))"
    using assms(2-4) by (auto simp: set_disposal_def dest: subsetD[OF set_update_subset_insert])
  have "disposal_covers (set_disposal k d' v) c d'" using assms(6) by (simp add: disposal_covers_def set_disposal_def container_def)
  with set have "(c', e) \<in> set (w_disposals w) \<or> disposal_covers (set_disposal k d' v) c' e"
    if "(c', e) \<in> set (w_disposals (set_disposal k d' v))" for c' e using that by blast
  then show ?thesis by (rule covered_change[OF assms(1) _ disjI1[OF same]])
qed

lemma fewer_settles: "fewer_instances (container w c) (f (container w c)) \<Longrightarrow> settles_at c' w (update_container c f w)"
  by (auto simp: settles_at_def container_update fewer_instances_def) blast+

lemma disposal_step_covered:
  assumes ok: "world_ok w" and cov: "covered w" and k: "k < length (w_disposals w)" and step: "disposal_step k w = Some w'"
  shows "covered w'"
proof -
  obtain c d where d: "w_disposals w ! k = (c, d)" by (cases "w_disposals w ! k")
  note advance = advance_covered[OF cov k d]
  have wf: "wf_map (ct_instances (container w c))"
    using container_okD(2) ok disposals_okD(1)[OF ok k d] by (simp add: world_ok_def)
  have now: "disposal_covers w c d" using cov k d unfolding covered_def by (metis nth_mem case_prodD)
  show ?thesis
  proof (cases d)
    case DrainResolutions
    then have w': "w' = set_disposal k (DisposeInjectables True (getDisposalOrder (container w c))) w"
      using step d by (auto simp: disposal_step_def split: if_splits)
    have "fst ` set (ct_instances (container w c)) = set (getDisposalOrder (container w c))"
      using graph.search_result[of "container w c"] by (simp add: getDisposalOrder_search)
    then have "disposal_covers w c (DisposeInjectables True (getDisposalOrder (container w c)))"
      by (force simp: disposal_covers_def dest: map_of_SomeD)
    then show ?thesis unfolding w' by (intro advance) (simp_all add: settles_same)
  next
    case (DisposeInjectables b order)
    show ?thesis
    proof (cases order)
      case Nil
      define v where "v = (if b then update_container c clear_container w else w)"
      have "w' = set_disposal k DisposalOver v" using step d DisposeInjectables Nil by (cases b) (simp_all add: disposal_step_def v_def)
      moreover have "settles_at c' w v" for c' by (auto simp: v_def settles_at_def container_update clear_container_def)
      moreover have "w_disposals v = w_disposals w" by (simp add: v_def)
      ultimately show ?thesis by (simp add: advance covers_other)
    next
      case (Cons i rest)
      show ?thesis
      proof (cases "map_get (ct_instances (container w c)) i")
        case None
        then have w': "w' = set_disposal k (DisposeInjectables b rest) w"
          using step d DisposeInjectables Cons by (simp add: disposal_step_def split: bool.splits)
        have "disposal_covers w c (DisposeInjectables b rest)"
          using now None unfolding DisposeInjectables Cons disposal_covers_def by fastforce
        then show ?thesis unfolding w' by (intro advance) (simp_all add: settles_same)
      next
        case (Some handles)
        let ?v = "dispose_handles c handles w"
        have w': "w' = set_disposal k (AwaitInjectable b i rest) ?v"
          using Some step d DisposeInjectables Cons by (simp add: disposal_step_def split: bool.splits)
        have "disposal_covers ?v c (AwaitInjectable b i rest)"
          using now Some unfolding DisposeInjectables Cons disposal_covers_def dispose_handles_world by fastforce
        then show ?thesis unfolding w' by (intro advance) (simp_all add: settles_at_def dispose_handles_world)
      qed
    qed
  next
    case (AwaitInjectable b i rest)
    let ?v = "update_container c (forget_instances i) w"
    have w': "w' = set_disposal k (DisposeInjectables b rest) ?v" using step d AwaitInjectable by (simp add: disposal_step_def)
    have "disposal_covers ?v c (DisposeInjectables b rest)"
      using now disposals_okD(1)[OF ok k d] unfolding AwaitInjectable
      by (fastforce simp: disposal_covers_def container_update forget_instances_def)
    then show ?thesis unfolding w'
      by (intro advance) (simp_all add: fewer_settles[where c = c and f = "forget_instances i", OF forget_instances_fewer[OF wf]])
  next
    case (DisposeTransients hs)
    show ?thesis
    proof (cases hs)
      case Nil
      then show ?thesis using step d DisposeTransients advance[of w DisposalOver] by (simp add: disposal_step_def covers_other settles_same)
    next
      case (Cons h rest)
      then have "w' = set_disposal k (AwaitTransient h rest) (disposeHandle c h w)"
        using step d DisposeTransients by (simp add: disposal_step_def)
      then show ?thesis using advance[of "disposeHandle c h w" "AwaitTransient h rest"]
        by (simp add: covers_other settles_at_def disposeHandle_world)
    qed
  next
    case (AwaitTransient h rest)
    then have "w' = set_disposal k (DisposeTransients rest) (update_container c (forget_handle h) w)"
      using step d by (simp add: disposal_step_def)
    then show ?thesis using advance[of "update_container c (forget_handle h) w" "DisposeTransients rest"]
      by (simp add: covers_other fewer_settles[where c = c and f = "forget_handle h", OF forget_handle_fewer[OF wf]])
  next
    case DisposalOver
    then show ?thesis using step d by (simp add: disposal_step_def)
  qed
qed

section \<open>The other steps\<close>

text \<open>An instance is registered only in a container whose disposal still waits for resolutions.\<close>

lemma resolution_step_covered:
  assumes ok: "world_ok w" and cov: "covered w" and step: "resolution_step ev t w = Some w'"
  shows "covered w'"
proof -
  let ?r = "w_resolutions w ! t"
  have t: "t < length (w_resolutions w)" using step by (auto simp: resolution_step_def split: if_splits)
  have live: "\<not> resolution_over ?r" using step
    by (auto simp: resolution_step_def Let_def resolution_over_def split: if_splits container_event.splits)
  have same: "w_disposals w' = w_disposals w" "set (w_disposed w) \<subseteq> set (w_disposed w')"
      "c \<noteq> rs_container ?r \<Longrightarrow> ct_instances (container w' c) = ct_instances (container w c)" for c
    using step by (auto simp: resolution_step_def Let_def set_state_def update_container_def container_def nth_list_update
        split: if_splits container_event.splits resolution_state.splits option.splits)
  have "t \<in> set (ct_pending (container w (rs_container ?r)))"
    using ok t live by (simp add: world_ok_def resolution_ok_def Let_def)
  then have "\<not> whole d \<or> d = DrainResolutions" if "(rs_container ?r, d) \<in> set (w_disposals w)" for d
    using disposals_okD(3)[OF ok] that by (metis in_set_conv_nth length_pos_if_in_set less_nat_zero_code list.size(3))
  then have "settles_at c w w' \<or> disposal_covers w' c d" if "(c, d) \<in> set (w_disposals w)" for c d
    using that same by (cases "c = rs_container ?r") (auto simp: settles_at_def covers_other)
  with same(1) show ?thesis by (intro covered_change[OF cov]) auto
qed

lemma container_step_covered:
  assumes ok: "world_ok w" and cov: "covered w" and step: "container_step depth ev w = Some w'"
  shows "covered w'"
proof (cases ev)
  case (Resolve c i)
  with step show ?thesis using resolving_covered[OF cov resolve_well[OF ok]] by (auto simp: resolve_def split: if_splits)
next
  case (Inject c i args scope)
  with step obtain p where "inject depth c i args scope w = Some (p, w')" "c < length (w_containers w)" by (auto split: if_splits)
  with inject_well[OF ok] show ?thesis using resolving_covered[OF cov] by blast
next
  case (Fork c scope a b)
  with step have w': "w' = fork c scope a b w" by (auto split: if_splits)
  have "settles_at c' w w'" if "(c', d) \<in> set (w_disposals w)" for c' d
  proof -
    have "c' < length (w_containers w)" using that disposals_okD(1)[OF ok] by (metis in_set_conv_nth)
    then show ?thesis unfolding w' by (intro settles_same) (simp_all add: container_fork, simp add: fork_def)
  qed
  then show ?thesis by (intro covered_change[OF cov]) (auto simp: w' fork_def)
next
  case (DisposalGoesOn k)
  with step disposal_step_covered[OF ok cov] show ?thesis by (auto split: if_splits)
next
  case (DisposalFailed k)
  with step obtain c h rest where k: "k < length (w_disposals w)" "w_disposals w ! k = (c, AwaitTransient h rest)"
      and w': "w' = set_disposal k DisposalOver w"
    by (cases "w_disposals w ! k") (auto simp: disposal_failure_def split: if_splits disposal.splits)
  show ?thesis unfolding w' by (rule advance_covered[OF cov k]) (simp_all add: settles_same covers_other)
next
  case (Dispose c)
  have "covered (update_container c (\<lambda>ct. ct\<lparr>ct_disposing := True\<rparr>) w)"
    by (rule covered_change[OF cov]) (auto simp: settles_at_def container_update)
  with Dispose step show ?thesis by (auto simp: dispose_def begun_covered split: if_splits)
next
  case (DisposeFunction c i v)
  with step begun_covered[OF cov] show ?thesis by (auto simp: dispose_function_def split: if_splits option.splits)
next
  case (Provide c token entry)
  with step show ?thesis by (intro covered_change[OF cov]) (auto simp: provide_def settles_at_def container_update split: if_splits)
next
  case (Withhold c token)
  with step show ?thesis by (intro covered_change[OF cov]) (auto simp: withhold_def settles_at_def container_update split: if_splits)
qed (use step ok cov in \<open>auto split: if_splits
       intro: resolving_covered[OF _ create_context_well] resolving_covered[OF _ initialize_well] resolution_step_covered\<close>)

lemma reachable_covered: "reaches depth w \<Longrightarrow> covered w"
proof (induction rule: reaches.induct)
  case (reaches_new a b)
  show ?case by (simp add: covered_def new_world_def)
next
  case (reaches_step w ev w')
  then show ?case using container_step_covered reaches_ok by blast
qed

section \<open>Sample runs\<close>

primrec careful_along :: "nat \<Rightarrow> container_event list \<Rightarrow> world \<Rightarrow> bool" where
  "careful_along depth [] w \<longleftrightarrow> True"
| "careful_along depth (ev # evs) w \<longleftrightarrow> careful ev w
     \<and> (case container_step depth ev w of None \<Rightarrow> False | Some w' \<Rightarrow> careful_along depth evs w')"

lemma careful_run_reachable:
  "reaches depth w \<Longrightarrow> careful_along depth evs w \<Longrightarrow> \<exists>w'. container_run depth evs w = Some w' \<and> reaches depth w'"
proof (induction evs arbitrary: w)
  case (Cons ev evs)
  then obtain v where "careful ev w" "container_step depth ev w = Some v" "careful_along depth evs v"
    by (auto split: option.splits)
  with Cons.IH[of v] reaches_step[OF Cons.prems(1)] show ?case by simp
qed simp

definition after_run :: "container_event list \<Rightarrow> world" where
  "after_run evs = the (container_run 5 evs (new_world 0 1))"

lemma after_run_reachable: "careful_along 5 evs (new_world 0 1) \<Longrightarrow> reaches 5 (after_run evs)"
  using careful_run_reachable[OF reaches_new[of 5 0 1], of evs] by (auto simp: after_run_def)

text \<open>The repository is resolved, with the database it depends on; then it is asked for again.\<close>

definition resolved_events :: "container_event list" where
  "resolved_events = [Resolve 0 repository, ContextReady 0, Created 0 2 2, Finally 0, ContextReady 1, Created 1 3 3, Finally 1, Resolve 0 repository]"

lemma resolved_reachable: "reaches 5 (after_run resolved_events)"
  by (rule after_run_reachable) code_simp

lemma resolved_containers:
  "length (w_containers (after_run resolved_events)) = 1" "ct_scope (container (after_run resolved_events) 0) = GlobalScope"
  by code_simp+

lemma resolved_instance:
  "map_get (ct_instances (container (after_run resolved_events) 0)) repository =
     Some [\<lparr>ih_id = 1, ih_injectable = repository, ih_private = 3, ih_public = 3, ih_context = [(''db'', Some 2)]\<rparr>]"
  by code_simp

definition drained_events :: "container_event list" where
  "drained_events = resolved_events @ [Dispose 0, DisposalGoesOn 0, DisposalGoesOn 0]"

lemma drained_reachable: "reaches 5 (after_run drained_events)"
  by (rule after_run_reachable) code_simp

lemma drained_disposals:
  "w_disposals (after_run drained_events) = [(0, AwaitInjectable True repository [database])]"
  "map_get (ct_instances (container (after_run drained_events) 0)) repository =
     Some [\<lparr>ih_id = 1, ih_injectable = repository, ih_private = 3, ih_public = 3, ih_context = [(''db'', Some 2)]\<rparr>]"
  "isDisposable repository"
  by code_simp+

section \<open>Instances\<close>

lemma at_most_one:
  assumes "\<And>t u. t < length xs \<Longrightarrow> u < length xs \<Longrightarrow> P (xs ! t) \<Longrightarrow> P (xs ! u) \<Longrightarrow> t = u"
  shows "length (filter P xs) \<le> 1"
proof -
  have "card {t. t < length xs \<and> P (xs ! t)} \<le> 1"
    using assms by (auto simp: card_le_Suc0_iff_eq)
  then show ?thesis by (simp add: length_filter_conv_card)
qed

text \<open>
  C16: in every state that the events lead to, a container has at most one instance of an
  injectable that is not transient, at most one resolution of it in flight, and no resolution that
  could still register another instance beside the one it has: callers at any moment, during the
  resolution as well as after it, get the same object.
\<close>

theorem one_instance_per_container:
  assumes "reaches depth w" and "c < length (w_containers w)" and "inj_scope i \<noteq> TransientScope"
  shows "length (case map_get (ct_instances (container w c)) i of None \<Rightarrow> [] | Some hs \<Rightarrow> hs)
      + length (filter (\<lambda>r. rs_container r = c \<and> rs_injectable r = i \<and> under_way r) (w_resolutions w)) \<le> 1
    \<and> length (filter (\<lambda>r. rs_container r = c \<and> rs_injectable r = i \<and> \<not> resolution_over r) (w_resolutions w)) \<le> 1"
proof -
  note ok = reaches_ok[OF assms(1)]
  have row: "map_get (ct_resolving (container w c)) i = Some t \<and> (under_way (w_resolutions w ! t) \<longrightarrow> instance_free (container w c) i)"
    if "t < length (w_resolutions w)" "rs_container (w_resolutions w ! t) = c" "rs_injectable (w_resolutions w ! t) = i"
      "\<not> resolution_over (w_resolutions w ! t)" for t
    using ok that assms(3) by (auto simp: world_ok_def resolution_ok_def Let_def)
  have one: "length (filter (\<lambda>r. rs_container r = c \<and> rs_injectable r = i \<and> \<not> resolution_over r) (w_resolutions w)) \<le> 1"
    by (rule at_most_one) (metis row option.inject)
  have few: "length (filter (\<lambda>r. rs_container r = c \<and> rs_injectable r = i \<and> under_way r) (w_resolutions w)) \<le> 1"
    by (rule at_most_one) (metis row option.inject under_way_def)
  have single: "length (case map_get (ct_instances (container w c)) i of None \<Rightarrow> [] | Some hs \<Rightarrow> hs) \<le> 1"
    using container_okD(4)[of w c i] ok assms(2,3) by (cases "map_get (ct_instances (container w c)) i") (auto simp: world_ok_def)
  have free: "filter (\<lambda>r. rs_container r = c \<and> rs_injectable r = i \<and> under_way r) (w_resolutions w) = []"
    if "(case map_get (ct_instances (container w c)) i of None \<Rightarrow> [] | Some hs \<Rightarrow> hs) \<noteq> []"
  proof (rule ccontr)
    assume "filter (\<lambda>r. rs_container r = c \<and> rs_injectable r = i \<and> under_way r) (w_resolutions w) \<noteq> []"
    then obtain t where t: "t < length (w_resolutions w)" "rs_container (w_resolutions w ! t) = c"
        "rs_injectable (w_resolutions w ! t) = i" "under_way (w_resolutions w ! t)"
      by (auto simp: filter_empty_conv in_set_conv_nth)
    with row[OF t(1-3)] have "instance_free (container w c) i" by (simp add: under_way_def)
    with that show False by (auto simp: instance_free_def)
  qed
  show ?thesis
  proof (cases "(case map_get (ct_instances (container w c)) i of None \<Rightarrow> [] | Some hs \<Rightarrow> hs) = []")
    case True
    then show ?thesis using one few unfolding True by simp
  next
    case False
    then show ?thesis using one single unfolding free[OF False] by simp
  qed
qed

theorem one_instance_per_container_witness:
  "map_get (ct_instances (container (after_run resolved_events) 0)) repository \<noteq> None
   \<and> length (case map_get (ct_instances (container (after_run resolved_events) 0)) repository of None \<Rightarrow> [] | Some hs \<Rightarrow> hs)
      + length (filter (\<lambda>r. rs_container r = 0 \<and> rs_injectable r = repository \<and> under_way r) (w_resolutions (after_run resolved_events))) \<le> 1"
proof -
  have "inj_scope repository \<noteq> TransientScope" by (simp add: repository_def)
  with one_instance_per_container[OF resolved_reachable, of 0 repository] resolved_instance show ?thesis
    by (simp add: resolved_containers)
qed

text \<open>
  C19: an instance, and a resolution, only ever belongs to a container that is at least as strict as
  the scope of the injectable and of everything it depends on, directly or through others: a
  longer-lived container never holds on to what belongs to a connection or a call.
\<close>

theorem instances_suit_their_container:
  assumes "reaches depth w" and "c < length (w_containers w)"
    and "map_get (ct_instances (container w c)) i = Some hs \<or> map_get (ct_resolving (container w c)) i = Some t"
  shows "getEffectiveInjectableScope i \<le> ct_scope (container w c)
    \<and> (\<forall>d. (\<lambda>i d. \<exists>k opt. (k, opt, d) \<in> set (inj_dependencies i))\<^sup>*\<^sup>* i d
          \<longrightarrow> own_position (inj_scope d) \<le> ct_scope (container w c))"
proof -
  note ok = reaches_ok[OF assms(1)]
  have cok: "container_ok w c" using ok assms(2) by (simp add: world_ok_def)
  have i: "getEffectiveInjectableScope i \<le> ct_scope (container w c)"
    using assms(3)
  proof
    assume "map_get (ct_instances (container w c)) i = Some hs"
    from container_okD(4)[OF cok this] show ?thesis by (simp add: satisfies_def)
  next
    assume "map_get (ct_resolving (container w c)) i = Some t"
    from container_okD(3)[OF cok this] ok show ?thesis by (auto simp: world_ok_def resolution_ok_def Let_def satisfies_def)
  qed
  have "getEffectiveInjectableScope d \<le> getEffectiveInjectableScope i"
    if "(\<lambda>i d. \<exists>k opt. (k, opt, d) \<in> set (inj_dependencies i))\<^sup>*\<^sup>* i d" for d
    using that by induction (auto dest: dependency_scope)
  with i show ?thesis using effective_scope_le order_trans by blast
qed

theorem instances_suit_their_container_witness:
  "getEffectiveInjectableScope repository \<le> GlobalScope \<and> own_position (inj_scope database) \<le> GlobalScope"
proof -
  have "(\<lambda>i d. \<exists>k opt. (k, opt, d) \<in> set (inj_dependencies i))\<^sup>*\<^sup>* repository database"
    by (intro r_into_rtranclp exI[of _ "''db''"] exI[of _ False]) (simp add: repository_def)
  with instances_suit_their_container[OF resolved_reachable _ disjI1[OF resolved_instance]] show ?thesis
    by (simp add: resolved_containers)
qed

text \<open>
  C17: the disposal of a container leaves nothing behind. At the moment its maps are cleared it has no
  instance any more and no resolution that is not over, and before an instance is forgotten on the
  way there its hook has been called.
\<close>

theorem disposal_leaves_nothing:
  assumes "reaches depth w" and "k < length (w_disposals w)"
  shows "(w_disposals w ! k = (c, DisposeInjectables True []) \<longrightarrow>
        ct_instances (container w c) = [] \<and> (\<forall>r \<in> set (w_resolutions w). rs_container r = c \<longrightarrow> resolution_over r))
    \<and> (\<forall>i order. w_disposals w ! k = (c, AwaitInjectable True i order) \<longrightarrow>
        (\<forall>hs h. map_get (ct_instances (container w c)) i = Some hs \<longrightarrow> h \<in> set hs \<longrightarrow> isDisposable (ih_injectable h)
          \<longrightarrow> (c, h) \<in> set (w_disposed w)))"
proof -
  note ok = reaches_ok[OF assms(1)]
  have now: "disposal_covers w c d" if "w_disposals w ! k = (c, d)" for d
    using reachable_covered[OF assms(1)] assms(2) that unfolding covered_def by (metis nth_mem case_prodD)
  have "ct_instances (container w c) = [] \<and> (\<forall>r \<in> set (w_resolutions w). rs_container r = c \<longrightarrow> resolution_over r)"
    if d: "w_disposals w ! k = (c, DisposeInjectables True [])"
  proof
    have "map_get (ct_instances (container w c)) i = None" for i
      using now[OF d] by (cases "map_get (ct_instances (container w c)) i") (auto simp: disposal_covers_def)
    then show "ct_instances (container w c) = []" by (simp flip: map_of_eq_empty_iff add: fun_eq_iff)
    have "ct_pending (container w c) = []" using disposals_okD(3)[OF ok assms(2) d] by simp
    then show "\<forall>r \<in> set (w_resolutions w). rs_container r = c \<longrightarrow> resolution_over r"
      using nothing_in_flight[OF ok] by (auto simp: in_set_conv_nth)
  qed
  moreover have "(c, h) \<in> set (w_disposed w)"
    if "w_disposals w ! k = (c, AwaitInjectable True i order)" "map_get (ct_instances (container w c)) i = Some hs" "h \<in> set hs"
      "isDisposable (ih_injectable h)" for i order hs h
    using now[OF that(1)] that(2-) by (auto simp: disposal_covers_def)
  ultimately show ?thesis by blast
qed

theorem disposal_leaves_nothing_witness:
  "(0, \<lparr>ih_id = 1, ih_injectable = repository, ih_private = 3, ih_public = 3, ih_context = [(''db'', Some 2)]\<rparr>)
     \<in> set (w_disposed (after_run drained_events))"
  using disposal_leaves_nothing[OF drained_reachable, of 0 0] drained_disposals by simp

section \<open>Interleavings that lose an instance\<close>

text \<open>
  Two calls of the function from \<open>createDisposeFunction\<close> for one injectable: both call the hook of the instance,
  the first forgets it, a new one is made, and the second forgets the new one without its hook.
\<close>

definition overlapping_events :: "container_event list" where
  "overlapping_events = [Resolve 0 database, ContextReady 0, Created 0 2 2, Finally 0,
     DisposeFunction 0 database None, DisposeFunction 0 database None, DisposalGoesOn 0, DisposalGoesOn 1, DisposalGoesOn 0,
     Resolve 0 database, ContextReady 1, Created 1 3 3, Finally 1, DisposalGoesOn 1]"

theorem overlapping_dispose_functions_lose_an_instance:
  "reaches 5 (after_run overlapping_events)
   \<and> isDisposable (rs_injectable (w_resolutions (after_run overlapping_events) ! 1))
   \<and> rs_state (w_resolutions (after_run overlapping_events) ! 1) = ResolutionOver (Inr 3)
   \<and> ct_instances (container (after_run overlapping_events) 0) = []
   \<and> map (\<lambda>(c, h). ih_public h) (w_disposed (after_run overlapping_events)) = [2, 2]"
proof -
  have "reaches 5 (after_run overlapping_events)" by (rule after_run_reachable) code_simp
  then show ?thesis by (rule conjI) code_simp
qed

text \<open>A second call of \<open>dispose\<close> while the first is under way: what is made between their ends is cleared.\<close>

definition twice_events :: "container_event list" where
  "twice_events = [Resolve 0 database, ContextReady 0, Created 0 2 2, Finally 0,
     Dispose 0, Dispose 0, DisposalGoesOn 0, DisposalGoesOn 1, DisposalGoesOn 0, DisposalGoesOn 1, DisposalGoesOn 0, DisposalGoesOn 0,
     Resolve 0 database, ContextReady 1, Created 1 3 3, Finally 1, DisposalGoesOn 1, DisposalGoesOn 1]"

theorem disposing_twice_loses_an_instance:
  "careful_along 5 twice_events (new_world 0 1) = False
   \<and> rs_state (w_resolutions (after_run twice_events) ! 1) = ResolutionOver (Inr 3)
   \<and> ct_instances (container (after_run twice_events) 0) = []
   \<and> w_disposals (after_run twice_events) = [(0, DisposalOver), (0, DisposalOver)]
   \<and> map (\<lambda>(c, h). ih_public h) (w_disposed (after_run twice_events)) = [2, 2]"
  by code_simp

end
