(* ===== verification/Binary.thy ===== *)
theory Binary
  imports Prelude "HOL-Library.Word"
begin

text \<open>
  The binary helpers of the wire protocol (\<open>packages/protocol/src/common/binary.ts\<close>) with what they use of the
  platform: little-endian numbers of a \<open>DataView\<close>, and UTF-8 as \<open>TextEncoder\<close>, \<open>TextDecoder\<close> and
  \<open>Buffer\<close> read and write it. Bytes are 8-bit words.
\<close>

type_synonym bytes = "8 word list"

section \<open>Numbers\<close>

datatype number_type = Uint8 | Uint16 | Uint32

primrec BYTES_PER_ELEMENT :: "number_type \<Rightarrow> nat" where
  "BYTES_PER_ELEMENT Uint8 = 1"
| "BYTES_PER_ELEMENT Uint16 = 2"
| "BYTES_PER_ELEMENT Uint32 = 4"

text \<open>The lowest byte first; what does not fit is cut off, as \<open>setUint32\<close> does.\<close>

primrec le_bytes :: "nat \<Rightarrow> int \<Rightarrow> bytes" where
  "le_bytes 0 v = []"
| "le_bytes (Suc n) v = word_of_int v # le_bytes n (v div 256)"

primrec le_value :: "bytes \<Rightarrow> int" where
  "le_value [] = 0"
| "le_value (b # bs) = uint b + 256 * le_value bs"

definition encodeNumber :: "int \<Rightarrow> number_type \<Rightarrow> bytes" where
  "encodeNumber v t = le_bytes (BYTES_PER_ELEMENT t) v"

text \<open>\<open>None\<close> is the \<open>RangeError\<close> of a read past the end of the view.\<close>

definition decodeNumber :: "bytes \<Rightarrow> number_type \<Rightarrow> nat \<Rightarrow> int option" where
  "decodeNumber buffer t offset =
     (if length buffer < offset + BYTES_PER_ELEMENT t then None
      else Some (le_value (take (BYTES_PER_ELEMENT t) (drop offset buffer))))"

lemma length_le_bytes [simp]: "length (le_bytes n v) = n"
  by (induction n arbitrary: v) simp_all

lemma length_encodeNumber [simp]: "length (encodeNumber v t) = BYTES_PER_ELEMENT t"
  by (simp add: encodeNumber_def)

lemma le_value_bytes: "le_value (le_bytes n v) = v mod 256 ^ n"
proof (induction n arbitrary: v)
  case (Suc n)
  have "le_value (le_bytes (Suc n) v) = v mod 256 + 256 * (v div 256 mod 256 ^ n)"
    by (simp add: Suc unsigned_of_int take_bit_eq_mod)
  also have "\<dots> = v mod 256 ^ Suc n" by (simp add: zmod_zmult2_eq)
  finally show ?case .
qed simp

definition number_limit :: "number_type \<Rightarrow> int" where
  "number_limit t = 256 ^ BYTES_PER_ELEMENT t"

lemma number_limits: "number_limit Uint8 = 2 ^ 8" "number_limit Uint16 = 2 ^ 16" "number_limit Uint32 = 2 ^ 32"
  by (simp_all add: number_limit_def)

lemma decode_encode_number: "decodeNumber (pre @ encodeNumber v t @ post) t (length pre) = Some (v mod number_limit t)"
  by (simp add: decodeNumber_def encodeNumber_def le_value_bytes number_limit_def)

lemma decode_encode_number_0: "decodeNumber (encodeNumber v t @ post) t 0 = Some (v mod number_limit t)"
  using decode_encode_number[of "[]"] by simp

section \<open>Text\<close>

text \<open>
  A JavaScript string is the list of its code points; a lone surrogate is one of its own. Encoding
  replaces a lone surrogate.
\<close>

type_synonym utf16 = "nat list"

definition replacement :: nat where
  "replacement = 0xFFFD"

definition surrogate :: "nat \<Rightarrow> bool" where
  "surrogate p \<longleftrightarrow> 0xD800 \<le> p \<and> p \<le> 0xDFFF"

definition byte :: "nat \<Rightarrow> 8 word" where
  "byte n = of_nat n"

definition utf8_scalar :: "nat \<Rightarrow> bytes" where
  "utf8_scalar p =
     (if p < 0x80 then [byte p]
      else if p < 0x800 then [byte (0xC0 + p div 64), byte (0x80 + p mod 64)]
      else if p < 0x10000 then [byte (0xE0 + p div 4096), byte (0x80 + p div 64 mod 64), byte (0x80 + p mod 64)]
      else [byte (0xF0 + p div 262144), byte (0x80 + p div 4096 mod 64), byte (0x80 + p div 64 mod 64), byte (0x80 + p mod 64)])"

definition encodeText :: "utf16 \<Rightarrow> bytes" where
  "encodeText cs = concat (map (\<lambda>p. utf8_scalar (if surrogate p then replacement else p)) cs)"

text \<open>
  The decoder of the Encoding Standard: a sequence is begun, with the code point so far, how many bytes are missing and
  the bounds of the next one. A byte out of bounds ends the sequence with a replacement and is read again.
\<close>

datatype utf8_state = Fresh | Begun nat nat nat nat

definition utf8_start :: "nat \<Rightarrow> utf8_state option" where
  "utf8_start b =
     (if 0xC2 \<le> b \<and> b \<le> 0xDF then Some (Begun (b - 0xC0) 1 0x80 0xBF)
      else if 0xE0 \<le> b \<and> b \<le> 0xEF then Some (Begun (b - 0xE0) 2 (if b = 0xE0 then 0xA0 else 0x80) (if b = 0xED then 0x9F else 0xBF))
      else if 0xF0 \<le> b \<and> b \<le> 0xF4 then Some (Begun (b - 0xF0) 3 (if b = 0xF0 then 0x90 else 0x80) (if b = 0xF4 then 0x8F else 0xBF))
      else None)"

function utf8_decode :: "utf8_state \<Rightarrow> bytes \<Rightarrow> utf16" where
  "utf8_decode Fresh [] = []"
| "utf8_decode (Begun p n lower upper) [] = [replacement]"
| "utf8_decode Fresh (b # bs) =
     (if unat b < 0x80 then unat b # utf8_decode Fresh bs
      else case utf8_start (unat b) of
        None \<Rightarrow> replacement # utf8_decode Fresh bs
      | Some st \<Rightarrow> utf8_decode st bs)"
| "utf8_decode (Begun p n lower upper) (b # bs) =
     (if lower \<le> unat b \<and> unat b \<le> upper
      then (let q = p * 64 + (unat b - 0x80)
            in if n \<le> 1 then q # utf8_decode Fresh bs else utf8_decode (Begun q (n - 1) 0x80 0xBF) bs)
      else replacement # utf8_decode Fresh (b # bs))"
  by pat_completeness auto
termination
  by (relation "measures [\<lambda>(st, bs). length bs, \<lambda>(st, bs). case st of Fresh \<Rightarrow> 0 | Begun _ _ _ _ \<Rightarrow> 1]") auto

text \<open>\<open>buffer.toString('utf-8')\<close> keeps a byte order mark, \<open>TextDecoder\<close> drops one at the start.\<close>

definition buffer_toString :: "bytes \<Rightarrow> utf16" where
  "buffer_toString bs = utf8_decode Fresh bs"

definition decodeText :: "bytes \<Rightarrow> utf16" where
  "decodeText bs = (case utf8_decode Fresh bs of [] \<Rightarrow> [] | p # rest \<Rightarrow> if p = 0xFEFF then rest else p # rest)"

section \<open>Text survives\<close>

definition scalar :: "nat \<Rightarrow> bool" where
  "scalar p \<longleftrightarrow> p < 0x110000 \<and> \<not> surrogate p"

lemma unat_byte: "n < 256 \<Longrightarrow> unat (byte n) = n"
  by (simp add: byte_def unsigned_of_nat take_bit_eq_mod)

text \<open>Sequences of two, three and four bytes, by the digits of the code point in base 64.\<close>

lemma decode_two: "2 \<le> a \<Longrightarrow> a < 32 \<Longrightarrow> b < 64 \<Longrightarrow>
    utf8_decode Fresh ([byte (0xC0 + a), byte (0x80 + b)] @ bs) = (a * 64 + b) # utf8_decode Fresh bs"
  by (simp add: unat_byte utf8_start_def)

lemma decode_three: "a < 16 \<Longrightarrow> b < 64 \<Longrightarrow> c < 64 \<Longrightarrow> (a = 0 \<longrightarrow> 32 \<le> b) \<Longrightarrow> (a = 13 \<longrightarrow> b < 32) \<Longrightarrow>
    utf8_decode Fresh ([byte (0xE0 + a), byte (0x80 + b), byte (0x80 + c)] @ bs) = (a * 4096 + b * 64 + c) # utf8_decode Fresh bs"
  by (auto simp: unat_byte utf8_start_def)

lemma decode_four: "a < 5 \<Longrightarrow> b < 64 \<Longrightarrow> c < 64 \<Longrightarrow> d < 64 \<Longrightarrow> (a = 0 \<longrightarrow> 16 \<le> b) \<Longrightarrow> (a = 4 \<longrightarrow> b < 16) \<Longrightarrow>
    utf8_decode Fresh ([byte (0xF0 + a), byte (0x80 + b), byte (0x80 + c), byte (0x80 + d)] @ bs)
      = (a * 262144 + b * 4096 + c * 64 + d) # utf8_decode Fresh bs"
  by (auto simp: unat_byte utf8_start_def)

lemma decode_scalar:
  assumes "scalar p"
  shows "utf8_decode Fresh (utf8_scalar p @ bs) = p # utf8_decode Fresh bs"
proof -
  define b c d where "b = p div 4096 mod 64" and "c = p div 64 mod 64" and "d = p mod 64"
  have small: "b < 64" "c < 64" "d < 64" by (simp_all add: b_def c_def d_def)
  have two: "p = p div 64 * 64 + d" by (simp add: d_def)
  have c: "p div 64 = p div 4096 * 64 + c"
    using div_mult_mod_eq[of "p div 64" 64] div_mult2_eq[of p 64 64] by (simp add: c_def)
  have b: "p div 4096 = p div 262144 * 64 + b"
    using div_mult_mod_eq[of "p div 4096" 64] div_mult2_eq[of p 4096 64] by (simp add: b_def)
  from two c have three: "p = p div 4096 * 4096 + c * 64 + d" by linarith
  from three b have four: "p = p div 262144 * 262144 + b * 4096 + c * 64 + d" by linarith
  consider "p < 0x80" | "0x80 \<le> p" "p < 0x800" | "0x800 \<le> p" "p < 0x10000" | "0x10000 \<le> p" by linarith
  then show ?thesis
  proof cases
    case 1
    then show ?thesis by (simp add: utf8_scalar_def unat_byte)
  next
    case 2
    with decode_two[of "p div 64" d bs] small two show ?thesis by (simp add: utf8_scalar_def flip: d_def)
  next
    case 3
    have "p div 4096 = 0 \<longrightarrow> 32 \<le> c" "p div 4096 = 13 \<longrightarrow> c < 32" using 3 three small assms
      unfolding scalar_def surrogate_def by linarith+
    with 3 decode_three[of "p div 4096" c d bs] small three show ?thesis by (simp add: utf8_scalar_def flip: c_def d_def)
  next
    case 4
    have "p div 262144 = 0 \<longrightarrow> 16 \<le> b" "p div 262144 = 4 \<longrightarrow> b < 16" "p div 262144 < 5" using 4 four small assms
      unfolding scalar_def by linarith+
    with 4 decode_four[of "p div 262144" b c d bs] small four show ?thesis by (simp add: utf8_scalar_def flip: b_def c_def d_def)
  qed
qed

lemma decode_encode_scalars: "list_all scalar cs \<Longrightarrow> utf8_decode Fresh (encodeText cs @ bs) = cs @ utf8_decode Fresh bs"
  by (induction cs) (auto simp: encodeText_def decode_scalar[unfolded scalar_def] scalar_def)

lemma toString_encode: "list_all scalar cs \<Longrightarrow> buffer_toString (encodeText cs) = cs"
  using decode_encode_scalars[of cs "[]"] by (simp add: buffer_toString_def)

lemma decodeText_encode: "list_all scalar cs \<Longrightarrow> take 1 cs \<noteq> [0xFEFF] \<Longrightarrow> decodeText (encodeText cs) = cs"
  using decode_encode_scalars[of cs "[]"] by (auto simp: decodeText_def split: list.split)

lemma encodeText_Nil [simp]: "encodeText [] = []"
  by (simp add: encodeText_def)

lemma encodeText_eq_Nil [simp]: "encodeText cs = [] \<longleftrightarrow> cs = []"
  by (cases cs) (simp_all add: encodeText_def utf8_scalar_def)

end
