(* ===== verification/Protocol.thy ===== *)
theory Protocol
  imports Binary
begin

text \<open>
  The first version of the wire protocol, for both ends (\<open>packages/protocol/src/client/versions/v1.ts\<close> and
  \<open>server/versions/v1.ts\<close>). A frame is one byte for the type of the message, then its fields. The format of RPC payloads is a
  codec that the context brings along, of which the JSON framing of responses is modelled below; reading and writing a payload may register streams in the context, which is
  the state the functions pass on. \<open>None\<close> is a thrown error.
\<close>

section \<open>Messages\<close>

datatype 'p client_message =
    Rpc int utf16 'p
  | RpcAbort int "utf16 option"
  | RpcStreamPull int int
  | Ping int
  | Pong int
  | ClientBlobPush int bytes
  | ClientBlobEnd int
  | ClientBlobAbort int "utf16 option"
  | ServerBlobPull int int
  | ServerBlobAbort int "utf16 option"

primrec ClientMessageType :: "'p client_message \<Rightarrow> int" where
  "ClientMessageType (Rpc _ _ _) = 10"
| "ClientMessageType (RpcAbort _ _) = 11"
| "ClientMessageType (RpcStreamPull _ _) = 12"
| "ClientMessageType (Ping _) = 13"
| "ClientMessageType (Pong _) = 14"
| "ClientMessageType (ClientBlobPush _ _) = 20"
| "ClientMessageType (ClientBlobEnd _) = 21"
| "ClientMessageType (ClientBlobAbort _ _) = 22"
| "ClientMessageType (ServerBlobAbort _ _) = 33"
| "ClientMessageType (ServerBlobPull _ _) = 34"

text \<open>What the server sends: the result and its streams, or an error, for a call.\<close>

datatype ('r, 'st, 'e) server_payload =
    SendResponse int 'r 'st "'e option"
  | SendStreamResponse int
  | SendStreamChunk int bytes
  | SendStreamEnd int
  | SendStreamAbort int "utf16 option"
  | SendPong int
  | SendPing int
  | SendServerBlobPush int bytes
  | SendServerBlobEnd int
  | SendServerBlobAbort int "utf16 option"
  | SendClientBlobAbort int "utf16 option"
  | SendClientBlobPull int int

primrec ServerMessageType :: "('r, 'st, 'e) server_payload \<Rightarrow> int" where
  "ServerMessageType (SendResponse _ _ _ _) = 10"
| "ServerMessageType (SendStreamResponse _) = 11"
| "ServerMessageType (SendStreamChunk _ _) = 12"
| "ServerMessageType (SendStreamEnd _) = 13"
| "ServerMessageType (SendStreamAbort _ _) = 14"
| "ServerMessageType (SendPong _) = 15"
| "ServerMessageType (SendPing _) = 16"
| "ServerMessageType (SendServerBlobPush _ _) = 20"
| "ServerMessageType (SendServerBlobEnd _) = 21"
| "ServerMessageType (SendServerBlobAbort _ _) = 22"
| "ServerMessageType (SendClientBlobAbort _ _) = 33"
| "ServerMessageType (SendClientBlobPull _ _) = 34"

text \<open>What the client reads.\<close>

datatype ('v, 'e) server_message =
    RpcError int 'e
  | RpcResult int 'v
  | RpcStreamResponse int "'e option"
  | RpcStreamChunk int bytes
  | RpcStreamEnd int
  | RpcStreamAbort int "utf16 option"
  | ServerPong int
  | ServerPing int
  | ClientBlobPulled int int
  | ClientBlobAborted int "utf16 option"
  | ServerBlobPushed int bytes
  | ServerBlobEnded int "utf16 option"
  | ServerBlobAborted int "utf16 option"

section \<open>Contexts\<close>

type_synonym ('s, 'a) effect = "'s \<Rightarrow> 'a option \<times> 's"

record ('s, 'p, 'v, 'e) client_context =
  cc_encodeRPC :: "'p \<Rightarrow> ('s, bytes) effect"
  cc_decode :: "bytes \<Rightarrow> 'e option"
  cc_decodeRPC :: "bytes \<Rightarrow> ('s, 'v) effect"

text \<open>The stream that a payload announces is registered with the call that brought it.\<close>

record ('s, 'v, 'r, 'st, 'e) server_context =
  sc_decodeRPC :: "int \<Rightarrow> bytes \<Rightarrow> ('s, 'v) effect"
  sc_encode :: "'e \<Rightarrow> bytes option"
  sc_encodeRPC :: "'r \<Rightarrow> 'st \<Rightarrow> bytes option"

section \<open>Encoding\<close>

text \<open>\<open>reason ? encodeText(reason) : new Uint8Array(0)\<close>; an empty reason is no reason.\<close>

definition encode_reason :: "utf16 option \<Rightarrow> bytes" where
  "encode_reason reason = (case reason of None \<Rightarrow> [] | Some cs \<Rightarrow> if cs = [] then [] else encodeText cs)"

fun client_fields :: "'p client_message \<Rightarrow> bytes" where
  "client_fields (Rpc callId procedure _) =
     encodeNumber callId Uint32 @ encodeNumber (int (length (encodeText procedure))) Uint16 @ encodeText procedure"
| "client_fields (RpcAbort callId reason) = encodeNumber callId Uint32 @ encode_reason reason"
| "client_fields (RpcStreamPull callId amount) = encodeNumber callId Uint32 @ encodeNumber amount Uint32"
| "client_fields (Ping nonce) = encodeNumber nonce Uint32"
| "client_fields (Pong nonce) = encodeNumber nonce Uint32"
| "client_fields (ClientBlobPush streamId chunk) = encodeNumber streamId Uint32 @ chunk"
| "client_fields (ClientBlobEnd streamId) = encodeNumber streamId Uint32"
| "client_fields (ClientBlobAbort streamId reason) = encodeNumber streamId Uint32 @ encode_reason reason"
| "client_fields (ServerBlobPull streamId amount) = encodeNumber streamId Uint32 @ encodeNumber amount Uint32"
| "client_fields (ServerBlobAbort streamId reason) = encodeNumber streamId Uint32 @ encode_reason reason"

definition client_encodeMessage :: "('s, 'p, 'v, 'e) client_context \<Rightarrow> 'p client_message \<Rightarrow> ('s, bytes) effect" where
  "client_encodeMessage ctx m s =
     (let frame = encodeNumber (ClientMessageType m) Uint8 @ client_fields m in
      case m of
        Rpc _ _ payload \<Rightarrow> (case cc_encodeRPC ctx payload s of (r, s1) \<Rightarrow> (map_option (\<lambda>bs. frame @ bs) r, s1))
      | _ \<Rightarrow> (Some frame, s))"

definition encode_response :: "('s, 'v, 'r, 'st, 'e) server_context \<Rightarrow> int \<Rightarrow> 'r \<Rightarrow> 'st \<Rightarrow> 'e option \<Rightarrow> bytes option" where
  "encode_response ctx callId result streams opt_error =
     (case opt_error of
        Some e \<Rightarrow> map_option (\<lambda>bs. encodeNumber callId Uint32 @ encodeNumber 1 Uint8 @ bs) (sc_encode ctx e)
      | None \<Rightarrow> map_option (\<lambda>bs. encodeNumber callId Uint32 @ encodeNumber 0 Uint8 @ bs) (sc_encodeRPC ctx result streams))"

fun server_fields :: "('s, 'v, 'r, 'st, 'e) server_context \<Rightarrow> ('r, 'st, 'e) server_payload \<Rightarrow> bytes option" where
  "server_fields ctx (SendResponse callId result streams opt_error) = encode_response ctx callId result streams opt_error"
| "server_fields ctx (SendStreamResponse callId) = Some (encodeNumber callId Uint32)"
| "server_fields ctx (SendStreamChunk callId chunk) = Some (encodeNumber callId Uint32 @ chunk)"
| "server_fields ctx (SendStreamEnd callId) = Some (encodeNumber callId Uint32)"
| "server_fields ctx (SendStreamAbort callId reason) = Some (encodeNumber callId Uint32 @ encode_reason reason)"
| "server_fields ctx (SendPong nonce) = Some (encodeNumber nonce Uint32)"
| "server_fields ctx (SendPing nonce) = Some (encodeNumber nonce Uint32)"
| "server_fields ctx (SendClientBlobPull streamId amount) = Some (encodeNumber streamId Uint32 @ encodeNumber amount Uint32)"
| "server_fields ctx (SendClientBlobAbort streamId reason) = Some (encodeNumber streamId Uint32 @ encode_reason reason)"
| "server_fields ctx (SendServerBlobPush streamId chunk) = Some (encodeNumber streamId Uint32 @ chunk)"
| "server_fields ctx (SendServerBlobEnd streamId) = Some (encodeNumber streamId Uint32)"
| "server_fields ctx (SendServerBlobAbort streamId reason) = Some (encodeNumber streamId Uint32 @ encode_reason reason)"

definition server_encodeMessage :: "('s, 'v, 'r, 'st, 'e) server_context \<Rightarrow> ('r, 'st, 'e) server_payload \<Rightarrow> bytes option" where
  "server_encodeMessage ctx m = map_option (\<lambda>fields. encodeNumber (ServerMessageType m) Uint8 @ fields) (server_fields ctx m)"

section \<open>Decoding\<close>

definition decode_reason :: "bytes \<Rightarrow> utf16 option" where
  "decode_reason bs = (if bs = [] then None else Some (decodeText bs))"

text \<open>The fields that most messages begin with: a number, and what follows it.\<close>

definition id_and_rest :: "bytes \<Rightarrow> (int \<Rightarrow> bytes \<Rightarrow> 'm option) \<Rightarrow> 'm option" where
  "id_and_rest payload k = Option.bind (decodeNumber payload Uint32 0) (\<lambda>n. k n (drop 4 payload))"

definition decode_rpc :: "('s, 'v, 'r, 'st, 'e) server_context \<Rightarrow> bytes \<Rightarrow> ('s, 'v client_message) effect" where
  "decode_rpc ctx payload s =
     (case (decodeNumber payload Uint32 0, decodeNumber payload Uint16 4) of
        (Some callId, Some procedureLength) \<Rightarrow>
          if length payload < 6 + nat procedureLength then (None, s)
          else (case sc_decodeRPC ctx callId (drop (6 + nat procedureLength) payload) s of
                  (r, s1) \<Rightarrow> (map_option (Rpc callId (buffer_toString (take (nat procedureLength) (drop 6 payload)))) r, s1))
      | _ \<Rightarrow> (None, s))"

definition server_decode_fields :: "int \<Rightarrow> bytes \<Rightarrow> 'v client_message option" where
  "server_decode_fields messageType payload =
     (if messageType = 11 then id_and_rest payload (\<lambda>callId rest. Some (RpcAbort callId (decode_reason rest)))
      else if messageType = 12 then
        if length payload \<noteq> 8 then None
        else id_and_rest payload (\<lambda>callId rest. map_option (RpcStreamPull callId) (decodeNumber payload Uint32 4))
      else if messageType = 13 then id_and_rest payload (\<lambda>nonce rest. Some (Ping nonce))
      else if messageType = 14 then id_and_rest payload (\<lambda>nonce rest. Some (Pong nonce))
      else if messageType = 33 then id_and_rest payload (\<lambda>streamId rest. Some (ServerBlobAbort streamId (decode_reason rest)))
      else if messageType = 34 then
        id_and_rest payload (\<lambda>streamId rest. map_option (ServerBlobPull streamId) (decodeNumber payload Uint32 4))
      else if messageType = 22 then id_and_rest payload (\<lambda>streamId rest. Some (ClientBlobAbort streamId (decode_reason rest)))
      else if messageType = 21 then id_and_rest payload (\<lambda>streamId rest. Some (ClientBlobEnd streamId))
      else if messageType = 20 then id_and_rest payload (\<lambda>streamId rest. Some (ClientBlobPush streamId rest))
      else None)"

definition server_decodeMessage :: "('s, 'v, 'r, 'st, 'e) server_context \<Rightarrow> bytes \<Rightarrow> ('s, 'v client_message) effect" where
  "server_decodeMessage ctx buffer s =
     (case decodeNumber buffer Uint8 0 of
        None \<Rightarrow> (None, s)
      | Some messageType \<Rightarrow>
          if messageType = 10 then decode_rpc ctx (drop 1 buffer) s
          else (server_decode_fields messageType (drop 1 buffer), s))"

definition decode_response :: "('s, 'p, 'v, 'e) client_context \<Rightarrow> bytes \<Rightarrow> ('s, ('v, 'e) server_message) effect" where
  "decode_response ctx payload s =
     (case (decodeNumber payload Uint32 0, decodeNumber payload Uint8 4) of
        (Some callId, Some isError) \<Rightarrow>
          if isError \<noteq> 0 then (map_option (RpcError callId) (cc_decode ctx (drop 5 payload)), s)
          else (case cc_decodeRPC ctx (drop 5 payload) s of (r, s1) \<Rightarrow> (map_option (RpcResult callId) r, s1))
      | _ \<Rightarrow> (None, s))"

definition client_decode_fields :: "('s, 'p, 'v, 'e) client_context \<Rightarrow> int \<Rightarrow> bytes \<Rightarrow> ('v, 'e) server_message option" where
  "client_decode_fields ctx messageType payload =
     (if messageType = 11 then
        id_and_rest payload (\<lambda>callId rest.
          if rest = [] then Some (RpcStreamResponse callId None)
          else map_option (\<lambda>e. RpcStreamResponse callId (Some e)) (cc_decode ctx rest))
      else if messageType = 12 then id_and_rest payload (\<lambda>callId rest. Some (RpcStreamChunk callId rest))
      else if messageType = 13 then id_and_rest payload (\<lambda>callId rest. Some (RpcStreamEnd callId))
      else if messageType = 14 then id_and_rest payload (\<lambda>callId rest. Some (RpcStreamAbort callId (decode_reason rest)))
      else if messageType = 15 then id_and_rest payload (\<lambda>nonce rest. Some (ServerPong nonce))
      else if messageType = 16 then id_and_rest payload (\<lambda>nonce rest. Some (ServerPing nonce))
      else if messageType = 34 then
        id_and_rest payload (\<lambda>streamId rest. map_option (ClientBlobPulled streamId) (decodeNumber payload Uint32 4))
      else if messageType = 33 then id_and_rest payload (\<lambda>streamId rest. Some (ClientBlobAborted streamId (decode_reason rest)))
      else if messageType = 20 then id_and_rest payload (\<lambda>streamId rest. Some (ServerBlobPushed streamId rest))
      else if messageType = 21 then id_and_rest payload (\<lambda>streamId rest. Some (ServerBlobEnded streamId (decode_reason rest)))
      else if messageType = 22 then id_and_rest payload (\<lambda>streamId rest. Some (ServerBlobAborted streamId (decode_reason rest)))
      else None)"

definition client_decodeMessage :: "('s, 'p, 'v, 'e) client_context \<Rightarrow> bytes \<Rightarrow> ('s, ('v, 'e) server_message) effect" where
  "client_decodeMessage ctx buffer s =
     (case decodeNumber buffer Uint8 0 of
        None \<Rightarrow> (None, s)
      | Some messageType \<Rightarrow>
          if messageType = 10 then decode_response ctx (drop 1 buffer) s
          else (client_decode_fields ctx messageType (drop 1 buffer), s))"

section \<open>The JSON codec of responses\<close>

text \<open>
  \<open>encodeRPC\<close> of the server and \<open>decodeRPC\<close> of the client (\<open>json/server.ts\<close>, \<open>json/client.ts\<close>): the length of the
  JSON text of the streams, that text, and the JSON text of the result unless it is \<open>undefined\<close>. \<open>JSON.stringify\<close>
  and \<open>JSON.parse\<close> are arguments; with streams, parsing takes the reviver that registers them.
\<close>

definition json_encodeRPC :: "('st \<Rightarrow> bool) \<Rightarrow> ('st \<Rightarrow> utf16) \<Rightarrow> ('r \<Rightarrow> utf16) \<Rightarrow> 'r option \<Rightarrow> 'st \<Rightarrow> bytes" where
  "json_encodeRPC hasStreams streams_json json data streams =
     (if hasStreams streams
      then (let encodedStreams = encodeText (streams_json streams)
            in encodeNumber (int (length encodedStreams)) Uint32 @ encodedStreams)
      else encodeNumber 0 Uint32)
     @ (case data of None \<Rightarrow> [] | Some d \<Rightarrow> encodeText (json d))"

definition json_decodeRPC ::
  "(utf16 \<Rightarrow> 'st option) \<Rightarrow> (utf16 \<Rightarrow> 'v option) \<Rightarrow> ('st \<Rightarrow> utf16 \<Rightarrow> ('s, 'v) effect) \<Rightarrow> bytes \<Rightarrow> ('s, 'v option) effect" where
  "json_decodeRPC parse_streams parse revive buffer s =
     (case decodeNumber buffer Uint32 0 of
        None \<Rightarrow> (None, s)
      | Some streamsLength \<Rightarrow>
          (let payloadBuffer = drop (4 + nat streamsLength) buffer in
           case (if streamsLength > 0
                 then map_option Some (parse_streams (decodeText (take (nat streamsLength) (drop 4 buffer)))) else Some None) of
             None \<Rightarrow> (None, s)
           | Some streams \<Rightarrow>
               if payloadBuffer = [] then (Some None, s)
               else (case streams of
                       Some st \<Rightarrow> (case revive st (decodeText payloadBuffer) s of (r, s1) \<Rightarrow> (map_option Some r, s1))
                     | None \<Rightarrow> (map_option Some (parse (decodeText payloadBuffer)), s))))"

end
