(* ===== verification/ProtocolProperties.thy ===== *)
theory ProtocolProperties
  imports Protocol
begin

text \<open>
  The two ends of the protocol understand each other: every message arrives as it was sent, whichever end sends it, and
  a server takes exactly the frames that are whole.
\<close>

section \<open>What can be sent\<close>

definition id_ok :: "int \<Rightarrow> bool" where
  "id_ok n \<longleftrightarrow> 0 \<le> n \<and> n < 2 ^ 32"

text \<open>No lone surrogates, and no byte order mark that \<open>TextDecoder\<close> would drop.\<close>

definition reason_ok :: "utf16 option \<Rightarrow> bool" where
  "reason_ok reason \<longleftrightarrow> (\<forall>cs. reason = Some cs \<longrightarrow> list_all scalar cs \<and> take 1 cs \<noteq> [0xFEFF])"

primrec client_message_ok :: "'p client_message \<Rightarrow> bool" where
  "client_message_ok (Rpc callId procedure _) \<longleftrightarrow> id_ok callId \<and> list_all scalar procedure \<and> length (encodeText procedure) < 2 ^ 16"
| "client_message_ok (RpcAbort callId reason) \<longleftrightarrow> id_ok callId \<and> reason_ok reason"
| "client_message_ok (RpcStreamPull callId amount) \<longleftrightarrow> id_ok callId \<and> id_ok amount"
| "client_message_ok (Ping nonce) \<longleftrightarrow> id_ok nonce"
| "client_message_ok (Pong nonce) \<longleftrightarrow> id_ok nonce"
| "client_message_ok (ClientBlobPush streamId _) \<longleftrightarrow> id_ok streamId"
| "client_message_ok (ClientBlobEnd streamId) \<longleftrightarrow> id_ok streamId"
| "client_message_ok (ClientBlobAbort streamId reason) \<longleftrightarrow> id_ok streamId \<and> reason_ok reason"
| "client_message_ok (ServerBlobPull streamId amount) \<longleftrightarrow> id_ok streamId \<and> id_ok amount"
| "client_message_ok (ServerBlobAbort streamId reason) \<longleftrightarrow> id_ok streamId \<and> reason_ok reason"

text \<open>An empty reason arrives as none.\<close>

definition arrived :: "utf16 option \<Rightarrow> utf16 option" where
  "arrived reason = (if reason = Some [] then None else reason)"

text \<open>The message that the other end has, the payload read as \<open>f\<close> says.\<close>

primrec client_message_received :: "('p \<Rightarrow> 'v) \<Rightarrow> 'p client_message \<Rightarrow> 'v client_message" where
  "client_message_received f (Rpc callId procedure p) = Rpc callId procedure (f p)"
| "client_message_received f (RpcAbort callId reason) = RpcAbort callId (arrived reason)"
| "client_message_received f (RpcStreamPull callId amount) = RpcStreamPull callId amount"
| "client_message_received f (Ping nonce) = Ping nonce"
| "client_message_received f (Pong nonce) = Pong nonce"
| "client_message_received f (ClientBlobPush streamId chunk) = ClientBlobPush streamId chunk"
| "client_message_received f (ClientBlobEnd streamId) = ClientBlobEnd streamId"
| "client_message_received f (ClientBlobAbort streamId reason) = ClientBlobAbort streamId (arrived reason)"
| "client_message_received f (ServerBlobPull streamId amount) = ServerBlobPull streamId amount"
| "client_message_received f (ServerBlobAbort streamId reason) = ServerBlobAbort streamId (arrived reason)"

primrec server_payload_ok :: "('r, 'st, 'e) server_payload \<Rightarrow> bool" where
  "server_payload_ok (SendResponse callId _ _ _) \<longleftrightarrow> id_ok callId"
| "server_payload_ok (SendStreamResponse callId) \<longleftrightarrow> id_ok callId"
| "server_payload_ok (SendStreamChunk callId _) \<longleftrightarrow> id_ok callId"
| "server_payload_ok (SendStreamEnd callId) \<longleftrightarrow> id_ok callId"
| "server_payload_ok (SendStreamAbort callId reason) \<longleftrightarrow> id_ok callId \<and> reason_ok reason"
| "server_payload_ok (SendPong nonce) \<longleftrightarrow> id_ok nonce"
| "server_payload_ok (SendPing nonce) \<longleftrightarrow> id_ok nonce"
| "server_payload_ok (SendServerBlobPush streamId _) \<longleftrightarrow> id_ok streamId"
| "server_payload_ok (SendServerBlobEnd streamId) \<longleftrightarrow> id_ok streamId"
| "server_payload_ok (SendServerBlobAbort streamId reason) \<longleftrightarrow> id_ok streamId \<and> reason_ok reason"
| "server_payload_ok (SendClientBlobAbort streamId reason) \<longleftrightarrow> id_ok streamId \<and> reason_ok reason"
| "server_payload_ok (SendClientBlobPull streamId amount) \<longleftrightarrow> id_ok streamId \<and> id_ok amount"

text \<open>The message that the client has, with the result \<open>v\<close> or the error \<open>e'\<close> it read.\<close>

primrec server_message_received :: "'v \<Rightarrow> 'f \<Rightarrow> ('r, 'st, 'e) server_payload \<Rightarrow> ('v, 'f) server_message" where
  "server_message_received v e' (SendResponse callId _ _ opt_error) =
     (if opt_error = None then RpcResult callId v else RpcError callId e')"
| "server_message_received v e' (SendStreamResponse callId) = RpcStreamResponse callId None"
| "server_message_received v e' (SendStreamChunk callId chunk) = RpcStreamChunk callId chunk"
| "server_message_received v e' (SendStreamEnd callId) = RpcStreamEnd callId"
| "server_message_received v e' (SendStreamAbort callId reason) = RpcStreamAbort callId (arrived reason)"
| "server_message_received v e' (SendPong nonce) = ServerPong nonce"
| "server_message_received v e' (SendPing nonce) = ServerPing nonce"
| "server_message_received v e' (SendServerBlobPush streamId chunk) = ServerBlobPushed streamId chunk"
| "server_message_received v e' (SendServerBlobEnd streamId) = ServerBlobEnded streamId None"
| "server_message_received v e' (SendServerBlobAbort streamId reason) = ServerBlobAborted streamId (arrived reason)"
| "server_message_received v e' (SendClientBlobAbort streamId reason) = ClientBlobAborted streamId (arrived reason)"
| "server_message_received v e' (SendClientBlobPull streamId amount) = ClientBlobPulled streamId amount"

section \<open>Fields\<close>

lemma id_and_rest_encoded [simp]:
  "id_and_rest (encodeNumber n Uint32 @ rest) k = k (n mod 2 ^ 32) rest"
  "id_and_rest (encodeNumber n Uint32) k = k (n mod 2 ^ 32) []"
  using decode_encode_number_0[of n Uint32 rest] decode_encode_number_0[of n Uint32 "[]"]
  by (simp_all add: id_and_rest_def number_limits)

lemma id_ok_mod: "id_ok n \<Longrightarrow> n mod 2 ^ 32 = n"
  by (simp add: id_ok_def)

lemma second_number [simp]:
  "decodeNumber (encodeNumber n Uint32 @ encodeNumber v t) t 4 = Some (v mod number_limit t)"
  "decodeNumber (encodeNumber n Uint32 @ encodeNumber v t @ rest) t 4 = Some (v mod number_limit t)"
  using decode_encode_number[of "encodeNumber n Uint32" v t "[]"] decode_encode_number[of "encodeNumber n Uint32" v t rest] by simp_all

lemma message_type [simp]: "decodeNumber (encodeNumber v Uint8 @ rest) Uint8 0 = Some (v mod 256)"
  using decode_encode_number_0[of v Uint8 rest] by (simp add: number_limits)

lemma reason_arrives [simp]: "reason_ok reason \<Longrightarrow> decode_reason (encode_reason reason) = arrived reason"
  by (auto simp: decode_reason_def encode_reason_def arrived_def reason_ok_def decodeText_encode split: option.split)

lemma decode_reason_Nil [simp]: "decode_reason [] = None"
  by (simp add: decode_reason_def)

lemma rpc_fields:
  assumes "id_ok callId" and "length (encodeText procedure) < 2 ^ 16" and "list_all scalar procedure"
  shows "decode_rpc ctx (client_fields (Rpc callId procedure p) @ bs) s =
     (case sc_decodeRPC ctx callId bs s of (r, s1) \<Rightarrow> (map_option (Rpc callId procedure) r, s1))"
  using assms decode_encode_number_0[of callId Uint32]
  by (simp add: decode_rpc_def number_limits toString_encode id_ok_mod[simplified])

section \<open>A codec\<close>

text \<open>Payloads that are bytes already; the context counts them.\<close>

definition plain_client :: "(nat, bytes, bytes, bytes) client_context" where
  "plain_client = \<lparr>cc_encodeRPC = (\<lambda>p s. (Some p, Suc s)), cc_decode = Some, cc_decodeRPC = (\<lambda>bs s. (Some bs, Suc s))\<rparr>"

definition plain_server :: "(nat, bytes, bytes, unit, bytes) server_context" where
  "plain_server = \<lparr>sc_decodeRPC = (\<lambda>callId bs s. (Some bs, Suc s)), sc_encode = Some, sc_encodeRPC = (\<lambda>r streams. Some r)\<rparr>"

section \<open>From the client to the server\<close>

text \<open>
  C20: what a client sends is what the server gets. Every message whose numbers fit in 32 bits, whose
  procedure name takes less than 64 KiB and whose texts are well formed is read back by the
  server as the same message, when the codec of the payload reads what it wrote; messages without a payload
  leave the context of the server alone.
\<close>

theorem client_frames_reach_server:
  assumes "client_message_ok m" and "client_encodeMessage cc m s = (Some frame, s')"
    and "\<And>callId procedure p bs. m = Rpc callId procedure p \<Longrightarrow> fst (cc_encodeRPC cc p s) = Some bs \<Longrightarrow>
      sc_decodeRPC sc callId bs t = (Some (f p), t')"
    and "(\<nexists>callId procedure p. m = Rpc callId procedure p) \<Longrightarrow> t' = t"
  shows "server_decodeMessage sc frame t = (Some (client_message_received f m), t')"
proof (cases m)
  case (Rpc callId procedure p)
  with assms(2) obtain bs where bs: "fst (cc_encodeRPC cc p s) = Some bs"
      and frame: "frame = encodeNumber 10 Uint8 @ client_fields m @ bs"
    by (auto simp: client_encodeMessage_def split: prod.splits)
  with Rpc assms(1) assms(3)[OF Rpc bs] show ?thesis
    unfolding frame Rpc server_decodeMessage_def message_type by (simp add: rpc_fields del: client_fields.simps)
qed (use assms(1,2,4) in \<open>auto simp: client_encodeMessage_def server_decodeMessage_def server_decode_fields_def number_limits id_ok_mod[simplified]\<close>)

theorem client_frames_reach_server_witness:
  "\<exists>frame. client_encodeMessage plain_client (Rpc 70000 [0x65, 0x20AC, 0x1F600] [1, 2]) 0 = (Some frame, 1)
     \<and> server_decodeMessage plain_server frame 0 = (Some (Rpc 70000 [0x65, 0x20AC, 0x1F600] [1, 2]), 1)"
proof -
  let ?m = "Rpc 70000 [0x65, 0x20AC, 0x1F600] [1, 2]"
  obtain frame where frame: "client_encodeMessage plain_client ?m 0 = (Some frame, 1)"
    by (simp add: client_encodeMessage_def plain_client_def)
  have "client_message_ok ?m" by (simp add: id_ok_def scalar_def surrogate_def encodeText_def utf8_scalar_def)
  from client_frames_reach_server[OF this frame, of plain_server 0 "\<lambda>p. p" 1] have
    "server_decodeMessage plain_server frame 0 = (Some ?m, 1)" by (simp add: plain_client_def plain_server_def)
  with frame show ?thesis by blast
qed

section \<open>From the server to the client\<close>

text \<open>
  C21: what a server sends is what the client gets. Every message whose numbers fit in 32 bits and whose reasons are
  well formed is read back by the client as the same message: a response with the result or the error that the codec
  of the client reads from what the codec of the server wrote for this very response, the chunks and the
  end of a stream, reasons of aborts, and the control messages. Only a response with a result touches the context.
\<close>

theorem server_frames_reach_client:
  assumes "server_payload_ok m" and "server_encodeMessage sc m = Some frame"
    and "\<And>callId r st bs. m = SendResponse callId r st None \<Longrightarrow> sc_encodeRPC sc r st = Some bs \<Longrightarrow> cc_decodeRPC cc bs s = (Some v, s')"
    and "\<And>callId r st e bs. m = SendResponse callId r st (Some e) \<Longrightarrow> sc_encode sc e = Some bs \<Longrightarrow> cc_decode cc bs = Some e'"
    and "(\<nexists>callId r st. m = SendResponse callId r st None) \<Longrightarrow> s' = s"
  shows "client_decodeMessage cc frame s = (Some (server_message_received v e' m), s')"
proof (cases m)
  case (SendResponse callId result streams opt_error)
  with assms(1) have id: "callId mod 2 ^ 32 = callId" by (simp add: id_ok_mod[simplified])
  show ?thesis
  proof (cases opt_error)
    case None
    with assms(2) SendResponse obtain bs where bs: "sc_encodeRPC sc result streams = Some bs"
        and frame: "frame = encodeNumber 10 Uint8 @ encodeNumber callId Uint32 @ encodeNumber 0 Uint8 @ bs"
      by (auto simp: server_encodeMessage_def encode_response_def)
    show ?thesis using assms(3)[OF SendResponse[unfolded None] bs] id decode_encode_number_0[of callId Uint32]
      unfolding frame client_decodeMessage_def SendResponse None
      by (simp add: decode_response_def number_limits)
  next
    case (Some e)
    with assms(2) SendResponse obtain bs where bs: "sc_encode sc e = Some bs"
        and frame: "frame = encodeNumber 10 Uint8 @ encodeNumber callId Uint32 @ encodeNumber 1 Uint8 @ bs"
      by (auto simp: server_encodeMessage_def encode_response_def)
    have "s' = s" using assms(5) SendResponse Some by simp
    then show ?thesis using assms(4)[OF SendResponse[unfolded Some] bs] id decode_encode_number_0[of callId Uint32]
      unfolding frame client_decodeMessage_def SendResponse Some
      by (simp add: decode_response_def number_limits)
  qed
qed (use assms(1,2,5) in \<open>auto simp: server_encodeMessage_def client_decodeMessage_def client_decode_fields_def number_limits id_ok_mod[simplified]\<close>)

text \<open>The JSON codec of the repository reads a response with its streams as it was written.\<close>

lemma json_response_read:
  assumes "length (encodeText (streams_json st)) < 2 ^ 32" and "hasStreams st" and "streams_json st \<noteq> []" and "json d \<noteq> []"
    and "list_all scalar (streams_json st)" "take 1 (streams_json st) \<noteq> [0xFEFF]"
    and "list_all scalar (json d)" "take 1 (json d) \<noteq> [0xFEFF]"
    and "parse_streams (streams_json st) = Some st'" and "revive st' (json d) s = (Some v, s')"
  shows "json_decodeRPC parse_streams parse revive (json_encodeRPC hasStreams streams_json json (Some d) st) s = (Some (Some v), s')"
proof -
  let ?bs = "encodeText (streams_json st)"
  have "decodeNumber (encodeNumber (int (length ?bs)) Uint32 @ rest) Uint32 0 = Some (int (length ?bs))" for rest
    using assms(1) by (simp add: decode_encode_number_0 number_limits)
  moreover have "0 < length ?bs" using assms(3) by simp
  ultimately show ?thesis using assms(2,4-)
    by (simp add: json_decodeRPC_def json_encodeRPC_def Let_def decodeText_encode)
qed

text \<open>A result with one stream: \<open>{"f":id}\<close> with the name of the file as the metadata, which the reviver puts in place.\<close>

definition json_server :: "(nat, utf16, utf16 option, utf16 list, utf16) server_context" where
  "json_server = \<lparr>sc_decodeRPC = (\<lambda>callId bs s. (None, s)), sc_encode = (\<lambda>e. Some (encodeText e)),
     sc_encodeRPC = (\<lambda>r streams. Some (json_encodeRPC (\<lambda>streams. streams \<noteq> []) concat (\<lambda>d. d) r streams))\<rparr>"

definition json_client :: "(nat, utf16, utf16 option, utf16) client_context" where
  "json_client = \<lparr>cc_encodeRPC = (\<lambda>p s. (None, s)), cc_decode = (\<lambda>bs. Some (decodeText bs)),
     cc_decodeRPC = json_decodeRPC Some Some (\<lambda>metadata d s. (Some (d @ metadata), Suc s))\<rparr>"

theorem server_frames_reach_client_witness:
  "\<exists>frame. server_encodeMessage json_server (SendResponse 9 (Some [0x66]) [[0x63, 0xE9]] None) = Some frame
     \<and> client_decodeMessage json_client frame 0 = (Some (RpcResult 9 (Some [0x66, 0x63, 0xE9])), 1)"
proof -
  let ?m = "SendResponse 9 (Some [0x66]) [[0x63, 0xE9]] None"
  obtain frame where frame: "server_encodeMessage json_server ?m = Some frame"
    by (simp add: server_encodeMessage_def encode_response_def json_server_def)
  have ok: "server_payload_ok ?m" by (simp add: id_ok_def)
  have "json_decodeRPC Some Some (\<lambda>metadata d s. (Some (d @ metadata), Suc s))
      (json_encodeRPC (\<lambda>streams. streams \<noteq> []) concat (\<lambda>d. d) (Some [0x66]) [[0x63, 0xE9]]) 0 = (Some (Some [0x66, 0x63, 0xE9]), 1)"
    by (rule json_response_read) (simp_all add: encodeText_def utf8_scalar_def scalar_def surrogate_def)
  then have "cc_decodeRPC json_client bs 0 = (Some (Some [0x66, 0x63, 0xE9]), 1)"
    if "?m = SendResponse callId r st None" "sc_encodeRPC json_server r st = Some bs" for callId r st bs
    using that by (auto simp: json_server_def json_client_def)
  from server_frames_reach_client[OF ok frame this, where e' = "[]"] frame show ?thesis by simp
qed

section \<open>Frames that are not whole\<close>

text \<open>
  C22: the server takes a frame exactly when it is whole: a known type, all the numbers of that type, no more than
  those for a pull of an RPC stream, and for a call a procedure name within the frame and a payload that the codec takes.
  Anything else is an error, so that no field is ever made up from bytes that were not sent.
\<close>

theorem server_takes_whole_frames:
  "fst (server_decodeMessage sc frame t) \<noteq> None \<longleftrightarrow>
     (case frame of
        [] \<Rightarrow> False
      | b # payload \<Rightarrow>
          (uint b = 10 \<and> (\<exists>callId n. decodeNumber payload Uint32 0 = Some callId \<and> decodeNumber payload Uint16 4 = Some n
              \<and> 6 + nat n \<le> length payload \<and> fst (sc_decodeRPC sc callId (drop (6 + nat n) payload) t) \<noteq> None))
        \<or> (uint b \<in> {11, 13, 14, 20, 21, 22, 33} \<and> 4 \<le> length payload)
        \<or> (uint b = 12 \<and> length payload = 8)
        \<or> (uint b = 34 \<and> 8 \<le> length payload))"
proof (cases frame)
  case Nil
  then show ?thesis by (simp add: server_decodeMessage_def decodeNumber_def)
next
  case (Cons b payload)
  have type: "decodeNumber (b # payload) Uint8 0 = Some (uint b)" by (simp add: decodeNumber_def)
  have fields: "server_decode_fields n payload \<noteq> None \<longleftrightarrow>
      (n \<in> {11, 13, 14, 20, 21, 22, 33} \<and> 4 \<le> length payload) \<or> (n = 12 \<and> length payload = 8) \<or> (n = 34 \<and> 8 \<le> length payload)"
    if "n \<noteq> 10" for n
    using that by (auto simp: server_decode_fields_def id_and_rest_def decodeNumber_def)
  have rpc: "fst (decode_rpc sc payload t) \<noteq> None \<longleftrightarrow>
      (\<exists>callId n. decodeNumber payload Uint32 0 = Some callId \<and> decodeNumber payload Uint16 4 = Some n
         \<and> 6 + nat n \<le> length payload \<and> fst (sc_decodeRPC sc callId (drop (6 + nat n) payload) t) \<noteq> None)"
    by (auto simp: decode_rpc_def split: option.splits prod.splits)
  show ?thesis
  proof (cases "uint b = 10")
    case True
    with rpc show ?thesis unfolding Cons server_decodeMessage_def type by simp
  next
    case False
    with fields[OF False] show ?thesis unfolding Cons server_decodeMessage_def type by simp
  qed
qed

section \<open>Long names\<close>

text \<open>
  The length of the procedure name is written with 16 bits and nothing checks that it fits: of a longer name the server
  takes the first part, and gives the rest of it to the codec as the payload.
\<close>

lemma long_procedure_is_cut:
  assumes "id_ok callId" and "length (encodeText procedure) = 2 ^ 16 + n" and "n < 2 ^ 16"
  shows "decode_rpc ctx (client_fields (Rpc callId procedure p) @ bs) s =
     (case sc_decodeRPC ctx callId (drop n (encodeText procedure) @ bs) s of
        (r, s1) \<Rightarrow> (map_option (Rpc callId (buffer_toString (take n (encodeText procedure)))) r, s1))"
proof -
  have "int (2 ^ 16 + n) mod 2 ^ 16 = int n" using assms(3) by simp
  with assms decode_encode_number_0[of callId Uint32] show ?thesis
    by (simp add: decode_rpc_def number_limits id_ok_mod[simplified])
qed

end
