(* ===== verification/Spec2Isabelle.thy ===== *)
theory Spec2Isabelle
  imports RunProperties NodeProperties QueueProperties Leases DataProperties CancelTree CoordinatorProperties SchedulerProperties
    AdvanceProperties AttemptProperties MaintenanceProperties ClientProperties WorkerPoolProperties
    DisposalOrder ContainerProperties ProtocolProperties
begin

text \<open>
  A verification of the durable workflow runtime (\<open>packages/workflows\<close>), of the dependency
  container (\<open>packages/core\<close>) and of the wire protocol (\<open>packages/protocol\<close>) of neemata.

  The program. Clients and schedules start runs of tasks and workflows. The store keeps runs, the
  nodes of a workflow, the children of a node and the attempts of a child; two command queues carry
  \<open>continue\<close> commands for coordinators and attempt commands for workers. A coordinator
  claims a continue command, leases the run, interprets the workflow over the stored rows (creating nodes,
  children, attempts and commands) and finishes the run when its nodes are done. A worker claims an
  attempt command, calls the user's handler under a heartbeat and settles the attempt, which wakes the
  coordinator again. Every part may crash between two writes, so rows are fenced by leases and tokens,
  commands are redelivered, and sweeps settle what nobody will finish. Handlers get their dependencies from a
  container that creates, shares and disposes instances. RPC clients and servers exchange binary frames.

  The theories, bottom up.

  \<^item> \<open>Prelude\<close>, \<open>Values\<close>, \<open>Status\<close>, \<open>ChildKey\<close>, \<open>State\<close>: JavaScript maps as association lists in
    insertion order (locale \<open>keyed_store\<close>) and comparison functions (locale \<open>comparator\<close>);
    values, \<open>valueKey\<close>, stored errors (\<open>errors.ts\<close>); the transition tables (\<open>status.ts\<close>,
    \<open>transitions.ts\<close>, locale \<open>status_machine\<close> interpreted for runs, nodes and attempts); child keys and
    durations; the rows and the closed-over state of \<open>in-memory.ts\<close> as one record \<open>runtime\<close>.
  \<^item> \<open>Runs\<close>, \<open>Nodes\<close>, \<open>Queues\<close>, \<open>Deletion\<close>: every operation of \<open>createInMemoryWorkflowRuntime\<close> as a
    function on that record. The clock, collation and number parsing of the host are fields of the record, so
    that clocks may stand still or go back.
  \<^item> \<open>Frames\<close>, \<open>Steps\<close>: what each operation leaves alone; the runtime as a step relation over all
    operations with any arguments, the locale \<open>runtime_invariant\<close> for what every step keeps and
    \<open>row_table\<close> for rows that only evolve. \<open>Samples\<close> and \<open>SampleWorkflow\<close> hold concrete states.
  \<^item> \<open>RunSafety\<close>, \<open>NodeSafety\<close>, \<open>QueueSafety\<close>: the invariants of the three groups of tables, each an
    interpretation of \<open>runtime_invariant\<close>; the contract of a delivery queue is the locale
    \<open>delivery_queue\<close>, interpreted for both queues. \<open>RunProperties\<close>, \<open>NodeProperties\<close>,
    \<open>QueueProperties\<close>, \<open>Leases\<close>, \<open>DataProperties\<close> state the results: legal and final statuses,
    idempotent and unique starts, attempts settled once and fenced when superseded, exclusive
    claims, bounded deliveries, round trips of keys.
  \<^item> \<open>Interfaces\<close>, \<open>Definitions\<close>, \<open>Coordinator\<close>, \<open>Scheduler\<close>, \<open>Advance\<close>, \<open>Continuation\<close>: the store
    and executor interfaces as records of operations with the in-memory and the lease-fenced instance;
    definitions, implementations and codec; \<open>wake.ts\<close> and \<open>coordinator/*.ts\<close>; \<open>scheduler.ts\<close>;
    the interpreter \<open>advance.ts\<close> with \<open>dispatch/*.ts\<close>; \<open>continuation.ts\<close>. An asynchronous
    function is a function on the state that returns a value or throws.
  \<^item> \<open>CoordinatorSteps\<close>, \<open>AdvanceSteps\<close>, \<open>AttemptSteps\<close>: these programs refine the step relation.
    The locale \<open>coordination\<close> lists what a program relies on, and is interpreted for the plain and for the
    fenced store; \<open>execution\<close> extends it by the heartbeats, acknowledgements and releases of claimed
    commands. The atomic completion of an adapter is a parameter, assumed to be a transaction over these
    operations. So every invariant above holds for every program. \<open>CoordinatorProperties\<close>, \<open>CancelTree\<close>,
    \<open>SchedulerProperties\<close>, \<open>AdvanceTermination\<close>, \<open>AdvanceProperties\<close> show what they achieve: a stale
    coordinator cannot write through a guarded operation of its store (those it is not guarded on are listed),
    a cancellation settles the family, due schedules fire, a pass ends, a finished workflow completes.
  \<^item> \<open>Attempts\<close>, \<open>Maintenance\<close>, \<open>Client\<close> with \<open>AttemptProperties\<close>, \<open>MaintenanceProperties\<close>,
    \<open>ClientProperties\<close>: \<open>worker/*.ts\<close> and \<open>client.ts\<close>: execution, retry and replay of attempts,
    the sweeps, pruning. \<open>DeadCommands\<close> relates the two lanes of dead commands to the sweep that marks them.
  \<^item> \<open>WorkerPool\<close>, \<open>WorkerPoolProperties\<close>: \<open>worker/loop.ts\<close> as a machine over the events of the
    event loop: accounting of claims, progress, the drain.
  \<^item> \<open>Injectables\<close>, \<open>Container\<close>, \<open>DisposalOrder\<close>, \<open>ContainerInvariant\<close>, \<open>ContainerProperties\<close>:
    \<open>injectables.ts\<close> and \<open>container.ts\<close>. Requests run synchronously; factories, disposal hooks and
    the continuations of promises are events in any order. One instance per container, suitable scopes, dependants
    disposed first (locale \<open>dependants_graph\<close>), nothing left after a disposal. A second \<open>dispose\<close> of a
    container that is being disposed is left out of these runs; what it loses is shown at the end.
  \<^item> \<open>Binary\<close>, \<open>Protocol\<close>, \<open>ProtocolProperties\<close>: \<open>common/binary.ts\<close> and the \<open>versions/v1.ts\<close> of both
    ends, on lists of 8-bit words, with UTF-8 as the platform reads and writes it: with the framing of
    RPC responses by \<open>json/server.ts\<close> and \<open>json/client.ts\<close>: what one end
    encodes the other decodes, and a server takes exactly the frames that are whole.

  Concurrency. Operations of the in-memory runtime do not await, so their interleavings are the sequences of
  steps, and the safety results hold for all of them. A program of a coordinator or worker is one function that
  runs without others in between, except where a handler runs: the order of heartbeats, timers, shutdown and
  steps of others is then an argument (\<open>race\<close>). The pool and the container are event machines.

  Bounds. \<open>cancelRunTree\<close> recurses at most as deep as identifiers were issued, since links lead to
  later runs (\<open>CancelTree\<close> shows that this is enough); a pass of the interpreter at most as deep as there
  are pending nodes (\<open>AdvanceTermination\<close>); \<open>pruneRuns\<close> takes at most as many rounds as there are runs
  (\<open>ClientProperties\<close>); the search for the disposal order nests at most as deep as there are instances
  (\<open>DisposalOrder\<close>). \<open>resolveInjectable\<close> takes the depth of the call stack as an argument and rejects
  beyond it, as an engine does. Numbers are doubles where the code computes with large or fractional ones;
  rounding is a parameter with the guarantees of IEEE 754 as a hypothesis.

  Parameters: user callbacks, schemas and handlers, the codec of RPC payloads, the cron parser, the atomic start and completion of an
  adapter, and the services of the host.

  Not modelled. The PostgreSQL adapter implements the interfaces by SQL, whose meaning is that of the
  database. The builders of definitions and implementations are types for the most part; what they produce is
  modelled. Of the client, the event stream \<open>watch\<close>; of the continuation, its renewal timer; of the registry, the
  static validation of routes; of the wakes, the delayed ones: they depend on timers and no row depends on them. The
  inspector, the process planning of neem, the gateway, application, RPC client, MessagePack codec, requests and stream
  references of the JSON codec, transports, build tools and the packages around them are I/O, sockets, build orchestration and re-exports.
\<close>

end
